(* ===== verification/Prelude.thy ===== *)
theory Prelude
  imports Main "HOL-Library.Word" "HOL-Library.List_Lexorder" "HOL-Library.Char_ord"
    "HOL-Library.Product_Lexorder" "HOL-Library.Sublist"
begin

text \<open>
  Shared vocabulary of the development: machine integer types, Rust's \<open>Result\<close> as a sum
  with its early-return bind, text as byte strings with the \<open>str\<close> operations the crates
  use (\<open>trim\<close>, \<open>strip_prefix\<close>, \<open>contains\<close>, ASCII lower case), number formatting and
  parsing (\<open>{}\<close>, \<open>{:x}\<close>, \<open>{:#x}\<close>, \<open>{:02x}\<close>, \<open>from_str_radix\<close>), the
  pagination \<open>skip(..).take(..)\<close>, and \<open>sort\<close>/\<open>dedup\<close> on vectors.

  Conventions: \<open>usize\<close> is \<open>nat\<close> (lengths and counters never reach the width), \<open>u64\<close>,
  \<open>u32\<close> and \<open>u8\<close> are words of their width, so \<open>+\<close> wraps as in a release build. A
  \<open>String\<close> is its list of bytes; white space and letter case are the ASCII ones.
\<close>

section \<open>Collections of facts\<close>

named_theorems result_simps \<open>rewriting of results and of the early-return bind\<close>
named_theorems text_eval \<open>evaluation of formatted numbers at concrete values\<close>
named_theorems list_bounds \<open>length bounds of paginated or truncated vectors\<close>

section \<open>Machine integers\<close>

type_synonym u8 = "8 word"
type_synonym u16 = "16 word"
type_synonym u32 = "32 word"
type_synonym u64 = "64 word"
type_synonym usize = nat

definition u64_max :: nat where
  "u64_max = 2 ^ 64 - 1"

text \<open>Rust's \<open>checked_sub\<close> and \<open>saturating_sub\<close> on \<open>u64\<close>.\<close>

definition checked_sub :: "u64 \<Rightarrow> u64 \<Rightarrow> u64 option" where
  "checked_sub a b = (if b \<le> a then Some (a - b) else None)"

definition saturating_sub :: "u64 \<Rightarrow> u64 \<Rightarrow> u64" where
  "saturating_sub a b = (if b \<le> a then a - b else 0)"

lemma unat_u64_less: "unat (x :: u64) < 2 ^ 64"
  using unsigned_less [of x] by simp

lemma unat_u8_less: "unat (x :: u8) < 256"
  using unsigned_less [of x, where ?'a = nat] by simp

lemma checked_sub_SomeD: "checked_sub a b = Some c \<Longrightarrow> c + b = a \<and> b \<le> a"
  by (auto simp: checked_sub_def split: if_splits)

lemma unat_saturating_sub: "unat (saturating_sub a b) = unat a - unat b"
  by (auto simp: saturating_sub_def unat_sub word_le_nat_alt)

section \<open>Results\<close>

text \<open>
  \<open>Result<T, E>\<close> is \<open>'e + 'a\<close>: \<open>Ok(x)\<close> is \<open>Inr x\<close>, \<open>Err(e)\<close> is \<open>Inl e\<close>. \<open>rbind\<close> is the
  \<open>?\<close> operator, \<open>ok_or\<close> is \<open>Option::ok_or_else\<close>, \<open>rmap_err\<close> is \<open>map_err\<close>.
\<close>

fun rbind :: "'e + 'a \<Rightarrow> ('a \<Rightarrow> 'e + 'b) \<Rightarrow> 'e + 'b" where
  "rbind (Inl e) f = Inl e"
| "rbind (Inr x) f = f x"

fun rmap :: "('a \<Rightarrow> 'b) \<Rightarrow> 'e + 'a \<Rightarrow> 'e + 'b" where
  "rmap f (Inl e) = Inl e"
| "rmap f (Inr x) = Inr (f x)"

fun rmap_err :: "('e \<Rightarrow> 'd) \<Rightarrow> 'e + 'a \<Rightarrow> 'd + 'a" where
  "rmap_err f (Inl e) = Inl (f e)"
| "rmap_err f (Inr x) = Inr x"

fun ok_or :: "'a option \<Rightarrow> 'e \<Rightarrow> 'e + 'a" where
  "ok_or None e = Inl e"
| "ok_or (Some x) e = Inr x"

definition is_ok :: "'e + 'a \<Rightarrow> bool" where
  "is_ok r = (case r of Inl _ \<Rightarrow> False | Inr _ \<Rightarrow> True)"

lemma is_ok_simps [simp]: "is_ok (Inr x)" "\<not> is_ok (Inl e)"
  by (simp_all add: is_ok_def)

lemma is_ok_iff: "is_ok r \<longleftrightarrow> (\<exists>x. r = Inr x)"
  by (cases r) auto

lemma rbind_eq_Inr [result_simps]: "rbind m f = Inr y \<longleftrightarrow> (\<exists>x. m = Inr x \<and> f x = Inr y)"
  by (cases m) auto

lemma rbind_eq_Inl [result_simps]:
  "rbind m f = Inl e \<longleftrightarrow> m = Inl e \<or> (\<exists>x. m = Inr x \<and> f x = Inl e)"
  by (cases m) auto

lemma rmap_eq_Inr [result_simps]: "rmap f m = Inr y \<longleftrightarrow> (\<exists>x. m = Inr x \<and> y = f x)"
  by (cases m) auto

lemma rmap_eq_Inl [result_simps, simp]: "rmap f m = Inl e \<longleftrightarrow> m = Inl e"
  by (cases m) auto

lemma rmap_err_eq_Inr [result_simps, simp]: "rmap_err f m = Inr y \<longleftrightarrow> m = Inr y"
  by (cases m) auto

lemma ok_or_eq_Inr [result_simps, simp]: "ok_or o' e = Inr x \<longleftrightarrow> o' = Some x"
  by (cases o') auto

lemma ok_or_eq_Inl [result_simps]: "ok_or o' e = Inl d \<longleftrightarrow> o' = None \<and> d = e"
  by (cases o') auto

lemma rbind_assoc: "rbind (rbind m f) g = rbind m (\<lambda>x. rbind (f x) g)"
  by (cases m) auto

text \<open>\<open>collect::<Result<Vec<_>>>\<close>: the first error wins.\<close>

fun rcollect :: "('e + 'a) list \<Rightarrow> 'e + 'a list" where
  "rcollect [] = Inr []"
| "rcollect (r # rs) = rbind r (\<lambda>x. rmap (\<lambda>xs. x # xs) (rcollect rs))"

lemma rcollect_Inr_iff: "rcollect rs = Inr xs \<longleftrightarrow> rs = map Inr xs"
  by (induction rs arbitrary: xs) (auto simp: result_simps)

lemma rcollect_length: "rcollect rs = Inr xs \<Longrightarrow> length xs = length rs"
  by (simp add: rcollect_Inr_iff)

lemma rcollect_Inl_mem: "rcollect rs = Inl e \<Longrightarrow> Inl e \<in> set rs"
  by (induction rs) (auto simp: result_simps)

section \<open>Stateful computations\<close>

text \<open>
  A computation that threads a state and stops at the first error is a function from the state to a
  result and the new state. What all its steps preserve, a reflexive and transitive relation
  between the states before and after, it preserves as a whole: the interface the worker's handlers
  and the broker's tools share.
\<close>

locale step_relation =
  fixes R :: "'s \<Rightarrow> 's \<Rightarrow> bool"
  assumes step_refl: "R s s"
    and step_trans: "R s t \<Longrightarrow> R t u \<Longrightarrow> R s u"
begin

lemma bind_step:
  assumes "\<And>s. R s (snd (m s))" and "\<And>x s. R s (snd (k x s))"
  shows "R s (snd (case m s of (Inl e, s') \<Rightarrow> (Inl e, s') | (Inr x, s') \<Rightarrow> k x s'))"
  using assms(1) [of s] assms(2) step_trans by (cases "m s"; cases "fst (m s)") fastforce+

end

section \<open>Options\<close>

definition unwrap_or :: "'a option \<Rightarrow> 'a \<Rightarrow> 'a" where
  "unwrap_or o' d = (case o' of None \<Rightarrow> d | Some x \<Rightarrow> x)"

lemma unwrap_or_simps [simp]: "unwrap_or None d = d" "unwrap_or (Some x) d = x"
  by (simp_all add: unwrap_or_def)

section \<open>Vectors\<close>

text \<open>\<open>into_iter().skip(offset).take(limit).collect()\<close>.\<close>

definition page :: "usize \<Rightarrow> usize \<Rightarrow> 'a list \<Rightarrow> 'a list" where
  "page offset limit xs = take limit (drop offset xs)"

lemma page_length [list_bounds]: "length (page offset limit xs) \<le> limit"
  by (simp add: page_def)

lemma page_length_eq: "length (page offset limit xs) = min limit (length xs - offset)"
  by (simp add: page_def)

lemma set_page_subset: "set (page offset limit xs) \<subseteq> set xs"
  by (auto simp: page_def dest: in_set_takeD in_set_dropD)

lemma page_all: "length xs \<le> limit \<Longrightarrow> page 0 limit xs = xs"
  by (simp add: page_def)

lemma page_append: "page offset n xs @ page (offset + n) m xs = page offset (n + m) xs"
  by (simp add: page_def take_add add.commute [of offset n])

text \<open>\<open>Vec::dedup\<close> removes consecutive repetitions; after \<open>sort\<close> it leaves the set in order.\<close>

definition sort_dedup :: "'a::linorder list \<Rightarrow> 'a list" where
  "sort_dedup xs = remdups_adj (sort xs)"

lemma set_sort_dedup [simp]: "set (sort_dedup xs) = set xs"
  by (simp add: sort_dedup_def)

lemma distinct_remdups_adj_sorted: "sorted xs \<Longrightarrow> distinct (remdups_adj xs)"
  by (induction xs rule: remdups_adj.induct) auto

lemma sorted_sort_dedup: "sorted_wrt (<) (sort_dedup xs)"
proof -
  have "sorted (sort_dedup xs)" by (simp add: sort_dedup_def)
  moreover have "distinct (sort_dedup xs)"
    by (simp add: sort_dedup_def distinct_remdups_adj_sorted)
  ultimately show ?thesis by (simp add: strict_sorted_iff)
qed

lemma sort_dedup_eq_sorted_list_of_set: "sort_dedup xs = sorted_list_of_set (set xs)"
  using sorted_sort_dedup [of xs]
  by (metis set_sort_dedup sorted_list_of_set.idem_if_sorted_distinct strict_sorted_iff)

lemma sort_dedup_cong: "set xs = set ys \<Longrightarrow> sort_dedup xs = sort_dedup ys"
  by (simp add: sort_dedup_eq_sorted_list_of_set)

lemma distinct_sort_dedup [simp]: "distinct (sort_dedup xs)"
  using sorted_sort_dedup [of xs] by (simp add: strict_sorted_iff)

text \<open>\<open>Iterator::enumerate\<close>.\<close>

definition enumerate0 :: "'a list \<Rightarrow> (usize \<times> 'a) list" where
  "enumerate0 xs = enumerate 0 xs"

lemma length_enumerate0 [simp]: "length (enumerate0 xs) = length xs"
  by (simp add: enumerate0_def)

lemma nth_enumerate0 [simp]: "i < length xs \<Longrightarrow> enumerate0 xs ! i = (i, xs ! i)"
  by (simp add: enumerate0_def nth_enumerate_eq)

lemma map_snd_enumerate0 [simp]: "map snd (enumerate0 xs) = xs"
  by (simp add: enumerate0_def)

section \<open>Text\<close>

abbreviation byte_of :: "char \<Rightarrow> nat" where
  "byte_of c \<equiv> (of_char c :: nat)"

definition is_ws :: "char \<Rightarrow> bool" where
  "is_ws c \<longleftrightarrow> byte_of c = 32 \<or> (9 \<le> byte_of c \<and> byte_of c \<le> 13)"

definition trim_start :: "string \<Rightarrow> string" where
  "trim_start s = dropWhile is_ws s"

definition trim :: "string \<Rightarrow> string" where
  "trim s = rev (dropWhile is_ws (rev (dropWhile is_ws s)))"

definition quoted :: "string \<Rightarrow> string" where
  "quoted s = [CHR 0x27] @ s @ [CHR 0x27]"

lemma dropWhile_none: "\<forall>c \<in> set s. \<not> P c \<Longrightarrow> dropWhile P s = s"
  by (cases s) auto

lemma trim_no_ws: "\<forall>c \<in> set s. \<not> is_ws c \<Longrightarrow> trim s = s"
  by (simp add: trim_def dropWhile_none)

fun strip_prefix :: "string \<Rightarrow> string \<Rightarrow> string option" where
  "strip_prefix s [] = Some s"
| "strip_prefix [] (p # ps) = None"
| "strip_prefix (c # cs) (p # ps) = (if c = p then strip_prefix cs ps else None)"

lemma strip_prefix_Some_iff: "strip_prefix s p = Some r \<longleftrightarrow> s = p @ r"
  by (induction s p rule: strip_prefix.induct) auto

lemma strip_prefix_append [simp]: "strip_prefix (p @ r) p = Some r"
  by (simp add: strip_prefix_Some_iff)

definition starts_with :: "string \<Rightarrow> string \<Rightarrow> bool" where
  "starts_with s p = (strip_prefix s p \<noteq> None)"

lemma starts_with_iff: "starts_with s p \<longleftrightarrow> prefix p s"
  by (auto simp: starts_with_def prefix_def strip_prefix_Some_iff)

text \<open>\<open>str::contains\<close>: the needle occurs at some position.\<close>

fun str_contains :: "string \<Rightarrow> string \<Rightarrow> bool" where
  "str_contains [] n = (n = [])"
| "str_contains (c # cs) n = (starts_with (c # cs) n \<or> str_contains cs n)"

lemma str_contains_iff: "str_contains s n \<longleftrightarrow> (\<exists>a b. s = a @ n @ b)"
proof (induction s)
  case Nil
  then show ?case by auto
next
  case (Cons c cs)
  show ?case
  proof
    assume "str_contains (c # cs) n"
    then consider "prefix n (c # cs)" | "str_contains cs n"
      by (auto simp: starts_with_iff)
    then show "\<exists>a b. c # cs = a @ n @ b"
    proof cases
      case 1
      then show ?thesis by (metis append_Nil prefixE)
    next
      case 2
      with Cons.IH show ?thesis by (metis append_Cons)
    qed
  next
    assume "\<exists>a b. c # cs = a @ n @ b"
    then obtain a b where ab: "c # cs = a @ n @ b" by blast
    show "str_contains (c # cs) n"
    proof (cases a)
      case Nil
      with ab have "starts_with (c # cs) n" by (simp add: starts_with_iff)
      then show ?thesis by simp
    next
      case (Cons a1 as)
      with ab have "cs = as @ n @ b" by simp
      with Cons.IH show ?thesis by auto
    qed
  qed
qed

text \<open>\<open>[T]::join\<close>.\<close>

fun join :: "string \<Rightarrow> string list \<Rightarrow> string" where
  "join sep [] = []"
| "join sep [x] = x"
| "join sep (x # y # zs) = x @ sep @ join sep (y # zs)"

text \<open>\<open>str::split\<close> at a character: the pieces between its occurrences, at least one.\<close>

fun split_char :: "char \<Rightarrow> string \<Rightarrow> string list" where
  "split_char sep [] = [[]]"
| "split_char sep (c # cs) =
     (if c = sep then [] # split_char sep cs
      else (case split_char sep cs of [] \<Rightarrow> [[c]] | w # ws \<Rightarrow> (c # w) # ws))"

text \<open>\<open>str::split_whitespace\<close> and \<open>str::lines\<close>, as counts.\<close>

fun count_words :: "bool \<Rightarrow> string \<Rightarrow> nat" where
  "count_words inword [] = 0"
| "count_words inword (c # cs) =
     (if is_ws c then count_words False cs
      else (if inword then 0 else 1) + count_words True cs)"

definition count_lines :: "string \<Rightarrow> nat" where
  "count_lines s = length (filter (\<lambda>c. c = CHR 0x0A) s)
     + (if s = [] \<or> last s = CHR 0x0A then 0 else 1)"

text \<open>The FNV-1a hash several components use as a fingerprint.\<close>

definition fnv1a :: "u64 \<Rightarrow> string \<Rightarrow> u64" where
  "fnv1a h s = foldl (\<lambda>h c. (xor h (of_nat (byte_of c))) * 0x100000001b3) h s"

definition ascii_lower :: "char \<Rightarrow> char" where
  "ascii_lower c = (if 65 \<le> byte_of c \<and> byte_of c \<le> 90 then char_of (byte_of c + 32) else c)"

definition to_lowercase :: "string \<Rightarrow> string" where
  "to_lowercase s = map ascii_lower s"

definition eq_ignore_ascii_case :: "string \<Rightarrow> string \<Rightarrow> bool" where
  "eq_ignore_ascii_case a b = (to_lowercase a = to_lowercase b)"

text \<open>\<open>str::split_once\<close>: around the first occurrence of the separator.\<close>

fun split_once :: "string \<Rightarrow> string \<Rightarrow> (string \<times> string) option" where
  "split_once [] sep = (if sep = [] then Some ([], []) else None)"
| "split_once (c # cs) sep = (case strip_prefix (c # cs) sep of
     Some rest \<Rightarrow> Some ([], rest)
   | None \<Rightarrow> map_option (\<lambda>(a, b). (c # a, b)) (split_once cs sep))"

definition strip_suffix :: "string \<Rightarrow> string \<Rightarrow> string option" where
  "strip_suffix s suf = map_option rev (strip_prefix (rev s) (rev suf))"

text \<open>UTF-8: a byte index is a character boundary unless it points at a continuation byte.\<close>

definition is_char_boundary :: "string \<Rightarrow> usize \<Rightarrow> bool" where
  "is_char_boundary s i \<longleftrightarrow> i = 0 \<or> i = length s \<or>
     (i < length s \<and> \<not> (128 \<le> byte_of (s ! i) \<and> byte_of (s ! i) < 192))"

definition is_ascii :: "string \<Rightarrow> bool" where
  "is_ascii s \<longleftrightarrow> list_all (\<lambda>c. byte_of c < 128) s"

lemma is_char_boundary_0 [simp]: "is_char_boundary s 0"
  by (simp add: is_char_boundary_def)

lemma is_char_boundary_ascii: "is_ascii s \<Longrightarrow> i \<le> length s \<Longrightarrow> is_char_boundary s i"
  by (auto simp: is_char_boundary_def is_ascii_def list_all_length dest!: spec [of _ i])

section \<open>Numbers as text\<close>

function digits :: "nat \<Rightarrow> nat \<Rightarrow> nat list" where
  "digits b n = (if b < 2 \<or> n < b then [n] else digits b (n div b) @ [n mod b])"
  by pat_completeness auto
termination
  by (relation "measure snd") auto

declare digits.simps [simp del]

lemma digits_small [simp]: "n < b \<Longrightarrow> digits b n = [n]"
  by (simp add: digits.simps)

lemma digits_step: "2 \<le> b \<Longrightarrow> b \<le> n \<Longrightarrow> digits b n = digits b (n div b) @ [n mod b]"
  by (subst digits.simps) simp

lemma digits_not_Nil [simp]: "digits b n \<noteq> []"
  by (subst digits.simps) simp

lemma digits_bound: "2 \<le> b \<Longrightarrow> d \<in> set (digits b n) \<Longrightarrow> d < b"
proof (induction b n rule: digits.induct)
  case (1 b n)
  then show ?case by (cases "n < b") (auto simp: digits_step not_less)
qed

definition from_digits :: "nat \<Rightarrow> nat list \<Rightarrow> nat" where
  "from_digits b ds = foldl (\<lambda>a d. a * b + d) 0 ds"

lemma from_digits_digits: "2 \<le> b \<Longrightarrow> from_digits b (digits b n) = n"
proof (induction b n rule: digits.induct)
  case (1 b n)
  then show ?case by (cases "n < b") (auto simp: digits_step not_less from_digits_def)
qed

definition digit_char :: "nat \<Rightarrow> char" where
  "digit_char d = (if d < 10 then char_of (48 + d) else char_of (87 + d))"

lemma digit_char_table [text_eval]:
  "digit_char 0 = CHR ''0''" "digit_char 1 = CHR ''1''" "digit_char (Suc 0) = CHR ''1''"
  "digit_char 2 = CHR ''2''" "digit_char 3 = CHR ''3''" "digit_char 4 = CHR ''4''"
  "digit_char 5 = CHR ''5''" "digit_char 6 = CHR ''6''" "digit_char 7 = CHR ''7''"
  "digit_char 8 = CHR ''8''" "digit_char 9 = CHR ''9''" "digit_char 10 = CHR ''a''"
  "digit_char 11 = CHR ''b''" "digit_char 12 = CHR ''c''" "digit_char 13 = CHR ''d''"
  "digit_char 14 = CHR ''e''" "digit_char 15 = CHR ''f''"
  by (simp_all add: digit_char_def char_of_def bit_0)

text \<open>\<open>char::to_digit(radix)\<close> for the radices 10 and 16.\<close>

definition char_digit :: "nat \<Rightarrow> char \<Rightarrow> nat option" where
  "char_digit b c =
     (let n = byte_of c;
          d = (if 48 \<le> n \<and> n \<le> 57 then Some (n - 48)
               else if 97 \<le> n \<and> n \<le> 102 then Some (n - 87)
               else if 65 \<le> n \<and> n \<le> 70 then Some (n - 55) else None)
      in case d of None \<Rightarrow> None | Some k \<Rightarrow> if k < b then Some k else None)"

lemma char_digit_digit_char: "d < b \<Longrightarrow> b \<le> 16 \<Longrightarrow> char_digit b (digit_char d) = Some d"
  by (auto simp: char_digit_def digit_char_def Let_def)

lemma char_digit_bound: "char_digit b c = Some d \<Longrightarrow> d < b"
  by (auto simp: char_digit_def Let_def split: option.splits if_splits)

definition show_radix :: "nat \<Rightarrow> nat \<Rightarrow> string" where
  "show_radix b n = map digit_char (digits b n)"

lemmas [text_eval] = show_radix_def digits_step

abbreviation show_nat :: "nat \<Rightarrow> string" where
  "show_nat \<equiv> show_radix 10"

abbreviation show_u64 :: "u64 \<Rightarrow> string" where
  "show_u64 w \<equiv> show_radix 10 (unat w)"

text \<open>\<open>{:x}\<close> and \<open>{:#x}\<close>.\<close>

abbreviation hex_lower :: "u64 \<Rightarrow> string" where
  "hex_lower w \<equiv> show_radix 16 (unat w)"

definition hex_alt :: "u64 \<Rightarrow> string" where
  "hex_alt w = ''0x'' @ hex_lower w"

text \<open>\<open>{:02x}\<close> of a byte and \<open>{:016x}\<close> of a word: padded on the left with zeros.\<close>

definition pad_left :: "nat \<Rightarrow> string \<Rightarrow> string" where
  "pad_left k s = replicate (k - length s) (CHR ''0'') @ s"

definition hex2 :: "u8 \<Rightarrow> string" where
  "hex2 b = pad_left 2 (show_radix 16 (unat b))"

definition hex16 :: "u64 \<Rightarrow> string" where
  "hex16 w = pad_left 16 (hex_lower w)"

definition parse_digits :: "nat \<Rightarrow> string \<Rightarrow> nat option" where
  "parse_digits b s = map_option (from_digits b) (those (map (char_digit b) s))"

lemma those_map_Some [simp]: "those (map Some xs) = Some xs"
  by (induction xs) auto

lemma parse_digits_show: "2 \<le> b \<Longrightarrow> b \<le> 16 \<Longrightarrow> parse_digits b (show_radix b n) = Some n"
proof -
  assume b: "2 \<le> b" "b \<le> 16"
  have "map (char_digit b) (map digit_char (digits b n)) = map Some (digits b n)"
    using b by (auto simp: char_digit_digit_char digits_bound)
  then have "those (map (char_digit b) (map digit_char (digits b n))) = Some (digits b n)"
    by (simp only: those_map_Some)
  with b show ?thesis by (simp only: parse_digits_def show_radix_def from_digits_digits option.map)
qed

text \<open>
  \<open>from_str_radix\<close> of an unsigned type of \<open>w\<close> bits, with the messages of
  \<open>ParseIntError\<close>: one leading plus sign is accepted, a lone sign is an invalid digit.
\<close>

definition from_str_radix :: "nat \<Rightarrow> nat \<Rightarrow> string \<Rightarrow> string + nat" where
  "from_str_radix w b s =
     (if s = [] then Inl ''cannot parse integer from empty string''
      else let body = (case s of c # cs \<Rightarrow> if c = CHR ''+'' \<and> cs \<noteq> [] then cs else s | [] \<Rightarrow> s)
           in case parse_digits b body of
                None \<Rightarrow> Inl ''invalid digit found in string''
              | Some n \<Rightarrow> if n < 2 ^ w then Inr n
                          else Inl ''number too large to fit in target type'')"

definition parse_u64_radix :: "nat \<Rightarrow> string \<Rightarrow> string + u64" where
  "parse_u64_radix b s = rmap of_nat (from_str_radix 64 b s)"

lemma show_radix_not_Nil [simp]: "show_radix b n \<noteq> []"
  by (simp add: show_radix_def)

lemma byte_of_digit_char: "d < 16 \<Longrightarrow> byte_of (digit_char d) = (if d < 10 then 48 + d else 87 + d)"
  by (simp add: digit_char_def of_char_of take_bit_eq_mod)

lemma digit_char_ne_plus: "d < 16 \<Longrightarrow> digit_char d \<noteq> CHR ''+''"
  using byte_of_digit_char [of d] by (auto split: if_splits)

lemma show_radix_no_plus: "2 \<le> b \<Longrightarrow> b \<le> 16 \<Longrightarrow> show_radix b n = c # cs \<Longrightarrow> c \<noteq> CHR ''+''"
proof -
  assume a: "2 \<le> b" "b \<le> 16" "show_radix b n = c # cs"
  then obtain d ds where "digits b n = d # ds" "c = digit_char d"
    by (auto simp: show_radix_def)
  with a digits_bound [of b d n] show ?thesis by (simp add: digit_char_ne_plus)
qed

lemma from_str_radix_show:
  assumes b: "2 \<le> b" "b \<le> 16" and n: "n < 2 ^ w"
  shows "from_str_radix w b (show_radix b n) = Inr n"
proof -
  obtain c cs where s: "show_radix b n = c # cs"
    by (cases "show_radix b n") auto
  with b have "c \<noteq> CHR ''+''" by (rule show_radix_no_plus)
  with s b n show ?thesis
    using parse_digits_show [of b n] by (simp add: from_str_radix_def)
qed

lemma parse_u64_radix_show:
  "2 \<le> b \<Longrightarrow> b \<le> 16 \<Longrightarrow> parse_u64_radix b (show_radix b (unat x)) = Inr x"
  using from_str_radix_show [of b "unat x" 64] unat_u64_less [of x]
  by (simp add: parse_u64_radix_def)

lemma show_radix_alnum:
  "2 \<le> b \<Longrightarrow> b \<le> 16 \<Longrightarrow> c \<in> set (show_radix b n) \<Longrightarrow>
     (48 \<le> byte_of c \<and> byte_of c \<le> 57) \<or> (97 \<le> byte_of c \<and> byte_of c \<le> 102)"
proof -
  assume a: "2 \<le> b" "b \<le> 16" "c \<in> set (show_radix b n)"
  then obtain d where d: "d \<in> set (digits b n)" "c = digit_char d"
    by (auto simp: show_radix_def)
  with a digits_bound [of b d n] show ?thesis by (auto simp: byte_of_digit_char)
qed

lemma show_radix_no_ws: "2 \<le> b \<Longrightarrow> b \<le> 16 \<Longrightarrow> c \<in> set (show_radix b n) \<Longrightarrow> \<not> is_ws c"
  using show_radix_alnum [of b c n] by (auto simp: is_ws_def)

lemma show_radix10_digit: "c \<in> set (show_radix 10 n) \<Longrightarrow> 48 \<le> byte_of c \<and> byte_of c \<le> 57"
proof -
  assume "c \<in> set (show_radix 10 n)"
  then obtain d where "d \<in> set (digits 10 n)" "c = digit_char d"
    by (auto simp: show_radix_def)
  with digits_bound [of 10 d n] show ?thesis by (simp add: byte_of_digit_char)
qed

lemma show_radix_inj: "2 \<le> b \<Longrightarrow> b \<le> 16 \<Longrightarrow> show_radix b m = show_radix b n \<Longrightarrow> m = n"
  by (metis option.inject parse_digits_show)

end
