(* ===== verification/BTree_Map.thy ===== *)
theory BTree_Map
  imports Prelude
begin

text \<open>
  \<open>std::collections::BTreeMap\<close> as the crates use it: an association list whose keys are
  strictly increasing, which is the order \<open>iter()\<close>, \<open>keys()\<close> and \<open>values()\<close> walk it in.
  The locale \<open>map_store\<close> is the interface the components rely on (what a lookup returns
  after an insert or a remove, and that both keep the representation invariant); it is
  interpreted on the sorted lists here and, for \<open>HashMap\<close>, on lists of distinct keys in
  any order, since the iteration order of a hash map is unspecified.
\<close>

section \<open>The interface\<close>

locale map_store =
  fixes inv :: "('k \<times> 'v) list \<Rightarrow> bool"
    and ins :: "'k \<Rightarrow> 'v \<Rightarrow> ('k \<times> 'v) list \<Rightarrow> ('k \<times> 'v) list"
    and del :: "'k \<Rightarrow> ('k \<times> 'v) list \<Rightarrow> ('k \<times> 'v) list"
  assumes inv_empty: "inv []"
    and inv_ins: "inv m \<Longrightarrow> inv (ins k v m)"
    and inv_del: "inv m \<Longrightarrow> inv (del k m)"
    and inv_distinct: "inv m \<Longrightarrow> distinct (map fst m)"
    and get_ins: "inv m \<Longrightarrow> map_of (ins k v m) = (map_of m)(k \<mapsto> v)"
    and get_del: "inv m \<Longrightarrow> map_of (del k m) = (map_of m)(k := None)"
begin

lemma get_ins_same: "inv m \<Longrightarrow> map_of (ins k v m) k = Some v"
  by (simp add: get_ins)

lemma get_ins_other: "inv m \<Longrightarrow> j \<noteq> k \<Longrightarrow> map_of (ins k v m) j = map_of m j"
  by (simp add: get_ins)

lemma dom_keys: "inv m \<Longrightarrow> dom (map_of m) = set (map fst m)"
  by (simp add: dom_map_of_conv_image_fst)

lemma keys_ins: "inv m \<Longrightarrow> set (map fst (ins k v m)) = insert k (set (map fst m))"
  using dom_keys [OF inv_ins, of m k v] dom_keys [of m] by (simp add: get_ins)

lemma keys_del: "inv m \<Longrightarrow> set (map fst (del k m)) = set (map fst m) - {k}"
  using dom_keys [OF inv_del, of m k] dom_keys [of m] by (simp add: get_del)

lemma length_eq_card: "inv m \<Longrightarrow> length m = card (dom (map_of m))"
  using inv_distinct [of m] by (metis dom_keys distinct_card length_map)

lemma length_ins:
  assumes "inv m"
  shows "length (ins k v m) = (if map_of m k = None then Suc (length m) else length m)"
proof -
  have fin: "finite (dom (map_of m))" by (rule finite_dom_map_of)
  have "length (ins k v m) = card (insert k (dom (map_of m)))"
    using assms by (simp add: length_eq_card inv_ins get_ins)
  moreover have "length m = card (dom (map_of m))"
    using assms by (rule length_eq_card)
  ultimately show ?thesis
    using fin by (auto simp: domIff card_insert_if)
qed

lemma length_del:
  assumes "inv m"
  shows "length (del k m) = (if map_of m k = None then length m else length m - 1)"
proof -
  have fin: "finite (dom (map_of m))" by (rule finite_dom_map_of)
  have "length (del k m) = card (dom (map_of m) - {k})"
    using assms by (simp add: length_eq_card inv_del get_del)
  moreover have "length m = card (dom (map_of m))"
    using assms by (rule length_eq_card)
  ultimately show ?thesis
    using fin by (auto simp: domIff)
qed

lemma mem_iff_get: "inv m \<Longrightarrow> (k, v) \<in> set m \<longleftrightarrow> map_of m k = Some v"
  by (simp add: inv_distinct)

end

section \<open>Ordered maps\<close>

type_synonym ('k, 'v) btree = "('k \<times> 'v) list"

definition bt_inv :: "('k::linorder, 'v) btree \<Rightarrow> bool" where
  "bt_inv m = sorted_wrt (<) (map fst m)"

definition bt_get :: "('k::linorder, 'v) btree \<Rightarrow> 'k \<Rightarrow> 'v option" where
  "bt_get m k = map_of m k"

fun bt_insert :: "'k::linorder \<Rightarrow> 'v \<Rightarrow> ('k, 'v) btree \<Rightarrow> ('k, 'v) btree" where
  "bt_insert k v [] = [(k, v)]"
| "bt_insert k v ((j, w) # m) =
     (if j < k then (j, w) # bt_insert k v m
      else if j = k then (k, v) # m
      else (k, v) # (j, w) # m)"

definition bt_remove :: "'k::linorder \<Rightarrow> ('k, 'v) btree \<Rightarrow> ('k, 'v) btree" where
  "bt_remove k m = filter (\<lambda>p. fst p \<noteq> k) m"

text \<open>\<open>range(..=k).next_back()\<close>.\<close>

definition bt_last_le :: "('k::linorder, 'v) btree \<Rightarrow> 'k \<Rightarrow> ('k \<times> 'v) option" where
  "bt_last_le m k = (let xs = filter (\<lambda>(j, _). j \<le> k) m in if xs = [] then None else Some (last xs))"

lemma map_of_bt_insert: "map_of (bt_insert k v m) = (map_of m)(k \<mapsto> v)"
  by (induction m) (auto simp: fun_eq_iff)

lemma keys_bt_insert: "set (map fst (bt_insert k v m)) = insert k (set (map fst m))"
  by (simp flip: dom_map_of_conv_image_fst add: map_of_bt_insert)

lemma map_of_filter_key: "map_of (filter (\<lambda>p. fst p \<noteq> k) m) = (map_of m)(k := None)"
  by (induction m) (auto simp: fun_eq_iff)

lemma bt_inv_insert: "bt_inv m \<Longrightarrow> bt_inv (bt_insert k v m)"
proof (induction m)
  case (Cons p m)
  obtain j w where p: "p = (j, w)" by fastforce
  from Cons.prems p have j: "\<forall>x \<in> set (map fst m). j < x" and m: "bt_inv m"
    by (auto simp: bt_inv_def)
  show ?case
  proof (cases "j < k")
    case True
    with j have "\<forall>x \<in> set (map fst (bt_insert k v m)). j < x"
      by (simp only: keys_bt_insert) auto
    with True p Cons.IH [OF m] show ?thesis by (simp add: bt_inv_def)
  next
    case False
    with j m p show ?thesis by (force simp: bt_inv_def)
  qed
qed (simp add: bt_inv_def)

lemma bt_inv_filter: "bt_inv m \<Longrightarrow> bt_inv (filter P m)"
  by (induction m) (auto simp: bt_inv_def)

interpretation bt: map_store bt_inv bt_insert bt_remove
proof unfold_locales
  show "bt_inv []" by (simp add: bt_inv_def)
  show "distinct (map fst m)" if "bt_inv m" for m
    using that by (simp add: bt_inv_def strict_sorted_iff)
qed (simp_all add: bt_inv_insert bt_remove_def bt_inv_filter map_of_bt_insert map_of_filter_key)

lemma bt_get_insert [simp]: "bt_get (bt_insert k v m) j = (if j = k then Some v else bt_get m j)"
  by (simp add: bt_get_def map_of_bt_insert)

lemma bt_get_remove [simp]: "bt_get (bt_remove k m) j = (if j = k then None else bt_get m j)"
  by (simp add: bt_get_def bt_remove_def map_of_filter_key)

lemma bt_get_Nil [simp]: "bt_get [] k = None"
  by (simp add: bt_get_def)

lemma bt_inv_Nil [simp]: "bt_inv []"
  by (rule bt.inv_empty)

lemma bt_inv_remove: "bt_inv m \<Longrightarrow> bt_inv (bt_remove k m)"
  by (rule bt.inv_del)

lemmas bt_inv_intros = bt_inv_Nil bt_inv_insert bt_inv_remove bt_inv_filter

section \<open>Hash maps\<close>

type_synonym ('k, 'v) hashmap = "('k \<times> 'v) list"

definition hm_inv :: "('k, 'v) hashmap \<Rightarrow> bool" where
  "hm_inv m = distinct (map fst m)"

definition hm_insert :: "'k \<Rightarrow> 'v \<Rightarrow> ('k, 'v) hashmap \<Rightarrow> ('k, 'v) hashmap" where
  "hm_insert k v m = (k, v) # filter (\<lambda>p. fst p \<noteq> k) m"

definition hm_remove :: "'k \<Rightarrow> ('k, 'v) hashmap \<Rightarrow> ('k, 'v) hashmap" where
  "hm_remove k m = filter (\<lambda>p. fst p \<noteq> k) m"

lemma distinct_map_filter_fst: "distinct (map fst m) \<Longrightarrow> distinct (map fst (filter P m))"
  by (rule distinct_map_filter)

interpretation hm: map_store hm_inv hm_insert hm_remove
  by unfold_locales
    (auto simp: hm_inv_def hm_insert_def hm_remove_def map_of_filter_key distinct_map_filter)

lemma hm_inv_unique: "hm_inv m \<Longrightarrow> (k, v) \<in> set m \<Longrightarrow> (k, w) \<in> set m \<Longrightarrow> v = w"
  unfolding hm_inv_def by (rule eq_key_imp_eq_value)

lemmas hm_simps = hm.get_ins hm.get_del hm.length_ins hm.length_del

end
