(* ===== verification/Float64.thy ===== *)
theory Float64
  imports Prelude
begin

text \<open>
  The finite \<open>f64\<close> values of the language, as the scores and confidences of the analysis engines use
  them. Every finite double is an integer multiple of \<open>2 ^ - 1074\<close>; the model keeps that integer, so
  that comparisons are exact, and rounds the result of every operation to the nearest representable
  multiple, ties to even, as IEEE 754 has it. Infinities, NaNs and the sign of zero are left out: no modelled
  operation divides by zero, and sums and products stay far below \<open>2 ^ 1024\<close>.
\<close>

datatype f64 = F64 (ulps: int)

instantiation f64 :: linorder
begin

definition less_eq_f64 :: "f64 \<Rightarrow> f64 \<Rightarrow> bool" where
  "less_eq_f64 x y \<longleftrightarrow> ulps x \<le> ulps y"

definition less_f64 :: "f64 \<Rightarrow> f64 \<Rightarrow> bool" where
  "less_f64 x y \<longleftrightarrow> ulps x < ulps y"

instance
  by standard (auto simp: less_eq_f64_def less_f64_def f64.expand)

end

text \<open>The integer that stands for one.\<close>

definition f64_unit :: int where
  "f64_unit = 2 ^ 1074"

lemma f64_unit_pos [simp]: "0 < f64_unit" "f64_unit \<noteq> 0" "0 \<le> f64_unit"
  by (simp_all only: f64_unit_def zero_less_power zero_less_numeral zero_le_power zero_le_numeral power_not_zero zero_neq_numeral [symmetric] not_False_eq_True simp_thms)

section \<open>Rounding\<close>

text \<open>\<open>p / q\<close> to the nearest integer, ties to even.\<close>

definition half_even :: "int \<Rightarrow> int \<Rightarrow> int" where
  "half_even p q =
     (let d = p div q; r = p mod q
      in if 2 * r < q \<or> 2 * r = q \<and> even d then d else d + 1)"

fun bit_len :: "nat \<Rightarrow> nat" where
  "bit_len n = (if n = 0 then 0 else Suc (bit_len (n div 2)))"

declare bit_len.simps [simp del]

text \<open>How many low bits a double of the magnitude of \<open>p / q\<close> (at least zero) cannot hold.\<close>

definition excess :: "int \<Rightarrow> int \<Rightarrow> nat" where
  "excess p q = bit_len (nat (p div q)) - 53"

definition round_to :: "nat \<Rightarrow> int \<Rightarrow> int \<Rightarrow> int" where
  "round_to s p q = half_even p (q * 2 ^ s) * 2 ^ s"

definition rnd :: "int \<Rightarrow> int \<Rightarrow> int" where
  "rnd p q = (if 0 \<le> p then round_to (excess p q) p q else - round_to (excess (- p) q) (- p) q)"

section \<open>Operations\<close>

definition f64_of_int :: "int \<Rightarrow> f64" where
  "f64_of_int n = F64 (rnd (n * f64_unit) 1)"

abbreviation f64_of :: "nat \<Rightarrow> f64" where
  "f64_of n \<equiv> f64_of_int (int n)"

text \<open>A decimal literal, \<open>0.25\<close> being \<open>lit 25 100\<close>.\<close>

definition lit :: "int \<Rightarrow> int \<Rightarrow> f64" where
  "lit p q = F64 (rnd (p * f64_unit) q)"

definition f_add :: "f64 \<Rightarrow> f64 \<Rightarrow> f64" where
  "f_add x y = F64 (rnd (ulps x + ulps y) 1)"

definition f_sub :: "f64 \<Rightarrow> f64 \<Rightarrow> f64" where
  "f_sub x y = F64 (rnd (ulps x - ulps y) 1)"

definition f_mul :: "f64 \<Rightarrow> f64 \<Rightarrow> f64" where
  "f_mul x y = F64 (rnd (ulps x * ulps y) f64_unit)"

definition f_div :: "f64 \<Rightarrow> f64 \<Rightarrow> f64" where
  "f_div x y = (if 0 < ulps y then F64 (rnd (ulps x * f64_unit) (ulps y))
                else F64 (rnd (- ulps x * f64_unit) (- ulps y)))"

definition f_clamp :: "f64 \<Rightarrow> f64 \<Rightarrow> f64 \<Rightarrow> f64" where
  "f_clamp lo hi x = (if x < lo then lo else if hi < x then hi else x)"

text \<open>\<open>f64::round\<close>: to an integer, ties away from zero.\<close>

definition f_round :: "f64 \<Rightarrow> f64" where
  "f_round x = (let k = (2 * \<bar>ulps x\<bar> + f64_unit) div (2 * f64_unit)
     in F64 (if 0 \<le> ulps x then k * f64_unit else - k * f64_unit))"

text \<open>\<open>{:.2}\<close>: the exact decimal value at two places, ties to even.\<close>

definition fmt2 :: "f64 \<Rightarrow> string" where
  "fmt2 x = (let n = nat (half_even (100 * \<bar>ulps x\<bar>) f64_unit)
     in (if ulps x < 0 then ''-'' else []) @ show_nat (n div 100) @ ''.'' @ pad_left 2 (show_nat (n mod 100)))"

abbreviation f_zero :: f64 where "f_zero \<equiv> F64 0"
abbreviation f_one :: f64 where "f_one \<equiv> F64 f64_unit"

section \<open>Rounding is monotone and exact on doubles\<close>

lemma half_even_bounds: "0 < q \<Longrightarrow> p div q \<le> half_even p q \<and> half_even p q \<le> p div q + 1"
  by (simp add: half_even_def Let_def)

lemma half_even_exact [simp]: "0 < q \<Longrightarrow> half_even (k * q) q = k"
  by (simp add: half_even_def)

lemma half_even_mono: "0 < q \<Longrightarrow> p \<le> p' \<Longrightarrow> half_even p q \<le> half_even p' q"
proof -
  assume q: "0 < q" and le: "p \<le> p'"
  have d: "p div q \<le> p' div q" using le q by (rule zdiv_mono1)
  show ?thesis
  proof (cases "p div q = p' div q")
    case True
    then have "p mod q \<le> p' mod q" using le by (simp add: minus_div_mult_eq_mod [symmetric])
    with True show ?thesis by (auto simp: half_even_def Let_def)
  next
    case False
    with d half_even_bounds [OF q, of p] half_even_bounds [OF q, of p'] show ?thesis by linarith
  qed
qed

lemma half_even_scale: "0 < q \<Longrightarrow> 0 < c \<Longrightarrow> half_even (p * c) (q * c) = half_even p q"
proof -
  assume q: "0 < q" and c: "0 < c"
  have "p * c div (q * c) = p div q" "p * c mod (q * c) = p mod q * c"
    using c by (simp_all add: mult_mod_left)
  moreover have "2 * (p mod q * c) = (2 * (p mod q)) * c" by simp
  then have "2 * (p mod q * c) < q * c \<longleftrightarrow> 2 * (p mod q) < q" "2 * (p mod q * c) = q * c \<longleftrightarrow> 2 * (p mod q) = q"
    using c by (simp_all only: mult_less_cancel_right_pos mult_right_cancel less_imp_neq [symmetric] not_False_eq_True)
  ultimately show ?thesis by (simp only: half_even_def Let_def)
qed

lemma bit_len_bounds: "n < 2 ^ bit_len n \<and> (0 < n \<longrightarrow> 2 ^ (bit_len n - 1) \<le> n)"
proof (induction n rule: bit_len.induct)
  case (1 n)
  show ?case
  proof (cases "n = 0")
    case False
    then have "bit_len n = Suc (bit_len (n div 2))" by (simp add: bit_len.simps [of n])
    moreover have "n div 2 = 0 \<Longrightarrow> n = 1" using False by auto
    moreover have "0 < n div 2 \<Longrightarrow> bit_len (n div 2) \<noteq> 0" by (simp add: bit_len.simps [of "n div 2"])
    ultimately show ?thesis using 1 False
      by (cases "bit_len (n div 2)") (auto simp: bit_len.simps [of 0])
  qed (simp add: bit_len.simps)
qed

lemma bit_len_eqI: "2 ^ k \<le> n \<Longrightarrow> n < 2 ^ Suc k \<Longrightarrow> bit_len n = Suc k"
proof -
  assume a: "2 ^ k \<le> n" "n < 2 ^ Suc k"
  then have "0 < n" by (metis gr0I not_less zero_less_numeral zero_less_power)
  with bit_len_bounds [of n] a have "2 ^ (bit_len n - 1) < (2::nat) ^ Suc k" "2 ^ k < (2::nat) ^ bit_len n"
    by linarith+
  then have "bit_len n - 1 < Suc k" "k < bit_len n" by (simp_all del: power_Suc)
  then show ?thesis by simp
qed

lemma excess_bounds:
  assumes "0 \<le> p" "0 < q"
  shows "p < q * 2 ^ (53 + excess p q)" "0 < excess p q \<Longrightarrow> q * 2 ^ (52 + excess p q) \<le> p"
proof -
  let ?n = "nat (p div q)"
  have n: "int ?n = p div q" using assms by (simp add: pos_imp_zdiv_nonneg_iff)
  have "p < q * (p div q) + q" using pos_mod_bound [OF assms(2), of p] mult_div_mod_eq [of q p] by linarith
  then have up: "p < q * (p div q + 1)" by (simp add: distrib_left)
  have "int ?n < 2 ^ bit_len ?n" using bit_len_bounds [of ?n] by (metis of_nat_less_iff of_nat_numeral of_nat_power)
  also have "(2::int) ^ bit_len ?n \<le> 2 ^ (53 + excess p q)" by (rule power_increasing) (auto simp: excess_def)
  finally have "p div q + 1 \<le> 2 ^ (53 + excess p q)" using n by simp
  then have "q * (p div q + 1) \<le> q * 2 ^ (53 + excess p q)" using assms(2) by (simp only: mult_left_mono less_imp_le)
  with up show "p < q * 2 ^ (53 + excess p q)" by linarith
  assume "0 < excess p q"
  then have e: "bit_len ?n - 1 = 52 + excess p q" and "?n \<noteq> 0" by (auto simp: excess_def bit_len.simps [of 0])
  then have "2 ^ (52 + excess p q) \<le> ?n" using bit_len_bounds [of ?n] by (metis gr0I)
  then have "2 ^ (52 + excess p q) \<le> p div q" using n by (metis of_nat_le_iff of_nat_numeral of_nat_power)
  then have "q * 2 ^ (52 + excess p q) \<le> q * (p div q)" using assms(2) by (simp only: mult_left_mono less_imp_le)
  also have "\<dots> \<le> p" using assms(2) by (simp add: mult_div_mod_eq [symmetric] minus_mod_eq_mult_div [symmetric])
  finally show "q * 2 ^ (52 + excess p q) \<le> p" .
qed

lemma excess_mono: "0 \<le> p \<Longrightarrow> 0 < q \<Longrightarrow> p \<le> p' \<Longrightarrow> excess p q \<le> excess p' q"
proof (rule ccontr)
  assume a: "0 \<le> p" "0 < q" "p \<le> p'" and "\<not> excess p q \<le> excess p' q"
  then have lt: "53 + excess p' q \<le> 52 + excess p q" and pos: "0 < excess p q" by simp_all
  have "p' < q * 2 ^ (53 + excess p' q)" using a by (intro excess_bounds) simp_all
  also have "\<dots> \<le> q * 2 ^ (52 + excess p q)" using a(2) lt by (intro mult_left_mono power_increasing) simp_all
  also have "\<dots> \<le> p" by (rule excess_bounds(2) [OF a(1, 2) pos])
  finally show False using a(3) by simp
qed

lemma round_to_nonneg: "0 \<le> p \<Longrightarrow> 0 < q \<Longrightarrow> 0 \<le> round_to s p q"
  using half_even_mono [of "q * 2 ^ s" 0 p] half_even_exact [of "q * 2 ^ s" 0] by (simp add: round_to_def)

lemma round_to_le: "0 < q \<Longrightarrow> p \<le> q * 2 ^ (k + s) \<Longrightarrow> round_to s p q \<le> 2 ^ (k + s)"
proof -
  assume a: "0 < q" "p \<le> q * 2 ^ (k + s)"
  then have "half_even p (q * 2 ^ s) \<le> half_even (2 ^ k * (q * 2 ^ s)) (q * 2 ^ s)"
    by (intro half_even_mono) (simp_all add: power_add ac_simps)
  then have "half_even p (q * 2 ^ s) * 2 ^ s \<le> 2 ^ k * 2 ^ s" using a(1) by (simp only: half_even_exact mult_right_mono zero_le_numeral zero_le_power mult_pos_pos zero_less_power zero_less_numeral)
  then show ?thesis by (simp add: round_to_def power_add)
qed

lemma round_to_ge: "0 < q \<Longrightarrow> q * 2 ^ (k + s) \<le> p \<Longrightarrow> 2 ^ (k + s) \<le> round_to s p q"
proof -
  assume a: "0 < q" "q * 2 ^ (k + s) \<le> p"
  then have "half_even (2 ^ k * (q * 2 ^ s)) (q * 2 ^ s) \<le> half_even p (q * 2 ^ s)"
    by (intro half_even_mono) (simp_all add: power_add ac_simps)
  then have "2 ^ k * 2 ^ s \<le> half_even p (q * 2 ^ s) * 2 ^ s" using a(1) by (simp only: half_even_exact mult_right_mono zero_le_numeral zero_le_power mult_pos_pos zero_less_power zero_less_numeral)
  then show ?thesis by (simp add: round_to_def power_add)
qed

lemma rnd_nonneg: "0 \<le> p \<Longrightarrow> 0 < q \<Longrightarrow> 0 \<le> rnd p q"
  by (simp add: rnd_def round_to_nonneg)

lemma rnd_mono:
  assumes "0 \<le> p" "0 < q" "p \<le> p'"
  shows "rnd p q \<le> rnd p' q"
proof (cases "excess p q = excess p' q")
  case True
  have "half_even p (q * 2 ^ excess p q) \<le> half_even p' (q * 2 ^ excess p q)" using assms by (intro half_even_mono) simp_all
  with True assms show ?thesis by (simp add: rnd_def round_to_def mult_right_mono)
next
  case False
  with excess_mono [OF assms] have lt: "excess p q < excess p' q" by simp
  have "round_to (excess p q) p q \<le> 2 ^ (53 + excess p q)"
    using excess_bounds(1) [OF assms(1, 2)] assms(2) by (intro round_to_le) simp_all
  also have "(2::int) ^ (53 + excess p q) \<le> 2 ^ (52 + excess p' q)" using lt by (intro power_increasing) simp_all
  also have "\<dots> \<le> round_to (excess p' q) p' q"
    using excess_bounds(2) [of p' q] assms lt by (intro round_to_ge) simp_all
  finally show ?thesis using assms by (simp add: rnd_def)
qed

lemma rnd_scale: "0 \<le> p \<Longrightarrow> 0 < q \<Longrightarrow> 0 < c \<Longrightarrow> rnd (p * c) (q * c) = rnd p q"
  using half_even_scale [of "q * 2 ^ excess p q" c p]
  by (simp add: rnd_def round_to_def excess_def ac_simps)

lemma rnd_mono_frac:
  assumes "0 \<le> p" "0 < q" "0 < q'" "p * q' \<le> p' * q"
  shows "rnd p q \<le> rnd p' q'"
proof -
  have "0 \<le> p' * q" using assms by (meson mult_nonneg_nonneg less_imp_le order_trans)
  then have "0 \<le> p'" using assms(2) by (simp add: zero_le_mult_iff)
  have "rnd (p * q') (q * q') \<le> rnd (p' * q) (q * q')" using assms by (intro rnd_mono) simp_all
  then show ?thesis using rnd_scale [of p q q'] rnd_scale [of p' q' q] assms \<open>0 \<le> p'\<close> by (simp add: mult.commute)
qed

text \<open>The magnitudes a double can have, in units: 53 significant bits.\<close>

definition is_double :: "int \<Rightarrow> bool" where
  "is_double k \<longleftrightarrow> (\<exists>m s. k = m * 2 ^ s \<and> 0 \<le> m \<and> m < 2 ^ 53)"

lemma is_double_unit [simp]: "is_double (2 ^ s)"
  unfolding is_double_def by (rule exI [of _ 1], rule exI [of _ s]) simp

lemma is_double_1 [simp]: "is_double f64_unit"
  unfolding f64_unit_def by (rule is_double_unit)

lemma is_double_0 [simp]: "is_double 0"
  unfolding is_double_def by (rule exI [of _ 0]) simp

lemma rnd_is_double:
  assumes "0 \<le> p" "0 < q"
  shows "is_double (rnd p q)"
proof -
  let ?s = "excess p q" and ?m = "half_even p (q * 2 ^ excess p q)"
  have r: "rnd p q = ?m * 2 ^ ?s" using assms by (simp add: rnd_def round_to_def)
  have "rnd p q \<le> 2 ^ (53 + ?s)"
    using round_to_le [of q p 53 ?s] excess_bounds(1) [OF assms] assms by (simp add: rnd_def)
  then have "?m \<le> 2 ^ 53" by (simp add: r power_add)
  moreover have "0 \<le> ?m" using round_to_nonneg [OF assms, of ?s] by (simp add: round_to_def zero_le_mult_iff)
  moreover have "?m = 2 ^ 53 \<Longrightarrow> rnd p q = 2 ^ (53 + ?s)" by (simp add: r power_add)
  ultimately show ?thesis using r unfolding is_double_def
    by (cases "?m = 2 ^ 53") (metis is_double_def is_double_unit, force)
qed

lemma rnd_exact:
  assumes "is_double k" "0 < q"
  shows "rnd (k * q) q = k"
proof -
  obtain m t where k: "k = m * 2 ^ t" "0 \<le> m" "m < 2 ^ 53" using assms(1) unfolding is_double_def by blast
  let ?s = "excess (k * q) q"
  have "?s \<le> t"
  proof (rule ccontr)
    assume "\<not> ?s \<le> t"
    then have "q * 2 ^ (52 + ?s) \<le> k * q" and le: "53 + t \<le> 52 + ?s" using excess_bounds(2) [of "k * q" q] assms(2) k by simp_all
    then have "2 ^ (52 + ?s) \<le> k" using assms(2) by (simp add: mult.commute)
    moreover have "k < 2 ^ 53 * 2 ^ t" unfolding k(1) using k(3) by (rule mult_strict_right_mono) simp
    moreover have "2 ^ 53 * 2 ^ t \<le> (2::int) ^ (52 + ?s)" using le by (metis power_add power_increasing one_le_numeral)
    ultimately show False by linarith
  qed
  then have "2 ^ t = 2 ^ (t - ?s) * (2::int) ^ ?s" by (simp flip: power_add)
  then have k': "k = (m * 2 ^ (t - ?s)) * 2 ^ ?s" by (simp only: k(1) mult.assoc)
  then have "k * q = (m * 2 ^ (t - ?s)) * (q * 2 ^ ?s)" by (metis mult.assoc mult.commute)
  then have "half_even (k * q) (q * 2 ^ ?s) = m * 2 ^ (t - ?s)" using assms(2) by (metis half_even_exact mult_pos_pos zero_less_numeral zero_less_power)
  moreover have "0 \<le> k * q" using assms(2) k(1, 2) by simp
  ultimately show ?thesis using k' by (simp add: rnd_def round_to_def)
qed

section \<open>Scores\<close>

lemma f64_le [simp]: "F64 a \<le> F64 b \<longleftrightarrow> a \<le> b" and f64_less [simp]: "F64 a < F64 b \<longleftrightarrow> a < b"
  by (simp_all add: less_eq_f64_def less_f64_def)

text \<open>A score: a double between zero and one.\<close>

definition is_score :: "f64 \<Rightarrow> bool" where
  "is_score x \<longleftrightarrow> f_zero \<le> x \<and> x \<le> f_one \<and> is_double (ulps x)"

abbreviation is_f64 :: "f64 \<Rightarrow> bool" where
  "is_f64 x \<equiv> 0 \<le> ulps x \<and> is_double (ulps x)"

lemma is_score_iff: "is_score x \<longleftrightarrow> is_f64 x \<and> x \<le> f_one"
  by (cases x) (auto simp: is_score_def)

lemma rnd_unit [simp]: "0 < q \<Longrightarrow> rnd (f64_unit * q) q = f64_unit"
  by (rule rnd_exact) simp_all

lemma lit_mono: "0 \<le> p \<Longrightarrow> 0 < q \<Longrightarrow> 0 < q' \<Longrightarrow> p * q' \<le> p' * q \<Longrightarrow> lit p q \<le> lit p' q'"
  unfolding lit_def f64_le
  using mult_right_mono [of "p * q'" "p' * q" f64_unit] by (intro rnd_mono_frac) (simp_all add: ac_simps)

lemma lit_f64: "0 \<le> p \<Longrightarrow> 0 < q \<Longrightarrow> is_f64 (lit p q)"
  by (simp add: lit_def rnd_nonneg rnd_is_double)

lemma lit_1: "0 < q \<Longrightarrow> lit q q = f_one"
  by (simp add: lit_def mult.commute)

lemma lit_score: "0 \<le> p \<Longrightarrow> p \<le> q \<Longrightarrow> 0 < q \<Longrightarrow> is_score (lit p q)"
  using lit_mono [of p q q q] by (simp add: is_score_iff lit_f64 lit_1 mult_right_mono)

lemma f64_of_f64: "is_f64 (f64_of n)"
  by (simp add: f64_of_int_def rnd_nonneg rnd_is_double)

lemma f64_of_mono: "m \<le> n \<Longrightarrow> f64_of m \<le> f64_of n"
  by (simp add: f64_of_int_def rnd_mono)

lemma f64_of_1 [simp]: "f64_of_int 1 = f_one"
  using rnd_unit [of 1] by (simp only: f64_of_int_def mult_1 mult_1_right zero_less_one)

lemma f64_of_0 [simp]: "f64_of_int 0 = f_zero"
  using rnd_exact [of 0 1] by (simp add: f64_of_int_def)

lemma f64_of_pos: "0 < n \<Longrightarrow> f_one \<le> f64_of n"
  using f64_of_mono [of 1 n] by simp

lemma f_add_f64: "is_f64 x \<Longrightarrow> is_f64 y \<Longrightarrow> is_f64 (f_add x y)"
  by (simp add: f_add_def rnd_nonneg rnd_is_double)

lemma f_mul_f64: "is_f64 x \<Longrightarrow> is_f64 y \<Longrightarrow> is_f64 (f_mul x y)"
  by (simp add: f_mul_def rnd_nonneg rnd_is_double)

lemma f_add_mono: "is_f64 x \<Longrightarrow> is_f64 y \<Longrightarrow> x \<le> x' \<Longrightarrow> y \<le> y' \<Longrightarrow> f_add x y \<le> f_add x' y'"
  by (auto simp: f_add_def less_eq_f64_def intro!: rnd_mono)

lemma f_mul_mono: "is_f64 x \<Longrightarrow> is_f64 y \<Longrightarrow> x \<le> x' \<Longrightarrow> y \<le> y' \<Longrightarrow> f_mul x y \<le> f_mul x' y'"
  by (auto simp: f_mul_def less_eq_f64_def intro!: rnd_mono mult_mono)

lemma f_mul_1: "is_double (ulps x) \<Longrightarrow> f_mul x f_one = x"
  by (cases x) (simp add: f_mul_def rnd_exact)

lemma f_mul_score: "is_score x \<Longrightarrow> is_score y \<Longrightarrow> is_score (f_mul x y)"
  using f_mul_mono [of x y f_one f_one] f_mul_1 [of f_one] by (simp add: is_score_iff f_mul_f64)

lemma f_div_score: "is_f64 x \<Longrightarrow> x \<le> y \<Longrightarrow> f_one \<le> y \<Longrightarrow> is_score (f_div x y)"
proof -
  assume a: "is_f64 x" "x \<le> y" "f_one \<le> y"
  then have y: "f64_unit \<le> ulps y" and le: "ulps x \<le> ulps y" by (simp_all add: less_eq_f64_def)
  have pos: "0 < ulps y" using y by (rule less_le_trans [rotated]) simp
  have "rnd (ulps x * f64_unit) (ulps y) \<le> rnd (f64_unit * ulps y) (ulps y)"
    using a(1) le pos by (intro rnd_mono) (simp_all add: mult.commute mult_left_mono)
  with a pos show ?thesis by (simp add: f_div_def is_score_iff rnd_nonneg rnd_is_double)
qed

lemma f_div_self: "0 < ulps x \<Longrightarrow> f_div x x = f_one"
  by (simp add: f_div_def mult.commute [of "ulps x"])

lemma ratio_score: "m \<le> n \<Longrightarrow> 0 < n \<Longrightarrow> is_score (f_div (f64_of m) (f64_of n))"
  by (intro f_div_score f64_of_f64 f64_of_mono f64_of_pos)

lemma ratio_self: "0 < n \<Longrightarrow> f_div (f64_of n) (f64_of n) = f_one"
  using f64_of_pos [of n] by (intro f_div_self) (auto simp: less_eq_f64_def intro: less_le_trans [rotated])

lemma score_f64 [dest]: "is_score x \<Longrightarrow> is_f64 x"
  by (simp add: is_score_iff)

lemma score_0 [simp]: "is_score f_zero" and score_1 [simp]: "is_score f_one"
  by (simp_all add: is_score_def)

lemma f_clamp_between: "lo \<le> hi \<Longrightarrow> lo \<le> f_clamp lo hi x \<and> f_clamp lo hi x \<le> hi"
  by (auto simp: f_clamp_def)

section \<open>Evaluating literals and sums\<close>

text \<open>
  Literals and sums of literals on the grid \<open>2 ^ - 56\<close>, which holds every double from \<open>1/16\<close> on:
  with the number of bits to drop given, they are small integer computations.
\<close>

definition grid :: "int \<Rightarrow> f64" where
  "grid k = F64 (k * 2 ^ 1018)"

lemma div_between: "0 < q \<Longrightarrow> q * a \<le> x \<Longrightarrow> x < q * b \<Longrightarrow> a \<le> x div q \<and> x div q < (b::int)"
proof -
  assume a: "0 < q" "q * a \<le> x" "x < q * b"
  have "q * a div q \<le> x div q" using a by (intro zdiv_mono1)
  moreover have "q * (x div q) < q * b" using a pos_mod_sign [OF a(1), of x] mult_div_mod_eq [of q x] by linarith
  ultimately show ?thesis using a(1) by simp
qed

lemma rnd_grid:
  assumes "0 < q" "q * 2 ^ (52 + d) \<le> p" "p < q * 2 ^ (53 + d)"
  shows "rnd (p * 2 ^ s) q = half_even p (q * 2 ^ d) * 2 ^ d * 2 ^ s"
proof -
  have p: "0 \<le> p" using assms by (meson less_imp_le mult_pos_pos order_trans zero_less_numeral zero_less_power)
  let ?n = "p * 2 ^ s div q"
  have "2 ^ (52 + (d + s)) \<le> ?n \<and> ?n < 2 ^ Suc (52 + (d + s))"
    using assms mult_right_mono [OF assms(2), of "2 ^ s"] mult_strict_right_mono [OF assms(3), of "2 ^ s"]
    by (intro div_between) (simp_all add: power_add ac_simps)
  then have lo: "2 ^ (52 + (d + s)) \<le> ?n" and hi: "?n < 2 ^ Suc (52 + (d + s))" by simp_all
  have "bit_len (nat ?n) = Suc (52 + (d + s))"
    using lo hi by (intro bit_len_eqI) (simp_all add: nat_less_iff le_nat_iff)
  then have e: "excess (p * 2 ^ s) q = d + s" by (simp add: excess_def)
  have "half_even (p * 2 ^ s) ((q * 2 ^ d) * 2 ^ s) = half_even p (q * 2 ^ d)" using assms(1) by (intro half_even_scale) simp_all
  then show ?thesis using p by (simp add: rnd_def round_to_def e power_add ac_simps)
qed

lemma f64_unit_grid: "f64_unit = 2 ^ 56 * 2 ^ 1018"
  unfolding f64_unit_def power_add [symmetric] by (rule arg_cong [of _ _ "power 2"]) simp

lemma f_one_grid: "f_one = grid (2 ^ 56)"
  by (simp only: grid_def f64_unit_grid)

lemma lit_grid:
  "0 < q \<Longrightarrow> q * 2 ^ (52 + d) \<le> p * 2 ^ 56 \<Longrightarrow> p * 2 ^ 56 < q * 2 ^ (53 + d) \<Longrightarrow>
   lit p q = grid (half_even (p * 2 ^ 56) (q * 2 ^ d) * 2 ^ d)"
  unfolding lit_def grid_def f64_unit_grid mult.assoc [symmetric] by (simp only: rnd_grid)

lemma add_grid:
  "2 ^ (52 + d) \<le> a + b \<Longrightarrow> a + b < 2 ^ (53 + d) \<Longrightarrow>
   f_add (grid a) (grid b) = grid (half_even (a + b) (2 ^ d) * 2 ^ d)"
  using rnd_grid [of 1 d "a + b" 1018] by (simp only: f_add_def grid_def f64.sel distrib_right [symmetric] mult_1 zero_less_one)

lemmas grid_eval =
  lit_grid [of _ 0] lit_grid [of _ 1] lit_grid [of _ 2] lit_grid [of _ 3] lit_grid [of _ 4]
  add_grid [of 0] add_grid [of 1] add_grid [of 2] add_grid [of 3] add_grid [of 4] half_even_def f_one_grid

lemma weights_sum:
  "f_add (f_add (f_add (f_add (lit 30 100) (lit 25 100)) (lit 20 100)) (lit 15 100)) (lit 10 100) = f_one"
  "f_add (f_add (lit 6 10) (lit 2 10)) (lit 2 10) = f_one"
  "f_add (lit 6 10) (lit 4 10) = f_one"
  "f_add (f_add (f_add (lit 30 100) (lit 25 100)) (lit 25 100)) (lit 20 100) = f_one"
  by (simp_all add: grid_eval)

end
