(* ===== verification/Json.thy ===== *)
theory Json
  imports BTree_Map Float64 "HOL-Library.AList"
begin

text \<open>
  The JSON values the crates exchange (\<open>serde_json::Value\<close>): its six shapes and the
  accessors the code calls on them. A number is an integer or a finite double, which
  answers \<open>None\<close> to \<open>as_u64\<close>; \<open>as_f64\<close> rounds an integer to the nearest double. An object is the list of its members. Indexing \<open>v["k"]\<close> gives
  \<open>Null\<close> where \<open>get\<close> gives \<open>None\<close>. The text of a value (\<open>serde_json::to_string\<close>) is
  produced by a library and is a parameter of the definitions that use it.
\<close>

datatype json =
    JNull
  | JBool bool
  | JNum int
  | JFloat f64
  | JStr string
  | JArr "json list"
  | JObj "(string \<times> json) list"

fun jget :: "json \<Rightarrow> string \<Rightarrow> json option" where
  "jget (JObj m) k = map_of m k"
| "jget _ k = None"

definition jidx :: "json \<Rightarrow> string \<Rightarrow> json" where
  "jidx v k = unwrap_or (jget v k) JNull"

fun jset :: "json \<Rightarrow> string \<Rightarrow> json \<Rightarrow> json" where
  "jset (JObj m) k v = JObj (AList.update k v m)"
| "jset JNull k v = JObj [(k, v)]"
| "jset w k v = w"

fun as_str :: "json \<Rightarrow> string option" where
  "as_str (JStr s) = Some s"
| "as_str _ = None"

fun as_bool :: "json \<Rightarrow> bool option" where
  "as_bool (JBool b) = Some b"
| "as_bool _ = None"

fun as_u64 :: "json \<Rightarrow> u64 option" where
  "as_u64 (JNum n) = (if 0 \<le> n \<and> n < 2 ^ 64 then Some (word_of_int n) else None)"
| "as_u64 _ = None"

fun as_f64 :: "json \<Rightarrow> f64 option" where
  "as_f64 (JNum n) = Some (f64_of_int n)"
| "as_f64 (JFloat x) = Some x"
| "as_f64 _ = None"

fun as_array :: "json \<Rightarrow> json list option" where
  "as_array (JArr xs) = Some xs"
| "as_array _ = None"

fun is_null :: "json \<Rightarrow> bool" where
  "is_null JNull = True"
| "is_null _ = False"

text \<open>\<open>json!\<close> of the integer, string and optional values the code embeds.\<close>

definition ju :: "u64 \<Rightarrow> json" where
  "ju w = JNum (uint w)"

definition jn :: "nat \<Rightarrow> json" where
  "jn n = JNum (int n)"

definition jopt :: "('a \<Rightarrow> json) \<Rightarrow> 'a option \<Rightarrow> json" where
  "jopt f o' = (case o' of None \<Rightarrow> JNull | Some x \<Rightarrow> f x)"

lemma as_u64_ju [simp]: "as_u64 (ju w) = Some w"
  using uint_lt2p [of w] by (simp add: ju_def)

lemma as_u64_bound: "as_u64 (JNum n) = Some w \<Longrightarrow> n = uint w"
  by (auto split: if_splits simp: take_bit_int_eq_self uint_word_of_int)

lemma jidx_simps [simp]:
  "jidx (JObj ((k', v) # m)) k = (if k = k' then v else jidx (JObj m) k)"
  "jidx (JObj []) k = JNull"
  "jidx JNull k = JNull"
  by (simp_all add: jidx_def)

lemma jget_jset_same: "jget (jset (JObj m) k v) k = Some v"
  by (simp add: update_conv)

text \<open>Optional parameters of a request: \<open>params.get(k).and_then(as_u64).unwrap_or(d)\<close> and kin.\<close>

definition param_str :: "json \<Rightarrow> string \<Rightarrow> string option" where
  "param_str p k = Option.bind (jget p k) as_str"

definition param_u64 :: "json \<Rightarrow> string \<Rightarrow> u64 option" where
  "param_u64 p k = Option.bind (jget p k) as_u64"

definition param_bool :: "json \<Rightarrow> string \<Rightarrow> bool option" where
  "param_bool p k = Option.bind (jget p k) as_bool"

definition param_array :: "json \<Rightarrow> string \<Rightarrow> json list option" where
  "param_array p k = Option.bind (jget p k) as_array"

definition param_usize :: "json \<Rightarrow> string \<Rightarrow> nat \<Rightarrow> nat" where
  "param_usize p k d = (case param_u64 p k of None \<Rightarrow> d | Some w \<Rightarrow> unat w)"

lemmas param_defs = param_str_def param_u64_def param_bool_def param_array_def param_usize_def

end
