(* ===== verification/Errors.thy ===== *)
theory Errors
  imports Json
begin

text \<open>
  \<open>crates/rmcp-core/src/error.rs\<close>: the unified error type, its stable machine-readable
  codes, its display text and the payload handed to MCP clients. The last constructor,
  \<open>Panic\<close>, is not a variant of the Rust enum: it is how the model represents a panic that
  unwinds out of an operation, so that a branch of the source that can abort is a branch
  of the model. Code that inspects an error with \<open>match\<close> never sees it.
\<close>

datatype error =
    IdaNotFound string
  | IdaVersionMismatch (found: string) (detail: string)
  | Config string
  | CapabilityUnavailable (capability: string) (reason: string)
  | UnknownDb string
  | DbAmbiguous (db_count: usize) (candidates: string)
  | UnknownResult string
  | RevisionConflict (expected: u64) (current: u64)
  | Worker string
  | Ipc string
  | Io string
  | Panic string

type_synonym 'a result = "error + 'a"

fun code :: "error \<Rightarrow> string" where
  "code (IdaNotFound _) = ''ida_not_found''"
| "code (IdaVersionMismatch _ _) = ''ida_version_mismatch''"
| "code (Config _) = ''config''"
| "code (CapabilityUnavailable _ _) = ''capability_unavailable''"
| "code (UnknownDb _) = ''unknown_db''"
| "code (DbAmbiguous _ _) = ''db_ambiguous''"
| "code (UnknownResult _) = ''unknown_result''"
| "code (RevisionConflict _ _) = ''revision_conflict''"
| "code (Worker _) = ''worker_failure''"
| "code (Ipc _) = ''ipc_failure''"
| "code (Io _) = ''io''"
| "code (Panic _) = ''panic''"

fun error_to_string :: "error \<Rightarrow> string" where
  "error_to_string (IdaNotFound s) = ''ida not found: '' @ s"
| "error_to_string (IdaVersionMismatch f d) =
     ''ida version mismatch: found '' @ f @ '', require 9.2.x: '' @ d"
| "error_to_string (Config s) = ''config error: '' @ s"
| "error_to_string (CapabilityUnavailable c r) = ''capability unavailable: '' @ c @ '': '' @ r"
| "error_to_string (UnknownDb s) = ''db handle '' @ [CHR 0x27] @ s @ [CHR 0x27] @ '' is unknown or closed''"
| "error_to_string (DbAmbiguous n c) =
     ''db handle omitted and '' @ show_nat n @ '' DBs are open; specify one of: '' @ c"
| "error_to_string (UnknownResult s) =
     ''result handle '' @ [CHR 0x27] @ s @ [CHR 0x27] @ '' is unknown or expired''"
| "error_to_string (RevisionConflict e c) =
     ''revision conflict: expected '' @ show_u64 e @ '', current '' @ show_u64 c"
| "error_to_string (Worker s) = ''worker failure: '' @ s"
| "error_to_string (Ipc s) = ''ipc failure: '' @ s"
| "error_to_string (Io s) = ''io: '' @ s"
| "error_to_string (Panic s) = ''panic: '' @ s"

record error_payload =
  ep_code :: string
  ep_message :: string

definition payload :: "error \<Rightarrow> error_payload" where
  "payload e = \<lparr>ep_code = code e, ep_message = error_to_string e\<rparr>"

definition payload_to_string :: "error_payload \<Rightarrow> string" where
  "payload_to_string p = ep_code p @ '': '' @ ep_message p"

text \<open>The variant of an error, the information the stable code is to carry.\<close>

definition same_variant :: "error \<Rightarrow> error \<Rightarrow> bool" where
  "same_variant a b \<longleftrightarrow> (case (a, b) of
       (IdaNotFound _, IdaNotFound _) \<Rightarrow> True
     | (IdaVersionMismatch _ _, IdaVersionMismatch _ _) \<Rightarrow> True
     | (Config _, Config _) \<Rightarrow> True
     | (CapabilityUnavailable _ _, CapabilityUnavailable _ _) \<Rightarrow> True
     | (UnknownDb _, UnknownDb _) \<Rightarrow> True
     | (DbAmbiguous _ _, DbAmbiguous _ _) \<Rightarrow> True
     | (UnknownResult _, UnknownResult _) \<Rightarrow> True
     | (RevisionConflict _ _, RevisionConflict _ _) \<Rightarrow> True
     | (Worker _, Worker _) \<Rightarrow> True
     | (Ipc _, Ipc _) \<Rightarrow> True
     | (Io _, Io _) \<Rightarrow> True
     | (Panic _, Panic _) \<Rightarrow> True
     | _ \<Rightarrow> False)"

lemma code_eq_same_variant: "code a = code b \<longleftrightarrow> same_variant a b"
  by (cases a; cases b) (simp_all add: same_variant_def)

lemma code_nonempty: "code e \<noteq> []"
  by (cases e) simp_all

end
