(* ===== verification/Analysis_Index.thy ===== *)
theory Analysis_Index
  imports Errors
begin

text \<open>
  \<open>crates/rmcp-core/src/analysis_index.rs\<close>: the database-wide index of function facts, its
  structured predicates with the evidence they report, bounded call-graph reachability, the
  query planner, and the cache files it is saved to and loaded from. The file system is a
  partial map from paths to contents; the JSON text of an index is library code and a
  parameter.
\<close>

definition INDEX_SCHEMA_VERSION :: u32 where
  "INDEX_SCHEMA_VERSION = 1"

record function_facts =
  ff_ea_start :: u64
  ff_ea_end :: u64
  ff_name :: string
  ff_demangled :: string
  ff_size :: u64
  ff_imports :: "string list"
  ff_strings :: "string list"
  ff_constants :: "u64 list"
  ff_indirect_calls :: u32
  ff_callees :: "u64 list"
  ff_callers :: "u64 list"
  ff_globals :: "u64 list"

record indexed_string =
  is_ea :: u64
  is_text :: string
  is_refs :: "u64 list"

record analysis_index =
  ai_schema_version :: u32
  ai_binary_md5 :: string
  ai_revision :: u64
  ai_functions :: "(u64, function_facts) btree"
  ai_strings :: "indexed_string list"

definition default_facts :: function_facts where
  "default_facts = \<lparr>ff_ea_start = 0, ff_ea_end = 0, ff_name = [], ff_demangled = [], ff_size = 0,
     ff_imports = [], ff_strings = [], ff_constants = [], ff_indirect_calls = 0,
     ff_callees = [], ff_callers = [], ff_globals = []\<rparr>"

section \<open>Reachability\<close>

text \<open>
  The inner loops of \<open>reachable\<close>: \<open>None\<close> is the early \<open>return true\<close>, otherwise the \<open>seen\<close>
  set (kept as a list) and the next frontier.
\<close>

fun scan_callees :: "u64 \<Rightarrow> u64 list \<Rightarrow> u64 list \<times> u64 list \<Rightarrow> (u64 list \<times> u64 list) option" where
  "scan_callees target [] s = Some s"
| "scan_callees target (c # cs) (seen, nxt) =
     (if c = target then None
      else if c \<in> set seen then scan_callees target cs (seen, nxt)
      else scan_callees target cs (c # seen, nxt @ [c]))"

fun scan_frontier ::
  "analysis_index \<Rightarrow> u64 \<Rightarrow> u64 list \<Rightarrow> u64 list \<times> u64 list \<Rightarrow> (u64 list \<times> u64 list) option" where
  "scan_frontier idx target [] s = Some s"
| "scan_frontier idx target (ea # eas) s =
     (case bt_get (ai_functions idx) ea of
        None \<Rightarrow> scan_frontier idx target eas s
      | Some f \<Rightarrow> (case scan_callees target (ff_callees f) s of
            None \<Rightarrow> None
          | Some s' \<Rightarrow> scan_frontier idx target eas s'))"

fun reach_levels :: "analysis_index \<Rightarrow> u64 \<Rightarrow> nat \<Rightarrow> u64 list \<Rightarrow> u64 list \<Rightarrow> bool" where
  "reach_levels idx target 0 seen frontier = False"
| "reach_levels idx target (Suc n) seen frontier =
     (case scan_frontier idx target frontier (seen, []) of
        None \<Rightarrow> True
      | Some (seen', nxt) \<Rightarrow> reach_levels idx target n seen' nxt)"

definition reachable :: "analysis_index \<Rightarrow> u64 \<Rightarrow> u32 \<Rightarrow> u64 \<Rightarrow> bool" where
  "reachable idx root levels target = reach_levels idx target (unat levels) [root] [root]"

section \<open>Predicates\<close>

datatype predicate =
    NameContains string
  | Import string
  | StringContains string
  | HasIndirectCalls u32
  | Constant u64
  | CalleeMatches predicate
  | CallerMatches predicate
  | All "predicate list"
  | Any "predicate list"
  | Not predicate
  | ReachableFrom u64 u32

fun first_some :: "('a \<Rightarrow> 'b option) \<Rightarrow> 'a list \<Rightarrow> 'b option" where
  "first_some f [] = None"
| "first_some f (x # xs) = (case f x of None \<Rightarrow> first_some f xs | Some y \<Rightarrow> Some y)"

definition nonempty :: "'a list \<Rightarrow> 'a list option" where
  "nonempty xs = (if xs = [] then None else Some xs)"

fun matches :: "predicate \<Rightarrow> function_facts \<Rightarrow> analysis_index \<Rightarrow> string list option"
  and matches_all :: "predicate list \<Rightarrow> function_facts \<Rightarrow> analysis_index \<Rightarrow> string list option"
  and matches_any :: "predicate list \<Rightarrow> function_facts \<Rightarrow> analysis_index \<Rightarrow> string list option"
where
  "matches (NameContains needle) f idx =
     (let n = to_lowercase needle in
      if str_contains (to_lowercase (ff_name f)) n \<or> str_contains (to_lowercase (ff_demangled f)) n
      then Some [''name:'' @ ff_name f] else None)"
| "matches (Import name) f idx =
     nonempty (map (\<lambda>i. ''import:'' @ i)
       (filter (\<lambda>i. eq_ignore_ascii_case i name) (ff_imports f)))"
| "matches (StringContains needle) f idx =
     nonempty (map (\<lambda>s. ''string:'' @ s)
       (filter (\<lambda>s. str_contains (to_lowercase s) (to_lowercase needle)) (ff_strings f)))"
| "matches (HasIndirectCalls mn) f idx =
     (if ff_indirect_calls f \<ge> mn
      then Some [''indirect_calls:'' @ show_nat (unat (ff_indirect_calls f))] else None)"
| "matches (Constant v) f idx =
     (if v \<in> set (ff_constants f) then Some [''constant:'' @ hex_alt v] else None)"
| "matches (CalleeMatches inner) f idx =
     first_some (\<lambda>ea. case bt_get (ai_functions idx) ea of
         None \<Rightarrow> None
       | Some g \<Rightarrow> map_option (\<lambda>ev. (''callee:'' @ hex_alt ea) # ev) (matches inner g idx))
       (ff_callees f)"
| "matches (CallerMatches inner) f idx =
     first_some (\<lambda>ea. case bt_get (ai_functions idx) ea of
         None \<Rightarrow> None
       | Some g \<Rightarrow> map_option (\<lambda>ev. (''caller:'' @ hex_alt ea) # ev) (matches inner g idx))
       (ff_callers f)"
| "matches (All ps) f idx = matches_all ps f idx"
| "matches (Any ps) f idx = matches_any ps f idx"
| "matches (Not inner) f idx =
     (if matches inner f idx = None then Some [''not:<predicate>''] else None)"
| "matches (ReachableFrom root levels) f idx =
     (if reachable idx root levels (ff_ea_start f)
      then Some [''reachable_from:'' @ hex_alt root @ '' within '' @ show_nat (unat levels) @ '' levels'']
      else None)"
| "matches_all [] f idx = Some []"
| "matches_all (p # ps) f idx =
     (case matches p f idx of None \<Rightarrow> None
      | Some ev \<Rightarrow> map_option (\<lambda>evs. ev @ evs) (matches_all ps f idx))"
| "matches_any [] f idx = None"
| "matches_any (p # ps) f idx =
     (case matches p f idx of Some ev \<Rightarrow> Some ev | None \<Rightarrow> matches_any ps f idx)"

section \<open>Queries\<close>

record evidence_query =
  eq_all :: "predicate list option"
  eq_limit :: usize

definition default_limit :: usize where
  "default_limit = 20"

record evidence_hit =
  eh_function :: string
  eh_ea_start :: u64
  eh_ea_end :: u64
  eh_score :: usize
  eh_matched :: "string list"

definition evidence_hit_json :: "evidence_hit \<Rightarrow> json" where
  "evidence_hit_json h = JObj [(''function'', JStr (eh_function h)), (''ea_start'', ju (eh_ea_start h)),
     (''ea_end'', ju (eh_ea_end h)), (''score'', jn (eh_score h)), (''matched'', JArr (map JStr (eh_matched h)))]"

definition clamp :: "nat \<Rightarrow> nat \<Rightarrow> nat \<Rightarrow> nat" where
  "clamp lo hi x = max lo (min hi x)"

definition hit_of :: "analysis_index \<Rightarrow> predicate list \<Rightarrow> function_facts \<Rightarrow> evidence_hit option" where
  "hit_of idx ps f =
     (case matches_all ps f idx of
        None \<Rightarrow> None
      | Some matched \<Rightarrow>
          if matched = [] then None
          else Some \<lparr>eh_function = ff_name f, eh_ea_start = ff_ea_start f, eh_ea_end = ff_ea_end f,
                     eh_score = length matched, eh_matched = matched\<rparr>)"

fun query_loop ::
  "analysis_index \<Rightarrow> predicate list \<Rightarrow> usize \<Rightarrow> function_facts list \<Rightarrow> evidence_hit list \<Rightarrow> evidence_hit list"
where
  "query_loop idx ps limit [] hits = hits"
| "query_loop idx ps limit (f # fs) hits =
     (let hits' = (case hit_of idx ps f of None \<Rightarrow> hits | Some h \<Rightarrow> hits @ [h])
      in if length hits' \<ge> limit then hits' else query_loop idx ps limit fs hits')"

definition query :: "analysis_index \<Rightarrow> evidence_query \<Rightarrow> evidence_hit list" where
  "query idx q =
     (let limit = clamp 1 1000 (eq_limit q);
          ps = unwrap_or (eq_all q) [];
          hits = query_loop idx ps limit (map snd (ai_functions idx)) []
      in sort_key (\<lambda>h. - int (eh_score h)) hits)"

section \<open>Cache files\<close>

type_synonym path = "string list"
type_synonym fs = "path \<rightharpoonup> string"

definition index_file :: "string \<Rightarrow> u64 \<Rightarrow> u32 \<Rightarrow> string" where
  "index_file md5 rv ver =
     md5 @ ''-rev'' @ show_u64 rv @ ''-v'' @ show_nat (unat ver) @ ''.json''"

definition index_save ::
  "(analysis_index \<Rightarrow> string + string) \<Rightarrow> path \<Rightarrow> analysis_index \<Rightarrow> fs \<Rightarrow> (string + path) \<times> fs" where
  "index_save to_vec cache_dir idx fs =
     (let p = cache_dir @ [''analysis-index'',
                index_file (ai_binary_md5 idx) (ai_revision idx) (ai_schema_version idx)]
      in case to_vec idx of Inl e \<Rightarrow> (Inl e, fs) | Inr d \<Rightarrow> (Inr p, fs(p \<mapsto> d)))"

definition index_load_from ::
  "(string \<Rightarrow> analysis_index option) \<Rightarrow> path \<Rightarrow> fs \<Rightarrow> analysis_index option" where
  "index_load_from from_slice p fs =
     Option.bind (fs p) (\<lambda>d. Option.bind (from_slice d) (\<lambda>idx.
       if ai_schema_version idx = INDEX_SCHEMA_VERSION then Some idx else None))"

definition index_load ::
  "(string \<Rightarrow> analysis_index option) \<Rightarrow> path \<Rightarrow> string \<Rightarrow> u64 \<Rightarrow> fs \<Rightarrow> analysis_index option" where
  "index_load from_slice cache_dir md5 rv fs =
     index_load_from from_slice
       (cache_dir @ [''analysis-index'', index_file md5 rv INDEX_SCHEMA_VERSION]) fs"

definition index_summary :: "analysis_index \<Rightarrow> json" where
  "index_summary idx = JObj [
     (''schema_version'', jn (unat (ai_schema_version idx))),
     (''binary_md5'', JStr (ai_binary_md5 idx)),
     (''revision'', ju (ai_revision idx)),
     (''functions'', jn (length (ai_functions idx))),
     (''strings'', jn (length (ai_strings idx)))]"

section \<open>Breadth-first search is reachability within the level bound\<close>

definition calls :: "analysis_index \<Rightarrow> u64 \<Rightarrow> u64 \<Rightarrow> bool" where
  "calls idx a b \<longleftrightarrow> (\<exists>f. bt_get (ai_functions idx) a = Some f \<and> b \<in> set (ff_callees f))"

lemma scan_callees_None: "scan_callees t cs s = None \<longleftrightarrow> t \<in> set cs"
  by (induction t cs s rule: scan_callees.induct) auto

lemma scan_callees_Some:
  "scan_callees t cs (seen, nxt) = Some (seen', nxt') \<Longrightarrow>
     set seen' = set seen \<union> set cs \<and> set nxt' = set nxt \<union> (set cs - set seen)"
  by (induction t cs "(seen, nxt)" arbitrary: seen nxt rule: scan_callees.induct)
    (auto split: if_splits)

lemma scan_frontier_None:
  "scan_frontier idx t eas s = None \<longleftrightarrow> (\<exists>a \<in> set eas. calls idx a t)"
proof (induction eas arbitrary: s)
  case (Cons a eas)
  show ?case
  proof (cases "bt_get (ai_functions idx) a")
    case None
    with Cons show ?thesis by (auto simp: calls_def)
  next
    case (Some f)
    with Cons scan_callees_None [of t "ff_callees f" s] show ?thesis
      by (auto simp: calls_def split: option.splits)
  qed
qed (simp add: calls_def)

lemma scan_frontier_Some:
  "scan_frontier idx t eas (seen, nxt) = Some (seen', nxt') \<Longrightarrow>
     set seen' = set seen \<union> {b. \<exists>a \<in> set eas. calls idx a b} \<and>
     set nxt' = set nxt \<union> ({b. \<exists>a \<in> set eas. calls idx a b} - set seen)"
proof (induction eas arbitrary: seen nxt)
  case (Cons a eas)
  show ?case
  proof (cases "bt_get (ai_functions idx) a")
    case None
    with Cons show ?thesis by (auto simp: calls_def)
  next
    case (Some f)
    then have c: "calls idx a b \<longleftrightarrow> b \<in> set (ff_callees f)" for b by (simp add: calls_def)
    from Cons.prems Some obtain s1 n1 where
      s1: "scan_callees t (ff_callees f) (seen, nxt) = Some (s1, n1)"
      and r: "scan_frontier idx t eas (s1, n1) = Some (seen', nxt')"
      by (auto split: option.splits)
    from scan_callees_Some [OF s1] Cons.IH [OF r] show ?thesis by (auto simp: c)
  qed
qed simp

text \<open>Nodes at most \<open>n\<close> calls away, and the search invariant they give.\<close>

fun within :: "analysis_index \<Rightarrow> u64 \<Rightarrow> nat \<Rightarrow> u64 set" where
  "within idx r 0 = {r}"
| "within idx r (Suc n) = within idx r n \<union> {b. \<exists>a \<in> within idx r n. calls idx a b}"

lemma within_mono: "m \<le> n \<Longrightarrow> within idx r m \<subseteq> within idx r n"
  by (induction n) (auto simp: le_Suc_eq)

lemma within_iff_relpow: "b \<in> within idx r n \<longleftrightarrow> (\<exists>k \<le> n. (calls idx ^^ k) r b)"
proof (induction n arbitrary: b)
  case (Suc n)
  show ?case
  proof
    assume "b \<in> within idx r (Suc n)"
    with Suc.IH show "\<exists>k \<le> Suc n. (calls idx ^^ k) r b"
      by (auto intro: le_SucI) (metis Suc_le_mono relpowp_Suc_I)
  next
    assume "\<exists>k \<le> Suc n. (calls idx ^^ k) r b"
    then obtain k where k: "k \<le> Suc n" "(calls idx ^^ k) r b" by blast
    show "b \<in> within idx r (Suc n)"
    proof (cases k)
      case 0
      with k Suc.IH show ?thesis by auto
    next
      case (Suc j)
      with k obtain a where "(calls idx ^^ j) r a" "calls idx a b" "j \<le> n" by auto
      with Suc.IH show ?thesis by auto
    qed
  qed
qed auto

definition bfs_inv :: "analysis_index \<Rightarrow> u64 \<Rightarrow> u64 \<Rightarrow> nat \<Rightarrow> u64 list \<Rightarrow> u64 list \<Rightarrow> bool" where
  "bfs_inv idx r t i seen frontier \<longleftrightarrow>
     set seen = within idx r i \<and>
     set frontier = (if i = 0 then {r} else within idx r i - within idx r (i - 1)) \<and>
     (\<forall>j < i. \<forall>a \<in> within idx r j. \<not> calls idx a t)"

lemma bfs_frontier_covers:
  assumes "bfs_inv idx r t i seen frontier" and "a \<in> within idx r i" and "a \<notin> set frontier"
  shows "\<exists>j < i. a \<in> within idx r j"
  using assms by (cases i) (auto simp: bfs_inv_def)

lemma bfs_step_found:
  assumes "bfs_inv idx r t i seen frontier"
  shows "(\<exists>a \<in> set frontier. calls idx a t) \<longleftrightarrow> (\<exists>a \<in> within idx r i. calls idx a t)"
proof
  assume "\<exists>a \<in> set frontier. calls idx a t"
  moreover have "set frontier \<subseteq> within idx r i"
    using assms by (cases i) (auto simp: bfs_inv_def)
  ultimately show "\<exists>a \<in> within idx r i. calls idx a t" by blast
next
  assume "\<exists>a \<in> within idx r i. calls idx a t"
  then obtain a where a: "a \<in> within idx r i" "calls idx a t" by blast
  show "\<exists>a \<in> set frontier. calls idx a t"
  proof (cases "a \<in> set frontier")
    case False
    with bfs_frontier_covers [OF assms a(1)] a(2) assms show ?thesis
      by (auto simp: bfs_inv_def)
  qed (use a in blast)
qed

lemma bfs_inv_step:
  assumes inv: "bfs_inv idx r t i seen frontier"
    and step: "scan_frontier idx t frontier (seen, []) = Some (seen', nxt)"
  shows "bfs_inv idx r t (Suc i) seen' nxt"
proof -
  have s: "set seen = within idx r i" using inv by (simp add: bfs_inv_def)
  have new: "{b. \<exists>a \<in> set frontier. calls idx a b} \<union> within idx r i = within idx r (Suc i)"
  proof -
    have "b \<in> within idx r i"
      if "a \<in> within idx r i" "a \<notin> set frontier" "calls idx a b" for a b
    proof -
      from bfs_frontier_covers [OF inv that(1,2)] obtain j where "j < i" "a \<in> within idx r j" by blast
      with that(3) have "b \<in> within idx r (Suc j)" by auto
      with \<open>j < i\<close> show ?thesis using within_mono [of "Suc j" i idx r] by auto
    qed
    moreover have "set frontier \<subseteq> within idx r i"
      using inv by (cases i) (auto simp: bfs_inv_def)
    ultimately show ?thesis by auto
  qed
  from scan_frontier_Some [OF step] s new
  have seen': "set seen' = within idx r (Suc i)"
    and nxt: "set nxt = within idx r (Suc i) - within idx r i" by auto
  have "\<not> (\<exists>a \<in> set frontier. calls idx a t)"
    using scan_frontier_None [of idx t frontier "(seen, [])"] step by auto
  with bfs_step_found [OF inv] have "\<forall>a \<in> within idx r i. \<not> calls idx a t" by blast
  with inv seen' nxt show ?thesis by (auto simp: bfs_inv_def less_Suc_eq)
qed

lemma reach_levels_correct:
  "bfs_inv idx r t i seen frontier \<Longrightarrow>
     reach_levels idx t n seen frontier \<longleftrightarrow> (\<exists>j < i + n. \<exists>a \<in> within idx r j. calls idx a t)"
proof (induction n arbitrary: i seen frontier)
  case 0
  then show ?case by (auto simp: bfs_inv_def)
next
  case (Suc n)
  show ?case
  proof (cases "scan_frontier idx t frontier (seen, [])")
    case None
    then have "\<exists>a \<in> within idx r i. calls idx a t"
      using scan_frontier_None bfs_step_found [OF Suc.prems] by blast
    then have "\<exists>j < i + Suc n. \<exists>a \<in> within idx r j. calls idx a t"
      by (intro exI [of _ i]) simp
    with None show ?thesis by simp
  next
    case (Some sn)
    obtain seen' nxt where sn: "sn = (seen', nxt)" by fastforce
    with Some have step: "scan_frontier idx t frontier (seen, []) = Some (seen', nxt)" by simp
    from Suc.IH [OF bfs_inv_step [OF Suc.prems step]] step show ?thesis by simp
  qed
qed

section \<open>The query planner\<close>

lemma query_loop_append:
  "length hits < limit \<Longrightarrow>
     query_loop idx ps limit fs hits = take limit (hits @ List.map_filter (hit_of idx ps) fs)"
proof (induction fs arbitrary: hits)
  case (Cons f fs)
  show ?case
  proof (cases "hit_of idx ps f")
    case None
    with Cons show ?thesis by (simp add: map_filter_simps)
  next
    case (Some h)
    show ?thesis
    proof (cases "length (hits @ [h]) \<ge> limit")
      case True
      with Cons.prems have "limit = Suc (length hits)" by simp
      with True Some show ?thesis by (simp add: map_filter_simps)
    next
      case False
      with Some Cons.IH [of "hits @ [h]"] show ?thesis by (simp add: map_filter_simps)
    qed
  qed
qed simp

lemma query_eq:
  "query idx q = sort_key (\<lambda>h. - int (eh_score h))
     (take (clamp 1 1000 (eq_limit q))
       (List.map_filter (hit_of idx (unwrap_or (eq_all q) [])) (map snd (ai_functions idx))))"
  by (simp add: query_def Let_def query_loop_append clamp_def)

lemma map_filter_mem: "y \<in> set (List.map_filter f xs) \<longleftrightarrow> (\<exists>x \<in> set xs. f x = Some y)"
  by (induction xs) (auto simp: map_filter_simps split: option.splits)

lemma hit_of_SomeD:
  "hit_of idx ps f = Some h \<Longrightarrow> matches_all ps f idx = Some (eh_matched h) \<and> eh_matched h \<noteq> []
     \<and> eh_score h = length (eh_matched h) \<and> eh_ea_start h = ff_ea_start f"
  by (auto simp: hit_of_def split: option.splits if_splits)

section \<open>What the predicates mean\<close>

text \<open>
  The declarative meaning of a predicate, without evidence, search order or early exits:
  the specification \<open>matches\<close> is checked against.
\<close>

fun holds :: "predicate \<Rightarrow> function_facts \<Rightarrow> analysis_index \<Rightarrow> bool" where
  "holds (NameContains n) f idx \<longleftrightarrow>
     (\<exists>a b. to_lowercase (ff_name f) = a @ to_lowercase n @ b) \<or>
     (\<exists>a b. to_lowercase (ff_demangled f) = a @ to_lowercase n @ b)"
| "holds (Import n) f idx \<longleftrightarrow> (\<exists>i \<in> set (ff_imports f). to_lowercase i = to_lowercase n)"
| "holds (StringContains n) f idx \<longleftrightarrow>
     (\<exists>s \<in> set (ff_strings f). \<exists>a b. to_lowercase s = a @ to_lowercase n @ b)"
| "holds (HasIndirectCalls m) f idx \<longleftrightarrow> m \<le> ff_indirect_calls f"
| "holds (Constant v) f idx \<longleftrightarrow> v \<in> set (ff_constants f)"
| "holds (CalleeMatches p) f idx \<longleftrightarrow>
     (\<exists>ea \<in> set (ff_callees f). \<exists>g. bt_get (ai_functions idx) ea = Some g \<and> holds p g idx)"
| "holds (CallerMatches p) f idx \<longleftrightarrow>
     (\<exists>ea \<in> set (ff_callers f). \<exists>g. bt_get (ai_functions idx) ea = Some g \<and> holds p g idx)"
| "holds (All ps) f idx \<longleftrightarrow> (\<forall>p \<in> set ps. holds p f idx)"
| "holds (Any ps) f idx \<longleftrightarrow> (\<exists>p \<in> set ps. holds p f idx)"
| "holds (Not p) f idx \<longleftrightarrow> \<not> holds p f idx"
| "holds (ReachableFrom r l) f idx \<longleftrightarrow>
     (\<exists>k. 1 \<le> k \<and> k \<le> unat l \<and> (calls idx ^^ k) r (ff_ea_start f))"

lemma first_some_None: "first_some f xs = None \<longleftrightarrow> (\<forall>x \<in> set xs. f x = None)"
  by (induction xs) (auto split: option.splits)

lemma first_some_neighbour:
  "first_some (\<lambda>ea. case bt_get m ea of None \<Rightarrow> None | Some g \<Rightarrow> map_option (h ea) (P g)) xs \<noteq> None
   \<longleftrightarrow> (\<exists>ea \<in> set xs. \<exists>g. bt_get m ea = Some g \<and> P g \<noteq> None)"
  by (induction xs) (auto split: option.splits)

lemma nonempty_None: "nonempty xs = None \<longleftrightarrow> xs = []"
  by (simp add: nonempty_def)

lemma reachable_relpow:
  "reachable idx root levels target \<longleftrightarrow>
     (\<exists>k. 1 \<le> k \<and> k \<le> unat levels \<and> (calls idx ^^ k) root target)"
proof -
  have inv: "bfs_inv idx root target 0 [root] [root]" by (simp add: bfs_inv_def)
  have "reachable idx root levels target \<longleftrightarrow>
      (\<exists>j < unat levels. \<exists>a \<in> within idx root j. calls idx a target)"
    using reach_levels_correct [OF inv, of "unat levels"] by (simp add: reachable_def)
  also have "\<dots> \<longleftrightarrow> (\<exists>k. 1 \<le> k \<and> k \<le> unat levels \<and> (calls idx ^^ k) root target)"
  proof
    assume "\<exists>j < unat levels. \<exists>a \<in> within idx root j. calls idx a target"
    then obtain j a k where "j < unat levels" "k \<le> j" "(calls idx ^^ k) root a" "calls idx a target"
      by (auto simp: within_iff_relpow)
    then show "\<exists>k. 1 \<le> k \<and> k \<le> unat levels \<and> (calls idx ^^ k) root target"
      by (intro exI [of _ "Suc k"]) (auto intro: relpowp_Suc_I)
  next
    assume "\<exists>k. 1 \<le> k \<and> k \<le> unat levels \<and> (calls idx ^^ k) root target"
    then obtain k where k: "1 \<le> k" "k \<le> unat levels" "(calls idx ^^ k) root target" by blast
    then obtain j where j: "k = Suc j" by (cases k) auto
    with k obtain a where "(calls idx ^^ j) root a" "calls idx a target" by auto
    with k j show "\<exists>j < unat levels. \<exists>a \<in> within idx root j. calls idx a target"
      by (auto simp: within_iff_relpow intro!: exI [of _ j])
  qed
  finally show ?thesis .
qed

lemma matches_holds:
  "(matches p f idx \<noteq> None) = holds p f idx"
  "(matches_all ps f idx \<noteq> None) = (\<forall>p \<in> set ps. holds p f idx)"
  "(matches_any ps f idx \<noteq> None) = (\<exists>p \<in> set ps. holds p f idx)"
proof (induction p f idx and ps f idx and ps f idx rule: matches_matches_all_matches_any.induct)
  case (6 inner f idx)
  show ?case unfolding matches.simps first_some_neighbour holds.simps using 6 by blast
next
  case (7 inner f idx)
  show ?case unfolding matches.simps first_some_neighbour holds.simps using 7 by blast
qed (auto simp: Let_def str_contains_iff nonempty_None filter_empty_conv eq_ignore_ascii_case_def
      reachable_relpow split: option.splits)

section \<open>Properties\<close>

text \<open>
  \<open>reachable\<close> answers true exactly when the target is at the end of a chain of at least one
  and at most \<open>levels\<close> call edges from the root; pruning already seen functions loses none.
\<close>

lemma reachable_iff_call_path:
  "reachable idx root levels target \<longleftrightarrow>
     (\<exists>k. 1 \<le> k \<and> k \<le> unat levels \<and> (calls idx ^^ k) root target)"
  by (rule reachable_relpow)

text \<open>
  A predicate reports evidence for a function exactly when its declarative meaning holds
  there, for every predicate tree.
\<close>

lemma matches_refines_meaning: "(matches p f idx \<noteq> None) = holds p f idx"
  by (rule matches_holds(1))

lemma query_hits_sound:
  assumes "h \<in> set (query idx q)"
  shows "length (query idx q) \<le> clamp 1 1000 (eq_limit q)
    \<and> sorted_wrt (\<lambda>a b. eh_score b \<le> eh_score a) (query idx q)
    \<and> (\<exists>f \<in> snd ` set (ai_functions idx).
          (\<forall>p \<in> set (unwrap_or (eq_all q) []). holds p f idx)
          \<and> eh_ea_start h = ff_ea_start f \<and> eh_score h = length (eh_matched h) \<and> 0 < eh_score h)"
proof -
  let ?ps = "unwrap_or (eq_all q) []"
  have "sorted (map (\<lambda>h. - int (eh_score h)) (query idx q))" by (simp add: query_eq)
  then have sorted: "sorted_wrt (\<lambda>a b. eh_score b \<le> eh_score a) (query idx q)"
    by (simp add: sorted_map)
  from assms obtain f where f: "f \<in> snd ` set (ai_functions idx)" "hit_of idx ?ps f = Some h"
    by (force simp: query_eq map_filter_mem dest!: in_set_takeD)
  from hit_of_SomeD [OF f(2)] have "\<forall>p \<in> set ?ps. holds p f idx"
    using matches_holds(2) [of ?ps f idx] by simp
  with f hit_of_SomeD [OF f(2)] sorted show ?thesis by (auto simp: query_eq)
qed

definition sample_index :: analysis_index where
  "sample_index = \<lparr>ai_schema_version = 1, ai_binary_md5 = ''m'', ai_revision = 0,
     ai_functions = [(16, default_facts\<lparr>ff_ea_start := 16, ff_name := ''main''\<rparr>)], ai_strings = []\<rparr>"

lemma query_complete:
  assumes "length (query idx q) < clamp 1 1000 (eq_limit q)"
    and "f \<in> snd ` set (ai_functions idx)"
    and "matches_all (unwrap_or (eq_all q) []) f idx = Some ev" and "ev \<noteq> []"
  shows "\<exists>h \<in> set (query idx q). eh_ea_start h = ff_ea_start f \<and> eh_matched h = ev"
proof -
  let ?ps = "unwrap_or (eq_all q) []"
  let ?hits = "List.map_filter (hit_of idx ?ps) (map snd (ai_functions idx))"
  from assms(1) have all: "set (query idx q) = set ?hits" by (simp add: query_eq)
  obtain h where h: "hit_of idx ?ps f = Some h" "eh_ea_start h = ff_ea_start f" "eh_matched h = ev"
    using assms(3,4) by (simp add: hit_of_def)
  with assms(2) have "h \<in> set ?hits" by (auto simp: map_filter_mem)
  with all h show ?thesis by auto
qed

text \<open>
  A query returns at most \<open>limit\<close> hits (clamped to 1..1000), ranked by decreasing evidence
  count; every hit belongs to an indexed function all of whose predicates hold, with its evidence as
  its score; and when there are fewer hits than the limit the query misses none: every indexed
  function with evidence has a hit.
\<close>

lemma query_returns_the_matches:
  "length (query idx q) \<le> clamp 1 1000 (eq_limit q) \<and> sorted_wrt (\<lambda>a b. eh_score b \<le> eh_score a) (query idx q) \<and>
   (\<forall>h \<in> set (query idx q). \<exists>f \<in> snd ` set (ai_functions idx). (\<forall>p \<in> set (unwrap_or (eq_all q) []). holds p f idx) \<and>
      eh_ea_start h = ff_ea_start f \<and> eh_score h = length (eh_matched h) \<and> 0 < eh_score h) \<and>
   (length (query idx q) < clamp 1 1000 (eq_limit q) \<longrightarrow>
      (\<forall>f \<in> snd ` set (ai_functions idx). \<forall>ev. matches_all (unwrap_or (eq_all q) []) f idx = Some ev \<longrightarrow> ev \<noteq> [] \<longrightarrow>
         (\<exists>h \<in> set (query idx q). eh_ea_start h = ff_ea_start f \<and> eh_matched h = ev)))"
proof (intro conjI ballI impI allI)
  show "length (query idx q) \<le> clamp 1 1000 (eq_limit q)" by (simp add: query_eq)
  show "sorted_wrt (\<lambda>a b. eh_score b \<le> eh_score a) (query idx q)"
    using query_hits_sound [of _ idx q] by (cases "query idx q") auto
qed (use query_hits_sound query_complete in blast)+

text \<open>
  An index saved under the cache directory is found again by \<open>load\<close> with its own identity
  and revision, provided the JSON library decodes what it encoded; a file of another schema
  version is never returned.
\<close>

lemma index_save_load_roundtrip:
  assumes enc: "to_vec idx = Inr d" and dec: "from_slice d = Some idx"
    and save: "index_save to_vec dir idx fs = (Inr p, fs')"
  shows "index_load from_slice dir (ai_binary_md5 idx) (ai_revision idx) fs' =
    (if ai_schema_version idx = INDEX_SCHEMA_VERSION then Some idx
     else index_load from_slice dir (ai_binary_md5 idx) (ai_revision idx) fs)"
proof (cases "ai_schema_version idx = INDEX_SCHEMA_VERSION")
  case True
  with assms show ?thesis
    by (auto simp: index_save_def index_load_def index_load_from_def Let_def)
next
  case False
  then have "unat (ai_schema_version idx) \<noteq> unat INDEX_SCHEMA_VERSION"
    by (simp add: word_unat_eq_iff)
  then have "show_nat (unat (ai_schema_version idx)) \<noteq> show_nat (unat INDEX_SCHEMA_VERSION)"
    using show_radix_inj [of 10] by auto
  with False assms show ?thesis
    by (auto simp: index_save_def index_load_def index_load_from_def Let_def index_file_def)
qed

end
