(* ===== verification/Backend.thy ===== *)
theory Backend
  imports Analysis_Index
begin

text \<open>
  \<open>crates/rmcp-core/src/backend.rs\<close>: the value types of the backend trait \<open>IdaBackend\<close>, their
  JSON forms (the derived \<open>Serialize\<close>: one member per field), and the contract the worker
  relies on. The trait's contract on mutations is the locale \<open>revisioned_backend\<close>: a mutation
  that succeeds moves the revision counter on by one and reports the new value, one that
  fails changes nothing. Its lemmas are what the mutation plans and the dispatcher use.
\<close>

record function_info =
  fi_ea_start :: u64
  fi_ea_end :: u64
  fi_name :: string
  fi_size :: u64

record xref_info =
  xr_from :: u64
  xr_to :: u64
  xr_kind :: string

record graph_params =
  gp_kind :: string
  gp_depth :: u32
  gp_max_nodes :: usize
  gp_max_edges :: usize

record string_info =
  si_ea :: u64
  si_value :: string
  si_length :: usize

record segment_info =
  sg_name :: string
  sg_start :: u64
  sg_end :: u64
  sg_perms :: string

record insn_info =
  in_ea :: u64
  in_mnemonic :: string
  in_operands :: string
  in_text :: string

record capabilities =
  cap_decompile :: bool
  cap_types :: bool
  cap_imports_exports :: bool
  cap_patch_bytes :: bool
  cap_rename :: bool
  cap_comments :: bool
  cap_bookmarks :: bool
  cap_plugins :: bool
  cap_ctree :: bool
  cap_lvars :: bool
  cap_microcode :: bool
  cap_switches :: bool
  cap_fixups :: bool
  cap_tails :: bool
  cap_sp_delta :: bool
  cap_file_map :: bool

record mutation_outcome =
  changed :: bool
  revision_after :: u64
  mo_detail :: json

section \<open>JSON forms\<close>

definition function_info_json :: "function_info \<Rightarrow> json" where
  "function_info_json f = JObj [(''ea_start'', ju (fi_ea_start f)), (''ea_end'', ju (fi_ea_end f)),
     (''name'', JStr (fi_name f)), (''size'', ju (fi_size f))]"

definition xref_info_json :: "xref_info \<Rightarrow> json" where
  "xref_info_json x = JObj [(''from'', ju (xr_from x)), (''to'', ju (xr_to x)), (''kind'', JStr (xr_kind x))]"

definition string_info_json :: "string_info \<Rightarrow> json" where
  "string_info_json s = JObj [(''ea'', ju (si_ea s)), (''value'', JStr (si_value s)), (''length'', jn (si_length s))]"

definition segment_info_json :: "segment_info \<Rightarrow> json" where
  "segment_info_json s = JObj [(''name'', JStr (sg_name s)), (''start'', ju (sg_start s)),
     (''end'', ju (sg_end s)), (''perms'', JStr (sg_perms s))]"

definition insn_info_json :: "insn_info \<Rightarrow> json" where
  "insn_info_json i = JObj [(''ea'', ju (in_ea i)), (''mnemonic'', JStr (in_mnemonic i)),
     (''operands'', JStr (in_operands i)), (''text'', JStr (in_text i))]"

definition capabilities_json :: "capabilities \<Rightarrow> json" where
  "capabilities_json c = JObj [
     (''decompile'', JBool (cap_decompile c)), (''types'', JBool (cap_types c)),
     (''imports_exports'', JBool (cap_imports_exports c)), (''patch_bytes'', JBool (cap_patch_bytes c)),
     (''rename'', JBool (cap_rename c)), (''comments'', JBool (cap_comments c)),
     (''bookmarks'', JBool (cap_bookmarks c)), (''plugins'', JBool (cap_plugins c)),
     (''ctree'', JBool (cap_ctree c)), (''lvars'', JBool (cap_lvars c)),
     (''microcode'', JBool (cap_microcode c)), (''switches'', JBool (cap_switches c)),
     (''fixups'', JBool (cap_fixups c)), (''tails'', JBool (cap_tails c)),
     (''sp_delta'', JBool (cap_sp_delta c)), (''file_map'', JBool (cap_file_map c))]"

definition mutation_outcome_json :: "mutation_outcome \<Rightarrow> json" where
  "mutation_outcome_json m = JObj [(''changed'', JBool (changed m)),
     (''revision_after'', ju (revision_after m)), (''detail'', mo_detail m)]"

section \<open>The mutation contract\<close>

text \<open>A mutation of the backend state: a result, and the state it leaves behind.\<close>

type_synonym 's mutation = "'s \<Rightarrow> mutation_outcome result \<times> 's"

definition obeys_contract :: "('s \<Rightarrow> u64) \<Rightarrow> 's mutation \<Rightarrow> bool" where
  "obeys_contract rv m \<longleftrightarrow> (\<forall>s r s'. m s = (r, s') \<longrightarrow>
     (case r of Inl _ \<Rightarrow> s' = s
      | Inr out \<Rightarrow> rv s' = rv s + 1 \<and> revision_after out = rv s'))"

lemma obeys_contractI:
  assumes "\<And>s e s'. m s = (Inl e, s') \<Longrightarrow> s' = s"
    and "\<And>s out s'. m s = (Inr out, s') \<Longrightarrow> rv s' = rv s + 1 \<and> revision_after out = rv s'"
  shows "obeys_contract rv m"
  using assms by (auto simp: obeys_contract_def split: sum.splits)

lemma obeys_contract_okD:
  "obeys_contract rv m \<Longrightarrow> m s = (Inr out, s') \<Longrightarrow> rv s' = rv s + 1 \<and> revision_after out = rv s'"
  by (fastforce simp: obeys_contract_def)

lemma obeys_contract_errD: "obeys_contract rv m \<Longrightarrow> m s = (Inl e, s') \<Longrightarrow> s' = s"
  by (fastforce simp: obeys_contract_def)

text \<open>Applying mutations one after another, stopping at the first error.\<close>

fun run_mutations :: "'s mutation list \<Rightarrow> 's \<Rightarrow> nat \<times> error option \<times> 's" where
  "run_mutations [] s = (0, None, s)"
| "run_mutations (m # ms) s =
     (case m s of
        (Inl e, s') \<Rightarrow> (0, Some e, s')
      | (Inr out, s') \<Rightarrow> (let (n, e, s'') = run_mutations ms s' in (Suc n, e, s'')))"

locale revisioned_backend =
  fixes rv :: "'s \<Rightarrow> u64"
    and mut :: "'op \<Rightarrow> 's mutation"
  assumes contract: "obeys_contract rv (mut op)"
begin

lemma mut_ok: "mut op s = (Inr out, s') \<Longrightarrow> rv s' = rv s + 1 \<and> revision_after out = rv s + 1"
  using obeys_contract_okD [OF contract] by metis

lemma mut_err: "mut op s = (Inl e, s') \<Longrightarrow> s' = s"
  using contract by (rule obeys_contract_errD)

lemma run_revision:
  "run_mutations (map mut ops) s = (n, e, s') \<Longrightarrow> rv s' = rv s + of_nat n \<and> n \<le> length ops"
proof (induction ops arbitrary: s n)
  case (Cons op ops)
  show ?case
  proof (cases "mut op s")
    case (Pair r s1)
    show ?thesis
    proof (cases r)
      case (Inl d)
      with Pair Cons.prems mut_err [of op s d s1] show ?thesis by simp
    next
      case (Inr out)
      obtain k where k: "n = Suc k" and r: "run_mutations (map mut ops) s1 = (k, e, s')"
        using Cons.prems Pair Inr by (auto split: prod.splits)
      from Cons.IH [OF r] k mut_ok [of op s out s1] Pair Inr show ?thesis by simp
    qed
  qed
qed simp

lemma run_all_ok:
  "run_mutations (map mut ops) s = (n, None, s') \<Longrightarrow> n = length ops"
  by (induction ops arbitrary: s n) (auto split: prod.splits sum.splits)

lemma run_stops: "run_mutations (map mut ops) s = (n, Some e, s') \<Longrightarrow> n < length ops"
  by (induction ops arbitrary: s n) (auto split: prod.splits sum.splits)

end

end
