(* ===== verification/Mock_Backend.thy ===== *)
theory Mock_Backend
  imports Backend
begin

text \<open>
  \<open>crates/rmcp-ida/src/mock.rs\<close>: the in-memory backend, the only one a worker built without
  an IDA SDK has. Every method of the trait is one definition; a method that takes
  \<open>&mut self\<close> returns the new state beside its result. JSON texts are written as in the
  source. \<open>+\<close> on addresses wraps, as in a release build.
\<close>

record snapshot_state =
  ss_revision :: u64
  ss_names :: "(u64, string) btree"
  ss_comments :: "(u64 \<times> bool, string) btree"
  ss_bytes :: "(u64, u8 list) btree"

record mock =
  open_path :: "string option"
  mb_revision :: u64
  names :: "(u64, string) btree"
  comments :: "(u64 \<times> bool, string) btree"
  mb_bytes :: "(u64, u8 list) btree"
  decompile_off :: bool
  extra_xrefs :: "(u64 \<times> u64 \<times> string) list"
  snapshots :: "snapshot_state list"

definition mock_new :: mock where
  "mock_new = \<lparr>open_path = None, mb_revision = 0,
     names = [(0x401000, ''main''), (0x401100, ''helper''), (0x401200, ''decrypt_packet''),
              (0x401300, ''dispatch''), (0x401400, ''call_via_ptr'')],
     comments = [],
     mb_bytes = [(0x401000, [0x55, 0x48, 0x89, 0xe5, 0xc3]), (0x401100, [0x55, 0xc3])],
     decompile_off = False, extra_xrefs = [], snapshots = []\<rparr>"

definition add_xref_for_test :: "u64 \<Rightarrow> u64 \<Rightarrow> string \<Rightarrow> mock \<Rightarrow> mock" where
  "add_xref_for_test from to kind b = b\<lparr>extra_xrefs := extra_xrefs b @ [(from, to, kind)]\<rparr>"

definition without_decompile :: "mock \<Rightarrow> mock" where
  "without_decompile b = b\<lparr>decompile_off := True\<rparr>"

definition require_open :: "mock \<Rightarrow> unit result" where
  "require_open b = (if open_path b \<noteq> None then Inr () else Inl (Worker ''no db open''))"

definition bump :: "mock \<Rightarrow> u64 \<times> mock" where
  "bump b = (mb_revision b + 1, b\<lparr>mb_revision := mb_revision b + 1\<rparr>)"

definition functions_vec :: "mock \<Rightarrow> function_info list" where
  "functions_vec b = map (\<lambda>(ea, name). \<lparr>fi_ea_start = ea, fi_ea_end = ea + 0x40,
     fi_name = name, fi_size = 0x40\<rparr>) (names b)"

text \<open>The shape shared by the mutations: guard, change, bump, report.\<close>

definition bumped :: "(u64 \<Rightarrow> json) \<Rightarrow> mock \<Rightarrow> mutation_outcome result \<times> mock" where
  "bumped det b = (let (r, b') = bump b
     in (Inr \<lparr>changed = True, revision_after = r, mo_detail = det r\<rparr>, b'))"

definition hexrays_missing :: error where
  "hexrays_missing = CapabilityUnavailable ''decompile'' ''hexrays not available in this backend''"

section \<open>Opening and closing\<close>

definition mock_open :: "string \<Rightarrow> mock \<Rightarrow> json result \<times> mock" where
  "mock_open path b =
     (if open_path b \<noteq> None then (Inl (Worker ''a db is already open''), b)
      else (Inr (JObj [(''path'', JStr path), (''arch'', JStr ''x86_64''), (''bits'', JNum 64)]),
            b\<lparr>open_path := Some path\<rparr>))"

definition mock_close :: "mock \<Rightarrow> unit result \<times> mock" where
  "mock_close b = (Inr (), b\<lparr>open_path := None\<rparr>)"

definition mock_save :: "mock \<Rightarrow> unit result" where
  "mock_save b = require_open b"

definition mock_db_info :: "mock \<Rightarrow> json result" where
  "mock_db_info b = rbind (require_open b) (\<lambda>_. Inr (JObj [
     (''path'', jopt JStr (open_path b)), (''arch'', JStr ''x86_64''), (''bits'', JNum 64),
     (''function_count'', jn (length (names b))), (''revision'', ju (mb_revision b))]))"

definition mock_capabilities :: "mock \<Rightarrow> capabilities" where
  "mock_capabilities b = \<lparr>cap_decompile = \<not> decompile_off b, cap_types = True,
     cap_imports_exports = True, cap_patch_bytes = True, cap_rename = True, cap_comments = True,
     cap_bookmarks = True, cap_plugins = True, cap_ctree = \<not> decompile_off b,
     cap_lvars = \<not> decompile_off b, cap_microcode = \<not> decompile_off b, cap_switches = True,
     cap_fixups = True, cap_tails = True, cap_sp_delta = True, cap_file_map = True\<rparr>"

definition mock_revision :: "mock \<Rightarrow> u64" where
  "mock_revision b = mb_revision b"

section \<open>Listing and lookup\<close>

definition mock_functions :: "usize \<Rightarrow> usize \<Rightarrow> mock \<Rightarrow> function_info list result" where
  "mock_functions offset limit b =
     rbind (require_open b) (\<lambda>_. Inr (page offset limit (functions_vec b)))"

definition mock_function_at :: "u64 \<Rightarrow> mock \<Rightarrow> function_info result" where
  "mock_function_at ea b =
     rbind (require_open b) (\<lambda>_.
       ok_or (find (\<lambda>f. ea \<ge> fi_ea_start f \<and> ea < fi_ea_end f) (functions_vec b))
         (Worker (''no function containing '' @ hex_alt ea)))"

definition mock_segments :: "mock \<Rightarrow> segment_info list result" where
  "mock_segments b = rbind (require_open b) (\<lambda>_. Inr [
     \<lparr>sg_name = ''.text'', sg_start = 0x401000, sg_end = 0x402000, sg_perms = ''r-x''\<rparr>,
     \<lparr>sg_name = ''.data'', sg_start = 0x402000, sg_end = 0x403000, sg_perms = ''rw-''\<rparr>])"

definition mock_all_strings :: "string_info list" where
  "mock_all_strings = [
     \<lparr>si_ea = 0x402010, si_value = ''usage: %s <file>'', si_length = 16\<rparr>,
     \<lparr>si_ea = 0x402030, si_value = ''decrypt: bad key'', si_length = 16\<rparr>]"

definition mock_strings :: "usize \<Rightarrow> usize \<Rightarrow> mock \<Rightarrow> string_info list result" where
  "mock_strings offset limit b =
     rbind (require_open b) (\<lambda>_. Inr (page offset limit mock_all_strings))"

definition mock_xrefs_to :: "u64 \<Rightarrow> mock \<Rightarrow> xref_info list result" where
  "mock_xrefs_to ea b = rbind (require_open b) (\<lambda>_. Inr (
     map (\<lambda>(from, to, kind). \<lparr>xr_from = from, xr_to = to, xr_kind = kind\<rparr>)
       (filter (\<lambda>(_, to, _). to = ea) (extra_xrefs b))
     @ (if ea = 0x401100 then [\<lparr>xr_from = 0x401020, xr_to = ea, xr_kind = ''call''\<rparr>] else [])
     @ (if ea = 0x401200 then [\<lparr>xr_from = 0x401030, xr_to = ea, xr_kind = ''call''\<rparr>] else [])))"

definition mock_xrefs_from :: "u64 \<Rightarrow> mock \<Rightarrow> xref_info list result" where
  "mock_xrefs_from ea b = rbind (require_open b) (\<lambda>_. Inr (
     if ea = 0x401000
     then [\<lparr>xr_from = ea, xr_to = 0x401100, xr_kind = ''call''\<rparr>,
           \<lparr>xr_from = ea, xr_to = 0x401200, xr_kind = ''call''\<rparr>]
     else []))"

definition mock_insn :: "u64 \<Rightarrow> insn_info" where
  "mock_insn ea = \<lparr>in_ea = ea, in_mnemonic = ''mov'', in_operands = ''eax, ebx'',
     in_text = ''mov eax, ebx ; '' @ hex_alt ea\<rparr>"

text \<open>The loop of \<open>disassemble\<close>; the first argument is how many instructions may still be pushed.\<close>

fun disasm_loop :: "nat \<Rightarrow> u64 \<Rightarrow> u64 \<Rightarrow> insn_info list" where
  "disasm_loop 0 ea end' = []"
| "disasm_loop (Suc n) ea end' =
     (if ea < end' then mock_insn ea # disasm_loop n (ea + 4) end' else [])"

definition mock_disassemble :: "u64 \<Rightarrow> u64 option \<Rightarrow> usize \<Rightarrow> mock \<Rightarrow> insn_info list result" where
  "mock_disassemble ea_start ea_end max_insns b =
     rbind (require_open b) (\<lambda>_. Inr (disasm_loop max_insns ea_start (unwrap_or ea_end (ea_start + 0x10))))"

definition mock_decompile :: "u64 \<Rightarrow> mock \<Rightarrow> json result" where
  "mock_decompile ea b =
     (if decompile_off b then Inl hexrays_missing
      else rbind (require_open b) (\<lambda>_. rbind (mock_function_at ea b) (\<lambda>f. Inr (JObj [
        (''function'', JStr (fi_name f)), (''ea'', ju (fi_ea_start f)),
        (''pseudocode'', JStr (''// '' @ hex_alt (fi_ea_start f) @ [CHR 0x0A] @ ''int '' @ fi_name f
           @ ''(int a, int b) {'' @ [CHR 0x0A] @ ''    return a + b;'' @ [CHR 0x0A] @ ''}''))]))))"

definition graph_node :: "function_info \<Rightarrow> json" where
  "graph_node f = JObj [(''ea'', ju (fi_ea_start f)), (''name'', JStr (fi_name f))]"

definition mock_graph :: "u64 \<Rightarrow> graph_params \<Rightarrow> mock \<Rightarrow> json result" where
  "mock_graph ea params b =
     rbind (require_open b) (\<lambda>_. rbind (mock_function_at ea b) (\<lambda>f.
       rbind (if gp_depth params \<ge> 1
              then rmap (\<lambda>xs. List.map_filter (\<lambda>x. case mock_function_at (xr_to x) b of
                       Inl _ \<Rightarrow> None | Inr c \<Rightarrow> Some c) xs) (mock_xrefs_from (fi_ea_start f) b)
              else Inr []) (\<lambda>callees.
       Inr (JObj [(''root'', ju (fi_ea_start f)),
         (''nodes'', JArr (graph_node f # map graph_node callees)),
         (''edges'', JArr (map (\<lambda>c. JObj [(''from'', ju (fi_ea_start f)), (''to'', ju (fi_ea_start c))]) callees))]))))"

text \<open>A loop that pushes a hit and then stops once \<open>limit\<close> is reached.\<close>

fun take_hits :: "('a \<Rightarrow> bool) \<Rightarrow> ('a \<Rightarrow> 'b) \<Rightarrow> usize \<Rightarrow> 'a list \<Rightarrow> 'b list \<Rightarrow> 'b list" where
  "take_hits p f limit [] out = out"
| "take_hits p f limit (x # xs) out =
     (if p x then (if length (out @ [f x]) \<ge> limit then out @ [f x]
                   else take_hits p f limit xs (out @ [f x]))
      else take_hits p f limit xs out)"

definition mock_search_text :: "string \<Rightarrow> usize \<Rightarrow> mock \<Rightarrow> json list result" where
  "mock_search_text needle limit b =
     rbind (require_open b) (\<lambda>_. rbind (mock_strings 0 u64_max b) (\<lambda>ss. Inr (
       take_hits (\<lambda>s. str_contains (si_value s) needle)
         (\<lambda>s. JObj [(''ea'', ju (si_ea s)), (''text'', JStr (si_value s))]) limit ss [])))"

fun immediate_loop :: "u64 \<Rightarrow> usize \<Rightarrow> u64 list \<Rightarrow> json list \<Rightarrow> json list" where
  "immediate_loop v limit [] out = out"
| "immediate_loop v limit (ea # eas) out =
     (let out' = (if ea = v then out @ [JObj [(''ea'', ju ea), (''context'', JStr ''function start'')]] else out)
      in if length out' \<ge> limit then out' else immediate_loop v limit eas out')"

definition mock_search_immediate :: "u64 \<Rightarrow> usize \<Rightarrow> mock \<Rightarrow> json list result" where
  "mock_search_immediate v limit b =
     rbind (require_open b) (\<lambda>_. Inr (immediate_loop v limit (map fst (names b)) []))"

section \<open>Bytes, comments, names, types\<close>

text \<open>
  \<open>hex::decode\<close>: pairs of digits through \<open>u8::from_str_radix\<close>; slicing inside a multi-byte
  character panics.
\<close>

datatype hex_error = HexError string | SlicePanic

definition hex_pair :: "string \<Rightarrow> usize \<Rightarrow> hex_error + u8" where
  "hex_pair s i =
     (if is_char_boundary s i \<and> is_char_boundary s (i + 2)
      then rmap_err HexError (rmap of_nat (from_str_radix 8 16 (take 2 (drop i s))))
      else Inl SlicePanic)"

definition hex_decode :: "string \<Rightarrow> hex_error + u8 list" where
  "hex_decode s =
     (if length s mod 2 \<noteq> 0 then Inl (HexError ''odd hex length'')
      else rcollect (map (\<lambda>k. hex_pair s (2 * k)) [0..<length s div 2]))"

definition hex_encode :: "u8 list \<Rightarrow> string" where
  "hex_encode bs = concat (map hex2 bs)"

definition mock_get_bytes :: "u64 \<Rightarrow> usize \<Rightarrow> mock \<Rightarrow> json result" where
  "mock_get_bytes ea sz b = rbind (require_open b) (\<lambda>_.
     let bs = take sz (unwrap_or (bt_get (mb_bytes b) ea) [])
     in Inr (JObj [(''ea'', ju ea), (''size'', jn (length bs)), (''hex'', JStr (hex_encode bs))]))"

definition mock_patch_bytes :: "u64 \<Rightarrow> string \<Rightarrow> mock mutation" where
  "mock_patch_bytes ea bytes_hex b =
     (case require_open b of Inl e \<Rightarrow> (Inl e, b) | Inr _ \<Rightarrow>
      (case hex_decode (filter (\<lambda>c. c \<noteq> CHR '' '') (trim bytes_hex)) of
         Inl (HexError e) \<Rightarrow> (Inl (Worker (''bad hex: '' @ e)), b)
       | Inl SlicePanic \<Rightarrow> (Inl (Panic ''byte index is not a char boundary''), b)
       | Inr decoded \<Rightarrow>
           bumped (\<lambda>_. JObj [(''ea'', ju ea)]) (b\<lparr>mb_bytes := bt_insert ea decoded (mb_bytes b)\<rparr>)))"

definition mock_get_comment :: "u64 \<Rightarrow> bool \<Rightarrow> mock \<Rightarrow> json result" where
  "mock_get_comment ea repeatable b = rbind (require_open b) (\<lambda>_. Inr (JObj [
     (''ea'', ju ea), (''repeatable'', JBool repeatable),
     (''comment'', JStr (unwrap_or (bt_get (comments b) (ea, repeatable)) []))]))"

definition mock_set_comment :: "u64 \<Rightarrow> string \<Rightarrow> bool \<Rightarrow> mock mutation" where
  "mock_set_comment ea comment repeatable b =
     (case require_open b of Inl e \<Rightarrow> (Inl e, b) | Inr _ \<Rightarrow>
      bumped (\<lambda>_. JObj [(''ea'', ju ea)])
        (b\<lparr>comments := bt_insert (ea, repeatable) comment (comments b)\<rparr>))"

definition mock_rename :: "u64 \<Rightarrow> string \<Rightarrow> mock mutation" where
  "mock_rename ea new_name b =
     (case require_open b of Inl e \<Rightarrow> (Inl e, b) | Inr _ \<Rightarrow>
      (case bt_get (names b) ea of
         None \<Rightarrow> (Inl (Worker (''no function at '' @ hex_alt ea)), b)
       | Some old \<Rightarrow>
           bumped (\<lambda>_. JObj [(''ea'', ju ea), (''old'', JStr old), (''new'', JStr new_name)])
             (b\<lparr>names := bt_insert ea new_name (names b)\<rparr>)))"

definition mock_all_types :: "json list" where
  "mock_all_types = [
     JObj [(''name'', JStr ''packet_header''),
           (''decl'', JStr ''struct packet_header { uint32_t magic; uint16_t len; }'')],
     JObj [(''name'', JStr ''status_t''), (''decl'', JStr ''enum status_t { OK = 0, ERR = 1 }'')]]"

definition mock_types :: "string option \<Rightarrow> mock \<Rightarrow> json result" where
  "mock_types name b = rbind (require_open b) (\<lambda>_.
     case name of
       Some n \<Rightarrow> ok_or (find (\<lambda>t. jidx t ''name'' = JStr n) mock_all_types)
                   (Worker (''type '' @ [CHR 0x27] @ n @ [CHR 0x27] @ '' not found''))
     | None \<Rightarrow> Inr (JArr mock_all_types))"

definition mock_set_type :: "u64 \<Rightarrow> string \<Rightarrow> mock mutation" where
  "mock_set_type ea decl b =
     (case require_open b of Inl e \<Rightarrow> (Inl e, b) | Inr _ \<Rightarrow>
      bumped (\<lambda>_. JObj [(''ea'', ju ea), (''applied'', JStr decl)]) b)"

section \<open>Binary metadata\<close>

definition mock_db_metadata :: "mock \<Rightarrow> json result" where
  "mock_db_metadata b = rbind (require_open b) (\<lambda>_. Inr (JObj [
     (''md5'', JStr ''d41d8cd98f00b204e9800998ecf8427e''),
     (''sha256'', JStr ''e3b0c44298fc1c149afbf4c8996fb92427ae41e4649b934ca495991b7852b855''),
     (''imagebase'', JNum 0x400000), (''entry_count'', JNum 1),
     (''entries'', JArr [JObj [(''ordinal'', JNum 0), (''ea'', JNum 0x401000), (''name'', JStr ''main'')]]),
     (''tls_callbacks'', JNull), (''tls_callbacks_supported'', JBool False),
     (''exception_handlers_supported'', JBool False)]))"

definition mock_imports :: "usize option \<Rightarrow> usize \<Rightarrow> usize \<Rightarrow> mock \<Rightarrow> json result" where
  "mock_imports module offset limit b = rbind (require_open b) (\<lambda>_.
     let es = page offset limit [
           JObj [(''ea'', JNum 0x403000), (''name'', JStr ''CreateFileA''), (''ordinal'', JNum 0)],
           JObj [(''ea'', JNum 0x403004), (''name'', JStr ''ReadFile''), (''ordinal'', JNum 1)]];
         modules = [JObj [(''index'', JNum 0), (''name'', JStr ''KERNEL32.dll''), (''entries'', JArr es)]]
     in Inr (JObj [
          (''modules'', JArr (case module of
              Some i \<Rightarrow> if i \<ge> length modules then [] else modules
            | None \<Rightarrow> modules)),
          (''module_count'', JNum 1)]))"

definition mock_fixups :: "usize \<Rightarrow> usize \<Rightarrow> mock \<Rightarrow> json result" where
  "mock_fixups offset limit b = rbind (require_open b) (\<lambda>_.
     let all = [
       JObj [(''ea'', JNum 0x402000), (''kind'', JNum 1), (''flags'', JNum 0), (''base'', JNum 0),
             (''sel'', JNum 0), (''off'', JNum 0x403000), (''displacement'', JNum 0)],
       JObj [(''ea'', JNum 0x402008), (''kind'', JNum 1), (''flags'', JNum 0), (''base'', JNum 0),
             (''sel'', JNum 0), (''off'', JNum 0x403004), (''displacement'', JNum 0)]]
     in Inr (JObj [(''total'', jn (length all)), (''fixups'', JArr (page offset limit all))]))"

definition mock_file_map :: "u64 \<Rightarrow> bool \<Rightarrow> mock \<Rightarrow> json result" where
  "mock_file_map v to_ea b = rbind (require_open b) (\<lambda>_.
     if to_ea then
       (case checked_sub v 0x400 of
          Some d \<Rightarrow> Inr (JObj [(''file_offset'', ju v), (''ea'', ju (d + 0x400000))])
        | None \<Rightarrow> Inl (Worker (''file offset '' @ hex_alt v @ '' does not map to an address'')))
     else
       (case checked_sub v 0x400000 of
          Some d \<Rightarrow> Inr (JObj [(''ea'', ju v), (''file_offset'', ju (d + 0x400))])
        | None \<Rightarrow> Inl (Worker (''address '' @ hex_alt v @ '' does not map into the input file''))))"

section \<open>Functions and control flow\<close>

definition mock_func_tails :: "u64 \<Rightarrow> mock \<Rightarrow> json result" where
  "mock_func_tails ea b = rbind (mock_function_at ea b) (\<lambda>f. Inr (JObj [
     (''function'', ju (fi_ea_start f)),
     (''chunks'', JArr [JObj [(''start'', ju (fi_ea_start f)), (''end'', ju (fi_ea_end f)), (''size'', ju (fi_size f))]]),
     (''is_tail_target'', JBool False)]))"

definition mock_func_create :: "u64 \<Rightarrow> u64 option \<Rightarrow> mock mutation" where
  "mock_func_create start end' b =
     (case require_open b of Inl e \<Rightarrow> (Inl e, b) | Inr _ \<Rightarrow>
      bumped (\<lambda>_. JObj [(''start'', ju start), (''end'', jopt ju end')])
        (if bt_get (names b) start = None
         then b\<lparr>names := bt_insert start (''sub_'' @ hex_lower start) (names b)\<rparr> else b))"

definition mock_func_delete :: "u64 \<Rightarrow> mock mutation" where
  "mock_func_delete ea b =
     (case require_open b of Inl e \<Rightarrow> (Inl e, b) | Inr _ \<Rightarrow>
      (if bt_get (names b) ea = None then (Inl (Worker (''no function at '' @ hex_alt ea)), b)
       else bumped (\<lambda>_. JObj [(''ea'', ju ea)]) (b\<lparr>names := bt_remove ea (names b)\<rparr>)))"

definition mock_func_resize :: "u64 \<Rightarrow> u64 option \<Rightarrow> u64 option \<Rightarrow> mock mutation" where
  "mock_func_resize ea new_start new_end b =
     (case require_open b of Inl e \<Rightarrow> (Inl e, b) | Inr _ \<Rightarrow>
      (if new_start = None \<and> new_end = None
       then (Inl (Worker ''func_resize requires new_start and/or new_end''), b)
       else bumped (\<lambda>_. JObj [(''ea'', ju ea), (''start'', jopt ju new_start), (''end'', jopt ju new_end)]) b))"

definition mock_func_switch_info :: "u64 \<Rightarrow> mock \<Rightarrow> json result" where
  "mock_func_switch_info ea b = rbind (require_open b) (\<lambda>_.
     if ea = 0x401310 then Inr (JObj [(''ea'', ju ea), (''jump_table'', JNum 0x402100), (''ncases'', JNum 4),
       (''elbase'', JNum 0x401300), (''lowcase'', JNum 0), (''regnum'', JNum 0)])
     else Inl (Worker (''no switch information at '' @ hex_alt ea)))"

definition mock_func_sp_delta :: "u64 \<Rightarrow> mock \<Rightarrow> json result" where
  "mock_func_sp_delta ea b =
     rbind (mock_function_at ea b) (\<lambda>_. Inr (JObj [(''ea'', ju ea), (''sp_delta'', JNum (-8))]))"

section \<open>Hex-Rays\<close>

definition cfunc_row :: "u64 \<times> int \<times> string \<Rightarrow> json" where
  "cfunc_row r = (case r of (ea, op', t) \<Rightarrow>
     JObj [(''ea'', ju ea), (''op'', JNum op'), (''is_expr'', JBool (op' \<noteq> 0)), (''text'', JStr t)])"

definition cfunc_lvar :: "u64 \<Rightarrow> string \<Rightarrow> json" where
  "cfunc_lvar ea n = JObj [(''defea'', ju ea), (''name'', JStr n), (''type_text'', JStr ''int''),
     (''width'', JNum 4), (''is_arg'', JBool True), (''is_result'', JBool False)]"

definition mock_hr_cfunc :: "u64 \<Rightarrow> bool \<Rightarrow> bool \<Rightarrow> usize \<Rightarrow> mock \<Rightarrow> json result" where
  "mock_hr_cfunc ea include_ctree include_lvars limit b =
     (if decompile_off b then Inl hexrays_missing
      else rbind (mock_function_at ea b) (\<lambda>f. Inr (JObj (
        [(''function'', JStr (fi_name f)), (''ea'', ju (fi_ea_start f)), (''return_type'', JStr ''int'')]
        @ (if include_ctree
           then [(''ctree'', JArr (map cfunc_row (take limit
                    [(fi_ea_start f, 0, ''int main(int a, int b)''), (fi_ea_start f + 4, 0, ''return a + b'')]))),
                 (''ctree_truncated'', JBool False)]
           else [])
        @ (if include_lvars
           then [(''lvars'', JArr [cfunc_lvar (fi_ea_start f) ''a'', cfunc_lvar (fi_ea_start f + 4) ''b'']),
                 (''lvars_truncated'', JBool False)]
           else [])))))"

definition mock_hr_lvar_rename :: "u64 \<Rightarrow> u64 \<Rightarrow> string \<Rightarrow> mock mutation" where
  "mock_hr_lvar_rename ea var_defea new_name b =
     (if decompile_off b then (Inl hexrays_missing, b)
      else case mock_function_at ea b of
             Inl e \<Rightarrow> (Inl e, b)
           | Inr f \<Rightarrow> bumped (\<lambda>_. JObj [(''function'', ju (fi_ea_start f)), (''var_defea'', ju var_defea),
                                        (''new'', JStr new_name)]) b)"

definition mock_insn_features :: "u64 \<Rightarrow> mock \<Rightarrow> json result" where
  "mock_insn_features ea b = rbind (require_open b) (\<lambda>_. Inr (JObj [
     (''ea'', ju ea), (''features'', JNum 0x0500), (''mnemonic'', JStr ''mov'')]))"

definition mock_demangle_name :: "string \<Rightarrow> mock \<Rightarrow> json result" where
  "mock_demangle_name name b = rbind (require_open b) (\<lambda>_.
     let demangled = (if starts_with name ''?'' \<or> starts_with name ''_Z''
                      then name @ ''_demangled'' else name)
     in Inr (JObj [(''name'', JStr name), (''demangled'', JStr demangled), (''changed'', JBool (demangled \<noteq> name))]))"

definition mock_mba_insns :: "u64 \<Rightarrow> json list" where
  "mock_mba_insns body_ea = [
     JObj [(''block'', JNum 1), (''opcode'', JNum 4), (''ea'', ju body_ea), (''l_type'', JNum 2), (''r_type'', JNum 0),
           (''d_type'', JNum 1), (''d_size'', JNum 4), (''n_value'', JNum 0x5A), (''text'', JStr ''mov #0x5A, eax.4'')],
     JObj [(''block'', JNum 1), (''opcode'', JNum 12), (''ea'', ju (body_ea + 2)), (''l_type'', JNum 1), (''r_type'', JNum 1),
           (''d_type'', JNum 1), (''d_size'', JNum 4), (''n_value'', JNum 0), (''text'', JStr ''add eax.4, ebx.4'')],
     JObj [(''block'', JNum 1), (''opcode'', JNum 44), (''ea'', ju (body_ea + 4)), (''l_type'', JNum 1), (''r_type'', JNum 0),
           (''d_type'', JNum 7), (''d_size'', JNum 0), (''n_value'', JNum 0), (''text'', JStr ''jz 1'')]]"

definition mba_block :: "int \<Rightarrow> u64 \<Rightarrow> u64 \<Rightarrow> int \<Rightarrow> int \<Rightarrow> int \<Rightarrow> json" where
  "mba_block serial s e n_pred n_succ n_insns = JObj [(''serial'', JNum serial), (''type'', JNum 0),
     (''start_ea'', ju s), (''end_ea'', ju e), (''n_pred'', JNum n_pred), (''n_succ'', JNum n_succ),
     (''n_insns'', JNum n_insns)]"

definition mock_hr_microcode :: "u64 \<Rightarrow> u32 \<Rightarrow> usize \<Rightarrow> mock \<Rightarrow> json result" where
  "mock_hr_microcode ea req_maturity max_insns b =
     rbind (require_open b) (\<lambda>_.
       if decompile_off b then Inl hexrays_missing
       else rbind (mock_function_at ea b) (\<lambda>f.
         let maturity = (if req_maturity = 0 then 5 else min (unat req_maturity) 7);
             body_ea = fi_ea_start f + 4;
             insns = mock_mba_insns body_ea
         in Inr (JObj [
              (''ea'', ju (fi_ea_start f)), (''function'', JStr (fi_name f)), (''maturity'', jn maturity),
              (''qty'', JNum 3), (''truncated'', JBool (length insns > max_insns)),
              (''blocks'', JArr [mba_block 0 (fi_ea_start f) body_ea 0 1 0,
                                 mba_block 1 body_ea (fi_ea_end f) 2 2 3, mba_block 2 0 0 2 0 0]),
              (''insns'', JArr (take max_insns insns))])))"

section \<open>Snapshots, analysis, plugins\<close>

definition mock_snapshot_create :: "mock \<Rightarrow> json result \<times> mock" where
  "mock_snapshot_create b =
     (case require_open b of Inl e \<Rightarrow> (Inl e, b) | Inr _ \<Rightarrow>
      (let b' = b\<lparr>snapshots := snapshots b @ [\<lparr>ss_revision = mb_revision b, ss_names = names b,
                    ss_comments = comments b, ss_bytes = mb_bytes b\<rparr>]\<rparr>
       in (Inr (JObj [(''snapshot'', jn (length (snapshots b'))), (''revision'', ju (mb_revision b')),
                      (''rollback'', JBool True)]), b')))"

definition mock_snapshot_restore :: "mock \<Rightarrow> json result \<times> mock" where
  "mock_snapshot_restore b =
     (case require_open b of Inl e \<Rightarrow> (Inl e, b) | Inr _ \<Rightarrow>
      (if snapshots b = []
       then (Inr (JObj [(''restored'', JBool False), (''reason'', JStr ''no snapshot taken'')]), b)
       else let snap = last (snapshots b);
                (r, b') = bump (b\<lparr>snapshots := butlast (snapshots b), mb_revision := ss_revision snap,
                    names := ss_names snap, comments := ss_comments snap, mb_bytes := ss_bytes snap\<rparr>)
            in (Inr (JObj [(''restored'', JBool True), (''restored_to_revision'', ju (ss_revision snap)),
                           (''revision_after'', ju r)]), b')))"

definition mock_analyze_wait :: "mock \<Rightarrow> json result" where
  "mock_analyze_wait b = rbind (require_open b) (\<lambda>_.
     Inr (JObj [(''analyzed'', JBool True), (''functions'', jn (length (names b)))]))"

definition mock_run_plugin :: "string \<Rightarrow> string option \<Rightarrow> mock \<Rightarrow> json result" where
  "mock_run_plugin plugin args b = rbind (require_open b) (\<lambda>_.
     Inr (JObj [(''plugin'', JStr plugin), (''args'', jopt JStr args), (''ran'', JBool True)]))"

definition mock_list_plugins :: "json result" where
  "mock_list_plugins = Inr (JArr [JObj [(''name'', JStr ''sample_audit''), (''source'', JStr ''reverse-mcp plugins dir'')]])"

section \<open>Index and deep analysis\<close>

definition bt_adjust :: "'k::linorder \<Rightarrow> ('v \<Rightarrow> 'v) \<Rightarrow> ('k, 'v) btree \<Rightarrow> ('k, 'v) btree" where
  "bt_adjust k f m = map (\<lambda>(j, v). (j, if j = k then f v else v)) m"

definition mock_edges :: "(u64 \<times> u64) list" where
  "mock_edges = [(0x401000, 0x401100), (0x401000, 0x401200), (0x401000, 0x401300), (0x401000, 0x401400)]"

definition strings_of :: "u64 \<Rightarrow> mock \<Rightarrow> string list" where
  "strings_of ea b = []"

definition add_edge :: "(u64, function_facts) btree \<Rightarrow> u64 \<times> u64 \<Rightarrow> (u64, function_facts) btree" where
  "add_edge m e =
     bt_adjust (snd e) (\<lambda>f. f\<lparr>ff_callers := ff_callers f @ [fst e]\<rparr>)
       (bt_adjust (fst e) (\<lambda>f. f\<lparr>ff_callees := ff_callees f @ [snd e]\<rparr>) m)"

definition mock_build_index :: "mock \<Rightarrow> (analysis_index \<times> string) result" where
  "mock_build_index b =
     (let fs = foldl (\<lambda>m f. bt_insert (fi_ea_start f)
                 (default_facts\<lparr>ff_ea_start := fi_ea_start f, ff_ea_end := fi_ea_end f,
                    ff_name := fi_name f, ff_strings := strings_of (fi_ea_start f) b\<rparr>) m)
               [] (functions_vec b)
      in Inr (\<lparr>ai_schema_version = INDEX_SCHEMA_VERSION, ai_binary_md5 = ''mock-md5'',
               ai_revision = mb_revision b, ai_functions = foldl add_edge fs mock_edges,
               ai_strings = []\<rparr>, ''mock-md5''))"

definition mock_input_md5 :: "string result" where
  "mock_input_md5 = Inr ''mock-md5''"

definition known_callees :: "u64 \<Rightarrow> u64 list" where
  "known_callees ea = (if ea = 0x401000 then [0x401100, 0x401200, 0x401300, 0x401400]
     else if ea = 0x401400 then [0] else [])"

definition deep_call :: "u64 \<Rightarrow> mock \<Rightarrow> u64 \<Rightarrow> json" where
  "deep_call ea b c =
     (if c = 0 then JObj [(''call_ea'', JStr (hex_alt ea @ ''+10'')), (''direct'', JBool False),
                         (''target_name'', JStr ''(*(void (**)(void))(ptr))()''), (''args'', JArr [])]
      else JObj [(''call_ea'', JStr (hex_alt ea)), (''direct'', JBool True), (''target_ea'', JStr (hex_alt c)),
                 (''target_name'', JStr (unwrap_or (bt_get (names b) c) [])), (''args'', JArr [])])"

definition mock_deep_function_info :: "u64 \<Rightarrow> usize \<Rightarrow> mock \<Rightarrow> json result" where
  "mock_deep_function_info ea max_calls b = rbind (require_open b) (\<lambda>_.
     rbind (ok_or (find (\<lambda>f. fi_ea_start f = ea) (functions_vec b)) (Worker (''no function at '' @ hex_alt ea))) (\<lambda>f.
       Inr (JObj [
         (''ea'', JStr (hex_alt ea)), (''name'', JStr (fi_name f)),
         (''prototype'', JObj [(''known'', JBool True), (''ret_type'', JStr ''int''),
                               (''arg_types'', JArr [JStr ''int'', JStr ''int''])]),
         (''calls'', JArr (map (deep_call ea b) (take max_calls (known_callees ea)))),
         (''calls_truncated'', JBool (length (known_callees ea) > max_calls))])))"

definition mock_deep_apply_prototype :: "u64 \<Rightarrow> string \<Rightarrow> mock mutation" where
  "mock_deep_apply_prototype ea decl b =
     (case require_open b of Inl e \<Rightarrow> (Inl e, b) | Inr _ \<Rightarrow>
      (if bt_get (names b) ea = None then (Inl (Worker (''no function at '' @ hex_alt ea)), b)
       else if trim decl = [] then (Inl (Worker ''empty prototype declaration''), b)
       else bumped (\<lambda>_. JObj [(''ea'', ju ea), (''decl'', JStr decl)]) b))"

section \<open>Type recovery\<close>

definition mock_obs :: "(u64 \<times> nat \<times> bool) list" where
  "mock_obs = [(0x0, 4, False), (0x8, 8, False), (0x8, 8, True), (0x10, 4, False)]"

definition mock_type_member_evidence :: "u64 \<Rightarrow> usize \<Rightarrow> mock \<Rightarrow> json result" where
  "mock_type_member_evidence ea limit b = rbind (require_open b) (\<lambda>_.
     if bt_get (names b) ea = None then Inl (Worker (''no function at '' @ hex_alt ea))
     else Inr (JObj [
       (''ea'', JStr (hex_alt ea)),
       (''members'', JArr (map (\<lambda>(off, width, wr). JObj [
            (''base_text'', JStr ''obj''), (''is_global'', JBool True), (''base_ea'', JStr (hex_alt ea)),
            (''offset'', JStr (hex_alt off)), (''access_size'', jn width), (''is_write'', JBool wr),
            (''at_ea'', JStr (hex_alt ea))]) (take limit mock_obs))),
       (''truncated'', JBool (length mock_obs > limit))]))"

definition mock_vtable_targets :: "u64 list" where
  "mock_vtable_targets = [0x401100, 0x401200, 0x401300]"

definition mock_type_vtable_scan :: "u64 \<Rightarrow> usize \<Rightarrow> mock \<Rightarrow> json result" where
  "mock_type_vtable_scan ea max_entries b = rbind (require_open b) (\<lambda>_. Inr (JObj [
     (''ea'', JStr (hex_alt ea)),
     (''slots'', JArr (map (\<lambda>(i, t). JObj [(''slot'', jn i), (''target_ea'', JStr (hex_alt t)),
          (''is_code'', JBool True), (''name'', JStr (unwrap_or (bt_get (names b) t) []))])
          (enumerate0 (take max_entries mock_vtable_targets)))),
     (''truncated'', JBool (length mock_vtable_targets > max_entries))]))"

definition mock_type_udt_create :: "string \<Rightarrow> string list \<Rightarrow> mock mutation" where
  "mock_type_udt_create name flds b =
     (case require_open b of Inl e \<Rightarrow> (Inl e, b) | Inr _ \<Rightarrow>
      (if trim name = [] \<or> flds = [] then (Inl (Worker ''udt create needs a name and fields''), b)
       else bumped (\<lambda>_. JObj [(''name'', JStr name), (''fields'', JArr (map JStr flds))]) b))"

definition mock_known_shape :: "(u64 \<times> u64) list" where
  "mock_known_shape = [(0x0, 4), (0x8, 8), (0x10, 4)]"

definition mock_type_udt_match :: "(u64 \<times> u64) list \<Rightarrow> mock \<Rightarrow> json result" where
  "mock_type_udt_match shape b = rbind (require_open b) (\<lambda>_.
     let hit = (length shape = length mock_known_shape \<and>
                list_all (\<lambda>((o1, s1), (o2, s2)). o1 = o2 \<and> s1 = s2) (zip shape mock_known_shape))
     in Inr (JObj [
          (''shape'', JArr (map (\<lambda>(off, s). JObj [(''offset'', JStr (hex_alt off)), (''size'', ju s)]) shape)),
          (''match'', if hit then JStr ''mock_shape_t'' else JNull)]))"

section \<open>Every mutation obeys the revision contract\<close>

datatype mock_op =
    PatchBytes u64 string
  | SetComment u64 string bool
  | Rename u64 string
  | SetType u64 string
  | FuncCreate u64 "u64 option"
  | FuncDelete u64
  | FuncResize u64 "u64 option" "u64 option"
  | LvarRename u64 u64 string
  | ApplyPrototype u64 string
  | UdtCreate string "string list"

fun mock_mut :: "mock_op \<Rightarrow> mock mutation" where
  "mock_mut (PatchBytes ea h) = mock_patch_bytes ea h"
| "mock_mut (SetComment ea c r) = mock_set_comment ea c r"
| "mock_mut (Rename ea n) = mock_rename ea n"
| "mock_mut (SetType ea d) = mock_set_type ea d"
| "mock_mut (FuncCreate s e) = mock_func_create s e"
| "mock_mut (FuncDelete ea) = mock_func_delete ea"
| "mock_mut (FuncResize ea s e) = mock_func_resize ea s e"
| "mock_mut (LvarRename ea v n) = mock_hr_lvar_rename ea v n"
| "mock_mut (ApplyPrototype ea d) = mock_deep_apply_prototype ea d"
| "mock_mut (UdtCreate n fs) = mock_type_udt_create n fs"

lemmas mock_mutation_defs =
  mock_patch_bytes_def mock_set_comment_def mock_rename_def mock_set_type_def mock_func_create_def
  mock_func_delete_def mock_func_resize_def mock_hr_lvar_rename_def
  mock_deep_apply_prototype_def mock_type_udt_create_def

lemma bumped_eq:
  "bumped det b = (Inr \<lparr>changed = True, revision_after = mb_revision b + 1, mo_detail = det (mb_revision b + 1)\<rparr>,
     b\<lparr>mb_revision := mb_revision b + 1\<rparr>)"
  by (simp add: bumped_def bump_def)

definition mock_frame :: "mock \<Rightarrow> mock \<Rightarrow> bool" where
  "mock_frame b b' \<longleftrightarrow> open_path b' = open_path b \<and> decompile_off b' = decompile_off b \<and>
     extra_xrefs b' = extra_xrefs b \<and> snapshots b' = snapshots b"

definition mock_inv :: "mock \<Rightarrow> bool" where
  "mock_inv b \<longleftrightarrow> bt_inv (names b) \<and> bt_inv (comments b) \<and> bt_inv (mb_bytes b) \<and>
     list_all (\<lambda>s. bt_inv (ss_names s) \<and> bt_inv (ss_comments s) \<and> bt_inv (ss_bytes s)) (snapshots b)"

text \<open>What a successful, respectively a failing, mutation does to the state.\<close>

definition mut_effect :: "mock \<Rightarrow> mutation_outcome result \<times> mock \<Rightarrow> bool" where
  "mut_effect b res = (case res of
       (Inl _, b') \<Rightarrow> b' = b
     | (Inr out, b') \<Rightarrow> mb_revision b' = mb_revision b + 1 \<and> revision_after out = mb_revision b + 1 \<and>
         open_path b \<noteq> None \<and> mock_frame b b' \<and> (mock_inv b \<longrightarrow> mock_inv b'))"

lemma mut_effect_Inl [simp]: "mut_effect b (Inl e, b)"
  by (simp add: mut_effect_def)

lemma mut_effect_bumped:
  assumes "open_path b \<noteq> None" "mock_frame b c" "mb_revision c = mb_revision b" "mock_inv b \<longrightarrow> mock_inv c"
  shows "mut_effect b (bumped det c)"
  using assms by (simp add: mut_effect_def bumped_eq mock_frame_def mock_inv_def)

lemma mut_effect_guarded:
  "(open_path b \<noteq> None \<Longrightarrow> mut_effect b k) \<Longrightarrow>
     mut_effect b (case require_open b of Inl e \<Rightarrow> (Inl e, b) | Inr _ \<Rightarrow> k)"
  by (simp add: require_open_def)

lemma require_open_Inr: "require_open b = Inr u \<longleftrightarrow> open_path b \<noteq> None"
  by (simp add: require_open_def)

lemma function_at_open: "mock_function_at ea b = Inr f \<Longrightarrow> open_path b \<noteq> None"
  by (auto simp: mock_function_at_def require_open_def split: if_splits)

lemma mock_mut_effect: "mut_effect b (mock_mut op b)"
proof (cases op)
  case (PatchBytes ea h)
  show ?thesis
    by (auto simp: PatchBytes mock_patch_bytes_def mock_frame_def require_open_Inr mock_inv_def bt_inv_intros
          intro!: mut_effect_guarded mut_effect_bumped split: sum.splits hex_error.splits)
next
  case (LvarRename ea v n)
  show ?thesis
    by (auto simp: LvarRename mock_hr_lvar_rename_def mock_frame_def dest: function_at_open
          intro!: mut_effect_bumped split: sum.splits)
qed (auto simp: mock_mutation_defs mock_frame_def require_open_Inr mock_inv_def bt_inv_intros
        intro!: mut_effect_guarded mut_effect_bumped split: option.splits)

interpretation mock: revisioned_backend mock_revision mock_mut
proof
  fix op
  show "obeys_contract mock_revision (mock_mut op)"
  proof (rule obeys_contractI)
    fix s e s' assume "mock_mut op s = (Inl e, s')"
    with mock_mut_effect [of s op] show "s' = s" by (simp add: mut_effect_def)
  next
    fix s out s' assume "mock_mut op s = (Inr out, s')"
    with mock_mut_effect [of s op]
    show "mock_revision s' = mock_revision s + 1 \<and> revision_after out = mock_revision s'"
      by (simp add: mut_effect_def mock_revision_def)
  qed
qed

lemma run_mock_effect:
  "run_mutations (map mock_mut ops) b = (n, e, b') \<Longrightarrow>
     mock_frame b b' \<and> (mock_inv b \<longrightarrow> mock_inv b')"
proof (induction ops arbitrary: b n)
  case Nil
  then show ?case by (simp add: mock_frame_def)
next
  case (Cons op ops)
  obtain r b1 where m: "mock_mut op b = (r, b1)" by (cases "mock_mut op b")
  show ?case
  proof (cases r)
    case (Inl d)
    with m Cons.prems mock.mut_err [of op b d b1] show ?thesis by (simp add: mock_frame_def)
  next
    case (Inr out)
    obtain k where r: "run_mutations (map mock_mut ops) b1 = (k, e, b')"
      using Cons.prems m Inr by (auto split: prod.splits)
    have "mock_frame b b1 \<and> (mock_inv b \<longrightarrow> mock_inv b1)"
      using mock_mut_effect [of b op] m Inr by (simp add: mut_effect_def)
    with Cons.IH [OF r] show ?thesis by (auto simp: mock_frame_def)
  qed
qed

text \<open>
  Running any sequence of mutations on the in-memory backend until the first error: the
  revision has grown by exactly the number of mutations that succeeded (modulo \<open>2 ^ 64\<close>), the run stops
  early exactly when one fails, and neither the open path nor the snapshot stack is touched.
\<close>

lemma mutations_advance_revision:
  assumes "run_mutations (map mock_mut ops) b = (n, e, b')"
  shows "mock_revision b' = mock_revision b + of_nat n \<and>
     (case e of None \<Rightarrow> n = length ops | Some _ \<Rightarrow> n < length ops) \<and>
     open_path b' = open_path b \<and> snapshots b' = snapshots b"
  using mock.run_revision [OF assms] mock.run_all_ok [of ops b n b'] mock.run_stops [of ops b n _ b']
    run_mock_effect [OF assms] assms
  by (auto simp: mock_frame_def split: option.splits)

abbreviation mock_opened :: mock where
  "mock_opened \<equiv> mock_new\<lparr>open_path := Some ''a.exe''\<rparr>"

lemmas mock_eval = mock_new_def mock_mutation_defs bumped_eq require_open_def bt_get_def
  mock_function_at_def

lemma snapshot_undo:
  assumes "open_path b \<noteq> None"
    and "mock_snapshot_create b = (r1, b1)"
    and "run_mutations (map mock_mut ops) b1 = (n, e, b2)"
    and "mock_snapshot_restore b2 = (r3, b3)"
  shows "b3 = b\<lparr>mb_revision := mb_revision b + 1\<rparr>"
proof -
  have b1: "b1 = b\<lparr>snapshots := snapshots b @ [\<lparr>ss_revision = mb_revision b, ss_names = names b,
              ss_comments = comments b, ss_bytes = mb_bytes b\<rparr>]\<rparr>"
    using assms(1,2) by (auto simp: mock_snapshot_create_def require_open_def Let_def)
  have f: "mock_frame b1 b2" using run_mock_effect [OF assms(3)] ..
  with b1 assms(1) have "open_path b2 \<noteq> None" and "snapshots b2 = snapshots b1"
    by (auto simp: mock_frame_def)
  with b1 f assms(4) show ?thesis
    by (auto simp: mock_snapshot_restore_def require_open_def bump_def mock_frame_def Let_def)
qed

text \<open>
  C6: taking a snapshot of an open database, applying any mutations (whether or not they all succeed)
  and restoring succeeds at both ends and brings the database back exactly: names, comments, bytes and
  the stack of snapshots, and everything else but the revision counter. What the counter becomes is
  no part of this statement.
\<close>

theorem snapshot_restore_undoes_mutations:
  assumes "open_path b \<noteq> None"
    and "mock_snapshot_create b = (r1, b1)"
    and "run_mutations (map mock_mut ops) b1 = (n, e, b2)"
    and "mock_snapshot_restore b2 = (r3, b3)"
  shows "is_ok r1 \<and> is_ok r3 \<and> b3\<lparr>mb_revision := mb_revision b\<rparr> = b"
proof -
  have b1: "is_ok r1 \<and> snapshots b1 \<noteq> [] \<and> open_path b1 = open_path b"
    using assms(1,2) by (auto simp: mock_snapshot_create_def require_open_def Let_def)
  have "mock_frame b1 b2" using run_mock_effect [OF assms(3)] ..
  with b1 assms(1) have "open_path b2 \<noteq> None" and "snapshots b2 \<noteq> []"
    by (auto simp: mock_frame_def)
  with assms(4) have "is_ok r3"
    by (auto simp: mock_snapshot_restore_def require_open_def bump_def Let_def split: if_splits)
  with b1 snapshot_undo [OF assms] show ?thesis by simp
qed

theorem snapshot_restore_undoes_mutations_witness:
  "\<exists>r1 b1 b2 r3 b3. mock_snapshot_create mock_opened = (r1, b1) \<and>
     run_mutations (map mock_mut [Rename 0x401000 ''x'', SetComment 0x401000 ''c'' False]) b1 = (2, None, b2) \<and>
     names b2 \<noteq> names mock_opened \<and> comments b2 \<noteq> comments mock_opened \<and>
     mock_snapshot_restore b2 = (r3, b3) \<and> is_ok r3 \<and> names b3 = names mock_opened \<and> comments b3 = comments mock_opened"
proof -
  obtain r1 b1 where c: "mock_snapshot_create mock_opened = (r1, b1)"
    by (cases "mock_snapshot_create mock_opened")
  obtain b2 where m: "run_mutations (map mock_mut [Rename 0x401000 ''x'', SetComment 0x401000 ''c'' False]) b1 = (2, None, b2)"
    and ne: "names b2 \<noteq> names mock_opened" "comments b2 \<noteq> comments mock_opened"
    using c by (auto simp: mock_eval mock_snapshot_create_def Let_def)
  obtain r3 b3 where r: "mock_snapshot_restore b2 = (r3, b3)"
    by (cases "mock_snapshot_restore b2")
  have t: "is_ok r3" "b3\<lparr>mb_revision := mb_revision mock_opened\<rparr> = mock_opened"
    using snapshot_restore_undoes_mutations [OF _ c m r] by simp_all
  have "names b3 = names mock_opened" "comments b3 = comments mock_opened"
    using arg_cong [OF t(2), of names] arg_cong [OF t(2), of comments] by simp_all
  with c m ne r t(1) show ?thesis by blast
qed

text \<open>
  The revision is not monotonic: after a snapshot, two successful renames take the revision to 2
  and the restore takes it back to 1, a value already used for a different state of the database.
\<close>

theorem restore_reuses_a_revision:
  "\<exists>b0 r1 o1 o2 r b1 b2 b3. mock_snapshot_create mock_opened = (r, b0) \<and>
     mock_rename 0x401000 ''x'' b0 = (Inr o1, b1) \<and> mock_rename 0x401000 ''y'' b1 = (Inr o2, b2) \<and>
     mock_snapshot_restore b2 = (r1, b3) \<and>
     mock_revision b3 < mock_revision b2 \<and> mock_revision b3 = mock_revision b1 \<and> names b3 \<noteq> names b1"
  by (simp add: mock_eval mock_snapshot_create_def mock_snapshot_restore_def bump_def mock_revision_def Let_def)

section \<open>Reading back what was written\<close>

lemma hex2_two_digits: "hex2 b = [digit_char (unat b div 16), digit_char (unat b mod 16)]"
proof (cases "unat b < 16")
  case True
  then show ?thesis by (simp add: hex2_def show_radix_def pad_left_def digit_char_table)
next
  case False
  have "unat b < 256" using unat_u8_less [of b] by simp
  then have "unat b div 16 < 16" by simp
  with False show ?thesis by (simp add: hex2_def show_radix_def pad_left_def digits_step)
qed

lemma unat_u8_div: "unat (b :: u8) div 16 < 16"
  using unat_u8_less [of b] by simp

lemma length_hex2 [simp]: "length (hex2 b) = 2"
  by (simp add: hex2_two_digits)

lemma hex2_byte_range: "c \<in> set (hex2 b) \<Longrightarrow> 48 \<le> byte_of c \<and> byte_of c \<le> 102"
  using unat_u8_div [of b] by (auto simp: hex2_two_digits byte_of_digit_char)

lemma from_str_radix_hex2: "from_str_radix 8 16 (hex2 b) = Inr (unat b)"
proof -
  have "unat b < 256" using unat_u8_less [of b] by simp
  then show ?thesis
    using unat_u8_div [of b]
    by (simp add: hex2_two_digits from_str_radix_def digit_char_ne_plus parse_digits_def
        char_digit_digit_char from_digits_def)
qed

lemma length_hex_encode [simp]: "length (hex_encode bs) = 2 * length bs"
  by (induction bs) (simp_all add: hex_encode_def)

lemma hex_encode_byte_range: "c \<in> set (hex_encode bs) \<Longrightarrow> 48 \<le> byte_of c \<and> byte_of c \<le> 102"
  using hex2_byte_range by (auto simp: hex_encode_def)

lemma hex_encode_take2:
  "k < length bs \<Longrightarrow> take 2 (drop (2 * k) (hex_encode bs)) = hex2 (bs ! k)"
proof (induction bs arbitrary: k)
  case (Cons b bs)
  then show ?case by (cases k) (simp_all add: hex_encode_def)
qed simp

lemma hex_pair_encode: "k < length bs \<Longrightarrow> hex_pair (hex_encode bs) (2 * k) = Inr (bs ! k)"
proof -
  assume k: "k < length bs"
  have "is_ascii (hex_encode bs)"
    using hex_encode_byte_range [of _ bs] by (fastforce simp: is_ascii_def list_all_iff)
  with k have "is_char_boundary (hex_encode bs) (2 * k)" "is_char_boundary (hex_encode bs) (2 * k + 2)"
    by (auto intro!: is_char_boundary_ascii)
  with k show ?thesis by (simp add: hex_pair_def hex_encode_take2 from_str_radix_hex2)
qed

lemma hex_decode_encode: "hex_decode (hex_encode bs) = Inr bs"
proof -
  have "map (\<lambda>k. hex_pair (hex_encode bs) (2 * k)) [0..<length bs] = map Inr bs"
    by (rule nth_equalityI) (simp_all add: hex_pair_encode)
  then show ?thesis by (simp add: hex_decode_def rcollect_Inr_iff)
qed

lemma hex_encode_trimmed: "filter (\<lambda>c. c \<noteq> CHR '' '') (trim (hex_encode bs)) = hex_encode bs"
proof -
  have "\<not> is_ws c" if "c \<in> set (hex_encode bs)" for c
    using hex_encode_byte_range [OF that] by (auto simp: is_ws_def)
  then have t: "trim (hex_encode bs) = hex_encode bs" by (intro trim_no_ws) blast
  have "c \<noteq> CHR '' ''" if "c \<in> set (hex_encode bs)" for c
    using hex_encode_byte_range [OF that] by auto
  then show ?thesis by (simp add: t)
qed

text \<open>
  Patching an open database at an address with the hex text of some bytes and reading any number
  of bytes there returns the hex text of that prefix of them; bytes stored at other addresses
  read as before.
\<close>

lemma patch_then_get_bytes:
  assumes "open_path b \<noteq> None"
  shows "\<exists>out b'. mock_patch_bytes ea (hex_encode bs) b = (Inr out, b') \<and>
     mock_get_bytes ea n b' = Inr (JObj [(''ea'', ju ea), (''size'', jn (min n (length bs))),
                                      (''hex'', JStr (hex_encode (take n bs)))]) \<and>
     (\<forall>a. a = ea \<or> mock_get_bytes a n b' = mock_get_bytes a n b)"
  using assms
  by (auto simp: mock_patch_bytes_def require_open_def hex_encode_trimmed hex_decode_encode bumped_eq
      mock_get_bytes_def min.commute)

text \<open>
  The file map is a bijection where it is defined: an address at or above the image base maps
  to a file offset that maps back to it, and an address below it is an error.
\<close>

theorem file_map_roundtrip:
  assumes "open_path b \<noteq> None"
  shows "if ea < 0x400000
     then \<exists>m. mock_file_map ea False b = Inl (Worker m)
     else \<exists>off. mock_file_map ea False b = Inr (JObj [(''ea'', ju ea), (''file_offset'', ju off)]) \<and>
          mock_file_map off True b = Inr (JObj [(''file_offset'', ju off), (''ea'', ju ea)])"
proof (cases "ea < 0x400000")
  case True
  with assms show ?thesis by (simp add: mock_file_map_def require_open_def checked_sub_def)
next
  case False
  let ?off = "ea - 0x400000 + 0x400"
  have "uint ea - 0x400000 + 0x400 < 2 ^ 64" "0x400000 \<le> uint ea"
    using False uint_lt2p [of ea] by (simp_all add: word_less_def not_less)
  then have "\<not> ?off < 0x400"
    by (simp add: word_less_def uint_word_ariths take_bit_int_eq_self uint_sub_lem [THEN iffD1])
  with False assms show ?thesis
    by (auto simp: mock_file_map_def require_open_def checked_sub_def)
qed

theorem file_map_roundtrip_witness:
  "\<exists>off. mock_file_map 0x401000 False mock_opened = Inr (JObj [(''ea'', ju 0x401000), (''file_offset'', ju off)]) \<and>
     mock_file_map off True mock_opened = Inr (JObj [(''file_offset'', ju off), (''ea'', ju 0x401000)])"
  using file_map_roundtrip [of mock_opened "0x401000"] by simp

section \<open>Reachable states and the index built from them\<close>

inductive mock_reach :: "mock \<Rightarrow> bool" where
  reach_new: "mock_reach mock_new"
| reach_open: "mock_reach b \<Longrightarrow> mock_open path b = (r, b') \<Longrightarrow> mock_reach b'"
| reach_close: "mock_reach b \<Longrightarrow> mock_close b = (u, b') \<Longrightarrow> mock_reach b'"
| reach_xref: "mock_reach b \<Longrightarrow> mock_reach (add_xref_for_test from to kind b)"
| reach_nodec: "mock_reach b \<Longrightarrow> mock_reach (without_decompile b)"
| reach_mut: "mock_reach b \<Longrightarrow> mock_mut op b = (res, b') \<Longrightarrow> mock_reach b'"
| reach_create: "mock_reach b \<Longrightarrow> mock_snapshot_create b = (r, b') \<Longrightarrow> mock_reach b'"
| reach_restore: "mock_reach b \<Longrightarrow> mock_snapshot_restore b = (r, b') \<Longrightarrow> mock_reach b'"

lemma mock_inv_create: "mock_inv b \<Longrightarrow> mock_snapshot_create b = (r, b') \<Longrightarrow> mock_inv b'"
  by (auto simp: mock_snapshot_create_def mock_inv_def Let_def split: sum.splits)

lemma mock_inv_restore:
  assumes "mock_inv b" "mock_snapshot_restore b = (r, b')"
  shows "mock_inv b'"
proof (cases "snapshots b = []")
  case True
  with assms show ?thesis by (auto simp: mock_snapshot_restore_def split: sum.splits)
next
  case False
  then obtain ss s where "snapshots b = ss @ [s]" by (metis rev_exhaust)
  with assms show ?thesis
    by (auto simp: mock_snapshot_restore_def mock_inv_def Let_def bump_def split: sum.splits)
qed

lemma mock_inv_mut: "mock_inv b \<Longrightarrow> mock_mut op b = (res, b') \<Longrightarrow> mock_inv b'"
  using mock_mut_effect [of b op] by (simp add: mut_effect_def split: sum.splits)

lemma mock_inv_open:
  "mock_inv b \<Longrightarrow> mock_open path b = (r, b') \<Longrightarrow> mock_inv b'"
  "mock_inv b \<Longrightarrow> mock_close b = (u, b') \<Longrightarrow> mock_inv b'"
  by (auto simp: mock_inv_def mock_open_def mock_close_def split: if_splits)

lemma mock_inv_config:
  "mock_inv b \<Longrightarrow> mock_inv (add_xref_for_test from to kind b)"
  "mock_inv b \<Longrightarrow> mock_inv (without_decompile b)"
  by (simp_all add: mock_inv_def add_xref_for_test_def without_decompile_def)

lemma mock_reach_inv: "mock_reach b \<Longrightarrow> mock_inv b"
proof (induction rule: mock_reach.induct)
  case reach_new
  show ?case by (simp add: mock_inv_def mock_new_def bt_inv_def)
qed (auto intro: mock_inv_create mock_inv_restore mock_inv_mut mock_inv_open mock_inv_config)

lemma bt_get_adjust: "bt_get (bt_adjust k f m) j = map_option (if j = k then f else id) (bt_get m j)"
  by (induction m) (auto simp: bt_adjust_def bt_get_def)

lemma map_fst_adjust [simp]: "map fst (bt_adjust k f m) = map fst m"
  by (simp add: bt_adjust_def comp_def case_prod_unfold)

lemma map_fst_add_edges [simp]: "map fst (foldl add_edge m es) = map fst m"
  by (induction es arbitrary: m) (simp_all add: add_edge_def)

lemma bt_get_add_edges:
  "bt_get (foldl add_edge m es) j = map_option (\<lambda>f.
     f\<lparr>ff_callees := ff_callees f @ map snd (filter (\<lambda>e. fst e = j) es),
       ff_callers := ff_callers f @ map fst (filter (\<lambda>e. snd e = j) es)\<rparr>) (bt_get m j)"
proof (induction es arbitrary: m)
  case (Cons e es)
  then show ?case by (cases "bt_get m j") (auto simp: add_edge_def bt_get_adjust)
qed (simp add: option.map_ident)

lemma bt_insert_last:
  "(\<forall>j \<in> set (map fst m). j < k) \<Longrightarrow> bt_insert k v m = m @ [(k, v)]"
  by (induction m rule: bt_insert.induct) auto

lemma foldl_bt_insert_sorted:
  "sorted_wrt (<) (map fst m @ map key xs) \<Longrightarrow>
     foldl (\<lambda>m x. bt_insert (key x) (val x) m) m xs = m @ map (\<lambda>x. (key x, val x)) xs"
proof (induction xs arbitrary: m)
  case (Cons x xs)
  then have "bt_insert (key x) (val x) m = m @ [(key x, val x)]"
    by (intro bt_insert_last) (auto simp: sorted_wrt_append)
  with Cons show ?case by simp
qed simp

definition fresh_facts :: "u64 \<Rightarrow> string \<Rightarrow> mock \<Rightarrow> function_facts" where
  "fresh_facts ea name b = default_facts\<lparr>ff_ea_start := ea, ff_ea_end := ea + 0x40,
     ff_name := name, ff_strings := strings_of ea b\<rparr>"

lemma build_index_functions:
  "mock_inv b \<Longrightarrow> mock_build_index b = Inr (idx, md5) \<Longrightarrow>
     ai_functions idx = foldl add_edge (map (\<lambda>(ea, name). (ea, fresh_facts ea name b)) (names b)) mock_edges
     \<and> ai_revision idx = mb_revision b"
  using foldl_bt_insert_sorted [where m = "[]" and xs = "functions_vec b" and key = fi_ea_start
      and val = "\<lambda>f. default_facts\<lparr>ff_ea_start := fi_ea_start f, ff_ea_end := fi_ea_end f,
                    ff_name := fi_name f, ff_strings := strings_of (fi_ea_start f) b\<rparr>"]
  by (auto simp: mock_build_index_def functions_vec_def mock_inv_def bt_inv_def comp_def case_prod_unfold
      fresh_facts_def Let_def)

lemma bt_get_map_val: "bt_get (map (\<lambda>(k, v). (k, g k v)) m) j = map_option (g j) (bt_get m j)"
  by (induction m) (auto simp: bt_get_def)

text \<open>
  The index built from any reachable state is well formed and current: it carries the state's
  revision, has exactly one entry per named function, sorted by address and under the function's
  name, and its call edges are dual: one function lists another as a callee exactly when the other
  lists it as a caller.
\<close>

lemma build_index_current_and_dual:
  assumes "mock_reach b" and "mock_build_index b = Inr (idx, md5)"
  shows "ai_revision idx = mock_revision b \<and> bt_inv (ai_functions idx) \<and>
     (\<forall>ea. map_option ff_name (bt_get (ai_functions idx) ea) = bt_get (names b) ea) \<and>
     (\<forall>x y f g. bt_get (ai_functions idx) x = Some f \<longrightarrow> bt_get (ai_functions idx) y = Some g \<longrightarrow>
        (y \<in> set (ff_callees f) \<longleftrightarrow> x \<in> set (ff_callers g)))"
proof -
  have inv: "mock_inv b" using assms(1) by (rule mock_reach_inv)
  note fs = build_index_functions [OF inv assms(2)]
  have get: "bt_get (ai_functions idx) ea = map_option (\<lambda>name. (fresh_facts ea name b)
       \<lparr>ff_callees := map snd (filter (\<lambda>e. fst e = ea) mock_edges),
        ff_callers := map fst (filter (\<lambda>e. snd e = ea) mock_edges)\<rparr>) (bt_get (names b) ea)" for ea
    using fs by (cases "bt_get (names b) ea")
      (simp_all add: bt_get_add_edges bt_get_map_val fresh_facts_def default_facts_def)
  have "bt_inv (ai_functions idx)"
    using fs inv by (simp add: bt_inv_def mock_inv_def comp_def case_prod_unfold)
  moreover have "map_option ff_name (bt_get (ai_functions idx) ea) = bt_get (names b) ea" for ea
    by (simp add: get option.map_comp comp_def fresh_facts_def option.map_ident)
  moreover have "y \<in> set (ff_callees f) \<longleftrightarrow> x \<in> set (ff_callers g)"
    if "bt_get (ai_functions idx) x = Some f" "bt_get (ai_functions idx) y = Some g" for x y f g
    using that by (auto simp: get image_iff)
  ultimately show ?thesis using fs by (simp add: mock_revision_def)
qed

end
