(* ===== verification/Rules.thy ===== *)
theory Rules
  imports Mock_Backend "HOL-Library.Multiset"
begin

text \<open>
  \<open>crates/rmcp-worker/src/rules.rs\<close>: rule packs. \<open>parse_rules_value\<close> turns the JSON of one pack into
  compiled rules, refusing the whole pack at the first bad rule; \<open>load_dir\<close> reads every \<open>.json\<close> file of a
  directory in the order of its name; \<open>set_hash\<close> fingerprints a rule set for the scan cache. The directory is
  what \<open>read_dir\<close> and \<open>read\<close> report: absent, or file names with their bytes or the text of a read error. The
  JSON parser is a parameter.
\<close>

definition PACK_FORMAT :: u64 where
  "PACK_FORMAT = 1"

definition MAX_RULES_PER_PACK :: nat where
  "MAX_RULES_PER_PACK = 10000"

definition MAX_PATTERN_BYTES :: nat where
  "MAX_PATTERN_BYTES = 4096"

definition MAX_LITERAL_LEN :: nat where
  "MAX_LITERAL_LEN = 1024"

definition MAX_CANDIDATES_PER_RULE :: nat where
  "MAX_CANDIDATES_PER_RULE = 256"

record constant_rule =
  cr_id :: string
  cr_bytes :: "u8 list"
  cr_label :: string
  cr_table_size :: nat
  cr_rarity :: f64

record api_hash_rule =
  ar_id :: string
  ar_algo :: string
  ar_seed :: u32
  ar_rotate :: u32
  ar_candidates :: "string list"

record string_rule =
  sr_id :: string
  sr_literal :: string
  sr_encoding :: string

record rule_pack =
  rp_name :: string
  rp_version :: string
  rp_source :: string
  rp_sha256 :: string
  rp_enabled :: bool
  rp_constants :: "constant_rule list"
  rp_api_hashes :: "api_hash_rule list"
  rp_strings :: "string_rule list"

type_synonym rule_set = "rule_pack list"

section \<open>Fingerprints\<close>

definition fnv_basis :: u64 where
  "fnv_basis = 0xcbf29ce484222325"

definition show_bool :: "bool \<Rightarrow> string" where
  "show_bool b = (if b then ''true'' else ''false'')"

definition pack_print :: "rule_pack \<Rightarrow> string" where
  "pack_print p = rp_sha256 p @ ''|'' @ show_nat (length (rp_constants p)) @ ''|'' @ show_nat (length (rp_api_hashes p))
     @ ''|'' @ show_nat (length (rp_strings p)) @ ''|'' @ show_bool (rp_enabled p)"

definition set_hash :: "rule_set \<Rightarrow> string" where
  "set_hash packs = hex16 (foldl fnv1a fnv_basis (sort (map pack_print packs)))"

definition fnv1a64 :: "string \<Rightarrow> u64" where
  "fnv1a64 raw = fnv1a fnv_basis raw"

section \<open>Parsing one pack\<close>

definition is_alnum :: "char \<Rightarrow> bool" where
  "is_alnum c = (let n = byte_of c in 48 \<le> n \<and> n \<le> 57 \<or> 65 \<le> n \<and> n \<le> 90 \<or> 97 \<le> n \<and> n \<le> 122)"

definition valid_rule_id :: "string \<Rightarrow> bool" where
  "valid_rule_id i \<longleftrightarrow> i \<noteq> [] \<and> length i \<le> 128 \<and> list_all (\<lambda>c. is_alnum c \<or> c \<in> set ''_.:-'') i"

text \<open>\<open>filter(|c| !c.is_whitespace())\<close> on the UTF-8 bytes: the ASCII blanks and the multi-byte ones.\<close>

fun strip_blanks :: "string \<Rightarrow> string" where
  "strip_blanks [] = []"
| "strip_blanks (a # s) =
     (if is_ws a then strip_blanks s
      else case s of
        b # t \<Rightarrow>
          if byte_of a = 0xC2 \<and> byte_of b \<in> {0x85, 0xA0} then strip_blanks t
          else (case t of
            c # u \<Rightarrow>
              if (byte_of a, byte_of b, byte_of c) \<in> {(0xE1, 0x9A, 0x80), (0xE2, 0x81, 0x9F), (0xE3, 0x80, 0x80)}
                 \<or> byte_of a = 0xE2 \<and> byte_of b = 0x80 \<and> (byte_of c \<le> 0x8A \<or> byte_of c \<in> {0xA8, 0xA9, 0xAF})
              then strip_blanks u else a # strip_blanks s
          | [] \<Rightarrow> a # strip_blanks s)
      | [] \<Rightarrow> [a])"

text \<open>\<open>char::is_control\<close> on the UTF-8 bytes: C0, DEL and the two-byte C1 range; the tab is allowed.\<close>

fun has_control :: "string \<Rightarrow> bool" where
  "has_control [] = False"
| "has_control (a # s) =
     (byte_of a < 32 \<and> byte_of a \<noteq> 9 \<or> byte_of a = 127
      \<or> byte_of a = 0xC2 \<and> (case s of b # _ \<Rightarrow> 0x80 \<le> byte_of b \<and> byte_of b \<le> 0x9F | [] \<Rightarrow> False)
      \<or> has_control s)"

text \<open>Slicing inside a multi-byte character panics before the digits are looked at.\<close>

definition decode_hex_str :: "string \<Rightarrow> u8 list option result" where
  "decode_hex_str s = (case hex_decode (strip_blanks s) of
       Inr bs \<Rightarrow> Inr (Some bs)
     | Inl (HexError _) \<Rightarrow> Inr None
     | Inl SlicePanic \<Rightarrow> Inl (Panic ''byte index is not a char boundary''))"

definition pack_fail :: "string \<Rightarrow> nat \<Rightarrow> string \<Rightarrow> error" where
  "pack_fail pack_file line why = Worker (''rule pack '' @ quoted pack_file @ '' line '' @ show_nat line @ '': '' @ why)"

definition rule_fail :: "string \<Rightarrow> nat \<Rightarrow> string \<Rightarrow> string \<Rightarrow> error" where
  "rule_fail pack_file line i why = pack_fail pack_file line (''rule '' @ quoted i @ '': '' @ why)"

definition constant_rule_of :: "string \<Rightarrow> nat \<Rightarrow> string \<Rightarrow> json \<Rightarrow> constant_rule result" where
  "constant_rule_of pack_file line i rule =
     rbind (decode_hex_str (unwrap_or (as_str (jidx rule ''hex'')) [])) (\<lambda>decoded. case decoded of
       None \<Rightarrow> Inl (rule_fail pack_file line i (''bad '' @ quoted ''hex''))
     | Some bytes \<Rightarrow>
         if bytes = [] \<or> MAX_PATTERN_BYTES < length bytes
         then Inl (rule_fail pack_file line i (''pattern length out of bounds (1..'' @ show_nat MAX_PATTERN_BYTES @ '')''))
         else Inr \<lparr>cr_id = i, cr_bytes = bytes, cr_label = unwrap_or (as_str (jidx rule ''label'')) i,
                   cr_table_size = unat (unwrap_or (as_u64 (jidx rule ''table_size'')) 0),
                   cr_rarity = f_clamp (lit 1 10) f_one (unwrap_or (as_f64 (jidx rule ''rarity'')) (lit 9 10))\<rparr>)"

definition string_rule_of :: "string \<Rightarrow> nat \<Rightarrow> string \<Rightarrow> json \<Rightarrow> string_rule result" where
  "string_rule_of pack_file line i rule = (case as_str (jidx rule ''literal'') of
       None \<Rightarrow> Inl (rule_fail pack_file line i (''string rules require '' @ quoted ''literal''))
     | Some l \<Rightarrow>
         if l = [] \<or> MAX_LITERAL_LEN < length l
         then Inl (rule_fail pack_file line i (''literal length out of bounds (1..'' @ show_nat MAX_LITERAL_LEN @ '')''))
         else if has_control l then Inl (rule_fail pack_file line i ''control characters in literal'')
         else Inr \<lparr>sr_id = i, sr_literal = l, sr_encoding = unwrap_or (as_str (jidx rule ''encoding'')) ''ascii''\<rparr>)"

definition api_hash_rule_of :: "string list \<Rightarrow> string \<Rightarrow> nat \<Rightarrow> string \<Rightarrow> json \<Rightarrow> api_hash_rule result" where
  "api_hash_rule_of algos pack_file line i rule =
     (let algo = unwrap_or (as_str (jidx rule ''algo'')) [];
          names = List.map_filter as_str (unwrap_or (as_array (jidx rule ''candidates'')) [])
      in if algo \<notin> set algos
         then Inl (rule_fail pack_file line i (''unknown algo '' @ quoted algo @ '' (registered: '' @ join '', '' algos @ '')''))
         else if names = [] \<or> MAX_CANDIDATES_PER_RULE < length names
         then Inl (rule_fail pack_file line i (''candidates count out of bounds (1..'' @ show_nat MAX_CANDIDATES_PER_RULE @ '')''))
         else Inr \<lparr>ar_id = i, ar_algo = algo, ar_seed = ucast (unwrap_or (as_u64 (jidx rule ''seed'')) 0),
                   ar_rotate = of_nat (clamp 1 31 (unat (unwrap_or (as_u64 (jidx rule ''rotate'')) 13))),
                   ar_candidates = names\<rparr>)"

definition add_rule :: "string list \<Rightarrow> string \<Rightarrow> nat \<Rightarrow> string \<Rightarrow> json \<Rightarrow> rule_pack \<Rightarrow> rule_pack result" where
  "add_rule algos pack_file line i rule p =
     (let kind = unwrap_or (as_str (jidx rule ''kind'')) [] in
      if kind = ''constant'' then
        rmap (\<lambda>r. p\<lparr>rp_constants := rp_constants p @ [r]\<rparr>) (constant_rule_of pack_file line i rule)
      else if kind = ''string'' then
        rmap (\<lambda>r. p\<lparr>rp_strings := rp_strings p @ [r]\<rparr>) (string_rule_of pack_file line i rule)
      else if kind = ''api_hash'' then
        rmap (\<lambda>r. p\<lparr>rp_api_hashes := rp_api_hashes p @ [r]\<rparr>) (api_hash_rule_of algos pack_file line i rule)
      else Inl (rule_fail pack_file line i (''unknown kind '' @ quoted kind @ '' (constant|string|api_hash)'')))"

fun rules_loop :: "string list \<Rightarrow> string \<Rightarrow> nat \<Rightarrow> json list \<Rightarrow> string list \<Rightarrow> rule_pack \<Rightarrow> rule_pack result" where
  "rules_loop algos pack_file line [] seen p = Inr p"
| "rules_loop algos pack_file line (rule # rules) seen p =
     (let i = unwrap_or (as_str (jidx rule ''id'')) [] in
      if \<not> valid_rule_id i then Inl (pack_fail pack_file line (''bad rule id '' @ quoted i))
      else if i \<in> set seen then Inl (pack_fail pack_file line (''duplicate rule id '' @ quoted i))
      else rbind (add_rule algos pack_file line i rule p) (rules_loop algos pack_file (Suc line) rules (i # seen)))"

definition missing_in_pack :: "string \<Rightarrow> string \<Rightarrow> error" where
  "missing_in_pack pack_file what = Worker (''rule pack '' @ quoted pack_file @ '': missing '' @ what)"

definition parse_rules_value :: "string \<Rightarrow> json \<Rightarrow> string list \<Rightarrow> rule_pack result" where
  "parse_rules_value pack_file v algos =
     (if as_u64 (jidx v ''format'') \<noteq> Some PACK_FORMAT
      then Inl (pack_fail pack_file 0 (quoted ''format'' @ '' must be '' @ show_u64 PACK_FORMAT))
      else
        rbind (ok_or (Option.bind (as_str (jidx v ''name'')) (\<lambda>s. if trim s = [] then None else Some s))
                 (missing_in_pack pack_file (quoted ''name''))) (\<lambda>nm.
        rbind (ok_or (as_array (jidx v ''rules'')) (missing_in_pack pack_file (quoted ''rules'' @ '' array''))) (\<lambda>rules.
        if MAX_RULES_PER_PACK < length rules
        then Inl (pack_fail pack_file 0 (''too many rules (max '' @ show_nat MAX_RULES_PER_PACK @ '')''))
        else rules_loop algos pack_file 1 rules []
          \<lparr>rp_name = nm, rp_version = unwrap_or (as_str (jidx v ''version'')) ''0'',
           rp_source = unwrap_or (as_str (jidx v ''source'')) [], rp_sha256 = [],
           rp_enabled = unwrap_or (as_bool (jidx v ''enabled'')) True,
           rp_constants = [], rp_api_hashes = [], rp_strings = []\<rparr>)))"

section \<open>Loading a directory\<close>

type_synonym rules_dir = "(string \<times> (string + string)) list option"

text \<open>\<open>Path::extension\<close> of a file name: what follows the last dot, unless that dot starts the name.\<close>

definition file_extension :: "string \<Rightarrow> string option" where
  "file_extension f = (let ext = rev (takeWhile (\<lambda>c. c \<noteq> CHR ''.'') (rev f))
     in if Suc (length ext) < length f then Some ext else None)"

definition pack_of_file :: "(string \<Rightarrow> string + json) \<Rightarrow> string list \<Rightarrow> string \<times> (string + string) \<Rightarrow> rule_pack result" where
  "pack_of_file from_slice algos entry = (case entry of (fname, contents) \<Rightarrow>
     rbind (rmap_err (\<lambda>e. Worker (''rule pack '' @ quoted fname @ '': read failed: '' @ e)) contents) (\<lambda>raw.
     rbind (rmap_err (\<lambda>e. Worker (''rule pack '' @ quoted fname @ '': bad JSON: '' @ e)) (from_slice raw)) (\<lambda>v.
     rmap (\<lambda>p. p\<lparr>rp_sha256 := hex16 (fnv1a64 raw)\<rparr>) (parse_rules_value fname v algos))))"

definition load_dir :: "(string \<Rightarrow> string + json) \<Rightarrow> rules_dir \<Rightarrow> string list \<Rightarrow> rule_set result" where
  "load_dir from_slice dir algos = (case dir of
       None \<Rightarrow> Inr []
     | Some entries \<Rightarrow> rmap (sort_key rp_name) (rcollect (map (pack_of_file from_slice algos)
         (sort_key fst (filter (\<lambda>(f, _). file_extension f = Some ''json'') entries)))))"

definition provenance :: "rule_pack \<Rightarrow> string \<Rightarrow> string \<Rightarrow> json" where
  "provenance p rule_id label = JObj [(''pack'', JStr (rp_name p)), (''pack_sha256'', JStr (rp_sha256 p)),
     (''rule'', JStr rule_id), (''label'', JStr label)]"

section \<open>What a loaded pack satisfies\<close>

abbreviation pack_ids :: "rule_pack \<Rightarrow> string list" where
  "pack_ids p \<equiv> map cr_id (rp_constants p) @ map sr_id (rp_strings p) @ map ar_id (rp_api_hashes p)"

definition constant_ok :: "constant_rule \<Rightarrow> bool" where
  "constant_ok r \<longleftrightarrow> cr_bytes r \<noteq> [] \<and> length (cr_bytes r) \<le> MAX_PATTERN_BYTES \<and>
     lit 1 10 \<le> cr_rarity r \<and> cr_rarity r \<le> f_one"

definition string_ok :: "string_rule \<Rightarrow> bool" where
  "string_ok r \<longleftrightarrow> sr_literal r \<noteq> [] \<and> length (sr_literal r) \<le> MAX_LITERAL_LEN \<and> \<not> has_control (sr_literal r)"

definition api_hash_ok :: "string list \<Rightarrow> api_hash_rule \<Rightarrow> bool" where
  "api_hash_ok algos r \<longleftrightarrow> ar_algo r \<in> set algos \<and> ar_candidates r \<noteq> [] \<and>
     length (ar_candidates r) \<le> MAX_CANDIDATES_PER_RULE \<and> 1 \<le> unat (ar_rotate r) \<and> unat (ar_rotate r) \<le> 31"

definition pack_ok :: "string list \<Rightarrow> rule_pack \<Rightarrow> bool" where
  "pack_ok algos p \<longleftrightarrow> distinct (pack_ids p) \<and> list_all valid_rule_id (pack_ids p) \<and>
     list_all constant_ok (rp_constants p) \<and> list_all string_ok (rp_strings p) \<and> list_all (api_hash_ok algos) (rp_api_hashes p)"

named_theorems rule_defs

lemmas [rule_defs] = constant_ok_def string_ok_def api_hash_ok_def constant_rule_of_def string_rule_of_def api_hash_rule_of_def

lemma rarity_range: "lit 1 10 \<le> f_clamp (lit 1 10) f_one x \<and> f_clamp (lit 1 10) f_one x \<le> f_one"
  using lit_mono [of 1 10 1 1] lit_1 [of 1] by (intro f_clamp_between) simp

lemma constant_rule_of_ok: "constant_rule_of f n i rule = Inr r \<Longrightarrow> constant_ok r \<and> cr_id r = i"
  unfolding constant_rule_of_def constant_ok_def rbind_eq_Inr
  by (elim exE conjE) (simp add: rarity_range split: option.splits if_splits, clarsimp simp: rarity_range)

lemma string_rule_of_ok: "string_rule_of f n i rule = Inr r \<Longrightarrow> string_ok r \<and> sr_id r = i"
  by (auto simp: rule_defs split: option.splits if_splits)

lemma rotate_range: "1 \<le> unat (of_nat (clamp 1 31 n) :: u32) \<and> unat (of_nat (clamp 1 31 n) :: u32) \<le> 31"
  by (auto simp: clamp_def unat_of_nat take_bit_nat_eq_self)

lemma api_hash_rule_of_ok: "api_hash_rule_of algos f n i rule = Inr r \<Longrightarrow> api_hash_ok algos r \<and> ar_id r = i"
  using rotate_range by (auto simp: rule_defs Let_def split: if_splits)

lemma add_rule_ok:
  assumes "add_rule algos f n i rule p = Inr p'" "pack_ok algos p" "valid_rule_id i" "i \<notin> set (pack_ids p)"
  shows "pack_ok algos p' \<and> set (pack_ids p') = insert i (set (pack_ids p)) \<and> length (pack_ids p') = Suc (length (pack_ids p))"
proof -
  consider r where "p' = p\<lparr>rp_constants := rp_constants p @ [r]\<rparr>" "constant_ok r" "cr_id r = i"
    | r where "p' = p\<lparr>rp_strings := rp_strings p @ [r]\<rparr>" "string_ok r" "sr_id r = i"
    | r where "p' = p\<lparr>rp_api_hashes := rp_api_hashes p @ [r]\<rparr>" "api_hash_ok algos r" "ar_id r = i"
    using assms(1) unfolding add_rule_def Let_def
    by (auto simp: result_simps split: if_splits dest: constant_rule_of_ok string_rule_of_ok api_hash_rule_of_ok)
  then show ?thesis using assms(2-) by cases (auto simp: pack_ok_def)
qed

lemma rules_loop_step:
  assumes "rules_loop algos f n (r # rules) seen p = Inr p'"
  obtains i q where "valid_rule_id i" "i \<notin> set seen" "add_rule algos f n i r p = Inr q"
    "rules_loop algos f (Suc n) rules (i # seen) q = Inr p'"
  using assms by (simp only: rules_loop.simps Let_def result_simps split: if_splits) auto

lemma rules_loop_ok:
  "rules_loop algos f n rules seen p = Inr p' \<Longrightarrow> pack_ok algos p \<Longrightarrow> set seen = set (pack_ids p) \<Longrightarrow>
   pack_ok algos p' \<and> length (pack_ids p') = length (pack_ids p) + length rules"
proof (induction rules arbitrary: n seen p)
  case (Cons r rules)
  from Cons.prems(1) obtain i q where q: "valid_rule_id i" "i \<notin> set seen" "add_rule algos f n i r p = Inr q"
    "rules_loop algos f (Suc n) rules (i # seen) q = Inr p'" by (rule rules_loop_step)
  with Cons.prems have "i \<notin> set (pack_ids p)" by simp
  from add_rule_ok [OF q(3) Cons.prems(2) q(1) this] Cons.prems(3)
  have "pack_ok algos q" "set (i # seen) = set (pack_ids q)" "length (pack_ids q) = Suc (length (pack_ids p))" by simp_all
  with Cons.IH [OF q(4)] show ?case by simp
qed simp

section \<open>A loaded pack holds the rules of its file\<close>

abbreviation rule_text :: "json \<Rightarrow> string \<Rightarrow> string" where
  "rule_text rule k \<equiv> unwrap_or (as_str (jidx rule k)) []"

definition constant_from :: "json \<Rightarrow> constant_rule \<Rightarrow> bool" where
  "constant_from rule r \<longleftrightarrow> cr_id r = rule_text rule ''id'' \<and> decode_hex_str (rule_text rule ''hex'') = Inr (Some (cr_bytes r)) \<and>
     cr_label r = unwrap_or (as_str (jidx rule ''label'')) (cr_id r)"

definition string_from :: "json \<Rightarrow> string_rule \<Rightarrow> bool" where
  "string_from rule r \<longleftrightarrow> sr_id r = rule_text rule ''id'' \<and> as_str (jidx rule ''literal'') = Some (sr_literal r)"

definition api_hash_from :: "json \<Rightarrow> api_hash_rule \<Rightarrow> bool" where
  "api_hash_from rule r \<longleftrightarrow> ar_id r = rule_text rule ''id'' \<and> ar_algo r = rule_text rule ''algo'' \<and>
     ar_candidates r = List.map_filter as_str (unwrap_or (as_array (jidx rule ''candidates'')) [])"

definition of_kind :: "string \<Rightarrow> json list \<Rightarrow> json list" where
  "of_kind k rules = filter (\<lambda>rule. rule_text rule ''kind'' = k) rules"

text \<open>The pack holds exactly these rules: of each kind, in their order, with their contents.\<close>

definition pack_holds :: "json list \<Rightarrow> rule_pack \<Rightarrow> bool" where
  "pack_holds rules p \<longleftrightarrow> list_all (\<lambda>rule. rule_text rule ''kind'' \<in> {''constant'', ''string'', ''api_hash''}) rules \<and>
     list_all2 constant_from (of_kind ''constant'' rules) (rp_constants p) \<and>
     list_all2 string_from (of_kind ''string'' rules) (rp_strings p) \<and>
     list_all2 api_hash_from (of_kind ''api_hash'' rules) (rp_api_hashes p)"

lemmas from_defs = constant_from_def string_from_def api_hash_from_def

lemma constant_rule_of_from: "constant_rule_of f n (rule_text rule ''id'') rule = Inr c \<Longrightarrow> constant_from rule c"
  unfolding constant_rule_of_def constant_from_def rbind_eq_Inr
  by (elim exE conjE) (simp split: option.splits if_splits, clarsimp)

lemma string_rule_of_from: "string_rule_of f n (rule_text rule ''id'') rule = Inr r \<Longrightarrow> string_from rule r"
  unfolding string_rule_of_def string_from_def by (simp split: option.splits if_splits, clarsimp)

lemma api_hash_rule_of_from: "api_hash_rule_of algos f n (rule_text rule ''id'') rule = Inr h \<Longrightarrow> api_hash_from rule h"
  unfolding api_hash_rule_of_def api_hash_from_def Let_def by (simp split: if_splits, clarsimp)

lemmas rule_of_from = constant_rule_of_from string_rule_of_from api_hash_rule_of_from

lemma add_rule_holds:
  assumes "add_rule algos f n (rule_text rule ''id'') rule p = Inr q" and "pack_holds rules p"
  shows "pack_holds (rules @ [rule]) q \<and> rp_name q = rp_name p \<and> rp_enabled q = rp_enabled p"
proof -
  consider r where "rule_text rule ''kind'' = ''constant''" "q = p\<lparr>rp_constants := rp_constants p @ [r]\<rparr>" "constant_from rule r"
    | r where "rule_text rule ''kind'' = ''string''" "q = p\<lparr>rp_strings := rp_strings p @ [r]\<rparr>" "string_from rule r"
    | r where "rule_text rule ''kind'' = ''api_hash''" "q = p\<lparr>rp_api_hashes := rp_api_hashes p @ [r]\<rparr>" "api_hash_from rule r"
    using assms(1) unfolding add_rule_def Let_def
    by (auto simp: result_simps split: if_splits dest: rule_of_from)
  then show ?thesis using assms(2) by cases (simp_all add: pack_holds_def of_kind_def list_all2_appendI)
qed

lemma rules_loop_holds:
  "rules_loop algos f n rules seen p = Inr p' \<Longrightarrow> pack_holds done p \<Longrightarrow>
   pack_holds (done @ rules) p' \<and> rp_name p' = rp_name p \<and> rp_enabled p' = rp_enabled p"
proof (induction rules arbitrary: n seen p "done")
  case (Cons r rules)
  from Cons.prems(1) obtain q where q: "add_rule algos f n (rule_text r ''id'') r p = Inr q"
    "rules_loop algos f (Suc n) rules (rule_text r ''id'' # seen) q = Inr p'"
    by (simp only: rules_loop.simps Let_def result_simps split: if_splits) auto
  from add_rule_holds [OF q(1) Cons.prems(2)] Cons.IH [OF q(2), of "done @ [r]"] show ?case by simp
qed simp

definition pack_of :: "(string \<Rightarrow> string + json) \<Rightarrow> string list \<Rightarrow> string \<times> (string + string) \<Rightarrow> rule_pack \<Rightarrow> bool" where
  "pack_of from_slice algos entry p \<longleftrightarrow> (\<exists>raw v rules. snd entry = Inr raw \<and> from_slice raw = Inr v \<and>
     as_str (jidx v ''name'') = Some (rp_name p) \<and> rp_enabled p = unwrap_or (as_bool (jidx v ''enabled'')) True \<and>
     as_array (jidx v ''rules'') = Some rules \<and> length rules \<le> MAX_RULES_PER_PACK \<and> pack_holds rules p \<and> pack_ok algos p)"

lemma pack_of_file_ok:
  assumes "pack_of_file from_slice algos entry = Inr p"
  shows "pack_of from_slice algos entry p"
proof -
  obtain raw v q where q: "snd entry = Inr raw" "from_slice raw = Inr v" "parse_rules_value (fst entry) v algos = Inr q"
      "p = q\<lparr>rp_sha256 := hex16 (fnv1a64 raw)\<rparr>"
    using assms by (cases entry) (auto simp: pack_of_file_def result_simps)
  obtain nm rules p0 where l: "rules_loop algos (fst entry) 1 rules [] p0 = Inr q"
    and r: "as_array (jidx v ''rules'') = Some rules" "length rules \<le> MAX_RULES_PER_PACK"
    and n: "as_str (jidx v ''name'') = Some nm" "p0 = \<lparr>rp_name = nm, rp_version = unwrap_or (as_str (jidx v ''version'')) ''0'',
        rp_source = unwrap_or (as_str (jidx v ''source'')) [], rp_sha256 = [],
        rp_enabled = unwrap_or (as_bool (jidx v ''enabled'')) True, rp_constants = [], rp_api_hashes = [], rp_strings = []\<rparr>"
    using q(3) by (auto simp: parse_rules_value_def result_simps bind_eq_Some_conv split: if_splits)
  have "pack_holds [] p0" "pack_ok algos p0" by (simp_all add: n(2) pack_holds_def of_kind_def pack_ok_def)
  with rules_loop_holds [OF l, of "[]"] rules_loop_ok [OF l] n(2)
  have "pack_holds rules q" "pack_ok algos q" "rp_name q = nm" "rp_enabled q = unwrap_or (as_bool (jidx v ''enabled'')) True"
    by simp_all
  with q r n(1) show ?thesis
    unfolding pack_of_def by (intro exI [of _ raw] exI [of _ v] exI [of _ rules]) (simp add: pack_holds_def pack_ok_def)
qed

text \<open>The digest a pack records is that of the bytes of its own file.\<close>

lemma pack_digest: "pack_of_file from_slice algos (f, Inr raw) = Inr p \<Longrightarrow> rp_sha256 p = hex16 (fnv1a64 raw)"
  by (auto simp: pack_of_file_def result_simps)

text \<open>
  C27: A rule set that loads has one pack for each \<open>.json\<close> file and no other, in the order of the names of the packs
  (of equal names, in the order of the files). Each pack has the name, the enabled flag and exactly the rules of its own file:
  of every kind, in the order of the file, with their identifiers and contents, none left out. And each is checked: at most ten
  thousand rules, distinct and well-shaped ids, patterns, literals and candidate lists within their caps, rarities between
  a tenth and one, and registered algorithms only.
\<close>
theorem loaded_packs_are_checked:
  assumes "load_dir from_slice (Some entries) algos = Inr packs"
  shows "\<exists>ps. packs = sort_key rp_name ps \<and>
    list_all2 (pack_of from_slice algos) (sort_key fst (filter (\<lambda>(f, _). file_extension f = Some ''json'') entries)) ps"
proof -
  let ?es = "sort_key fst (filter (\<lambda>(f, _). file_extension f = Some ''json'') entries)"
  obtain ps where ps: "rcollect (map (pack_of_file from_slice algos) ?es) = Inr ps" "packs = sort_key rp_name ps"
    using assms by (auto simp: load_dir_def result_simps)
  have each: "map (pack_of_file from_slice algos) ?es = map Inr ps" using ps(1) by (simp add: rcollect_Inr_iff)
  have "pack_of_file from_slice algos (?es ! i) = Inr (ps ! i)" if "i < length ?es" for i
    using arg_cong [OF each, of "\<lambda>l. l ! i"] arg_cong [OF each, of length] that by simp
  then have "list_all2 (pack_of from_slice algos) ?es ps"
    using arg_cong [OF each, of length] by (intro list_all2_all_nthI) (simp_all add: pack_of_file_ok)
  with ps(2) show ?thesis by blast
qed

definition sample_pack :: "string \<Rightarrow> json" where
  "sample_pack n = JObj [(''format'', JNum 1), (''name'', JStr n),
     (''rules'', JArr [JObj [(''id'', JStr ''s1''), (''kind'', JStr ''string''), (''literal'', JStr n)]])]"

definition sample_dir :: "(string \<times> (string + string)) list" where
  "sample_dir = [(''b.json'', Inr ''key''), (''notes.txt'', Inr ''y''), (''a.json'', Inr ''salt'')]"

definition sample_loaded :: "string \<Rightarrow> rule_pack" where
  "sample_loaded n = \<lparr>rp_name = n, rp_version = ''0'', rp_source = [], rp_sha256 = hex16 (fnv1a64 n), rp_enabled = True,
     rp_constants = [], rp_api_hashes = [], rp_strings = [\<lparr>sr_id = ''s1'', sr_literal = n, sr_encoding = ''ascii''\<rparr>]\<rparr>"

lemma sample_dir_json:
  "sort_key fst (filter (\<lambda>(f, _). file_extension f = Some ''json'') sample_dir) = [(''a.json'', Inr ''salt''), (''b.json'', Inr ''key'')]"
  by (simp add: sample_dir_def file_extension_def)

lemma sample_pack_parses:
  "n \<in> {''key'', ''salt''} \<Longrightarrow> parse_rules_value f (sample_pack n) [] = Inr ((sample_loaded n)\<lparr>rp_sha256 := []\<rparr>)"
  by (auto simp: parse_rules_value_def sample_pack_def sample_loaded_def PACK_FORMAT_def MAX_RULES_PER_PACK_def MAX_LITERAL_LEN_def
    jidx_def valid_rule_id_def is_alnum_def add_rule_def string_rule_of_def trim_def is_ws_def result_simps)

lemma sample_dir_loads:
  "load_dir (\<lambda>raw. Inr (sample_pack raw)) (Some sample_dir) [] = Inr [sample_loaded ''key'', sample_loaded ''salt'']"
  by (simp add: load_dir_def sample_dir_json pack_of_file_def sample_pack_parses result_simps)
    (simp add: sample_loaded_def)

theorem loaded_packs_are_checked_witness:
  "load_dir (\<lambda>raw. Inr (sample_pack raw)) (Some sample_dir) [] = Inr [sample_loaded ''key'', sample_loaded ''salt''] \<and>
   (\<exists>p q. sort_key rp_name [p, q] = [sample_loaded ''key'', sample_loaded ''salt''] \<and> rp_name p = ''salt'' \<and> rp_name q = ''key'' \<and>
     pack_ok [] p \<and> pack_ok [] q)"
proof -
  have name: "as_str (jidx (sample_pack n) ''name'') = Some n" for n by (simp add: sample_pack_def jidx_def)
  obtain ps where ps: "[sample_loaded ''key'', sample_loaded ''salt''] = sort_key rp_name ps"
    and l: "list_all2 (pack_of (\<lambda>raw. Inr (sample_pack raw)) []) [(''a.json'', Inr ''salt''), (''b.json'', Inr ''key'')] ps"
    using loaded_packs_are_checked [OF sample_dir_loads] unfolding sample_dir_json by blast
  from l obtain p q where "ps = [p, q]" "rp_name p = ''salt''" "rp_name q = ''key''" "pack_ok [] p" "pack_ok [] q"
    by (auto simp: list_all2_Cons1 name pack_of_def)
  with ps sample_dir_loads show ?thesis by metis
qed

text \<open>The fingerprint of a rule set does not depend on the order of its packs.\<close>

lemma set_hash_order: "mset packs = mset packs' \<Longrightarrow> set_hash packs = set_hash packs'"
  unfolding set_hash_def by (metis mset_map sorted_list_of_multiset_mset)

text \<open>
  The engine is to refuse bad packs with an error. A hex text in which a two-byte character straddles a pair
  aborts the process instead.
\<close>

lemma non_ascii_hex_panics:
  "decode_hex_str [CHR ''a'', CHR 0xC3, CHR 0xA9, CHR ''b''] = Inl (Panic ''byte index is not a char boundary'')"
  by (simp add: decode_hex_str_def is_ws_def hex_decode_def hex_pair_def is_char_boundary_def upt_rec)

end
