(* ===== verification/Crypto.thy ===== *)
theory Crypto
  imports Rules
begin

text \<open>
  \<open>crates/rmcp-worker/src/crypto.rs\<close>: the compiled-in constant tables and the built-in rule pack made from them, the
  constant scan over the readable segments, the detection of API-hash resolvers against the hashes of the import
  names, and the recovery of strings from immediate operands. The engines see the database through \<open>&dyn IdaBackend\<close>:
  the operations they call are arguments.
\<close>

section \<open>The compiled-in tables\<close>

record const_pack =
  cp_name :: string
  cp_bytes :: "u8 list"
  cp_table_size :: nat
  cp_rarity :: f64

definition CONST_PACKS :: "const_pack list" where
  "CONST_PACKS = [
     \<lparr>cp_name = ''AES S-box'',
      cp_bytes = [0x63, 0x7c, 0x77, 0x7b, 0xf2, 0x6b, 0x6f, 0xc5, 0x30, 0x01, 0x67, 0x2b, 0xfe, 0xd7, 0xab, 0x76],
      cp_table_size = 256, cp_rarity = lit 99 100\<rparr>,
     \<lparr>cp_name = ''AES inverse S-box'',
      cp_bytes = [0x52, 0x09, 0x6a, 0xd5, 0x30, 0x36, 0xa5, 0x38, 0xbf, 0x40, 0xa3, 0x9e, 0x81, 0xf3, 0xd7, 0xfb],
      cp_table_size = 256, cp_rarity = lit 99 100\<rparr>,
     \<lparr>cp_name = ''SHA-256 initial hash (H0)'',
      cp_bytes = [0x67, 0xe6, 0x09, 0x6a, 0x85, 0xae, 0x67, 0xbb, 0x72, 0xf3, 0x6e, 0x3c, 0x3a, 0xf5, 0x4f, 0xa5],
      cp_table_size = 32, cp_rarity = lit 97 100\<rparr>,
     \<lparr>cp_name = ''SHA-256 round constants (K)'',
      cp_bytes = [0x42, 0x8a, 0x2f, 0x98, 0x71, 0x37, 0x44, 0x91, 0xb5, 0xc0, 0xfb, 0xcf, 0xe9, 0xb5, 0xdb, 0xa5],
      cp_table_size = 256, cp_rarity = lit 97 100\<rparr>,
     \<lparr>cp_name = ''SHA-1 initial hash (H0)'',
      cp_bytes = [0x67, 0x45, 0x23, 0x01, 0xef, 0xcd, 0xab, 0x89, 0x98, 0xba, 0xdc, 0xfe, 0x10, 0x32, 0x54, 0x76],
      cp_table_size = 20, cp_rarity = lit 95 100\<rparr>,
     \<lparr>cp_name = ''MD5 initial state (A,B,C,D)'',
      cp_bytes = [0x01, 0x23, 0x45, 0x67, 0x89, 0xab, 0xcd, 0xef, 0xfe, 0xdc, 0xba, 0x98, 0x76, 0x54, 0x32, 0x10],
      cp_table_size = 16, cp_rarity = lit 92 100\<rparr>,
     \<lparr>cp_name = ''CRC-32 polynomial table (reflected)'',
      cp_bytes = [0x00, 0x00, 0x00, 0x00, 0x96, 0x30, 0x07, 0x77, 0x2c, 0x61, 0x0e, 0xee, 0xba, 0x51, 0x09, 0x99],
      cp_table_size = 1024, cp_rarity = lit 85 100\<rparr>,
     \<lparr>cp_name = ''Blowfish P-array (pi digits)'',
      cp_bytes = [0x24, 0x3f, 0x6a, 0x88, 0x85, 0xa3, 0x08, 0xd3, 0x13, 0x19, 0x8a, 0x2e, 0x03, 0x70, 0x73, 0x44],
      cp_table_size = 72, cp_rarity = lit 97 100\<rparr>,
     \<lparr>cp_name = ''TEA/XTEA delta'',
      cp_bytes = [0xb9, 0x79, 0x37, 0x9e],
      cp_table_size = 4, cp_rarity = lit 8 10\<rparr>]"

definition builtin_id :: "string \<Rightarrow> string" where
  "builtin_id nm = ''builtin.'' @ map (\<lambda>c. if c \<in> set '' ()/,'' then CHR ''_'' else c) (to_lowercase nm)"

definition const_pack_json :: "const_pack \<Rightarrow> json" where
  "const_pack_json p = JObj [(''kind'', JStr ''constant''), (''id'', JStr (builtin_id (cp_name p))),
     (''hex'', JStr (hex_encode (cp_bytes p))), (''label'', JStr (cp_name p)),
     (''table_size'', jn (cp_table_size p)), (''rarity'', JFloat (cp_rarity p))]"

definition const_packs_json :: json where
  "const_packs_json = JObj [(''format'', JNum 1), (''name'', JStr ''builtin''), (''version'', JStr ''1''),
     (''source'', JStr ''compiled-in CONST_PACKS (#12)''), (''rules'', JArr (map const_pack_json CONST_PACKS))]"

section \<open>API hashes\<close>

definition ror32 :: "u32 \<Rightarrow> nat \<Rightarrow> u32" where
  "ror32 x n = word_rotr n x"

definition rol32 :: "u32 \<Rightarrow> nat \<Rightarrow> u32" where
  "rol32 x n = word_rotl n x"

definition ror13_add :: "u8 list \<Rightarrow> u32" where
  "ror13_add bs = foldl (\<lambda>h b. ror32 h 13 + ucast b) 0 bs"

definition ror15_add :: "u8 list \<Rightarrow> u32" where
  "ror15_add bs = foldl (\<lambda>h b. ror32 h 15 + ucast b) 0 bs"

definition rol7_xor :: "u8 list \<Rightarrow> u32" where
  "rol7_xor bs = foldl (\<lambda>h b. xor (rol32 h 7) (ucast b)) 0 bs"

definition crc_bit :: "u32 \<Rightarrow> u32" where
  "crc_bit h = xor (drop_bit 1 h) (and 0xEDB88320 (- (and h 1)))"

definition crc32 :: "u8 list \<Rightarrow> u32" where
  "crc32 bs = not (foldl (\<lambda>h b. (crc_bit ^^ 8) (xor h (ucast b))) (not 0) bs)"

record hash_algo =
  ha_name :: string
  ha_compute :: "u8 list \<Rightarrow> u32"
  ha_wide :: bool

definition ALGOS :: "hash_algo list" where
  "ALGOS = [
     \<lparr>ha_name = ''ror13-add'', ha_compute = ror13_add, ha_wide = False\<rparr>,
     \<lparr>ha_name = ''ror13-add-wide'', ha_compute = ror13_add, ha_wide = True\<rparr>,
     \<lparr>ha_name = ''ror15-add'', ha_compute = ror15_add, ha_wide = False\<rparr>,
     \<lparr>ha_name = ''rol7-xor'', ha_compute = rol7_xor, ha_wide = False\<rparr>,
     \<lparr>ha_name = ''crc32'', ha_compute = crc32, ha_wide = False\<rparr>]"

definition algo_names :: "string list" where
  "algo_names = map ha_name ALGOS"

section \<open>The effective rule set\<close>

definition builtin_packs :: "rule_set result" where
  "builtin_packs = rmap (\<lambda>p. [p\<lparr>rp_name := ''builtin'', rp_version := ''1'',
       rp_source := ''compiled-in CONST_PACKS + ALGOS (#12)'', rp_sha256 := hex16 (fnv1a64 ''builtin'')\<rparr>])
     (parse_rules_value ''<builtin>'' const_packs_json algo_names)"

definition load_effective :: "(string \<Rightarrow> string + json) \<Rightarrow> rules_dir \<Rightarrow> rule_set result" where
  "load_effective from_slice dir = rbind (load_dir from_slice dir algo_names)
     (\<lambda>packs. if packs = [] then builtin_packs else Inr packs)"

section \<open>The constant scan\<close>

record const_hit =
  ch_ea :: u64
  ch_name :: string
  ch_label :: string
  ch_table_size :: nat
  ch_confidence :: f64
  ch_pack_name :: string
  ch_pack_sha :: string

text \<open>A flattened rule: label, pack, pack hash, rule id, pattern, table size, rarity.\<close>

type_synonym packed_rule = "string \<times> string \<times> string \<times> string \<times> u8 list \<times> nat \<times> f64"

definition packed_rules :: "rule_set option \<Rightarrow> packed_rule list" where
  "packed_rules rules = (case rules of
       None \<Rightarrow> map (\<lambda>p. (cp_name p, ''builtin'', ''builtin'', builtin_id (cp_name p), cp_bytes p, cp_table_size p, cp_rarity p)) CONST_PACKS
     | Some packs \<Rightarrow> concat (map (\<lambda>p. if rp_enabled p
         then map (\<lambda>r. (cr_label r, rp_name p, rp_sha256 p, cr_id r, cr_bytes r, cr_table_size r, cr_rarity r)) (rp_constants p)
         else []) packs))"

definition decode_hex :: "string \<Rightarrow> u8 list option result" where
  "decode_hex s = (case hex_decode (trim s) of
       Inr bs \<Rightarrow> Inr (Some bs)
     | Inl (HexError _) \<Rightarrow> Inr None
     | Inl SlicePanic \<Rightarrow> Inl (Panic ''byte index is not a char boundary''))"

type_synonym byte_reader = "u64 \<Rightarrow> usize \<Rightarrow> json result"

text \<open>One chunk of a segment; \<open>None\<close> where the loop gives the segment up.\<close>

definition read_chunk :: "byte_reader \<Rightarrow> u64 \<Rightarrow> usize \<Rightarrow> u8 list option result" where
  "read_chunk get_bytes base want = (case get_bytes base want of
       Inl (Panic m) \<Rightarrow> Inl (Panic m)
     | Inl _ \<Rightarrow> Inr None
     | Inr b \<Rightarrow> (case as_str (jidx b ''hex'') of
         None \<Rightarrow> Inr None
       | Some h \<Rightarrow> rmap (\<lambda>d. case d of Some (x # xs) \<Rightarrow> Some (x # xs) | _ \<Rightarrow> None) (decode_hex h)))"

definition CHUNK :: nat where
  "CHUNK = 1024 * 1024"

definition hit_at :: "u64 \<Rightarrow> packed_rule \<Rightarrow> nat \<Rightarrow> const_hit" where
  "hit_at base rule i = (case rule of (label, pack_name, pack_sha, rule_id, pat, table_size, rarity) \<Rightarrow>
     \<lparr>ch_ea = base + of_nat i, ch_name = rule_id, ch_label = label, ch_table_size = table_size,
      ch_confidence = rarity, ch_pack_name = pack_name, ch_pack_sha = pack_sha\<rparr>)"

definition pattern_of :: "packed_rule \<Rightarrow> u8 list" where
  "pattern_of rule = (case rule of (_, _, _, _, pat, _, _) \<Rightarrow> pat)"

text \<open>The loops push a hit and stop everything once \<open>cap\<close> hits are there: the second component.\<close>

fun window_loop :: "nat \<Rightarrow> (nat \<Rightarrow> const_hit) \<Rightarrow> u8 list \<Rightarrow> nat \<Rightarrow> u8 list \<Rightarrow> const_hit list \<Rightarrow> const_hit list \<times> bool" where
  "window_loop cap mk pat i [] hits = (hits, False)"
| "window_loop cap mk pat i (x # xs) hits =
     (if length (x # xs) < length pat then (hits, False)
      else if take (length pat) (x # xs) = pat
      then (let hits' = hits @ [mk i] in if cap \<le> length hits' then (hits', True) else window_loop cap mk pat (Suc i) xs hits')
      else window_loop cap mk pat (Suc i) xs hits)"

fun rule_loop :: "nat \<Rightarrow> u64 \<Rightarrow> u8 list \<Rightarrow> packed_rule list \<Rightarrow> const_hit list \<Rightarrow> const_hit list \<times> bool" where
  "rule_loop cap base bytes [] hits = (hits, False)"
| "rule_loop cap base bytes (rule # rules) hits =
     (if pattern_of rule = [] \<or> length bytes < length (pattern_of rule) then rule_loop cap base bytes rules hits
      else case window_loop cap (hit_at base rule) (pattern_of rule) 0 bytes hits of
        (hits', True) \<Rightarrow> (hits', True)
      | (hits', False) \<Rightarrow> rule_loop cap base bytes rules hits')"

lemma chunk_step: "base < fin \<Longrightarrow> unat (fin - (base + of_nat (min CHUNK (unat (fin - base))))) < unat (fin - (base :: u64))"
proof -
  assume lt: "base < fin"
  let ?w = "min CHUNK (unat (fin - base))"
  have d: "0 < unat (fin - base)" using lt by (simp add: unat_gt_0)
  then have w: "0 < ?w" "?w \<le> unat (fin - base)" by (simp_all add: CHUNK_def)
  have n: "unat (of_nat ?w :: u64) = ?w" using w(2) unat_u64_less [of "fin - base"] by (simp add: unat_of_nat take_bit_nat_eq_self)
  then have "of_nat ?w \<le> fin - base" using w(2) by (simp add: word_le_nat_alt)
  then have "unat (fin - base - of_nat ?w) = unat (fin - base) - ?w" using n by (simp add: unat_sub)
  with w d show ?thesis by (simp add: diff_diff_eq)
qed

function segment_loop :: "byte_reader \<Rightarrow> nat \<Rightarrow> packed_rule list \<Rightarrow> u64 \<Rightarrow> u64 \<Rightarrow> const_hit list \<Rightarrow> (const_hit list \<times> bool) result" where
  "segment_loop get_bytes cap rules base fin hits =
     (if base < fin
      then let want = min CHUNK (unat (fin - base)) in
        rbind (read_chunk get_bytes base want) (\<lambda>chunk. case chunk of
          None \<Rightarrow> Inr (hits, False)
        | Some bytes \<Rightarrow> (case rule_loop cap base bytes rules hits of
            (hits', True) \<Rightarrow> Inr (hits', True)
          | (hits', False) \<Rightarrow> segment_loop get_bytes cap rules (base + of_nat want) fin hits'))
      else Inr (hits, False))"
  by pat_completeness auto
termination
  by (relation "measure (\<lambda>(_, _, _, base, fin, _). unat (fin - base))") (auto simp: chunk_step)

declare segment_loop.simps [simp del]

text \<open>Segments that are empty, larger than 64 MiB or execute-only are skipped.\<close>

definition scannable :: "segment_info \<Rightarrow> bool" where
  "scannable seg = (let sz = unat (saturating_sub (sg_end seg) (sg_start seg)) in
     \<not> (sz = 0 \<or> 64 * 1024 * 1024 < sz)
     \<and> \<not> (CHR ''x'' \<in> set (sg_perms seg) \<and> CHR ''w'' \<notin> set (sg_perms seg) \<and> CHR ''r'' \<notin> set (sg_perms seg)))"

fun segments_loop :: "byte_reader \<Rightarrow> nat \<Rightarrow> packed_rule list \<Rightarrow> segment_info list \<Rightarrow> const_hit list \<Rightarrow> (const_hit list \<times> bool) result" where
  "segments_loop get_bytes cap rules [] hits = Inr (hits, False)"
| "segments_loop get_bytes cap rules (seg # segs) hits =
     (if scannable seg
      then rbind (segment_loop get_bytes cap rules (sg_start seg) (sg_end seg) hits) (\<lambda>(hits', truncated).
        if truncated then Inr (hits', True) else segments_loop get_bytes cap rules segs hits')
      else segments_loop get_bytes cap rules segs hits)"

definition rank_hits :: "const_hit list \<Rightarrow> const_hit list" where
  "rank_hits hits = sort_key (\<lambda>h. (- ulps (ch_confidence h), ch_ea h)) hits"

definition containing_function :: "analysis_index \<Rightarrow> u64 \<Rightarrow> u64 list" where
  "containing_function idx ea = (case bt_last_le (ai_functions idx) ea of
       Some (start, f) \<Rightarrow> if ea \<le> ff_ea_end f then [start] else []
     | None \<Rightarrow> [])"

definition finding_callers :: "analysis_index \<Rightarrow> u64 list \<Rightarrow> u64 list" where
  "finding_callers idx funcs = sort_dedup (concat (map (\<lambda>f. case bt_get (ai_functions idx) f of
     Some info \<Rightarrow> ff_callers info | None \<Rightarrow> []) funcs))"

definition const_finding :: "analysis_index \<Rightarrow> const_hit \<Rightarrow> json" where
  "const_finding idx h = (let funcs = containing_function idx (ch_ea h) in JObj [
     (''kind'', JStr ''crypto_constant''), (''rule'', JStr (ch_name h)), (''label'', JStr (ch_label h)),
     (''ea'', JStr (hex_alt (ch_ea h))), (''table_size'', jn (ch_table_size h)),
     (''confidence'', JStr (fmt2 (ch_confidence h))),
     (''containing_function'', JArr (map (\<lambda>f. JStr (hex_alt f)) funcs)),
     (''callers'', JArr (map (\<lambda>c. JStr (hex_alt c)) (finding_callers idx funcs))),
     (''pack'', JStr (ch_pack_name h)), (''pack_sha256'', JStr (ch_pack_sha h))])"

definition crypto_scan ::
  "segment_info list result \<Rightarrow> byte_reader \<Rightarrow> analysis_index \<Rightarrow> nat \<Rightarrow> rule_set option \<Rightarrow> json result" where
  "crypto_scan segments get_bytes idx max_hits rules =
     rbind segments (\<lambda>segs.
     rmap (\<lambda>(hits, truncated). JObj [
         (''kind'', JStr ''crypto_scan''),
         (''findings'', JArr (map (const_finding idx) (take max_hits (rank_hits hits)))),
         (''truncated'', JBool truncated), (''packs'', jn (length CONST_PACKS)),
         (''note'', JStr ''ranked by confidence; callers come from the analysis index'')])
       (segments_loop get_bytes (max_hits * 4) (packed_rules rules) segs []))"

section \<open>Resolvers of API hashes\<close>

text \<open>\<open>encode_utf16\<close> of a well-formed UTF-8 text, each unit as its two little-endian bytes.\<close>

fun utf16_units :: "nat list \<Rightarrow> nat list" where
  "utf16_units (a # b # c # d # s) =
     (if a < 0x80 then a # utf16_units (b # c # d # s)
      else if a < 0xE0 then ((a - 0xC0) * 64 + (b - 0x80)) # utf16_units (c # d # s)
      else if a < 0xF0 then ((a - 0xE0) * 4096 + (b - 0x80) * 64 + (c - 0x80)) # utf16_units (d # s)
      else (let v = (a - 0xF0) * 262144 + (b - 0x80) * 4096 + (c - 0x80) * 64 + (d - 0x80) - 0x10000
            in (0xD800 + v div 1024) # (0xDC00 + v mod 1024) # utf16_units s))"
| "utf16_units (a # b # c # []) =
     (if a < 0x80 then a # utf16_units [b, c]
      else if a < 0xE0 then ((a - 0xC0) * 64 + (b - 0x80)) # utf16_units [c]
      else [(a - 0xE0) * 4096 + (b - 0x80) * 64 + (c - 0x80)])"
| "utf16_units (a # b # []) =
     (if a < 0x80 then a # utf16_units [b] else [(a - 0xC0) * 64 + (b - 0x80)])"
| "utf16_units [a] = [a]"
| "utf16_units [] = []"

definition byte_list :: "string \<Rightarrow> u8 list" where
  "byte_list s = map (\<lambda>c. of_nat (byte_of c)) s"

definition hash_input :: "bool \<Rightarrow> string \<Rightarrow> u8 list" where
  "hash_input wide nm = (if wide
     then concat (map (\<lambda>u. [of_nat u, of_nat (u div 256)]) (utf16_units (map byte_of nm))) @ [0, 0]
     else byte_list nm @ [0])"

type_synonym corpus = "(u32, (string \<times> string \<times> bool) list) btree"

definition add_hash :: "string \<Rightarrow> corpus \<Rightarrow> hash_algo \<Rightarrow> corpus" where
  "add_hash nm c algo = (let h = ha_compute algo (hash_input (ha_wide algo) nm)
     in bt_insert h (unwrap_or (bt_get c h) [] @ [(ha_name algo, nm, ha_wide algo)]) c)"

definition import_names :: "json \<Rightarrow> string list" where
  "import_names imports = concat (map (\<lambda>module. List.map_filter (\<lambda>entry. as_str (jidx entry ''name''))
       (unwrap_or (as_array (jidx module ''entries'')) []))
     (unwrap_or (as_array (jidx imports ''modules'')) []))"

type_synonym import_lister = "usize option \<Rightarrow> usize \<Rightarrow> usize \<Rightarrow> json result"

definition build_corpus :: "import_lister \<Rightarrow> corpus result" where
  "build_corpus imports = rmap (\<lambda>v. foldl (\<lambda>c nm. foldl (add_hash nm) c ALGOS) [] (import_names v)) (imports None 0 20000)"

definition verified_row :: "u32 \<Rightarrow> string \<times> string \<times> bool \<Rightarrow> json" where
  "verified_row key m = (case m of (algo, nm, wide) \<Rightarrow> JObj [
     (''constant'', JStr (''0x'' @ pad_left 8 (show_radix 16 (unat key)))), (''algorithm'', JStr algo),
     (''api'', JStr nm), (''wide'', JBool wide)])"

fun verify_loop :: "corpus \<Rightarrow> u64 list \<Rightarrow> json list \<Rightarrow> json list" where
  "verify_loop c [] verified = verified"
| "verify_loop c (k # ks) verified =
     (let key = ucast k;
          verified' = verified @ map (verified_row key) (take 4 (unwrap_or (bt_get c key) []))
      in if 8 \<le> length verified' then verified' else verify_loop c ks verified')"

definition resolver_confidence :: "nat \<Rightarrow> f64" where
  "resolver_confidence n = (if n = 1 then lit 45 100 else if n = 2 then lit 75 100 else if n = 3 then lit 88 100 else lit 95 100)"

definition resolver_finding :: "u64 \<Rightarrow> function_facts \<Rightarrow> json list \<Rightarrow> json" where
  "resolver_finding ea f verified = JObj [
     (''kind'', JStr ''api_hash_resolver''),
     (''function'', JObj [(''ea'', JStr (hex_alt ea)), (''name'', JStr (ff_name f))]),
     (''confidence'', JStr (fmt2 (resolver_confidence (length verified)))),
     (''verified_hashes'', JArr verified), (''verified_count'', jn (length verified)),
     (''callers'', JArr (map (\<lambda>c. JStr (hex_alt c)) (ff_callers f)))]"

fun resolver_loop :: "corpus \<Rightarrow> nat \<Rightarrow> (u64 \<times> function_facts) list \<Rightarrow> json list \<Rightarrow> json list \<times> bool" where
  "resolver_loop c max_findings [] findings = (findings, False)"
| "resolver_loop c max_findings ((ea, f) # fs) findings =
     (let verified = verify_loop c (ff_constants f) [] in
      if 0x800 < saturating_sub (ff_ea_end f) ea \<or> length (ff_constants f) < 2 \<or> verified = []
      then resolver_loop c max_findings fs findings
      else let findings' = findings @ [resolver_finding ea f verified]
           in if max_findings \<le> length findings' then (findings', True) else resolver_loop c max_findings fs findings')"

text \<open>\<open>str::parse::<f64>\<close> on the texts \<open>{:.2}\<close> produces: digits, a point, digits.\<close>

definition parse_f64 :: "string \<Rightarrow> f64 option" where
  "parse_f64 s = (case split_char (CHR ''.'') s of
       [a] \<Rightarrow> map_option (\<lambda>n. f64_of n) (parse_digits 10 a)
     | [a, b] \<Rightarrow> map_option (\<lambda>n. lit (int n) (10 ^ length b)) (parse_digits 10 (a @ b))
     | _ \<Rightarrow> None)"

definition stated_confidence :: "json \<Rightarrow> f64" where
  "stated_confidence v = unwrap_or (parse_f64 (unwrap_or (as_str (jidx v ''confidence'')) ''0'')) f_zero"

definition resolve_api_hashes :: "import_lister \<Rightarrow> analysis_index \<Rightarrow> nat \<Rightarrow> json result" where
  "resolve_api_hashes imports idx max_findings = rmap (\<lambda>c.
     case resolver_loop c max_findings (ai_functions idx) [] of (findings, truncated) \<Rightarrow> JObj [
       (''kind'', JStr ''api_hash_scan''),
       (''findings'', JArr (sort_key (\<lambda>v. - ulps (stated_confidence v)) findings)),
       (''truncated'', JBool truncated), (''algorithms'', JArr (map JStr algo_names)),
       (''note'', JStr (''algorithms verified against the DB'' @ [CHR 0x27] @ ''s import-name corpus; low-confidence single-hash resolvers are flagged as such''))])
     (build_corpus imports)"

section \<open>Strings built from immediates\<close>

definition to_le_bytes :: "u64 \<Rightarrow> u8 list" where
  "to_le_bytes v = map (\<lambda>k. ucast (drop_bit (8 * k) v)) [0..<8]"

text \<open>The bytes of the immediates of the ctree with the addresses of their rows (op 68 is \<open>cot_num\<close>).\<close>

definition immediate_sites :: "json list \<Rightarrow> (u64 \<times> u8) list" where
  "immediate_sites rows = concat (map (\<lambda>row.
     if as_bool (jidx row ''is_expr'') = Some True \<and> as_u64 (jidx row ''op'') = Some 68
     then map (Pair (unwrap_or (as_u64 (jidx row ''ea'')) 0)) (to_le_bytes (unwrap_or (as_u64 (jidx row ''c'')) 0))
     else []) rows)"

definition printable :: "u8 \<Rightarrow> bool" where
  "printable b \<longleftrightarrow> 0x20 \<le> b \<and> b < 0x7f"

definition run_row :: "(u64 \<times> u8) list \<Rightarrow> json" where
  "run_row run = JObj [
     (''value'', JStr (map (\<lambda>(_, b). char_of (unat b)) run)), (''technique'', JStr ''stack_or_array_immediates''),
     (''sites'', JArr (map (\<lambda>(ea, _). JStr (hex_alt ea)) run)),
     (''confidence'', JStr (if 6 \<le> length run then ''0.8'' else ''0.6''))]"

text \<open>The loop over the bytes: \<open>run_start\<close> and the strings so far. It breaks without clearing \<open>run_start\<close>.\<close>

fun run_loop :: "(u64 \<times> u8) list \<Rightarrow> nat \<Rightarrow> nat \<Rightarrow> u8 list \<Rightarrow> nat option \<Rightarrow> json list \<Rightarrow> nat option \<times> json list" where
  "run_loop sites mx i [] run_start strings = (run_start, strings)"
| "run_loop sites mx i (b # bs) run_start strings =
     (if printable b then run_loop sites mx (Suc i) bs (Some (unwrap_or run_start i)) strings
      else case run_start of
        None \<Rightarrow> run_loop sites mx (Suc i) bs None strings
      | Some start \<Rightarrow>
          if 4 \<le> i - start
          then (let strings' = strings @ [run_row (take (i - start) (drop start sites))]
                in if mx \<le> length strings' then (Some start, strings') else run_loop sites mx (Suc i) bs None strings')
          else run_loop sites mx (Suc i) bs None strings)"

definition recovered_rows :: "nat \<Rightarrow> (u64 \<times> u8) list \<Rightarrow> json list" where
  "recovered_rows mx sites = (case run_loop sites mx 0 (map snd sites) None [] of
       (Some start, strings) \<Rightarrow>
         if 4 \<le> length sites - start \<and> length strings < mx then strings @ [run_row (drop start sites)] else strings
     | (None, strings) \<Rightarrow> strings)"

type_synonym ctree_reader = "u64 \<Rightarrow> bool \<Rightarrow> bool \<Rightarrow> usize \<Rightarrow> json result"

definition recover_strings :: "ctree_reader \<Rightarrow> analysis_index \<Rightarrow> u64 \<Rightarrow> nat \<Rightarrow> json result" where
  "recover_strings hr_cfunc idx target max_strings =
     (case bt_get (ai_functions idx) target of
        None \<Rightarrow> Inl (Worker (''no function at '' @ hex_alt target))
      | Some f \<Rightarrow> rmap (\<lambda>hr. case as_array (jidx hr ''ctree'') of
            None \<Rightarrow> JObj [(''target'', JStr (hex_alt target)), (''strings'', JArr []), (''note'', JStr ''no ctree available'')]
          | Some rows \<Rightarrow> JObj [
              (''target'', JStr (hex_alt target)), (''name'', JStr (ff_name f)),
              (''strings'', JArr (recovered_rows max_strings (immediate_sites rows))),
              (''callers'', JArr (map (\<lambda>c. JStr (hex_alt c)) (ff_callers f))),
              (''note'', JStr ''recovered from immediate-store analysis; the IDB is not patched'')])
          (hr_cfunc target True False 8000))"

end
