(* ===== verification/Signatures.thy ===== *)
theory Signatures
  imports Mock_Backend "HOL-Library.Multiset"
begin

text \<open>
  \<open>crates/rmcp-worker/src/signatures.rs\<close>: fingerprints of functions in several families, their similarity, the
  identification of a function against a reference index and the transfer proposals between two indices; and
  \<open>sig_map_from_sigs\<close> of \<open>dispatch.rs\<close>, which rebuilds indices from signatures. The text of a signature index is
  serialised by a library: the serialiser and the parser are parameters.
\<close>

record function_sig =
  sf_ea :: u64
  sf_name :: string
  sf_size :: u64
  sf_imports :: "string list"
  sf_strings :: "string list"
  sf_constants :: "u64 list"
  sf_callee_count :: nat
  sf_caller_count :: nat

record sig_index =
  sx_format :: u32
  sx_binary_md5 :: string
  sx_functions :: "function_sig list"

definition SIG_FORMAT :: u32 where
  "SIG_FORMAT = 1"

section \<open>Building and storing an index\<close>

definition to_sig :: "u64 \<Rightarrow> function_facts \<Rightarrow> function_sig" where
  "to_sig ea f = \<lparr>sf_ea = ea, sf_name = ff_name f, sf_size = ff_size f, sf_imports = sort_dedup (ff_imports f),
     sf_strings = sort_dedup (ff_strings f), sf_constants = sort_dedup (ff_constants f),
     sf_callee_count = length (ff_callees f), sf_caller_count = length (ff_callers f)\<rparr>"

definition build_sig_index :: "analysis_index \<Rightarrow> sig_index" where
  "build_sig_index idx = \<lparr>sx_format = SIG_FORMAT, sx_binary_md5 = ai_binary_md5 idx,
     sx_functions = sort_key sf_ea (map (\<lambda>(ea, f). to_sig ea f) (ai_functions idx))\<rparr>"

definition build_sig_index_no_backend :: "analysis_index \<Rightarrow> sig_index" where
  "build_sig_index_no_backend idx = \<lparr>sx_format = SIG_FORMAT, sx_binary_md5 = ai_binary_md5 idx,
     sx_functions = map (\<lambda>(ea, f). to_sig ea f) (ai_functions idx)\<rparr>"

text \<open>The file next to the database, named by the path \<open>db_info\<close> reports.\<close>

definition sig_path :: "json result \<Rightarrow> string result" where
  "sig_path db_info = rbind db_info (\<lambda>info.
     rmap (\<lambda>p. p @ ''.rsig.json'') (ok_or (as_str (jidx info ''path'')) (Worker ''no db path for sig index'')))"

definition save_sig_index ::
  "(sig_index \<Rightarrow> string + string) \<Rightarrow> json result \<Rightarrow> sig_index \<Rightarrow> fs \<Rightarrow> string result \<times> fs" where
  "save_sig_index to_vec_pretty db_info sig disk = (case sig_path db_info of
       Inl e \<Rightarrow> (Inl e, disk)
     | Inr p \<Rightarrow> (case to_vec_pretty sig of
         Inl e \<Rightarrow> (Inl (Ipc e), disk)
       | Inr raw \<Rightarrow> (Inr p, disk([p] \<mapsto> raw))))"

definition load_sig_index :: "(string \<Rightarrow> string + sig_index) \<Rightarrow> string \<Rightarrow> string \<Rightarrow> fs \<Rightarrow> sig_index result" where
  "load_sig_index from_slice missing p disk =
     rbind (ok_or (disk [p]) (Ipc (''read sig index: '' @ missing))) (\<lambda>raw.
     rbind (rmap_err (\<lambda>e. Ipc (''parse sig index: '' @ e)) (from_slice raw)) (\<lambda>sig.
     if sx_format sig \<noteq> SIG_FORMAT
     then Inl (Worker (''sig index format '' @ show_nat (unat (sx_format sig)) @ '' != supported '' @ show_nat (unat SIG_FORMAT)))
     else Inr sig))"

section \<open>Similarity\<close>

record family_scores =
  fy_imports :: f64
  fy_strings :: f64
  fy_constants :: f64
  fy_calls :: f64
  fy_size :: f64

definition overall :: "family_scores \<Rightarrow> f64" where
  "overall s = f_add (f_add (f_add (f_add (f_mul (lit 30 100) (fy_imports s)) (f_mul (lit 25 100) (fy_constants s)))
     (f_mul (lit 20 100) (fy_strings s))) (f_mul (lit 15 100) (fy_calls s))) (f_mul (lit 10 100) (fy_size s))"

definition round2 :: "f64 \<Rightarrow> f64" where
  "round2 v = f_div (f_round (f_mul v (f64_of 100))) (f64_of 100)"

definition scores_json :: "family_scores \<Rightarrow> json" where
  "scores_json s = JObj [(''imports'', JFloat (round2 (fy_imports s))), (''constants'', JFloat (round2 (fy_constants s))),
     (''strings'', JFloat (round2 (fy_strings s))), (''calls'', JFloat (round2 (fy_calls s))),
     (''size'', JFloat (round2 (fy_size s)))]"

definition set_sim :: "'a list \<Rightarrow> 'a list \<Rightarrow> f64" where
  "set_sim a b =
     (if a = [] \<and> b = [] then f_one
      else if a = [] \<or> b = [] then lit 25 100
      else let inter = card (set a \<inter> set b); union = card (set a \<union> set b)
           in if union = 0 then lit 5 10 else f_div (f64_of inter) (f64_of union))"

definition ratio :: "nat \<Rightarrow> nat \<Rightarrow> f64" where
  "ratio a b = f_div (f64_of (min a b)) (f64_of (max a b))"

definition size_sim :: "u64 \<Rightarrow> u64 \<Rightarrow> f64" where
  "size_sim a b = (if max a b = 0 then lit 5 10 else ratio (unat a) (unat b))"

definition call_sim :: "function_sig \<Rightarrow> function_sig \<Rightarrow> f64" where
  "call_sim a b =
     (let c = (if max (sf_callee_count a) (sf_callee_count b) = 0 then f_one else ratio (sf_callee_count a) (sf_callee_count b));
          r = (if max (sf_caller_count a) (sf_caller_count b) = 0 then f_one else ratio (sf_caller_count a) (sf_caller_count b))
      in f_add (f_mul (lit 6 10) c) (f_mul (lit 4 10) r))"

definition similarity :: "function_sig \<Rightarrow> function_sig \<Rightarrow> family_scores" where
  "similarity a b = \<lparr>fy_imports = set_sim (sf_imports a) (sf_imports b), fy_strings = set_sim (sf_strings a) (sf_strings b),
     fy_constants = set_sim (sf_constants a) (sf_constants b), fy_calls = call_sim a b, fy_size = size_sim (sf_size a) (sf_size b)\<rparr>"

section \<open>Identification\<close>

record match_thresholds =
  th_strict :: f64
  th_relaxed :: f64
  th_strict_family_floor :: f64

definition default_match_thresholds :: match_thresholds where
  "default_match_thresholds = \<lparr>th_strict = lit 85 100, th_relaxed = lit 60 100, th_strict_family_floor = lit 50 100\<rparr>"

definition is_strict :: "match_thresholds \<Rightarrow> family_scores \<Rightarrow> bool" where
  "is_strict th s \<longleftrightarrow> th_strict th \<le> overall s \<and> th_strict_family_floor th \<le> fy_imports s \<and>
     th_strict_family_floor th \<le> fy_constants s \<and> th_strict_family_floor th \<le> fy_strings s"

record candidate =
  cd_ea :: u64
  cd_name :: string
  cd_scores :: family_scores
  cd_match_kind :: string

definition candidate_of :: "match_thresholds \<Rightarrow> function_sig \<Rightarrow> function_sig \<Rightarrow> candidate" where
  "candidate_of th probe rf = (let s = similarity probe rf in
     \<lparr>cd_ea = sf_ea rf, cd_name = sf_name rf, cd_scores = s,
      cd_match_kind = (if is_strict th s then ''strict'' else if th_relaxed th \<le> overall s then ''relaxed'' else ''weak'')\<rparr>)"

definition ranked_candidates :: "match_thresholds \<Rightarrow> nat \<Rightarrow> function_sig \<Rightarrow> function_sig list \<Rightarrow> candidate list" where
  "ranked_candidates th max_candidates probe fs =
     take max_candidates (sort_key (\<lambda>c. (- ulps (overall (cd_scores c)), cd_ea c)) (map (candidate_of th probe) fs))"

definition named_ea :: "u64 \<Rightarrow> string \<Rightarrow> json" where
  "named_ea ea nm = JObj [(''ea'', JStr (hex_alt ea)), (''name'', JStr nm)]"

definition candidate_json :: "candidate \<Rightarrow> json" where
  "candidate_json c = JObj [(''candidate'', named_ea (cd_ea c) (cd_name c)),
     (''score'', JFloat (round2 (overall (cd_scores c)))), (''match_kind'', JStr (cd_match_kind c)),
     (''evidence'', scores_json (cd_scores c))]"

definition identify_function :: "analysis_index \<Rightarrow> sig_index \<Rightarrow> u64 \<Rightarrow> match_thresholds \<Rightarrow> nat \<Rightarrow> json result" where
  "identify_function idx ref target th max_candidates =
     (case bt_get (ai_functions idx) target of
        None \<Rightarrow> Inl (Worker (''no function at '' @ hex_alt target))
      | Some f \<Rightarrow> let probe = to_sig (ff_ea_start f) f in Inr (JObj [
          (''target'', JStr (hex_alt target)), (''name'', JStr (sf_name probe)),
          (''reference_binary_md5'', JStr (sx_binary_md5 ref)),
          (''candidates'', JArr (map candidate_json (ranked_candidates th max_candidates probe (sx_functions ref)))),
          (''thresholds'', JObj [(''strict'', JFloat (th_strict th)), (''relaxed'', JFloat (th_relaxed th)),
             (''family_floor'', JFloat (th_strict_family_floor th))]),
          (''note'', JStr ''strict matches are rename-proposal material; relaxed are hints only'')]))"

section \<open>Transfer proposals\<close>

fun best_match :: "match_thresholds \<Rightarrow> function_sig \<Rightarrow> function_sig list \<Rightarrow> (function_sig \<times> family_scores) option \<Rightarrow> (function_sig \<times> family_scores) option" where
  "best_match th f [] best = best"
| "best_match th f (g # gs) best =
     (let s = similarity f g in
      if (case best of None \<Rightarrow> True | Some (_, bs) \<Rightarrow> overall bs < overall s) \<and> th_relaxed th \<le> overall s
      then best_match th f gs (Some (g, s)) else best_match th f gs best)"

definition auto_named :: "string \<Rightarrow> bool" where
  "auto_named nm \<longleftrightarrow> starts_with nm ''sub_'' \<or> \<not> starts_with nm ''?'' \<and> starts_with nm ''j_''"

definition name_conflict :: "function_sig \<Rightarrow> function_sig \<Rightarrow> bool" where
  "name_conflict f g \<longleftrightarrow> \<not> auto_named (sf_name g) \<and> sf_name g \<noteq> sf_name f"

definition transfer_json :: "match_thresholds \<Rightarrow> function_sig \<Rightarrow> function_sig \<Rightarrow> family_scores \<Rightarrow> json" where
  "transfer_json th f g s = JObj [
     (''from'', named_ea (sf_ea f) (sf_name f)), (''to'', named_ea (sf_ea g) (sf_name g)),
     (''score'', JFloat (round2 (overall s))), (''match_kind'', JStr (if is_strict th s then ''strict'' else ''relaxed'')),
     (''evidence'', scores_json s),
     (''proposal'', JObj [(''rename_to'', JStr (sf_name f)), (''conflict'', JBool (name_conflict f g)),
        (''note'', JStr (if name_conflict f g then ''target has a meaningful name; transfer requires explicit approval''
                         else ''safe to apply (target is auto-named)''))])]"

fun transfer_loop :: "match_thresholds \<Rightarrow> nat \<Rightarrow> function_sig list \<Rightarrow> function_sig list \<Rightarrow> json list \<Rightarrow> nat \<Rightarrow> json list \<times> nat \<times> bool" where
  "transfer_loop th max_transfers gs [] transfers conflicts = (transfers, conflicts, False)"
| "transfer_loop th max_transfers gs (f # fs) transfers conflicts =
     (if sf_size f < 16 \<and> sf_imports f = [] \<and> sf_constants f = [] then transfer_loop th max_transfers gs fs transfers conflicts
      else case best_match th f gs None of
        None \<Rightarrow> transfer_loop th max_transfers gs fs transfers conflicts
      | Some (g, s) \<Rightarrow>
          let conflicts' = (if name_conflict f g then Suc conflicts else conflicts);
              transfers' = transfers @ [transfer_json th f g s]
          in if max_transfers \<le> length transfers' then (transfers', conflicts', True)
             else transfer_loop th max_transfers gs fs transfers' conflicts')"

definition transfer_score :: "json \<Rightarrow> f64" where
  "transfer_score t = unwrap_or (as_f64 (jidx t ''score'')) f_zero"

definition map_functions :: "analysis_index \<Rightarrow> analysis_index \<Rightarrow> match_thresholds \<Rightarrow> nat \<Rightarrow> json" where
  "map_functions idx_from idx_to th max_transfers =
     (case transfer_loop th max_transfers (sx_functions (build_sig_index_no_backend idx_to))
             (sx_functions (build_sig_index_no_backend idx_from)) [] 0 of
        (transfers, conflicts, truncated) \<Rightarrow> JObj [
          (''from_binary_md5'', JStr (ai_binary_md5 idx_from)), (''to_binary_md5'', JStr (ai_binary_md5 idx_to)),
          (''transfers'', JArr (sort_key (\<lambda>t. - ulps (transfer_score t)) transfers)),
          (''conflicts'', jn conflicts), (''truncated'', JBool truncated),
          (''note'', JStr ''PROPOSALS ONLY: apply via explicit rename mutations with expected_revision; nothing is applied here'')])"

definition facts_of_sig :: "function_sig \<Rightarrow> function_facts" where
  "facts_of_sig f = default_facts\<lparr>ff_ea_start := sf_ea f, ff_ea_end := sf_ea f + sf_size f, ff_name := sf_name f,
     ff_size := sf_size f, ff_imports := sf_imports f, ff_strings := sf_strings f, ff_constants := sf_constants f\<rparr>"

definition index_of_sigs :: "sig_index \<Rightarrow> analysis_index" where
  "index_of_sigs sig = \<lparr>ai_schema_version = 1, ai_binary_md5 = sx_binary_md5 sig, ai_revision = 0,
     ai_functions = foldl (\<lambda>m f. bt_insert (sf_ea f) (facts_of_sig f) m) [] (sx_functions sig), ai_strings = []\<rparr>"

definition sig_map_from_sigs :: "sig_index \<Rightarrow> sig_index \<Rightarrow> nat \<Rightarrow> json" where
  "sig_map_from_sigs from to mx = map_functions (index_of_sigs from) (index_of_sigs to) default_match_thresholds mx"

section \<open>Scores stay between zero and one\<close>

lemma ratio_is_score: "max a b \<noteq> 0 \<Longrightarrow> is_score (ratio a b)"
  unfolding ratio_def by (rule ratio_score) auto

lemma ratio_same: "a \<noteq> 0 \<Longrightarrow> ratio a a = f_one"
  by (simp add: ratio_def ratio_self)

lemma set_sim_score: "is_score (set_sim a b)"
proof -
  have "card (set a \<inter> set b) \<le> card (set a \<union> set b)" by (rule card_mono) auto
  then show ?thesis by (auto simp: set_sim_def Let_def lit_score card_gt_0_iff intro!: ratio_score)
qed

lemma set_sim_same: "set_sim a a = f_one"
  by (simp add: set_sim_def Let_def ratio_self card_gt_0_iff)

lemma set_sim_sym: "set_sim a b = set_sim b a"
  by (simp add: set_sim_def Int_commute Un_commute conj_commute disj_commute)

lemma size_sim_score: "is_score (size_sim a b)"
proof (cases "max a b = 0")
  case False
  then have "max (unat a) (unat b) \<noteq> 0" by (auto simp: max_def unat_gt_0 word_le_nat_alt split: if_splits)
  with False show ?thesis by (simp add: size_sim_def ratio_is_score)
qed (simp add: size_sim_def lit_score)

lemma weighted_score:
  assumes "is_score x" "is_score y" "f_add w v = f_one" "is_score w" "is_score v"
  shows "is_score (f_add (f_mul w x) (f_mul v y))"
  using f_add_mono [of "f_mul w x" "f_mul v y" w v] f_mul_mono [of w x w f_one] f_mul_mono [of v y v f_one] f_mul_1 [of w] f_mul_1 [of v] assms
  by (simp add: is_score_iff f_add_f64 f_mul_f64)

lemma call_sim_score: "is_score (call_sim a b)"
  unfolding call_sim_def Let_def
  by (intro weighted_score) (auto simp: weights_sum lit_score intro!: ratio_is_score)

lemma call_sim_same: "sf_callee_count a = sf_callee_count b \<Longrightarrow> sf_caller_count a = sf_caller_count b \<Longrightarrow> call_sim a b = f_one"
  by (simp add: call_sim_def Let_def ratio_same f_mul_1 lit_f64 weights_sum)

lemma overall_ones: "overall \<lparr>fy_imports = f_one, fy_strings = f_one, fy_constants = f_one, fy_calls = f_one, fy_size = f_one\<rparr> = f_one"
  by (simp add: overall_def f_mul_1 lit_f64 weights_sum)

definition scores_in_range :: "family_scores \<Rightarrow> bool" where
  "scores_in_range s \<longleftrightarrow> is_score (fy_imports s) \<and> is_score (fy_strings s) \<and> is_score (fy_constants s) \<and>
     is_score (fy_calls s) \<and> is_score (fy_size s)"

lemma overall_score:
  assumes "scores_in_range s"
  shows "is_score (overall s)"
proof -
  have f: "is_f64 (f_mul (lit 30 100) (fy_imports s))" "is_f64 (f_mul (lit 25 100) (fy_constants s))"
    "is_f64 (f_mul (lit 20 100) (fy_strings s))" "is_f64 (f_mul (lit 15 100) (fy_calls s))" "is_f64 (f_mul (lit 10 100) (fy_size s))"
    using assms by (auto simp: scores_in_range_def is_score_iff intro!: f_mul_f64 lit_f64)
  have "overall s \<le> overall \<lparr>fy_imports = f_one, fy_strings = f_one, fy_constants = f_one, fy_calls = f_one, fy_size = f_one\<rparr>"
    unfolding overall_def family_scores.select_convs using assms f
    by (intro f_add_mono f_add_f64 f_mul_mono lit_f64) (auto simp: scores_in_range_def is_score_iff)
  then show ?thesis unfolding overall_ones using f by (auto simp: is_score_iff overall_def intro!: f_add_f64)
qed

lemma similarity_scores: "scores_in_range (similarity a b)"
  by (simp add: scores_in_range_def similarity_def set_sim_score call_sim_score size_sim_score)

text \<open>
  C29: The similarity of any two signatures is a score in every family and overall: a double between zero and one, rounding
  included.
\<close>
theorem similarity_is_a_score: "scores_in_range (similarity a b) \<and> is_score (overall (similarity a b))"
  by (simp add: similarity_scores overall_score)

section \<open>A known function is identified\<close>

text \<open>Two signatures that differ at most in address and name.\<close>

definition same_shape :: "function_sig \<Rightarrow> function_sig \<Rightarrow> bool" where
  "same_shape a b \<longleftrightarrow> sf_size a = sf_size b \<and> sf_imports a = sf_imports b \<and> sf_strings a = sf_strings b \<and>
     sf_constants a = sf_constants b \<and> sf_callee_count a = sf_callee_count b \<and> sf_caller_count a = sf_caller_count b"

lemma similarity_same_shape:
  assumes "same_shape a b" "sf_size a \<noteq> 0"
  shows "similarity a b = \<lparr>fy_imports = f_one, fy_strings = f_one, fy_constants = f_one, fy_calls = f_one, fy_size = f_one\<rparr>"
  using assms by (simp add: same_shape_def similarity_def set_sim_same call_sim_same size_sim_def ratio_same unat_eq_0)

lemma hd_sort_key_le: "x \<in> set xs \<Longrightarrow> k (hd (sort_key k xs)) \<le> k x"
proof -
  assume "x \<in> set xs"
  then have "x \<in> set (sort_key k xs)" by simp
  then show ?thesis using sorted_sort_key [of k xs] by (cases "sort_key k xs") auto
qed

lemma best_candidate:
  assumes "rf \<in> set fs" "overall (similarity probe rf) = f_one" "0 < n"
  shows "\<exists>c cs. ranked_candidates th n probe fs = c # cs \<and> overall (cd_scores c) = f_one"
proof -
  let ?key = "\<lambda>c. (- ulps (overall (cd_scores c)), cd_ea c)" and ?cs = "map (candidate_of th probe) fs"
  have rf: "candidate_of th probe rf \<in> set ?cs" using assms(1) by simp
  then have "?key (hd (sort_key ?key ?cs)) \<le> ?key (candidate_of th probe rf)" by (rule hd_sort_key_le)
  then have lo: "f_one \<le> overall (cd_scores (hd (sort_key ?key ?cs)))"
    by (auto simp: candidate_of_def assms(2) Let_def less_eq_f64_def)
  have "length (sort_key ?key ?cs) = length fs" by simp
  with assms(1) have ne: "sort_key ?key ?cs \<noteq> []" by fastforce
  from hd_in_set [OF ne] have "hd (sort_key ?key ?cs) \<in> set ?cs" by simp
  then obtain g where "hd (sort_key ?key ?cs) = candidate_of th probe g" by auto
  then have "overall (cd_scores (hd (sort_key ?key ?cs))) \<le> f_one"
    using overall_score [OF similarity_scores, of probe g] by (simp add: candidate_of_def Let_def is_score_iff)
  with lo ne assms(3) show ?thesis unfolding ranked_candidates_def
    by (cases "sort_key ?key ?cs"; cases n) auto
qed

text \<open>
  A function whose signature is in the reference index, under whatever address and name, is identified: the best candidate
  has the score 1.0, and the matching entry is classified as strict.
\<close>
lemma known_function_is_identified:
  assumes "bt_get (ai_functions idx) target = Some f" "rf \<in> set (sx_functions ref)" "same_shape (to_sig (ff_ea_start f) f) rf"
    "ff_size f \<noteq> 0" "0 < max_candidates"
  shows "\<exists>out c cs. identify_function idx ref target default_match_thresholds max_candidates = Inr out \<and>
      jidx out ''candidates'' = JArr (map candidate_json (c # cs)) \<and> overall (cd_scores c) = f_one \<and>
      cd_match_kind (candidate_of default_match_thresholds (to_sig (ff_ea_start f) f) rf) = ''strict''"
proof -
  let ?probe = "to_sig (ff_ea_start f) f"
  have sim: "similarity ?probe rf = \<lparr>fy_imports = f_one, fy_strings = f_one, fy_constants = f_one, fy_calls = f_one, fy_size = f_one\<rparr>"
    using assms(3, 4) by (intro similarity_same_shape) (simp_all add: to_sig_def)
  have "lit 85 100 \<le> f_one" "lit 50 100 \<le> f_one" using lit_mono [of 85 100 1 1] lit_mono [of 50 100 1 1] lit_1 [of 1] by simp_all
  then have "cd_match_kind (candidate_of default_match_thresholds ?probe rf) = ''strict''"
    by (simp add: candidate_of_def sim Let_def is_strict_def overall_ones default_match_thresholds_def)
  moreover obtain c cs where "ranked_candidates default_match_thresholds max_candidates ?probe (sx_functions ref) = c # cs" "overall (cd_scores c) = f_one"
    using best_candidate [OF assms(2), of ?probe max_candidates default_match_thresholds] assms(5) by (auto simp: sim overall_ones)
  ultimately show ?thesis using assms(1) by (simp add: identify_function_def Let_def) blast
qed

definition sized_index :: analysis_index where
  "sized_index = sample_index\<lparr>ai_functions := [(0x1000, default_facts\<lparr>ff_ea_start := 0x1000, ff_size := 32, ff_imports := [''ReadFile'']\<rparr>)]\<rparr>"

definition known_sig :: function_sig where
  "known_sig = \<lparr>sf_ea = 0x500000, sf_name = ''known'', sf_size = 32, sf_imports = [''ReadFile''], sf_strings = [], sf_constants = [],
     sf_callee_count = 0, sf_caller_count = 0\<rparr>"

section \<open>Transfers are best matches\<close>

lemma best_match_correct:
  assumes "best_match th f gs best = Some (g, s)" "\<And>g s. best = Some (g, s) \<Longrightarrow> th_relaxed th \<le> overall s"
  shows "th_relaxed th \<le> overall s \<and> (best = Some (g, s) \<or> g \<in> set gs \<and> s = similarity f g) \<and>
    (\<forall>h \<in> set gs. overall (similarity f h) \<le> overall s) \<and> (\<forall>g' s'. best = Some (g', s') \<longrightarrow> overall s' \<le> overall s)"
  using assms
proof (induction gs arbitrary: best)
  case (Cons h gs)
  let ?t = "similarity f h"
  define better where "better \<longleftrightarrow> (case best of None \<Rightarrow> True | Some (_, bs) \<Rightarrow> overall bs < overall ?t) \<and> th_relaxed th \<le> overall ?t"
  have "best_match th f (h # gs) best = best_match th f gs (if better then Some (h, ?t) else best)" by (simp add: better_def Let_def)
  with Cons.prems(1) have step: "best_match th f gs (if better then Some (h, ?t) else best) = Some (g, s)" by simp
  have "th_relaxed th \<le> overall s \<and> ((if better then Some (h, ?t) else best) = Some (g, s) \<or> g \<in> set gs \<and> s = similarity f g) \<and>
      (\<forall>k \<in> set gs. overall (similarity f k) \<le> overall s) \<and>
      (\<forall>g' s'. (if better then Some (h, ?t) else best) = Some (g', s') \<longrightarrow> overall s' \<le> overall s)"
    by (rule Cons.IH [OF step]) (use Cons.prems(2) in \<open>auto simp: better_def split: if_splits\<close>)
  moreover have "\<not> better \<Longrightarrow> overall ?t < th_relaxed th \<or> (\<exists>g' s'. best = Some (g', s') \<and> overall ?t \<le> overall s')"
    by (auto simp: better_def not_le not_less split: option.splits)
  moreover have "better \<Longrightarrow> best = Some (g', s') \<Longrightarrow> overall s' < overall ?t" for g' s' by (simp add: better_def)
  ultimately show ?case by (cases better) (auto intro: order_trans less_imp_le)
qed simp

definition good_transfer :: "match_thresholds \<Rightarrow> function_sig list \<Rightarrow> function_sig list \<Rightarrow> json \<Rightarrow> bool" where
  "good_transfer th fs gs t \<longleftrightarrow> (\<exists>f \<in> set fs. \<exists>g \<in> set gs. t = transfer_json th f g (similarity f g) \<and>
     th_relaxed th \<le> overall (similarity f g) \<and> (\<forall>h \<in> set gs. overall (similarity f h) \<le> overall (similarity f g)))"

definition flagged :: "json \<Rightarrow> bool" where
  "flagged t \<longleftrightarrow> jidx (jidx t ''proposal'') ''conflict'' = JBool True"

lemma flagged_transfer [simp]: "flagged (transfer_json th f g s) \<longleftrightarrow> name_conflict f g"
  by (simp add: flagged_def transfer_json_def)

lemma transfer_loop_correct:
  assumes "transfer_loop th mx gs fs ts n = (ts', n', truncated)" "list_all (good_transfer th all gs) ts" "set fs \<subseteq> set all"
    "n = length (filter flagged ts)" "length ts < mx"
  shows "list_all (good_transfer th all gs) ts' \<and> n' = length (filter flagged ts') \<and> length ts' \<le> mx \<and> (\<not> truncated \<longrightarrow> length ts' < mx)"
  using assms
proof (induction fs arbitrary: ts n)
  case (Cons f fs)
  show ?case
  proof (cases "sf_size f < 16 \<and> sf_imports f = [] \<and> sf_constants f = [] \<or> best_match th f gs None = None")
    case True
    then have "transfer_loop th mx gs (f # fs) ts n = transfer_loop th mx gs fs ts n" by auto
    with Cons.prems(1) have "transfer_loop th mx gs fs ts n = (ts', n', truncated)" by simp
    from Cons.IH [OF this Cons.prems(2) _ Cons.prems(4, 5)] Cons.prems(3) show ?thesis by simp
  next
    case False
    then obtain g s where b: "best_match th f gs None = Some (g, s)" by auto
    with best_match_correct [OF b] have g: "g \<in> set gs" "s = similarity f g" "th_relaxed th \<le> overall s"
      "\<forall>h \<in> set gs. overall (similarity f h) \<le> overall s" by auto
    let ?ts = "ts @ [transfer_json th f g s]" and ?n = "if name_conflict f g then Suc n else n"
    have "good_transfer th all gs (transfer_json th f g s)" unfolding good_transfer_def using Cons.prems(3) g by auto
    with Cons.prems(2) have good: "list_all (good_transfer th all gs) ?ts" by simp
    have n: "?n = length (filter flagged ?ts)" using Cons.prems(4) by simp
    have nf: "\<not> (sf_size f < 16 \<and> sf_imports f = [] \<and> sf_constants f = [])" using False by blast
    have "(if mx \<le> length ?ts then (?ts, ?n, True) else transfer_loop th mx gs fs ?ts ?n) = (ts', n', truncated)"
      using Cons.prems(1) by (simp only: transfer_loop.simps nf if_False b option.case prod.case Let_def)
    then show ?thesis using Cons.IH [of ?ts ?n] good n Cons.prems(3, 5) by (auto split: if_splits)
  qed
qed simp

text \<open>
  C26: Cross-database transfer proposals are sound: there are at most \<open>max_transfers\<close>; each pairs a function of the one index with a
  function of the other that clears the relaxed threshold and that no other function of that index beats; the number of conflicts is the number of
  proposals flagged, and a proposal is flagged exactly when its target has a name of its own that differs.
\<close>
theorem transfers_are_best_matches:
  assumes "0 < max_transfers"
  shows "\<exists>ts. jidx (map_functions idx_from idx_to th max_transfers) ''transfers'' = JArr ts \<and> length ts \<le> max_transfers \<and>
    list_all (good_transfer th (sx_functions (build_sig_index_no_backend idx_from)) (sx_functions (build_sig_index_no_backend idx_to))) ts \<and>
    jidx (map_functions idx_from idx_to th max_transfers) ''conflicts'' = jn (length (filter flagged ts))"
proof -
  let ?fs = "sx_functions (build_sig_index_no_backend idx_from)" and ?gs = "sx_functions (build_sig_index_no_backend idx_to)"
  obtain ts n t where l: "transfer_loop th max_transfers ?gs ?fs [] 0 = (ts, n, t)" by (metis prod_cases3)
  have ok: "list_all (good_transfer th ?fs ?gs) ts" "n = length (filter flagged ts)" "length ts \<le> max_transfers"
    using transfer_loop_correct [OF l, of ?fs] assms by simp_all
  let ?sorted = "sort_key (\<lambda>t. - ulps (transfer_score t)) ts"
  have "length (filter flagged ?sorted) = length (filter flagged ts)"
    by (metis mset_sort mset_filter size_mset)
  with ok l show ?thesis by (intro exI [of _ ?sorted]) (simp add: map_functions_def list_all_iff)
qed

theorem transfers_are_best_matches_witness:
  "\<exists>ts. jidx (map_functions sized_index sized_index default_match_thresholds 5) ''transfers'' = JArr ts \<and> length ts \<le> 5"
  using transfers_are_best_matches [of 5 sized_index sized_index default_match_thresholds] by auto

text \<open>
  The mapping between two exported indices rebuilds them without callees and callers, so the call family, which the exports carry as
  counts, is always 1.0 there.
\<close>

lemma set_bt_insert_subset: "set (bt_insert k v m) \<subseteq> insert (k, v) (set m)"
  by (induction k v m rule: bt_insert.induct) auto

lemma sig_map_forgets_calls:
  assumes "f \<in> set (sx_functions (build_sig_index_no_backend (index_of_sigs a)))"
    "g \<in> set (sx_functions (build_sig_index_no_backend (index_of_sigs b)))"
  shows "fy_calls (similarity f g) = f_one"
proof -
  have z: "sf_callee_count h = 0 \<and> sf_caller_count h = 0" if "h \<in> set (sx_functions (build_sig_index_no_backend (index_of_sigs c)))" for h c
  proof -
    have "\<forall>(ea, x) \<in> set (foldl (\<lambda>m f. bt_insert (sf_ea f) (facts_of_sig f) m) m fs). ff_callees x = [] \<and> ff_callers x = []"
      if "\<forall>(ea, x) \<in> set m. ff_callees x = [] \<and> ff_callers x = []" for m :: "(u64, function_facts) btree" and fs
      using that
    proof (induction fs arbitrary: m)
      case (Cons k fs)
      have "\<forall>(ea, x) \<in> set (bt_insert (sf_ea k) (facts_of_sig k) m). ff_callees x = [] \<and> ff_callers x = []"
        using Cons.prems set_bt_insert_subset [of "sf_ea k" "facts_of_sig k" m] by (fastforce simp: facts_of_sig_def default_facts_def)
      from Cons.IH [OF this] show ?case by simp
    qed simp
    from this [of "[]" "sx_functions c"] that show ?thesis
      by (auto simp: build_sig_index_no_backend_def index_of_sigs_def to_sig_def)
  qed
  from z [OF assms(1)] z [OF assms(2)] show ?thesis by (simp add: similarity_def call_sim_same)
qed

end
