(* ===== verification/Plan.thy ===== *)
theory Plan
  imports Mock_Backend
begin

text \<open>
  \<open>crates/rmcp-worker/src/plan.rs\<close>: parsing a batch of mutations, previewing it, applying
  it in order with an audit entry per applied operation, and the whole-plan revision
  guard. The loop of \<open>apply\<close> is generic in the backend, as the source is (\<open>dyn IdaBackend\<close>): its
  lemmas are proved in a locale over the revision contract, and interpreted on the
  in-memory backend.
\<close>

datatype planned_op_kind =
    PRename (new_name: string)
  | PComment (comment: string) (repeatable: bool)
  | PPatchBytes (bytes_hex: string)
  | PFuncCreate (pend: "u64 option")
  | PFuncDelete
  | PSetType (decl: string)

record planned_op =
  po_kind :: planned_op_kind
  po_ea :: u64

definition describe :: "planned_op \<Rightarrow> string" where
  "describe op = (case po_kind op of
       PRename n \<Rightarrow> ''rename -> '' @ n
     | PComment c _ \<Rightarrow> ''comment -> '' @ c
     | PPatchBytes h \<Rightarrow> ''patch bytes -> '' @ h
     | PFuncCreate _ \<Rightarrow> ''create function''
     | PFuncDelete \<Rightarrow> ''delete function''
     | PSetType d \<Rightarrow> ''set type -> '' @ d)"

definition kind_name :: "planned_op \<Rightarrow> string" where
  "kind_name op = (case po_kind op of
       PRename _ \<Rightarrow> ''rename''
     | PComment _ _ \<Rightarrow> ''comment''
     | PPatchBytes _ \<Rightarrow> ''patch_bytes''
     | PFuncCreate _ \<Rightarrow> ''func.create''
     | PFuncDelete \<Rightarrow> ''func.delete''
     | PSetType _ \<Rightarrow> ''set_type'')"

section \<open>Parsing\<close>

definition parse_ea :: "string \<Rightarrow> u64 result" where
  "parse_ea s0 =
     (let s = trim s0;
          bad = (\<lambda>e. Worker (''bad ea '' @ quoted s @ '': '' @ e));
          hex = (case strip_prefix s ''0x'' of Some h \<Rightarrow> Some h | None \<Rightarrow> strip_prefix s ''0X'')
      in case hex of
           Some h \<Rightarrow> rmap_err bad (parse_u64_radix 16 h)
         | None \<Rightarrow> rmap_err bad (parse_u64_radix 10 s))"

definition op_error :: "nat \<Rightarrow> string \<Rightarrow> error" where
  "op_error i m = Worker (''op '' @ show_nat i @ '': '' @ m)"

definition parse_end :: "nat \<Rightarrow> json \<Rightarrow> u64 option result" where
  "parse_end i op = (case jget op ''end'' of
       None \<Rightarrow> Inr None
     | Some v \<Rightarrow>
         (if is_null v then Inr None
          else rbind (case as_str v of
                        None \<Rightarrow> Inr None
                      | Some s \<Rightarrow> rmap Some (rmap_err (\<lambda>e. op_error i (error_to_string e)) (parse_ea s)))
                 (\<lambda>o'. rmap Some (ok_or (case o' of Some x \<Rightarrow> Some x | None \<Rightarrow> as_u64 v)
                         (op_error i (''bad '' @ quoted ''end''))))))"

definition parse_kind :: "nat \<Rightarrow> json \<Rightarrow> string \<Rightarrow> planned_op_kind result" where
  "parse_kind i op kind =
     (if kind = ''rename'' then
        rmap PRename (ok_or (param_str op ''name'') (op_error i (''rename requires '' @ quoted ''name'')))
      else if kind = ''comment'' then
        rmap (\<lambda>c. PComment c (unwrap_or (param_bool op ''repeatable'') False))
          (ok_or (param_str op ''comment'') (op_error i (''comment requires '' @ quoted ''comment'')))
      else if kind = ''patch_bytes'' then
        rmap PPatchBytes (ok_or (param_str op ''hex'') (op_error i (''patch_bytes requires '' @ quoted ''hex'')))
      else if kind = ''func.create'' then rmap PFuncCreate (parse_end i op)
      else if kind = ''func.delete'' then Inr PFuncDelete
      else if kind = ''set_type'' then
        rmap PSetType (ok_or (param_str op ''decl'') (op_error i (''set_type requires '' @ quoted ''decl'')))
      else Inl (op_error i (''unknown kind '' @ quoted kind @
        '' (supported: rename, comment, patch_bytes, func.create, func.delete, set_type)'')))"

definition parse_op :: "nat \<times> json \<Rightarrow> planned_op result" where
  "parse_op p = (case p of (i, op) \<Rightarrow>
     rbind (ok_or (param_str op ''ea'') (op_error i (''missing '' @ quoted ''ea''))) (\<lambda>s.
     rbind (rmap_err (\<lambda>e. op_error i (error_to_string e)) (parse_ea s)) (\<lambda>ea.
     rbind (ok_or (param_str op ''kind'') (op_error i (''missing '' @ quoted ''kind''))) (\<lambda>kind.
     rmap (\<lambda>k. \<lparr>po_kind = k, po_ea = ea\<rparr>) (parse_kind i op kind)))))"

definition parse_operations :: "json list \<Rightarrow> planned_op list result" where
  "parse_operations ops = rcollect (map parse_op (enumerate0 ops))"

section \<open>Preview\<close>

definition is_patch :: "planned_op \<Rightarrow> bool" where
  "is_patch op = (case po_kind op of PPatchBytes _ \<Rightarrow> True | _ \<Rightarrow> False)"

definition target_ok :: "mock \<Rightarrow> u64 \<Rightarrow> bool" where
  "target_ok b ea \<longleftrightarrow> is_ok (mock_function_at ea b) \<or>
     (case mock_get_bytes ea 1 b of Inl _ \<Rightarrow> False | Inr v \<Rightarrow> unwrap_or (as_str (jidx v ''hex'')) [] \<noteq> [])"

definition plan_row :: "mock \<Rightarrow> nat \<times> planned_op \<Rightarrow> json" where
  "plan_row b p = (case p of (i, op) \<Rightarrow> JObj [
     (''index'', jn i), (''kind'', JStr (kind_name op)), (''ea'', JStr (hex_alt (po_ea op))),
     (''detail'', JStr (describe op)), (''target_resolves'', JBool (target_ok b (po_ea op)))])"

definition plan :: "mock \<Rightarrow> planned_op list \<Rightarrow> json result" where
  "plan b ops =
     (let reversible = list_all (\<lambda>op. \<not> is_patch op) ops
      in Inr (JObj [
           (''operations'', jn (length ops)), (''reversible'', JBool reversible),
           (''requires_idb_snapshot'', JBool (\<not> reversible)),
           (''rows'', JArr (map (plan_row b) (enumerate0 ops))),
           (''hint'', JStr (if reversible
              then ''all ops are name/comment-level and rollback-able via snapshot before apply''
              else ''patch ops write bytes; take a snapshot (ida_mutation action=snapshot) first''))]))"

section \<open>Apply\<close>

definition audit_entry :: "nat \<Rightarrow> string \<Rightarrow> u64 \<Rightarrow> mutation_outcome \<Rightarrow> json" where
  "audit_entry seq kind ea out = JObj [
     (''seq'', jn seq), (''kind'', JStr kind), (''ea'', JStr (hex_alt ea)),
     (''revision_after'', ju (revision_after out)), (''detail'', mo_detail out)]"

definition record_audit :: "json list \<Rightarrow> string \<Rightarrow> u64 \<Rightarrow> mutation_outcome \<Rightarrow> json list" where
  "record_audit audit kind ea out = audit @ [audit_entry (length audit) kind ea out]"

definition ok_row :: "nat \<Rightarrow> json" where
  "ok_row i = JObj [(''index'', jn i), (''ok'', JBool True)]"

text \<open>
  The loop of \<open>apply\<close> from operation \<open>i\<close> on; \<open>run\<close> is the backend method an operation calls,
  \<open>rv\<close> the backend's revision. An error of the method is reported in the answer; a panic of it
  (\<open>patch_bytes\<close> slicing inside a character) unwinds through the loop and there is no answer.
\<close>

fun apply_loop ::
  "('s \<Rightarrow> u64) \<Rightarrow> (planned_op \<Rightarrow> 's mutation) \<Rightarrow> nat \<Rightarrow> planned_op list \<Rightarrow> json list \<Rightarrow> 's \<Rightarrow> json list
     \<Rightarrow> json result \<times> 's \<times> json list" where
  "apply_loop rv run i [] results b audit =
     (Inr (JObj [(''applied'', jn i), (''revision_after'', ju (rv b)), (''results'', JArr results),
            (''partial'', JBool False)]), b, audit)"
| "apply_loop rv run i (op # ops) results b audit =
     (case run op b of
        (Inr out, b') \<Rightarrow>
          apply_loop rv run (Suc i) ops (results @ [ok_row i]) b'
            (audit @ [audit_entry (length audit) (kind_name op) (po_ea op) out])
      | (Inl (Panic m), b') \<Rightarrow> (Inl (Panic m), b', audit)
      | (Inl e, b') \<Rightarrow>
          (Inr (JObj [(''applied'', jn i), (''failed_at'', jn i), (''failed_op'', JStr (kind_name op)),
                 (''error'', JStr (error_to_string e)), (''error_code'', JStr (code e)),
                 (''results'', JArr results), (''partial'', JBool True)]), b', audit))"

definition plan_run :: "planned_op \<Rightarrow> mock mutation" where
  "plan_run op = (case po_kind op of
       PRename n \<Rightarrow> mock_rename (po_ea op) n
     | PComment c r \<Rightarrow> mock_set_comment (po_ea op) c r
     | PPatchBytes h \<Rightarrow> mock_patch_bytes (po_ea op) h
     | PFuncCreate e \<Rightarrow> mock_func_create (po_ea op) e
     | PFuncDelete \<Rightarrow> mock_func_delete (po_ea op)
     | PSetType d \<Rightarrow> mock_set_type (po_ea op) d)"

definition plan_apply :: "mock \<Rightarrow> planned_op list \<Rightarrow> json list \<Rightarrow> json result \<times> mock \<times> json list" where
  "plan_apply b ops audit = apply_loop mock_revision plan_run 0 ops [] b audit"

definition check_revision_value :: "mock \<Rightarrow> u64 \<Rightarrow> unit result" where
  "check_revision_value b ex =
     (if ex \<noteq> mock_revision b then Inl (RevisionConflict ex (mock_revision b)) else Inr ())"

definition check_plan_revision :: "mock \<Rightarrow> u64 option \<Rightarrow> unit result" where
  "check_plan_revision b ex = (case ex of
       Some e \<Rightarrow> check_revision_value b e
     | None \<Rightarrow> Inr ())"

definition audit_tail :: "json list \<Rightarrow> usize \<Rightarrow> json" where
  "audit_tail audit limit =
     JObj [(''total'', jn (length audit)), (''entries'', JArr (drop (length audit - limit) audit))]"

section \<open>What apply does to the backend and to the audit trail\<close>

text \<open>
  The audit trail after \<open>n\<close> operations ran from revision \<open>r\<close>: the old entries, then one entry per
  operation, numbered by its position, with its kind, its address and the revision it made.
\<close>

definition audited :: "u64 \<Rightarrow> planned_op list \<Rightarrow> json list \<Rightarrow> nat \<Rightarrow> json list \<Rightarrow> bool" where
  "audited r ops audit n audit' \<longleftrightarrow> length audit' = length audit + n \<and> take (length audit) audit' = audit \<and>
     (\<forall>k < n. \<exists>out. revision_after out = r + of_nat (Suc k) \<and>
        audit' ! (length audit + k) = audit_entry (length audit + k) (kind_name (ops ! k)) (po_ea (ops ! k)) out)"

lemma audited_0 [simp]: "audited r ops audit 0 audit"
  by (simp add: audited_def)

lemma audited_Suc:
  assumes "audited (r + 1) ops (audit @ [audit_entry (length audit) (kind_name op) (po_ea op) out]) n audit'"
    and "revision_after out = r + 1"
  shows "audited r (op # ops) audit (Suc n) audit'"
  unfolding audited_def
proof (intro conjI allI impI)
  let ?e = "audit_entry (length audit) (kind_name op) (po_ea op) out"
  note a = assms(1) [unfolded audited_def]
  have t: "take (Suc (length audit)) audit' = audit @ [?e]" using a by simp
  show "length audit' = length audit + Suc n" using a by simp
  show "take (length audit) audit' = audit"
    using arg_cong [OF t, of "take (length audit)"] by (simp add: take_take min_def)
  fix k assume k: "k < Suc n"
  show "\<exists>out. revision_after out = r + of_nat (Suc k) \<and> audit' ! (length audit + k)
    = audit_entry (length audit + k) (kind_name ((op # ops) ! k)) (po_ea ((op # ops) ! k)) out"
  proof (cases k)
    case 0
    have "audit' ! length audit = (audit @ [?e]) ! length audit"
      by (subst t [symmetric]) simp
    with 0 assms(2) show ?thesis by (auto simp: nth_append)
  next
    case (Suc j)
    with a k show ?thesis by (auto simp: add.assoc dest!: spec [of _ j])
  qed
qed

text \<open>
  What the caller gets when \<open>n\<close> of the operations from number \<open>i\<close> on took effect and \<open>e\<close> stopped
  the loop: nothing at all after a panic, otherwise the report.
\<close>

definition plan_report ::
  "nat \<Rightarrow> nat \<Rightarrow> json list \<Rightarrow> u64 \<Rightarrow> planned_op list \<Rightarrow> error option \<Rightarrow> json result \<Rightarrow> bool" where
  "plan_report i n results rv ops e r \<longleftrightarrow> (case e of
       Some (Panic m) \<Rightarrow> r = Inl (Panic m)
     | _ \<Rightarrow> (\<exists>j. r = Inr j \<and> jidx j ''applied'' = jn (i + n) \<and> jidx j ''partial'' = JBool (e \<noteq> None) \<and>
         jidx j ''results'' = JArr (results @ map ok_row [i..<i + n]) \<and>
         (case e of None \<Rightarrow> jidx j ''revision_after'' = ju rv
          | Some err \<Rightarrow> jidx j ''failed_at'' = jn (i + n) \<and> jidx j ''failed_op'' = JStr (kind_name (ops ! n)) \<and>
              jidx j ''error_code'' = JStr (code err))))"

lemma plan_report_Suc:
  "plan_report i (Suc n) results rv (op # ops) e r = plan_report (Suc i) n (results @ [ok_row i]) rv ops e r"
proof -
  have "[i..<Suc (i + n)] = i # [Suc i..<Suc (i + n)]" by (simp add: upt_rec)
  then show ?thesis
  proof (cases e)
    case (Some err)
    with \<open>[i..<Suc (i + n)] = i # [Suc i..<Suc (i + n)]\<close> show ?thesis by (cases err) (simp_all add: plan_report_def)
  qed (simp add: plan_report_def)
qed

locale plan_backend = revisioned_backend rv run
  for rv :: "'s \<Rightarrow> u64" and run :: "planned_op \<Rightarrow> 's mutation"
begin

lemma apply_loop_effect:
  "apply_loop rv run i ops results b audit = (r, b', audit') \<Longrightarrow>
   \<exists>n e. run_mutations (map run ops) b = (n, e, b') \<and> audited (rv b) ops audit n audit' \<and> plan_report i n results (rv b') ops e r"
proof (induction ops arbitrary: i results b audit)
  case Nil
  then show ?case by (auto simp: plan_report_def)
next
  case (Cons op ops)
  obtain o1 b1 where m: "run op b = (o1, b1)" by (cases "run op b")
  show ?case
  proof (cases o1)
    case (Inl d)
    with m Cons.prems show ?thesis by (cases d) (auto simp: plan_report_def)
  next
    case (Inr out)
    note ok = mut_ok [of op b out b1, OF m [unfolded Inr]]
    let ?audit = "audit @ [audit_entry (length audit) (kind_name op) (po_ea op) out]"
    obtain n e where n: "run_mutations (map run ops) b1 = (n, e, b')" "audited (rv b1) ops ?audit n audit'"
      "plan_report (Suc i) n (results @ [ok_row i]) (rv b') ops e r"
      using Cons.IH [of "Suc i" "results @ [ok_row i]" b1 ?audit] Cons.prems m Inr by auto
    have "audited (rv b) (op # ops) audit (Suc n) audit'"
      using n(2) ok by (intro audited_Suc) auto
    then show ?thesis
      using n m Inr by (intro exI [of _ "Suc n"] exI [of _ e]) (simp add: plan_report_Suc)
  qed
qed

end

fun plan_mop_of :: "u64 \<Rightarrow> planned_op_kind \<Rightarrow> mock_op" where
  "plan_mop_of ea (PRename n) = Rename ea n"
| "plan_mop_of ea (PComment c r) = SetComment ea c r"
| "plan_mop_of ea (PPatchBytes h) = PatchBytes ea h"
| "plan_mop_of ea (PFuncCreate e) = FuncCreate ea e"
| "plan_mop_of ea PFuncDelete = FuncDelete ea"
| "plan_mop_of ea (PSetType d) = SetType ea d"

abbreviation plan_mop :: "planned_op \<Rightarrow> mock_op" where
  "plan_mop op \<equiv> plan_mop_of (po_ea op) (po_kind op)"

lemma plan_run_mock_mut: "plan_run op = mock_mut (plan_mop op)"
  by (cases "po_kind op") (simp_all add: plan_run_def fun_eq_iff)

lemma plan_run_contract: "obeys_contract mock_revision (plan_run op)"
  unfolding plan_run_mock_mut by (rule mock.contract)

interpretation plan_mock: plan_backend mock_revision plan_run
  by unfold_locales (rule plan_run_contract)

lemma plan_apply_run:
  "plan_apply b ops audit = (r, b', audit') \<Longrightarrow>
     \<exists>n e. run_mutations (map mock_mut (map plan_mop ops)) b = (n, e, b') \<and> audited (mock_revision b) ops audit n audit'"
proof -
  assume "plan_apply b ops audit = (r, b', audit')"
  then obtain n e where "run_mutations (map plan_run ops) b = (n, e, b')" "audited (mock_revision b) ops audit n audit'"
    unfolding plan_apply_def by (blast dest: plan_mock.apply_loop_effect)
  moreover have "map plan_run ops = map mock_mut (map plan_mop ops)"
    by (simp add: plan_run_mock_mut)
  ultimately show ?thesis by auto
qed

text \<open>
  C4: applying a plan runs its operations in order up to the first that fails, and the backend is left as
  after exactly those operations, its revision advanced once for each, whatever the failure. The
  audit trail keeps its old entries and gains one entry per applied operation, in order, numbered by
  position, with its kind, address and the revision it produced. When no operation panics the answer
  reports exactly that: \<open>applied\<close> is the number that took effect, \<open>partial\<close> tells whether one failed,
  and then which one, of which kind and with which error code; a panic of an operation unwinds
  through \<open>apply\<close> and nothing is reported.
\<close>

theorem plan_apply_effect:
  assumes "plan_apply b ops audit = (r, b', audit')"
  shows "\<exists>n e. run_mutations (map plan_run ops) b = (n, e, b') \<and> n \<le> length ops \<and> (e = None \<longleftrightarrow> n = length ops) \<and>
     mock_revision b' = mock_revision b + of_nat n \<and> audited (mock_revision b) ops audit n audit' \<and>
     (case e of
        None \<Rightarrow> (\<exists>j. r = Inr j \<and> jidx j ''applied'' = jn n \<and> jidx j ''partial'' = JBool False \<and>
          jidx j ''results'' = JArr (map ok_row [0..<n]) \<and> jidx j ''revision_after'' = ju (mock_revision b'))
      | Some (Panic m) \<Rightarrow> r = Inl (Panic m)
      | Some err \<Rightarrow> (\<exists>j. r = Inr j \<and> jidx j ''applied'' = jn n \<and> jidx j ''partial'' = JBool True \<and>
          jidx j ''results'' = JArr (map ok_row [0..<n]) \<and> jidx j ''failed_at'' = jn n \<and>
          jidx j ''failed_op'' = JStr (kind_name (ops ! n)) \<and> jidx j ''error_code'' = JStr (code err)))"
proof -
  from plan_mock.apply_loop_effect [OF assms [unfolded plan_apply_def]] obtain n e where
    run: "run_mutations (map plan_run ops) b = (n, e, b')"
    and rest: "audited (mock_revision b) ops audit n audit'" "plan_report 0 n [] (mock_revision b') ops e r"
    by blast
  have "n \<le> length ops \<and> (e = None \<longleftrightarrow> n = length ops)"
    using plan_mock.run_all_ok [of ops b n b'] plan_mock.run_stops [of ops b n _ b'] run
    by (cases e) force+
  with run rest plan_mock.run_revision [OF run] show ?thesis
    by (intro exI [of _ n] exI [of _ e]) (auto simp: plan_report_def split: option.splits error.splits)
qed

abbreviation sample_plan :: "planned_op list" where
  "sample_plan \<equiv> [\<lparr>po_kind = PRename ''entry'', po_ea = 0x401000\<rparr>, \<lparr>po_kind = PFuncDelete, po_ea = 0x10\<rparr>,
     \<lparr>po_kind = PRename ''late'', po_ea = 0x401000\<rparr>]"

theorem plan_apply_effect_witness:
  "\<exists>j b' audit'. plan_apply mock_opened sample_plan [] = (Inr j, b', audit') \<and>
     jidx j ''applied'' = jn 1 \<and> jidx j ''partial'' = JBool True \<and> jidx j ''failed_op'' = JStr ''func.delete'' \<and>
     mock_revision b' = 1 \<and> length audit' = 1"
proof -
  obtain r b' audit' where p: "plan_apply mock_opened sample_plan [] = (r, b', audit')"
    by (cases "plan_apply mock_opened sample_plan []") auto
  obtain e where e: "fst (run_mutations (map plan_run sample_plan) mock_opened) = 1"
    "fst (snd (run_mutations (map plan_run sample_plan) mock_opened)) = Some e" "\<forall>m. e \<noteq> Panic m"
    by (simp add: plan_run_def mock_eval)
  with plan_apply_effect [OF p] p show ?thesis
    by (auto simp: audited_def mock_revision_def mock_new_def kind_name_def split: error.splits)
qed

text \<open>
  A panic in the middle of a plan: the rename took effect, the patch whose text has a two-byte
  character across a digit pair panics, and there is no answer.
\<close>

lemma plan_panics_half_way:
  "\<exists>m b' audit'. plan_apply mock_opened [\<lparr>po_kind = PRename ''entry'', po_ea = 0x401000\<rparr>,
       \<lparr>po_kind = PPatchBytes [CHR ''a'', CHR 0xC3, CHR 0xA9, CHR ''b''], po_ea = 0x401000\<rparr>] []
     = (Inl (Panic m), b', audit') \<and> mock_revision b' = 1 \<and> length audit' = 1"
  by (simp add: plan_apply_def plan_run_def mock_eval mock_revision_def hex_decode_def hex_pair_def is_char_boundary_def
      trim_def is_ws_def upt_rec)

section \<open>Parsing back a written plan\<close>

lemma hex_alt_no_ws: "c \<in> set (hex_alt w) \<Longrightarrow> \<not> is_ws c"
  using show_radix_no_ws [of 16 c "unat w"] by (auto simp: hex_alt_def is_ws_def)

lemma trim_hex_alt [simp]: "trim (hex_alt w) = hex_alt w"
  by (rule trim_no_ws) (auto dest: hex_alt_no_ws)

lemma parse_ea_hex_alt [simp]: "parse_ea (hex_alt w) = Inr w"
  by (simp add: parse_ea_def Let_def) (simp add: hex_alt_def parse_u64_radix_show)

lemma parse_ea_decimal: "parse_ea (show_u64 w) = Inr w"
proof -
  have t: "trim (show_u64 w) = show_u64 w"
    using show_radix_no_ws [of 10 _ "unat w"] by (intro trim_no_ws) auto
  have d: "c \<noteq> CHR ''x'' \<and> c \<noteq> CHR ''X''" if "c \<in> set (show_u64 w)" for c
    using show_radix10_digit [OF that] by auto
  have "strip_prefix (show_u64 w) ''0x'' = None" "strip_prefix (show_u64 w) ''0X'' = None"
    using d [of "CHR ''x''"] d [of "CHR ''X''"]
    by (auto simp: strip_prefix_Some_iff simp flip: not_Some_eq)
  with t show ?thesis by (simp add: parse_ea_def Let_def parse_u64_radix_show)
qed

text \<open>How a client writes an operation.\<close>

definition op_json :: "planned_op \<Rightarrow> json" where
  "op_json op = JObj ([(''ea'', JStr (hex_alt (po_ea op))), (''kind'', JStr (kind_name op))] @
     (case po_kind op of
        PRename n \<Rightarrow> [(''name'', JStr n)]
      | PComment c r \<Rightarrow> [(''comment'', JStr c), (''repeatable'', JBool r)]
      | PPatchBytes h \<Rightarrow> [(''hex'', JStr h)]
      | PFuncCreate e \<Rightarrow> [(''end'', jopt ju e)]
      | PFuncDelete \<Rightarrow> []
      | PSetType d \<Rightarrow> [(''decl'', JStr d)]))"

lemma as_str_ju [simp]: "as_str (ju w) = None" and is_null_ju [simp]: "\<not> is_null (ju w)"
  by (simp_all add: ju_def)

lemma parse_op_op_json: "parse_op (i, op_json op) = Inr op"
proof -
  have "parse_kind i (op_json op) (kind_name op) = Inr (po_kind op)"
    by (auto simp: parse_kind_def kind_name_def op_json_def param_defs parse_end_def jopt_def
        split: planned_op_kind.splits option.splits)
  then show ?thesis
    by (simp add: parse_op_def) (simp add: op_json_def param_defs)
qed

lemma parse_operations_map: "parse_operations (map op_json ops) = Inr ops"
proof -
  have "map parse_op (enumerate0 (map op_json ops)) = map Inr ops"
    by (rule nth_equalityI) (simp_all add: parse_op_op_json)
  then show ?thesis by (simp add: parse_operations_def rcollect_Inr_iff)
qed

text \<open>
  Every batch of planned operations can be written as a request and parses back to itself: no
  kind, address or argument is lost or confused by \<open>parse_operations\<close>.
\<close>

lemma parse_operations_roundtrip: "parse_operations (map op_json ops) = Inr ops"
  by (rule parse_operations_map)


end
