(* ===== verification/Block_Diff.thy ===== *)
theory Block_Diff
  imports Signatures Rules Plan
begin

text \<open>
  \<open>crates/rmcp-worker/src/blockdiff.rs\<close>: fingerprints of basic blocks, the greedy mapping of the blocks of two functions, and
  the pairing of the functions of two binaries. The backend operations the fingerprints read are arguments. The map from shape
  hashes to stacks of block indices is a function, as no code iterates over it.
\<close>

record block_fp =
  bf_ea :: u64
  bf_mnemonic_hash :: u64
  bf_const_hash :: u64
  bf_const_count :: nat
  bf_out_edges :: nat
  bf_in_edges :: nat
  bf_insn_count :: nat

definition fnv_words :: "u64 list \<Rightarrow> u64" where
  "fnv_words vs = foldl (\<lambda>h v. xor h v * 0x100000001b3) fnv_basis vs"

definition shape_hash :: "block_fp \<Rightarrow> u64" where
  "shape_hash b = fnv_words [bf_mnemonic_hash b, bf_const_hash b, of_nat (bf_out_edges b), of_nat (bf_in_edges b)]"

definition f_bool :: "bool \<Rightarrow> f64" where
  "f_bool b = (if b then f_one else f_zero)"

definition block_similarity :: "block_fp \<Rightarrow> block_fp \<Rightarrow> f64" where
  "block_similarity a b = f_add (f_add
     (f_mul (lit 6 10) (f_bool (bf_mnemonic_hash a = bf_mnemonic_hash b)))
     (f_mul (lit 2 10) (f_bool (bf_const_hash a = bf_const_hash b))))
     (f_mul (lit 2 10) (f_bool (bf_out_edges a = bf_out_edges b \<and> bf_in_edges a = bf_in_edges b)))"

section \<open>Fingerprints\<close>

type_synonym graph_reader = "u64 \<Rightarrow> graph_params \<Rightarrow> json result"
type_synonym function_reader = "u64 \<Rightarrow> function_info result"
type_synonym disassembler = "u64 \<Rightarrow> u64 option \<Rightarrow> usize \<Rightarrow> insn_info list result"

text \<open>Instructions by the block start they follow; those before the first start belong to none.\<close>

fun split_blocks :: "u64 list \<Rightarrow> u64 option \<Rightarrow> insn_info list \<Rightarrow> (u64, insn_info list) btree \<Rightarrow> (u64, insn_info list) btree" where
  "split_blocks starts cur [] m = m"
| "split_blocks starts cur (i # is) m =
     (let cur' = (if in_ea i \<in> set starts then Some (in_ea i) else cur) in
      case cur' of
        None \<Rightarrow> split_blocks starts cur' is m
      | Some c \<Rightarrow> split_blocks starts cur' is (bt_insert c (unwrap_or (bt_get m c) [] @ [i]) m))"

definition operand_const :: "string \<Rightarrow> u64 option" where
  "operand_const token =
     (let t = trim token in
      Option.bind (case strip_prefix t ''0x'' of Some h \<Rightarrow> Some h | None \<Rightarrow> strip_prefix t ''0X'') (\<lambda>h.
      case parse_u64_radix 16 h of Inr v \<Rightarrow> if 0x100 \<le> v then Some v else None | Inl _ \<Rightarrow> None))"

definition graph_edges :: "json \<Rightarrow> (u64 \<times> u64) list" where
  "graph_edges graph = List.map_filter (\<lambda>e. case (as_u64 (jidx e ''from''), as_u64 (jidx e ''to'')) of
       (Some a, Some b) \<Rightarrow> Some (a, b) | _ \<Rightarrow> None) (unwrap_or (as_array (jidx graph ''edges'')) [])"

definition block_fingerprint :: "(u64 \<times> u64) list \<Rightarrow> u64 \<times> insn_info list \<Rightarrow> block_fp" where
  "block_fingerprint edges block = (case block of (start, insns) \<Rightarrow>
     let mnemonics = concat (map (\<lambda>i. to_lowercase (in_mnemonic i) @ [CHR 0x1f]) insns);
         consts = sort_dedup (concat (map (\<lambda>i. List.map_filter operand_const (split_char (CHR '','') (in_operands i))) insns))
     in \<lparr>bf_ea = start, bf_mnemonic_hash = fnv1a64 mnemonics, bf_const_hash = fnv_words consts,
         bf_const_count = length consts, bf_out_edges = length (filter (\<lambda>e. fst e = start) edges),
         bf_in_edges = length (filter (\<lambda>e. snd e = start) edges), bf_insn_count = length insns\<rparr>)"

definition function_block_fingerprints ::
  "graph_reader \<Rightarrow> function_reader \<Rightarrow> disassembler \<Rightarrow> u64 \<Rightarrow> nat \<Rightarrow> (block_fp list \<times> bool) result" where
  "function_block_fingerprints graph_of function_at disassemble ea max_blocks =
     rbind (graph_of ea \<lparr>gp_kind = ''cfg'', gp_depth = 1, gp_max_nodes = max_blocks, gp_max_edges = max_blocks * 4\<rparr>) (\<lambda>graph.
     rbind (ok_or (as_array (jidx graph ''nodes'')) (Worker ''graph: missing nodes'')) (\<lambda>nodes.
     rbind (function_at ea) (\<lambda>f.
     rmap (\<lambda>insns. (map (block_fingerprint (graph_edges graph))
                      (split_blocks (List.map_filter (\<lambda>n. as_u64 (jidx n ''ea'')) nodes) None insns []),
                    unwrap_or (as_bool (jidx graph ''truncated'')) False \<or> max_blocks \<le> length nodes))
       (disassemble ea (Some (fi_ea_end f)) (max_blocks * 64)))))"

section \<open>Mapping blocks\<close>

definition fp_json :: "block_fp \<Rightarrow> json" where
  "fp_json x = JObj [(''ea'', JStr (hex_alt (bf_ea x))), (''insns'', jn (bf_insn_count x))]"

definition block_row :: "string \<Rightarrow> block_fp option \<Rightarrow> block_fp option \<Rightarrow> f64 option \<Rightarrow> json" where
  "block_row kind a b sim = JObj [(''kind'', JStr kind), (''a'', jopt fp_json a), (''b'', jopt fp_json b),
     (''similarity'', jopt (\<lambda>s. JStr (fmt2 s)) sim)]"

text \<open>Pass 1: every block of \<open>a\<close> takes the last free block of \<open>b\<close> with its shape hash.\<close>

definition by_shape :: "block_fp list \<Rightarrow> u64 \<Rightarrow> nat list" where
  "by_shape b h = map fst (filter (\<lambda>(_, x). shape_hash x = h) (enumerate0 b))"

fun exact_loop :: "(u64 \<Rightarrow> nat list) \<Rightarrow> (nat \<times> block_fp) list \<Rightarrow> (nat \<times> nat) list \<Rightarrow> (nat \<times> nat) list" where
  "exact_loop stacks [] pairs = pairs"
| "exact_loop stacks ((ai, x) # as) pairs =
     (let h = shape_hash x in
      if stacks h = [] then exact_loop stacks as pairs
      else exact_loop (stacks(h := butlast (stacks h))) as (pairs @ [(ai, last (stacks h))]))"

text \<open>Pass 2: the remaining blocks of \<open>a\<close> take the most similar free block above the threshold.\<close>

fun best_block :: "f64 \<Rightarrow> nat list \<Rightarrow> block_fp \<Rightarrow> (nat \<times> block_fp) list \<Rightarrow> (nat \<times> f64) option \<Rightarrow> (nat \<times> f64) option" where
  "best_block threshold used x [] best = best"
| "best_block threshold used x ((bi, y) # ys) best =
     (if bi \<in> set used then best_block threshold used x ys best
      else let s = block_similarity x y in
        if s < threshold then best_block threshold used x ys best
        else if (case best of None \<Rightarrow> True | Some (_, bs) \<Rightarrow> bs < s) then best_block threshold used x ys (Some (bi, s))
        else best_block threshold used x ys best)"

fun greedy_loop :: "f64 \<Rightarrow> block_fp list \<Rightarrow> (nat \<times> block_fp) list \<Rightarrow> (nat \<times> nat) list \<Rightarrow> (nat \<times> nat) list" where
  "greedy_loop threshold b [] pairs = pairs"
| "greedy_loop threshold b ((ai, x) # as) pairs =
     (if ai \<in> set (map fst pairs) then greedy_loop threshold b as pairs
      else case best_block threshold (map snd pairs) x (enumerate0 b) None of
        None \<Rightarrow> greedy_loop threshold b as pairs
      | Some (bi, _) \<Rightarrow> greedy_loop threshold b as (pairs @ [(ai, bi)]))"

definition block_pairs :: "f64 \<Rightarrow> block_fp list \<Rightarrow> block_fp list \<Rightarrow> (nat \<times> nat) list" where
  "block_pairs threshold a b = greedy_loop threshold b (enumerate0 a) (exact_loop (by_shape b) (enumerate0 a) [])"

definition pair_row :: "block_fp \<Rightarrow> block_fp \<Rightarrow> json" where
  "pair_row x y = (let s = block_similarity x y
     in block_row (if lit 999 1000 \<le> s then ''equal'' else ''modified'') (Some x) (Some y) (Some s))"

definition diff_rows :: "f64 \<Rightarrow> block_fp list \<Rightarrow> block_fp list \<Rightarrow> json list" where
  "diff_rows threshold a b =
     (let pairs = block_pairs threshold a b in
      map (\<lambda>(ai, bi). pair_row (a ! ai) (b ! bi)) pairs
      @ map (\<lambda>(_, x). block_row ''removed'' (Some x) None None) (filter (\<lambda>(ai, _). ai \<notin> set (map fst pairs)) (enumerate0 a))
      @ map (\<lambda>(_, y). block_row ''added'' None (Some y) None) (filter (\<lambda>(bi, _). bi \<notin> set (map snd pairs)) (enumerate0 b)))"

definition row_rank :: "string \<Rightarrow> nat" where
  "row_rank k = (if k = ''equal'' then 0 else if k = ''modified'' then 1 else if k = ''removed'' then 2 else 3)"

definition row_key :: "json \<Rightarrow> nat \<times> string" where
  "row_key r = (row_rank (unwrap_or (as_str (jidx r ''kind'')) []), unwrap_or (as_str (jidx (jidx r ''a'') ''ea'')) [])"

definition count_kind :: "string \<Rightarrow> json list \<Rightarrow> nat" where
  "count_kind k rows = length (filter (\<lambda>r. jidx r ''kind'' = JStr k) rows)"

definition diff_blocks :: "block_fp list \<Rightarrow> block_fp list \<Rightarrow> f64 \<Rightarrow> nat \<Rightarrow> json" where
  "diff_blocks a b threshold max_rows =
     (let all = sort_key row_key (diff_rows threshold a b); rows = take max_rows all in JObj [
       (''blocks_a'', jn (length a)), (''blocks_b'', jn (length b)),
       (''equal'', jn (count_kind ''equal'' rows)), (''modified'', jn (count_kind ''modified'' rows)),
       (''added'', jn (count_kind ''added'' rows)), (''removed'', jn (count_kind ''removed'' rows)),
       (''rows'', JArr rows), (''truncated'', JBool (max_rows < length all))])"

definition diff_function ::
  "graph_reader \<times> function_reader \<times> disassembler \<Rightarrow> graph_reader \<times> function_reader \<times> disassembler \<Rightarrow>
   u64 \<Rightarrow> u64 \<Rightarrow> nat \<Rightarrow> f64 \<Rightarrow> json result" where
  "diff_function da db ea_a ea_b max_blocks threshold = (case (da, db) of ((ga, fa, ia), (gb, fb, ib)) \<Rightarrow>
     if \<not> is_ok (fa ea_a) then Inl (Worker (''db A: no function at '' @ hex_alt ea_a))
     else if \<not> is_ok (fb ea_b) then Inl (Worker (''db B: no function at '' @ hex_alt ea_b))
     else rbind (function_block_fingerprints ga fa ia ea_a max_blocks) (\<lambda>(xs, ta).
       rmap (\<lambda>(ys, tb).
         let out = diff_blocks xs ys threshold (max_blocks * 4);
             out = jset (jset out ''ea_a'' (JStr (hex_alt ea_a))) ''ea_b'' (JStr (hex_alt ea_b))
         in jset out ''truncated'' (JBool (ta \<or> tb \<or> unwrap_or (as_bool (jidx out ''truncated'')) False)))
       (function_block_fingerprints gb fb ib ea_b max_blocks)))"

section \<open>Fingerprints as JSON\<close>

definition diff_parse_ea :: "string \<Rightarrow> u64 result" where
  "diff_parse_ea s =
     (let t = trim s in
      rmap_err (\<lambda>e. Worker (''bad ea '' @ quoted s @ '': '' @ e))
        (case (case strip_prefix t ''0x'' of Some h \<Rightarrow> Some h | None \<Rightarrow> strip_prefix t ''0X'') of
           Some h \<Rightarrow> parse_u64_radix 16 h
         | None \<Rightarrow> parse_u64_radix 10 t))"

definition hex_field :: "json \<Rightarrow> string \<Rightarrow> u64" where
  "hex_field r k = (case parse_u64_radix 16 (unwrap_or (as_str (jidx r k)) ''0'') of Inr v \<Rightarrow> v | Inl _ \<Rightarrow> 0)"

definition count_field :: "json \<Rightarrow> string \<Rightarrow> nat" where
  "count_field r k = unat (unwrap_or (as_u64 (jidx r k)) 0)"

definition parse_fn_blocks :: "json \<Rightarrow> block_fp list result" where
  "parse_fn_blocks f = rcollect (map (\<lambda>r. rmap (\<lambda>ea.
       \<lparr>bf_ea = ea, bf_mnemonic_hash = hex_field r ''mnemonic_hash'', bf_const_hash = hex_field r ''const_hash'',
        bf_const_count = count_field r ''const_count'', bf_out_edges = count_field r ''out_edges'',
        bf_in_edges = count_field r ''in_edges'', bf_insn_count = count_field r ''insn_count''\<rparr>)
       (diff_parse_ea (unwrap_or (as_str (jidx r ''ea'')) ''0'')))
     (unwrap_or (as_array (jidx f ''blocks'')) []))"

definition block_fp_json :: "block_fp \<Rightarrow> json" where
  "block_fp_json fp = JObj [(''ea'', JStr (hex_alt (bf_ea fp))), (''mnemonic_hash'', JStr (hex16 (bf_mnemonic_hash fp))),
     (''const_hash'', JStr (hex16 (bf_const_hash fp))), (''const_count'', jn (bf_const_count fp)),
     (''out_edges'', jn (bf_out_edges fp)), (''in_edges'', jn (bf_in_edges fp)), (''insn_count'', jn (bf_insn_count fp))]"

section \<open>Pairing the functions of two binaries\<close>

record evidence =
  ev_size :: u64
  ev_constants :: "u64 list"
  ev_strings :: "string list"
  ev_imports :: "string list"

definition evidence_of :: "json \<Rightarrow> evidence" where
  "evidence_of f = (let e = jidx f ''evidence'';
       items = (\<lambda>k. unwrap_or (as_array (jidx e k)) [])
     in \<lparr>ev_size = unwrap_or (as_u64 (jidx e ''size'')) 0, ev_constants = List.map_filter as_u64 (items ''constants''),
         ev_strings = List.map_filter as_str (items ''strings''), ev_imports = List.map_filter as_str (items ''imports'')\<rparr>)"

definition jaccard :: "u64 list \<Rightarrow> u64 list \<Rightarrow> f64" where
  "jaccard a b =
     (if a = [] \<and> b = [] then f_one
      else if a = [] \<or> b = [] then lit 25 100
      else f_div (f64_of (card (set a \<inter> set b))) (f64_of (max (card (set a \<union> set b)) 1)))"

definition size_closeness :: "u64 \<Rightarrow> u64 \<Rightarrow> f64" where
  "size_closeness x y = f_clamp f_zero f_one (f_sub f_one
     (f_div (f64_of (unat (saturating_sub (max x y) (min x y)))) (f64_of (unat (max (max x y) 1)))))"

definition fam_sim :: "evidence \<Rightarrow> evidence \<Rightarrow> f64" where
  "fam_sim x y = f_add (f_add (f_add
     (f_mul (lit 30 100) (jaccard (map fnv1a64 (ev_imports x)) (map fnv1a64 (ev_imports y))))
     (f_mul (lit 25 100) (jaccard (ev_constants x) (ev_constants y))))
     (f_mul (lit 25 100) (jaccard (map fnv1a64 (ev_strings x)) (map fnv1a64 (ev_strings y)))))
     (f_mul (lit 20 100) (size_closeness (ev_size x) (ev_size y)))"

text \<open>Stage 1 pairs by name; the map keeps the last function of a name and gives each away once.\<close>

definition functions_by_name :: "json list \<Rightarrow> (string, json) btree" where
  "functions_by_name fb = foldl (\<lambda>m f. case as_str (jidx f ''name'') of Some n \<Rightarrow> bt_insert n f m | None \<Rightarrow> m) [] fb"

fun name_loop :: "json list \<Rightarrow> (string, json) btree \<Rightarrow> (json \<times> json) list \<Rightarrow> json list \<Rightarrow> (json \<times> json) list \<times> json list \<times> (string, json) btree" where
  "name_loop [] by_name pairs leftovers = (pairs, leftovers, by_name)"
| "name_loop (f # fs) by_name pairs leftovers =
     (case as_str (jidx f ''name'') of
        None \<Rightarrow> name_loop fs by_name pairs (leftovers @ [f])
      | Some n \<Rightarrow> (case bt_get by_name n of
          Some g \<Rightarrow> name_loop fs (bt_remove n by_name) (pairs @ [(f, g)]) leftovers
        | None \<Rightarrow> name_loop fs by_name pairs (leftovers @ [f])))"

text \<open>Stage 2: the best of the remaining functions, which stay available to the next.\<close>

fun best_function :: "evidence \<Rightarrow> json list \<Rightarrow> (json \<times> f64) option \<Rightarrow> (json \<times> f64) option" where
  "best_function ev [] best = best"
| "best_function ev (g # gs) best =
     (let s = fam_sim ev (evidence_of g) in
      if lit 6 10 \<le> s \<and> (case best of None \<Rightarrow> True | Some (_, bs) \<Rightarrow> bs < s)
      then best_function ev gs (Some (g, s)) else best_function ev gs best)"

definition function_pairs :: "json list \<Rightarrow> json list \<Rightarrow> (json \<times> json) list" where
  "function_pairs fa fb =
     (case name_loop fa (functions_by_name fb) [] [] of (pairs, leftovers, by_name) \<Rightarrow>
        pairs @ List.map_filter (\<lambda>f. map_option (\<lambda>(g, _). (f, g)) (best_function (evidence_of f) (map snd by_name) None)) leftovers)"

definition unchanged :: "json \<Rightarrow> bool" where
  "unchanged d \<longleftrightarrow> count_field d ''modified'' = 0 \<and> count_field d ''added'' = 0 \<and> count_field d ''removed'' = 0"

definition changed_row :: "json \<Rightarrow> json \<Rightarrow> json \<Rightarrow> json" where
  "changed_row f g d = JObj [(''name'', jidx f ''name''), (''name_b'', jidx g ''name''), (''ea_a'', jidx f ''ea''),
     (''ea_b'', jidx g ''ea''), (''modified'', jidx d ''modified''), (''added'', jidx d ''added''),
     (''removed'', jidx d ''removed''), (''rows'', jidx d ''rows'')]"

definition diff_binary_json :: "json list \<Rightarrow> json list \<Rightarrow> f64 \<Rightarrow> nat \<Rightarrow> json result" where
  "diff_binary_json fa fb threshold max_blocks =
     (let pairs = function_pairs fa fb in
      rmap (\<lambda>diffs. JObj [
          (''matched_functions'', jn (length pairs)), (''equal'', jn (length (filter (\<lambda>(_, _, d). unchanged d) diffs))),
          (''changed'', JArr (map (\<lambda>(f, g, d). changed_row f g d) (filter (\<lambda>(_, _, d). \<not> unchanged d) diffs))),
          (''pairing'', JStr ''name + evidence-similarity fallback (stripped builds pair by evidence)'')])
        (rcollect (map (\<lambda>(f, g).
           rbind (parse_fn_blocks f) (\<lambda>xs. rmap (\<lambda>ys. (f, g, diff_blocks xs ys threshold (max_blocks * 4))) (parse_fn_blocks g))) pairs)))"

definition diff_from_json :: "json \<Rightarrow> json \<Rightarrow> f64 \<Rightarrow> nat \<Rightarrow> json result" where
  "diff_from_json a b threshold max_blocks =
     (case (as_array (jidx a ''functions''), as_array (jidx b ''functions'')) of
        (Some fa, Some fb) \<Rightarrow> diff_binary_json fa fb threshold max_blocks
      | _ \<Rightarrow> rbind (parse_fn_blocks a) (\<lambda>xs. rmap (\<lambda>ys.
          let out = diff_blocks xs ys threshold (max_blocks * 4);
              out = (case as_str (jidx a ''ea'') of Some ea \<Rightarrow> jset out ''ea_a'' (JStr ea) | None \<Rightarrow> out)
          in (case as_str (jidx b ''ea'') of Some ea \<Rightarrow> jset out ''ea_b'' (JStr ea) | None \<Rightarrow> out)) (parse_fn_blocks b)))"

section \<open>The mapping is one to one\<close>

text \<open>Pairs of block indices in which no block occurs twice, each justified by equal shape hashes or by similarity.\<close>

definition one_to_one :: "f64 \<Rightarrow> block_fp list \<Rightarrow> block_fp list \<Rightarrow> (nat \<times> nat) list \<Rightarrow> bool" where
  "one_to_one threshold a b pairs \<longleftrightarrow> distinct (map fst pairs) \<and> distinct (map snd pairs) \<and>
     (\<forall>(ai, bi) \<in> set pairs. ai < length a \<and> bi < length b \<and>
        (shape_hash (a ! ai) = shape_hash (b ! bi) \<or> threshold \<le> block_similarity (a ! ai) (b ! bi)))"

lemma matching_snoc:
  "one_to_one th a b pairs \<Longrightarrow> ai \<notin> set (map fst pairs) \<Longrightarrow> bi \<notin> set (map snd pairs) \<Longrightarrow> ai < length a \<Longrightarrow> bi < length b \<Longrightarrow>
   shape_hash (a ! ai) = shape_hash (b ! bi) \<or> th \<le> block_similarity (a ! ai) (b ! bi) \<Longrightarrow> one_to_one th a b (pairs @ [(ai, bi)])"
  by (auto simp: one_to_one_def)

text \<open>The stacks of pass 1 hold free blocks of \<open>b\<close>, each under its own hash.\<close>

definition stacks_ok :: "block_fp list \<Rightarrow> (u64 \<Rightarrow> nat list) \<Rightarrow> (nat \<times> nat) list \<Rightarrow> bool" where
  "stacks_ok b stacks pairs \<longleftrightarrow> (\<forall>h. distinct (stacks h) \<and> set (stacks h) \<inter> set (map snd pairs) = {} \<and>
     (\<forall>bi \<in> set (stacks h). bi < length b \<and> shape_hash (b ! bi) = h))"

lemma stacks_ok_pop:
  assumes "stacks_ok b stacks pairs" "stacks h \<noteq> []"
  shows "stacks_ok b (stacks(h := butlast (stacks h))) (pairs @ [(ai, last (stacks h))])"
proof -
  let ?s = "stacks h"
  have s: "?s = butlast ?s @ [last ?s]" using assms(2) by simp
  have d: "distinct ?s" and own: "\<And>k bi. bi \<in> set (stacks k) \<Longrightarrow> shape_hash (b ! bi) = k"
    using assms(1) by (auto simp: stacks_ok_def)
  have "last ?s \<notin> set (butlast ?s)" using d s by (metis distinct_append disjoint_iff list.set_intros(1))
  moreover have "last ?s \<notin> set (stacks k)" if "k \<noteq> h" for k using own [of "last ?s" k] own [of "last ?s" h] that last_in_set [OF assms(2)] by auto
  moreover have "distinct (butlast ?s)" using d by (rule distinct_butlast)
  moreover have "(i, bi) \<notin> set pairs" if "bi \<in> set (butlast ?s)" for i bi
    using assms(1) in_set_butlastD [OF that] unfolding stacks_ok_def by force
  ultimately show ?thesis using assms(1) unfolding stacks_ok_def by (auto dest: in_set_butlastD)
qed

lemma by_shape_ok: "stacks_ok b (by_shape b) []"
proof -
  have d: "distinct (map fst (enumerate0 b))" by (simp add: enumerate0_def)
  have "distinct (by_shape b h)" for h unfolding by_shape_def by (rule distinct_map_filter) (rule d)
  moreover have "bi < length b \<and> shape_hash (b ! bi) = h" if "bi \<in> set (by_shape b h)" for bi h
    using that by (auto simp: by_shape_def enumerate0_def in_set_enumerate_eq)
  ultimately show ?thesis by (simp add: stacks_ok_def)
qed

lemma exact_loop_matching:
  "one_to_one th a b pairs \<Longrightarrow> stacks_ok b stacks pairs \<Longrightarrow> \<forall>(ai, x) \<in> set as. ai < length a \<and> a ! ai = x \<Longrightarrow>
   distinct (map fst as) \<Longrightarrow> set (map fst as) \<inter> set (map fst pairs) = {} \<Longrightarrow> one_to_one th a b (exact_loop stacks as pairs)"
proof (induction as arbitrary: stacks pairs)
  case (Cons p as)
  obtain ai x where p: "p = (ai, x)" by fastforce
  let ?h = "shape_hash x"
  show ?case
  proof (cases "stacks ?h = []")
    case True
    with Cons p show ?thesis by simp
  next
    case False
    then have l: "last (stacks ?h) \<in> set (stacks ?h)" by simp
    with Cons.prems(2) have bi: "last (stacks ?h) < length b" "shape_hash (b ! last (stacks ?h)) = ?h" "last (stacks ?h) \<notin> set (map snd pairs)"
      unfolding stacks_ok_def by blast+
    have "one_to_one th a b (pairs @ [(ai, last (stacks ?h))])"
      using Cons.prems p bi by (intro matching_snoc) auto
    moreover have "stacks_ok b (stacks(?h := butlast (stacks ?h))) (pairs @ [(ai, last (stacks ?h))])"
      by (rule stacks_ok_pop [OF Cons.prems(2) False])
    moreover have "\<forall>(ai, x) \<in> set as. ai < length a \<and> a ! ai = x" "distinct (map fst as)"
      "set (map fst as) \<inter> set (map fst (pairs @ [(ai, last (stacks ?h))])) = {}" using Cons.prems p by auto
    ultimately have "one_to_one th a b (exact_loop (stacks(?h := butlast (stacks ?h))) as (pairs @ [(ai, last (stacks ?h))]))" by (rule Cons.IH)
    with False p show ?thesis by (simp add: Let_def)
  qed
qed simp

lemma best_block_ok:
  assumes "best_block th used x ys best = Some (bi, s)" "\<forall>(i, y) \<in> set ys. i < length b \<and> b ! i = y"
    "\<forall>i s. best = Some (i, s) \<longrightarrow> i \<notin> set used \<and> i < length b \<and> th \<le> block_similarity x (b ! i)"
  shows "bi \<notin> set used \<and> bi < length b \<and> th \<le> block_similarity x (b ! bi)"
  using assms
proof (induction ys arbitrary: best)
  case (Cons q ys)
  obtain i y where q: "q = (i, y)" by fastforce
  then have y: "i < length b" "b ! i = y" using Cons.prems(2) by auto
  from Cons.prems(1) q have "best_block th used x ys best = Some (bi, s) \<or>
      i \<notin> set used \<and> th \<le> block_similarity x y \<and> best_block th used x ys (Some (i, block_similarity x y)) = Some (bi, s)"
    by (auto simp: Let_def not_less split: if_splits)
  then show ?case using Cons.IH [of best] Cons.IH [of "Some (i, block_similarity x y)"] Cons.prems(2, 3) y by auto
qed simp

lemma greedy_loop_matching:
  "one_to_one th a b pairs \<Longrightarrow> \<forall>(ai, x) \<in> set as. ai < length a \<and> a ! ai = x \<Longrightarrow> one_to_one th a b (greedy_loop th b as pairs)"
proof (induction as arbitrary: pairs)
  case (Cons p as)
  obtain ai x where p: "p = (ai, x)" by fastforce
  have rest: "\<forall>(ai, x) \<in> set as. ai < length a \<and> a ! ai = x" using Cons.prems(2) by simp
  show ?case
  proof (cases "ai \<in> set (map fst pairs) \<or> best_block th (map snd pairs) x (enumerate0 b) None = None")
    case True
    then have "greedy_loop th b (p # as) pairs = greedy_loop th b as pairs" using p by auto
    with Cons.IH [OF Cons.prems(1) rest] show ?thesis by simp
  next
    case False
    then obtain bi s where b: "best_block th (map snd pairs) x (enumerate0 b) None = Some (bi, s)" by auto
    have "\<forall>(i, y) \<in> set (enumerate0 b). i < length b \<and> b ! i = y" by (auto simp: enumerate0_def in_set_enumerate_eq)
    from best_block_ok [OF b this] have "bi \<notin> set (map snd pairs)" "bi < length b" "th \<le> block_similarity x (b ! bi)" by simp_all
    with Cons.prems p False have "one_to_one th a b (pairs @ [(ai, bi)])" by (intro matching_snoc) auto
    from Cons.IH [OF this rest] p b False show ?thesis by simp
  qed
qed simp

lemma block_pairs_matching: "one_to_one th a b (block_pairs th a b)"
proof -
  have e: "\<forall>(ai, x) \<in> set (enumerate0 a). ai < length a \<and> a ! ai = x" by (auto simp: enumerate0_def in_set_enumerate_eq)
  have "one_to_one th a b (exact_loop (by_shape b) (enumerate0 a) [])"
    by (rule exact_loop_matching [OF _ by_shape_ok e]) (simp_all add: one_to_one_def enumerate0_def)
  then show ?thesis unfolding block_pairs_def by (rule greedy_loop_matching [OF _ e])
qed

section \<open>What a diff reports\<close>

lemma block_row_kind [simp]: "jidx (block_row k a b s) ''kind'' = JStr k"
  by (simp add: block_row_def)

lemma count_kind_simps [simp]:
  "count_kind k [] = 0" "count_kind k (r # rs) = (if jidx r ''kind'' = JStr k then 1 else 0) + count_kind k rs"
  "count_kind k (xs @ ys) = count_kind k xs + count_kind k ys"
  by (simp_all add: count_kind_def)

lemma count_unpaired:
  "count_kind k (map (\<lambda>(_, x). block_row k' (Some x) None None) xs) = (if k = k' then length xs else 0)"
  "count_kind k (map (\<lambda>(_, x). block_row k' None (Some x) None) xs) = (if k = k' then length xs else 0)"
  by (induction xs; force)+

lemma count_kind_sort: "count_kind k (sort_key f rows) = count_kind k rows"
  unfolding count_kind_def by (metis mset_filter mset_sort size_mset)

lemma pair_row_kind [simp]:
  "jidx (pair_row x y) ''kind'' = JStr (if lit 999 1000 \<le> block_similarity x y then ''equal'' else ''modified'')"
  by (simp add: pair_row_def Let_def)

lemma count_pairs:
  "count_kind ''equal'' (map (\<lambda>(ai, bi). pair_row (a ! ai) (b ! bi)) pairs) + count_kind ''modified'' (map (\<lambda>(ai, bi). pair_row (a ! ai) (b ! bi)) pairs) = length pairs"
  "count_kind ''added'' (map (\<lambda>(ai, bi). pair_row (a ! ai) (b ! bi)) pairs) = 0"
  "count_kind ''removed'' (map (\<lambda>(ai, bi). pair_row (a ! ai) (b ! bi)) pairs) = 0"
  by (induction pairs; force)+

lemma unpaired_length:
  assumes "distinct is" "set is \<subseteq> {..<length xs}"
  shows "length (filter (\<lambda>(i, _). i \<notin> set is) (enumerate0 xs)) + length is = length xs"
proof -
  have "length (filter (\<lambda>(i, _). i \<notin> set is) (enumerate0 xs)) = length (filter (\<lambda>i. i \<notin> set is) (map fst (enumerate0 xs)))"
    by (simp add: filter_map comp_def case_prod_unfold)
  also have "\<dots> = card ({..<length xs} - set is)"
    by (subst distinct_card [symmetric]) (auto simp: enumerate0_def set_diff_eq intro!: arg_cong [of _ _ card])
  also have "\<dots> = length xs - length is" using assms by (simp add: card_Diff_subset distinct_card)
  finally show ?thesis using assms card_mono [OF _ assms(2)] by (simp add: distinct_card)
qed

lemma diff_blocks_fields:
  fixes a b th mx
  defines "rows \<equiv> take mx (sort_key row_key (diff_rows th a b))"
  shows "jidx (diff_blocks a b th mx) ''equal'' = jn (count_kind ''equal'' rows)"
    "jidx (diff_blocks a b th mx) ''modified'' = jn (count_kind ''modified'' rows)"
    "jidx (diff_blocks a b th mx) ''added'' = jn (count_kind ''added'' rows)"
    "jidx (diff_blocks a b th mx) ''removed'' = jn (count_kind ''removed'' rows)"
    "jidx (diff_blocks a b th mx) ''truncated'' = JBool (mx < length (diff_rows th a b))"
  by (simp_all add: diff_blocks_def rows_def Let_def)

lemma count_field_jn: "jidx d k = jn n \<Longrightarrow> n < 2 ^ 64 \<Longrightarrow> count_field d k = n"
  by (simp add: count_field_def jn_def unwrap_or_def unat_of_nat take_bit_nat_eq_self)

lemma unpaired_blocks:
  "length (filter (\<lambda>(i, _). i \<notin> set (map fst (block_pairs th a b))) (enumerate0 a)) + length (block_pairs th a b) = length a"
  "length (filter (\<lambda>(i, _). i \<notin> set (map snd (block_pairs th a b))) (enumerate0 b)) + length (block_pairs th a b) = length b"
proof -
  note m = block_pairs_matching [of th a b]
  have "set (map fst (block_pairs th a b)) \<subseteq> {..<length a}" "set (map snd (block_pairs th a b)) \<subseteq> {..<length b}"
    using m by (auto simp: one_to_one_def)
  then show "length (filter (\<lambda>(i, _). i \<notin> set (map fst (block_pairs th a b))) (enumerate0 a)) + length (block_pairs th a b) = length a"
    "length (filter (\<lambda>(i, _). i \<notin> set (map snd (block_pairs th a b))) (enumerate0 b)) + length (block_pairs th a b) = length b"
    using m unpaired_length [of "map fst (block_pairs th a b)" a] unpaired_length [of "map snd (block_pairs th a b)" b]
    unfolding one_to_one_def by simp_all
qed

lemma diff_rows_length: "length (diff_rows th a b) \<le> length a + length b"
  using unpaired_blocks [of th a b] by (simp add: diff_rows_def Let_def)

lemma row_counts:
  "count_kind ''removed'' (diff_rows th a b) + length (block_pairs th a b) = length a"
  "count_kind ''added'' (diff_rows th a b) + length (block_pairs th a b) = length b"
  "count_kind ''equal'' (diff_rows th a b) + count_kind ''modified'' (diff_rows th a b) = length (block_pairs th a b)"
  using unpaired_blocks [of th a b] count_pairs [of a b "block_pairs th a b"]
  unfolding diff_rows_def Let_def count_kind_simps count_unpaired by simp_all

text \<open>
  C25: The block diff of two functions pairs blocks one to one: no block of either side is paired twice, and every pair has equal shape hashes or
  at least the threshold similarity; this holds always. Provided that the diff does not report its rows as truncated, every block
  is accounted for once: equal, modified and removed blocks make up the first function, equal, modified and added ones the second. (The counts
  are taken from the rows after the cut, so nothing is claimed of a truncated diff; see \<open>truncated_diff_looks_unchanged\<close>.)
\<close>
theorem diff_accounts_for_every_block:
  assumes "d = diff_blocks a b threshold max_rows" "length a < 2 ^ 64" "length b < 2 ^ 64"
  shows "one_to_one threshold a b (block_pairs threshold a b) \<and>
    (jidx d ''truncated'' = JBool False \<longrightarrow>
      count_field d ''equal'' + count_field d ''modified'' = length (block_pairs threshold a b) \<and>
      count_field d ''equal'' + count_field d ''modified'' + count_field d ''removed'' = length a \<and>
      count_field d ''equal'' + count_field d ''modified'' + count_field d ''added'' = length b)"
proof (intro conjI impI)
  let ?rows = "diff_rows threshold a b"
  note c = row_counts [of threshold a b]
  show "one_to_one threshold a b (block_pairs threshold a b)" by (rule block_pairs_matching)
  assume "jidx d ''truncated'' = JBool False"
  then have "length (sort_key row_key ?rows) \<le> max_rows" using assms(1) by (simp add: diff_blocks_fields)
  then have t: "take max_rows (sort_key row_key ?rows) = sort_key row_key ?rows" by simp
  note fields = diff_blocks_fields [of a b threshold max_rows, folded assms(1), unfolded t count_kind_sort]
  have "count_field d ''equal'' = count_kind ''equal'' ?rows" by (rule count_field_jn [OF fields(1)]) (use c assms(2) in linarith)
  moreover have "count_field d ''modified'' = count_kind ''modified'' ?rows" by (rule count_field_jn [OF fields(2)]) (use c assms(2) in linarith)
  moreover have "count_field d ''added'' = count_kind ''added'' ?rows" by (rule count_field_jn [OF fields(3)]) (use c assms(3) in linarith)
  moreover have "count_field d ''removed'' = count_kind ''removed'' ?rows" by (rule count_field_jn [OF fields(4)]) (use c assms(2) in linarith)
  ultimately show "count_field d ''equal'' + count_field d ''modified'' = length (block_pairs threshold a b)"
    "count_field d ''equal'' + count_field d ''modified'' + count_field d ''removed'' = length a"
    "count_field d ''equal'' + count_field d ''modified'' + count_field d ''added'' = length b"
    using c by linarith+
qed

definition two_blocks :: "block_fp list" where
  "two_blocks = [\<lparr>bf_ea = 0x1000, bf_mnemonic_hash = 1, bf_const_hash = 2, bf_const_count = 0, bf_out_edges = 1, bf_in_edges = 0, bf_insn_count = 3\<rparr>,
     \<lparr>bf_ea = 0x1010, bf_mnemonic_hash = 5, bf_const_hash = 2, bf_const_count = 0, bf_out_edges = 0, bf_in_edges = 1, bf_insn_count = 2\<rparr>]"

theorem diff_accounts_for_every_block_witness:
  "\<exists>d. d = diff_blocks two_blocks [hd two_blocks] f_one 8 \<and> jidx d ''truncated'' = JBool False \<and>
     count_field d ''equal'' + count_field d ''modified'' + count_field d ''removed'' = 2 \<and>
     count_field d ''equal'' + count_field d ''modified'' + count_field d ''added'' = 1"
proof -
  have "length (diff_rows f_one two_blocks [hd two_blocks]) \<le> 8"
    using diff_rows_length [of f_one two_blocks "[hd two_blocks]"] by (simp add: two_blocks_def)
  then have "jidx (diff_blocks two_blocks [hd two_blocks] f_one 8) ''truncated'' = JBool False" by (simp add: diff_blocks_fields)
  with diff_accounts_for_every_block [of _ two_blocks "[hd two_blocks]" f_one 8] show ?thesis by (simp add: two_blocks_def)
qed

section \<open>A function compared with itself\<close>

lemma block_similarity_score: "is_score (block_similarity x y)"
proof -
  have b: "is_score (f_bool p)" for p by (simp add: f_bool_def)
  let ?m = "\<lambda>w p. f_mul (lit w 10) (f_bool p)"
  have f: "is_f64 (?m 6 p)" "is_f64 (?m 2 p)" "?m 6 p \<le> lit 6 10" "?m 2 p \<le> lit 2 10" for p
    using b [of p] f_mul_mono [of "lit 6 10" "f_bool p" "lit 6 10" f_one] f_mul_mono [of "lit 2 10" "f_bool p" "lit 2 10" f_one]
    by (simp_all add: f_mul_f64 lit_f64 is_score_iff f_mul_1)
  then show ?thesis unfolding block_similarity_def is_score_iff weights_sum(2) [symmetric]
    by (intro conjI f_add_mono f_add_f64) (auto intro: f_add_f64 simp: f)
qed

definition same_fp :: "block_fp \<Rightarrow> block_fp \<Rightarrow> bool" where
  "same_fp x y \<longleftrightarrow> bf_mnemonic_hash x = bf_mnemonic_hash y \<and> bf_const_hash x = bf_const_hash y \<and>
     bf_out_edges x = bf_out_edges y \<and> bf_in_edges x = bf_in_edges y"

lemma same_fp_similarity: "same_fp x y \<Longrightarrow> block_similarity x y = f_one"
  by (simp add: same_fp_def block_similarity_def f_bool_def f_mul_1 lit_f64 weights_sum)

lemma exact_loop_total:
  "\<forall>h. length (filter (\<lambda>(_, x). shape_hash x = h) as) \<le> length (stacks h) \<Longrightarrow>
   map fst (exact_loop stacks as pairs) = map fst pairs @ map fst as"
proof (induction as arbitrary: stacks pairs)
  case (Cons p as)
  obtain ai x where p: "p = (ai, x)" by fastforce
  let ?h = "shape_hash x"
  have len: "length (filter (\<lambda>(_, x). shape_hash x = h) as) + (if h = ?h then 1 else 0) \<le> length (stacks h)" for h
    using Cons.prems [rule_format, of h] p by (auto split: if_splits)
  from len [of ?h] have ne: "stacks ?h \<noteq> []" by auto
  have "\<forall>h. length (filter (\<lambda>(_, x). shape_hash x = h) as) \<le> length ((stacks(?h := butlast (stacks ?h))) h)"
  proof
    fix h show "length (filter (\<lambda>(_, x). shape_hash x = h) as) \<le> length ((stacks(?h := butlast (stacks ?h))) h)"
      using len [of h] by (cases "h = ?h") auto
  qed
  from Cons.IH [OF this, of "pairs @ [(ai, last (stacks ?h))]"] ne p show ?case by (simp add: Let_def del: fun_upd_apply)
qed simp

lemma greedy_loop_idle: "set (map fst as) \<subseteq> set (map fst pairs) \<Longrightarrow> greedy_loop th b as pairs = pairs"
  by (induction th b as pairs rule: greedy_loop.induct) auto

lemma self_pairs:
  "map fst (block_pairs th a a) = [0..<length a]" "block_pairs th a a = exact_loop (by_shape a) (enumerate0 a) []"
proof -
  have "\<forall>h. length (filter (\<lambda>(_, x). shape_hash x = h) (enumerate0 a)) \<le> length (by_shape a h)" by (simp add: by_shape_def)
  from exact_loop_total [OF this, of "[]"] have e: "map fst (exact_loop (by_shape a) (enumerate0 a) []) = [0..<length a]"
    by (simp add: enumerate0_def)
  then have "set (map fst (enumerate0 a)) \<subseteq> set (map fst (exact_loop (by_shape a) (enumerate0 a) []))" by (simp add: enumerate0_def)
  then show x: "block_pairs th a a = exact_loop (by_shape a) (enumerate0 a) []" unfolding block_pairs_def by (rule greedy_loop_idle)
  show "map fst (block_pairs th a a) = [0..<length a]" using e by (simp only: x)
qed

lemma self_pairs_same_hash: "(ai, bi) \<in> set (block_pairs th a a) \<Longrightarrow> ai < length a \<and> bi < length a \<and> shape_hash (a ! ai) = shape_hash (a ! bi)"
proof -
  assume p: "(ai, bi) \<in> set (block_pairs th a a)"
  let ?above = "F64 (f64_unit + 1)"
  have "\<not> ?above \<le> block_similarity x y" for x y
    using block_similarity_score [of x y] by (cases "block_similarity x y") (simp add: is_score_iff)
  with block_pairs_matching [of ?above a a] show ?thesis using p self_pairs(2) [of th a] self_pairs(2) [of ?above a]
    by (auto simp: one_to_one_def)
qed

text \<open>
  A function compared with itself is unchanged: unless two of its blocks collide in their shape hash, the diff pairs every block,
  reports all of them equal and none modified, added or removed.
\<close>
lemma self_diff_is_unchanged:
  assumes "\<forall>x \<in> set a. \<forall>y \<in> set a. shape_hash x = shape_hash y \<longrightarrow> same_fp x y" "length a \<le> max_rows" "length a < 2 ^ 64"
  shows "count_field (diff_blocks a a threshold max_rows) ''equal'' = length a \<and> unchanged (diff_blocks a a threshold max_rows)"
proof -
  let ?pairs = "block_pairs threshold a a" and ?rows = "diff_rows threshold a a"
  have fst: "map fst ?pairs = [0..<length a]" by (rule self_pairs)
  have snd: "set (map snd ?pairs) = {..<length a}"
  proof (rule card_subset_eq)
    show "set (map snd ?pairs) \<subseteq> {..<length a}" using block_pairs_matching [of threshold a a] by (auto simp: one_to_one_def)
    have "card (set (map snd ?pairs)) = length (map snd ?pairs)" using block_pairs_matching [of threshold a a] by (intro distinct_card) (simp add: one_to_one_def)
    then show "card (set (map snd ?pairs)) = card {..<length a}" using arg_cong [OF fst, of length] by simp
  qed simp
  have "filter (\<lambda>(i, _). i \<notin> set (map fst ?pairs)) (enumerate0 a) = []" "filter (\<lambda>(i, _). i \<notin> set (map snd ?pairs)) (enumerate0 a) = []"
    unfolding fst snd by (auto simp: filter_empty_conv enumerate0_def in_set_enumerate_eq)
  then have rows: "?rows = map (\<lambda>(ai, bi). pair_row (a ! ai) (a ! bi)) ?pairs" by (simp add: diff_rows_def Let_def del: set_map)
  have "lit 999 1000 \<le> f_one" using lit_mono [of 999 1000 1 1] lit_1 [of 1] by simp
  then have "jidx (pair_row (a ! ai) (a ! bi)) ''kind'' = JStr ''equal''" if "(ai, bi) \<in> set ?pairs" for ai bi
    using self_pairs_same_hash [OF that] assms(1) by (simp add: same_fp_similarity)
  then have eq: "\<forall>r \<in> set ?rows. jidx r ''kind'' = JStr ''equal''" unfolding rows by auto
  then have k: "count_kind ''equal'' ?rows = length a" "count_kind ''modified'' ?rows = 0" "count_kind ''added'' ?rows = 0" "count_kind ''removed'' ?rows = 0"
    using arg_cong [OF fst, of length] rows by (simp_all add: count_kind_def filter_empty_conv)
  have "length ?rows \<le> max_rows" using rows arg_cong [OF fst, of length] assms(2) by simp
  then have t: "take max_rows (sort_key row_key ?rows) = sort_key row_key ?rows" by simp
  note fields = diff_blocks_fields [of a a threshold max_rows, unfolded t count_kind_sort k]
  show ?thesis unfolding unchanged_def using assms(3)
    by (simp add: count_field_jn [OF fields(1)] count_field_jn [OF fields(2)] count_field_jn [OF fields(3)] count_field_jn [OF fields(4)])
qed

text \<open>
  The counts are taken after the rows are cut. Rows are sorted with the equal ones first, so a pair with at least \<open>max_rows\<close> equal
  blocks is reported, and counted by the binary diff, as unchanged whatever else differs.
\<close>

lemma take_least:
  "sorted (map k xs) \<Longrightarrow> n \<le> length (filter P xs) \<Longrightarrow> \<forall>x \<in> set xs. \<forall>y \<in> set xs. P x \<longrightarrow> \<not> P y \<longrightarrow> k x < k y \<Longrightarrow> list_all P (take n xs)"
proof (induction xs arbitrary: n)
  case (Cons x xs)
  show ?case
  proof (cases "P x")
    case True
    with Cons show ?thesis by (cases n) auto
  next
    case False
    with Cons.prems have "filter P xs = []" by (fastforce simp: filter_empty_conv)
    with False Cons.prems(2) show ?thesis by simp
  qed
qed simp

lemma diff_rows_kind: "r \<in> set (diff_rows th a b) \<Longrightarrow> \<exists>k. jidx r ''kind'' = JStr k \<and> k \<in> {''equal'', ''modified'', ''removed'', ''added''}"
  by (auto simp: diff_rows_def Let_def)

lemma truncated_diff_looks_unchanged:
  assumes "max_rows \<le> count_kind ''equal'' (diff_rows th a b)"
  shows "unchanged (diff_blocks a b th max_rows)"
proof -
  let ?rows = "diff_rows th a b" and ?eq = "\<lambda>r. jidx r ''kind'' = JStr ''equal''"
  have "list_all ?eq (take max_rows (sort_key row_key ?rows))"
  proof (rule take_least)
    show "max_rows \<le> length (filter ?eq (sort_key row_key ?rows))" using assms count_kind_sort unfolding count_kind_def by metis
    show "\<forall>x \<in> set (sort_key row_key ?rows). \<forall>y \<in> set (sort_key row_key ?rows). ?eq x \<longrightarrow> \<not> ?eq y \<longrightarrow> row_key x < row_key y"
      by (auto simp: row_key_def row_rank_def unwrap_or_def dest!: diff_rows_kind)
  qed simp
  then have z: "count_kind ''modified'' (take max_rows (sort_key row_key ?rows)) = 0" "count_kind ''added'' (take max_rows (sort_key row_key ?rows)) = 0"
    "count_kind ''removed'' (take max_rows (sort_key row_key ?rows)) = 0"
    by (simp_all add: count_kind_def filter_empty_conv list_all_iff)
  note fields = diff_blocks_fields [of a b th max_rows, unfolded z]
  show ?thesis unfolding unchanged_def
    by (simp add: count_field_jn [OF fields(2)] count_field_jn [OF fields(3)] count_field_jn [OF fields(4)])
qed

section \<open>Fingerprints survive the trip between sessions\<close>

lemma parse_digits_padded: "parse_digits 16 (pad_left k (show_radix 16 n)) = Some n"
proof -
  let ?z = "k - length (show_radix 16 n)"
  have "pad_left k (show_radix 16 n) = map digit_char (replicate ?z 0 @ digits 16 n)"
    by (simp add: pad_left_def show_radix_def digit_char_table)
  then have "map (char_digit 16) (pad_left k (show_radix 16 n)) = map Some (replicate ?z 0 @ digits 16 n)"
    by (auto simp: char_digit_digit_char digits_bound)
  then have "those (map (char_digit 16) (pad_left k (show_radix 16 n))) = Some (replicate ?z 0 @ digits 16 n)"
    by (simp only: those_map_Some)
  moreover have "foldl (\<lambda>a d. a * 16 + d) 0 (replicate j 0) = (0 :: nat)" for j by (induction j) simp_all
  ultimately show ?thesis using from_digits_digits [of 16 n] by (simp add: parse_digits_def from_digits_def)
qed

lemma parse_hex16: "parse_u64_radix 16 (hex16 w) = Inr w"
proof -
  obtain c cs where c: "hex16 w = c # cs" "c \<noteq> CHR ''+''"
    using show_radix_no_plus [of 16 "unat w"] by (cases "16 - length (hex_lower w)"; cases "hex_lower w") (auto simp: hex16_def pad_left_def)
  then show ?thesis using parse_digits_padded [of 16 "unat w"] unat_u64_less [of w]
    by (simp add: parse_u64_radix_def from_str_radix_def hex16_def)
qed

lemma diff_parse_ea_hex: "diff_parse_ea (hex_alt w) = Inr w"
  by (simp add: diff_parse_ea_def Let_def) (simp add: hex_alt_def parse_u64_radix_show)

lemma hex_field_hex16: "jidx r k = JStr (hex16 w) \<Longrightarrow> hex_field r k = w"
  by (simp add: hex_field_def unwrap_or_def parse_hex16)

definition counts_fit :: "block_fp \<Rightarrow> bool" where
  "counts_fit x \<longleftrightarrow> bf_const_count x < 2 ^ 64 \<and> bf_out_edges x < 2 ^ 64 \<and> bf_in_edges x < 2 ^ 64 \<and> bf_insn_count x < 2 ^ 64"

text \<open>
  The block fingerprints one session exports are the ones the other session diffs: parsing the exported JSON gives them back.
\<close>
lemma fingerprints_roundtrip:
  assumes "list_all counts_fit fps"
  shows "parse_fn_blocks (JObj [(''ea'', JStr ea), (''blocks'', JArr (map block_fp_json fps)), (''truncated'', JBool t)]) = Inr fps"
proof -
  have "rmap (\<lambda>ea. \<lparr>bf_ea = ea, bf_mnemonic_hash = hex_field (block_fp_json x) ''mnemonic_hash'', bf_const_hash = hex_field (block_fp_json x) ''const_hash'',
        bf_const_count = count_field (block_fp_json x) ''const_count'', bf_out_edges = count_field (block_fp_json x) ''out_edges'',
        bf_in_edges = count_field (block_fp_json x) ''in_edges'', bf_insn_count = count_field (block_fp_json x) ''insn_count''\<rparr>)
      (diff_parse_ea (unwrap_or (as_str (jidx (block_fp_json x) ''ea'')) ''0'')) = Inr x" if "x \<in> set fps" for x
  proof -
    have "counts_fit x" using assms that by (simp add: list_all_iff)
    then have "count_field (block_fp_json x) ''const_count'' = bf_const_count x" "count_field (block_fp_json x) ''out_edges'' = bf_out_edges x"
      "count_field (block_fp_json x) ''in_edges'' = bf_in_edges x" "count_field (block_fp_json x) ''insn_count'' = bf_insn_count x"
      by (auto intro!: count_field_jn simp: block_fp_json_def counts_fit_def)
    moreover have "hex_field (block_fp_json x) ''mnemonic_hash'' = bf_mnemonic_hash x" "hex_field (block_fp_json x) ''const_hash'' = bf_const_hash x"
      by (rule hex_field_hex16; simp add: block_fp_json_def)+
    moreover have "diff_parse_ea (unwrap_or (as_str (jidx (block_fp_json x) ''ea'')) ''0'') = Inr (bf_ea x)"
      by (simp add: block_fp_json_def unwrap_or_def diff_parse_ea_hex)
    ultimately show ?thesis by simp
  qed
  then show ?thesis by (simp add: parse_fn_blocks_def unwrap_or_def rcollect_Inr_iff)
qed

end
