(* ===== verification/Workflow.thy ===== *)
theory Workflow
  imports Plan
begin

text \<open>
  \<open>crates/rmcp-worker/src/workflow.rs\<close>, but for its result cache (\<open>Worker_State\<close>): the request with its
  budgets and how it is read from JSON, and the six composite workflows over the backend and the
  index. Ordered sets are ordered maps to the unit value. The text \<open>serde\<close> gives for a request it
  cannot read is a parameter.
\<close>

section \<open>Requests\<close>

record workflow_request =
  wr_workflow :: string
  wr_ea :: "u64 option"
  wr_target_ea :: "u64 option"
  wr_name :: "string option"
  wr_roots :: "u64 list"
  wr_depth :: u32
  wr_max_functions :: u32
  wr_detail :: string
  wr_include_noise :: bool

definition default_depth :: u32 where
  "default_depth = 2"

definition default_max_functions :: u32 where
  "default_max_functions = 10"

definition ok :: "'e + 'a \<Rightarrow> 'a option" where
  "ok r = (case r of Inl _ \<Rightarrow> None | Inr x \<Rightarrow> Some x)"

definition de_ea :: "json \<Rightarrow> u64 option" where
  "de_ea v = (case v of
       JNum n \<Rightarrow> as_u64 v
     | JStr s0 \<Rightarrow>
         (let s = trim s0 in
          case (case strip_prefix s ''0x'' of Some h \<Rightarrow> Some h | None \<Rightarrow> strip_prefix s ''0X'') of
            Some h \<Rightarrow> ok (parse_u64_radix 16 h)
          | None \<Rightarrow> ok (parse_u64_radix 10 s))
     | _ \<Rightarrow> None)"

definition de_opt_ea :: "json option \<Rightarrow> u64 option option" where
  "de_opt_ea v = (case v of
       None \<Rightarrow> Some None
     | Some JNull \<Rightarrow> Some None
     | Some w \<Rightarrow> map_option Some (de_ea w))"

definition de_ea_list :: "json option \<Rightarrow> u64 list option" where
  "de_ea_list v = (case v of
       None \<Rightarrow> Some []
     | Some (JArr xs) \<Rightarrow> those (map de_ea xs)
     | _ \<Rightarrow> None)"

text \<open>Fields with a default, and optional ones, as the derived readers take them.\<close>

definition de_u32 :: "u32 \<Rightarrow> json option \<Rightarrow> u32 option" where
  "de_u32 d v = (case v of
       None \<Rightarrow> Some d
     | Some w \<Rightarrow> Option.bind (as_u64 w) (\<lambda>n. if n < 2 ^ 32 then Some (ucast n) else None))"

definition de_default :: "(json \<Rightarrow> 'a option) \<Rightarrow> 'a \<Rightarrow> json option \<Rightarrow> 'a option" where
  "de_default f d v = (case v of None \<Rightarrow> Some d | Some w \<Rightarrow> f w)"

definition de_opt_str :: "json option \<Rightarrow> string option option" where
  "de_opt_str v = (case v of
       None \<Rightarrow> Some None
     | Some JNull \<Rightarrow> Some None
     | Some w \<Rightarrow> map_option Some (as_str w))"

definition read_request :: "json \<Rightarrow> workflow_request option" where
  "read_request v =
     Option.bind (Option.bind (jget v ''workflow'') as_str) (\<lambda>workflow.
     Option.bind (de_opt_ea (jget v ''ea'')) (\<lambda>ea.
     Option.bind (de_opt_ea (jget v ''target_ea'')) (\<lambda>target_ea.
     Option.bind (de_opt_str (jget v ''name'')) (\<lambda>nm.
     Option.bind (de_ea_list (jget v ''roots'')) (\<lambda>roots.
     Option.bind (de_u32 default_depth (jget v ''depth'')) (\<lambda>depth.
     Option.bind (de_u32 default_max_functions (jget v ''max_functions'')) (\<lambda>max_functions.
     Option.bind (de_default as_str [] (jget v ''detail'')) (\<lambda>dtl.
     Option.bind (de_default as_bool False (jget v ''include_noise'')) (\<lambda>include_noise.
       Some \<lparr>wr_workflow = workflow, wr_ea = ea, wr_target_ea = target_ea, wr_name = nm, wr_roots = roots,
         wr_depth = depth, wr_max_functions = max_functions, wr_detail = dtl, wr_include_noise = include_noise\<rparr>)))))))))"

definition workflow_of :: "(json \<Rightarrow> string) \<Rightarrow> json \<Rightarrow> string + workflow_request" where
  "workflow_of serde_error v = ok_or (read_request v) (serde_error v)"

section \<open>Helpers\<close>

definition is_noise :: "string \<Rightarrow> bool" where
  "is_noise nm =
     (let n = to_lowercase nm in
      list_ex (starts_with n) [''j_'', ''?__'', ''__scrt'', ''__acrt'', ''_guard'', ''__report_gsfailure'', ''__crt'', ''__std_''] \<or>
      n \<in> set [''memset'', ''memcpy'', ''memmove'', ''memcmp'', ''strcpy'', ''strlen''])"

definition find_by_name :: "analysis_index \<Rightarrow> string \<Rightarrow> u64 option" where
  "find_by_name idx nm =
     (let needle = to_lowercase nm in
      map_option ff_ea_start (find (\<lambda>f. to_lowercase (ff_name f) = needle \<or> to_lowercase (ff_demangled f) = needle) (map snd (ai_functions idx))))"

definition function_name :: "analysis_index \<Rightarrow> u64 \<Rightarrow> string" where
  "function_name idx ea = (case bt_get (ai_functions idx) ea of Some f \<Rightarrow> ff_name f | None \<Rightarrow> ''sub_'' @ hex_lower ea)"

definition filter_noise :: "analysis_index \<Rightarrow> bool \<Rightarrow> u64 list \<Rightarrow> u64 list" where
  "filter_noise idx include_noise eas =
     (if include_noise then eas
      else filter (\<lambda>ea. case bt_get (ai_functions idx) ea of Some f \<Rightarrow> \<not> is_noise (ff_name f) | None \<Rightarrow> True) eas)"

text \<open>\<open>chars().take(n)\<close>: up to the byte that starts the next character.\<close>

fun take_chars :: "nat \<Rightarrow> string \<Rightarrow> string" where
  "take_chars n [] = []"
| "take_chars n (c # cs) =
     (if 128 \<le> byte_of c \<and> byte_of c < 192 then c # take_chars n cs
      else (case n of 0 \<Rightarrow> [] | Suc k \<Rightarrow> c # take_chars k cs))"

definition hexs :: "u64 list \<Rightarrow> json" where
  "hexs eas = JArr (map (\<lambda>e. JStr (hex_alt e)) eas)"

definition strs :: "string list \<Rightarrow> json" where
  "strs xs = JArr (map JStr xs)"

definition snippet :: "nat \<Rightarrow> u64 \<Rightarrow> mock \<Rightarrow> json" where
  "snippet n ea b = jopt (\<lambda>s. JStr (take_chars n s)) (Option.bind (ok (mock_decompile ea b)) (\<lambda>d. as_str (jidx d ''pseudocode'')))"

definition ea_or_name :: "analysis_index \<Rightarrow> workflow_request \<Rightarrow> u64 option" where
  "ea_or_name idx req = (case wr_ea req of Some ea \<Rightarrow> Some ea | None \<Rightarrow> Option.bind (wr_name req) (find_by_name idx))"

definition no_function :: "u64 \<Rightarrow> error" where
  "no_function ea = Worker (''no function at '' @ hex_alt ea)"

section \<open>Workflows\<close>

definition named_json :: "analysis_index \<Rightarrow> u64 \<Rightarrow> json" where
  "named_json idx c = JObj [(''ea'', JStr (hex_alt c)), (''name'', JStr (function_name idx c))]"

definition function_context :: "mock \<Rightarrow> analysis_index \<Rightarrow> workflow_request \<Rightarrow> bool \<Rightarrow> json result" where
  "function_context b idx req detail_full =
     rbind (ok_or (ea_or_name idx req) (Worker (''function_context requires '' @ quoted ''ea'' @ '' or '' @ quoted ''name''))) (\<lambda>ea.
     rbind (ok_or (bt_get (ai_functions idx) ea) (no_function ea)) (\<lambda>facts.
     let decompile = (if detail_full then unwrap_or (ok (mock_decompile ea b)) (JObj [(''unavailable'', JBool True)]) else JNull) in
     rbind (mock_xrefs_to ea b) (\<lambda>xrefs.
       Inr (JObj [(''ea'', JStr (hex_alt ea)), (''name'', JStr (ff_name facts)),
         (''prototype_hint'', JObj [(''imports_called'', strs (ff_imports facts)), (''indirect_calls'', jn (unat (ff_indirect_calls facts)))]),
         (''strings'', strs (ff_strings facts)), (''constants'', hexs (ff_constants facts)),
         (''callers'', JArr (map (named_json idx) (ff_callers facts))), (''callees'', JArr (map (named_json idx) (ff_callees facts))),
         (''xrefs_to'', JArr (map (\<lambda>x. JObj [(''from'', JStr (hex_alt (xr_from x))), (''kind'', JStr (xr_kind x))]) (take 50 xrefs))),
         (''decompile'', decompile), (''detail'', JStr (wr_detail req))]))))"

text \<open>Visited functions, the next frontier and the edges found, while callees are visited.\<close>

type_synonym walk = "(u64, unit) btree \<times> u64 list \<times> json list"

fun visit_callees :: "(u64 \<Rightarrow> json) \<Rightarrow> usize \<Rightarrow> u64 list \<Rightarrow> walk \<Rightarrow> walk" where
  "visit_callees edge max_functions [] w = w"
| "visit_callees edge max_functions (c # cs) (visited, nxt, edges) =
     (if length visited \<ge> max_functions then (visited, nxt, edges)
      else visit_callees edge max_functions cs
        (bt_insert c () visited, if bt_get visited c = None then nxt @ [c] else nxt, edges @ [edge c]))"

definition call_edge :: "analysis_index \<Rightarrow> u64 \<Rightarrow> u64 \<Rightarrow> json" where
  "call_edge idx cur c = JObj [(''from'', JStr (hex_alt cur)), (''to'', JStr (hex_alt c)), (''to_name'', JStr (function_name idx c))]"

definition plain_edge :: "u64 \<Rightarrow> u64 \<Rightarrow> json" where
  "plain_edge cur c = JObj [(''from'', JStr (hex_alt cur)), (''to'', JStr (hex_alt c))]"

fun neighborhood_level :: "analysis_index \<Rightarrow> bool \<Rightarrow> usize \<Rightarrow> u64 list \<Rightarrow> walk \<Rightarrow> walk" where
  "neighborhood_level idx noise max_functions [] w = w"
| "neighborhood_level idx noise max_functions (cur # rest) w =
     (case bt_get (ai_functions idx) cur of
        None \<Rightarrow> neighborhood_level idx noise max_functions rest w
      | Some f \<Rightarrow>
          (let w' = visit_callees (call_edge idx cur) max_functions (filter_noise idx noise (ff_callees f)) w
           in if length (fst w') \<ge> max_functions then w' else neighborhood_level idx noise max_functions rest w'))"

fun neighborhood_loop :: "analysis_index \<Rightarrow> bool \<Rightarrow> usize \<Rightarrow> nat \<Rightarrow> u64 list \<Rightarrow> (u64, unit) btree \<times> json list \<Rightarrow> (u64, unit) btree \<times> json list" where
  "neighborhood_loop idx noise max_functions 0 frontier w = w"
| "neighborhood_loop idx noise max_functions (Suc n) frontier (visited, edges) =
     (let (visited', nxt, edges') = neighborhood_level idx noise max_functions frontier (visited, [], edges)
      in if length visited' \<ge> max_functions then (visited', edges') else neighborhood_loop idx noise max_functions n nxt (visited', edges'))"

definition neighbor_json :: "analysis_index \<Rightarrow> u64 \<Rightarrow> json" where
  "neighbor_json idx ea =
     (let f = bt_get (ai_functions idx) ea in
      JObj [(''ea'', JStr (hex_alt ea)), (''name'', JStr (unwrap_or (map_option ff_name f) [])),
        (''strings'', strs (unwrap_or (map_option ff_strings f) [])), (''imports'', strs (unwrap_or (map_option ff_imports f) []))])"

definition call_neighborhood :: "analysis_index \<Rightarrow> workflow_request \<Rightarrow> usize \<Rightarrow> json result" where
  "call_neighborhood idx req max_functions =
     rbind (ok_or (ea_or_name idx req) (Worker (''call_neighborhood requires '' @ quoted ''ea'' @ '' or '' @ quoted ''name''))) (\<lambda>ea.
     if bt_get (ai_functions idx) ea = None then Inl (no_function ea)
     else
       (let (visited, edges) = neighborhood_loop idx (wr_include_noise req) max_functions (unat (wr_depth req)) [ea] ([(ea, ())], [])
        in Inr (JObj [(''root'', JStr (hex_alt ea)), (''depth'', jn (unat (wr_depth req))),
             (''functions'', JArr (map (neighbor_json idx) (map fst visited))), (''edges'', JArr edges),
             (''truncated'', JBool (length visited \<ge> max_functions))])))"

fun reference_items ::
  "mock \<Rightarrow> analysis_index \<Rightarrow> workflow_request \<Rightarrow> usize \<Rightarrow> xref_info list \<Rightarrow> (u64, unit) btree \<Rightarrow> json list" where
  "reference_items b idx req max_functions [] seen = []"
| "reference_items b idx req max_functions (x # xs) seen =
     (case bt_last_le (ai_functions idx) (xr_from x) of
        None \<Rightarrow> reference_items b idx req max_functions xs seen
      | Some (f_ea, facts) \<Rightarrow>
          (let seen' = bt_insert f_ea () seen in
           if bt_get seen f_ea \<noteq> None \<or> length seen' > max_functions then reference_items b idx req max_functions xs seen'
           else JObj [(''xref_from'', JStr (hex_alt (xr_from x))), (''kind'', JStr (xr_kind x)),
                  (''function'', JObj [(''ea'', JStr (hex_alt f_ea)), (''name'', JStr (ff_name facts))]), (''callers'', hexs (ff_callers facts)),
                  (''snippet'', if wr_detail req \<noteq> ''summary'' then snippet 400 f_ea b else JNull)]
                # reference_items b idx req max_functions xs seen'))"

definition reference_context :: "mock \<Rightarrow> analysis_index \<Rightarrow> workflow_request \<Rightarrow> usize \<Rightarrow> json result" where
  "reference_context b idx req max_functions =
     rbind (ok_or (wr_ea req) (Worker (''reference_context requires '' @ quoted ''ea''))) (\<lambda>ea.
     rbind (mock_xrefs_to ea b) (\<lambda>xrefs.
     let items = reference_items b idx req max_functions (take 100 xrefs) []
     in Inr (JObj [(''target'', JStr (hex_alt ea)), (''references'', JArr items), (''truncated'', JBool (length items \<ge> max_functions))])))"

definition uses_import :: "string \<Rightarrow> function_facts \<Rightarrow> bool" where
  "uses_import nm f = list_ex (\<lambda>i. eq_ignore_ascii_case i nm \<or> str_contains (to_lowercase i) (to_lowercase nm)) (ff_imports f)"

definition site_json :: "function_facts \<Rightarrow> json" where
  "site_json f = JObj [(''function'', JObj [(''ea'', JStr (hex_alt (ff_ea_start f))), (''name'', JStr (ff_name f))]), (''callers'', hexs (ff_callers f))]"

fun import_sites :: "string \<Rightarrow> usize \<Rightarrow> function_facts list \<Rightarrow> json list \<Rightarrow> json list" where
  "import_sites nm max_functions [] sites = sites"
| "import_sites nm max_functions (f # fs) sites =
     (if uses_import nm f then
        (let sites' = sites @ [site_json f] in
         if length sites' \<ge> max_functions then sites' else import_sites nm max_functions fs sites')
      else import_sites nm max_functions fs sites)"

definition import_usage :: "analysis_index \<Rightarrow> workflow_request \<Rightarrow> usize \<Rightarrow> json result" where
  "import_usage idx req max_functions =
     rbind (ok_or (wr_name req) (Worker (''import_usage requires '' @ quoted ''name''))) (\<lambda>nm.
     let sites = import_sites nm max_functions (map snd (ai_functions idx)) []
     in Inr (JObj [(''import'', JStr nm), (''sites'', JArr sites), (''truncated'', JBool (length sites \<ge> max_functions))]))"

fun subsystem_level :: "analysis_index \<Rightarrow> bool \<Rightarrow> usize \<Rightarrow> u64 list \<Rightarrow> walk \<Rightarrow> walk" where
  "subsystem_level idx noise max_functions [] w = w"
| "subsystem_level idx noise max_functions (cur # rest) w =
     subsystem_level idx noise max_functions rest
       (case bt_get (ai_functions idx) cur of
          None \<Rightarrow> w
        | Some f \<Rightarrow> visit_callees (plain_edge cur) max_functions (filter_noise idx noise (ff_callees f)) w)"

fun subsystem_loop :: "analysis_index \<Rightarrow> bool \<Rightarrow> usize \<Rightarrow> nat \<Rightarrow> u64 list \<Rightarrow> (u64, unit) btree \<times> json list \<Rightarrow> (u64, unit) btree \<times> json list" where
  "subsystem_loop idx noise max_functions 0 frontier w = w"
| "subsystem_loop idx noise max_functions (Suc n) frontier (visited, edges) =
     (let (visited', nxt, edges') = subsystem_level idx noise max_functions frontier (visited, [], edges)
      in subsystem_loop idx noise max_functions n nxt (visited', edges'))"

definition member_json :: "mock \<Rightarrow> workflow_request \<Rightarrow> u64 \<Rightarrow> function_facts \<Rightarrow> json" where
  "member_json b req ea f = JObj [(''ea'', JStr (hex_alt ea)), (''name'', JStr (ff_name f)), (''strings'', strs (ff_strings f)),
     (''imports'', strs (ff_imports f)), (''constants'', hexs (ff_constants f)),
     (''pseudocode_snippet'', if wr_detail req \<in> {''normal'', ''full''} then snippet 600 ea b else JNull)]"

definition subsystem_context :: "mock \<Rightarrow> analysis_index \<Rightarrow> workflow_request \<Rightarrow> usize \<Rightarrow> json result" where
  "subsystem_context b idx req max_functions =
     rbind (if wr_roots req \<noteq> [] then Inr (wr_roots req)
        else (case wr_ea req of
            Some ea \<Rightarrow> Inr [ea]
          | None \<Rightarrow> Inl (Worker (''subsystem_context requires '' @ quoted ''roots'' @ '' (array of EAs) or '' @ quoted ''ea'')))) (\<lambda>roots.
     rbind (case find (\<lambda>r. bt_get (ai_functions idx) r = None) roots of Some r \<Rightarrow> Inl (no_function r) | None \<Rightarrow> Inr ()) (\<lambda>_.
     let (visited, edges) = subsystem_loop idx (wr_include_noise req) max_functions (unat (wr_depth req)) roots
           (foldl (\<lambda>v ea. bt_insert ea () v) [] roots, []);
         functions = List.map_filter (\<lambda>ea. map_option (member_json b req ea) (bt_get (ai_functions idx) ea)) (take max_functions (map fst visited))
     in Inr (JObj [(''roots'', hexs roots), (''functions'', JArr functions), (''edges'', JArr edges),
          (''truncated'', JBool (length visited > max_functions))])))"

section \<open>Call paths\<close>

type_synonym parents = "(u64, u64) btree"

fun add_parents :: "u64 \<Rightarrow> u64 list \<Rightarrow> parents \<times> u64 list \<Rightarrow> parents \<times> u64 list" where
  "add_parents cur [] s = s"
| "add_parents cur (c # cs) (ps, nxt) =
     (if bt_get ps c = None then add_parents cur cs (bt_insert c cur ps, nxt @ [c]) else add_parents cur cs (ps, nxt))"

fun path_level :: "analysis_index \<Rightarrow> u64 \<Rightarrow> u64 list \<Rightarrow> parents \<times> u64 list \<Rightarrow> bool \<times> parents \<times> u64 list" where
  "path_level idx target [] s = (False, s)"
| "path_level idx target (cur # rest) s =
     (if cur = target then (True, s)
      else path_level idx target rest (case bt_get (ai_functions idx) cur of
          None \<Rightarrow> s
        | Some f \<Rightarrow> add_parents cur (ff_callees f) s))"

fun path_loop :: "analysis_index \<Rightarrow> u64 \<Rightarrow> nat \<Rightarrow> u64 list \<Rightarrow> parents \<Rightarrow> parents" where
  "path_loop idx target 0 frontier ps = ps"
| "path_loop idx target (Suc n) frontier ps =
     (let (found, ps', nxt) = path_level idx target frontier (ps, [])
      in if found then ps' else path_loop idx target n nxt ps')"

text \<open>The walk back to the source takes one step per parent at most; \<open>None\<close> is more than that.\<close>

fun back_path :: "nat \<Rightarrow> parents \<Rightarrow> u64 \<Rightarrow> u64 \<Rightarrow> u64 list result option" where
  "back_path fuel ps source cur =
     (if cur = source then Some (Inr [cur])
      else case fuel of
        0 \<Rightarrow> None
      | Suc n \<Rightarrow> (case bt_get ps cur of
            None \<Rightarrow> Some (Inl (Panic ''no entry found for key''))
          | Some p \<Rightarrow> map_option (rmap ((#) cur)) (back_path n ps source p)))"

definition path_json :: "analysis_index \<Rightarrow> u64 \<Rightarrow> u64 \<Rightarrow> u64 list option \<Rightarrow> json" where
  "path_json idx source target p = JObj [(''from'', JStr (hex_alt source)), (''to'', JStr (hex_alt target)),
     (''path'', JArr (map (named_json idx) (unwrap_or p []))), (''found'', JBool (p \<noteq> None))]"

definition trace_call_path :: "analysis_index \<Rightarrow> workflow_request \<Rightarrow> json result" where
  "trace_call_path idx req =
     rbind (ok_or (ea_or_name idx req) (Worker (''trace_call_path requires '' @ quoted ''ea'' @ '' (source)''))) (\<lambda>source.
     rbind (ok_or (case wr_target_ea req of Some t \<Rightarrow> Some t | None \<Rightarrow> (case wr_roots req of [] \<Rightarrow> None | r # _ \<Rightarrow> Some r))
        (Worker (''trace_call_path requires '' @ quoted ''target_ea'' @ '' (destination)''))) (\<lambda>target.
     let ps = path_loop idx target (unat (wr_depth req)) [source] [(source, source)] in
     if bt_get ps target = None then Inr (path_json idx source target None)
     else case back_path (length ps) ps source target of
       None \<Rightarrow> Inl (Panic ''the walk back does not end'')
     | Some r \<Rightarrow> rmap (\<lambda>p. path_json idx source target (Some (rev p))) r))"

definition workflow_run :: "mock \<Rightarrow> analysis_index \<Rightarrow> workflow_request \<Rightarrow> json result" where
  "workflow_run b idx req =
     (let detail_full = wr_detail req = ''full'';
          max_functions = clamp 1 50 (unat (wr_max_functions req));
          w = wr_workflow req
      in if w = ''function_context'' then function_context b idx req detail_full
         else if w = ''call_neighborhood'' then call_neighborhood idx req max_functions
         else if w = ''reference_context'' then reference_context b idx req max_functions
         else if w = ''import_usage'' then import_usage idx req max_functions
         else if w = ''subsystem_context'' then subsystem_context b idx req max_functions
         else if w = ''trace_call_path'' then trace_call_path idx req
         else Inl (Worker (''unknown workflow '' @ quoted w @
           '' (function_context|call_neighborhood|reference_context|import_usage|subsystem_context|trace_call_path)'')))"


section \<open>The path found is a shortest one\<close>

definition layer :: "analysis_index \<Rightarrow> u64 \<Rightarrow> nat \<Rightarrow> u64 set" where
  "layer idx r i = within idx r i - (\<Union>j < i. within idx r j)"

lemma layer_Suc: "layer idx r (Suc i) = within idx r (Suc i) - within idx r i"
proof -
  have "(\<Union>j < Suc i. within idx r j) = within idx r i" using within_mono by (fastforce simp: less_Suc_eq_le)
  then show ?thesis by (simp only: layer_def)
qed

lemma layer_0 [simp]: "layer idx r 0 = {r}"
  by (simp add: layer_def)

lemma within_layer: "x \<in> within idx r i \<Longrightarrow> \<exists>j \<le> i. x \<in> layer idx r j"
proof (induction i)
  case (Suc i)
  show ?case
  proof (cases "x \<in> within idx r i")
    case True
    then show ?thesis using Suc.IH by (auto intro: le_SucI)
  next
    case False
    then have "x \<in> layer idx r (Suc i)" using Suc.prems unfolding layer_Suc by blast
    then show ?thesis by blast
  qed
qed simp

lemma within_Suc_layer: "within idx r (Suc i) = within idx r i \<union> {b. \<exists>a \<in> layer idx r i. calls idx a b}"
proof -
  have "calls idx a b \<Longrightarrow> a \<in> within idx r i \<Longrightarrow> a \<notin> layer idx r i \<Longrightarrow> b \<in> within idx r i" for a b
    by (cases i) (auto simp: layer_Suc)
  then show ?thesis by (auto simp: layer_def)
qed

lemma add_parents_get:
  "bt_get (fst (add_parents cur cs s)) x = (case bt_get (fst s) x of Some p \<Rightarrow> Some p | None \<Rightarrow> if x \<in> set cs then Some cur else None)"
  by (induction cur cs s rule: add_parents.induct) (auto split: option.splits)

lemma add_parents_next: "set (snd (add_parents cur cs s)) = set (snd s) \<union> {x \<in> set cs. bt_get (fst s) x = None}"
  by (induction cur cs s rule: add_parents.induct) auto

lemma add_parents_inv: "bt_inv (fst s) \<Longrightarrow> bt_inv (fst (add_parents cur cs s))"
  by (induction cur cs s rule: add_parents.induct) (simp_all add: bt_inv_intros)

text \<open>After part of a frontier has been scanned.\<close>

definition scanned :: "analysis_index \<Rightarrow> u64 set \<Rightarrow> parents \<Rightarrow> parents \<times> u64 list \<Rightarrow> bool" where
  "scanned idx D ps s \<longleftrightarrow> bt_inv (fst s) \<and> (\<forall>x. bt_get ps x \<noteq> None \<longrightarrow> bt_get (fst s) x = bt_get ps x) \<and>
     set (snd s) = {x. bt_get ps x = None \<and> bt_get (fst s) x \<noteq> None} \<and>
     (\<forall>x. bt_get ps x = None \<longrightarrow> (bt_get (fst s) x \<noteq> None \<longleftrightarrow> (\<exists>a \<in> D. calls idx a x))) \<and>
     (\<forall>x p. bt_get ps x = None \<longrightarrow> bt_get (fst s) x = Some p \<longrightarrow> p \<in> D \<and> calls idx p x)"

lemma scannedD:
  assumes "scanned idx D ps s"
  shows "bt_inv (fst s)" "bt_get ps x \<noteq> None \<Longrightarrow> bt_get (fst s) x = bt_get ps x"
    "x \<in> set (snd s) \<longleftrightarrow> bt_get ps x = None \<and> bt_get (fst s) x \<noteq> None"
    "bt_get ps x = None \<Longrightarrow> bt_get (fst s) x \<noteq> None \<longleftrightarrow> (\<exists>a \<in> D. calls idx a x)"
    "bt_get ps x = None \<Longrightarrow> bt_get (fst s) x = Some p \<Longrightarrow> p \<in> D \<and> calls idx p x"
  using assms unfolding scanned_def by blast+

lemma scanned_add:
  assumes "scanned idx D ps s" "bt_get (ai_functions idx) cur = Some f"
  shows "scanned idx (insert cur D) ps (add_parents cur (ff_callees f) s)"
  unfolding scanned_def
proof (intro conjI allI impI set_eqI)
  let ?s = "add_parents cur (ff_callees f) s"
  note old = scannedD [OF assms(1)]
  have c: "calls idx cur x \<longleftrightarrow> x \<in> set (ff_callees f)" for x using assms(2) by (simp add: calls_def)
  note get = add_parents_get [of cur "ff_callees f" s, folded c]
  show "bt_inv (fst ?s)" by (rule add_parents_inv [OF old(1)])
  fix x
  show "bt_get (fst ?s) x = bt_get ps x" if "bt_get ps x \<noteq> None" using old(2) [OF that] that by (auto simp: get)
  show "x \<in> set (snd ?s) \<longleftrightarrow> x \<in> {x. bt_get ps x = None \<and> bt_get (fst ?s) x \<noteq> None}"
    using old(2, 3) [of x] by (cases "bt_get ps x"; cases "bt_get (fst s) x") (auto simp: get c add_parents_next)
  show "(bt_get (fst ?s) x \<noteq> None) = (\<exists>a \<in> insert cur D. calls idx a x)" if "bt_get ps x = None"
    using old(4) [OF that] by (cases "bt_get (fst s) x") (simp_all add: get)
  show "p \<in> insert cur D" "calls idx p x" if "bt_get ps x = None" "bt_get (fst ?s) x = Some p" for p
    using old(5) [OF that(1)] that(2) by (cases "bt_get (fst s) x"; simp add: get split: if_splits)+
qed

lemma scanned_none: "scanned idx D ps s \<Longrightarrow> bt_get (ai_functions idx) cur = None \<Longrightarrow> scanned idx (insert cur D) ps s"
  unfolding scanned_def by (auto simp: calls_def)

lemma path_level_scanned:
  assumes "scanned idx D ps s" "path_level idx t front s = (hit, s')"
  shows "(hit \<longleftrightarrow> t \<in> set front) \<and> (\<exists>D'. scanned idx D' ps s' \<and> D' \<subseteq> D \<union> set front \<and> (\<not> hit \<longrightarrow> D' = D \<union> set front))"
  using assms
proof (induction front arbitrary: D s)
  case (Cons cur front)
  show ?case
  proof (cases "cur = t")
    case True
    then show ?thesis using Cons.prems by auto
  next
    case False
    define s1 where "s1 = (case bt_get (ai_functions idx) cur of None \<Rightarrow> s | Some f \<Rightarrow> add_parents cur (ff_callees f) s)"
    have "scanned idx (insert cur D) ps s1"
      using Cons.prems(1) by (cases "bt_get (ai_functions idx) cur") (simp_all add: s1_def scanned_add scanned_none)
    moreover have "path_level idx t front s1 = (hit, s')" using Cons.prems(2) False by (simp add: s1_def)
    ultimately show ?thesis using Cons.IH [of "insert cur D" s1] False by (auto 4 3)
  qed
qed auto

definition path_inv :: "analysis_index \<Rightarrow> u64 \<Rightarrow> nat \<Rightarrow> parents \<Rightarrow> bool" where
  "path_inv idx r i ps \<longleftrightarrow> bt_inv ps \<and> bt_get ps r = Some r \<and>
     (\<forall>j < i. \<forall>x \<in> layer idx r (Suc j). \<exists>p \<in> layer idx r j. bt_get ps x = Some p \<and> calls idx p x)"

lemma path_loop_ok:
  assumes "path_inv idx r i ps" "\<And>x. bt_get ps x \<noteq> None \<longleftrightarrow> x \<in> within idx r i" "set front = layer idx r i"
    "path_loop idx t n front ps = ps'" "t \<notin> (\<Union>j < i. within idx r j)"
  shows "(bt_get ps' t \<noteq> None \<longleftrightarrow> t \<in> within idx r (i + n)) \<and> (\<exists>k. path_inv idx r k ps' \<and> (bt_get ps' t \<noteq> None \<longrightarrow> (\<exists>j \<le> k. t \<in> layer idx r j)))"
  using assms
proof (induction n arbitrary: i front ps)
  case 0
  then show ?case using within_layer [of t idx r i] by auto
next
  case (Suc n)
  have "scanned idx {} ps (ps, [])" using Suc.prems(1) by (auto simp: scanned_def path_inv_def split: option.splits)
  moreover obtain hit ps1 nxt where l: "path_level idx t front (ps, []) = (hit, ps1, nxt)" by (metis prod_cases3)
  ultimately obtain D where D: "hit \<longleftrightarrow> t \<in> layer idx r i" "scanned idx D ps (ps1, nxt)" "D \<subseteq> layer idx r i" "\<not> hit \<Longrightarrow> D = layer idx r i"
    using path_level_scanned Suc.prems(3) by (metis Un_empty_left)
  have old: "bt_get ps1 x = bt_get ps x" if "x \<in> within idx r i" for x
    using D(2) that Suc.prems(2) [of x] by (auto simp: scanned_def)
  have lay: "x \<in> layer idx r j \<Longrightarrow> j \<le> i \<Longrightarrow> x \<in> within idx r i" for x j using within_mono [of j i idx r] by (auto simp: layer_def)
  have inv1: "path_inv idx r i ps1" unfolding path_inv_def
  proof (intro conjI allI impI ballI)
    show "bt_inv ps1" using D(2) by (simp add: scanned_def)
    show "bt_get ps1 r = Some r" using Suc.prems(1) old [of r] within_mono [of 0 i idx r] by (simp add: path_inv_def)
    show "\<exists>p \<in> layer idx r j. bt_get ps1 x = Some p \<and> calls idx p x" if "j < i" "x \<in> layer idx r (Suc j)" for j x
      using Suc.prems(1) that old [OF lay [OF that(2)]] by (simp add: path_inv_def)
  qed
  show ?case
  proof (cases hit)
    case True
    have t: "t \<in> layer idx r i" using True D(1) by simp
    then have "t \<in> within idx r (i + Suc n)" using within_mono [of i "i + Suc n" idx r] by (auto simp: layer_def)
    moreover have "bt_get ps1 t \<noteq> None" using old lay [OF t] Suc.prems(2) by auto
    moreover have "ps' = ps1" using Suc.prems(4) l True by simp
    ultimately show ?thesis using inv1 t by blast
  next
    case False
    have reach: "bt_get ps1 x \<noteq> None \<longleftrightarrow> (\<exists>a \<in> layer idx r i. calls idx a x)" if "x \<notin> within idx r i" for x
      using D(2) D(4) [OF False] Suc.prems(2) [of x] that by (simp add: scanned_def)
    have new: "bt_get ps1 x \<noteq> None \<longleftrightarrow> x \<in> within idx r (Suc i)" for x
      using reach [of x] old [of x] Suc.prems(2) [of x] unfolding within_Suc_layer by (cases "x \<in> within idx r i") simp_all
    have front: "set nxt = layer idx r (Suc i)"
      using scannedD(3) [OF D(2)] Suc.prems(2) new unfolding layer_Suc snd_conv fst_conv by blast
    have "\<exists>p \<in> layer idx r i. bt_get ps1 x = Some p \<and> calls idx p x" if "x \<in> layer idx r (Suc i)" for x
      using scannedD(5) [OF D(2), of x] D(4) [OF False] that new [of x] Suc.prems(2) [of x] unfolding layer_Suc fst_conv by blast
    then have "path_inv idx r (Suc i) ps1" using inv1 unfolding path_inv_def by (metis less_SucE)
    moreover have "t \<notin> (\<Union>j < Suc i. within idx r j)" using False D(1) Suc.prems(5) by (auto simp: layer_def less_Suc_eq)
    moreover have "path_loop idx t n nxt ps1 = ps'" using Suc.prems(4) l False by simp
    ultimately show ?thesis using Suc.IH [of "Suc i" ps1 nxt, unfolded add_Suc_shift, OF _ new front] by blast
  qed
qed

text \<open>A list of functions each of which calls the next.\<close>

fun call_chain :: "analysis_index \<Rightarrow> u64 list \<Rightarrow> bool" where
  "call_chain idx (a # b # xs) \<longleftrightarrow> calls idx a b \<and> call_chain idx (b # xs)"
| "call_chain idx xs \<longleftrightarrow> True"

lemma call_chain_snoc: "xs \<noteq> [] \<Longrightarrow> call_chain idx (xs @ [y]) \<longleftrightarrow> call_chain idx xs \<and> calls idx (last xs) y"
  by (induction idx xs rule: call_chain.induct) auto

declare back_path.simps [simp del]

lemma layer_disjoint: "x \<in> layer idx r i \<Longrightarrow> x \<in> layer idx r j \<Longrightarrow> i = j"
  by (induction i j rule: linorder_wlog) (auto simp: layer_def order_le_less)

lemma back_path_ok:
  assumes "path_inv idx r k ps" "x \<in> layer idx r j" "j \<le> k" "j \<le> n"
  shows "\<exists>p. back_path n ps r x = Some (Inr p) \<and> length p = Suc j \<and> hd p = x \<and> last p = r \<and> call_chain idx (rev p) \<and>
     distinct p \<and> (\<forall>y \<in> set p. bt_get ps y \<noteq> None \<and> (\<exists>i \<le> j. y \<in> layer idx r i))"
  using assms(2-4)
proof (induction j arbitrary: x n)
  case 0
  then show ?case using assms(1) by (subst back_path.simps) (auto simp: path_inv_def)
next
  case (Suc j)
  obtain p where p: "p \<in> layer idx r j" "bt_get ps x = Some p" "calls idx p x"
    using assms(1) Suc.prems(1) Suc_le_lessD [OF Suc.prems(2)] unfolding path_inv_def by blast
  obtain m where m: "n = Suc m" "j \<le> m" using Suc.prems(3) by (cases n) auto
  obtain q where q: "back_path m ps r p = Some (Inr q)" "length q = Suc j" "hd q = p" "last q = r" "call_chain idx (rev q)" "distinct q"
      "\<forall>y \<in> set q. bt_get ps y \<noteq> None \<and> (\<exists>i \<le> j. y \<in> layer idx r i)"
    using Suc.IH [OF p(1), of m] Suc.prems(2) m by auto
  have "x \<notin> set q" using q(7) Suc.prems(1) layer_disjoint by fastforce
  moreover have "x \<noteq> r" using layer_disjoint [of r idx r 0 "Suc j"] Suc.prems(1) by auto
  moreover have "q \<noteq> []" using q(2) by auto
  moreover from this have "call_chain idx (rev (x # q))" using q p(3) by (simp add: call_chain_snoc last_rev)
  ultimately show ?case using q p m Suc.prems(1) by (subst back_path.simps) (auto intro: le_SucI)
qed

lemma back_path_returns:
  assumes "path_inv idx r k ps" "x \<in> layer idx r j" "j \<le> k"
  shows "\<exists>p. back_path (length ps) ps r x = Some (Inr p) \<and> length p = Suc j \<and> hd p = x \<and> last p = r \<and> call_chain idx (rev p)"
proof -
  obtain p where p: "length p = Suc j" "distinct p" "\<forall>y \<in> set p. bt_get ps y \<noteq> None"
    using back_path_ok [OF assms, of j] by auto
  have "set p \<subseteq> fst ` set ps" using p(3) by (auto simp: bt_get_def) (metis fst_conv imageI map_of_SomeD not_None_eq)
  then have "card (set p) \<le> length ps" by (meson List.finite_set card_image_le card_length card_mono finite_imageI le_trans)
  then have "j \<le> length ps" using p distinct_card [of p] by simp
  then show ?thesis using back_path_ok [OF assms, of "length ps"] by blast
qed

text \<open>
  C33: tracing a call path finds a shortest one exactly when there is one within the depth: if a
  chain of calls of at most the requested length leads from the source to the target, the answer
  is such a chain, from the source to the target, and no chain of calls between them is shorter;
  otherwise the answer says that none was found. The walk back along the recorded callers always ends.
\<close>

theorem traced_path_is_shortest:
  assumes "ea_or_name idx req = Some s" "wr_target_ea req = Some t"
  shows "if \<exists>k \<le> unat (wr_depth req). (calls idx ^^ k) s t
    then \<exists>p. trace_call_path idx req = Inr (path_json idx s t (Some p)) \<and> hd p = s \<and> last p = t \<and> call_chain idx p \<and>
      length p \<le> Suc (unat (wr_depth req)) \<and> (\<forall>k. (calls idx ^^ k) s t \<longrightarrow> length p \<le> Suc k)
    else trace_call_path idx req = Inr (path_json idx s t None)"
proof -
  let ?n = "unat (wr_depth req)"
  define ps where "ps = path_loop idx t ?n [s] [(s, s)]"
  have init: "path_inv idx s 0 [(s, s)]" by (simp add: path_inv_def bt_get_def bt_inv_def)
  have dom: "bt_get [(s, s)] x \<noteq> None \<longleftrightarrow> x \<in> within idx s 0" for x by (simp add: bt_get_def)
  from path_loop_ok [OF init dom _ ps_def [symmetric]] obtain k where
    k: "bt_get ps t \<noteq> None \<longleftrightarrow> t \<in> within idx s ?n" "path_inv idx s k ps" "bt_get ps t \<noteq> None \<longrightarrow> (\<exists>j \<le> k. t \<in> layer idx s j)" by auto
  have tr: "trace_call_path idx req = (if bt_get ps t = None then Inr (path_json idx s t None)
     else case back_path (length ps) ps s t of None \<Rightarrow> Inl (Panic ''the walk back does not end'')
       | Some r \<Rightarrow> rmap (\<lambda>p. path_json idx s t (Some (rev p))) r)"
    using assms by (simp add: trace_call_path_def ps_def Let_def)
  show ?thesis
  proof (cases "bt_get ps t = None")
    case True
    then show ?thesis using tr k(1) within_iff_relpow [of t idx s ?n] by auto
  next
    case False
    then obtain j where j: "j \<le> k" "t \<in> layer idx s j" using k(3) by blast
    obtain p where p: "back_path (length ps) ps s t = Some (Inr p)" "length p = Suc j" "hd p = t" "last p = s" "call_chain idx (rev p)"
      using back_path_returns [OF k(2) j(2, 1)] by blast
    have least: "j \<le> i" if "(calls idx ^^ i) s t" for i
      using that j(2) within_iff_relpow [of t idx s i] by (auto simp: layer_def not_less [symmetric])
    moreover have ex: "\<exists>i \<le> ?n. (calls idx ^^ i) s t" using False k(1) within_iff_relpow by blast
    ultimately have "j \<le> ?n" by (meson le_trans)
    moreover have "trace_call_path idx req = Inr (path_json idx s t (Some (rev p)))" using tr False p(1) by simp
    moreover have "p \<noteq> []" using p(2) by auto
    ultimately show ?thesis using p least ex by (auto simp: hd_rev last_rev intro!: exI [of _ "rev p"])
  qed
qed

definition three_functions :: analysis_index where
  "three_functions = \<lparr>ai_schema_version = 1, ai_binary_md5 = [], ai_revision = 0,
     ai_functions = [(1, default_facts\<lparr>ff_ea_start := 1, ff_callees := [2, 3]\<rparr>), (2, default_facts\<lparr>ff_ea_start := 2, ff_callees := [3]\<rparr>),
       (3, default_facts\<lparr>ff_ea_start := 3, ff_callees := [1]\<rparr>)], ai_strings = []\<rparr>"

definition trace_request :: workflow_request where
  "trace_request = \<lparr>wr_workflow = ''trace_call_path'', wr_ea = Some 1, wr_target_ea = Some 3, wr_name = None, wr_roots = [],
     wr_depth = 2, wr_max_functions = 10, wr_detail = [], wr_include_noise = False\<rparr>"

theorem traced_path_is_shortest_witness:
  "\<exists>p. trace_call_path three_functions trace_request = Inr (path_json three_functions 1 3 (Some p)) \<and> length p \<le> 2 \<and> last p = 3"
proof -
  have "calls three_functions 1 3" by (simp add: calls_def three_functions_def bt_get_def)
  then have "(calls three_functions ^^ Suc 0) 1 3" by (rule relpowp_Suc_I [OF relpowp_0_I])
  moreover have "ea_or_name three_functions trace_request = Some 1" "wr_target_ea trace_request = Some 3" "unat (wr_depth trace_request) = 2"
    by (simp_all add: ea_or_name_def trace_request_def)
  moreover from calculation have "\<exists>k \<le> unat (wr_depth trace_request). (calls three_functions ^^ k) 1 3" by (intro exI [of _ "Suc 0"]) simp
  ultimately show ?thesis using traced_path_is_shortest [of three_functions trace_request 1 3] by (metis numeral_2_eq_2)
qed

section \<open>Bounds\<close>

lemma length_bt_insert_le: "length (bt_insert k v m) \<le> Suc (length m)"
  by (induction k v m rule: bt_insert.induct) auto

lemma visit_callees_bound: "length (fst w) \<le> n \<Longrightarrow> length (fst (visit_callees edge n cs w)) \<le> n"
proof (induction edge n cs w rule: visit_callees.induct)
  case (2 edge n c cs visited nxt edges)
  then show ?case using length_bt_insert_le [of c "()" visited] by fastforce
qed simp

lemma neighborhood_level_bound: "length (fst w) \<le> n \<Longrightarrow> length (fst (neighborhood_level idx noise n cs w)) \<le> n"
  by (induction idx noise n cs w rule: neighborhood_level.induct) (auto simp: Let_def visit_callees_bound split: option.splits)

lemma neighborhood_loop_bound: "length (fst w) \<le> n \<Longrightarrow> length (fst (neighborhood_loop idx noise n d cs w)) \<le> n"
proof (induction idx noise n d cs w rule: neighborhood_loop.induct)
  case (2 idx noise n d cs visited edges)
  then show ?case using neighborhood_level_bound [of "(visited, [], edges)" n idx noise cs] by (fastforce simp: Let_def split: prod.splits)
qed simp

lemma length_bt_insert_ge: "length m \<le> length (bt_insert k v m)"
  by (induction k v m rule: bt_insert.induct) auto

lemma length_bt_insert_new: "bt_get m k = None \<Longrightarrow> length (bt_insert k v m) = Suc (length m)"
  by (induction k v m rule: bt_insert.induct) (auto simp: bt_get_def split: if_splits)

lemma reference_items_bound: "length (reference_items b idx req n xs seen) \<le> n - length seen"
proof (induction xs arbitrary: seen)
  case (Cons x xs)
  show ?case
  proof (cases "bt_last_le (ai_functions idx) (xr_from x)")
    case (Some p)
    obtain k f where p: "p = (k, f)" by fastforce
    have "length (reference_items b idx req n xs (bt_insert k () seen)) \<le> n - length seen"
      using Cons.IH [of "bt_insert k () seen"] length_bt_insert_ge [of seen k "()"] by linarith
    moreover have "Suc (length (reference_items b idx req n xs (bt_insert k () seen))) \<le> n - length seen"
      if "bt_get seen k = None" "length (bt_insert k () seen) \<le> n"
      using Cons.IH [of "bt_insert k () seen"] that by (simp add: length_bt_insert_new)
    ultimately show ?thesis by (cases "bt_get seen k") (simp_all add: Some p Let_def not_less)
  qed (use Cons in simp)
qed simp

lemma length_map_filter_take: "length (List.map_filter f (take n xs)) \<le> n"
  by (simp add: map_filter_def) (rule le_trans [OF length_filter_le], simp)

lemma import_sites_bound: "length sites < n \<Longrightarrow> length (import_sites nm n fs sites) \<le> n"
  by (induction nm n fs sites rule: import_sites.induct) (auto simp: Let_def)

text \<open>
  Whatever the request, a workflow's answer lists at most as many functions, references or
  sites as its budget allows, and never more than fifty.
\<close>

lemma workflow_answers_are_bounded:
  assumes "workflow_run b idx req = Inr out" "k \<in> {''functions'', ''references'', ''sites''}" "jget out k = Some (JArr xs)"
  shows "length xs \<le> max 1 (unat (wr_max_functions req)) \<and> length xs \<le> 50"
proof -
  let ?n = "clamp 1 50 (unat (wr_max_functions req))"
  have n: "1 \<le> ?n" by (simp add: clamp_def)
  have 1: "length xs \<le> ?n" if "call_neighborhood idx req ?n = Inr out"
  proof -
    from that obtain ea visited edges where v: "neighborhood_loop idx (wr_include_noise req) ?n (unat (wr_depth req)) [ea] ([(ea, ())], []) = (visited, edges)"
        "jget out ''functions'' = Some (JArr (map (neighbor_json idx) (map fst visited)))" "jget out ''references'' = None" "jget out ''sites'' = None"
      by (auto simp: call_neighborhood_def result_simps Let_def split: prod.splits if_splits)
    then have "length visited \<le> ?n" using neighborhood_loop_bound [of "([(ea, ())], [])" ?n] n by (metis One_nat_def fst_conv length_Cons list.size(3))
    then show ?thesis using v assms(2, 3) by auto
  qed
  have 2: "length xs \<le> ?n" if "reference_context b idx req ?n = Inr out"
    using that assms(2, 3) reference_items_bound [of b idx req ?n _ "[]"] by (auto simp: reference_context_def result_simps Let_def)
  have 3: "length xs \<le> ?n" if "import_usage idx req ?n = Inr out"
    using that assms(2, 3) import_sites_bound [of "[]" ?n] n by (auto simp: import_usage_def result_simps Let_def)
  have 4: "length xs \<le> ?n" if "subsystem_context b idx req ?n = Inr out"
    using that assms(2, 3) unfolding subsystem_context_def rbind_eq_Inr Let_def case_prod_unfold
    by (elim exE conjE) (auto simp: length_map_filter_take)
  have "length xs \<le> ?n"
    using assms 1 2 3 4 by (auto simp: workflow_run_def Let_def function_context_def trace_call_path_def path_json_def result_simps split: if_splits option.splits)
  then show ?thesis by (auto simp: clamp_def max_def min_def split: if_splits)
qed

end
