(* ===== verification/Handles.thy ===== *)
theory Handles
  imports Errors
begin

text \<open>
  \<open>crates/rmcp-core/src/handle.rs\<close>: the short model-visible handles \<open>db1\<close>, \<open>r17\<close>, \<open>job3\<close>.
  The process-wide counter \<open>NEXT_ID\<close> is passed explicitly and wraps at 64 bits, as
  \<open>fetch_add\<close> does.
\<close>

record handle_t =
  prefix_of :: string
  num :: u64

definition next_id_init :: u64 where
  "next_id_init = 1"

definition handle_new :: "string \<Rightarrow> u64 \<Rightarrow> handle_t \<times> u64" where
  "handle_new p next_id = (\<lparr>prefix_of = p, num = next_id\<rparr>, next_id + 1)"

definition expected_prefix_leak :: "string \<Rightarrow> string" where
  "expected_prefix_leak p =
     (if p = ''db'' then ''db'' else if p = ''r'' then ''r'' else ''x'')"

definition is_ascii_digit :: "char \<Rightarrow> bool" where
  "is_ascii_digit c \<longleftrightarrow> 48 \<le> byte_of c \<and> byte_of c \<le> 57"

definition handle_parse :: "string \<Rightarrow> string \<Rightarrow> handle_t option" where
  "handle_parse s expected_prefix =
     Option.bind (strip_prefix s expected_prefix) (\<lambda>rest.
       if rest = [] \<or> \<not> list_all is_ascii_digit rest then None
       else case parse_u64_radix 10 rest of
              Inl _ \<Rightarrow> None
            | Inr n \<Rightarrow> Some \<lparr>prefix_of = expected_prefix_leak expected_prefix, num = n\<rparr>)"

definition handle_to_string :: "handle_t \<Rightarrow> string" where
  "handle_to_string h = prefix_of h @ show_u64 (num h)"

record handle_allocator =
  next_db :: u64

definition allocator_new :: handle_allocator where
  "allocator_new = \<lparr>next_db = 1\<rparr>"

definition alloc_db :: "handle_allocator \<Rightarrow> handle_t \<times> handle_allocator" where
  "alloc_db a = (\<lparr>prefix_of = ''db'', num = next_db a\<rparr>, a\<lparr>next_db := next_db a + 1\<rparr>)"

fun alloc_many :: "nat \<Rightarrow> handle_allocator \<Rightarrow> handle_t list" where
  "alloc_many 0 a = []"
| "alloc_many (Suc k) a = (let (h, a') = alloc_db a in h # alloc_many k a')"

section \<open>Printing and parsing\<close>

lemma show_u64_all_digits: "list_all is_ascii_digit (show_u64 n)"
  using show_radix10_digit by (auto simp: list_all_iff is_ascii_digit_def)

lemma handle_parse_show:
  "handle_parse (p @ show_u64 n) p = Some \<lparr>prefix_of = expected_prefix_leak p, num = n\<rparr>"
  by (simp add: handle_parse_def show_u64_all_digits parse_u64_radix_show)

lemma handle_to_string_inj:
  "prefix_of g = prefix_of h \<Longrightarrow> handle_to_string g = handle_to_string h \<Longrightarrow> g = h"
  using show_radix_inj [of 10 "unat (num g)" "unat (num h)"]
  by (cases g, cases h) (auto simp: handle_to_string_def word_unat_eq_iff)

lemma handle_parse_SomeD:
  assumes "handle_parse s p = Some h"
  shows "\<exists>rest. s = p @ rest \<and> rest \<noteq> [] \<and> list_all is_ascii_digit rest
    \<and> parse_u64_radix 10 rest = Inr (num h) \<and> prefix_of h = expected_prefix_leak p"
  using assms
  by (auto simp: handle_parse_def bind_eq_Some_conv strip_prefix_Some_iff
      split: if_splits sum.splits)

section \<open>Allocation in order of opening\<close>

lemma alloc_many_nth:
  "i < k \<Longrightarrow> alloc_many k a ! i = \<lparr>prefix_of = ''db'', num = next_db a + of_nat i\<rparr>"
proof (induction k arbitrary: a i)
  case (Suc k)
  then show ?case by (cases i) (simp_all add: alloc_db_def)
qed simp

lemma length_alloc_many [simp]: "length (alloc_many k a) = k"
  by (induction k arbitrary: a) (simp_all add: alloc_db_def)

text \<open>
  Database handles are handed out in order of opening and read back: the first \<open>k\<close> handles of a
  fresh allocator print as \<open>db1\<close>, \<open>db2\<close>, and so on, all different (for fewer than \<open>2 ^ 64\<close> of
  them), and each printed handle parses to itself and to no result handle.
\<close>

lemma db_handles_distinct_and_parse:
  assumes "k < 2 ^ 64"
  shows "distinct (map handle_to_string (alloc_many k allocator_new)) \<and>
     (\<forall>i. i < k \<longrightarrow> handle_to_string (alloc_many k allocator_new ! i) = ''db'' @ show_nat (i + 1) \<and>
        handle_parse (handle_to_string (alloc_many k allocator_new ! i)) ''db'' = Some (alloc_many k allocator_new ! i) \<and>
        handle_parse (handle_to_string (alloc_many k allocator_new ! i)) ''r'' = None)"
proof -
  have u: "unat (1 + of_nat i :: u64) = i + 1" if "i < k" for i
    using that assms by (simp add: unat_word_ariths unat_of_nat take_bit_eq_mod)
  have s: "handle_to_string (alloc_many k allocator_new ! i) = ''db'' @ show_nat (i + 1)" if "i < k" for i
    using u [OF that] that by (simp add: alloc_many_nth allocator_new_def handle_to_string_def)
  have d: "distinct (map handle_to_string (alloc_many k allocator_new))"
    using show_radix_inj [of 10] by (auto simp: distinct_conv_nth s)
  have p: "handle_parse (handle_to_string (alloc_many k allocator_new ! i)) ''db'' = Some (alloc_many k allocator_new ! i)"
    if "i < k" for i
    using that handle_parse_show [of "''db''" "1 + of_nat i"]
    by (simp add: alloc_many_nth allocator_new_def handle_to_string_def expected_prefix_leak_def)
  from d s p show ?thesis by (simp add: handle_parse_def)
qed

end
