(* ===== verification/Protocol.thy ===== *)
theory Protocol
  imports Handles
begin

text \<open>
  \<open>crates/rmcp-core/src/protocol.rs\<close>: the newline-delimited JSON frames between broker and
  worker. The encoder and decoder of one value are library code (\<open>serde_json\<close>) and are
  parameters; the framing (one line per value, end of stream, malformed lines) is modelled.
  The byte stream is the list of bytes still to be read.
\<close>

record worker_request =
  rq_id :: u64
  rq_method :: string
  rq_params :: json

record worker_error_body =
  eb_code :: string
  eb_message :: string

record worker_response =
  rs_id :: u64
  rs_result :: "json option"
  rs_error :: "worker_error_body option"

definition response_ok :: "u64 \<Rightarrow> json \<Rightarrow> worker_response" where
  "response_ok i r = \<lparr>rs_id = i, rs_result = Some r, rs_error = None\<rparr>"

definition response_err :: "u64 \<Rightarrow> error \<Rightarrow> worker_response" where
  "response_err i e = \<lparr>rs_id = i, rs_result = None,
     rs_error = Some \<lparr>eb_code = code e, eb_message = error_to_string e\<rparr>\<rparr>"

definition into_result :: "worker_response \<Rightarrow> json result" where
  "into_result r =
     (case rs_result r of
        Some v \<Rightarrow> Inr v
      | None \<Rightarrow> (case rs_error r of
            Some e \<Rightarrow> Inl (Worker (eb_code e @ '': '' @ eb_message e))
          | None \<Rightarrow> Inl (Ipc ''empty worker response'')))"

record worker_hello =
  h_protocol :: u32
  h_ida_version :: string
  h_pid :: u32
  h_ida_dir :: string
  h_idausr :: string

definition PROTOCOL_VERSION :: u32 where
  "PROTOCOL_VERSION = 1"

abbreviation newline :: char where
  "newline \<equiv> CHR 0x0A"

text \<open>\<open>BufRead::read_line\<close>: the bytes up to and including the next newline, and the rest.\<close>

fun read_line :: "string \<Rightarrow> string \<times> string" where
  "read_line [] = ([], [])"
| "read_line (c # cs) =
     (if c = newline then ([c], cs) else (let (l, r) = read_line cs in (c # l, r)))"

text \<open>
  One read and one write, over any reader and writer: \<open>rl\<close> reads a line or fails with an I/O error, \<open>wr\<close>
  takes the bytes or fails. \<open>frame_read\<close> and \<open>write_frame\<close> are these on a pipe that does not fail.
\<close>

definition frame_read_from ::
  "('s \<Rightarrow> (string + string) \<times> 's) \<Rightarrow> (string \<Rightarrow> string + 'a) \<Rightarrow> 's \<Rightarrow> 'a option result \<times> 's" where
  "frame_read_from rl from_str inp = (case rl inp of
       (Inl m, rest) \<Rightarrow> (Inl (Io m), rest)
     | (Inr line, rest) \<Rightarrow>
         if line = [] then (Inr None, rest)
         else (case from_str (trim line) of
                 Inl m \<Rightarrow> (Inl (Ipc (''bad frame: '' @ m)), rest)
               | Inr v \<Rightarrow> (Inr (Some v), rest)))"

definition write_frame_to :: "('s \<Rightarrow> string \<Rightarrow> string + 's) \<Rightarrow> ('a \<Rightarrow> string + string) \<Rightarrow> 's \<Rightarrow> 'a \<Rightarrow> 's result" where
  "write_frame_to wr to_vec w v = (case to_vec v of
       Inl m \<Rightarrow> Inl (Ipc m)
     | Inr buf \<Rightarrow> rmap_err Io (wr w (buf @ [newline])))"

definition frame_read :: "(string \<Rightarrow> string + 'a) \<Rightarrow> string \<Rightarrow> 'a option result \<times> string" where
  "frame_read = frame_read_from (\<lambda>inp. (Inr (fst (read_line inp)), snd (read_line inp)))"

definition write_frame :: "('a \<Rightarrow> string + string) \<Rightarrow> string \<Rightarrow> 'a \<Rightarrow> string result" where
  "write_frame = write_frame_to (\<lambda>w buf. Inr (w @ buf))"

lemma frame_read_pipe:
  "frame_read from_str inp =
     (let (line, rest) = read_line inp in
      if line = [] then (Inr None, rest)
      else (case from_str (trim line) of
              Inl m \<Rightarrow> (Inl (Ipc (''bad frame: '' @ m)), rest)
            | Inr v \<Rightarrow> (Inr (Some v), rest)))"
  by (auto simp: frame_read_def frame_read_from_def split: prod.splits sum.splits)

lemma write_frame_pipe:
  "write_frame to_vec w v = (case to_vec v of Inl m \<Rightarrow> Inl (Ipc m) | Inr buf \<Rightarrow> Inr (w @ buf @ [newline]))"
  by (simp add: write_frame_def write_frame_to_def split: sum.splits)

text \<open>The reader loop: frames until end of stream or the first malformed line.\<close>

fun read_frames :: "nat \<Rightarrow> (string \<Rightarrow> string + 'a) \<Rightarrow> string \<Rightarrow> 'a list result" where
  "read_frames 0 from_str inp = Inr []"
| "read_frames (Suc n) from_str inp =
     (case frame_read from_str inp of
        (Inl e, _) \<Rightarrow> Inl e
      | (Inr None, _) \<Rightarrow> Inr []
      | (Inr (Some v), rest) \<Rightarrow> rmap (\<lambda>vs. v # vs) (read_frames n from_str rest))"

fun write_frames :: "('a \<Rightarrow> string + string) \<Rightarrow> string \<Rightarrow> 'a list \<Rightarrow> string result" where
  "write_frames to_vec w [] = Inr w"
| "write_frames to_vec w (v # vs) =
     rbind (write_frame to_vec w v) (\<lambda>w'. write_frames to_vec w' vs)"

section \<open>Framing\<close>

lemma read_line_append: "newline \<notin> set l \<Longrightarrow> read_line (l @ newline # r) = (l @ [newline], r)"
  by (induction l) auto

lemma read_line_split: "read_line inp = (l, r) \<Longrightarrow> inp = l @ r"
  by (induction inp arbitrary: l r) (auto split: if_splits prod.splits)

lemma read_line_Nil_iff: "fst (read_line inp) = [] \<longleftrightarrow> inp = []"
  by (cases inp) (auto split: prod.splits)

lemma is_ws_newline [simp]: "is_ws newline"
  by (simp add: is_ws_def)

lemma trim_snoc_ws: "is_ws c \<Longrightarrow> trim (s @ [c]) = trim s"
proof -
  assume c: "is_ws c"
  show ?thesis
  proof (cases "\<forall>x \<in> set s. is_ws x")
    case True
    with c show ?thesis by (simp add: trim_def dropWhile_eq_Nil_conv [THEN iffD2])
  next
    case False
    with c show ?thesis by (auto simp: trim_def dropWhile_append1)
  qed
qed

lemma frame_read_written:
  assumes "newline \<notin> set l" and "from_str (trim l) = Inr v"
  shows "frame_read from_str (l @ newline # r) = (Inr (Some v), r)"
  using assms by (simp add: frame_read_pipe read_line_append trim_snoc_ws)

lemma frame_read_progress:
  "frame_read from_str inp = (res, rest) \<Longrightarrow> length rest \<le> length inp"
proof -
  assume a: "frame_read from_str inp = (res, rest)"
  obtain l r where lr: "read_line inp = (l, r)" by fastforce
  with a have "rest = r"
    by (auto simp: frame_read_pipe split: if_splits sum.splits)
  with read_line_split [OF lr] show ?thesis by simp
qed

lemma write_frames_acc:
  "write_frames to_vec w vs = rmap (\<lambda>b. w @ b) (write_frames to_vec [] vs)"
proof (induction vs arbitrary: w)
  case (Cons v vs)
  show ?case
  proof (cases "to_vec v")
    case (Inr b)
    have "write_frames to_vec (w @ b @ [newline]) vs
        = rmap (\<lambda>c. (w @ b @ [newline]) @ c) (write_frames to_vec [] vs)"
      by (rule Cons.IH)
    moreover have "write_frames to_vec (b @ [newline]) vs
        = rmap (\<lambda>c. (b @ [newline]) @ c) (write_frames to_vec [] vs)"
      by (rule Cons.IH)
    ultimately show ?thesis
      using Inr by (cases "write_frames to_vec [] vs") (simp_all add: write_frame_pipe)
  qed (simp add: write_frame_pipe)
qed simp

lemma read_frames_written:
  assumes enc: "\<And>v. v \<in> set vs \<Longrightarrow> \<exists>b. to_vec v = Inr b \<and> newline \<notin> set b \<and> from_str (trim b) = Inr v"
  shows "\<exists>bs. write_frames to_vec [] vs = Inr bs \<and> read_frames (Suc (length vs)) from_str bs = Inr vs"
  using enc
proof (induction vs)
  case Nil
  then show ?case by (simp add: frame_read_pipe)
next
  case (Cons v vs)
  from Cons.prems [of v] obtain b where
    b: "to_vec v = Inr b" "newline \<notin> set b" "from_str (trim b) = Inr v" by auto
  from Cons obtain bs where
    bs: "write_frames to_vec [] vs = Inr bs" "read_frames (Suc (length vs)) from_str bs = Inr vs"
    by auto
  have w: "write_frames to_vec [] (v # vs) = Inr (b @ newline # bs)"
    using b bs write_frames_acc [of to_vec "b @ [newline]" vs] by (simp add: write_frame_pipe)
  have "read_frames (Suc (length (v # vs))) from_str (b @ newline # bs) = Inr (v # vs)"
    using frame_read_written [OF b(2), of from_str v bs] b(3) bs(2) by simp
  with w show ?case by blast
qed

text \<open>
  C35: frames written one after another to the worker pipe are read back in order, all of them and
  nothing else, ending cleanly at end of stream, whenever the JSON text of each message
  holds no newline and parses back to it.
\<close>

theorem frames_roundtrip:
  assumes "\<And>v. v \<in> set vs \<Longrightarrow>
      \<exists>b. to_vec v = Inr b \<and> newline \<notin> set b \<and> from_str (trim b) = Inr v"
  shows "\<exists>bs. write_frames to_vec [] vs = Inr bs \<and> read_frames (Suc (length vs)) from_str bs = Inr vs"
  by (rule read_frames_written [OF assms])

theorem frames_roundtrip_witness:
  "\<exists>bs. write_frames (\<lambda>n. Inr (show_u64 n)) [] [7, 42, 7] = Inr bs \<and>
     read_frames 4 (parse_u64_radix 10) bs = Inr [7, 42, 7]"
proof -
  have law: "\<exists>b. Inr (show_u64 n) = (Inr b :: string + string) \<and> newline \<notin> set b \<and>
      parse_u64_radix 10 (trim b) = Inr n" for n
    using show_radix_no_ws [of 10 newline "unat n"] show_radix_no_ws [of 10 _ "unat n"]
      parse_u64_radix_show [of 10 n] trim_no_ws [of "show_u64 n"] by auto
  have "Suc (length [7 :: u64, 42, 7]) = 4" by simp
  then show ?thesis
    using frames_roundtrip [of "[7, 42, 7]" "\<lambda>n. Inr (show_u64 n)" "parse_u64_radix 10", OF law]
    by (simp only:)
qed

end
