(* ===== verification/Worker_State.thy ===== *)
theory Worker_State
  imports Plan Protocol
begin

text \<open>
  \<open>crates/rmcp-worker/src/state.rs\<close>, the result cache of \<open>workflow.rs\<close> and the parameter helpers
  of \<open>dispatch.rs\<close>: the worker's state, the revision-keyed cache with its counters, request
  parameters and the revision guard. A handler is a function from the worker state to a
  result and the new state; \<open>wbind\<close> is the \<open>?\<close> operator. The directory the index is saved
  to is a field of the state, so that a handler's writes show in its result.
\<close>

section \<open>The result cache\<close>

type_synonym cache_key = "string \<times> string \<times> u64"

record workflow_cache =
  wc_entries :: "(cache_key, json) hashmap"
  wc_hits :: u64
  wc_misses :: u64

definition cache_default :: workflow_cache where
  "cache_default = \<lparr>wc_entries = [], wc_hits = 0, wc_misses = 0\<rparr>"

definition cache_get :: "cache_key \<Rightarrow> workflow_cache \<Rightarrow> json option \<times> workflow_cache" where
  "cache_get k c = (case map_of (wc_entries c) k of
       Some v \<Rightarrow> (Some v, c\<lparr>wc_hits := wc_hits c + 1\<rparr>)
     | None \<Rightarrow> (None, c\<lparr>wc_misses := wc_misses c + 1\<rparr>))"

definition cache_put :: "cache_key \<Rightarrow> json \<Rightarrow> workflow_cache \<Rightarrow> workflow_cache" where
  "cache_put k v c = c\<lparr>wc_entries := hm_insert k v (wc_entries c)\<rparr>"

definition invalidate_all :: "workflow_cache \<Rightarrow> workflow_cache" where
  "invalidate_all c = c\<lparr>wc_entries := []\<rparr>"

section \<open>Worker state\<close>

record worker_state =
  ws_backend :: "mock option"
  ws_closed :: bool
  ws_audit :: "json list"
  ws_index :: "(analysis_index \<times> string) option"
  ws_cache :: workflow_cache
  ws_disk :: fs

definition worker_new :: worker_state where
  "worker_new = \<lparr>ws_backend = None, ws_closed = False, ws_audit = [], ws_index = None,
     ws_cache = cache_default, ws_disk = Map.empty\<rparr>"

type_synonym 'a worker = "worker_state \<Rightarrow> 'a result \<times> worker_state"

definition wret :: "'a result \<Rightarrow> 'a worker" where
  "wret r st = (r, st)"

definition wbind :: "'a worker \<Rightarrow> ('a \<Rightarrow> 'b worker) \<Rightarrow> 'b worker" where
  "wbind m k st = (case m st of (Inl e, st') \<Rightarrow> (Inl e, st') | (Inr x, st') \<Rightarrow> k x st')"

definition need_backend :: "worker_state \<Rightarrow> mock result" where
  "need_backend st = (case ws_backend st of Some b \<Rightarrow> Inr b | None \<Rightarrow> Inl (Worker ''no db open''))"

text \<open>A call of a method that takes \<open>&self\<close>, and of one that takes \<open>&mut self\<close>.\<close>

definition ask :: "(mock \<Rightarrow> 'a result) \<Rightarrow> 'a worker" where
  "ask f st = (rbind (need_backend st) f, st)"

definition call_mut :: "(mock \<Rightarrow> 'a result \<times> mock) \<Rightarrow> 'a worker" where
  "call_mut f st = (case need_backend st of
       Inl e \<Rightarrow> (Inl e, st)
     | Inr b \<Rightarrow> (let (r, b') = f b in (r, st\<lparr>ws_backend := Some b'\<rparr>)))"

section \<open>Request parameters\<close>

definition parse_ea_param :: "string \<Rightarrow> u64 result" where
  "parse_ea_param s0 =
     (let s = trim s0;
          bad = (\<lambda>e. Worker (''bad ea '' @ quoted s @ '': '' @ e))
      in case (case strip_prefix s ''0x'' of Some h \<Rightarrow> Some h | None \<Rightarrow> strip_prefix s ''0X'') of
           Some h \<Rightarrow> rmap_err bad (parse_u64_radix 16 h)
         | None \<Rightarrow> rmap_err bad (parse_u64_radix 10 s))"

definition ea_param :: "json \<Rightarrow> string \<Rightarrow> u64 result" where
  "ea_param p k = (case jget p k of
       Some (JStr s) \<Rightarrow> parse_ea_param s
     | Some v \<Rightarrow> ok_or (as_u64 v) (Worker (''bad ea value for '' @ quoted k))
     | None \<Rightarrow> Inl (Worker (''missing '' @ quoted k)))"

fun ea_param_value :: "json \<Rightarrow> u64 result" where
  "ea_param_value (JStr s) = parse_ea_param s"
| "ea_param_value (JNum n) = ok_or (as_u64 (JNum n)) (Worker ''bad ea number'')"
| "ea_param_value (JFloat t) = Inl (Worker ''bad ea number'')"
| "ea_param_value _ = Inl (Worker ''bad ea value'')"

text \<open>An optional address: absent or \<open>null\<close> is none, anything else must be an address.\<close>

definition opt_ea_param :: "json \<Rightarrow> string \<Rightarrow> u64 option result" where
  "opt_ea_param p k = (case jget p k of
       Some v \<Rightarrow> if is_null v then Inr None else rmap Some (ea_param p k)
     | None \<Rightarrow> Inr None)"

text \<open>\<open>ea_param(target).or_else(ea_param(ea))\<close>.\<close>

definition target_param :: "json \<Rightarrow> u64 result" where
  "target_param p = (case ea_param p ''target'' of Inr x \<Rightarrow> Inr x | Inl _ \<Rightarrow> ea_param p ''ea'')"

definition str_param :: "json \<Rightarrow> string \<Rightarrow> string \<Rightarrow> string result" where
  "str_param p k msg = ok_or (param_str p k) (Worker msg)"

definition check_revision :: "json \<Rightarrow> mock \<Rightarrow> unit result" where
  "check_revision p b = (case jget p ''expected_revision'' of
       None \<Rightarrow> Inr ()
     | Some v \<Rightarrow>
         if is_null v then Inr ()
         else rbind (ok_or (as_u64 v) (Worker ''expected_revision must be an integer'')) (\<lambda>ex.
           if ex \<noteq> mock_revision b then Inl (RevisionConflict ex (mock_revision b)) else Inr ()))"

section \<open>Index and cache in the state\<close>

text \<open>
  The block every index-based method repeats: rebuild when there is no index or when its
  revision is not the backend's current one.
\<close>

definition index_stale :: "worker_state \<Rightarrow> u64 \<Rightarrow> bool" where
  "index_stale st current_rev = (case ws_index st of
       Some (idx, _) \<Rightarrow> ai_revision idx \<noteq> current_rev
     | None \<Rightarrow> True)"

definition ensure_index :: "(analysis_index \<times> string \<times> u64) worker" where
  "ensure_index st = (case need_backend st of
       Inl e \<Rightarrow> (Inl e, st)
     | Inr b \<Rightarrow>
         (let current_rev = mock_revision b in
          if index_stale st current_rev then
            (case mock_build_index b of
               Inl e \<Rightarrow> (Inl e, st)
             | Inr (idx, md5) \<Rightarrow> (Inr (idx, md5, current_rev), st\<lparr>ws_index := Some (idx, md5)\<rparr>))
          else
            (case ws_index st of
               Some (idx, md5) \<Rightarrow> (Inr (idx, md5, current_rev), st)
             | None \<Rightarrow> (Inl (Panic ''just built''), st))))"

definition cached_json :: "bool \<Rightarrow> u64 \<Rightarrow> json \<Rightarrow> json" where
  "cached_json hit hits v = JObj [(''cached'', JBool hit), (''cache_hits'', ju hits), (''result'', v)]"

text \<open>Serve from the cache, or compute, store and serve.\<close>

definition cached :: "cache_key \<Rightarrow> (mock \<Rightarrow> json result) \<Rightarrow> json worker" where
  "cached k compute st =
     (let (hit, c) = cache_get k (ws_cache st); st1 = st\<lparr>ws_cache := c\<rparr>
      in case hit of
           Some v \<Rightarrow> (Inr (cached_json True (wc_hits c) v), st1)
         | None \<Rightarrow> wbind (ask compute) (\<lambda>v st2.
             let c2 = cache_put k v (ws_cache st2)
             in (Inr (cached_json False (wc_hits c2) v), st2\<lparr>ws_cache := c2\<rparr>)) st1)"

section \<open>Facts about the pieces\<close>

lemma parse_ea_param_eq: "parse_ea_param s = parse_ea s"
  by (simp add: parse_ea_param_def parse_ea_def Let_def)

lemma ea_param_hex [simp]: "jget p k = Some (JStr (hex_alt w)) \<Longrightarrow> ea_param p k = Inr w"
  by (simp add: ea_param_def parse_ea_param_eq)

lemma wbind_wret [simp]: "wbind (wret (Inr x)) k = k x" "wbind (wret (Inl e)) k = wret (Inl e)"
  by (auto simp: wbind_def wret_def)

end
