(* ===== verification/Transforms.thy ===== *)
theory Transforms
  imports Worker_State
begin

text \<open>
  \<open>crates/rmcp-worker/src/transforms.rs\<close>: deobfuscation transforms. \<open>propose\<close> finds patch sites in
  a disassembly and writes a plan, \<open>validate\<close> checks a plan against the live backend, and
  \<open>apply\<close> takes a snapshot and runs the plan. \<open>+\<close> on addresses wraps, as in a release build.
\<close>

definition MAX_SITES :: usize where
  "MAX_SITES = 16"

definition NOP :: string where
  "NOP = ''90''"

datatype transform_kind = T1OpaqueBranch | T2JunkRemoval | T3IndirectMaterialize | T4Unflatten

definition transform_parse :: "string \<Rightarrow> transform_kind result" where
  "transform_parse s =
     (if s = ''T1_opaque_branch'' then Inr T1OpaqueBranch
      else if s = ''T2_junk_removal'' then Inr T2JunkRemoval
      else if s = ''T3_indirect_materialize'' then Inr T3IndirectMaterialize
      else if s = ''T4_unflatten'' then Inr T4Unflatten
      else Inl (Worker (''unknown transform kind '' @ quoted s @
        '' (T1_opaque_branch|T2_junk_removal|T3_indirect_materialize|T4_unflatten)'')))"

fun transform_name :: "transform_kind \<Rightarrow> string" where
  "transform_name T1OpaqueBranch = ''T1_opaque_branch''"
| "transform_name T2JunkRemoval = ''T2_junk_removal''"
| "transform_name T3IndirectMaterialize = ''T3_indirect_materialize''"
| "transform_name T4Unflatten = ''T4_unflatten''"

record site =
  st_ea :: u64
  st_len :: usize
  st_evidence :: json

section \<open>Finding sites\<close>

definition operand_parts :: "string \<Rightarrow> string list" where
  "operand_parts s = map trim (split_char (CHR '','') s)"

definition insn_len :: "string \<Rightarrow> usize" where
  "insn_len t = max (count_words False t) 1"

definition is_reg :: "string \<Rightarrow> bool" where
  "is_reg ops \<longleftrightarrow> ops \<in> {''eax'', ''ebx'', ''ecx'', ''edx'', ''esi'', ''edi'', ''ebp'', ''esp'',
     ''rax'', ''rbx'', ''rcx'', ''rdx'', ''rsi'', ''rdi'', ''rbp'', ''rsp''}"

text \<open>\<open>trim_start_matches\<close> strips the pattern as often as it occurs.\<close>

function trim_start_matches :: "string \<Rightarrow> string \<Rightarrow> string" where
  "trim_start_matches pat s =
     (if pat = [] then s else case strip_prefix s pat of None \<Rightarrow> s | Some r \<Rightarrow> trim_start_matches pat r)"
  by pat_completeness auto
termination
  by (relation "measure (\<lambda>(pat, s). length s)") (auto simp: strip_prefix_Some_iff)

declare trim_start_matches.simps [simp del]

definition parse_imm :: "string \<Rightarrow> u64 option" where
  "parse_imm s =
     (let t = trim_start_matches ''0X'' (trim_start_matches ''0x'' (trim s)) in
      if t = [] then None
      else case parse_u64_radix 16 t of
             Inr v \<Rightarrow> Some v
           | Inl _ \<Rightarrow> (case parse_u64_radix 10 (trim s) of Inr v \<Rightarrow> Some v | Inl _ \<Rightarrow> None))"

definition is_self_cmp :: "insn_info \<Rightarrow> bool" where
  "is_self_cmp insn =
     (let m = to_lowercase (in_mnemonic insn) in
      (m = ''cmp'' \<or> m = ''test'') \<and>
      (case operand_parts (in_operands insn) of
         [a, b] \<Rightarrow> eq_ignore_ascii_case a b \<and> a \<noteq> ''?''
       | _ \<Rightarrow> False))"

definition is_cond_jump :: "insn_info \<Rightarrow> bool" where
  "is_cond_jump insn \<longleftrightarrow> to_lowercase (in_mnemonic insn) \<in> {''jz'', ''jnz'', ''je'', ''jne''}"

text \<open>The loops over the disassembly; the list argument is what is still to be visited.\<close>

fun opaque_loop :: "insn_info list \<Rightarrow> site list \<Rightarrow> site list" where
  "opaque_loop [] sites = sites"
| "opaque_loop (insn # rest) sites =
     (case rest of
        next # _ \<Rightarrow>
          (if is_self_cmp insn \<and> is_cond_jump next then
             (let sites' = sites @ [\<lparr>st_ea = in_ea insn,
                    st_len = min (insn_len (in_text insn) + max (length (in_text next)) 1) 16,
                    st_evidence = JObj [(''pattern'', JStr (to_lowercase (in_mnemonic insn) @ ''_reg_reg'')),
                                        (''text'', JStr (in_text insn))]\<rparr>]
              in if length sites' \<ge> MAX_SITES then sites' else opaque_loop rest sites')
           else opaque_loop rest sites)
      | [] \<Rightarrow> opaque_loop rest sites)"

definition is_mem :: "string \<Rightarrow> bool" where
  "is_mem s \<longleftrightarrow> s = ''Displ'' \<or> s = ''Phrase''"

definition pair_is_roundtrip :: "insn_info list \<Rightarrow> bool" where
  "pair_is_roundtrip l = (case l of
       a # b # _ \<Rightarrow>
         eq_ignore_ascii_case (in_mnemonic a) ''mov'' \<and> eq_ignore_ascii_case (in_mnemonic b) ''mov'' \<and>
         (case (operand_parts (in_operands a), operand_parts (in_operands b)) of
            ([a0, a1], [b0, b1]) \<Rightarrow>
              (is_mem a0 \<and> a1 = ''Reg'' \<and> b0 = ''Reg'' \<and> is_mem b1) \<or>
              (a0 = ''Reg'' \<and> is_mem a1 \<and> b0 = ''Reg'' \<and> is_mem b1)
          | _ \<Rightarrow> False)
     | _ \<Rightarrow> False)"

function junk_loop :: "insn_info list \<Rightarrow> site list \<Rightarrow> site list" where
  "junk_loop l sites = (case l of
       [] \<Rightarrow> sites
     | a # rest \<Rightarrow>
         (if pair_is_roundtrip l then
            (let sites' = sites @ [\<lparr>st_ea = in_ea a,
                   st_len = min (insn_len (in_text a)
                              + (case rest of n # _ \<Rightarrow> insn_len (in_text n) | [] \<Rightarrow> 1)) 16,
                   st_evidence = JObj [(''pattern'', JStr ''store_load_roundtrip''),
                     (''site'', JStr (in_text a)),
                     (''follower'', JStr (case rest of n # _ \<Rightarrow> in_text n | [] \<Rightarrow> []))]\<rparr>]
             in if length sites' \<ge> MAX_SITES then sites' else junk_loop (drop 2 l) sites')
          else junk_loop rest sites))"
  by pat_completeness auto
termination
  by (relation "measure (\<lambda>(l, _). length l)") auto

declare junk_loop.simps [simp del]

text \<open>The constants assigned to the register in the six instructions before the jump (newest first).\<close>

definition look_back :: "string \<Rightarrow> insn_info list \<Rightarrow> u64 list" where
  "look_back ops prevs = sort_dedup (List.map_filter (\<lambda>prev.
     if eq_ignore_ascii_case (in_mnemonic prev) ''mov'' then
       (case operand_parts (in_operands prev) of
          [a, b] \<Rightarrow> if eq_ignore_ascii_case a ops then parse_imm b else None
        | _ \<Rightarrow> None)
     else None) (take 6 prevs))"

fun indirect_loop :: "insn_info list \<Rightarrow> insn_info list \<Rightarrow> site list \<Rightarrow> site list" where
  "indirect_loop prevs [] sites = sites"
| "indirect_loop prevs (insn # rest) sites =
     (let ops = to_lowercase (trim (in_operands insn)) in
      if to_lowercase (in_mnemonic insn) \<noteq> ''jmp'' \<or> \<not> is_reg ops
      then indirect_loop (insn # prevs) rest sites
      else case look_back ops prevs of
             [v] \<Rightarrow>
               (let sites' = sites @ [\<lparr>st_ea = in_ea insn, st_len = min (insn_len (in_text insn)) 16,
                      st_evidence = JObj [(''pattern'', JStr ''jmp_reg_const''), (''reg'', JStr ops),
                                          (''target'', JStr (hex_alt v))]\<rparr>]
                in if length sites' \<ge> MAX_SITES then sites' else indirect_loop (insn # prevs) rest sites')
           | _ \<Rightarrow> indirect_loop (insn # prevs) rest sites)"

definition opaque_sites :: "mock \<Rightarrow> u64 \<Rightarrow> u64 \<Rightarrow> site list result" where
  "opaque_sites b target end' =
     rmap (\<lambda>l. opaque_loop l []) (mock_disassemble target (Some end') 2000 b)"

definition junk_sites :: "mock \<Rightarrow> u64 \<Rightarrow> u64 \<Rightarrow> site list result" where
  "junk_sites b target end' =
     rmap (\<lambda>l. junk_loop l []) (mock_disassemble target (Some end') 2000 b)"

definition indirect_sites :: "mock \<Rightarrow> u64 \<Rightarrow> u64 \<Rightarrow> site list result" where
  "indirect_sites b target end' =
     rmap (\<lambda>l. indirect_loop [] l []) (mock_disassemble target (Some end') 2000 b)"

section \<open>Propose\<close>

definition site_op :: "site \<Rightarrow> json" where
  "site_op s = JObj [(''kind'', JStr ''patch_bytes''), (''ea'', JStr (hex_alt (st_ea s))),
     (''hex'', JStr (concat (replicate (st_len s) NOP)))]"

definition site_evidence_row :: "site \<Rightarrow> json" where
  "site_evidence_row s = JObj [(''ea'', JStr (hex_alt (st_ea s))), (''len'', jn (st_len s)),
     (''evidence'', st_evidence s)]"

definition plan_of_sites :: "function_facts \<Rightarrow> u64 \<Rightarrow> transform_kind \<Rightarrow> site list \<Rightarrow> json" where
  "plan_of_sites f target kind sites =
     (let ops = map site_op (take MAX_SITES sites) in JObj [
       (''transform_id'', JStr (to_lowercase (transform_name kind) @ ''-'' @ hex_lower target @ ''-''
                               @ show_nat (length sites))),
       (''kind'', JStr (transform_name kind)), (''target'', JStr (hex_alt target)),
       (''function'', JStr (ff_name f)), (''proposable'', JBool (ops \<noteq> [])),
       (''truncated'', JBool (length sites > MAX_SITES)), (''risk'', JStr ''low''),
       (''reversible'', JBool True), (''requires_microcode'', JBool False),
       (''evidence'', JArr (map site_evidence_row (take MAX_SITES sites))),
       (''operations'', JArr ops),
       (''note'', JStr ''patch-level transform; validate re-checks bytes/xrefs at apply time'')])"

definition propose :: "mock \<Rightarrow> analysis_index \<Rightarrow> u64 \<Rightarrow> transform_kind \<Rightarrow> json result" where
  "propose b idx target kind = (case bt_get (ai_functions idx) target of
       None \<Rightarrow> Inl (Worker (''no function at '' @ hex_alt target))
     | Some f \<Rightarrow> (case kind of
           T4Unflatten \<Rightarrow> Inr (JObj [
             (''transform_id'', JStr (''t4-unflatten-'' @ hex_lower target)),
             (''kind'', JStr (transform_name kind)), (''target'', JStr (hex_alt target)),
             (''proposable'', JBool False), (''reason'', JStr ''requires_microcode''),
             (''note'', JStr ''dispatcher elimination needs the microcode transform stack; no plan emitted'')])
         | T1OpaqueBranch \<Rightarrow> rmap (plan_of_sites f target kind) (opaque_sites b target (ff_ea_end f))
         | T2JunkRemoval \<Rightarrow> rmap (plan_of_sites f target kind) (junk_sites b target (ff_ea_end f))
         | T3IndirectMaterialize \<Rightarrow> rmap (plan_of_sites f target kind) (indirect_sites b target (ff_ea_end f))))"

section \<open>Validate\<close>

definition transforms_parse_ea :: "string \<Rightarrow> u64 result" where
  "transforms_parse_ea s =
     (let t = trim s; bad = (\<lambda>e. Worker (''bad ea '' @ quoted s @ '': '' @ e))
      in case (case strip_prefix t ''0x'' of Some h \<Rightarrow> Some h | None \<Rightarrow> strip_prefix t ''0X'') of
           Some h \<Rightarrow> rmap_err bad (parse_u64_radix 16 h)
         | None \<Rightarrow> rmap_err bad (parse_u64_radix 10 t))"

text \<open>The non-flow references into \<open>len\<close> bytes from \<open>ea\<close>.\<close>

definition site_xrefs :: "mock \<Rightarrow> u64 \<Rightarrow> nat \<Rightarrow> xref_info list result" where
  "site_xrefs b ea len = rmap (\<lambda>xss. filter (\<lambda>x. xr_kind x \<noteq> ''flow'') (concat xss))
     (rcollect (map (\<lambda>a. mock_xrefs_to (ea + of_nat a) b) [0..<len]))"

definition has_inbound_xrefs :: "mock \<Rightarrow> u64 \<Rightarrow> u64 \<Rightarrow> json list result" where
  "has_inbound_xrefs b start len = rmap (\<lambda>xs. map (\<lambda>(a, x). JObj [
       (''ea'', JStr (hex_alt (start + of_nat a))), (''from'', JStr (hex_alt (xr_from x))), (''kind'', JStr (xr_kind x))])
       (filter (\<lambda>(a, x). xr_kind x \<noteq> ''flow'') (concat xs)))
     (rcollect (map (\<lambda>a. rmap (map (Pair a)) (mock_xrefs_to (start + of_nat a) b)) [0..<unat len]))"

text \<open>One turn of the loop of \<open>validate\<close>: an error, or the rejection it pushes, if any.\<close>

definition check_site :: "mock \<Rightarrow> function_info \<Rightarrow> nat \<times> json \<Rightarrow> json option result" where
  "check_site b f p = (case p of (i, op) \<Rightarrow>
     (case as_str (jidx op ''ea'') of
        None \<Rightarrow> Inr (Some (JObj [(''index'', jn i), (''reason'', JStr ''malformed_op'')]))
      | Some ea_s \<Rightarrow> rbind (transforms_parse_ea ea_s) (\<lambda>ea.
          let len = length (unwrap_or (as_str (jidx op ''hex'')) []) div 2; stop = ea + of_nat len in
          if ea < fi_ea_start f \<or> stop > fi_ea_end f then
            Inr (Some (JObj [(''index'', jn i), (''ea'', JStr ea_s), (''reason'', JStr ''outside_target_function''),
              (''detail'', JStr (''site ['' @ hex_alt ea @ '','' @ hex_alt stop @ '') not inside [''
                 @ hex_alt (fi_ea_start f) @ '','' @ hex_alt (fi_ea_end f) @ '')''))]))
          else rbind (site_xrefs b ea len) (\<lambda>hits.
            if hits \<noteq> [] then
              Inr (Some (JObj [(''index'', jn i), (''ea'', JStr ea_s), (''reason'', JStr ''inbound_xrefs''),
                (''detail'', JStr ''site bytes are referenced; NOPs would corrupt callers''),
                (''xrefs'', JArr (map (\<lambda>x. JObj [(''from'', JStr (hex_alt (xr_from x))), (''kind'', JStr (xr_kind x))]) hits))]))
            else rbind (mock_get_bytes ea len b) (\<lambda>raw.
              Inr (if unwrap_or (as_str (jidx raw ''hex'')) [] = []
                   then Some (JObj [(''index'', jn i), (''ea'', JStr ea_s), (''reason'', JStr ''bytes_unreadable'')])
                   else None))))))"

definition validate :: "mock \<Rightarrow> json \<Rightarrow> json result" where
  "validate b pl =
     (let kind = unwrap_or (as_str (jidx pl ''kind'')) [] in
      rbind (transforms_parse_ea (unwrap_or (as_str (jidx pl ''target'')) ''0'')) (\<lambda>target.
        case mock_function_at target b of
          Inl e \<Rightarrow> Inr (JObj [(''valid'', JBool False), (''kind'', JStr kind),
            (''rejections'', JArr [JObj [(''reason'', JStr ''target_function_gone''), (''detail'', JStr (error_to_string e))]])])
        | Inr f \<Rightarrow>
            (let ops = unwrap_or (as_array (jidx pl ''operations'')) [] in
             rmap (\<lambda>rs. let rejections = List.map_filter id rs in JObj [
                 (''valid'', JBool (rejections = [])), (''kind'', JStr kind),
                 (''operations'', jn (length ops)), (''rejections'', JArr rejections)])
               (rcollect (map (check_site b f) (enumerate0 ops))))))"

section \<open>Apply\<close>

definition decompile_summary :: "json result \<Rightarrow> json" where
  "decompile_summary r = (case r of
       Inr d \<Rightarrow> (let t = as_str (jidx d ''pseudocode'') in JObj [
         (''pseudocode_len'', jopt (\<lambda>s. jn (length s)) t),
         (''lines'', jopt (\<lambda>s. jn (count_lines s)) t),
         (''sha_prefix'', jopt (\<lambda>s. JStr (hex16 (fnv1a 0xcbf29ce484222325 s))) t)])
     | Inl _ \<Rightarrow> JObj [(''unavailable'', JBool True)])"

definition json_len :: "json result \<Rightarrow> string \<Rightarrow> json" where
  "json_len r k = (case r of
       Inl _ \<Rightarrow> JNull
     | Inr g \<Rightarrow> jopt (\<lambda>a. jn (length a)) (as_array (jidx g k)))"

text \<open>
  \<open>state.backend.expect("backend")\<close> panics when no backend is selected. The operations are parsed
  only after the snapshot is taken. The audit trail is moved out of the state while the plan runs,
  so a panic of an operation leaves the state without it.
\<close>

definition transforms_apply :: "json \<Rightarrow> u64 option \<Rightarrow> json worker" where
  "transforms_apply pl ex st =
     (let ops_json = unwrap_or (as_array (jidx pl ''operations'')) [] in
      if ops_json = [] then (Inl (Worker ''plan has no operations''), st)
      else case transforms_parse_ea (unwrap_or (as_str (jidx pl ''target'')) ''0'') of
        Inl e \<Rightarrow> (Inl e, st)
      | Inr target \<Rightarrow>
        (let kind = unwrap_or (as_str (jidx pl ''kind'')) ''unknown'' in
         case ws_backend st of
           None \<Rightarrow> (Inl (Panic ''backend''), st)
         | Some b0 \<Rightarrow>
           (case check_plan_revision b0 ex of
              Inl e \<Rightarrow> (Inl e, st)
            | Inr _ \<Rightarrow>
              (case mock_snapshot_create b0 of
                 (Inl e, b1) \<Rightarrow> (Inl e, st\<lparr>ws_backend := Some b1\<rparr>)
               | (Inr snapshot, b1) \<Rightarrow>
                 (let before = mock_decompile target b1; st1 = st\<lparr>ws_backend := Some b1\<rparr> in
                  case parse_operations ops_json of
                    Inl e \<Rightarrow> (Inl e, st1)
                  | Inr ops \<Rightarrow>
                    (case plan_apply b1 ops (ws_audit st) of
                      (Inl (Panic m), b2, audit) \<Rightarrow> (Inl (Panic m), st\<lparr>ws_backend := Some b2, ws_audit := []\<rparr>)
                    | (Inl e, b2, audit) \<Rightarrow> (Inl e, st\<lparr>ws_backend := Some b2, ws_audit := audit\<rparr>)
                    | (Inr applied, b2, audit) \<Rightarrow>
                      (let after = mock_decompile target b2;
                           cfg = mock_graph target \<lparr>gp_kind = ''cfg'', gp_depth = 1, gp_max_nodes = 400,
                                                     gp_max_edges = 800\<rparr> b2
                       in (Inr (JObj [
                             (''transform_id'', jidx pl ''transform_id''), (''kind'', JStr kind),
                             (''target'', jidx pl ''target''), (''applied'', applied),
                             (''before'', decompile_summary before), (''after'', decompile_summary after),
                             (''cfg_after'', JObj [(''nodes'', json_len cfg ''nodes''), (''edges'', json_len cfg ''edges'')]),
                             (''snapshot'', snapshot),
                             (''rollback'', JStr ''ida_deobfuscate action=rollback (or ida_mutation action=rollback)'')]),
                           st\<lparr>ws_backend := Some b2, ws_audit := audit\<rparr>))))))))"

section \<open>Proposals are bounded NOP patches of instructions of the function\<close>

definition sites_ok :: "u64 set \<Rightarrow> site list \<Rightarrow> bool" where
  "sites_ok eas sites \<longleftrightarrow> length sites \<le> MAX_SITES \<and>
     (\<forall>s \<in> set sites. 1 \<le> st_len s \<and> st_len s \<le> 16 \<and> st_ea s \<in> eas)"

lemma insn_len_pos: "1 \<le> insn_len t"
  by (simp add: insn_len_def)

lemma sites_ok_snoc:
  "sites_ok eas sites \<Longrightarrow> length sites < MAX_SITES \<Longrightarrow> ea \<in> eas \<Longrightarrow> 1 \<le> n \<Longrightarrow> n \<le> 16 \<Longrightarrow>
     sites_ok eas (sites @ [\<lparr>st_ea = ea, st_len = n, st_evidence = ev\<rparr>])"
  by (auto simp: sites_ok_def)

lemma opaque_loop_ok:
  "sites_ok eas sites \<Longrightarrow> length sites < MAX_SITES \<Longrightarrow> in_ea ` set l \<subseteq> eas \<Longrightarrow> sites_ok eas (opaque_loop l sites)"
proof (induction l sites rule: opaque_loop.induct)
  case (2 insn rest sites)
  show ?case
  proof (cases rest)
    case (Cons n ns)
    let ?new = "sites @ [\<lparr>st_ea = in_ea insn,
                    st_len = min (insn_len (in_text insn) + max (length (in_text n)) 1) 16,
                    st_evidence = JObj [(''pattern'', JStr (to_lowercase (in_mnemonic insn) @ ''_reg_reg'')),
                                        (''text'', JStr (in_text insn))]\<rparr>]"
    have "sites_ok eas ?new"
      using 2 insn_len_pos [of "in_text insn"] by (intro sites_ok_snoc) auto
    with 2 Cons show ?thesis by (auto simp: Let_def)
  qed (use 2 in simp)
qed simp

lemma junk_loop_ok:
  "sites_ok eas sites \<Longrightarrow> length sites < MAX_SITES \<Longrightarrow> in_ea ` set l \<subseteq> eas \<Longrightarrow> sites_ok eas (junk_loop l sites)"
proof (induction l sites rule: junk_loop.induct)
  case (1 l sites)
  show ?case
  proof (cases l)
    case (Cons a rest)
    let ?new = "sites @ [\<lparr>st_ea = in_ea a,
                   st_len = min (insn_len (in_text a)
                              + (case rest of n # _ \<Rightarrow> insn_len (in_text n) | [] \<Rightarrow> 1)) 16,
                   st_evidence = JObj [(''pattern'', JStr ''store_load_roundtrip''),
                     (''site'', JStr (in_text a)),
                     (''follower'', JStr (case rest of n # _ \<Rightarrow> in_text n | [] \<Rightarrow> []))]\<rparr>]"
    have new: "sites_ok eas ?new"
      using 1 Cons insn_len_pos [of "in_text a"] by (intro sites_ok_snoc) auto
    have "in_ea ` set (drop 2 l) \<subseteq> eas" "in_ea ` set rest \<subseteq> eas"
      using 1(5) Cons by (auto dest: in_set_dropD)
    with new 1 Cons show ?thesis by (subst junk_loop.simps) (auto simp: Let_def)
  qed (use 1 in \<open>simp add: junk_loop.simps\<close>)
qed

lemma indirect_loop_ok:
  "sites_ok eas sites \<Longrightarrow> length sites < MAX_SITES \<Longrightarrow> in_ea ` set l \<subseteq> eas \<Longrightarrow>
     sites_ok eas (indirect_loop prevs l sites)"
proof (induction prevs l sites rule: indirect_loop.induct)
  case (2 prevs insn rest sites)
  let ?ops = "to_lowercase (trim (in_operands insn))"
  have new: "sites_ok eas (sites @ [\<lparr>st_ea = in_ea insn, st_len = min (insn_len (in_text insn)) 16,
      st_evidence = ev\<rparr>])" for ev
    using 2 insn_len_pos [of "in_text insn"] by (intro sites_ok_snoc) auto
  show ?case
    using 2 new by (auto simp: Let_def split: list.splits)
qed simp

lemma site_op_parses:
  "parse_op (i, site_op s) = Inr \<lparr>po_kind = PPatchBytes (concat (replicate (st_len s) NOP)), po_ea = st_ea s\<rparr>"
  by (simp add: parse_op_def site_op_def param_defs parse_kind_def)

lemma parse_site_ops:
  "parse_operations (map site_op sites) = Inr (map (\<lambda>s. \<lparr>po_kind = PPatchBytes (concat (replicate (st_len s) NOP)),
     po_ea = st_ea s\<rparr>) sites)"
  unfolding parse_operations_def rcollect_Inr_iff
  by (rule nth_equalityI) (simp_all add: site_op_parses)

text \<open>
  Whatever the disassembly, a plan proposed from the sites of any of the three site finders has
  at most 16 operations; they parse, and each is a patch of one to 16 NOP bytes at the address
  of an instruction of that disassembly.
\<close>

lemma proposed_plan_bounded_nops:
  assumes "sites = opaque_loop l [] \<or> sites = junk_loop l [] \<or> sites = indirect_loop [] l []"
  shows "\<exists>ops pops. jidx (plan_of_sites f target kind sites) ''operations'' = JArr ops \<and>
     length ops \<le> 16 \<and> parse_operations ops = Inr pops \<and>
     (\<forall>p \<in> set pops. po_ea p \<in> in_ea ` set l \<and>
        (\<exists>n. 1 \<le> n \<and> n \<le> 16 \<and> po_kind p = PPatchBytes (concat (replicate n ''90''))))"
proof -
  have "sites_ok (in_ea ` set l) sites"
    using assms opaque_loop_ok [of "in_ea ` set l" "[]" l] junk_loop_ok [of "in_ea ` set l" "[]" l]
      indirect_loop_ok [of "in_ea ` set l" "[]" l "[]"]
    by (auto simp: sites_ok_def MAX_SITES_def)
  then have ok: "\<forall>s \<in> set sites. 1 \<le> st_len s \<and> st_len s \<le> 16 \<and> st_ea s \<in> in_ea ` set l"
    by (simp add: sites_ok_def)
  let ?ss = "take MAX_SITES sites"
  have "jidx (plan_of_sites f target kind sites) ''operations'' = JArr (map site_op ?ss)"
    by (simp add: plan_of_sites_def Let_def)
  moreover have "length (map site_op ?ss) \<le> 16" by (simp add: MAX_SITES_def)
  moreover have "\<forall>p \<in> set (map (\<lambda>s. \<lparr>po_kind = PPatchBytes (concat (replicate (st_len s) NOP)), po_ea = st_ea s\<rparr>) ?ss).
      po_ea p \<in> in_ea ` set l \<and> (\<exists>n. 1 \<le> n \<and> n \<le> 16 \<and> po_kind p = PPatchBytes (concat (replicate n ''90'')))"
    using ok by (auto simp: NOP_def dest!: in_set_takeD)
  ultimately show ?thesis using parse_site_ops [of ?ss] by blast
qed

abbreviation xor_pair :: "insn_info list" where
  "xor_pair \<equiv> [\<lparr>in_ea = 0x401000, in_mnemonic = ''cmp'', in_operands = ''a, a'', in_text = ''cmp a, a''\<rparr>,
     \<lparr>in_ea = 0x401002, in_mnemonic = ''jnz'', in_operands = ''b'', in_text = ''jnz b''\<rparr>]"

lemmas text_fun_eval = operand_parts_def trim_def is_ws_def to_lowercase_def ascii_lower_def
  eq_ignore_ascii_case_def insn_len_def

text \<open>
  Two consecutive loads from memory into registers count as a junk \<open>store/load\<close> pair: the second
  alternative of \<open>pair_is_roundtrip\<close> tests load after load where its comment says load after store.
\<close>

theorem load_load_pair_is_junk:
  "pair_is_roundtrip
     [\<lparr>in_ea = 1, in_mnemonic = ''mov'', in_operands = ''Reg,Displ'', in_text = ''mov eax, [esp+4]''\<rparr>,
      \<lparr>in_ea = 5, in_mnemonic = ''mov'', in_operands = ''Reg,Phrase'', in_text = ''mov ecx, [ebx]''\<rparr>]"
  by (simp add: pair_is_roundtrip_def is_mem_def text_fun_eval)

section \<open>Validation\<close>

lemma rcollect_map_Inr:
  "rcollect (map f xs) = Inr ys \<longleftrightarrow> length ys = length xs \<and> (\<forall>i < length xs. f (xs ! i) = Inr (ys ! i))"
  by (auto simp: rcollect_Inr_iff list_eq_iff_nth_eq)

lemma map_filter_id_Nil: "List.map_filter id rs = [] \<longleftrightarrow> (\<forall>r \<in> set rs. r = None)"
  by (auto simp: List.map_filter_def filter_empty_conv)

lemma site_xrefs_NilD:
  assumes "site_xrefs b ea len = Inr []" and "a < len"
  shows "\<exists>xs. mock_xrefs_to (ea + of_nat a) b = Inr xs \<and> (\<forall>x \<in> set xs. xr_kind x = ''flow'')"
proof -
  from assms(1) obtain xss where c: "rcollect (map (\<lambda>a. mock_xrefs_to (ea + of_nat a) b) [0..<len]) = Inr xss"
    and e: "[] = filter (\<lambda>x. xr_kind x \<noteq> ''flow'') (concat xss)"
    unfolding site_xrefs_def rmap_eq_Inr by (elim exE conjE)
  have f: "\<forall>x \<in> set (concat xss). xr_kind x = ''flow''"
    using e [symmetric] unfolding filter_empty_conv by blast
  from c assms(2) have "a < length xss" "mock_xrefs_to (ea + of_nat a) b = Inr (xss ! a)"
    by (auto simp: rcollect_map_Inr)
  with f show ?thesis by (fastforce dest: nth_mem)
qed

lemma check_site_NoneD:
  assumes "check_site b f (i, op) = Inr None"
  shows "\<exists>ea_s ea. as_str (jidx op ''ea'') = Some ea_s \<and> transforms_parse_ea ea_s = Inr ea \<and>
     fi_ea_start f \<le> ea \<and>
     ea + of_nat (length (unwrap_or (as_str (jidx op ''hex'')) []) div 2) \<le> fi_ea_end f \<and>
     site_xrefs b ea (length (unwrap_or (as_str (jidx op ''hex'')) []) div 2) = Inr []"
  using assms
  by (auto simp: check_site_def Let_def result_simps not_less split: option.splits if_splits)

lemma u64_end_le: "(ea :: u64) + of_nat n \<le> e \<Longrightarrow> 2 ^ 64 \<le> unat ea + n \<or> unat ea + n \<le> unat e"
proof -
  assume "ea + of_nat n \<le> e"
  then have "(unat ea + n) mod 2 ^ 64 \<le> unat e"
    by (simp add: word_le_nat_alt unat_word_ariths unat_of_nat take_bit_nat_def mod_simps)
  then show ?thesis by (cases "unat ea + n < 2 ^ 64") simp_all
qed

text \<open>
  C7: a plan that \<open>validate\<close> accepts names a live function, and each of its operations is a site whose
  address parses and starts at or after the function's start, and into none of whose bytes any
  reference other than plain flow leads; unless the site runs past the last address, its end does not
  exceed the end of the function either, in exact arithmetic. (The end is computed in 64 bits: a site
  across the last address wraps and is not caught, see \<open>wrapping_site_is_accepted\<close>.)
\<close>

theorem validate_accepts_only_unreferenced_sites:
  assumes "validate b pl = Inr j" and "jidx j ''valid'' = JBool True"
    and "as_array (jidx pl ''operations'') = Some ops" and "op \<in> set ops"
  shows "\<exists>target f ea_s ea. transforms_parse_ea (unwrap_or (as_str (jidx pl ''target'')) ''0'') = Inr target \<and>
     mock_function_at target b = Inr f \<and>
     as_str (jidx op ''ea'') = Some ea_s \<and> transforms_parse_ea ea_s = Inr ea \<and> fi_ea_start f \<le> ea \<and>
     (let len = length (unwrap_or (as_str (jidx op ''hex'')) []) div 2 in
        (2 ^ 64 \<le> unat ea + len \<or> unat ea + len \<le> unat (fi_ea_end f)) \<and>
        (\<forall>a < len. \<exists>xs. mock_xrefs_to (ea + of_nat a) b = Inr xs \<and> (\<forall>x \<in> set xs. xr_kind x = ''flow'')))"
proof -
  from assms(1) obtain target where t: "transforms_parse_ea (unwrap_or (as_str (jidx pl ''target'')) ''0'') = Inr target"
    by (auto simp: validate_def Let_def result_simps)
  show ?thesis
  proof (cases "mock_function_at target b")
    case (Inl e)
    with assms t show ?thesis by (auto simp: validate_def Let_def)
  next
    case (Inr f)
    with assms t obtain rs where rs: "rcollect (map (check_site b f) (enumerate0 ops)) = Inr rs"
      and none: "\<forall>r \<in> set rs. r = None"
      by (auto simp: validate_def Let_def rmap_eq_Inr map_filter_id_Nil)
    obtain i where i: "i < length ops" "ops ! i = op" using assms(4) by (auto simp: in_set_conv_nth)
    have "check_site b f (i, op) = Inr None"
      using rs none i by (auto simp: rcollect_map_Inr)
    from check_site_NoneD [OF this] show ?thesis
      using t Inr by (fastforce simp: Let_def dest: site_xrefs_NilD u64_end_le)
  qed
qed

abbreviation nop_plan :: json where
  "nop_plan \<equiv> JObj [(''target'', JStr ''4198400''), (''operations'',
     JArr [JObj [(''ea'', JStr ''4198400''), (''hex'', JStr ''90'')]])]"

lemma parse_main_ea: "transforms_parse_ea ''4198400'' = Inr 0x401000"
  by (simp add: transforms_parse_ea_def trim_def is_ws_def parse_u64_radix_def from_str_radix_def
      parse_digits_def char_digit_def from_digits_def)

theorem validate_accepts_only_unreferenced_sites_witness:
  "\<exists>j. validate mock_opened nop_plan = Inr j \<and> jidx j ''valid'' = JBool True \<and>
     (\<exists>xs. mock_xrefs_to 0x401000 mock_opened = Inr xs \<and> (\<forall>x \<in> set xs. xr_kind x = ''flow''))"
proof -
  obtain j where j: "validate mock_opened nop_plan = Inr j" "jidx j ''valid'' = JBool True"
    by (simp add: validate_def Let_def parse_main_ea mock_function_at_def functions_vec_def
        require_open_def mock_new_def enumerate0_def check_site_def site_xrefs_def mock_xrefs_to_def
        mock_get_bytes_def bt_get_def hex_encode_def hex2_def pad_left_def List.map_filter_def)
  from validate_accepts_only_unreferenced_sites [OF j, of "[JObj [(''ea'', JStr ''4198400''), (''hex'', JStr ''90'')]]"] j
  show ?thesis by (auto simp: parse_main_ea)
qed

text \<open>
  The end of a site is computed with wrap-around: a one-byte site at the last address, far outside the
  function, passes the range test and is rejected only if its byte is referenced or cannot be read.
\<close>

lemma wrapping_site_is_accepted:
  "\<exists>f. mock_function_at 0x401000 mock_opened = Inr f \<and> fi_ea_end f < 0xFFFFFFFFFFFFFFFF \<and>
     check_site (mock_opened\<lparr>mb_bytes := bt_insert 0xFFFFFFFFFFFFFFFF [0x90] (mb_bytes mock_opened)\<rparr>) f
       (0, JObj [(''ea'', JStr ''0xffffffffffffffff''), (''hex'', JStr ''90'')]) = Inr None"
  by (simp add: mock_function_at_def functions_vec_def require_open_def mock_new_def check_site_def site_xrefs_def
      mock_xrefs_to_def mock_get_bytes_def bt_get_def hex_encode_def hex2_def pad_left_def
      transforms_parse_ea_def trim_def is_ws_def parse_u64_radix_def from_str_radix_def parse_digits_def char_digit_def
      from_digits_def Let_def)

section \<open>Apply and rollback\<close>

lemma transforms_apply_stale:
  assumes "ws_backend st = Some b" and "v \<noteq> mock_revision b"
  shows "\<exists>e. transforms_apply pl (Some v) st = (Inl e, st)"
  using assms
  by (auto simp: transforms_apply_def Let_def check_plan_revision_def check_revision_value_def split: sum.splits)

text \<open>
  A transform that was applied can be rolled back: restoring the snapshot afterwards gives the
  database back exactly as it was before the call (revision one further), even when the plan failed
  half way; a request whose expected revision is stale is refused without touching anything.
\<close>

lemma transform_apply_rolls_back:
  assumes "ws_backend st = Some b" and "transforms_apply pl ex st = (r, st')"
  shows "(\<forall>v. ex = Some v \<and> v \<noteq> mock_revision b \<longrightarrow> \<not> is_ok r \<and> st' = st) \<and>
     (is_ok r \<longrightarrow> (\<exists>b'. ws_backend st' = Some b' \<and>
        snd (mock_snapshot_restore b') = b\<lparr>mb_revision := mb_revision b + 1\<rparr>))"
proof -
  have "\<not> is_ok r \<and> st' = st" if "ex = Some v" "v \<noteq> mock_revision b" for v
    using transforms_apply_stale [OF assms(1) that(2), of pl] that(1) assms(2) by auto
  moreover have "\<exists>b'. ws_backend st' = Some b' \<and>
        snd (mock_snapshot_restore b') = b\<lparr>mb_revision := mb_revision b + 1\<rparr>" if ok: "is_ok r"
  proof -
  obtain snap b1 ops j b2 audit where s: "mock_snapshot_create b = (Inr snap, b1)"
    and p: "plan_apply b1 ops (ws_audit st) = (j, b2, audit)" and b': "ws_backend st' = Some b2"
    using assms ok by (auto simp: transforms_apply_def Let_def split: if_splits sum.splits prod.splits error.splits)
  from plan_apply_run [OF p] obtain n e where
    run: "run_mutations (map mock_mut (map plan_mop ops)) b1 = (n, e, b2)" by auto
  have "open_path b \<noteq> None"
    using s by (auto simp: mock_snapshot_create_def require_open_def split: if_splits)
  with s run b' show ?thesis
    using snapshot_undo [of b "Inr snap" b1 "map plan_mop ops" n e b2 _ "snd (mock_snapshot_restore b2)"]
    by (metis prod.collapse)
  qed
  ultimately show ?thesis by blast
qed

abbreviation rename_plan :: json where
  "rename_plan \<equiv> JObj [(''target'', JStr ''4198400''),
     (''operations'', JArr [op_json \<lparr>po_kind = PRename ''x'', po_ea = 0x401000\<rparr>])]"

end
