(* ===== verification/Deep.thy ===== *)
theory Deep
  imports Workflow Transforms
begin

text \<open>
  \<open>crates/rmcp-worker/src/deep.rs\<close>: the recursive analysis of a function and its callees under budgets, with resume tokens, and
  the data-flow trace. The backend operation both use, \<open>deep_function_info\<close>, is an argument; the clock is the function
  that gives the \<open>n\<close>-th reading of \<open>Instant::now\<close> of a run. Budget counts are natural numbers within the ranges \<open>budgets_from\<close>
  clamps them to.
\<close>

section \<open>Budgets\<close>

record deep_budgets =
  db_depth :: nat
  db_max_functions :: nat
  db_max_iterations :: nat
  db_max_calls :: nat
  db_deadline :: "nat option"

definition time_left :: "deep_budgets \<Rightarrow> nat \<Rightarrow> bool" where
  "time_left b now = (case db_deadline b of None \<Rightarrow> True | Some d \<Rightarrow> now < d)"

definition default_budgets :: deep_budgets where
  "default_budgets = \<lparr>db_depth = 3, db_max_functions = 20, db_max_iterations = 5, db_max_calls = 24, db_deadline = None\<rparr>"

definition budgets_from :: "nat \<Rightarrow> json \<Rightarrow> deep_budgets" where
  "budgets_from now p = \<lparr>db_depth = clamp 1 8 (param_usize p ''depth'' 3),
     db_max_functions = clamp 1 100 (param_usize p ''max_functions'' 20),
     db_max_iterations = clamp 1 20 (param_usize p ''max_iterations'' 5),
     db_max_calls = clamp 1 200 (param_usize p ''max_calls'' 24),
     db_deadline = map_option (\<lambda>ms. now + clamp 1000 1800000 (unat ms)) (param_u64 p ''timeout_ms'')\<rparr>"

section \<open>Call sites\<close>

definition deep_parse_ea :: "string \<Rightarrow> u64" where
  "deep_parse_ea s = (case parse_u64_radix 16 (trim_start_matches ''0x'' (trim s)) of Inr v \<Rightarrow> v | Inl _ \<Rightarrow> 0)"

record deep_call_sites =
  cs_direct :: "(u64 \<times> u64) list"
  cs_indirect :: "u64 list"

definition str_of :: "json \<Rightarrow> string \<Rightarrow> string" where
  "str_of v k = unwrap_or (as_str (jidx v k)) []"

definition items_of :: "json \<Rightarrow> string \<Rightarrow> json list" where
  "items_of v k = unwrap_or (as_array (jidx v k)) []"

definition is_direct :: "json \<Rightarrow> bool" where
  "is_direct c = unwrap_or (as_bool (jidx c ''direct'')) False"

definition extract_call_sites :: "json \<Rightarrow> deep_call_sites" where
  "extract_call_sites info = \<lparr>
     cs_direct = map (\<lambda>c. (deep_parse_ea (str_of c ''call_ea''), deep_parse_ea (str_of c ''target_ea''))) (filter is_direct (items_of info ''calls'')),
     cs_indirect = map (\<lambda>c. deep_parse_ea (str_of c ''call_ea'')) (filter (\<lambda>c. \<not> is_direct c) (items_of info ''calls''))\<rparr>"

definition pending_callees :: "deep_call_sites \<Rightarrow> u64 list" where
  "pending_callees cs = map snd (cs_direct cs)"

definition render_prototype :: "json \<Rightarrow> string" where
  "render_prototype info = (let p = jidx info ''prototype'' in
     if \<not> unwrap_or (as_bool (jidx p ''known'')) False then []
     else str_of p ''ret_type'' @ ''('' @ join '', '' (List.map_filter as_str (items_of p ''arg_types'')) @ '')'')"

section \<open>The walk\<close>

record function_dossier =
  fd_ea :: u64
  fd_name :: string
  fd_prototype :: string
  fd_callees :: "(u64 \<times> u64) list"
  fd_indirect :: "u64 list"

record type_change =
  tc_ea :: u64
  tc_name :: string
  tc_iteration :: nat
  tc_from :: string
  tc_to :: string

type_synonym dossiers = "(u64, function_dossier) btree"
type_synonym info_reader = "u64 \<Rightarrow> usize \<Rightarrow> json result"

record deep_walk =
  wk_visited :: "u64 list"
  wk_dossiers :: dossiers
  wk_frontier :: "(u64 \<times> nat) list"
  wk_budget_hit :: bool

definition dossier_of :: "analysis_index \<Rightarrow> u64 \<Rightarrow> json \<Rightarrow> function_dossier" where
  "dossier_of idx ea info = \<lparr>fd_ea = ea, fd_name = function_name idx ea, fd_prototype = render_prototype info,
     fd_callees = cs_direct (extract_call_sites info), fd_indirect = cs_indirect (extract_call_sites info)\<rparr>"

definition new_callees :: "analysis_index \<Rightarrow> dossiers \<Rightarrow> nat \<Rightarrow> json \<Rightarrow> (u64 \<times> nat) list" where
  "new_callees idx ds depth info = map (\<lambda>c. (c, Suc depth))
     (filter (\<lambda>c. bt_get (ai_functions idx) c \<noteq> None \<and> bt_get ds c = None) (pending_callees (extract_call_sites info)))"

abbreviation bt_keys :: "('k, 'v) btree \<Rightarrow> 'k set" where
  "bt_keys m \<equiv> fst ` set m"

lemma unvisited_shrinks:
  assumes "bt_get m ea \<noteq> None" "ea \<notin> set vs"
  shows "card (bt_keys m - insert ea (set vs)) < card (bt_keys m - set vs)"
proof (rule psubset_card_mono)
  have "ea \<in> bt_keys m" using assms(1) by (auto simp: bt_get_def map_of_eq_None_iff)
  then show "bt_keys m - insert ea (set vs) \<subset> bt_keys m - set vs" using assms(2) by blast
qed simp

text \<open>
  \<open>while let Some((ea, depth)) = frontier.pop()\<close>: the frontier is a stack, its top last; \<open>n\<close> counts the readings of the clock.
  \<open>visited\<close> is kept as a list without repetitions.
\<close>

function walk_loop :: "info_reader \<Rightarrow> (nat \<Rightarrow> nat) \<Rightarrow> analysis_index \<Rightarrow> deep_budgets \<Rightarrow> nat \<Rightarrow> deep_walk \<Rightarrow> deep_walk result" where
  "walk_loop info_of clock idx b n w =
     (if wk_frontier w = [] then Inr w
      else case last (wk_frontier w) of (ea, depth) \<Rightarrow>
        let w1 = w\<lparr>wk_frontier := butlast (wk_frontier w)\<rparr> in
        if bt_get (wk_dossiers w) ea \<noteq> None \<or> bt_get (ai_functions idx) ea = None \<or> ea \<in> set (wk_visited w)
        then walk_loop info_of clock idx b n w1
        else if db_max_functions b < Suc (length (wk_visited w)) \<or> db_depth b \<le> depth \<or> \<not> time_left b (clock n)
        then Inr (w\<lparr>wk_budget_hit := True\<rparr>)
        else case info_of ea (db_max_calls b) of
          Inl e \<Rightarrow> Inl e
        | Inr info \<Rightarrow>
            let ds = bt_insert ea (dossier_of idx ea info) (wk_dossiers w)
            in walk_loop info_of clock idx b (Suc n)
                 (w1\<lparr>wk_visited := wk_visited w @ [ea], wk_dossiers := ds,
                     wk_frontier := butlast (wk_frontier w) @ new_callees idx ds depth info\<rparr>))"
  by pat_completeness auto
termination
  by (relation "measures [\<lambda>(_, _, idx, _, _, w). card (bt_keys (ai_functions idx) - set (wk_visited w)), \<lambda>(_, _, _, _, _, w). length (wk_frontier w)]")
    (auto simp: unvisited_shrinks)

declare walk_loop.simps [simp del]

section \<open>Resume tokens\<close>

definition restored_dossier :: "json \<Rightarrow> function_dossier" where
  "restored_dossier d = \<lparr>fd_ea = deep_parse_ea (str_of d ''ea''), fd_name = str_of d ''name'', fd_prototype = str_of d ''prototype'',
     fd_callees = List.map_filter (\<lambda>c. case (as_str (jidx c ''target_ea''), as_str (jidx c ''call_ea'')) of
         (Some t, Some k) \<Rightarrow> Some (deep_parse_ea t, deep_parse_ea k) | _ \<Rightarrow> None) (items_of d ''callees''),
     fd_indirect = List.map_filter (\<lambda>v. map_option deep_parse_ea (as_str v)) (items_of d ''indirect_calls'')\<rparr>"

definition insert_visited :: "u64 \<Rightarrow> u64 list \<Rightarrow> u64 list" where
  "insert_visited ea vs = (if ea \<in> set vs then vs else vs @ [ea])"

fun restore_loop :: "json list \<Rightarrow> deep_walk \<Rightarrow> deep_walk" where
  "restore_loop [] w = w"
| "restore_loop (d # ds) w =
     (let r = restored_dossier d in
      if fd_ea r = 0 then restore_loop ds w
      else restore_loop ds (w\<lparr>wk_dossiers := bt_insert (fd_ea r) r (wk_dossiers w), wk_visited := insert_visited (fd_ea r) (wk_visited w)\<rparr>))"

definition pending_of :: "u64 \<Rightarrow> json \<Rightarrow> (u64 \<times> nat) list" where
  "pending_of root token = (case as_array (jidx token ''pending'') of
       None \<Rightarrow> [(root, 0)]
     | Some ps \<Rightarrow> List.map_filter (\<lambda>p. case (as_str (jidx p ''ea''), as_u64 (jidx p ''depth'')) of
         (Some s, Some d) \<Rightarrow> Some (deep_parse_ea s, unat (ucast d :: u32)) | _ \<Rightarrow> None) ps)"

definition initial_walk :: "u64 \<Rightarrow> json option \<Rightarrow> deep_walk result" where
  "initial_walk root resume =
     (let fresh = \<lparr>wk_visited = [], wk_dossiers = [], wk_frontier = [(root, 0)], wk_budget_hit = False\<rparr> in
      case resume of
        None \<Rightarrow> Inr fresh
      | Some token \<Rightarrow> (case as_array (jidx token ''dossiers'') of
          None \<Rightarrow> Inl (Worker ''bad resume token: missing dossiers'')
        | Some ds \<Rightarrow> Inr ((restore_loop ds fresh)\<lparr>wk_frontier := pending_of root token\<rparr>)))"

section \<open>Propagation of prototypes\<close>

definition callers_of :: "dossiers \<Rightarrow> u64 \<Rightarrow> u64 list" where
  "callers_of ds target = concat (map (\<lambda>(_, d). map (\<lambda>_. fd_ea d) (filter (\<lambda>(_, t). t = target) (fd_callees d))) ds)"

text \<open>One iteration: the functions that changed, the changes, and the dossiers with their new prototypes.\<close>

fun recheck_loop :: "info_reader \<Rightarrow> deep_budgets \<Rightarrow> nat \<Rightarrow> u64 list \<Rightarrow> u64 list \<Rightarrow> type_change list \<Rightarrow> dossiers \<Rightarrow> u64 list \<times> type_change list \<times> dossiers" where
  "recheck_loop info_of b iteration [] hot changes ds = (hot, changes, ds)"
| "recheck_loop info_of b iteration (ea # eas) hot changes ds =
     (case bt_get ds ea of
        None \<Rightarrow> recheck_loop info_of b iteration eas hot changes ds
      | Some d \<Rightarrow>
          if \<not> list_ex (\<lambda>(_, t). t \<in> set hot) (fd_callees d) then recheck_loop info_of b iteration eas hot changes ds
          else case info_of ea (db_max_calls b) of
            Inl _ \<Rightarrow> recheck_loop info_of b iteration eas hot changes ds
          | Inr info \<Rightarrow>
              let now = render_prototype info in
              if now = fd_prototype d then recheck_loop info_of b iteration eas hot changes ds
              else recheck_loop info_of b iteration eas (insert_visited ea hot)
                (changes @ [\<lparr>tc_ea = ea, tc_name = fd_name d, tc_iteration = iteration, tc_from = fd_prototype d, tc_to = now\<rparr>])
                (bt_insert ea (d\<lparr>fd_prototype := now\<rparr>) ds))"

record convergence =
  cv_changes :: "type_change list"
  cv_dossiers :: dossiers
  cv_trace :: "json list"
  cv_converged :: bool

fun converge_loop :: "info_reader \<Rightarrow> deep_budgets \<Rightarrow> (u64 \<Rightarrow> u64 list) \<Rightarrow> nat \<Rightarrow> nat \<Rightarrow> u64 list \<Rightarrow> convergence \<Rightarrow> convergence" where
  "converge_loop info_of b callers iteration 0 dirty c = c"
| "converge_loop info_of b callers iteration (Suc k) dirty c =
     (case recheck_loop info_of b iteration dirty [] (cv_changes c) (cv_dossiers c) of (hot, changes, ds) \<Rightarrow>
        let c' = c\<lparr>cv_changes := changes, cv_dossiers := ds,
                   cv_trace := cv_trace c @ [JObj [(''iteration'', jn iteration), (''type_changes'', jn (length hot))]]\<rparr>;
            next = sort_dedup (concat (map callers hot))
        in if hot = [] \<or> next = [] then c'\<lparr>cv_converged := True\<rparr>
           else converge_loop info_of b callers (Suc iteration) k next c')"

section \<open>The report\<close>

definition dossier_json :: "function_dossier \<Rightarrow> json" where
  "dossier_json d = JObj [(''ea'', JStr (hex_alt (fd_ea d))), (''name'', JStr (fd_name d)), (''prototype'', JStr (fd_prototype d)),
     (''direct_calls'', JArr (map (\<lambda>(ce, te). JObj [(''call_ea'', JStr (hex_alt ce)), (''target_ea'', JStr (hex_alt te))]) (fd_callees d))),
     (''indirect_calls'', JArr (map (\<lambda>e. JStr (hex_alt e)) (fd_indirect d)))]"

definition skipped_rows :: "analysis_index \<Rightarrow> u64 list \<Rightarrow> dossiers \<Rightarrow> bool \<Rightarrow> json list" where
  "skipped_rows idx visited ds budget_hit = map (\<lambda>te. JObj [(''ea'', JStr (hex_alt te)), (''name'', JStr (function_name idx te)),
       (''reason'', JStr (if budget_hit then ''budget'' else ''not reached''))])
     (filter (\<lambda>te. te \<notin> set visited \<and> bt_get (ai_functions idx) te \<noteq> None) (concat (map (\<lambda>(_, d). map snd (fd_callees d)) ds)))"

text \<open>\<open>dedup_by\<close> on the address: of neighbours that agree the first stays.\<close>

fun dedup_ea :: "json list \<Rightarrow> json list" where
  "dedup_ea (x # y # ys) = (if jidx y ''ea'' = jidx x ''ea'' then dedup_ea (x # ys) else x # dedup_ea (y # ys))"
| "dedup_ea xs = xs"

definition type_change_json :: "type_change \<Rightarrow> json" where
  "type_change_json c = JObj [(''function'', JObj [(''ea'', JStr (hex_alt (tc_ea c))), (''name'', JStr (tc_name c))]),
     (''iteration'', jn (tc_iteration c)), (''from'', JStr (tc_from c)), (''to'', JStr (tc_to c))]"

definition resume_token :: "u64 \<Rightarrow> (u64 \<times> nat) list \<Rightarrow> dossiers \<Rightarrow> json" where
  "resume_token root frontier ds = JObj [(''root'', JStr (hex_alt root)),
     (''pending'', JArr (map (\<lambda>(ea, depth). JObj [(''ea'', JStr (hex_alt ea)), (''depth'', jn depth)]) frontier)),
     (''dossiers'', JArr (map (\<lambda>(_, d). dossier_json d) ds))]"

definition finish_deep :: "analysis_index \<Rightarrow> u64 \<Rightarrow> deep_budgets \<Rightarrow> deep_walk \<Rightarrow> convergence \<Rightarrow> json" where
  "finish_deep idx root b w c = JObj [
     (''root'', JStr (hex_alt root)), (''functions'', JArr (map (\<lambda>(_, d). dossier_json d) (cv_dossiers c))),
     (''skipped'', JArr (dedup_ea (sort_key (\<lambda>s. str_of s ''ea'') (skipped_rows idx (wk_visited w) (cv_dossiers c) (wk_budget_hit w))))),
     (''type_changes'', JArr (map type_change_json (cv_changes c))), (''type_change_count'', jn (length (cv_changes c))),
     (''convergence'', JObj [(''converged'', JBool (cv_converged c)), (''iterations'', jn (length (cv_trace c))), (''trace'', JArr (cv_trace c)),
        (''note'', if cv_converged c then JNull else JStr ''budget exhausted before convergence'')]),
     (''budgets'', JObj [(''depth'', jn (db_depth b)), (''max_functions'', jn (db_max_functions b)),
        (''max_iterations'', jn (db_max_iterations b)), (''max_calls'', jn (db_max_calls b))]),
     (''budget_hit'', JBool (wk_budget_hit w)), (''visited_count'', jn (length (wk_visited w))),
     (''resume'', if wk_budget_hit w then resume_token root (wk_frontier w) (cv_dossiers c) else JNull),
     (''resume_hint'', JStr (if wk_budget_hit w
        then ''pass this object back as resume_from to continue; already-visited functions are not decompiled again'' else []))]"

definition settle :: "info_reader \<Rightarrow> deep_budgets \<Rightarrow> deep_walk \<Rightarrow> convergence" where
  "settle info_of b w = converge_loop info_of b (callers_of (wk_dossiers w)) 1 (db_max_iterations b) (sort (wk_visited w))
     \<lparr>cv_changes = [], cv_dossiers = wk_dossiers w, cv_trace = [], cv_converged = False\<rparr>"

definition deep_function ::
  "info_reader \<Rightarrow> (nat \<Rightarrow> nat) \<Rightarrow> analysis_index \<Rightarrow> u64 \<Rightarrow> deep_budgets \<Rightarrow> json option \<Rightarrow> json result" where
  "deep_function info_of clock idx root b resume =
     (if bt_get (ai_functions idx) root = None then Inl (Worker (''no function at '' @ hex_alt root))
      else rbind (initial_walk root resume) (\<lambda>w0.
        rmap (\<lambda>w. finish_deep idx root b w (settle info_of b w)) (walk_loop info_of clock idx b 0 w0)))"


section \<open>Tracing data flow\<close>

record tracing =
  tr_evidence :: "json list"
  tr_visited :: "u64 list"
  tr_next :: "u64 list"
  tr_truncated :: bool

definition trace_row :: "analysis_index \<Rightarrow> u64 \<Rightarrow> json \<Rightarrow> json" where
  "trace_row idx cur call = JObj [(''at'', JStr (str_of call ''call_ea'')),
     (''function'', JObj [(''ea'', JStr (hex_alt cur)), (''name'', JStr (function_name idx cur))]),
     (''target'', JStr (str_of call ''target_name'')), (''direct'', JBool (is_direct call)),
     (''confidence'', JStr (if is_direct call then ''confirmed'' else ''heuristic'')),
     (''args'', JArr (take 8 (map (\<lambda>a. JStr (unwrap_or (as_str a) [])) (items_of call ''args''))))]"

fun call_loop :: "analysis_index \<Rightarrow> string \<Rightarrow> nat \<Rightarrow> u64 \<Rightarrow> json list \<Rightarrow> json list \<Rightarrow> json list \<times> bool" where
  "call_loop idx direction cap cur [] rows = (rows, False)"
| "call_loop idx direction cap cur (call # cs) rows =
     (if direction = ''backward'' \<and> \<not> is_direct call then call_loop idx direction cap cur cs rows
      else let rows' = rows @ [trace_row idx cur call] in
        if cap \<le> length rows' then (rows', True) else call_loop idx direction cap cur cs rows')"

definition expand :: "analysis_index \<Rightarrow> string \<Rightarrow> u64 \<Rightarrow> u64 list" where
  "expand idx direction cur = (case bt_get (ai_functions idx) cur of
       None \<Rightarrow> []
     | Some f \<Rightarrow> if direction = ''forward'' then ff_callees f
         else if direction = ''both'' then ff_callees f @ ff_callers f else ff_callers f)"

fun level_loop :: "info_reader \<Rightarrow> analysis_index \<Rightarrow> string \<Rightarrow> deep_budgets \<Rightarrow> u64 list \<Rightarrow> tracing \<Rightarrow> tracing" where
  "level_loop info_of idx direction b [] t = t"
| "level_loop info_of idx direction b (cur # rest) t =
     (if cur \<in> set (tr_visited t) then level_loop info_of idx direction b rest t
      else let t1 = t\<lparr>tr_visited := tr_visited t @ [cur]\<rparr> in
        if db_max_functions b < length (tr_visited t1) then t1\<lparr>tr_truncated := True\<rparr>
        else case info_of cur (db_max_calls b) of
          Inl _ \<Rightarrow> level_loop info_of idx direction b rest t1
        | Inr info \<Rightarrow> (case call_loop idx direction (db_max_calls b) cur (items_of info ''calls'') (tr_evidence t) of
            (rows, True) \<Rightarrow> t1\<lparr>tr_evidence := rows, tr_truncated := True\<rparr>
          | (rows, False) \<Rightarrow> level_loop info_of idx direction b rest
              (t1\<lparr>tr_evidence := rows, tr_next := tr_next t @ expand idx direction cur\<rparr>)))"

fun trace_levels :: "info_reader \<Rightarrow> analysis_index \<Rightarrow> string \<Rightarrow> deep_budgets \<Rightarrow> nat \<Rightarrow> u64 list \<Rightarrow> tracing \<Rightarrow> tracing" where
  "trace_levels info_of idx direction b 0 frontier t = t"
| "trace_levels info_of idx direction b (Suc k) frontier t =
     (let t' = level_loop info_of idx direction b frontier (t\<lparr>tr_next := []\<rparr>) in
      if tr_truncated t' then t' else trace_levels info_of idx direction b k (tr_next t') t')"

definition count_confidence :: "string \<Rightarrow> json list \<Rightarrow> nat" where
  "count_confidence c rows = length (filter (\<lambda>e. jidx e ''confidence'' = JStr c) rows)"

definition trace_dataflow :: "info_reader \<Rightarrow> analysis_index \<Rightarrow> u64 \<Rightarrow> string \<Rightarrow> deep_budgets \<Rightarrow> json result" where
  "trace_dataflow info_of idx target direction b =
     (if bt_get (ai_functions idx) target = None then Inl (Worker (''no function at '' @ hex_alt target))
      else let t = trace_levels info_of idx direction b (db_depth b) [target]
                     \<lparr>tr_evidence = [], tr_visited = [], tr_next = [], tr_truncated = False\<rparr>
        in Inr (JObj [(''target'', JStr (hex_alt target)), (''direction'', JStr direction), (''evidence'', JArr (tr_evidence t)),
             (''confirmed'', jn (count_confidence ''confirmed'' (tr_evidence t))),
             (''heuristic'', jn (count_confidence ''heuristic'' (tr_evidence t))),
             (''truncated'', JBool (tr_truncated t)),
             (''visited'', JArr (map (\<lambda>e. JStr (hex_alt e)) (sort (tr_visited t))))]))"

section \<open>What the walk visits\<close>

text \<open>The direct calls between indexed functions, as the backend reports them under the call budget.\<close>

definition direct_calls :: "info_reader \<Rightarrow> deep_budgets \<Rightarrow> analysis_index \<Rightarrow> (u64 \<times> u64) set" where
  "direct_calls info_of b idx = {(a, c). \<exists>info. info_of a (db_max_calls b) = Inr info \<and>
     c \<in> set (pending_callees (extract_call_sites info)) \<and> bt_get (ai_functions idx) c \<noteq> None}"

definition dossier_for :: "info_reader \<Rightarrow> deep_budgets \<Rightarrow> analysis_index \<Rightarrow> u64 \<Rightarrow> function_dossier" where
  "dossier_for info_of b idx ea = dossier_of idx ea (projr (info_of ea (db_max_calls b)))"

abbreviation frontier_eas :: "deep_walk \<Rightarrow> u64 set" where
  "frontier_eas w \<equiv> fst ` set (wk_frontier w)"

definition walk_inv :: "info_reader \<Rightarrow> deep_budgets \<Rightarrow> analysis_index \<Rightarrow> u64 \<Rightarrow> deep_walk \<Rightarrow> bool" where
  "walk_inv info_of b idx root w \<longleftrightarrow>
     distinct (wk_visited w) \<and> length (wk_visited w) \<le> db_max_functions b \<and> bt_inv (wk_dossiers w) \<and>
     (\<forall>ea. bt_get (wk_dossiers w) ea = (if ea \<in> set (wk_visited w) then Some (dossier_for info_of b idx ea) else None)) \<and>
     (\<forall>ea \<in> set (wk_visited w). \<exists>n < db_depth b. (root, ea) \<in> direct_calls info_of b idx ^^ n) \<and>
     (\<forall>(ea, n) \<in> set (wk_frontier w). (root, ea) \<in> direct_calls info_of b idx ^^ n) \<and>
     root \<in> set (wk_visited w) \<union> frontier_eas w \<and>
     direct_calls info_of b idx `` set (wk_visited w) \<subseteq> set (wk_visited w) \<union> frontier_eas w"

lemma walk_inv_hit [simp]: "walk_inv info_of b idx root (w\<lparr>wk_budget_hit := h\<rparr>) = walk_inv info_of b idx root w"
  by (simp add: walk_inv_def)

lemma walk_inv_pop:
  assumes "walk_inv info_of b idx root w" "wk_frontier w = fs @ [(ea, n)]" "ea \<in> set (wk_visited w)"
  shows "walk_inv info_of b idx root (w\<lparr>wk_frontier := fs\<rparr>)"
  using assms unfolding walk_inv_def by auto

lemma new_callees_path:
  assumes "info_of ea (db_max_calls b) = Inr info" "(root, ea) \<in> direct_calls info_of b idx ^^ n" "(c, m) \<in> set (new_callees idx ds n info)"
  shows "(root, c) \<in> direct_calls info_of b idx ^^ m"
proof -
  have "m = Suc n" "(ea, c) \<in> direct_calls info_of b idx" using assms(1, 3) by (auto simp: new_callees_def direct_calls_def)
  with assms(2) show ?thesis by auto
qed

lemma new_callees_cover:
  assumes "info_of ea (db_max_calls b) = Inr info" "(ea, c) \<in> direct_calls info_of b idx" "bt_get ds c = None"
  shows "c \<in> fst ` set (new_callees idx ds n info)"
  using assms by (force simp: new_callees_def direct_calls_def)

lemma walk_inv_visit:
  assumes inv: "walk_inv info_of b idx root w" and fs: "wk_frontier w = fs @ [(ea, n)]" and new: "ea \<notin> set (wk_visited w)"
    and room: "Suc (length (wk_visited w)) \<le> db_max_functions b" "n < db_depth b" and info: "info_of ea (db_max_calls b) = Inr info"
    and ds: "ds = bt_insert ea (dossier_of idx ea info) (wk_dossiers w)"
  shows "walk_inv info_of b idx root (w\<lparr>wk_visited := wk_visited w @ [ea], wk_dossiers := ds, wk_frontier := fs @ new_callees idx ds n info\<rparr>)"
proof -
  have path: "(root, ea) \<in> direct_calls info_of b idx ^^ n" using inv fs unfolding walk_inv_def by auto
  have get: "bt_get ds c = (if c \<in> insert ea (set (wk_visited w)) then Some (dossier_for info_of b idx c) else None)" for c
    using inv info unfolding walk_inv_def ds by (auto simp: dossier_for_def)
  have front: "\<forall>(c, m) \<in> set (fs @ new_callees idx ds n info). (root, c) \<in> direct_calls info_of b idx ^^ m"
    using inv fs new_callees_path [where info_of = info_of and b = b, OF info path] unfolding walk_inv_def by auto
  have seen: "\<forall>c \<in> set (wk_visited w @ [ea]). \<exists>m < db_depth b. (root, c) \<in> direct_calls info_of b idx ^^ m"
    using inv path room(2) unfolding walk_inv_def by auto
  have "c \<in> insert ea (set (wk_visited w)) \<union> fst ` set (new_callees idx ds n info)" if "(ea, c) \<in> direct_calls info_of b idx" for c
    using new_callees_cover [where info_of = info_of and b = b, OF info that, of ds n] get [of c] by (cases "c \<in> insert ea (set (wk_visited w))") auto
  with inv fs have closed: "direct_calls info_of b idx `` set (wk_visited w @ [ea]) \<subseteq> set (wk_visited w @ [ea]) \<union> fst ` set (fs @ new_callees idx ds n info)"
    unfolding walk_inv_def by auto
  have rest: "distinct (wk_visited w @ [ea])" "bt_inv ds" "root \<in> set (wk_visited w @ [ea]) \<union> fst ` set (fs @ new_callees idx ds n info)"
    using inv new fs unfolding walk_inv_def ds by (auto intro: bt_inv_insert)
  show ?thesis unfolding walk_inv_def deep_walk.simps using rest front seen closed get room(1) by simp
qed


text \<open>The branches of one step, for a frontier with \<open>(ea, d)\<close> on top.\<close>

definition already_seen :: "analysis_index \<Rightarrow> deep_walk \<Rightarrow> u64 \<Rightarrow> bool" where
  "already_seen idx w ea \<longleftrightarrow> bt_get (wk_dossiers w) ea \<noteq> None \<or> bt_get (ai_functions idx) ea = None \<or> ea \<in> set (wk_visited w)"

definition out_of_budget :: "deep_budgets \<Rightarrow> nat \<Rightarrow> nat \<Rightarrow> deep_walk \<Rightarrow> bool" where
  "out_of_budget b d now w \<longleftrightarrow> db_max_functions b < Suc (length (wk_visited w)) \<or> db_depth b \<le> d \<or> \<not> time_left b now"

definition visit_step :: "analysis_index \<Rightarrow> (u64 \<times> nat) list \<Rightarrow> u64 \<Rightarrow> nat \<Rightarrow> json \<Rightarrow> deep_walk \<Rightarrow> deep_walk" where
  "visit_step idx fs ea d info w = (let ds = bt_insert ea (dossier_of idx ea info) (wk_dossiers w) in
     w\<lparr>wk_visited := wk_visited w @ [ea], wk_dossiers := ds, wk_frontier := fs @ new_callees idx ds d info\<rparr>)"

lemma walk_loop_end: "wk_frontier w = [] \<Longrightarrow> walk_loop info_of clock idx b n w = Inr w"
  by (simp add: walk_loop.simps)

lemma walk_loop_step:
  assumes "wk_frontier w = fs @ [(ea, d)]"
  shows "walk_loop info_of clock idx b n w =
    (if already_seen idx w ea then walk_loop info_of clock idx b n (w\<lparr>wk_frontier := fs\<rparr>)
     else if out_of_budget b d (clock n) w then Inr (w\<lparr>wk_budget_hit := True\<rparr>)
     else case info_of ea (db_max_calls b) of Inl e \<Rightarrow> Inl e
       | Inr info \<Rightarrow> walk_loop info_of clock idx b (Suc n) (visit_step idx fs ea d info w))"
  by (subst walk_loop.simps) (auto simp: assms already_seen_def out_of_budget_def visit_step_def Let_def split: sum.splits)

text \<open>Induction over the steps of a walk.\<close>

lemma walk_induct [case_names Empty Step]:
  assumes "\<And>n w. wk_frontier w = [] \<Longrightarrow> P n w"
    and "\<And>n w fs ea d. wk_frontier w = fs @ [(ea, d)] \<Longrightarrow>
      (already_seen idx w ea \<Longrightarrow> P n (w\<lparr>wk_frontier := fs\<rparr>)) \<Longrightarrow>
      (\<And>info. \<not> already_seen idx w ea \<Longrightarrow> info_of ea (db_max_calls b) = Inr info \<Longrightarrow> P (Suc n) (visit_step idx fs ea d info w)) \<Longrightarrow> P n w"
  shows "P n w"
proof (induction "card (bt_keys (ai_functions idx) - set (wk_visited w))" arbitrary: n w rule: less_induct)
  case outer: less
  then show ?case
  proof (induction "length (wk_frontier w)" arbitrary: w)
    case 0
    then show ?case using assms(1) by simp
  next
    case (Suc k)
    then obtain fs ea d where fs: "wk_frontier w = fs @ [(ea, d)]" by (cases "wk_frontier w" rule: rev_cases) auto
    show ?case
    proof (rule assms(2) [OF fs])
      show "P n (w\<lparr>wk_frontier := fs\<rparr>)" using Suc.hyps(1) [of "w\<lparr>wk_frontier := fs\<rparr>"] Suc.hyps(2) Suc.prems fs by simp
      fix info assume "\<not> already_seen idx w ea"
      then have "card (bt_keys (ai_functions idx) - insert ea (set (wk_visited w))) < card (bt_keys (ai_functions idx) - set (wk_visited w))"
        by (intro unvisited_shrinks) (auto simp: already_seen_def)
      then show "P (Suc n) (visit_step idx fs ea d info w)" by (intro Suc.prems) (simp add: visit_step_def Let_def)
    qed
  qed
qed

lemma reached_indexed: "bt_get (ai_functions idx) root \<noteq> None \<Longrightarrow> (root, ea) \<in> direct_calls info_of b idx ^^ n \<Longrightarrow> bt_get (ai_functions idx) ea \<noteq> None"
  by (cases n) (auto simp: direct_calls_def)

lemma walk_loop_inv:
  assumes root: "bt_get (ai_functions idx) root \<noteq> None"
  shows "walk_inv info_of b idx root w \<Longrightarrow> wk_budget_hit w = False \<Longrightarrow> walk_loop info_of clock idx b n w = Inr w' \<Longrightarrow>
   walk_inv info_of b idx root w' \<and> (wk_budget_hit w' = (wk_frontier w' \<noteq> []))"
proof (induction n w rule: walk_induct [where idx = idx and info_of = info_of and b = b])
  case (Empty n w)
  then show ?case by (simp add: walk_loop_end)
next
  case (Step n w fs ea d)
  have "(root, ea) \<in> direct_calls info_of b idx ^^ d" using Step.prems(1) Step.hyps unfolding walk_inv_def by auto
  from reached_indexed [OF root this] have seen: "ea \<in> set (wk_visited w)" if "already_seen idx w ea"
    using that Step.prems(1) unfolding already_seen_def walk_inv_def by (auto split: if_splits)
  note step = Step.prems(3) [unfolded walk_loop_step [OF Step.hyps]]
  show ?case
  proof (cases "already_seen idx w ea")
    case True
    with Step.IH(1) walk_inv_pop [OF Step.prems(1) Step.hyps] seen step Step.prems(2) show ?thesis by simp
  next
    case new: False
    show ?thesis
    proof (cases "out_of_budget b d (clock n) w")
      case True
      with step new have "w' = w\<lparr>wk_budget_hit := True\<rparr>" by simp
      with Step.hyps Step.prems(1) show ?thesis by simp
    next
      case False
      with step new obtain info where info: "info_of ea (db_max_calls b) = Inr info"
        "walk_loop info_of clock idx b (Suc n) (visit_step idx fs ea d info w) = Inr w'" by (auto split: sum.splits)
      have "walk_inv info_of b idx root (visit_step idx fs ea d info w)" unfolding visit_step_def Let_def
        using False new by (intro walk_inv_visit [OF Step.prems(1) Step.hyps _ _ _ info(1)]) (auto simp: out_of_budget_def already_seen_def)
      with Step.IH(2) [OF new info(1)] info(2) Step.prems(2) show ?thesis by (simp add: visit_step_def Let_def)
    qed
  qed
qed


lemma btree_by_keys:
  assumes "bt_inv m" "\<And>k. bt_get m k = (if k \<in> V then Some (f k) else None)"
  shows "m = map (\<lambda>k. (k, f k)) (sorted_list_of_set V)"
proof -
  have keys: "bt_keys m = V" using assms(2) by (auto simp: bt_get_def simp flip: dom_map_of_conv_image_fst split: if_splits)
  have srt: "sorted_wrt (<) (map fst m)" using assms(1) by (simp add: bt_inv_def)
  then have "map fst m = sorted_list_of_set V" using keys by (metis set_map sorted_list_of_set.idem_if_sorted_distinct strict_sorted_iff)
  moreover have "map (\<lambda>p. (fst p, f (fst p))) m = map id m"
  proof (rule map_cong [OF refl])
    fix p assume "p \<in> set m"
    then have "map_of m (fst p) = Some (snd p)" using srt by (intro map_of_is_SomeI) (simp_all add: strict_sorted_iff)
    with assms(2) [of "fst p"] show "(fst p, f (fst p)) = id p" by (simp add: bt_get_def prod_eq_iff split: if_splits)
  qed
  then have "m = map (\<lambda>k. (k, f k)) (map fst m)" by (simp add: comp_def)
  ultimately show ?thesis by simp
qed

text \<open>
  The propagation of prototypes never starts: a function is rechecked when a callee changed in the same iteration, and nothing
  has changed when an iteration begins.
\<close>

lemma recheck_nothing: "recheck_loop info_of b k eas [] changes ds = ([], changes, ds)"
  by (induction eas) (auto simp: list_ex_iff split: option.splits)

lemma settle_changes_nothing:
  "settle info_of b w = \<lparr>cv_changes = [], cv_dossiers = wk_dossiers w,
     cv_trace = (if db_max_iterations b = 0 then [] else [JObj [(''iteration'', jn 1), (''type_changes'', jn 0)]]),
     cv_converged = (db_max_iterations b \<noteq> 0)\<rparr>"
  by (cases "db_max_iterations b") (simp_all add: settle_def recheck_nothing Let_def)

lemma walk_inv_start: "walk_inv info_of b idx root \<lparr>wk_visited = [], wk_dossiers = [], wk_frontier = [(root, 0)], wk_budget_hit = False\<rparr>"
  by (simp add: walk_inv_def)

lemma closed_is_reachable:
  assumes "walk_inv info_of b idx root w" "wk_frontier w = []"
  shows "set (wk_visited w) = (direct_calls info_of b idx)\<^sup>* `` {root}"
proof (intro equalityI subsetI)
  fix ea assume "ea \<in> set (wk_visited w)"
  with assms(1) obtain n where "(root, ea) \<in> direct_calls info_of b idx ^^ n" unfolding walk_inv_def by auto
  then show "ea \<in> (direct_calls info_of b idx)\<^sup>* `` {root}" by (simp add: relpow_imp_rtrancl)
next
  fix ea assume "ea \<in> (direct_calls info_of b idx)\<^sup>* `` {root}"
  then have "(root, ea) \<in> (direct_calls info_of b idx)\<^sup>*" by simp
  then show "ea \<in> set (wk_visited w)"
  proof (induction rule: rtrancl_induct)
    case base
    from assms show ?case by (simp add: walk_inv_def)
  next
    case (step y z)
    with assms show ?case unfolding walk_inv_def by auto
  qed
qed

text \<open>
  C20: A fresh deep analysis always ends, and when it does not fail its functions are, in address order and each with the dossier of one
  decompilation, at most \<open>max_functions\<close> functions that direct calls reach from the root in fewer than \<open>depth\<close> steps; when no
  budget stopped it, they are exactly all the functions that direct calls reach.
\<close>
theorem deep_walk_is_reachability:
  assumes "deep_function info_of clock idx root b None = Inr out"
  shows "\<exists>V h. items_of out ''functions'' = map (\<lambda>ea. dossier_json (dossier_for info_of b idx ea)) (sorted_list_of_set V) \<and>
    jidx out ''budget_hit'' = JBool h \<and> finite V \<and> card V \<le> db_max_functions b \<and>
    (\<forall>ea \<in> V. \<exists>n < db_depth b. (root, ea) \<in> direct_calls info_of b idx ^^ n) \<and>
    (\<not> h \<longrightarrow> V = (direct_calls info_of b idx)\<^sup>* `` {root})"
proof -
  from assms have root: "bt_get (ai_functions idx) root \<noteq> None" by (auto simp: deep_function_def split: if_splits)
  from assms root obtain w where w: "walk_loop info_of clock idx b 0 \<lparr>wk_visited = [], wk_dossiers = [], wk_frontier = [(root, 0)], wk_budget_hit = False\<rparr> = Inr w"
    and out: "out = finish_deep idx root b w (settle info_of b w)"
    by (auto simp: deep_function_def initial_walk_def Let_def result_simps)
  from walk_loop_inv [OF root walk_inv_start _ w]
  have inv: "walk_inv info_of b idx root w" and hit: "wk_budget_hit w = (wk_frontier w \<noteq> [])" by simp_all
  have "wk_dossiers w = map (\<lambda>ea. (ea, dossier_for info_of b idx ea)) (sorted_list_of_set (set (wk_visited w)))"
    by (rule btree_by_keys) (use inv in \<open>simp_all add: walk_inv_def\<close>)
  then have "items_of out ''functions'' = map (\<lambda>ea. dossier_json (dossier_for info_of b idx ea)) (sorted_list_of_set (set (wk_visited w)))"
    by (simp add: out settle_changes_nothing finish_deep_def items_of_def comp_def)
  moreover have "jidx out ''budget_hit'' = JBool (wk_budget_hit w)" by (simp add: out finish_deep_def)
  moreover have "card (set (wk_visited w)) \<le> db_max_functions b" using inv unfolding walk_inv_def by (simp add: distinct_card)
  moreover have "\<forall>ea \<in> set (wk_visited w). \<exists>n < db_depth b. (root, ea) \<in> direct_calls info_of b idx ^^ n"
    using inv by (simp add: walk_inv_def)
  moreover have "\<not> wk_budget_hit w \<longrightarrow> set (wk_visited w) = (direct_calls info_of b idx)\<^sup>* `` {root}"
    using hit closed_is_reachable [OF inv] by simp
  ultimately show ?thesis by (intro exI [of _ "set (wk_visited w)"] exI [of _ "wk_budget_hit w"] conjI finite_set)
qed


text \<open>A backend that answers for every function makes the walk return.\<close>

lemma walk_loop_returns: "(\<And>ea. \<exists>info. info_of ea (db_max_calls b) = Inr info) \<Longrightarrow> \<exists>w'. walk_loop info_of clock idx b n w = Inr w'"
proof (induction n w rule: walk_induct [where idx = idx and info_of = info_of and b = b])
  case (Empty n w)
  then show ?case by (simp add: walk_loop_end)
next
  case (Step n w fs ea d)
  from Step.prems [of ea] obtain info where "info_of ea (db_max_calls b) = Inr info" by auto
  with Step.IH Step.prems show ?case unfolding walk_loop_step [OF Step.hyps] by auto
qed

definition two_functions :: analysis_index where
  "two_functions = \<lparr>ai_schema_version = 1, ai_binary_md5 = [], ai_revision = 0,
     ai_functions = [(1, default_facts), (2, default_facts)], ai_strings = []\<rparr>"

text \<open>Function 1 calls function 2 directly.\<close>

definition one_call :: info_reader where
  "one_call ea n = Inr (JObj [(''calls'', JArr (if ea = 1
     then [JObj [(''direct'', JBool True), (''call_ea'', JStr (hex_alt 0x11)), (''target_ea'', JStr (hex_alt 2))]] else []))])"

theorem deep_walk_is_reachability_witness:
  "\<exists>out V h. deep_function one_call (\<lambda>_. 0) two_functions 1 default_budgets None = Inr out \<and>
    items_of out ''functions'' = map (\<lambda>ea. dossier_json (dossier_for one_call default_budgets two_functions ea)) (sorted_list_of_set V) \<and>
    card V \<le> 20 \<and> (\<not> h \<longrightarrow> V = (direct_calls one_call default_budgets two_functions)\<^sup>* `` {1})"
proof -
  have "bt_get (ai_functions two_functions) 1 \<noteq> None" by (simp add: two_functions_def bt_get_def)
  moreover obtain w where "walk_loop one_call (\<lambda>_. 0) two_functions default_budgets 0
      \<lparr>wk_visited = [], wk_dossiers = [], wk_frontier = [(1, 0)], wk_budget_hit = False\<rparr> = Inr w"
    using walk_loop_returns [of one_call default_budgets "\<lambda>_. 0" two_functions] by (auto simp: one_call_def)
  ultimately obtain out where out: "deep_function one_call (\<lambda>_. 0) two_functions 1 default_budgets None = Inr out"
    by (auto simp: deep_function_def initial_walk_def Let_def)
  from deep_walk_is_reachability [OF this] obtain V h where "items_of out ''functions'' = map (\<lambda>ea. dossier_json (dossier_for one_call default_budgets two_functions ea)) (sorted_list_of_set V)"
    "card V \<le> db_max_functions default_budgets" "\<not> h \<longrightarrow> V = (direct_calls one_call default_budgets two_functions)\<^sup>* `` {1}" by blast
  with out show ?thesis by (auto simp: default_budgets_def)
qed

section \<open>Resuming\<close>

lemma visit_get: "bt_get (wk_dossiers (visit_step idx fs ea d info w)) c = (if c = ea then Some (dossier_of idx ea info) else bt_get (wk_dossiers w) c)"
  by (simp add: visit_step_def Let_def)

text \<open>A resumed run asks the backend only about functions the token has no dossier of.\<close>

lemma walk_loop_cong:
  "(\<And>ea. bt_get (wk_dossiers w) ea = None \<Longrightarrow> info_of ea (db_max_calls b) = info_of' ea (db_max_calls b)) \<Longrightarrow>
   walk_loop info_of clock idx b n w = walk_loop info_of' clock idx b n w"
proof (induction n w rule: walk_induct [where idx = idx and info_of = info_of and b = b])
  case (Empty n w)
  then show ?case by (simp add: walk_loop_end)
next
  case (Step n w fs ea d)
  have "walk_loop info_of clock idx b (Suc n) (visit_step idx fs ea d info w) = walk_loop info_of' clock idx b (Suc n) (visit_step idx fs ea d info w)"
    if "\<not> already_seen idx w ea" "info_of ea (db_max_calls b) = Inr info" for info
    by (intro Step.IH(2) [OF that] Step.prems) (simp add: visit_get split: if_splits)
  with Step.IH(1) Step.prems show ?case unfolding walk_loop_step [OF Step.hyps]
    by (auto simp: already_seen_def split: sum.splits)
qed

definition token_eas :: "json \<Rightarrow> u64 set" where
  "token_eas token = fd_ea ` restored_dossier ` set (items_of token ''dossiers'') - {0}"

lemma restore_loop_keys: "bt_get (wk_dossiers (restore_loop ds w)) ea = None \<Longrightarrow>
    bt_get (wk_dossiers w) ea = None \<and> ea \<notin> fd_ea ` restored_dossier ` set ds - {0}"
  by (induction ds w rule: restore_loop.induct) (auto simp: Let_def split: if_splits)

text \<open>
  C21: A resumed analysis does not decompile anything again: its answer does not depend on what the backend says of the functions
  the resume token already holds.
\<close>
theorem resume_never_repeats:
  assumes "\<And>ea. ea \<notin> token_eas token \<Longrightarrow> info_of ea (db_max_calls b) = info_of' ea (db_max_calls b)"
  shows "deep_function info_of clock idx root b (Some token) = deep_function info_of' clock idx root b (Some token)"
proof (cases "initial_walk root (Some token)")
  case (Inr w)
  have "info_of ea (db_max_calls b) = info_of' ea (db_max_calls b)" if "bt_get (wk_dossiers w) ea = None" for ea
  proof (rule assms)
    from Inr obtain ds w0 where ds: "as_array (jidx token ''dossiers'') = Some ds" "w = (restore_loop ds w0)\<lparr>wk_frontier := pending_of root token\<rparr>"
      by (auto simp: initial_walk_def Let_def split: option.splits)
    with that restore_loop_keys [of ds w0 ea] show "ea \<notin> token_eas token" by (simp add: token_eas_def items_of_def)
  qed
  then have "walk_loop info_of clock idx b 0 w = walk_loop info_of' clock idx b 0 w" by (rule walk_loop_cong)
  then show ?thesis by (simp add: deep_function_def Inr settle_changes_nothing)
qed (simp add: deep_function_def)

text \<open>What a token keeps of a dossier: everything but the direct calls, which are written under one name and read under another.\<close>

lemma no_second_0x: "trim_start_matches ''0x'' (show_radix 16 n) = show_radix 16 n"
proof -
  have "strip_prefix (show_radix 16 n) ''0x'' = None"
    using show_radix_alnum [of 16 "CHR ''x''" n] by (auto simp: strip_prefix_Some_iff simp flip: not_Some_eq)
  then show ?thesis by (simp add: trim_start_matches.simps)
qed

lemma deep_parse_ea_hex [simp]: "deep_parse_ea (hex_alt w) = w"
proof -
  have "trim_start_matches ''0x'' (hex_alt w) = show_radix 16 (unat w)"
    by (subst trim_start_matches.simps) (simp add: hex_alt_def no_second_0x)
  then show ?thesis by (simp add: deep_parse_ea_def parse_u64_radix_show)
qed

lemma resume_forgets_direct_calls: "restored_dossier (dossier_json d) = d\<lparr>fd_callees := []\<rparr>"
proof -
  have "List.map_filter (\<lambda>v. map_option deep_parse_ea (as_str v)) (map (\<lambda>e. JStr (hex_alt e)) xs) = xs" for xs
    by (induction xs) (simp_all add: map_filter_simps)
  then show ?thesis by (simp add: restored_dossier_def dossier_json_def str_of_def items_of_def map_filter_simps)
qed

definition sample_token :: json where
  "sample_token = resume_token 1 [(2, 1)] [(1, dossier_for one_call default_budgets two_functions 1)]"

theorem resume_never_repeats_witness:
  "deep_function one_call (\<lambda>_. 0) two_functions 1 default_budgets (Some sample_token) =
   deep_function (\<lambda>ea n. if ea = 1 then Inl (Worker ''decompiled again'') else one_call ea n) (\<lambda>_. 0) two_functions 1 default_budgets (Some sample_token)"
proof (rule resume_never_repeats)
  have "items_of sample_token ''dossiers'' = [dossier_json (dossier_for one_call default_budgets two_functions 1)]"
    by (simp add: sample_token_def resume_token_def items_of_def)
  then have "token_eas sample_token = {1}"
    by (simp add: token_eas_def resume_forgets_direct_calls dossier_for_def dossier_of_def)
  then show "one_call ea (db_max_calls default_budgets) = (if ea = 1 then Inl (Worker ''decompiled again'') else one_call ea (db_max_calls default_budgets))"
    if "ea \<notin> token_eas sample_token" for ea using that by simp
qed

text \<open>
  A walk stopped by the depth budget puts the function it stopped at back on top of its frontier. Resuming with the same budgets
  stops there at once, whatever else is pending.
\<close>

lemma depth_stop_blocks_resume:
  assumes "wk_frontier w = fs @ [(ea, d)]" "\<not> already_seen idx w ea" "db_depth b \<le> d"
  shows "walk_loop info_of clock idx b n w = Inr (w\<lparr>wk_budget_hit := True\<rparr>)"
  using assms by (simp add: walk_loop_step out_of_budget_def)

section \<open>What a trace reports\<close>

lemma call_loop_bound: "length rows < cap \<Longrightarrow> call_loop idx direction cap cur cs rows = (rows', t) \<Longrightarrow>
    length rows' \<le> cap \<and> (\<not> t \<longrightarrow> length rows' < cap)"
proof (induction cs arbitrary: rows)
  case (Cons call cs)
  from Cons.IH [of rows] Cons.IH [of "rows @ [trace_row idx cur call]"] Cons.prems show ?case
    by (cases "direction = ''backward'' \<and> \<not> is_direct call") (auto simp: Let_def not_le split: if_splits)
qed simp

definition rated :: "json \<Rightarrow> bool" where
  "rated e \<longleftrightarrow> jidx e ''confidence'' \<in> {JStr ''confirmed'', JStr ''heuristic''}"

lemma trace_row_rated [simp]: "rated (trace_row idx cur call)"
  by (simp add: rated_def trace_row_def)

lemma call_loop_rated: "list_all rated rows \<Longrightarrow> list_all rated (fst (call_loop idx direction cap cur cs rows))"
proof (induction cs arbitrary: rows)
  case (Cons call cs)
  from Cons.IH [of rows] Cons.IH [of "rows @ [trace_row idx cur call]"] Cons.prems show ?case
    by (cases "direction = ''backward'' \<and> \<not> is_direct call") (auto simp: Let_def)
qed simp

definition trace_ok :: "deep_budgets \<Rightarrow> tracing \<Rightarrow> bool" where
  "trace_ok b t \<longleftrightarrow> list_all rated (tr_evidence t) \<and> distinct (tr_visited t) \<and>
     length (tr_evidence t) \<le> db_max_calls b \<and> length (tr_visited t) \<le> Suc (db_max_functions b) \<and>
     (\<not> tr_truncated t \<longrightarrow> length (tr_evidence t) < db_max_calls b \<and> length (tr_visited t) \<le> db_max_functions b)"

lemma level_loop_ok: "trace_ok b t \<Longrightarrow> \<not> tr_truncated t \<Longrightarrow> trace_ok b (level_loop info_of idx direction b frontier t)"
proof (induction frontier arbitrary: t)
  case (Cons cur rest)
  let ?t1 = "t\<lparr>tr_visited := tr_visited t @ [cur]\<rparr>"
  show ?case
  proof (cases "cur \<in> set (tr_visited t) \<or> db_max_functions b < length (tr_visited ?t1)")
    case True
    with Cons show ?thesis by (auto simp: Let_def trace_ok_def)
  next
    case False
    with Cons.prems have ok: "trace_ok b ?t1" "\<not> tr_truncated ?t1" by (auto simp: trace_ok_def)
    show ?thesis
    proof (cases "info_of cur (db_max_calls b)")
      case (Inl e)
      with False Cons.IH [OF ok] show ?thesis by simp
    next
      case (Inr info)
      obtain rows stop where r: "call_loop idx direction (db_max_calls b) cur (items_of info ''calls'') (tr_evidence t) = (rows, stop)" by fastforce
      have "list_all rated rows" "length rows \<le> db_max_calls b" "\<not> stop \<longrightarrow> length rows < db_max_calls b"
        using Cons.prems call_loop_rated [of "tr_evidence t" idx direction "db_max_calls b" cur "items_of info ''calls''"]
          call_loop_bound [OF _ r] r by (simp_all add: trace_ok_def)
      then show ?thesis using False Inr r ok Cons.IH [of "?t1\<lparr>tr_evidence := rows, tr_next := tr_next t @ expand idx direction cur\<rparr>"]
        by (cases stop) (simp_all add: trace_ok_def)
    qed
  qed
qed simp

lemma trace_levels_ok: "trace_ok b t \<Longrightarrow> \<not> tr_truncated t \<Longrightarrow> trace_ok b (trace_levels info_of idx direction b k frontier t)"
proof (induction k arbitrary: frontier t)
  case (Suc k)
  then have "trace_ok b (t\<lparr>tr_next := []\<rparr>)" by (simp add: trace_ok_def)
  from level_loop_ok [OF this, of info_of idx direction frontier] Suc show ?case by (simp add: Let_def)
qed simp

text \<open>
  A trace reports at most \<open>max_calls\<close> rows, each of them confirmed or heuristic and counted as such, and visits each function once.
  It visits at most \<open>max_functions\<close> of them when it is not truncated; the one at which it stops is listed as visited too.
\<close>

lemma trace_is_bounded:
  assumes "trace_dataflow info_of idx target direction b = Inr out" "0 < db_max_calls b"
  shows "length (items_of out ''evidence'') \<le> db_max_calls b \<and>
    (\<exists>c h. jidx out ''confirmed'' = jn c \<and> jidx out ''heuristic'' = jn h \<and> c + h = length (items_of out ''evidence'')) \<and>
    length (items_of out ''visited'') \<le> db_max_functions b + (if jidx out ''truncated'' = JBool True then 1 else 0)"
proof -
  let ?t = "trace_levels info_of idx direction b (db_depth b) [target] \<lparr>tr_evidence = [], tr_visited = [], tr_next = [], tr_truncated = False\<rparr>"
  have "trace_ok b ?t" using assms(2) by (intro trace_levels_ok) (simp_all add: trace_ok_def)
  moreover have "count_confidence ''confirmed'' rows + count_confidence ''heuristic'' rows = length rows" if "list_all rated rows" for rows
    using that by (induction rows) (auto simp: count_confidence_def rated_def)
  moreover have "out = JObj [(''target'', JStr (hex_alt target)), (''direction'', JStr direction), (''evidence'', JArr (tr_evidence ?t)),
      (''confirmed'', jn (count_confidence ''confirmed'' (tr_evidence ?t))), (''heuristic'', jn (count_confidence ''heuristic'' (tr_evidence ?t))),
      (''truncated'', JBool (tr_truncated ?t)), (''visited'', JArr (map (\<lambda>e. JStr (hex_alt e)) (sort (tr_visited ?t))))]"
    using assms(1) by (simp add: trace_dataflow_def Let_def split: if_splits)
  ultimately show ?thesis by (auto simp: items_of_def trace_ok_def intro!: exI [of _ "count_confidence _ _"])
qed

end
