(* ===== verification/Type_Recovery.thy ===== *)
theory Type_Recovery
  imports Deep
begin

text \<open>
  \<open>crates/rmcp-worker/src/types.rs\<close>: structure shapes from member accesses. \<open>recover_structure\<close> groups the observations the backend
  reports for a list of functions by base object and offset and turns each group into a field proposal; \<open>recover_vtable\<close>
  judges a table of pointers. The backend operations are arguments. \<open>apply_struct\<close>, which changes the database, is
  modelled with the mutations of the dispatcher.
\<close>

section \<open>Field proposals\<close>

record field_proposal =
  fr_reads :: nat
  fr_writes :: nat
  fr_widths :: "u32 list"
  fr_functions :: nat
  fr_pointer_candidate :: bool

text \<open>\<open>max_by_key\<close> over the counts of the positive widths, in ascending order of width.\<close>

definition field_width :: "field_proposal \<Rightarrow> u32" where
  "field_width p = (let ws = filter (\<lambda>w. 0 < w) (fr_widths p) in
     foldl (\<lambda>best w. if (count_list ws best, best) \<le> (count_list ws w, w) then w else best) 0 (sort_dedup ws))"

definition field_confidence :: "field_proposal \<Rightarrow> f64" where
  "field_confidence p =
     (let site_score = f_mul (min (f_div (f64_of (fr_reads p + fr_writes p)) (lit 8 1)) f_one) (lit 45 100);
          fn_score = f_mul (min (f_div (f64_of (fr_functions p)) (lit 3 1)) f_one) (lit 25 100);
          write_score = (if 0 < fr_writes p then lit 18 100 else f_zero);
          width_score = (if 0 < field_width p then lit 12 100 else f_zero)
      in f_clamp (lit 5 100) (lit 99 100) (f_add (f_add (f_add site_score fn_score) write_score) width_score))"

definition candidate_type :: "field_proposal \<Rightarrow> u32 \<Rightarrow> string" where
  "candidate_type p w =
     (if fr_pointer_candidate p then ''pointer''
      else if w = 1 then ''u8'' else if w = 2 then ''u16'' else if w = 4 then ''u32'' else if w = 8 then ''u64'' else ''unknown'')"

section \<open>Observations\<close>

type_synonym field_key = "string \<times> u64"
type_synonym field_map = "(field_key, field_proposal) btree"

definition member_key :: "json \<Rightarrow> field_key" where
  "member_key m = ((if unwrap_or (as_bool (jidx m ''is_global'')) False then ''g:'' @ str_of m ''base_ea'' else ''e:'' @ str_of m ''base_text''),
     deep_parse_ea (str_of m ''offset''))"

definition member_width :: "json \<Rightarrow> u32" where
  "member_width m = ucast (unwrap_or (as_u64 (jidx m ''access_size'')) 0)"

definition member_write :: "json \<Rightarrow> bool" where
  "member_write m = unwrap_or (as_bool (jidx m ''is_write'')) False"

definition new_field :: "json \<Rightarrow> field_proposal" where
  "new_field m = \<lparr>fr_reads = 0, fr_writes = 0, fr_widths = [], fr_functions = 0,
     fr_pointer_candidate = (member_width m = 8 \<and> \<not> member_write m)\<rparr>"

definition observe :: "json \<Rightarrow> field_proposal \<Rightarrow> field_proposal" where
  "observe m e = (let e = (if member_write m then e\<lparr>fr_writes := Suc (fr_writes e)\<rparr> else e\<lparr>fr_reads := Suc (fr_reads e)\<rparr>);
       e = e\<lparr>fr_widths := fr_widths e @ [member_width m]\<rparr>
     in if member_width m = 8 then e\<lparr>fr_pointer_candidate := True\<rparr> else e)"

definition add_member :: "field_map \<Rightarrow> json \<Rightarrow> field_map" where
  "add_member fs m = bt_insert (member_key m) (observe m (unwrap_or (bt_get fs (member_key m)) (new_field m))) fs"

definition count_function :: "field_map \<Rightarrow> field_key \<Rightarrow> field_map" where
  "count_function fs k = (case bt_get fs k of Some f \<Rightarrow> bt_insert k (f\<lparr>fr_functions := Suc (fr_functions f)\<rparr>) fs | None \<Rightarrow> fs)"

definition add_function :: "field_map \<Rightarrow> json list \<Rightarrow> field_map" where
  "add_function fs members = foldl count_function (foldl add_member fs members) (sort_dedup (map member_key members))"

type_synonym evidence_reader = "u64 \<Rightarrow> usize \<Rightarrow> json result"
type_synonym shape_matcher = "(u64 \<times> u64) list \<Rightarrow> json result"

text \<open>The functions the backend has evidence for, with it; the others are passed over.\<close>

definition evidence_for :: "evidence_reader \<Rightarrow> nat \<Rightarrow> u64 list \<Rightarrow> (u64 \<times> json) list" where
  "evidence_for evidence_of mx eas = List.map_filter (\<lambda>ea. case evidence_of ea mx of Inr info \<Rightarrow> Some (ea, info) | Inl _ \<Rightarrow> None) eas"

definition members_of :: "json \<Rightarrow> json list" where
  "members_of info = items_of info ''members''"

definition collect_fields :: "json list list \<Rightarrow> field_map" where
  "collect_fields obs = foldl add_function [] obs"

section \<open>The report\<close>

definition field_row :: "u64 \<times> field_proposal \<Rightarrow> json" where
  "field_row f = (case f of (off, p) \<Rightarrow> JObj [(''offset'', JStr (hex_alt off)), (''read'', jn (fr_reads p)), (''write'', jn (fr_writes p)),
     (''candidate_width'', JNum (uint (field_width p))), (''candidate_type'', JStr (candidate_type p (field_width p))),
     (''confidence'', JStr (fmt2 (field_confidence p))), (''functions_observing'', jn (fr_functions p))])"

definition shape_of :: "(u64 \<times> field_proposal) list \<Rightarrow> (u64 \<times> u64) list" where
  "shape_of fs = map (\<lambda>(off, p). (off, if field_width p = 0 then 4 else ucast (field_width p))) fs"

definition group_by_base :: "field_map \<Rightarrow> (string, (u64 \<times> field_proposal) list) btree" where
  "group_by_base fs = foldl (\<lambda>g ((key, off), p). bt_insert key (unwrap_or (bt_get g key) [] @ [(off, p)]) g) [] fs"

definition base_json :: "string \<Rightarrow> json" where
  "base_json key = (case strip_prefix key ''g:'' of
       Some r \<Rightarrow> JObj [(''kind'', JStr ''global''), (''ea'', JStr r)]
     | None \<Rightarrow> JObj [(''kind'', JStr ''expression''), (''ea'', JStr (trim_start_matches ''e:'' key))])"

definition proposal_json :: "shape_matcher \<Rightarrow> string \<times> (u64 \<times> field_proposal) list \<Rightarrow> json" where
  "proposal_json udt_match g = (case g of (key, unsorted) \<Rightarrow>
     let fs = sort_key fst unsorted; shape = shape_of fs in JObj [
       (''base'', base_json key), (''fields'', JArr (map field_row fs)),
       (''proposed_shape'', JArr (map (\<lambda>(off, s). JObj [(''offset'', JStr (hex_alt off)), (''size'', ju s)]) shape)),
       (''existing_type_match'', case udt_match shape of Inr m \<Rightarrow> jopt JStr (as_str (jidx m ''match'')) | Inl _ \<Rightarrow> JNull)])"

definition recover_structure :: "evidence_reader \<Rightarrow> shape_matcher \<Rightarrow> analysis_index \<Rightarrow> u64 list \<Rightarrow> nat \<Rightarrow> json result" where
  "recover_structure evidence_of udt_match idx eas mx =
     (if eas = [] then Inl (Worker ''recover_structure requires functions'')
      else let evs = evidence_for evidence_of mx eas;
               fs = collect_fields (map (\<lambda>(_, info). members_of info) evs)
        in Inr (JObj [
          (''functions'', JArr (map (\<lambda>(ea, info). JObj [
             (''function'', JObj [(''ea'', JStr (hex_alt ea)), (''name'', JStr (function_name idx ea))]),
             (''observations'', jn (length (members_of info)))]) evs)),
          (''proposals'', JArr (map (proposal_json udt_match) (group_by_base fs))),
          (''truncated'', JBool (list_ex (\<lambda>(_, info). unwrap_or (as_bool (jidx info ''truncated'')) False) evs)),
          (''note'', JStr ''preview only; apply via ida_types task=create_struct (explicit mutation)'')]))"

definition recover_vtable :: "evidence_reader \<Rightarrow> u64 \<Rightarrow> nat \<Rightarrow> json result" where
  "recover_vtable vtable_scan ea max_entries = rmap (\<lambda>scan.
     let slots = items_of scan ''slots''; code_slots = length (filter (\<lambda>s. unwrap_or (as_bool (jidx s ''is_code'')) False) slots)
     in JObj [(''ea'', JStr (hex_alt ea)), (''plausible_vtable'', JBool (2 \<le> code_slots)), (''code_slots'', jn code_slots),
        (''slots'', JArr slots), (''virtual_calls_note'', JStr ''slot order maps to the class's method order; verify constructors before trusting'')])
     (vtable_scan ea max_entries)"

section \<open>What the fields are\<close>

text \<open>The proposal for one base and offset, from the observations of every function, one list per function.\<close>

definition observed :: "field_key \<Rightarrow> json list list \<Rightarrow> json list" where
  "observed k obs = filter (\<lambda>m. member_key m = k) (concat obs)"

definition observers :: "field_key \<Rightarrow> json list list \<Rightarrow> nat" where
  "observers k obs = length (filter (\<lambda>ms. k \<in> member_key ` set ms) obs)"

definition field_spec :: "json list list \<Rightarrow> field_key \<Rightarrow> field_proposal option" where
  "field_spec obs k = (if observed k obs = [] then None else Some \<lparr>
     fr_reads = length (filter (\<lambda>m. \<not> member_write m) (observed k obs)), fr_writes = length (filter member_write (observed k obs)),
     fr_widths = map member_width (observed k obs), fr_functions = observers k obs,
     fr_pointer_candidate = list_ex (\<lambda>m. member_width m = 8) (observed k obs)\<rparr>)"

definition merge :: "field_proposal \<Rightarrow> json list \<Rightarrow> field_proposal" where
  "merge e ms = e\<lparr>fr_reads := fr_reads e + length (filter (\<lambda>m. \<not> member_write m) ms), fr_writes := fr_writes e + length (filter member_write ms),
     fr_widths := fr_widths e @ map member_width ms, fr_pointer_candidate := (fr_pointer_candidate e \<or> list_ex (\<lambda>m. member_width m = 8) ms)\<rparr>"

lemma merge_Nil [simp]: "merge e [] = e"
  by (simp add: merge_def)

lemma merge_Cons: "merge e (m # ms) = merge (observe m e) ms"
  by (simp add: merge_def observe_def Let_def)

lemma merge_append: "merge e (ms @ ns) = merge (merge e ms) ns"
  by (induction ms arbitrary: e) (simp_all add: merge_Cons)

text \<open>The start value does not matter once an observation is in: \<open>new_field\<close> foresees what \<open>observe\<close> records.\<close>

definition no_field :: field_proposal where
  "no_field = \<lparr>fr_reads = 0, fr_writes = 0, fr_widths = [], fr_functions = 0, fr_pointer_candidate = False\<rparr>"

lemma observe_new: "observe m (new_field m) = observe m no_field"
  by (simp add: observe_def new_field_def no_field_def Let_def)

lemma add_members_get:
  "bt_get (foldl add_member fs ms) k = (let mm = filter (\<lambda>m. member_key m = k) ms in
     if mm = [] then bt_get fs k else Some (merge (unwrap_or (bt_get fs k) no_field) mm))"
proof (induction ms arbitrary: fs)
  case (Cons m ms)
  have "bt_get (add_member fs m) k = (if member_key m = k then Some (observe m (unwrap_or (bt_get fs k) no_field)) else bt_get fs k)"
    by (auto simp: add_member_def observe_new unwrap_or_def split: option.splits)
  with Cons.IH [of "add_member fs m"] show ?case by (auto simp: Let_def merge_Cons)
qed (simp add: Let_def)

lemma count_functions_get:
  "distinct ks \<Longrightarrow> bt_get (foldl count_function fs ks) k =
     (if k \<in> set ks then map_option (\<lambda>f. f\<lparr>fr_functions := Suc (fr_functions f)\<rparr>) (bt_get fs k) else bt_get fs k)"
proof (induction ks arbitrary: fs)
  case (Cons j ks)
  have "bt_get (count_function fs j) k = (if k = j then map_option (\<lambda>f. f\<lparr>fr_functions := Suc (fr_functions f)\<rparr>) (bt_get fs k) else bt_get fs k)"
    by (auto simp: count_function_def split: option.splits)
  with Cons.IH [of "count_function fs j"] Cons.prems show ?case by auto
qed simp

lemma field_spec_snoc:
  "field_spec (obs @ [ms]) k = (let mm = filter (\<lambda>m. member_key m = k) ms in
     if mm = [] then field_spec obs k
     else Some ((merge (unwrap_or (field_spec obs k) no_field) mm)\<lparr>fr_functions := Suc (fr_functions (unwrap_or (field_spec obs k) no_field))\<rparr>))"
proof -
  let ?mm = "filter (\<lambda>m. member_key m = k) ms"
  have o: "observed k (obs @ [ms]) = observed k obs @ ?mm" by (simp add: observed_def)
  have f: "observers k (obs @ [ms]) = observers k obs + (if ?mm = [] then 0 else 1)" by (auto simp: observers_def filter_empty_conv)
  have none: "observers k obs = 0" if "observed k obs = []" using that by (force simp: observers_def observed_def filter_empty_conv)
  show ?thesis by (simp add: field_spec_def o f Let_def merge_def no_field_def unwrap_or_def none)
qed

lemma merge_functions [simp]: "fr_functions (merge e ms) = fr_functions e"
  by (simp add: merge_def)

lemma collect_fields_spec: "bt_get (collect_fields obs) k = field_spec obs k"
proof (induction obs rule: rev_induct)
  case Nil
  then show ?case by (simp add: collect_fields_def field_spec_def observed_def)
next
  case (snoc ms obs)
  let ?mm = "filter (\<lambda>m. member_key m = k) ms"
  have "bt_get (collect_fields (obs @ [ms])) k = bt_get (add_function (collect_fields obs) ms) k" by (simp add: collect_fields_def)
  also have "\<dots> = (if ?mm = [] then bt_get (collect_fields obs) k
      else Some ((merge (unwrap_or (bt_get (collect_fields obs) k) no_field) ?mm)\<lparr>fr_functions := Suc (fr_functions (unwrap_or (bt_get (collect_fields obs) k) no_field))\<rparr>))"
    by (auto simp: add_function_def count_functions_get add_members_get Let_def filter_empty_conv)
  also have "\<dots> = field_spec (obs @ [ms]) k" unfolding snoc by (simp add: field_spec_snoc Let_def)
  finally show ?case .
qed

lemma collect_fields_inv: "bt_inv (collect_fields obs)"
proof -
  have "bt_inv (foldl add_member fs ms)" if "bt_inv fs" for fs ms
    using that by (induction ms arbitrary: fs) (simp_all add: add_member_def bt_inv_insert)
  moreover have "bt_inv (foldl count_function fs ks)" if "bt_inv fs" for fs ks
    using that by (induction ks arbitrary: fs) (auto simp: count_function_def bt_inv_insert split: option.splits)
  ultimately have "bt_inv (add_function fs ms)" if "bt_inv fs" for fs ms using that by (simp add: add_function_def)
  then have "bt_inv (foldl add_function fs obs)" if "bt_inv fs" for fs using that by (induction obs arbitrary: fs) simp_all
  then show ?thesis by (simp add: collect_fields_def)
qed


definition fields_of :: "string \<Rightarrow> field_map \<Rightarrow> (u64 \<times> field_proposal) list" where
  "fields_of key fs = List.map_filter (\<lambda>((base, off), p). if base = key then Some (off, p) else None) fs"

lemma fields_of_mem: "(off, p) \<in> set (fields_of key fs) \<longleftrightarrow> ((key, off), p) \<in> set fs"
  by (induction fs) (auto simp: fields_of_def map_filter_simps split: if_splits)

lemma group_by_base_get: "bt_get (group_by_base fs) key = (if fields_of key fs = [] then None else Some (fields_of key fs))"
proof (induction fs rule: rev_induct)
  case (snoc x fs)
  obtain base off p where x: "x = ((base, off), p)" by (metis prod.exhaust)
  have "fields_of key (fs @ [x]) = fields_of key fs @ (if base = key then [(off, p)] else [])"
    by (simp add: fields_of_def x List.map_filter_def)
  moreover have "group_by_base (fs @ [x]) = bt_insert base (unwrap_or (bt_get (group_by_base fs) base) [] @ [(off, p)]) (group_by_base fs)"
    by (simp add: group_by_base_def x)
  ultimately show ?case using snoc.IH by (auto simp: unwrap_or_def split: option.splits if_splits)
qed (simp add: group_by_base_def fields_of_def map_filter_simps)

lemma group_by_base_inv: "bt_inv (group_by_base fs)"
  by (induction fs rule: rev_induct) (auto simp: group_by_base_def bt_inv_insert)

lemma field_confidence_range: "lit 5 100 \<le> field_confidence p \<and> field_confidence p \<le> lit 99 100"
  unfolding field_confidence_def Let_def by (rule f_clamp_between) (rule lit_mono, simp_all)

text \<open>What is to be reported of one base and offset: every access to it, counted, and nothing else.\<close>

definition is_field :: "json list list \<Rightarrow> field_key \<Rightarrow> field_proposal \<Rightarrow> bool" where
  "is_field obs k p \<longleftrightarrow> observed k obs \<noteq> [] \<and>
     fr_reads p = length (filter (\<lambda>m. \<not> member_write m) (observed k obs)) \<and> fr_writes p = length (filter member_write (observed k obs)) \<and>
     fr_widths p = map member_width (observed k obs) \<and> fr_functions p = observers k obs \<and>
     (list_ex (\<lambda>m. member_write m \<and> member_width m = 8) (observed k obs) \<longrightarrow> fr_pointer_candidate p)"

lemma field_spec_is_field: "field_spec obs k = Some p \<Longrightarrow> is_field obs k p"
  by (auto simp: field_spec_def is_field_def list_ex_iff split: if_splits)

lemma fields_of_sorted: "bt_inv fs \<Longrightarrow> sorted_wrt (<) (map fst (fields_of key fs))"
proof (induction fs)
  case (Cons x fs)
  obtain base off p where x: "x = ((base, off), p)" by (metis prod.exhaust)
  have less: "\<forall>y \<in> set fs. (base, off) < fst y" and inv: "bt_inv fs" using Cons.prems by (simp_all add: bt_inv_def x)
  have "off < o'" if "base = key" "(o', q) \<in> set (fields_of key fs)" for o' q
    using less that fields_of_mem [of o' q key fs] by fastforce
  with Cons.IH [OF inv] show ?case by (auto simp: fields_of_def x map_filter_simps)
qed (simp add: fields_of_def map_filter_simps)

lemma group_mem: "bt_inv fs \<Longrightarrow> (key, l) \<in> set (group_by_base fs) \<longleftrightarrow> l = fields_of key fs \<and> l \<noteq> []"
  using bt.mem_iff_get [OF group_by_base_inv, of key l fs] group_by_base_get [of fs key] by (auto simp: bt_get_def)

text \<open>
  C23: The proposals of a recovery are exactly the grouping of the observed accesses by base and offset. There is one group for each base, in
  ascending order, and in it one field for each offset at which an access to that base was observed, in ascending order: no base
  or offset twice, none without an observation, none left out. A field counts every read and every write observed at it, the widths in
  order and the functions that observed it; where a pointer-sized value was stored it is a pointer candidate. Confidences lie between 0.05
  and 0.99.
\<close>
theorem proposals_group_the_observations:
  assumes "recover_structure evidence_of udt_match idx eas mx = Inr out"
    and "obs = map (\<lambda>(_, info). members_of info) (evidence_for evidence_of mx eas)"
  shows "\<exists>groups. items_of out ''proposals'' = map (proposal_json udt_match) groups \<and> sorted_wrt (<) (map fst groups) \<and>
    (\<forall>(key, l) \<in> set groups. l \<noteq> [] \<and> sorted_wrt (<) (map fst l) \<and>
       (\<forall>(off, p) \<in> set l. is_field obs (key, off) p \<and> lit 5 100 \<le> field_confidence p \<and> field_confidence p \<le> lit 99 100)) \<and>
    (\<forall>m \<in> set (concat obs). \<exists>l p. (fst (member_key m), l) \<in> set groups \<and> (snd (member_key m), p) \<in> set l)"
proof (intro exI [of _ "group_by_base (collect_fields obs)"] conjI)
  let ?fs = "collect_fields obs"
  have inv: "bt_inv ?fs" by (rule collect_fields_inv)
  have mem: "((key, off), p) \<in> set ?fs \<longleftrightarrow> field_spec obs (key, off) = Some p" for key off p
    unfolding collect_fields_spec [symmetric] bt_get_def by (rule bt.mem_iff_get [OF inv])
  show "items_of out ''proposals'' = map (proposal_json udt_match) (group_by_base ?fs)"
    using assms by (auto simp: recover_structure_def Let_def items_of_def split: if_splits)
  show "sorted_wrt (<) (map fst (group_by_base ?fs))" using group_by_base_inv by (simp add: bt_inv_def)
  show "\<forall>(key, l) \<in> set (group_by_base ?fs). l \<noteq> [] \<and> sorted_wrt (<) (map fst l) \<and>
       (\<forall>(off, p) \<in> set l. is_field obs (key, off) p \<and> lit 5 100 \<le> field_confidence p \<and> field_confidence p \<le> lit 99 100)"
    using field_confidence_range by (auto simp: group_mem [OF inv] fields_of_sorted [OF inv] fields_of_mem mem intro: field_spec_is_field)
  show "\<forall>m \<in> set (concat obs). \<exists>l p. (fst (member_key m), l) \<in> set (group_by_base ?fs) \<and> (snd (member_key m), p) \<in> set l"
  proof
    fix m assume "m \<in> set (concat obs)"
    then have "observed (member_key m) obs \<noteq> []" by (auto simp: observed_def filter_empty_conv)
    then obtain p where "field_spec obs (member_key m) = Some p" by (simp add: field_spec_def)
    then have "(snd (member_key m), p) \<in> set (fields_of (fst (member_key m)) ?fs)" by (cases "member_key m") (simp add: fields_of_mem mem)
    then show "\<exists>l p. (fst (member_key m), l) \<in> set (group_by_base ?fs) \<and> (snd (member_key m), p) \<in> set l"
      by (force simp: group_mem [OF inv])
  qed
qed

lemma single_key: "sorted_wrt (<) (map fst xs) \<Longrightarrow> \<forall>z \<in> set xs. fst z = (c :: 'a :: linorder) \<Longrightarrow> x \<in> set xs \<Longrightarrow> xs = [x]"
  by (cases xs; cases "tl xs") auto

definition two_accesses :: evidence_reader where
  "two_accesses ea n = Inr (JObj [(''members'', JArr [
     JObj [(''is_global'', JBool True), (''base_ea'', JStr ''0x10''), (''access_size'', JNum 4)],
     JObj [(''is_global'', JBool True), (''base_ea'', JStr ''0x10''), (''access_size'', JNum 4), (''is_write'', JBool True)]])])"

lemma offset_zero: "deep_parse_ea [] = 0"
  by (simp add: deep_parse_ea_def trim_def trim_start_matches.simps parse_u64_radix_def from_str_radix_def)

theorem proposals_group_the_observations_witness:
  "\<exists>out l p. recover_structure two_accesses (\<lambda>_. Inr JNull) two_functions [1, 2] 64 = Inr out \<and>
     length (items_of out ''proposals'') = 1 \<and> l = [(0, p)] \<and>
     items_of out ''proposals'' = [proposal_json (\<lambda>_. Inr JNull) (''g:0x10'', l)] \<and>
     fr_reads p = 2 \<and> fr_writes p = 2 \<and> fr_functions p = 2"
proof -
  define obs where "obs = map (\<lambda>(_, info). members_of info) (evidence_for two_accesses 64 [1, 2])"
  define k where "k = (''g:0x10'', 0 :: u64)"
  obtain out where out: "recover_structure two_accesses (\<lambda>_. Inr JNull) two_functions [1, 2] 64 = Inr out"
    by (simp add: recover_structure_def Let_def)
  have o: "concat obs \<noteq> [] \<and> (\<forall>m \<in> set (concat obs). member_key m = k) \<and> length (filter member_write (concat obs)) = 2 \<and>
      length (filter (\<lambda>m. \<not> member_write m) (concat obs)) = 2 \<and> observers k obs = 2"
    by (simp add: obs_def evidence_for_def two_accesses_def map_filter_simps members_of_def items_of_def member_key_def k_def
        str_of_def offset_zero member_write_def observers_def)
  then have ob: "observed j obs = (if j = k then concat obs else [])" for j by (auto simp: observed_def filter_id_conv filter_empty_conv)
  obtain groups where g: "items_of out ''proposals'' = map (proposal_json (\<lambda>_. Inr JNull)) groups" "sorted_wrt (<) (map fst groups)"
    "\<forall>(key, l) \<in> set groups. l \<noteq> [] \<and> sorted_wrt (<) (map fst l) \<and>
       (\<forall>(off, p) \<in> set l. is_field obs (key, off) p \<and> lit 5 100 \<le> field_confidence p \<and> field_confidence p \<le> lit 99 100)"
    "\<forall>m \<in> set (concat obs). \<exists>l p. (fst (member_key m), l) \<in> set groups \<and> (snd (member_key m), p) \<in> set l"
    using proposals_group_the_observations [OF out obs_def] by blast
  have f: "is_field obs j p \<longleftrightarrow> j = k \<and> is_field obs k p" for j p by (auto simp: is_field_def ob)
  obtain m where "m \<in> set (concat obs)" using o by (cases "concat obs") auto
  with g(4) o obtain l p where l: "(fst k, l) \<in> set groups" "(snd k, p) \<in> set l" by metis
  have all: "key = fst k" "\<forall>z \<in> set l'. fst z = snd k" if "(key, l') \<in> set groups" for key l'
  proof -
    have fields: "l' \<noteq> []" "\<And>off q. (off, q) \<in> set l' \<Longrightarrow> is_field obs (key, off) q" using g(3) that by auto
    then have eq: "(key, off) = k" if "(off, q) \<in> set l'" for off q using f that by blast
    show "\<forall>z \<in> set l'. fst z = snd k" using eq by fastforce
    show "key = fst k" using fields(1) eq by (cases l') fastforce+
  qed
  have "groups = [(fst k, l)]" by (rule single_key [OF g(2) _ l(1), of "fst k"]) (use all(1) in auto)
  moreover have "l = [(snd k, p)]" by (rule single_key [OF _ all(2) [OF l(1)] l(2)]) (use g(3) l(1) in auto)
  moreover have "is_field obs k p" using g(3) l by force
  ultimately show ?thesis using out g(1) o by (intro exI [of _ out] exI [of _ l] exI [of _ p]) (simp add: k_def is_field_def ob)
qed

text \<open>A pointer candidate needs no store of a pointer: a read is enough, where the field's comment asks for a stored value.\<close>

lemma read_makes_pointer:
  "field_spec [[JObj [(''is_global'', JBool True), (''base_ea'', JStr ''0x10''), (''access_size'', JNum 8)]]] (''g:0x10'', 0) =
     Some \<lparr>fr_reads = 1, fr_writes = 0, fr_widths = [8], fr_functions = 1, fr_pointer_candidate = True\<rparr>"
  by (simp add: field_spec_def observed_def observers_def member_key_def member_width_def member_write_def str_of_def
    deep_parse_ea_def trim_def trim_start_matches.simps parse_u64_radix_def from_str_radix_def)

text \<open>The base of an expression that itself starts with \<open>e:\<close> loses that prefix too.\<close>

lemma expression_prefix_is_lost: "base_json (''e:'' @ ''e:x'') = base_json (''e:'' @ ''x'')"
  by (simp add: base_json_def trim_start_matches.simps)

end
