(* ===== verification/Value_Analysis.thy ===== *)
theory Value_Analysis
  imports Deep
begin

text \<open>
  \<open>crates/rmcp-worker/src/valuean.rs\<close>: constants passed at the call sites of a function and of its callees, and proposals for
  the targets of indirect calls. The backend operations are arguments, and so is \<open>char::is_alphanumeric\<close>, a table of the Unicode
  standard, on the UTF-8 bytes of one character. The clock is as in the deep analysis.
\<close>

section \<open>Rows\<close>

record value_row =
  vr_ea :: u64
  vr_function :: string
  vr_kind :: string
  vr_values :: "u64 list"
  vr_at :: "u64 list"

definition value_confidence :: "value_row \<Rightarrow> string" where
  "value_confidence r = (let n = length (vr_values r) in
     if n = 0 then ''unknown'' else if n = 1 then ''confirmed'' else if n \<le> 4 then ''set'' else ''heuristic'')"

definition value_row_json :: "value_row \<Rightarrow> json" where
  "value_row_json r = JObj [(''kind'', JStr (vr_kind r)), (''function'', JStr (vr_function r)), (''ea'', JStr (hex_alt (vr_ea r))),
     (''values'', JArr (map (\<lambda>v. JStr (hex_alt v)) (vr_values r))), (''at'', JArr (map (\<lambda>a. JStr (hex_alt a)) (vr_at r))),
     (''confidence'', JStr (value_confidence r))]"

section \<open>Constant expressions\<close>

definition parse_hex_or_dec :: "string \<Rightarrow> u64 option" where
  "parse_hex_or_dec s =
     (let t = trim s in
      case (case strip_prefix t ''0x'' of Some h \<Rightarrow> Some h | None \<Rightarrow> strip_prefix t ''0X'') of
        Some h \<Rightarrow> (case parse_u64_radix 16 h of Inr v \<Rightarrow> if h = [] then None else Some v | Inl _ \<Rightarrow> None)
      | None \<Rightarrow> if t \<noteq> [] \<and> list_all (\<lambda>c. 48 \<le> byte_of c \<and> byte_of c \<le> 57) t then (case parse_u64_radix 10 t of Inr v \<Rightarrow> Some v | Inl _ \<Rightarrow> None) else None)"

text \<open>The index stores addresses of globals, no names: the lookup never succeeds.\<close>

definition lookup_global :: "analysis_index \<Rightarrow> string \<Rightarrow> u64 option" where
  "lookup_global idx nm = None"

definition parse_const_expr :: "string \<Rightarrow> analysis_index \<Rightarrow> u64 option" where
  "parse_const_expr text idx =
     (let t = trim text in
      case parse_hex_or_dec t of
        Some v \<Rightarrow> Some v
      | None \<Rightarrow>
          let nm = takeWhile (\<lambda>c. c \<noteq> CHR ''+'' \<and> c \<noteq> CHR ''-'') t in
          if nm = [] \<or> nm = t then None
          else let sign = t ! length nm; off = unwrap_or (parse_hex_or_dec (drop (Suc (length nm)) t)) 0
            in map_option (\<lambda>base. if sign = CHR ''-'' then base - off else base + off) (lookup_global idx (trim nm)))"

section \<open>Indirect calls\<close>

text \<open>The characters of a UTF-8 text.\<close>

definition continues :: "char \<Rightarrow> bool" where
  "continues c \<longleftrightarrow> 0x80 \<le> byte_of c \<and> byte_of c < 0xC0"

function utf8_chars :: "string \<Rightarrow> string list" where
  "utf8_chars [] = []"
| "utf8_chars (c # s) = (c # takeWhile continues s) # utf8_chars (dropWhile continues s)"
  by pat_completeness auto
termination
  by (relation "measure length") (auto simp: le_imp_less_Suc length_dropWhile_le)

function peel_wrappers :: "string \<Rightarrow> string" where
  "peel_wrappers s = (case strip_prefix s ''(*'' of
       Some r \<Rightarrow> peel_wrappers r
     | None \<Rightarrow> (case strip_prefix s ''(&'' of Some r \<Rightarrow> peel_wrappers r | None \<Rightarrow> s))"
  by pat_completeness auto
termination
  by (relation "measure length") (auto simp: strip_prefix_Some_iff)

declare peel_wrappers.simps [simp del]

definition base_object :: "(string \<Rightarrow> bool) \<Rightarrow> string \<Rightarrow> string option" where
  "base_object alphanumeric rendered =
     (let cs = utf8_chars (peel_wrappers (trim rendered));
          ident = takeWhile (\<lambda>c. alphanumeric c \<or> c = ''_'' \<or> c = ''@'') cs; nm = concat ident
      in if ident = cs \<or> nm = [] \<or> is_ok (parse_u64_radix 10 nm) then None else Some nm)"

definition slot_proposal :: "string \<Rightarrow> nat \<times> json \<Rightarrow> json option" where
  "slot_proposal base ns = (case ns of (n, slot) \<Rightarrow>
     let target = deep_parse_ea (str_of slot ''target_ea'') in
     if \<not> unwrap_or (as_bool (jidx slot ''is_code'')) False \<or> target = 0 then None
     else Some (JObj [(''target_ea'', JStr (hex_alt target)), (''name'', JStr (str_of slot ''name'')),
            (''via'', JStr (base @ ''+'' @ show_nat n)), (''confidence'', JStr ''set'')]))"

type_synonym table_reader = "u64 \<Rightarrow> usize \<Rightarrow> json result"

definition target_proposals :: "table_reader \<Rightarrow> (string \<Rightarrow> bool) \<Rightarrow> analysis_index \<Rightarrow> string \<Rightarrow> json list" where
  "target_proposals vtable_scan alphanumeric idx rendered = (case base_object alphanumeric rendered of
       None \<Rightarrow> []
     | Some base \<Rightarrow> (case lookup_global idx base of
         None \<Rightarrow> []
       | Some base_ea \<Rightarrow>
           let slots = (case vtable_scan base_ea 8 of Inr v \<Rightarrow> v | Inl _ \<Rightarrow> JNull)
           in take 4 (List.map_filter (slot_proposal base) (enumerate0 (items_of slots ''slots'')))))"

definition indirect_proposal :: "table_reader \<Rightarrow> (string \<Rightarrow> bool) \<Rightarrow> analysis_index \<Rightarrow> u64 \<Rightarrow> string \<Rightarrow> u64 \<Rightarrow> json \<Rightarrow> json" where
  "indirect_proposal vtable_scan alphanumeric idx ea fname call_ea call =
     (let rendered = str_of call ''target_name''; proposals = target_proposals vtable_scan alphanumeric idx rendered in JObj [
        (''function'', JStr fname), (''ea'', JStr (hex_alt ea)), (''call_ea'', JStr (hex_alt call_ea)), (''rendered'', JStr rendered),
        (''proposals'', JArr proposals),
        (''note'', if proposals = [] then JStr ''no resolvable target; evidence kept for the agent'' else JNull)])"

section \<open>One function\<close>

type_synonym value_map = "(u64 \<times> string, value_row) btree"

record value_state =
  va_merged :: value_map
  va_indirect :: "json list"
  va_truncated :: bool

definition insert_value :: "u64 \<Rightarrow> u64 list \<Rightarrow> u64 list" where
  "insert_value v vs = (if v \<in> set vs then vs else sort (vs @ [v]))"

definition add_value :: "u64 \<Rightarrow> string \<Rightarrow> u64 \<Rightarrow> string \<Rightarrow> u64 \<Rightarrow> value_map \<Rightarrow> value_map" where
  "add_value ea fname call_ea kind v m =
     (let row = unwrap_or (bt_get m (ea, kind)) \<lparr>vr_ea = ea, vr_function = fname, vr_kind = kind, vr_values = [], vr_at = []\<rparr>
      in bt_insert (ea, kind) (row\<lparr>vr_values := insert_value v (vr_values row), vr_at := insert_visited call_ea (vr_at row)\<rparr>) m)"

fun arg_loop :: "analysis_index \<Rightarrow> u64 \<Rightarrow> string \<Rightarrow> u64 \<Rightarrow> (nat \<times> json) list \<Rightarrow> value_map \<Rightarrow> value_map" where
  "arg_loop idx ea fname call_ea [] m = m"
| "arg_loop idx ea fname call_ea ((n, a) # as) m =
     (case Option.bind (as_str a) (\<lambda>text. parse_const_expr text idx) of
        None \<Rightarrow> arg_loop idx ea fname call_ea as m
      | Some v \<Rightarrow> arg_loop idx ea fname call_ea as (add_value ea fname call_ea (''arg'' @ show_nat n) v m))"

definition call_address :: "json \<Rightarrow> u64 option" where
  "call_address call = (case as_str (jidx call ''call_ea'') of
       None \<Rightarrow> None
     | Some text \<Rightarrow> let a = deep_parse_ea (takeWhile (\<lambda>c. c \<noteq> CHR ''+'') text) in if a = 0 then None else Some a)"

fun value_calls :: "table_reader \<Rightarrow> (string \<Rightarrow> bool) \<Rightarrow> analysis_index \<Rightarrow> u64 \<Rightarrow> nat \<Rightarrow> json list \<Rightarrow> value_state \<Rightarrow> value_state" where
  "value_calls vtable_scan alphanumeric idx ea max_calls [] st = st"
| "value_calls vtable_scan alphanumeric idx ea max_calls (call # cs) st =
     (case call_address call of
        None \<Rightarrow> value_calls vtable_scan alphanumeric idx ea max_calls cs st
      | Some call_ea \<Rightarrow>
          let fname = function_name idx ea;
              st1 = st\<lparr>va_merged := arg_loop idx ea fname call_ea (enumerate0 (items_of call ''args'')) (va_merged st)\<rparr>;
              st2 = (if is_direct call then st1
                     else if max_calls \<le> length (va_indirect st1) then st1\<lparr>va_truncated := True\<rparr>
                     else st1\<lparr>va_indirect := va_indirect st1 @ [indirect_proposal vtable_scan alphanumeric idx ea fname call_ea call]\<rparr>)
          in value_calls vtable_scan alphanumeric idx ea max_calls cs st2)"

definition collect_function_values ::
  "info_reader \<Rightarrow> table_reader \<Rightarrow> (string \<Rightarrow> bool) \<Rightarrow> analysis_index \<Rightarrow> u64 \<Rightarrow> nat \<Rightarrow> value_state \<Rightarrow> value_state result" where
  "collect_function_values info_of vtable_scan alphanumeric idx ea max_calls st = rmap (\<lambda>info.
     value_calls vtable_scan alphanumeric idx ea max_calls (take max_calls (items_of info ''calls'')) st) (info_of ea max_calls)"

section \<open>The function and its callees\<close>

fun callee_loop ::
  "(u64 \<Rightarrow> value_state \<Rightarrow> value_state result) \<Rightarrow> analysis_index \<Rightarrow> deep_budgets \<Rightarrow> u64 list \<Rightarrow> u64 list \<Rightarrow> u64 list \<Rightarrow> value_state
     \<Rightarrow> (value_state \<times> u64 list \<times> u64 list) result" where
  "callee_loop collect idx b [] visited next st = Inr (st, visited, next)"
| "callee_loop collect idx b (c # cs) visited next st =
     (if db_max_functions b \<le> length visited then Inr (st\<lparr>va_truncated := True\<rparr>, visited, next)
      else if c \<in> set visited \<or> bt_get (ai_functions idx) c = None then callee_loop collect idx b cs (insert_visited c visited) next st
      else if db_max_calls b \<le> length (va_merged st) + length (va_indirect st)
      then Inr (st\<lparr>va_truncated := True\<rparr>, insert_visited c visited, next)
      else rbind (collect c st) (\<lambda>st'. callee_loop collect idx b cs (insert_visited c visited)
             (next @ (case bt_get (ai_functions idx) c of Some f \<Rightarrow> ff_callees f | None \<Rightarrow> [])) st'))"

text \<open>\<open>depth\<close> counts the levels used so far, \<open>k\<close> those that are left; each level reads the clock once.\<close>

fun value_levels ::
  "(u64 \<Rightarrow> value_state \<Rightarrow> value_state result) \<Rightarrow> (nat \<Rightarrow> nat) \<Rightarrow> analysis_index \<Rightarrow> deep_budgets \<Rightarrow> nat \<Rightarrow> nat \<Rightarrow> u64 list \<Rightarrow> u64 list
     \<Rightarrow> value_state \<Rightarrow> (value_state \<times> nat) result" where
  "value_levels collect clock idx b 0 depth frontier visited st = Inr (st, depth)"
| "value_levels collect clock idx b (Suc k) depth frontier visited st =
     (if frontier = [] then Inr (st, depth)
      else if \<not> time_left b (clock (depth - 1)) then Inr (st\<lparr>va_truncated := True\<rparr>, depth)
      else rbind (callee_loop collect idx b frontier visited [] st) (\<lambda>(st', visited', next).
        value_levels collect clock idx b k (Suc depth) next visited' st'))"

definition target_key :: "json \<Rightarrow> string \<times> string" where
  "target_key r = (str_of r ''function'', str_of r ''kind'')"

definition value_report :: "analysis_index \<Rightarrow> u64 \<Rightarrow> deep_budgets \<Rightarrow> value_state \<Rightarrow> nat \<Rightarrow> json" where
  "value_report idx root b st depth_used =
     (let targets = sort_key target_key (map (\<lambda>(_, r). value_row_json r) (va_merged st)) in JObj [
        (''ea'', JStr (hex_alt root)), (''function'', JStr (function_name idx root)), (''depth_used'', jn depth_used),
        (''truncated'', JBool (va_truncated st \<or> db_max_calls b < length targets \<or> db_max_calls b < length (va_indirect st))),
        (''targets'', JArr (take (db_max_calls b) targets)), (''indirect'', JArr (take (db_max_calls b) (va_indirect st)))])"

definition value_analysis ::
  "info_reader \<Rightarrow> table_reader \<Rightarrow> (string \<Rightarrow> bool) \<Rightarrow> (nat \<Rightarrow> nat) \<Rightarrow> analysis_index \<Rightarrow> u64 \<Rightarrow> deep_budgets \<Rightarrow> json result" where
  "value_analysis info_of vtable_scan alphanumeric clock idx root b =
     (case bt_get (ai_functions idx) root of
        None \<Rightarrow> Inl (Worker (''no function at '' @ hex_alt root))
      | Some f \<Rightarrow>
          let collect = (\<lambda>ea. collect_function_values info_of vtable_scan alphanumeric idx ea (db_max_calls b)) in
          rbind (collect root \<lparr>va_merged = [], va_indirect = [], va_truncated = False\<rparr>) (\<lambda>st.
          rmap (\<lambda>(st', depth_used). value_report idx root b st' depth_used)
            (value_levels collect clock idx b (max (db_depth b) 1 - 1) 1 (ff_callees f) [root] st)))"

section \<open>The values are the constants at the call sites\<close>

text \<open>The constants of a function in the order they are met: argument, value and call site.\<close>

definition call_consts :: "analysis_index \<Rightarrow> json \<Rightarrow> (string \<times> u64 \<times> u64) list" where
  "call_consts idx call = (case call_address call of
       None \<Rightarrow> []
     | Some c \<Rightarrow> List.map_filter (\<lambda>(n, a). map_option (\<lambda>v. (''arg'' @ show_nat n, v, c))
         (Option.bind (as_str a) (\<lambda>text. parse_const_expr text idx))) (enumerate0 (items_of call ''args'')))"

definition function_consts :: "analysis_index \<Rightarrow> nat \<Rightarrow> json \<Rightarrow> (string \<times> u64 \<times> u64) list" where
  "function_consts idx max_calls info = concat (map (call_consts idx) (take max_calls (items_of info ''calls'')))"

definition first_uses :: "u64 list \<Rightarrow> u64 list" where
  "first_uses cs = foldl (\<lambda>as c. insert_visited c as) [] cs"

definition value_spec :: "analysis_index \<Rightarrow> u64 \<Rightarrow> (string \<times> u64 \<times> u64) list \<Rightarrow> string \<Rightarrow> value_row option" where
  "value_spec idx ea ts kind = (let xs = filter (\<lambda>t. fst t = kind) ts in
     if xs = [] then None
     else Some \<lparr>vr_ea = ea, vr_function = function_name idx ea, vr_kind = kind,
       vr_values = sort_dedup (map (\<lambda>t. fst (snd t)) xs), vr_at = first_uses (map (\<lambda>t. snd (snd t)) xs)\<rparr>)"

lemma insert_value_sort_dedup: "insert_value v (sort_dedup vs) = sort_dedup (vs @ [v])"
proof (cases "v \<in> set vs")
  case True
  then show ?thesis by (auto simp: insert_value_def intro: sort_dedup_cong)
next
  case False
  then have "distinct (sort (sort_dedup vs @ [v]))" by simp
  then have "sorted_list_of_set (set (sort (sort_dedup vs @ [v]))) = sort (sort_dedup vs @ [v])"
    by (intro sorted_list_of_set.idem_if_sorted_distinct) simp_all
  with False show ?thesis by (simp add: insert_value_def sort_dedup_eq_sorted_list_of_set)
qed

definition add_const :: "u64 \<Rightarrow> string \<Rightarrow> value_map \<Rightarrow> string \<times> u64 \<times> u64 \<Rightarrow> value_map" where
  "add_const ea fname m t = add_value ea fname (snd (snd t)) (fst t) (fst (snd t)) m"

lemma add_const_get: "bt_get (add_const ea fname m t) (e, k) = (if e = ea \<and> k = fst t
    then let row = unwrap_or (bt_get m (ea, k)) \<lparr>vr_ea = ea, vr_function = fname, vr_kind = k, vr_values = [], vr_at = []\<rparr>
      in Some (row\<lparr>vr_values := insert_value (fst (snd t)) (vr_values row), vr_at := insert_visited (snd (snd t)) (vr_at row)\<rparr>)
    else bt_get m (e, k))"
  by (auto simp: add_const_def add_value_def Let_def)

lemma add_const_inv: "bt_inv m \<Longrightarrow> bt_inv (foldl (add_const ea fname) m ts)"
  by (induction ts arbitrary: m) (simp_all add: add_const_def add_value_def Let_def bt_inv_insert)

lemma value_spec_snoc: "value_spec idx ea (ts @ [t]) k = (if k = fst t
    then let row = unwrap_or (value_spec idx ea ts k) \<lparr>vr_ea = ea, vr_function = function_name idx ea, vr_kind = k, vr_values = [], vr_at = []\<rparr>
      in Some (row\<lparr>vr_values := insert_value (fst (snd t)) (vr_values row), vr_at := insert_visited (snd (snd t)) (vr_at row)\<rparr>)
    else value_spec idx ea ts k)"
proof -
  have "insert_value v [] = sort_dedup [v]" for v by (simp add: insert_value_def sort_dedup_def)
  then show ?thesis by (auto simp: value_spec_def Let_def unwrap_or_def insert_value_sort_dedup first_uses_def)
qed

lemma add_consts_get:
  assumes "\<And>k. bt_get m (ea, k) = None"
  shows "bt_get (foldl (add_const ea (function_name idx ea)) m ts) (e, k) = (if e = ea then value_spec idx ea ts k else bt_get m (e, k))"
proof (induction ts arbitrary: e k rule: rev_induct)
  case Nil
  with assms show ?case by (simp add: value_spec_def)
next
  case (snoc t ts)
  from snoc [of ea] snoc [of e] show ?case by (simp add: add_const_get value_spec_snoc)
qed

lemma arg_loop_consts: "arg_loop idx ea fname c as m = foldl (add_const ea fname) m
    (List.map_filter (\<lambda>(n, a). map_option (\<lambda>v. (''arg'' @ show_nat n, v, c)) (Option.bind (as_str a) (\<lambda>text. parse_const_expr text idx))) as)"
  by (induction idx ea fname c as m rule: arg_loop.induct) (auto simp: map_filter_simps add_const_def split: option.splits)

lemma value_calls_merged:
  "va_merged (value_calls vt al idx ea mx cs st) = foldl (add_const ea (function_name idx ea)) (va_merged st) (concat (map (call_consts idx) cs))"
  by (induction cs arbitrary: st) (simp_all add: Let_def call_consts_def arg_loop_consts split: option.splits)


definition without_target :: "json \<Rightarrow> bool" where
  "without_target row \<longleftrightarrow> jidx row ''proposals'' = JArr []"

text \<open>A proposal needs a named global, and none is ever found.\<close>

lemma no_target_is_proposed: "target_proposals vt al idx rendered = []"
  by (simp add: target_proposals_def lookup_global_def split: option.splits)

lemma symbols_are_not_constants: "parse_const_expr text idx = parse_hex_or_dec (trim text)"
  by (simp add: parse_const_expr_def lookup_global_def Let_def split: option.splits)

lemma value_calls_unresolved: "list_all without_target (va_indirect st) \<Longrightarrow> list_all without_target (va_indirect (value_calls vt al idx ea mx cs st))"
  by (induction cs arbitrary: st) (simp_all add: Let_def indirect_proposal_def no_target_is_proposed without_target_def split: option.splits)

definition value_inv :: "info_reader \<Rightarrow> analysis_index \<Rightarrow> nat \<Rightarrow> u64 list \<Rightarrow> value_state \<Rightarrow> bool" where
  "value_inv info_of idx mx V st \<longleftrightarrow> distinct V \<and> (\<forall>ea \<in> set V. bt_get (ai_functions idx) ea \<noteq> None) \<and> bt_inv (va_merged st) \<and>
     list_all without_target (va_indirect st) \<and>
     (\<forall>ea k. bt_get (va_merged st) (ea, k) =
        (if ea \<in> set V then value_spec idx ea (function_consts idx mx (projr (info_of ea mx))) k else None))"

lemma value_inv_truncated [simp]: "value_inv info_of idx mx V (st\<lparr>va_truncated := t\<rparr>) = value_inv info_of idx mx V st"
  by (simp add: value_inv_def)

lemma value_inv_collect:
  assumes "value_inv info_of idx mx V st" "ea \<notin> set V" "bt_get (ai_functions idx) ea \<noteq> None"
    "collect_function_values info_of vt al idx ea mx st = Inr st'"
  shows "value_inv info_of idx mx (V @ [ea]) st'"
proof -
  from assms(4) obtain info where info: "info_of ea mx = Inr info" "st' = value_calls vt al idx ea mx (take mx (items_of info ''calls'')) st"
    by (auto simp: collect_function_values_def result_simps)
  have m: "va_merged st' = foldl (add_const ea (function_name idx ea)) (va_merged st) (function_consts idx mx info)"
    by (simp add: info(2) value_calls_merged function_consts_def)
  have "bt_get (va_merged st) (ea, k) = None" for k using assms(1, 2) by (simp add: value_inv_def)
  from add_consts_get [OF this] have "bt_get (va_merged st') (e, k) =
      (if e = ea then value_spec idx ea (function_consts idx mx info) k else bt_get (va_merged st) (e, k))" for e k unfolding m .
  moreover have "bt_inv (va_merged st')" "list_all without_target (va_indirect st')"
    using assms(1) by (simp_all add: value_inv_def m add_const_inv) (simp add: info(2) value_calls_unresolved)
  ultimately show ?thesis using assms(1-3) info(1) by (auto simp: value_inv_def)
qed

text \<open>What a level keeps: the functions collected so far are among those visited, and the budget on functions holds.\<close>

definition level_ok :: "info_reader \<Rightarrow> analysis_index \<Rightarrow> deep_budgets \<Rightarrow> u64 list \<Rightarrow> u64 list \<Rightarrow> value_state \<Rightarrow> bool" where
  "level_ok info_of idx b V visited st \<longleftrightarrow> value_inv info_of idx (db_max_calls b) V st \<and> set V \<subseteq> set visited \<and> distinct visited \<and>
     length visited \<le> max 1 (db_max_functions b)"

lemma insert_visited_simps [simp]: "set (insert_visited c vs) = insert c (set vs)" "distinct (insert_visited c vs) = distinct vs"
  "length (insert_visited c vs) = (if c \<in> set vs then length vs else Suc (length vs))"
  by (auto simp: insert_visited_def)

lemma callee_loop_ok:
  assumes "level_ok info_of idx b V visited st"
    "callee_loop (\<lambda>ea. collect_function_values info_of vt al idx ea (db_max_calls b)) idx b cs visited next st = Inr (st', visited', next')"
  shows "\<exists>W. level_ok info_of idx b (V @ W) visited' st'"
  using assms
proof (induction cs arbitrary: V visited "next" st)
  case Nil
  then show ?case by (auto intro: exI [of _ "[]"])
next
  case (Cons c cs)
  let ?collect = "\<lambda>ea. collect_function_values info_of vt al idx ea (db_max_calls b)"
  consider (stop) "db_max_functions b \<le> length visited"
    | (skip) "\<not> db_max_functions b \<le> length visited" "c \<in> set visited \<or> bt_get (ai_functions idx) c = None"
    | (full) "\<not> db_max_functions b \<le> length visited" "c \<notin> set visited" "bt_get (ai_functions idx) c \<noteq> None"
        "db_max_calls b \<le> length (va_merged st) + length (va_indirect st)"
    | (go) "\<not> db_max_functions b \<le> length visited" "c \<notin> set visited" "bt_get (ai_functions idx) c \<noteq> None"
        "\<not> db_max_calls b \<le> length (va_merged st) + length (va_indirect st)" by blast
  then show ?case
  proof cases
    case stop
    with Cons.prems show ?thesis by (auto simp: level_ok_def intro: exI [of _ "[]"])
  next
    case skip
    then have "level_ok info_of idx b V (insert_visited c visited) st" using Cons.prems(1) by (auto simp: level_ok_def)
    from Cons.IH [OF this] Cons.prems(2) skip show ?thesis by simp
  next
    case full
    then have "visited' = insert_visited c visited" "st' = st\<lparr>va_truncated := True\<rparr>" using Cons.prems(2) by auto
    with full Cons.prems(1) show ?thesis by (auto simp: level_ok_def intro: exI [of _ "[]"])
  next
    case go
    with Cons.prems(2) obtain st1 where st1: "?collect c st = Inr st1"
      "callee_loop ?collect idx b cs (insert_visited c visited) (next @ (case bt_get (ai_functions idx) c of Some f \<Rightarrow> ff_callees f | None \<Rightarrow> [])) st1 = Inr (st', visited', next')"
      by (auto simp: result_simps)
    have "c \<notin> set V" using go(2) Cons.prems(1) by (auto simp: level_ok_def)
    from value_inv_collect [OF _ this go(3) st1(1)] have "level_ok info_of idx b (V @ [c]) (insert_visited c visited) st1"
      using Cons.prems(1) go by (auto simp: level_ok_def)
    from Cons.IH [OF this st1(2)] show ?thesis by auto
  qed
qed

lemma value_levels_ok:
  "level_ok info_of idx b V visited st \<Longrightarrow>
   value_levels (\<lambda>ea. collect_function_values info_of vt al idx ea (db_max_calls b)) clock idx b k depth frontier visited st = Inr (st', used) \<Longrightarrow>
   \<exists>W visited'. level_ok info_of idx b (V @ W) visited' st'"
proof (induction k arbitrary: V depth frontier visited st)
  case 0
  then show ?case by (intro exI [of _ "[]"] exI [of _ visited]) simp
next
  case (Suc k)
  let ?collect = "\<lambda>ea. collect_function_values info_of vt al idx ea (db_max_calls b)"
  show ?case
  proof (cases "frontier = [] \<or> \<not> time_left b (clock (depth - 1))")
    case True
    then have "st' = st \<or> st' = st\<lparr>va_truncated := True\<rparr>" using Suc.prems(2) by (auto split: if_splits)
    then have "level_ok info_of idx b V visited st'" using Suc.prems(1) by (auto simp: level_ok_def)
    then show ?thesis by (intro exI [of _ "[]"] exI [of _ visited]) simp
  next
    case False
    with Suc.prems(2) obtain st1 vs1 next1 where one: "callee_loop ?collect idx b frontier visited [] st = Inr (st1, vs1, next1)"
      "value_levels ?collect clock idx b k (Suc depth) next1 vs1 st1 = Inr (st', used)" by (auto simp: result_simps)
    from callee_loop_ok [OF Suc.prems(1) one(1)] obtain W where "level_ok info_of idx b (V @ W) vs1 st1" by auto
    from Suc.IH [OF this one(2)] show ?thesis by (metis append_assoc)
  qed
qed




end
