(* ===== verification/Deob.thy ===== *)
theory Deob
  imports Deep
begin

text \<open>
  \<open>crates/rmcp-worker/src/deob.rs\<close>: five read-only passes that look for obfuscation patterns in a function and report evidence and a
  confidence each. What the passes read of the backend is the record \<open>deob_reads\<close>.
\<close>

record deob_reads =
  dr_decompile :: "u64 \<Rightarrow> json result"
  dr_graph :: "u64 \<Rightarrow> graph_params \<Rightarrow> json result"
  dr_function_at :: "u64 \<Rightarrow> function_info result"
  dr_disassemble :: "u64 \<Rightarrow> u64 option \<Rightarrow> usize \<Rightarrow> insn_info list result"
  dr_hr_cfunc :: "u64 \<Rightarrow> bool \<Rightarrow> bool \<Rightarrow> usize \<Rightarrow> json result"

record pass_report =
  pr_name :: string
  pr_version :: u32
  pr_confidence :: f64
  pr_evidence :: json
  pr_proposed :: json
  pr_failure :: "string option"

definition pass_report_json :: "pass_report \<Rightarrow> json" where
  "pass_report_json r = JObj [(''pass'', JStr (pr_name r)), (''version'', JNum (uint (pr_version r))),
     (''confidence'', JStr (fmt2 (pr_confidence r))), (''evidence'', pr_evidence r), (''proposed'', pr_proposed r),
     (''failure'', jopt JStr (pr_failure r))]"

definition pass_budget :: "nat \<Rightarrow> nat" where
  "pass_budget max_passes = clamp 1 16 max_passes"

definition no_action :: json where
  "no_action = JObj [(''action'', JStr ''none'')]"

definition proposed_action :: "string \<Rightarrow> string \<Rightarrow> json" where
  "proposed_action a note = JObj [(''action'', JStr a), (''note'', JStr note)]"

definition failed_pass :: "string \<Rightarrow> string \<Rightarrow> pass_report" where
  "failed_pass nm why = \<lparr>pr_name = nm, pr_version = 1, pr_confidence = f_zero, pr_evidence = JObj [], pr_proposed = no_action, pr_failure = Some why\<rparr>"

text \<open>The outcome of a pass that collects sites.\<close>

definition sites_pass :: "string \<Rightarrow> (nat \<Rightarrow> f64) \<Rightarrow> json \<Rightarrow> json list \<Rightarrow> string option \<Rightarrow> pass_report" where
  "sites_pass nm confidence act sites why = (let n = length sites in
     \<lparr>pr_name = nm, pr_version = 1, pr_confidence = confidence n, pr_evidence = JObj [(''sites'', JArr sites), (''count'', jn n)],
      pr_proposed = (if 0 < n then act else no_action), pr_failure = why\<rparr>)"

text \<open>A loop that pushes what it finds and breaks when \<open>cap\<close> sites are there; the break is tested after a push.\<close>

fun push_loop :: "nat \<Rightarrow> ('a \<Rightarrow> json option) \<Rightarrow> 'a list \<Rightarrow> json list \<Rightarrow> json list" where
  "push_loop cap f [] sites = sites"
| "push_loop cap f (x # xs) sites = (case f x of
     None \<Rightarrow> push_loop cap f xs sites
   | Some s \<Rightarrow> let sites' = sites @ [s] in if cap \<le> length sites' then sites' else push_loop cap f xs sites')"

definition error_of :: "'a result \<Rightarrow> string option" where
  "error_of r = (case r of Inl e \<Rightarrow> Some (error_to_string e) | Inr _ \<Rightarrow> None)"

definition items_or_none :: "'a list result \<Rightarrow> 'a list" where
  "items_or_none r = (case r of Inl _ \<Rightarrow> [] | Inr xs \<Rightarrow> xs)"

section \<open>The passes\<close>

definition flatten_score :: "nat \<Rightarrow> f64 \<Rightarrow> f64" where
  "flatten_score nodes avg_in =
     (if 12 \<le> nodes \<and> lit 16 10 \<le> avg_in then min (f_div avg_in (lit 3 1)) (lit 9 10)
      else if 6 \<le> nodes \<and> lit 2 1 \<le> avg_in then lit 6 10 else lit 2 10)"

definition flattening_pass :: "deob_reads \<Rightarrow> u64 \<Rightarrow> pass_report" where
  "flattening_pass be target =
     (case dr_graph be target \<lparr>gp_kind = ''cfg'', gp_depth = 1, gp_max_nodes = 400, gp_max_edges = 800\<rparr> of
        Inl e \<Rightarrow> failed_pass ''flatten_detect'' (''cfg unavailable: '' @ error_to_string e)
      | Inr g \<Rightarrow>
          let nodes = length (items_of g ''nodes''); edges = length (items_of g ''edges'');
              avg_in = (if 0 < nodes then f_div (f64_of edges) (f64_of nodes) else f_zero); score = flatten_score nodes avg_in
          in \<lparr>pr_name = ''flatten_detect'', pr_version = 1, pr_confidence = score,
              pr_evidence = JObj [(''cfg_nodes'', jn nodes), (''cfg_edges'', jn edges), (''avg_in_degree'', JStr (fmt2 avg_in)),
                (''heuristic'', JStr ''dispatcher-like block would show avg in-degree far above 1.0'')],
              pr_proposed = (if lit 6 10 \<le> score
                then proposed_action ''unflatten'' ''would require microcode-level transformation (proposed, not applied)'' else no_action),
              pr_failure = None\<rparr>)"

text \<open>A constant or self-comparing condition in a line of the syntax tree.\<close>

definition condition_text :: "string \<Rightarrow> string" where
  "condition_text t = unwrap_or (Option.bind (strip_prefix t ''if ('') (\<lambda>s. strip_suffix s '')'')) t"

definition self_comparison :: "string \<Rightarrow> bool" where
  "self_comparison inner =
     (case (case split_once inner ''=='' of Some ab \<Rightarrow> Some ab | None \<Rightarrow> split_once inner ''!='') of
        None \<Rightarrow> False
      | Some (a, b) \<Rightarrow> trim a = trim b \<and> trim a \<noteq> [] \<and> last (trim a) \<noteq> CHR ''='')"

definition opaque_row :: "json \<Rightarrow> json option" where
  "opaque_row row = (case as_str (jidx row ''text'') of
       None \<Rightarrow> None
     | Some text \<Rightarrow>
         let t = trim text in
         if t \<in> {''if (1)'', ''if (0)'', ''while (1)''} then Some (JObj [(''ea'', jidx row ''ea''), (''pattern'', JStr t)])
         else if self_comparison (condition_text t)
         then Some (JObj [(''ea'', jidx row ''ea''), (''pattern'', JStr ''self_comparison''), (''text'', JStr t)])
         else None)"

definition opaque_pair :: "insn_info \<times> insn_info option \<Rightarrow> json option" where
  "opaque_pair p = (case p of (insn, after) \<Rightarrow>
     if is_self_cmp insn \<and> (case after of Some nx \<Rightarrow> is_cond_jump nx | None \<Rightarrow> False)
     then Some (JObj [(''ea'', JStr (hex_alt (in_ea insn))), (''pattern'', JStr (to_lowercase (in_mnemonic insn) @ ''_reg_reg'')),
            (''text'', JStr (in_text insn))])
     else None)"

text \<open>\<open>list.get(i + 1)\<close> for every \<open>i\<close>.\<close>

definition with_next :: "'a list \<Rightarrow> ('a \<times> 'a option) list" where
  "with_next xs = zip xs (map Some (tl xs) @ [None])"

definition opaque_confidence :: "nat \<Rightarrow> f64" where
  "opaque_confidence n = (if n = 0 then lit 5 100 else if n = 1 then lit 4 10 else if n = 2 then lit 6 10
     else min (f_add (lit 6 10) (f_mul (lit 1 10) (f64_of (min n 4)))) (lit 95 100))"

definition opaque_branch_pass :: "deob_reads \<Rightarrow> u64 \<Rightarrow> pass_report" where
  "opaque_branch_pass be target =
     (let rows = (case dr_hr_cfunc be target True False 4000 of Inr hr \<Rightarrow> items_of hr ''ctree'' | Inl _ \<Rightarrow> []);
          insns = (case dr_function_at be target of Inr f \<Rightarrow> items_or_none (dr_disassemble be target (Some (fi_ea_end f)) 2000) | Inl _ \<Rightarrow> [])
      in sites_pass ''opaque_branch'' opaque_confidence
           (proposed_action ''simplify'' ''would fold constant/self comparisons in microcode (proposed, not applied)'')
           (push_loop 16 opaque_pair (with_next insns) (push_loop 16 opaque_row rows [])) None)"

definition is_reg_only :: "string \<Rightarrow> bool" where
  "is_reg_only ops = is_reg (to_lowercase ops)"

definition indirect_transfer :: "insn_info \<Rightarrow> json option" where
  "indirect_transfer i =
     (let m = to_lowercase (in_mnemonic i); ops = trim (in_operands i) in
      if (m = ''jmp'' \<or> m = ''call'') \<and> (starts_with ops ''['' \<or> str_contains ops ''reg'' \<or> is_reg_only ops)
      then Some (JObj [(''ea'', JStr (hex_alt (in_ea i))), (''text'', JStr (in_text i))]) else None)"

definition indirect_confidence :: "nat \<Rightarrow> f64" where
  "indirect_confidence n = (if n = 0 then lit 5 100 else if n = 1 then lit 35 100 else if n \<le> 4 then lit 55 100 else lit 75 100)"

definition indirect_pass :: "deob_reads \<Rightarrow> analysis_index \<Rightarrow> u64 \<Rightarrow> pass_report" where
  "indirect_pass be idx target = (case bt_get (ai_functions idx) target of
       None \<Rightarrow> failed_pass ''indirect_transfer'' ''function not indexed''
     | Some f \<Rightarrow>
         let insns = dr_disassemble be target (Some (ff_ea_end f)) 2000
         in sites_pass ''indirect_transfer'' indirect_confidence
              (proposed_action ''narrow_targets'' ''would resolve targets when a dominating assignment proves unique (proposed, not applied)'')
              (push_loop 16 indirect_transfer (items_or_none insns) []) (error_of insns))"

definition junk_pair :: "insn_info \<times> insn_info option \<Rightarrow> json option" where
  "junk_pair p = (case p of (insn, after) \<Rightarrow>
     if (case after of Some nx \<Rightarrow> pair_is_roundtrip [insn, nx] | None \<Rightarrow> False)
     then Some (JObj [(''ea'', JStr (hex_alt (in_ea insn))), (''text'', JStr (in_text insn))]) else None)"

definition junk_confidence :: "nat \<Rightarrow> f64" where
  "junk_confidence n = (if n = 0 then lit 5 100 else if n \<le> 2 then lit 3 10 else if n \<le> 6 then lit 55 100 else lit 8 10)"

definition junk_pass :: "deob_reads \<Rightarrow> u64 \<Rightarrow> pass_report" where
  "junk_pass be target = (case dr_function_at be target of
       Inl _ \<Rightarrow> failed_pass ''junk_code'' ''function not found''
     | Inr f \<Rightarrow>
         let insns = dr_disassemble be target (Some (fi_ea_end f)) 2000
         in sites_pass ''junk_code'' junk_confidence
              (proposed_action ''remove_noops'' ''would nop-free the instruction stream in microcode (proposed, not applied)'')
              (push_loop 16 junk_pair (with_next (items_or_none insns)) []) (error_of insns))"

text \<open>The instructions before each instruction, the nearest first.\<close>

definition with_previous :: "'a list \<Rightarrow> ('a list \<times> 'a) list" where
  "with_previous xs = map (\<lambda>i. (rev (take i xs), xs ! i)) [0..<length xs]"

definition tail_jump :: "insn_info list \<times> insn_info \<Rightarrow> json option" where
  "tail_jump p = (case p of (prevs, insn) \<Rightarrow>
     let ops = trim (in_operands insn) in
     if to_lowercase (in_mnemonic insn) = ''jmp'' \<and> is_reg_only ops
        \<and> list_ex (\<lambda>q. eq_ignore_ascii_case (in_mnemonic q) ''mov'' \<and> trim (hd (split_char (CHR '','') (in_operands q))) = ops) (take 6 prevs)
     then Some (JObj [(''ea'', JStr (hex_alt (in_ea insn))), (''reg'', JStr ops)]) else None)"

definition tail_confidence :: "nat \<Rightarrow> f64" where
  "tail_confidence n = (if n = 0 then lit 5 100 else if n = 1 then lit 5 10 else if n \<le> 3 then lit 7 10 else lit 85 100)"

definition tail_jump_pass :: "deob_reads \<Rightarrow> u64 \<Rightarrow> pass_report" where
  "tail_jump_pass be target = (case dr_function_at be target of
       Inl _ \<Rightarrow> failed_pass ''tail_jump'' ''function not found''
     | Inr f \<Rightarrow>
         let insns = dr_disassemble be target (Some (fi_ea_end f)) 2000
         in sites_pass ''tail_jump'' tail_confidence
              (proposed_action ''convert_to_call'' ''would convert reg-jumps to explicit calls where the register assignment is unique (proposed, not applied)'')
              (push_loop 8 tail_jump (with_previous (items_or_none insns)) []) (error_of insns))"

section \<open>The run\<close>

definition pseudocode_len :: "json \<Rightarrow> nat option" where
  "pseudocode_len v = map_option length (as_str (jidx v ''pseudocode''))"

definition improved :: "json result \<Rightarrow> json result \<Rightarrow> bool" where
  "improved before after = (case (before, after) of (Inr b, Inr a) \<Rightarrow> pseudocode_len b \<noteq> pseudocode_len a | _ \<Rightarrow> False)"

definition deob_passes :: "deob_reads \<Rightarrow> analysis_index \<Rightarrow> u64 \<Rightarrow> nat \<Rightarrow> pass_report list" where
  "deob_passes be idx target allowed = take allowed [flattening_pass be target, opaque_branch_pass be target,
     indirect_pass be idx target, junk_pass be target, tail_jump_pass be target]"

definition is_triggered :: "pass_report \<Rightarrow> bool" where
  "is_triggered p \<longleftrightarrow> lit 6 10 \<le> pr_confidence p \<and> pr_failure p = None"

definition deobfuscate :: "deob_reads \<Rightarrow> analysis_index \<Rightarrow> u64 \<Rightarrow> nat \<Rightarrow> json result" where
  "deobfuscate be idx target max_passes = (case bt_get (ai_functions idx) target of
       None \<Rightarrow> Inl (Worker (''no function at '' @ hex_alt target))
     | Some f \<Rightarrow>
         let allowed = pass_budget max_passes; passes = deob_passes be idx target allowed
         in Inr (JObj [(''target'', JStr (hex_alt target)), (''name'', JStr (ff_name f)), (''mode'', JStr ''analysis_only''),
              (''passes_run'', jn (length passes)), (''pass_budget'', jn allowed), (''findings'', JArr (map pass_report_json passes)),
              (''triggered_passes'', JArr (map (\<lambda>p. JStr (pr_name p)) (filter is_triggered passes))),
              (''improved_after_redecompile'', JBool (improved (dr_decompile be target) (dr_decompile be target))),
              (''before_after_note'', JStr ''engine is read-only; before/after included for auditability, no IDB mutation occurred''),
              (''safety'', JStr ''byte patches and IDB metadata repairs are separate explicit mutations (ida_mutation / plan)'')]))"

section \<open>What a run reports\<close>

lemma push_loop_take: "length sites < cap \<Longrightarrow> push_loop cap f xs sites = take cap (sites @ List.map_filter f xs)"
  by (induction cap f xs sites rule: push_loop.induct) (auto simp: map_filter_simps Let_def take_Cons' split: option.splits)

lemma push_loop_bound: "length (push_loop cap f xs sites) \<le> max cap (Suc (length sites))"
  by (induction cap f xs sites rule: push_loop.induct) (auto simp: Let_def le_max_iff_disj split: option.splits)

text \<open>The sites of the passes over the instruction stream are the first matches of their pattern.\<close>

lemma indirect_sites_found:
  assumes "bt_get (ai_functions idx) target = Some f" "dr_disassemble be target (Some (ff_ea_end f)) 2000 = Inr insns"
  shows "items_of (pr_evidence (indirect_pass be idx target)) ''sites'' = take 16 (List.map_filter indirect_transfer insns)"
  using assms by (simp add: indirect_pass_def sites_pass_def Let_def items_of_def items_or_none_def push_loop_take)

lemma junk_sites_found:
  assumes "dr_function_at be target = Inr f" "dr_disassemble be target (Some (fi_ea_end f)) 2000 = Inr insns"
  shows "items_of (pr_evidence (junk_pass be target)) ''sites'' = take 16 (List.map_filter junk_pair (with_next insns))"
  using assms by (simp add: junk_pass_def sites_pass_def Let_def items_of_def items_or_none_def push_loop_take)

lemma tail_sites_found:
  assumes "dr_function_at be target = Inr f" "dr_disassemble be target (Some (fi_ea_end f)) 2000 = Inr insns"
  shows "items_of (pr_evidence (tail_jump_pass be target)) ''sites'' = take 8 (List.map_filter tail_jump (with_previous insns))"
  using assms by (simp add: tail_jump_pass_def sites_pass_def Let_def items_of_def items_or_none_def push_loop_take)

text \<open>The opaque pass runs two loops into one list, each of which pushes before it tests: seventeen sites can be reported.\<close>

lemma two_loops_bound: "length (push_loop cap f xs (push_loop cap g ys [])) \<le> Suc (max cap 1)"
proof -
  have "length (push_loop cap f xs (push_loop cap g ys [])) \<le> max cap (Suc (length (push_loop cap g ys [])))" by (rule push_loop_bound)
  also have "length (push_loop cap g ys []) \<le> max cap 1" using push_loop_bound [of cap g ys "[]"] by simp
  then have "max cap (Suc (length (push_loop cap g ys []))) \<le> Suc (max cap 1)" by simp
  finally show ?thesis .
qed

lemma opaque_sites_bound: "length (items_of (pr_evidence (opaque_branch_pass be target)) ''sites'') \<le> 17"
  using two_loops_bound [of 16] by (simp add: opaque_branch_pass_def sites_pass_def Let_def items_of_def)

text \<open>Confidences are scores of at most 0.95, whatever the backend answers.\<close>

definition modest :: "pass_report \<Rightarrow> bool" where
  "modest p \<longleftrightarrow> f_zero \<le> pr_confidence p \<and> pr_confidence p \<le> lit 95 100"

lemma lit_nonneg: "0 \<le> p \<Longrightarrow> 0 < q \<Longrightarrow> f_zero \<le> lit p q"
  using lit_f64 [of p q] by (cases "lit p q") simp

lemma lit_le: "0 \<le> p \<Longrightarrow> 0 < q \<Longrightarrow> p * 100 \<le> 95 * q \<Longrightarrow> lit p q \<le> lit 95 100"
  by (rule lit_mono) simp_all


lemma sites_pass_modest: "(\<And>n. f_zero \<le> confidence n \<and> confidence n \<le> lit 95 100) \<Longrightarrow> modest (sites_pass nm confidence act sites why)"
  by (simp add: modest_def sites_pass_def Let_def)

lemma failed_pass_modest: "modest (failed_pass nm why)"
  by (simp add: modest_def failed_pass_def lit_nonneg)

lemma f_add_nonneg: "is_f64 x \<Longrightarrow> is_f64 y \<Longrightarrow> f_zero \<le> f_add x y"
  using f_add_f64 [of x y] by (cases "f_add x y") simp

lemma opaque_confidence_range: "f_zero \<le> opaque_confidence n \<and> opaque_confidence n \<le> lit 95 100"
proof -
  have "f_zero \<le> f_add (lit 6 10) (f_mul (lit 1 10) (f64_of (min n 4)))"
    by (intro f_add_nonneg lit_f64 f_mul_f64 f64_of_f64) simp_all
  then show ?thesis by (simp add: opaque_confidence_def lit_nonneg lit_le)
qed

lemma f_div_f64: "is_f64 x \<Longrightarrow> f_one \<le> y \<Longrightarrow> is_f64 (f_div x y)"
proof -
  assume x: "is_f64 x" and y: "f_one \<le> y"
  from y have "0 < ulps y" by (intro less_le_trans [OF f64_unit_pos(1)]) (simp add: less_eq_f64_def)
  with x show ?thesis by (simp add: f_div_def rnd_nonneg rnd_is_double)
qed

lemma f_div_nonneg: "is_f64 x \<Longrightarrow> f_one \<le> y \<Longrightarrow> f_zero \<le> f_div x y"
  using f_div_f64 [of x y] by (cases "f_div x y") simp

lemma flatten_score_range: "is_f64 x \<Longrightarrow> f_zero \<le> flatten_score n x \<and> flatten_score n x \<le> lit 95 100"
proof -
  assume x: "is_f64 x"
  have "f_one \<le> lit 3 1" using lit_mono [of 1 1 1 3] lit_1 [of 1] by simp
  from f_div_nonneg [OF x this] show ?thesis by (auto simp: flatten_score_def lit_nonneg lit_le min.coboundedI2)
qed

lemma passes_modest: "list_all modest (deob_passes be idx target allowed)"
proof -
  have "modest (flattening_pass be target)"
  proof (cases "dr_graph be target \<lparr>gp_kind = ''cfg'', gp_depth = 1, gp_max_nodes = 400, gp_max_edges = 800\<rparr>")
    case (Inr g)
    let ?n = "length (items_of g ''nodes'')"
    have "is_f64 (if 0 < ?n then f_div (f64_of (length (items_of g ''edges''))) (f64_of ?n) else f_zero)"
      using f_div_f64 [OF f64_of_f64 f64_of_pos, of ?n "length (items_of g ''edges'')"] by simp
    from flatten_score_range [OF this, of ?n] Inr show ?thesis by (simp add: flattening_pass_def Let_def modest_def)
  qed (simp add: flattening_pass_def failed_pass_modest)
  moreover have "modest (opaque_branch_pass be target)" unfolding opaque_branch_pass_def Let_def
    by (intro sites_pass_modest opaque_confidence_range)
  moreover have "modest (indirect_pass be idx target)" unfolding indirect_pass_def Let_def
    by (auto split: option.splits intro!: failed_pass_modest sites_pass_modest simp: indirect_confidence_def lit_nonneg lit_le)
  moreover have "modest (junk_pass be target)" unfolding junk_pass_def Let_def
    by (auto split: sum.splits intro!: failed_pass_modest sites_pass_modest simp: junk_confidence_def lit_nonneg lit_le)
  moreover have "modest (tail_jump_pass be target)" unfolding tail_jump_pass_def Let_def
    by (auto split: sum.splits intro!: failed_pass_modest sites_pass_modest simp: tail_confidence_def lit_nonneg lit_le)
  ultimately show ?thesis unfolding deob_passes_def list_all_iff by (auto dest!: in_set_takeD)
qed

text \<open>
  A run reports as many passes as its budget allows, of five, each with a confidence between 0 and 0.95; it marks as triggered the
  passes with a confidence of at least 0.6 that did not fail, and never claims an improvement.
\<close>

lemma deob_run_report:
  assumes "deobfuscate be idx target max_passes = Inr out"
  shows "\<exists>passes. items_of out ''findings'' = map pass_report_json passes \<and> length passes = min 5 (clamp 1 16 max_passes) \<and>
    jidx out ''passes_run'' = jn (length passes) \<and> list_all modest passes \<and>
    items_of out ''triggered_passes'' = map (\<lambda>p. JStr (pr_name p)) (filter is_triggered passes) \<and>
    jidx out ''improved_after_redecompile'' = JBool False"
proof -
  have never: "\<not> improved r r" for r by (simp add: improved_def split: sum.splits)
  from assms have "items_of out ''findings'' = map pass_report_json (deob_passes be idx target (clamp 1 16 max_passes)) \<and>
    jidx out ''passes_run'' = jn (length (deob_passes be idx target (clamp 1 16 max_passes))) \<and>
    items_of out ''triggered_passes'' = map (\<lambda>p. JStr (pr_name p)) (filter is_triggered (deob_passes be idx target (clamp 1 16 max_passes))) \<and>
    jidx out ''improved_after_redecompile'' = JBool False"
    by (auto simp: deobfuscate_def Let_def items_of_def pass_budget_def never split: option.splits)
  moreover have "length (deob_passes be idx target (clamp 1 16 max_passes)) = min 5 (clamp 1 16 max_passes)" by (simp add: deob_passes_def min.commute)
  ultimately show ?thesis using passes_modest [of be idx target "clamp 1 16 max_passes"] by blast
qed

end
