(* ===== verification/Dispatch.thy ===== *)
theory Dispatch
  imports Crypto Block_Diff Type_Recovery Value_Analysis Deob
begin

text \<open>
  \<open>crates/rmcp-worker/src/dispatch.rs\<close>: the worker's method table. Every arm of the \<open>match\<close> is a
  handler; \<open>dispatch\<close> looks the method up and \<open>handle\<close> wraps the outcome in a response and drops
  the cache after a successful mutation. The model is the build without an IDA SDK feature,
  whose only backend is the in-memory one. What the arms call outside this development is
  the record \<open>env\<close>: the deserialisers and texts of \<open>serde_json\<close>, the clock, what the rules directory holds and
  the alphanumeric characters of Unicode. The analysis engines are those of the theories imported here, run on
  what the in-memory backend answers.
\<close>

record env =
  en_now :: nat
  en_clock :: "nat \<Rightarrow> nat"
  en_cache_dir :: path
  en_index_text :: "analysis_index \<Rightarrow> string + string"
  en_query_of :: "json \<Rightarrow> string + evidence_query"
  en_serde_error :: "json \<Rightarrow> string"
  en_workflow_text :: "workflow_request \<Rightarrow> string"
  en_budgets_text :: "deep_budgets \<Rightarrow> string"
  en_rules_dir :: rules_dir
  en_from_slice :: "string \<Rightarrow> string + json"
  en_sig_of :: "json \<Rightarrow> string + sig_index"
  en_sig_text :: "sig_index \<Rightarrow> string + string"
  en_alphanumeric :: "string \<Rightarrow> bool"

text \<open>Handlers: of a read-only method, and of any method.\<close>

type_synonym reader = "json \<Rightarrow> mock option \<Rightarrow> json result"
type_synonym handler = "json \<Rightarrow> json worker"

definition with_db :: "mock option \<Rightarrow> (mock \<Rightarrow> 'a result) \<Rightarrow> 'a result" where
  "with_db b f = (case b of Some x \<Rightarrow> f x | None \<Rightarrow> Inl (Worker ''no db open''))"

definition read_only :: "reader \<Rightarrow> handler" where
  "read_only h p st = (h p (ws_backend st), st)"

definition jlist :: "('a \<Rightarrow> json) \<Rightarrow> 'a list \<Rightarrow> json" where
  "jlist f xs = JArr (map f xs)"

section \<open>Read-only methods\<close>

definition h_db_save :: reader where
  "h_db_save p b = with_db b (\<lambda>b. rmap (\<lambda>_. JObj [(''saved'', JBool True)]) (mock_save b))"

definition h_db_info :: reader where
  "h_db_info p b = with_db b mock_db_info"

definition h_capabilities :: reader where
  "h_capabilities p b = with_db b (\<lambda>b. Inr (capabilities_json (mock_capabilities b)))"

definition h_revision :: reader where
  "h_revision p b = with_db b (\<lambda>b. Inr (JObj [(''revision'', ju (mock_revision b))]))"

definition h_functions :: reader where
  "h_functions p b = with_db b (\<lambda>b. rmap (jlist function_info_json)
     (mock_functions (param_usize p ''offset'' 0) (param_usize p ''limit'' 100) b))"

definition h_function_at :: reader where
  "h_function_at p b = rbind (ea_param p ''ea'') (\<lambda>ea. with_db b (\<lambda>b. rmap function_info_json (mock_function_at ea b)))"

definition h_segments :: reader where
  "h_segments p b = with_db b (\<lambda>b. rmap (jlist segment_info_json) (mock_segments b))"

definition h_strings :: reader where
  "h_strings p b = with_db b (\<lambda>b. rmap (jlist string_info_json)
     (mock_strings (param_usize p ''offset'' 0) (param_usize p ''limit'' 100) b))"

definition h_xrefs_to :: reader where
  "h_xrefs_to p b = rbind (ea_param p ''ea'') (\<lambda>ea. with_db b (\<lambda>b. rmap (jlist xref_info_json) (mock_xrefs_to ea b)))"

definition h_xrefs_from :: reader where
  "h_xrefs_from p b = rbind (ea_param p ''ea'') (\<lambda>ea. with_db b (\<lambda>b. rmap (jlist xref_info_json) (mock_xrefs_from ea b)))"

definition h_disassemble :: reader where
  "h_disassemble p b = rbind (ea_param p ''ea'') (\<lambda>ea. rbind (opt_ea_param p ''end'') (\<lambda>end'.
     with_db b (\<lambda>b. rmap (jlist insn_info_json) (mock_disassemble ea end' (param_usize p ''max_insns'' 200) b))))"

definition h_decompile :: reader where
  "h_decompile p b = rbind (ea_param p ''ea'') (\<lambda>ea. with_db b (mock_decompile ea))"

definition h_graph :: reader where
  "h_graph p b = rbind (ea_param p ''ea'') (\<lambda>ea.
     let kind = unwrap_or (param_str p ''kind'') ''calls'' in
     if kind \<noteq> ''calls'' \<and> kind \<noteq> ''cfg'' then Inl (Worker (''unknown graph kind '' @ quoted kind @ '' (calls|cfg)''))
     else with_db b (mock_graph ea \<lparr>gp_kind = kind, gp_depth = ucast (unwrap_or (param_u64 p ''depth'') 1),
            gp_max_nodes = param_usize p ''max_nodes'' 200, gp_max_edges = param_usize p ''max_edges'' 400\<rparr>))"

definition h_search_text :: reader where
  "h_search_text p b = rbind (str_param p ''needle'' ''missing needle'') (\<lambda>needle.
     with_db b (\<lambda>b. rmap JArr (mock_search_text needle (param_usize p ''limit'' 50) b)))"

definition h_search_immediate :: reader where
  "h_search_immediate p b = with_db b (\<lambda>b. rmap JArr
     (mock_search_immediate (unwrap_or (param_u64 p ''value'') 0) (param_usize p ''limit'' 50) b))"

definition h_get_bytes :: reader where
  "h_get_bytes p b = rbind (ea_param p ''ea'') (\<lambda>ea. with_db b (mock_get_bytes ea (param_usize p ''size'' 16)))"

definition h_get_comment :: reader where
  "h_get_comment p b = rbind (ea_param p ''ea'') (\<lambda>ea.
     with_db b (mock_get_comment ea (unwrap_or (param_bool p ''repeatable'') False)))"

definition h_types :: reader where
  "h_types p b = with_db b (mock_types (param_str p ''name''))"

definition h_analyze_wait :: reader where
  "h_analyze_wait p b = with_db b mock_analyze_wait"

definition h_db_metadata :: reader where
  "h_db_metadata p b = with_db b mock_db_metadata"

definition h_imports_list :: reader where
  "h_imports_list p b =
     rbind (case jget p ''module'' of
              Some v \<Rightarrow> if is_null v then Inr None
                        else rmap (\<lambda>w. Some (unat w)) (ok_or (as_u64 v) (Worker (''bad '' @ quoted ''module'')))
            | None \<Rightarrow> Inr None) (\<lambda>m.
       with_db b (mock_imports m (param_usize p ''offset'' 0) (param_usize p ''limit'' 100)))"

definition h_fixups_list :: reader where
  "h_fixups_list p b = with_db b (mock_fixups (param_usize p ''offset'' 0) (param_usize p ''limit'' 100))"

definition h_file_map :: reader where
  "h_file_map p b =
     rbind (if jget p ''value'' \<noteq> None then ea_param p ''value'' else ea_param p ''ea'') (\<lambda>v.
       with_db b (mock_file_map v (unwrap_or (param_bool p ''to_ea'') False)))"

definition h_func_tails :: reader where
  "h_func_tails p b = rbind (ea_param p ''ea'') (\<lambda>ea. with_db b (mock_func_tails ea))"

definition h_func_switch_info :: reader where
  "h_func_switch_info p b = rbind (ea_param p ''ea'') (\<lambda>ea. with_db b (mock_func_switch_info ea))"

definition h_func_sp_delta :: reader where
  "h_func_sp_delta p b = rbind (ea_param p ''ea'') (\<lambda>ea. with_db b (mock_func_sp_delta ea))"

definition h_hr_cfunc :: reader where
  "h_hr_cfunc p b = rbind (ea_param p ''ea'') (\<lambda>ea. with_db b
     (mock_hr_cfunc ea (unwrap_or (param_bool p ''include_ctree'') True)
        (unwrap_or (param_bool p ''include_lvars'') True) (param_usize p ''limit'' 2000)))"

definition h_region_evidence :: reader where
  "h_region_evidence p b = rbind (ea_param p ''ea'') (\<lambda>ea. rbind (opt_ea_param p ''end_ea'') (\<lambda>end_ea.
     let max_insns = clamp 10 20000 (param_usize p ''max_insns'' 4000) in
     with_db b (\<lambda>b. rbind (mock_disassemble ea end_ea max_insns b) (\<lambda>disasm.
       let hexrays = (case mock_decompile ea b of
             Inr hr \<Rightarrow> hr
           | Inl e \<Rightarrow> JObj [(''status'', JStr ''unavailable''), (''error'', JStr (error_to_string e))])
       in Inr (JObj [
            (''region_ea'', JStr (hex_alt ea)), (''end_ea'', jopt (\<lambda>e. JStr (hex_alt e)) end_ea),
            (''insns'', JArr (map (\<lambda>i. JObj [(''ea'', JStr (hex_alt (in_ea i))), (''text'', JStr (in_text i))]) disasm)),
            (''insns_truncated'', JBool (length disasm \<ge> max_insns)), (''hexrays'', hexrays)])))))"

definition h_insn_features :: reader where
  "h_insn_features p b = rbind (ea_param p ''ea'') (\<lambda>ea. with_db b (mock_insn_features ea))"

definition h_names_demangle :: reader where
  "h_names_demangle p b = rbind (str_param p ''name'' ''missing name'') (\<lambda>name. with_db b (mock_demangle_name name))"

definition h_list_plugins :: reader where
  "h_list_plugins p b = with_db b (\<lambda>_. mock_list_plugins)"

definition h_run_plugin :: reader where
  "h_run_plugin p b = rbind (str_param p ''plugin'' ''missing plugin'') (\<lambda>plugin.
     with_db b (mock_run_plugin plugin (param_str p ''args'')))"

definition h_types_evidence :: reader where
  "h_types_evidence p b = rbind (ea_param p ''ea'') (\<lambda>ea.
     with_db b (mock_type_member_evidence ea (clamp 1 512 (param_usize p ''limit'' 64))))"

definition h_types_vtable :: reader where
  "h_types_vtable p b = rbind (ea_param p ''ea'') (\<lambda>ea.
     with_db b (mock_type_vtable_scan ea (clamp 1 256 (param_usize p ''max_entries'' 32))))"

definition h_deob_validate :: reader where
  "h_deob_validate p b = rbind (ok_or (jget p ''plan'') (Worker (''missing '' @ quoted ''plan''))) (\<lambda>pl.
     with_db b (\<lambda>b. validate b pl))"

definition plan_guard :: "json \<Rightarrow> mock \<Rightarrow> unit result" where
  "plan_guard p b = check_plan_revision b (param_u64 p ''expected_revision'')"

definition plan_ops :: "json \<Rightarrow> planned_op list result" where
  "plan_ops p = rbind (ok_or (param_array p ''operations'') (Worker (''missing '' @ quoted ''operations'' @ '' array'')))
     parse_operations"

definition h_plan_mutations :: reader where
  "h_plan_mutations p b = rbind (plan_ops p) (\<lambda>ops. with_db b (\<lambda>b. rbind (plan_guard p b) (\<lambda>_. plan b ops)))"

definition sig_param :: "env \<Rightarrow> json \<Rightarrow> string \<Rightarrow> string \<Rightarrow> sig_index result" where
  "sig_param en p k what =
     rbind (ok_or (jget p k) (Worker (''missing '' @ what @ '' sig index''))) (\<lambda>v.
     rmap_err (\<lambda>e. Worker (''bad '' @ what @ '' sig index: '' @ e)) (en_sig_of en v))"

definition h_sig_map :: "env \<Rightarrow> reader" where
  "h_sig_map en p b =
     rbind (sig_param en p ''from'' (quoted ''from'')) (\<lambda>from.
     rbind (sig_param en p ''to'' (quoted ''to'')) (\<lambda>to.
     Inr (sig_map_from_sigs from to (clamp 1 2000 (param_usize p ''max_transfers'' 100)))))"

definition h_sig_diff :: reader where
  "h_sig_diff p b =
     diff_from_json (unwrap_or (jget p ''a'') JNull) (unwrap_or (jget p ''b'') JNull)
       (f_clamp (lit 5 10) f_one (unwrap_or (Option.bind (jget p ''threshold'') as_f64) (lit 8 10)))
       (clamp 8 4096 (param_usize p ''max_blocks'' 256))"

definition rule_pack_json :: "rule_pack \<Rightarrow> json" where
  "rule_pack_json p = JObj [(''name'', JStr (rp_name p)), (''version'', JStr (rp_version p)), (''source'', JStr (rp_source p)),
     (''sha256'', JStr (rp_sha256 p)), (''enabled'', JBool (rp_enabled p)),
     (''rules'', JObj [(''constants'', jn (length (rp_constants p))), (''api_hashes'', jn (length (rp_api_hashes p))),
        (''strings'', jn (length (rp_strings p)))])]"

definition h_intel_packs :: "env \<Rightarrow> reader" where
  "h_intel_packs en p b = rmap (\<lambda>packs. JObj [(''packs'', JArr (map rule_pack_json packs)), (''set_hash'', JStr (set_hash packs)),
     (''note'', JStr ''packs load from <exe dir>/rules/*.json (fail-closed); built-in pack covers #12 content'')])
     (load_effective (en_from_slice en) (en_rules_dir en))"

definition read_methods :: "env \<Rightarrow> (string \<times> reader) list" where
  "read_methods en = [
     (''db.save'', h_db_save), (''db.info'', h_db_info), (''capabilities'', h_capabilities),
     (''revision'', h_revision), (''functions'', h_functions), (''function_at'', h_function_at),
     (''segments'', h_segments), (''strings'', h_strings), (''xrefs_to'', h_xrefs_to),
     (''xrefs_from'', h_xrefs_from), (''disassemble'', h_disassemble), (''decompile'', h_decompile),
     (''graph'', h_graph), (''search_text'', h_search_text), (''search_immediate'', h_search_immediate),
     (''get_bytes'', h_get_bytes), (''get_comment'', h_get_comment), (''types'', h_types),
     (''analyze_wait'', h_analyze_wait), (''db.metadata'', h_db_metadata), (''imports.list'', h_imports_list),
     (''fixups.list'', h_fixups_list), (''file.map'', h_file_map), (''func.tails'', h_func_tails),
     (''func.switch_info'', h_func_switch_info), (''func.sp_delta'', h_func_sp_delta),
     (''hr.cfunc'', h_hr_cfunc), (''region.evidence'', h_region_evidence), (''insn.features'', h_insn_features),
     (''names.demangle'', h_names_demangle), (''list_plugins'', h_list_plugins), (''run_plugin'', h_run_plugin),
     (''plan.mutations'', h_plan_mutations), (''types.evidence'', h_types_evidence),
     (''types.vtable'', h_types_vtable), (''deob.validate'', h_deob_validate), (''sig.map'', h_sig_map en),
     (''sig.diff'', h_sig_diff), (''intel.packs'', h_intel_packs en)]"

section \<open>Session methods\<close>

definition h_backend_select :: handler where
  "h_backend_select p st =
     (let kind = unwrap_or (param_str p ''kind'') ''mock'' in
      if kind = ''mock'' then (Inr (JObj [(''backend'', JStr ''mock'')]), st\<lparr>ws_backend := Some mock_new\<rparr>)
      else if kind = ''idalib''
      then (Inl (CapabilityUnavailable ''idalib'' ''worker not built with an idalib feature''), st)
      else (Inl (Worker (''backend kind '' @ quoted kind @ '' not built into this worker'')), st))"

definition h_shutdown :: handler where
  "h_shutdown p st = (Inr (JObj [(''bye'', JBool True)]), st\<lparr>ws_closed := True\<rparr>)"

definition h_db_open :: handler where
  "h_db_open p = wbind (wret (str_param p ''path'' ''missing path'')) (\<lambda>path. call_mut (mock_open path))"

definition h_db_close :: handler where
  "h_db_close p = wbind (call_mut mock_close) (\<lambda>_. wret (Inr (JObj [(''closed'', JBool True)])))"

definition session_methods :: "(string \<times> handler) list" where
  "session_methods = [(''backend.select'', h_backend_select), (''shutdown'', h_shutdown),
     (''db.open'', h_db_open), (''db.close'', h_db_close)]"

section \<open>Audited mutations\<close>

definition guard_revision :: "json \<Rightarrow> unit worker" where
  "guard_revision p = ask (check_revision p)"

definition audit_push :: "string \<Rightarrow> u64 \<Rightarrow> mutation_outcome \<Rightarrow> worker_state \<Rightarrow> worker_state" where
  "audit_push kind ea out st = st\<lparr>ws_audit := record_audit (ws_audit st) kind ea out\<rparr>"

definition mutate :: "string \<Rightarrow> u64 \<Rightarrow> mock mutation \<Rightarrow> json worker" where
  "mutate kind ea m = wbind (call_mut m) (\<lambda>out st.
     (Inr (mutation_outcome_json out), audit_push kind ea out st))"

definition h_patch_bytes :: handler where
  "h_patch_bytes p = wbind (wret (ea_param p ''ea'')) (\<lambda>ea. wbind (guard_revision p) (\<lambda>_.
     wbind (wret (str_param p ''hex'' ''missing hex'')) (\<lambda>hex. mutate ''patch_bytes'' ea (mock_patch_bytes ea hex))))"

definition h_set_comment :: handler where
  "h_set_comment p = wbind (wret (ea_param p ''ea'')) (\<lambda>ea. wbind (guard_revision p) (\<lambda>_.
     wbind (wret (str_param p ''comment'' ''missing comment'')) (\<lambda>c.
       mutate ''comment'' ea (mock_set_comment ea c (unwrap_or (param_bool p ''repeatable'') False)))))"

definition h_rename :: handler where
  "h_rename p = wbind (wret (ea_param p ''ea'')) (\<lambda>ea. wbind (guard_revision p) (\<lambda>_.
     wbind (wret (str_param p ''name'' ''missing name'')) (\<lambda>name. mutate ''rename'' ea (mock_rename ea name))))"

definition h_set_type :: handler where
  "h_set_type p = wbind (wret (ea_param p ''ea'')) (\<lambda>ea. wbind (guard_revision p) (\<lambda>_.
     wbind (wret (str_param p ''decl'' ''missing decl'')) (\<lambda>d. mutate ''set_type'' ea (mock_set_type ea d))))"

definition h_func_create :: handler where
  "h_func_create p = wbind (wret (ea_param p ''start'')) (\<lambda>start. wbind (wret (opt_ea_param p ''end'')) (\<lambda>end'.
     wbind (guard_revision p) (\<lambda>_. mutate ''func.create'' start (mock_func_create start end'))))"

definition h_func_delete :: handler where
  "h_func_delete p = wbind (wret (ea_param p ''ea'')) (\<lambda>ea. wbind (guard_revision p) (\<lambda>_.
     mutate ''func.delete'' ea (mock_func_delete ea)))"

definition h_func_resize :: handler where
  "h_func_resize p = wbind (wret (ea_param p ''ea'')) (\<lambda>ea.
     wbind (wret (opt_ea_param p ''new_start'')) (\<lambda>s. wbind (wret (opt_ea_param p ''new_end'')) (\<lambda>e.
     wbind (guard_revision p) (\<lambda>_. mutate ''func.resize'' ea (mock_func_resize ea s e)))))"

definition h_hr_lvar_rename :: handler where
  "h_hr_lvar_rename p = wbind (wret (ea_param p ''ea'')) (\<lambda>ea. wbind (wret (ea_param p ''var_defea'')) (\<lambda>v.
     wbind (wret (str_param p ''name'' ''missing name'')) (\<lambda>name.
     wbind (guard_revision p) (\<lambda>_. mutate ''hr.lvar_rename'' ea (mock_hr_lvar_rename ea v name)))))"

definition drop_cache :: "worker_state \<Rightarrow> worker_state" where
  "drop_cache st = st\<lparr>ws_cache := invalidate_all (ws_cache st)\<rparr>"

definition h_deep_retype :: handler where
  "h_deep_retype p = wbind (wret (ea_param p ''ea'')) (\<lambda>ea.
     wbind (wret (str_param p ''decl'' ''missing decl'')) (\<lambda>d.
     wbind (guard_revision p) (\<lambda>_.
     wbind (mutate ''deep.retype'' ea (mock_deep_apply_prototype ea d)) (\<lambda>v st. (Inr v, drop_cache st)))))"

text \<open>\<open>types::apply_struct\<close>: the mutation of \<open>types.apply\<close>, which records no audit entry.\<close>

definition apply_struct :: "string \<Rightarrow> string list \<Rightarrow> json worker" where
  "apply_struct name flds =
     (if trim name = [] \<or> flds = []
      then wret (Inl (Worker ''apply_struct needs a non-empty name and at least one field''))
      else wbind (call_mut (mock_type_udt_create name flds)) (\<lambda>out. wret (Inr (JObj [
        (''applied'', JBool (changed out)), (''revision_after'', ju (revision_after out)), (''detail'', mo_detail out)]))))"

definition h_types_apply :: handler where
  "h_types_apply p = wbind (wret (str_param p ''name'' ''missing name'')) (\<lambda>name.
     wbind (wret (ok_or (param_array p ''fields'') (Worker ''missing fields array''))) (\<lambda>fs.
     wbind (guard_revision p) (\<lambda>_.
     wbind (apply_struct name (List.map_filter as_str fs)) (\<lambda>v st. (Inr v, drop_cache st)))))"

definition mutation_methods :: "(string \<times> handler) list" where
  "mutation_methods = [(''patch_bytes'', h_patch_bytes), (''set_comment'', h_set_comment), (''rename'', h_rename),
     (''set_type'', h_set_type), (''func.create'', h_func_create), (''func.delete'', h_func_delete),
     (''func.resize'', h_func_resize), (''hr.lvar_rename'', h_hr_lvar_rename), (''deep.retype'', h_deep_retype)]"

section \<open>Plans, snapshots, audit\<close>

text \<open>The audit trail is moved out of the state while the plan runs; a panic unwinds before it is put back.\<close>

definition h_plan_apply :: handler where
  "h_plan_apply p = wbind (wret (plan_ops p)) (\<lambda>ops. wbind (ask (plan_guard p)) (\<lambda>_ st.
     (case need_backend st of
        Inl e \<Rightarrow> (Inl e, st)
      | Inr b \<Rightarrow> (case plan_apply b ops (ws_audit st) of
          (Inl (Panic m), b', audit) \<Rightarrow> (Inl (Panic m), st\<lparr>ws_backend := Some b', ws_audit := []\<rparr>)
        | (result, b', audit) \<Rightarrow> (result, st\<lparr>ws_backend := Some b', ws_audit := audit\<rparr>)))))"

definition h_mutation_audit :: handler where
  "h_mutation_audit p st = (Inr (audit_tail (ws_audit st) (param_usize p ''limit'' 100)), st)"

definition h_snapshot_create :: handler where
  "h_snapshot_create p = call_mut mock_snapshot_create"

definition h_snapshot_restore :: handler where
  "h_snapshot_restore p = call_mut mock_snapshot_restore"

definition h_deob_apply :: handler where
  "h_deob_apply p = wbind (wret (ok_or (jget p ''plan'') (Worker (''missing '' @ quoted ''plan'')))) (\<lambda>pl.
     transforms_apply pl (param_u64 p ''expected_revision''))"

definition plan_methods :: "(string \<times> handler) list" where
  "plan_methods = [(''plan.apply'', h_plan_apply), (''mutation.audit'', h_mutation_audit),
     (''snapshot.create'', h_snapshot_create), (''snapshot.restore'', h_snapshot_restore),
     (''types.apply'', h_types_apply), (''deob.apply'', h_deob_apply)]"

section \<open>Index methods\<close>

definition h_index_build :: "env \<Rightarrow> handler" where
  "h_index_build en p = wbind (ask mock_build_index) (\<lambda>(idx, md5) st.
     (Inr (index_summary idx),
      st\<lparr>ws_disk := snd (index_save (en_index_text en) (en_cache_dir en) idx (ws_disk st)),
         ws_index := Some (idx, md5)\<rparr>))"

definition h_index_query :: "env \<Rightarrow> handler" where
  "h_index_query en p =
     wbind (wret (rmap_err (\<lambda>e. Worker (''bad query: '' @ e)) (en_query_of en (unwrap_or (jget p ''query'') (JObj [])))))
       (\<lambda>q. wbind ensure_index (\<lambda>(idx, md5, _).
          let hits = query idx q in
          wret (Inr (JObj [(''count'', jn (length hits)), (''md5'', JStr md5),
                           (''hits'', jlist evidence_hit_json hits)]))))"

definition h_index_status :: handler where
  "h_index_status p st = (case ws_index st of
       Some (idx, md5) \<Rightarrow> (rmap (\<lambda>b. jset (jset (index_summary idx) ''md5'' (JStr md5)) ''current''
            (JBool (ai_revision idx = mock_revision b))) (need_backend st), st)
     | None \<Rightarrow> (Inr (JObj [(''built'', JBool False)]), st))"

section \<open>Analysis methods\<close>

definition workflow_cache_key :: "env \<Rightarrow> workflow_request \<Rightarrow> u64 \<Rightarrow> cache_key" where
  "workflow_cache_key en req rv = (wr_workflow req, en_workflow_text en req, rv)"

definition h_workflow_run :: "env \<Rightarrow> handler" where
  "h_workflow_run en p =
     wbind (wret (rmap_err (\<lambda>e. Worker (''bad workflow request: '' @ e))
       (workflow_of (en_serde_error en) (unwrap_or (jget p ''workflow_req'') p)))) (\<lambda>req.
     wbind ensure_index (\<lambda>(idx, _, rv).
       cached (workflow_cache_key en req rv) (\<lambda>b. workflow_run b idx req)))"

definition resume_param :: "json \<Rightarrow> json option" where
  "resume_param p = (case jget p ''resume_from'' of Some (JObj m) \<Rightarrow> Some (JObj m) | _ \<Rightarrow> None)"

definition h_deep_function :: "env \<Rightarrow> handler" where
  "h_deep_function en p = wbind (wret (target_param p)) (\<lambda>root.
     let budgets = budgets_from (en_now en) p in
     wbind ensure_index (\<lambda>(idx, _, rv).
       let run = (\<lambda>r b. deep_function (\<lambda>ea n. mock_deep_function_info ea n b) (en_clock en) idx root budgets r);
           key = (''deep_function'', hex_alt root @ ''|'' @ en_budgets_text en budgets, rv)
       in case resume_param p of
            None \<Rightarrow> cached key (run None)
          | Some r \<Rightarrow> wbind (ask (run (Some r))) (\<lambda>v st. (Inr (cached_json False (wc_hits (ws_cache st)) v), st))))"

definition h_deep_dataflow :: "env \<Rightarrow> handler" where
  "h_deep_dataflow en p = wbind (wret (target_param p)) (\<lambda>target.
     let direction = unwrap_or (param_str p ''direction'') ''both'' in
     if direction \<notin> {''forward'', ''backward'', ''both''}
     then wret (Inl (Worker (''bad direction '' @ quoted direction @ '' (forward|backward|both)'')))
     else let budgets = budgets_from (en_now en) p in
       wbind ensure_index (\<lambda>(idx, _, rv).
         cached (''deep_dataflow'', hex_alt target @ ''|'' @ direction @ ''|'' @ en_budgets_text en budgets, rv)
           (\<lambda>b. trace_dataflow (\<lambda>ea n. mock_deep_function_info ea n b) idx target direction budgets)))"

definition h_value_propagate :: "env \<Rightarrow> handler" where
  "h_value_propagate en p = wbind (wret (target_param p)) (\<lambda>target.
     let budgets = budgets_from (en_now en) p in
     wbind ensure_index (\<lambda>(idx, _, rv).
       cached (''value_propagate'', hex_alt target @ ''|'' @ en_budgets_text en budgets, rv)
         (\<lambda>b. value_analysis (\<lambda>ea n. mock_deep_function_info ea n b) (\<lambda>ea n. mock_type_vtable_scan ea n b)
              (en_alphanumeric en) (en_clock en) idx target budgets)))"

definition h_hr_microcode :: handler where
  "h_hr_microcode p = wbind (wret (ea_param p ''ea'')) (\<lambda>ea.
     let maturity = clamp 0 7 (param_usize p ''maturity'' 0); max_insns = clamp 1 20000 (param_usize p ''max_insns'' 2000) in
     wbind (ask (\<lambda>b. Inr (mock_revision b))) (\<lambda>rv.
       cached (''hr_microcode'', hex_alt ea @ ''|'' @ show_nat maturity @ ''|'' @ show_nat max_insns, rv)
         (mock_hr_microcode ea (of_nat maturity) max_insns)))"

definition function_ea :: "json \<Rightarrow> u64 result" where
  "function_ea v = (case v of
       JStr s \<Rightarrow> parse_ea_param s
     | JNum n \<Rightarrow> ok_or (as_u64 v) (Worker ''bad function ea'')
     | _ \<Rightarrow> Inl (Worker ''bad function ea''))"

definition h_types_propose :: handler where
  "h_types_propose p =
     wbind (wret (ok_or (param_array p ''functions'') (Worker ''missing functions array''))) (\<lambda>eas.
     wbind (wret (rcollect (map function_ea eas))) (\<lambda>function_eas.
     wbind ensure_index (\<lambda>(idx, _, _).
       ask (\<lambda>b. recover_structure (\<lambda>ea n. mock_type_member_evidence ea n b) (\<lambda>s. mock_type_udt_match s b) idx function_eas
               (clamp 1 512 (param_usize p ''limit'' 64))))))"

definition h_intel_crypto :: "env \<Rightarrow> handler" where
  "h_intel_crypto en p =
     (let mx = clamp 1 500 (param_usize p ''max_findings'' 50) in
      wbind ensure_index (\<lambda>(idx, _, rv). wbind (wret (load_effective (en_from_slice en) (en_rules_dir en))) (\<lambda>ruleset.
        cached (''intel_crypto'', show_nat mx @ ''|'' @ set_hash ruleset, rv)
          (\<lambda>b. crypto_scan (mock_segments b) (\<lambda>ea n. mock_get_bytes ea n b) idx mx (Some ruleset)))))"

definition h_intel_api_hashes :: handler where
  "h_intel_api_hashes p = wbind ensure_index (\<lambda>(idx, _, _).
     ask (\<lambda>b. resolve_api_hashes (\<lambda>m off n. mock_imports m off n b) idx (clamp 1 500 (param_usize p ''max_findings'' 50))))"

definition h_intel_strings :: handler where
  "h_intel_strings p = wbind (wret (target_param p)) (\<lambda>target. wbind ensure_index (\<lambda>(idx, _, _).
     ask (\<lambda>b. recover_strings (\<lambda>ea c l n. mock_hr_cfunc ea c l n b) idx target (clamp 1 500 (param_usize p ''max_strings'' 50)))))"

definition mock_reads :: "mock \<Rightarrow> deob_reads" where
  "mock_reads b = \<lparr>dr_decompile = (\<lambda>ea. mock_decompile ea b), dr_graph = (\<lambda>ea g. mock_graph ea g b),
     dr_function_at = (\<lambda>ea. mock_function_at ea b), dr_disassemble = (\<lambda>ea e n. mock_disassemble ea e n b),
     dr_hr_cfunc = (\<lambda>ea c l n. mock_hr_cfunc ea c l n b)\<rparr>"

definition h_deob_run :: handler where
  "h_deob_run p = wbind (wret (target_param p)) (\<lambda>target. wbind ensure_index (\<lambda>(idx, _, _).
     ask (\<lambda>b. deobfuscate (mock_reads b) idx target (clamp 1 16 (param_usize p ''max_passes'' 8)))))"

definition h_deob_propose :: handler where
  "h_deob_propose p = wbind (wret (target_param p)) (\<lambda>target.
     wbind (wret (rbind (str_param p ''kind'' (''missing '' @ quoted ''kind'')) transform_parse)) (\<lambda>kind.
     wbind ensure_index (\<lambda>(idx, _, _). ask (\<lambda>b. propose b idx target kind))))"

definition h_sig_identify :: "env \<Rightarrow> handler" where
  "h_sig_identify en p = wbind (wret (target_param p)) (\<lambda>target. wbind ensure_index (\<lambda>(idx, _, _).
     wbind (wret (sig_param en p ''reference'' ''reference'')) (\<lambda>r.
       wret (identify_function idx r target default_match_thresholds (clamp 1 100 (param_usize p ''max_candidates'' 10))))))"

definition write_signatures :: "env \<Rightarrow> sig_index \<Rightarrow> mock \<Rightarrow> json worker" where
  "write_signatures en sig b st = (case save_sig_index (en_sig_text en) (mock_db_info b) sig (ws_disk st) of (r, disk) \<Rightarrow>
     (rmap (\<lambda>path. JObj [(''path'', JStr path), (''functions'', jn (length (sx_functions sig))),
        (''binary_md5'', JStr (sx_binary_md5 sig)), (''format'', JNum (uint (sx_format sig)))]) r, st\<lparr>ws_disk := disk\<rparr>))"

definition h_sig_export :: "env \<Rightarrow> handler" where
  "h_sig_export en p = wbind ensure_index (\<lambda>(idx, _, _). wbind (ask Inr) (write_signatures en (build_sig_index idx)))"

definition mock_fingerprints :: "mock \<Rightarrow> u64 \<Rightarrow> nat \<Rightarrow> (block_fp list \<times> bool) result" where
  "mock_fingerprints b = function_block_fingerprints (\<lambda>ea g. mock_graph ea g b) (\<lambda>ea. mock_function_at ea b)
     (\<lambda>ea e n. mock_disassemble ea e n b)"

definition largest_functions :: "analysis_index \<Rightarrow> (u64 \<times> function_facts) list" where
  "largest_functions idx = sort_key (\<lambda>(_, f). - int (unat (ff_size f)))
     (filter (\<lambda>(_, f). \<not> starts_with (ff_name f) ''j_'' \<and> 16 \<le> ff_size f) (ai_functions idx))"

definition fingerprint_json :: "u64 \<times> function_facts \<Rightarrow> block_fp list \<Rightarrow> json" where
  "fingerprint_json ef fps = (case ef of (ea, f) \<Rightarrow> let sig = to_sig ea f in JObj [(''name'', JStr (ff_name f)), (''ea'', JStr (hex_alt ea)),
     (''blocks'', JArr (map block_fp_json fps)),
     (''evidence'', JObj [(''size'', ju (sf_size sig)), (''constants'', JArr (map ju (sf_constants sig))),
        (''strings'', JArr (map JStr (sf_strings sig))), (''imports'', JArr (map JStr (sf_imports sig))),
        (''callee_count'', jn (sf_callee_count sig)), (''caller_count'', jn (sf_caller_count sig))])])"

definition fingerprint_all :: "(u64 \<Rightarrow> nat \<Rightarrow> (block_fp list \<times> bool) result) \<Rightarrow> analysis_index \<Rightarrow> nat \<Rightarrow> nat \<Rightarrow> json result" where
  "fingerprint_all fingerprints idx max_blocks max_functions =
     (let fs = largest_functions idx in
      rmap (\<lambda>rows. JObj [(''functions'', JArr (map fst rows)),
          (''truncated'', JBool (max_functions < length fs \<or> list_ex snd rows)), (''binary_md5'', JStr (ai_binary_md5 idx))])
        (rcollect (map (\<lambda>ef. rmap (\<lambda>(fps, t). (fingerprint_json ef fps, t)) (fingerprints (fst ef) max_blocks)) (take max_functions fs))))"

definition h_sig_fingerprints :: handler where
  "h_sig_fingerprints p =
     (let max_blocks = clamp 8 4096 (param_usize p ''max_blocks'' 256) in
      case jget p ''ea'' of
        Some v \<Rightarrow> wbind (wret (ea_param_value v)) (\<lambda>ea. ask (\<lambda>b. rmap (\<lambda>(fps, t). JObj [(''ea'', JStr (hex_alt ea)),
          (''blocks'', JArr (map block_fp_json fps)), (''truncated'', JBool t)]) (mock_fingerprints b ea max_blocks)))
      | None \<Rightarrow> wbind ensure_index (\<lambda>(idx, _, _).
          ask (\<lambda>b. fingerprint_all (mock_fingerprints b) idx max_blocks (clamp 1 1024 (param_usize p ''max_functions'' 64)))))"

definition index_methods :: "env \<Rightarrow> (string \<times> handler) list" where
  "index_methods en = [
     (''index.build'', h_index_build en), (''index.query'', h_index_query en), (''index.status'', h_index_status),
     (''workflow.run'', h_workflow_run en), (''deep.function'', h_deep_function en),
     (''deep.dataflow'', h_deep_dataflow en), (''value.propagate'', h_value_propagate en),
     (''hr.microcode'', h_hr_microcode), (''types.propose'', h_types_propose),
     (''intel.crypto'', h_intel_crypto en), (''intel.api_hashes'', h_intel_api_hashes),
     (''intel.strings'', h_intel_strings), (''deob.run'', h_deob_run), (''deob.propose'', h_deob_propose),
     (''sig.identify'', h_sig_identify en), (''sig.export'', h_sig_export en),
     (''sig.fingerprints'', h_sig_fingerprints)]"

section \<open>Dispatch and handle\<close>

definition dispatch_table :: "env \<Rightarrow> (string \<times> handler) list" where
  "dispatch_table en = session_methods @ map (\<lambda>(m, h). (m, read_only h)) (read_methods en)
     @ mutation_methods @ plan_methods @ index_methods en"

definition dispatch :: "env \<Rightarrow> string \<Rightarrow> json \<Rightarrow> json worker" where
  "dispatch en method p = (case map_of (dispatch_table en) method of
       Some h \<Rightarrow> h p
     | None \<Rightarrow> wret (Inl (Worker (''unknown method '' @ quoted method))))"

definition MUTATING_METHODS :: "string list" where
  "MUTATING_METHODS = [''patch_bytes'', ''set_comment'', ''rename'', ''set_type'', ''func.create'',
     ''func.delete'', ''func.resize'', ''hr.lvar_rename'', ''deep.retype'', ''types.apply'',
     ''deob.apply'', ''plan.apply'', ''snapshot.restore'', ''analyze_wait'']"

text \<open>A panic in a handler takes the worker process down: there is no response.\<close>

definition handle :: "env \<Rightarrow> worker_request \<Rightarrow> worker_response worker" where
  "handle en req st = (case dispatch en (rq_method req) (rq_params req) st of
       (Inl (Panic m), st') \<Rightarrow> (Inl (Panic m), st')
     | (Inl e, st') \<Rightarrow> (Inr (response_err (rq_id req) e), st')
     | (Inr v, st') \<Rightarrow> (Inr (response_ok (rq_id req) v),
         if rq_method req \<in> set MUTATING_METHODS then drop_cache st' else st'))"

section \<open>The worker process\<close>

text \<open>How a worker process ends: with an exit code, or by a panic.\<close>

datatype worker_exit = Exited int | Unwound string

text \<open>
  The loop of \<open>worker_main\<close> over the requests the reader yields (it ends at the end of the input and at the
  first frame that cannot be read). With each request comes the environment it runs in and whether its
  response can be written to the pipe. The responses written, how the process ends, and the last state.
\<close>

fun worker_loop ::
  "(worker_request \<times> env \<times> bool) list \<Rightarrow> worker_state \<Rightarrow> worker_response list \<times> worker_exit \<times> worker_state" where
  "worker_loop [] st = ([], Exited 0, st)"
| "worker_loop ((req, en, written) # reqs) st =
     (case handle en req st of
        (Inl e, st') \<Rightarrow> ([], Unwound (error_to_string e), st')
      | (Inr resp, st') \<Rightarrow>
          if \<not> written then ([], Exited 3, st')
          else if ws_closed st' then ([resp], Exited 0, st')
          else let (rs, x, st'') = worker_loop reqs st' in (resp # rs, x, st''))"

text \<open>
  \<open>worker_main\<close>: what the environment variables hold, the process id, and which of the first steps (writing
  the greeting, duplicating the two handles) succeed.
\<close>

record worker_start =
  wm_ida_dir :: "string option"
  wm_idausr :: "string option"
  wm_ida_version :: "string option"
  wm_pid :: u32
  wm_hello_written :: bool
  wm_dup_stdout :: bool
  wm_dup_stdin :: bool

definition worker_hello_of :: "worker_start \<Rightarrow> worker_hello" where
  "worker_hello_of ws = \<lparr>h_protocol = PROTOCOL_VERSION, h_ida_version = unwrap_or (wm_ida_version ws) ''9.2-mock'',
     h_pid = wm_pid ws, h_ida_dir = unwrap_or (wm_ida_dir ws) [], h_idausr = unwrap_or (wm_idausr ws) []\<rparr>"

definition worker_main ::
  "worker_start \<Rightarrow> (worker_request \<times> env \<times> bool) list \<Rightarrow> worker_hello option \<times> worker_response list \<times> worker_exit" where
  "worker_main ws reqs =
     (if \<not> wm_hello_written ws then (None, [], Exited 3)
      else if \<not> wm_dup_stdout ws \<or> \<not> wm_dup_stdin ws then (Some (worker_hello_of ws), [], Exited 3)
      else case worker_loop reqs worker_new of (rs, x, _) \<Rightarrow> (Some (worker_hello_of ws), rs, x))"

end
