(* ===== verification/Dispatch_Props.thy ===== *)
theory Dispatch_Props
  imports Dispatch
begin

text \<open>
  What the dispatcher guarantees about the worker's state, over all methods: errors leave the
  database alone, every revision step is in the audit trail, a stale expected revision changes
  nothing, and responses answer requests one for one. The proofs go through two closure
  properties of handlers, \<open>keeps\<close> (database and audit trail untouched) and \<open>db_step\<close> (untouched on
  error, ledger balanced on success), each preserved by the combinators handlers are built from.
\<close>

named_theorems keeps_intros
named_theorems db_intros

definition keeps :: "'a worker \<Rightarrow> bool" where
  "keeps m \<longleftrightarrow> (\<forall>st. ws_backend (snd (m st)) = ws_backend st \<and> ws_audit (snd (m st)) = ws_audit st)"

interpretation db_same: step_relation "\<lambda>st st'. ws_backend st' = ws_backend st \<and> ws_audit st' = ws_audit st"
  by unfold_locales simp_all

definition ledger :: "worker_state \<Rightarrow> worker_state \<Rightarrow> bool" where
  "ledger st st' = (case ws_backend st of
       None \<Rightarrow> ws_backend st' = None \<and> ws_audit st' = ws_audit st
     | Some b \<Rightarrow> (\<exists>b' n. ws_backend st' = Some b' \<and> mock_revision b' = mock_revision b + of_nat n \<and>
         length (ws_audit st') = length (ws_audit st) + n \<and>
         take (length (ws_audit st)) (ws_audit st') = ws_audit st))"

text \<open>A panic ends the process, and with it the state: only what a request leaves behind that does not panic counts.\<close>

definition panicked :: "'a result \<Rightarrow> bool" where
  "panicked r = (case r of Inl (Panic _) \<Rightarrow> True | _ \<Rightarrow> False)"

lemma panicked_simps [simp]: "\<not> panicked (Inr x)" "panicked (Inl (Panic m))"
  by (simp_all add: panicked_def)

lemma panicked_Inl: "panicked (Inl e :: 'a result) \<longleftrightarrow> panicked (Inl e :: 'b result)"
  by (simp add: panicked_def)

definition db_step :: "'a worker \<Rightarrow> bool" where
  "db_step m \<longleftrightarrow> (\<forall>st. panicked (fst (m st)) \<or> ledger st (snd (m st)) \<and> (is_ok (fst (m st)) \<or>
     ws_backend (snd (m st)) = ws_backend st \<and> ws_audit (snd (m st)) = ws_audit st))"

lemma ledger_same: "ws_backend st' = ws_backend st \<Longrightarrow> ws_audit st' = ws_audit st \<Longrightarrow> ledger st st'"
  by (auto simp: ledger_def split: option.splits intro: exI [of _ 0])

lemma keeps_db_step [db_intros]: "keeps m \<Longrightarrow> db_step m"
  by (simp add: keeps_def db_step_def ledger_same)

lemma keeps_wret [keeps_intros]: "keeps (wret r)"
  by (simp add: keeps_def wret_def)

lemma keeps_ask [keeps_intros]: "keeps (ask f)"
  by (simp add: keeps_def ask_def)

lemma keeps_wbind [keeps_intros]: "keeps m \<Longrightarrow> (\<And>x. keeps (k x)) \<Longrightarrow> keeps (wbind m k)"
  unfolding keeps_def wbind_def by (intro allI db_same.bind_step) simp_all

lemma keeps_ensure_index [keeps_intros]: "keeps ensure_index"
  by (auto simp: keeps_def ensure_index_def Let_def split: sum.splits option.splits)

lemma keeps_cached [keeps_intros]: "keeps (cached k f)"
  by (auto simp: keeps_def cached_def Let_def wbind_def ask_def split: prod.splits sum.splits option.splits)

lemma keeps_case_prod [keeps_intros]: "(\<And>a b. p = (a, b) \<Longrightarrow> keeps (f a b)) \<Longrightarrow> keeps (case p of (a, b) \<Rightarrow> f a b)"
  by (cases p) simp

lemma keeps_if [keeps_intros]: "(c \<Longrightarrow> keeps m) \<Longrightarrow> (\<not> c \<Longrightarrow> keeps m') \<Longrightarrow> keeps (if c then m else m')"
  by simp

lemma keeps_case_option [keeps_intros]:
  "(o' = None \<Longrightarrow> keeps m) \<Longrightarrow> (\<And>x. o' = Some x \<Longrightarrow> keeps (f x)) \<Longrightarrow> keeps (case o' of None \<Rightarrow> m | Some x \<Rightarrow> f x)"
  by (cases o') simp_all

lemma keeps_same [keeps_intros]:
  "(\<And>st. ws_backend (s st) = ws_backend st) \<Longrightarrow> (\<And>st. ws_audit (s st) = ws_audit st) \<Longrightarrow> keeps (\<lambda>st. (r st, s st))"
  by (simp add: keeps_def)

lemma ledger_cong:
  "ws_backend s = ws_backend s' \<Longrightarrow> ws_audit s = ws_audit s' \<Longrightarrow> ws_backend t = ws_backend t' \<Longrightarrow>
     ws_audit t = ws_audit t' \<Longrightarrow> ledger s t = ledger s' t'"
  by (simp add: ledger_def cong: option.case_cong)

lemma db_wbind [db_intros]:
  assumes "keeps m" and "\<And>x. db_step (k x)"
  shows "db_step (wbind m k)"
  unfolding db_step_def
proof
  fix st
  obtain r st1 where m: "m st = (r, st1)" by (cases "m st")
  have same: "ws_backend st1 = ws_backend st" "ws_audit st1 = ws_audit st"
    using assms(1) [unfolded keeps_def, rule_format, of st] m by simp_all
  show "panicked (fst (wbind m k st)) \<or> ledger st (snd (wbind m k st)) \<and> (is_ok (fst (wbind m k st)) \<or>
     ws_backend (snd (wbind m k st)) = ws_backend st \<and> ws_audit (snd (wbind m k st)) = ws_audit st)"
  proof (cases r)
    case (Inl e)
    with m same show ?thesis by (simp add: wbind_def ledger_same)
  next
    case (Inr x)
    with m have w: "wbind m k st = k x st1" by (simp add: wbind_def)
    have "ledger st1 (snd (k x st1)) = ledger st (snd (k x st1))"
      using same by (intro ledger_cong) simp_all
    with assms(2) [of x, unfolded db_step_def, rule_format, of st1] same show ?thesis
      unfolding w by simp
  qed
qed

lemma db_after:
  assumes "db_step m" and "\<And>x. keeps (k x)" and "\<And>x st. is_ok (fst (k x st))"
  shows "db_step (wbind m k)"
  unfolding db_step_def
proof
  fix st
  obtain r st1 where m: "m st = (r, st1)" by (cases "m st")
  note d = assms(1) [unfolded db_step_def, rule_format, of st]
  show "panicked (fst (wbind m k st)) \<or> ledger st (snd (wbind m k st)) \<and> (is_ok (fst (wbind m k st)) \<or>
     ws_backend (snd (wbind m k st)) = ws_backend st \<and> ws_audit (snd (wbind m k st)) = ws_audit st)"
  proof (cases r)
    case (Inl e)
    with m d show ?thesis by (simp add: wbind_def panicked_def)
  next
    case (Inr x)
    with m have w: "wbind m k st = k x st1" by (simp add: wbind_def)
    have "ledger st st1 = ledger st (snd (k x st1))"
      using assms(2) [of x] by (intro ledger_cong) (simp_all add: keeps_def)
    with d m Inr assms(3) [of x st1] show ?thesis unfolding w by simp
  qed
qed

lemma mutate_db_step [db_intros]:
  assumes "obeys_contract mock_revision m"
  shows "db_step (mutate kind ea m)"
  unfolding db_step_def
proof
  fix st
  show "panicked (fst (mutate kind ea m st)) \<or> ledger st (snd (mutate kind ea m st)) \<and> (is_ok (fst (mutate kind ea m st)) \<or>
     ws_backend (snd (mutate kind ea m st)) = ws_backend st \<and> ws_audit (snd (mutate kind ea m st)) = ws_audit st)"
  proof (cases "ws_backend st")
    case None
    then show ?thesis by (simp add: mutate_def wbind_def call_mut_def need_backend_def ledger_def)
  next
    case (Some b)
    obtain r b' where m: "m b = (r, b')" by (cases "m b")
    show ?thesis
    proof (cases r)
      case (Inl e)
      with m obeys_contract_errD [OF assms, of b e b'] Some show ?thesis
        by (simp add: mutate_def wbind_def call_mut_def need_backend_def ledger_same)
    next
      case (Inr out)
      with m have "mock_revision b' = mock_revision b + of_nat 1"
        using obeys_contract_okD [OF assms, of b out b'] by simp
      with m Inr Some show ?thesis
        by (auto simp: mutate_def wbind_def call_mut_def need_backend_def ledger_def audit_push_def
            record_audit_def intro!: exI [of _ 1])
    qed
  qed
qed

lemma call_mut_db_step [db_intros]:
  assumes "\<And>b r b'. f b = (r, b') \<Longrightarrow> mock_revision b' = mock_revision b \<and> (\<not> is_ok r \<longrightarrow> b' = b)"
  shows "db_step (call_mut f)"
  unfolding db_step_def
proof
  fix st
  show "panicked (fst (call_mut f st)) \<or> ledger st (snd (call_mut f st)) \<and> (is_ok (fst (call_mut f st)) \<or>
     ws_backend (snd (call_mut f st)) = ws_backend st \<and> ws_audit (snd (call_mut f st)) = ws_audit st)"
    using assms by (auto simp: call_mut_def need_backend_def ledger_def Let_def
        split: option.splits prod.splits sum.splits intro: exI [of _ 0])
qed

section \<open>Every handler\<close>

lemma reader_db_step: "db_step (read_only h p)"
  by (rule keeps_db_step) (simp add: keeps_def read_only_def)

lemma mock_mut_contracts [db_intros]:
  "obeys_contract mock_revision (mock_patch_bytes ea h)"
  "obeys_contract mock_revision (mock_set_comment ea c rp)"
  "obeys_contract mock_revision (mock_rename ea n)"
  "obeys_contract mock_revision (mock_set_type ea d)"
  "obeys_contract mock_revision (mock_func_create s e)"
  "obeys_contract mock_revision (mock_func_delete ea)"
  "obeys_contract mock_revision (mock_func_resize ea os oe)"
  "obeys_contract mock_revision (mock_hr_lvar_rename ea v n)"
  "obeys_contract mock_revision (mock_deep_apply_prototype ea d)"
  using mock.contract [of "PatchBytes ea h"] mock.contract [of "SetComment ea c rp"]
    mock.contract [of "Rename ea n"] mock.contract [of "SetType ea d"] mock.contract [of "FuncCreate s e"]
    mock.contract [of "FuncDelete ea"] mock.contract [of "FuncResize ea os oe"]
    mock.contract [of "LvarRename ea v n"] mock.contract [of "ApplyPrototype ea d"]
  by simp_all

lemmas mutation_handler_defs = h_patch_bytes_def h_set_comment_def h_rename_def h_set_type_def h_func_create_def
  h_func_delete_def h_func_resize_def h_hr_lvar_rename_def h_deep_retype_def

lemma deep_retype_tail: "db_step m \<Longrightarrow> db_step (wbind m (\<lambda>v st. (Inr v, drop_cache st)))"
  by (rule db_after) (simp_all add: keeps_def drop_cache_def)

lemma mutation_methods_db_step: "(m, h) \<in> set mutation_methods \<Longrightarrow> db_step (h p)"
  by (auto simp: mutation_methods_def mutation_handler_defs guard_revision_def
      intro!: db_wbind deep_retype_tail mutate_db_step mock_mut_contracts keeps_wret keeps_ask)

lemmas index_handler_defs = h_index_build_def h_index_query_def h_workflow_run_def h_deep_function_def
  h_deep_dataflow_def h_value_propagate_def h_hr_microcode_def h_types_propose_def h_intel_crypto_def
  h_intel_api_hashes_def h_intel_strings_def h_deob_run_def h_deob_propose_def h_sig_identify_def
  h_sig_export_def h_sig_fingerprints_def

lemma index_status_keeps: "keeps (h_index_status p)"
  by (auto simp: keeps_def h_index_status_def split: option.splits)

lemma write_signatures_keeps: "keeps (write_signatures en sig b)"
  by (simp add: keeps_def write_signatures_def split: prod.splits)

lemma index_methods_keeps: "(m, h) \<in> set (index_methods en) \<Longrightarrow> keeps (h p)"
  by (auto simp: index_methods_def index_handler_defs Let_def index_status_keeps intro!: write_signatures_keeps keeps_intros)

lemma session_db_step:
  "db_step (h_shutdown p)" "db_step (h_db_open p)" "db_step (h_db_close p)"
proof -
  show "db_step (h_shutdown p)"
    by (rule keeps_db_step) (simp add: keeps_def h_shutdown_def)
  show "db_step (h_db_open p)" unfolding h_db_open_def
    by (intro db_wbind keeps_wret call_mut_db_step) (auto simp: mock_open_def mock_revision_def split: if_splits)
  show "db_step (h_db_close p)" unfolding h_db_close_def
    by (intro db_after call_mut_db_step keeps_wret) (auto simp: mock_close_def mock_revision_def wret_def)
qed

lemma snapshot_create_db_step: "db_step (h_snapshot_create p)"
  unfolding h_snapshot_create_def
  by (rule call_mut_db_step) (auto simp: mock_snapshot_create_def mock_revision_def Let_def split: sum.splits)

lemma audited_ledger:
  assumes "run_mutations (map mock_mut ops) b = (n, e, b')" and "audited (mock_revision b) pops (ws_audit st) n audit"
    and "ws_backend st = Some b"
  shows "ledger st (st\<lparr>ws_backend := Some b', ws_audit := audit\<rparr>)"
  using assms mock.run_revision [OF assms(1)] by (auto simp: ledger_def audited_def)

text \<open>The only error of \<open>plan::apply\<close> is a panic of an operation; others are reported in its answer.\<close>

lemma plan_apply_err: "plan_apply b ops audit = (Inl e, b', audit') \<Longrightarrow> \<exists>m. e = Panic m"
  unfolding plan_apply_def
  by (drule plan_mock.apply_loop_effect) (auto simp: plan_report_def split: option.splits error.splits)

lemma plan_apply_db_step: "db_step (h_plan_apply p)"
  unfolding h_plan_apply_def
proof (intro db_wbind keeps_wret keeps_ask)
  fix ops x
  let ?m = "\<lambda>st. case need_backend st of Inl e \<Rightarrow> (Inl e, st)
      | Inr b \<Rightarrow> (case plan_apply b ops (ws_audit st) of
          (Inl (Panic m), b', audit) \<Rightarrow> (Inl (Panic m), st\<lparr>ws_backend := Some b', ws_audit := []\<rparr>)
        | (result, b', audit) \<Rightarrow> (result, st\<lparr>ws_backend := Some b', ws_audit := audit\<rparr>))"
  show "db_step ?m"
    unfolding db_step_def
  proof
    fix st
    show "panicked (fst (?m st)) \<or> ledger st (snd (?m st)) \<and> (is_ok (fst (?m st)) \<or>
       ws_backend (snd (?m st)) = ws_backend st \<and> ws_audit (snd (?m st)) = ws_audit st)"
    proof (cases "ws_backend st")
      case None
      then show ?thesis by (simp add: need_backend_def ledger_same)
    next
      case (Some b)
      obtain r b' audit where pa: "plan_apply b ops (ws_audit st) = (r, b', audit)" by (cases "plan_apply b ops (ws_audit st)")
      show ?thesis
      proof (cases r)
        case (Inl e)
        with plan_apply_err [of b ops "ws_audit st" e b' audit] pa Some show ?thesis by (auto simp: need_backend_def)
      next
        case (Inr j)
        with pa Some show ?thesis by (auto simp: need_backend_def dest!: plan_apply_run intro: audited_ledger)
      qed
    qed
  qed
qed

lemma reader_entry: "(m, h) \<in> (\<lambda>(m, h). (m, read_only h)) ` X \<Longrightarrow> db_step (h p)"
proof (erule imageE)
  fix x assume "(m, h) = (case x of (m, h) \<Rightarrow> (m, read_only h))"
  then have h: "h = read_only (snd x)" by (cases x) simp
  show "db_step (h p)" unfolding h by (rule reader_db_step)
qed

lemma dispatch_table_cases:
  "(m, h) \<in> set (dispatch_table en) \<Longrightarrow>
     (m, h) \<in> set session_methods \<or> (m, h) \<in> (\<lambda>(m, h). (m, read_only h)) ` set (read_methods en) \<or>
     (m, h) \<in> set mutation_methods \<or> (m, h) \<in> set plan_methods \<or> (m, h) \<in> set (index_methods en)"
  by (simp only: dispatch_table_def set_append set_map Un_iff)

lemma session_methods_db_step:
  assumes "(m, h) \<in> set session_methods" and "m \<noteq> ''backend.select''"
  shows "db_step (h p)"
  using assms unfolding session_methods_def list.set insert_iff prod.inject empty_iff
  by (elim disjE conjE) (simp_all add: session_db_step)

lemma mutation_audit_keeps: "keeps (h_mutation_audit p)"
  by (simp add: keeps_def h_mutation_audit_def)

lemma plan_methods_db_step:
  assumes "(m, h) \<in> set plan_methods" and "m \<notin> {''types.apply'', ''snapshot.restore'', ''deob.apply''}"
  shows "db_step (h p)"
  using assms unfolding plan_methods_def list.set insert_iff prod.inject empty_iff
  by (elim disjE conjE)
    (simp_all add: plan_apply_db_step snapshot_create_db_step keeps_db_step mutation_audit_keeps)

text \<open>The methods a database step is claimed for: all but four.\<close>

lemma dispatch_db_step:
  assumes "m \<notin> {''backend.select'', ''types.apply'', ''snapshot.restore'', ''deob.apply''}"
  shows "db_step (dispatch en m p)"
proof (cases "map_of (dispatch_table en) m")
  case None
  then show ?thesis by (simp add: dispatch_def keeps_db_step keeps_wret)
next
  case (Some h)
  then have "(m, h) \<in> set (dispatch_table en)" by (rule map_of_SomeD)
  from dispatch_table_cases [OF this] have "db_step (h p)"
  proof (elim disjE)
    assume "(m, h) \<in> set session_methods"
    then show ?thesis using assms by (intro session_methods_db_step) auto
  next
    assume "(m, h) \<in> set plan_methods"
    then show ?thesis using assms by (intro plan_methods_db_step) auto
  qed (rule reader_entry mutation_methods_db_step keeps_db_step [OF index_methods_keeps], assumption)+
  with Some show ?thesis by (simp add: dispatch_def)
qed

section \<open>Errors\<close>

definition db_err :: "'a worker \<Rightarrow> bool" where
  "db_err m \<longleftrightarrow> (\<forall>st. \<not> is_ok (fst (m st)) \<longrightarrow>
     ws_backend (snd (m st)) = ws_backend st \<and> ws_audit (snd (m st)) = ws_audit st)"

lemma db_err_wbind: "keeps m \<Longrightarrow> (\<And>x. db_err (k x)) \<Longrightarrow> db_err (wbind m k)"
  unfolding db_err_def
proof (intro allI impI)
  fix st
  assume a: "keeps m" "\<And>x. \<forall>st. \<not> is_ok (fst (k x st)) \<longrightarrow>
      ws_backend (snd (k x st)) = ws_backend st \<and> ws_audit (snd (k x st)) = ws_audit st"
    and err: "\<not> is_ok (fst (wbind m k st))"
  obtain r st1 where m: "m st = (r, st1)" by (cases "m st")
  have "ws_backend st1 = ws_backend st" "ws_audit st1 = ws_audit st"
    using a(1) [unfolded keeps_def, rule_format, of st] m by simp_all
  then show "ws_backend (snd (wbind m k st)) = ws_backend st \<and> ws_audit (snd (wbind m k st)) = ws_audit st"
    using m err a(2) [rule_format, of _ st1] by (cases r) (auto simp: wbind_def)
qed

lemma db_err_then_ok:
  assumes "db_err m" and "\<And>x st. is_ok (fst (k x st))"
  shows "db_err (wbind m k)"
  unfolding db_err_def
proof (intro allI impI)
  fix st assume err: "\<not> is_ok (fst (wbind m k st))"
  obtain r st1 where m: "m st = (r, st1)" by (cases "m st")
  with err assms(2) have "\<not> is_ok r" by (cases r) (auto simp: wbind_def)
  with m err assms(1) [unfolded db_err_def, rule_format, of st]
  show "ws_backend (snd (wbind m k st)) = ws_backend st \<and> ws_audit (snd (wbind m k st)) = ws_audit st"
    by (cases r) (auto simp: wbind_def)
qed

lemma call_mut_err:
  assumes "\<And>b e b'. f b = (Inl e, b') \<Longrightarrow> b' = b"
  shows "db_err (call_mut f)"
  unfolding db_err_def using assms
  by (auto simp: call_mut_def need_backend_def Let_def is_ok_def split: option.splits prod.splits sum.splits)

lemma select_err: "db_err (h_backend_select p)"
  by (simp add: db_err_def h_backend_select_def Let_def)

lemma restore_err: "db_err (h_snapshot_restore p)"
  unfolding h_snapshot_restore_def
  by (rule call_mut_err) (auto simp: mock_snapshot_restore_def Let_def bump_def split: sum.splits if_splits)

lemma udt_create_err: "mock_type_udt_create n fs b = (Inl e, b') \<Longrightarrow> b' = b"
  using mock.mut_err [of "UdtCreate n fs" b e b'] by simp

lemma apply_struct_err: "db_err (apply_struct name flds)"
  unfolding apply_struct_def
  by (auto intro!: db_err_then_ok call_mut_err udt_create_err simp: wret_def)
    (simp add: db_err_def wret_def)+

lemma types_apply_err: "db_err (h_types_apply p)"
  unfolding h_types_apply_def guard_revision_def
  by (intro db_err_wbind keeps_wret keeps_ask db_err_then_ok apply_struct_err) simp

lemma dispatch_error:
  assumes "dispatch en m p st = (Inl e, st')" and "\<forall>msg. e \<noteq> Panic msg" and "m \<noteq> ''deob.apply''"
  shows "ws_backend st' = ws_backend st \<and> ws_audit st' = ws_audit st"
proof (cases "m \<in> {''backend.select'', ''types.apply'', ''snapshot.restore''}")
  case False
  then have "db_step (dispatch en m p)" using assms(3) by (intro dispatch_db_step) auto
  from this [unfolded db_step_def, rule_format, of st] assms(1, 2) show ?thesis by (simp add: panicked_def split: error.splits)
next
  case True
  have tab: "map_of (dispatch_table en) ''backend.select'' = Some h_backend_select"
    "map_of (dispatch_table en) ''types.apply'' = Some h_types_apply"
    "map_of (dispatch_table en) ''snapshot.restore'' = Some h_snapshot_restore"
    by (simp_all add: dispatch_table_def session_methods_def read_methods_def mutation_methods_def plan_methods_def)
  have "db_err (h_backend_select p)" "db_err (h_types_apply p)" "db_err (h_snapshot_restore p)"
    by (rule select_err types_apply_err restore_err)+
  with True tab assms(1) show ?thesis by (auto simp: dispatch_def db_err_def dest: spec [of _ st])
qed

lemmas table_defs = dispatch_table_def session_methods_def read_methods_def mutation_methods_def
  plan_methods_def index_methods_def

lemma dispatch_keys_distinct: "distinct (map fst (dispatch_table en))"
  by (simp add: table_defs)

lemma dispatch_entry: "(m, h) \<in> set (dispatch_table en) \<Longrightarrow> dispatch en m p = h p"
  using dispatch_keys_distinct by (simp add: dispatch_def)

lemma dispatch_group:
  "(m, h) \<in> set session_methods \<Longrightarrow> dispatch en m p = h p"
  "(m, h) \<in> set mutation_methods \<Longrightarrow> dispatch en m p = h p"
  "(m, h) \<in> set plan_methods \<Longrightarrow> dispatch en m p = h p"
  "(m, h) \<in> set (index_methods en) \<Longrightarrow> dispatch en m p = h p"
  by (rule dispatch_entry, simp add: dispatch_table_def)+

lemma dispatch_lookup:
  "dispatch en ''rename'' p = h_rename p" "dispatch en ''types.apply'' p = h_types_apply p"
  "dispatch en ''snapshot.create'' p = h_snapshot_create p"
  "dispatch en ''snapshot.restore'' p = h_snapshot_restore p"
  "dispatch en ''index.query'' p = h_index_query en p" "dispatch en ''deob.apply'' p = h_deob_apply p"
  "dispatch en ''plan.apply'' p = h_plan_apply p" "dispatch en ''hr.microcode'' p = h_hr_microcode p"
  by (rule dispatch_group, simp add: mutation_methods_def plan_methods_def index_methods_def; fail)+

text \<open>A failed \<open>deob.apply\<close> may have taken its snapshot before its operations were parsed.\<close>

lemma transforms_apply_error:
  assumes "transforms_apply pl ex st = (Inl e, st')" and "\<forall>msg. e \<noteq> Panic msg"
  shows "st' = st \<or> (\<exists>b r b1. ws_backend st = Some b \<and> mock_snapshot_create b = (r, b1) \<and> st' = st\<lparr>ws_backend := Some b1\<rparr>)"
  using assms
  by (auto simp: transforms_apply_def Let_def split: if_splits sum.splits option.splits prod.splits error.splits
      dest!: plan_apply_err)

lemma deob_apply_error:
  assumes "h_deob_apply p st = (Inl e, st')" and "\<forall>msg. e \<noteq> Panic msg"
  shows "ws_audit st' = ws_audit st \<and> (ws_backend st' = ws_backend st \<or>
    (\<exists>b s. ws_backend st = Some b \<and> ws_backend st' = Some (b\<lparr>snapshots := snapshots b @ [s]\<rparr>)))"
proof -
  have snap: "b1 = b \<or> (\<exists>s. b1 = b\<lparr>snapshots := snapshots b @ [s]\<rparr>)" if "mock_snapshot_create b = (r, b1)" for r b b1
    using that by (auto simp: mock_snapshot_create_def Let_def split: sum.splits)
  have "st' = st \<or> (\<exists>pl ex. transforms_apply pl ex st = (Inl e, st'))"
    using assms(1) by (auto simp: h_deob_apply_def wbind_def wret_def split: sum.splits)
  then consider "st' = st" | b r b1 where "ws_backend st = Some b" "mock_snapshot_create b = (r, b1)" "st' = st\<lparr>ws_backend := Some b1\<rparr>"
    using transforms_apply_error [OF _ assms(2)] by blast
  then show ?thesis
  proof cases
    case 2
    with snap [OF 2(2)] show ?thesis by auto
  qed simp
qed

text \<open>
  C2: a request that is answered with an error leaves the audit trail and the database exactly as they were, whatever
  the method and its parameters, plans included; the one exception is a snapshot that a failed \<open>deob.apply\<close> may
  have put on the stack of snapshots, the database being otherwise as before there too. (A request whose
  handler panics is not answered: the process ends.)
\<close>

theorem error_leaves_database_alone:
  assumes "handle en req st = (Inr resp, st')" and "rs_error resp \<noteq> None"
  shows "ws_audit st' = ws_audit st \<and> (ws_backend st' = ws_backend st \<or>
    rq_method req = ''deob.apply'' \<and>
      (\<exists>b s. ws_backend st = Some b \<and> ws_backend st' = Some (b\<lparr>snapshots := snapshots b @ [s]\<rparr>)))"
proof -
  obtain e where d: "dispatch en (rq_method req) (rq_params req) st = (Inl e, st')" and e: "\<forall>msg. e \<noteq> Panic msg"
    using assms by (auto simp: handle_def response_ok_def split: prod.splits sum.splits error.splits)
  show ?thesis
  proof (cases "rq_method req = ''deob.apply''")
    case True
    with d have "h_deob_apply (rq_params req) st = (Inl e, st')" by (simp add: dispatch_lookup)
    from deob_apply_error [OF this e] True show ?thesis by blast
  next
    case False
    from dispatch_error [OF d e False] show ?thesis by simp
  qed
qed

section \<open>A concrete environment\<close>

definition sample_env :: env where
  "sample_env = \<lparr>en_now = 0, en_clock = (\<lambda>_. 0), en_cache_dir = [''cache''], en_index_text = (\<lambda>_. Inr ''index''),
     en_query_of = (\<lambda>_. Inr \<lparr>eq_all = Some [NameContains ''main''], eq_limit = 20\<rparr>),
     en_serde_error = (\<lambda>_. ''no workflow''), en_workflow_text = (\<lambda>_. []), en_budgets_text = (\<lambda>_. []),
     en_rules_dir = None, en_from_slice = (\<lambda>_. Inl ''not read''), en_sig_of = (\<lambda>_. Inl ''no signatures''),
     en_sig_text = (\<lambda>_. Inr ''signatures''), en_alphanumeric = (\<lambda>_. False)\<rparr>"

abbreviation open_worker :: worker_state where
  "open_worker \<equiv> worker_new\<lparr>ws_backend := Some mock_opened\<rparr>"

lemmas handler_eval = wbind_def wret_def ask_def call_mut_def need_backend_def mutate_def audit_push_def
  record_audit_def guard_revision_def check_revision_def str_param_def param_defs

abbreviation rename_params :: "u64 \<Rightarrow> string \<Rightarrow> json" where
  "rename_params ea n \<equiv> JObj [(''ea'', ju ea), (''name'', JStr n)]"

lemma ea_param_ju: "jget p k = Some (ju w) \<Longrightarrow> ea_param p k = Inr w"
  using as_u64_ju [of w] by (simp add: ea_param_def ju_def)

theorem error_leaves_database_alone_witness:
  "\<exists>resp st'. handle sample_env \<lparr>rq_id = 1, rq_method = ''rename'', rq_params = rename_params 0x10 ''x''\<rparr> open_worker = (Inr resp, st') \<and>
     rs_error resp \<noteq> None \<and> ws_backend st' = Some mock_opened"
proof -
  obtain resp st' where d: "handle sample_env \<lparr>rq_id = 1, rq_method = ''rename'', rq_params = rename_params 0x10 ''x''\<rparr> open_worker = (Inr resp, st')"
    and e: "rs_error resp \<noteq> None"
    by (simp add: handle_def dispatch_lookup h_rename_def ea_param_ju handler_eval mock_eval response_err_def)
  from error_leaves_database_alone [OF d e] d e show ?thesis by auto
qed

section \<open>The audit ledger\<close>

lemma deob_apply_ledger: "panicked (fst (h_deob_apply p st)) \<or> ledger st (snd (h_deob_apply p st))"
proof (cases "ws_backend st")
  case None
  then show ?thesis
    by (auto simp: h_deob_apply_def wbind_def wret_def transforms_apply_def Let_def ledger_def
        split: sum.splits if_splits)
next
  case (Some b)
  have snap: "mock_revision b1 = mock_revision b" if "mock_snapshot_create b = (r, b1)" for r b1
    using that by (auto simp: mock_snapshot_create_def mock_revision_def Let_def split: sum.splits)
  have step: "ledger st (st\<lparr>ws_backend := Some b2, ws_audit := audit\<rparr>)"
    if "mock_snapshot_create b = (r, b1)" "plan_apply b1 ops (ws_audit st) = (j, b2, audit)" for r b1 ops j b2 audit
  proof -
    from plan_apply_run [OF that(2)] obtain n e where
      n: "run_mutations (map mock_mut (map plan_mop ops)) b1 = (n, e, b2)"
      "audited (mock_revision b1) ops (ws_audit st) n audit" by blast
    show ?thesis
      using n mock.run_revision [OF n(1)] snap [OF that(1)] Some by (auto simp: ledger_def audited_def)
  qed
  have one: "ledger st (st\<lparr>ws_backend := Some b1\<rparr>)" if "mock_snapshot_create b = (r, b1)" for r b1
    using snap [OF that] Some by (auto simp: ledger_def intro: exI [of _ 0])
  show ?thesis
    using Some step one
    by (auto simp: h_deob_apply_def wbind_def wret_def transforms_apply_def Let_def ledger_same
        split: sum.splits if_splits prod.splits error.splits)
qed

text \<open>
  C3: the audit trail accounts for the revisions: an answered request of any method but three appends exactly as many
  entries as the revisions the database advanced by, and changes no earlier entry. The three are \<open>backend.select\<close>
  (which replaces the database), \<open>snapshot.restore\<close> (which sets the revision back) and \<open>types.apply\<close> (which
  is not audited, see \<open>types_apply_is_not_audited\<close>).
\<close>

theorem revisions_are_audited:
  assumes "handle en req st = (Inr resp, st')" and "ws_backend st = Some b"
    and "rq_method req \<notin> {''backend.select'', ''snapshot.restore'', ''types.apply''}"
  shows "\<exists>b' n. ws_backend st' = Some b' \<and> mock_revision b' = mock_revision b + of_nat n \<and>
     length (ws_audit st') = length (ws_audit st) + n \<and>
     take (length (ws_audit st)) (ws_audit st') = ws_audit st"
proof -
  obtain r st1 where d: "dispatch en (rq_method req) (rq_params req) st = (r, st1)" and np: "\<not> panicked r"
    and same: "ws_backend st' = ws_backend st1" "ws_audit st' = ws_audit st1"
    using assms(1) by (cases "dispatch en (rq_method req) (rq_params req) st")
      (auto simp: handle_def panicked_def drop_cache_def split: sum.splits error.splits if_splits)
  have "ledger st st1"
  proof (cases "rq_method req = ''deob.apply''")
    case True
    with deob_apply_ledger [of "rq_params req" st] d np show ?thesis by (simp add: dispatch_lookup)
  next
    case False
    with assms(3) have "db_step (dispatch en (rq_method req) (rq_params req))" by (intro dispatch_db_step) auto
    from this [unfolded db_step_def, rule_format, of st] d np show ?thesis by simp
  qed
  with assms(2) same show ?thesis by (simp add: ledger_def)
qed

theorem revisions_are_audited_witness:
  "\<exists>resp st'. handle sample_env \<lparr>rq_id = 1, rq_method = ''rename'', rq_params = rename_params 0x401000 ''entry''\<rparr> open_worker = (Inr resp, st') \<and>
     rs_error resp = None \<and> length (ws_audit st') = 1 \<and> (\<exists>b' n. ws_backend st' = Some b' \<and>
     mock_revision b' = of_nat n \<and> length (ws_audit st') = n)"
proof -
  obtain resp st' where d: "handle sample_env \<lparr>rq_id = 1, rq_method = ''rename'', rq_params = rename_params 0x401000 ''entry''\<rparr> open_worker
      = (Inr resp, st')" and l: "rs_error resp = None" "length (ws_audit st') = 1"
    by (simp add: handle_def dispatch_lookup h_rename_def ea_param_ju handler_eval mock_eval worker_new_def response_ok_def
        drop_cache_def MUTATING_METHODS_def)
  from revisions_are_audited [OF d] d l show ?thesis
    by (auto simp: mock_revision_def mock_new_def worker_new_def)
qed

section \<open>The revision guard\<close>

definition refused :: "'a worker \<Rightarrow> worker_state \<Rightarrow> bool" where
  "refused m st \<longleftrightarrow> (\<exists>e. m st = (Inl e, st))"

lemma refused_wret: "(\<And>x. r = Inr x \<Longrightarrow> refused (k x) st) \<Longrightarrow> refused (wbind (wret r) k) st"
  by (cases r) (auto simp: refused_def wbind_def wret_def)

lemma refused_guard:
  assumes "ws_backend st = Some b" "jget p ''expected_revision'' = Some (ju v)" "v \<noteq> mock_revision b"
  shows "refused (wbind (guard_revision p) k) st"
  using assms by (simp add: refused_def wbind_def guard_revision_def ask_def need_backend_def check_revision_def)

lemma refused_plan_guard:
  assumes "ws_backend st = Some b" "jget p ''expected_revision'' = Some (ju v)" "v \<noteq> mock_revision b"
  shows "refused (wbind (ask (plan_guard p)) k) st"
  using assms by (simp add: refused_def wbind_def ask_def need_backend_def plan_guard_def param_u64_def
      check_plan_revision_def check_revision_value_def)

lemma mutation_methods_refused:
  assumes "ws_backend st = Some b" "jget p ''expected_revision'' = Some (ju v)" "v \<noteq> mock_revision b"
    and "(m, h) \<in> set mutation_methods"
  shows "refused (h p) st"
  using assms(4) unfolding mutation_methods_def list.set insert_iff prod.inject empty_iff
  by (elim disjE conjE FalseE)
    (simp only: mutation_handler_defs; intro refused_wret refused_guard [OF assms(1-3)])+

lemma plan_methods_refused:
  assumes "ws_backend st = Some b" "jget p ''expected_revision'' = Some (ju v)" "v \<noteq> mock_revision b"
  shows "refused (h_types_apply p) st" "refused (h_plan_apply p) st" "refused (h_deob_apply p) st"
proof -
  show "refused (h_types_apply p) st"
    unfolding h_types_apply_def by (intro refused_wret refused_guard [OF assms])
  show "refused (h_plan_apply p) st"
    unfolding h_plan_apply_def by (intro refused_wret refused_plan_guard [OF assms])
  have "refused (transforms_apply pl (param_u64 p ''expected_revision'')) st" for pl
    using transforms_apply_stale [OF assms(1,3), of pl] assms(2) by (simp add: refused_def param_u64_def)
  then show "refused (h_deob_apply p) st"
    unfolding h_deob_apply_def by (intro refused_wret)
qed

lemma dispatch_refused:
  assumes "ws_backend st = Some b" and "jget p ''expected_revision'' = Some (ju v)" and "v \<noteq> mock_revision b"
    and "m \<in> set MUTATING_METHODS - {''snapshot.restore'', ''analyze_wait''}"
  shows "refused (dispatch en m p) st"
proof -
  have "m \<in> fst ` set mutation_methods \<or> m \<in> {''types.apply'', ''plan.apply'', ''deob.apply''}"
    using assms(4) by (auto simp: MUTATING_METHODS_def mutation_methods_def)
  then show ?thesis
  proof
    assume "m \<in> fst ` set mutation_methods"
    then obtain h where h: "(m, h) \<in> set mutation_methods" by force
    then show ?thesis
      using mutation_methods_refused [OF assms(1-3) h] dispatch_group(2) [OF h, of en p] by simp
  next
    assume "m \<in> {''types.apply'', ''plan.apply'', ''deob.apply''}"
    then show ?thesis using plan_methods_refused [OF assms(1-3)] by (auto simp: dispatch_lookup)
  qed
qed

text \<open>
  C1: optimistic concurrency: a request of a mutating method that carries an expected revision other than
  the database's current one is refused, and the worker's whole state is as before. This covers every
  method of \<open>MUTATING_METHODS\<close>, plans and transforms included, except the two that do not look at the
  expected revision: \<open>snapshot.restore\<close> and \<open>analyze_wait\<close> (see \<open>restore_ignores_the_revision\<close>).
\<close>

theorem stale_revision_changes_nothing:
  assumes "ws_backend st = Some b" and "jget p ''expected_revision'' = Some (ju v)" and "v \<noteq> mock_revision b"
    and "m \<in> set MUTATING_METHODS - {''snapshot.restore'', ''analyze_wait''}"
  shows "\<exists>e. dispatch en m p st = (Inl e, st)"
  using dispatch_refused [OF assms] by (simp add: refused_def)

theorem stale_revision_changes_nothing_witness:
  "\<exists>e. dispatch sample_env ''rename'' (JObj [(''ea'', ju 0x401000), (''name'', JStr ''x''), (''expected_revision'', ju 7)])
     open_worker = (Inl e, open_worker)"
  using stale_revision_changes_nothing [of open_worker mock_opened
      "JObj [(''ea'', ju 0x401000), (''name'', JStr ''x''), (''expected_revision'', ju 7)]" 7 "''rename''" sample_env]
  by (simp add: mock_revision_def mock_new_def MUTATING_METHODS_def)

text \<open>
  Restoring a snapshot and waiting for the analysis take no notice of an expected revision: whatever the
  parameters say, the answer and the state are the same.
\<close>

lemma restore_ignores_the_revision:
  "dispatch en ''snapshot.restore'' p = dispatch en ''snapshot.restore'' p'"
  "dispatch en ''analyze_wait'' p = dispatch en ''analyze_wait'' p'"
proof -
  show "dispatch en ''snapshot.restore'' p = dispatch en ''snapshot.restore'' p'"
    by (simp add: dispatch_lookup h_snapshot_restore_def)
  have "dispatch en ''analyze_wait'' q = read_only h_analyze_wait q" for q
    by (rule dispatch_entry) (simp add: dispatch_table_def read_methods_def)
  then show "dispatch en ''analyze_wait'' p = dispatch en ''analyze_wait'' p'"
    by (simp add: read_only_def h_analyze_wait_def fun_eq_iff)
qed

section \<open>Requests and responses\<close>

lemma handle_id: "handle en req st = (Inr resp, st') \<Longrightarrow> rs_id resp = rq_id req"
  by (auto simp: handle_def response_ok_def response_err_def split: prod.splits sum.splits error.splits)


end
