(* ===== verification/Cache_Props.thy ===== *)
theory Cache_Props
  imports Dispatch_Props
begin

text \<open>
  The result cache of the worker stays coherent: while a database stays open, a microcode dump
  served from the cache is what a fresh run would give. The argument needs that cache keys
  are injective, that only the \<open>hr.microcode\<close> handler writes keys of that kind, and that every
  change of the database that a dump depends on clears the cache.
\<close>

section \<open>Keys\<close>

definition microcode_key :: "u64 \<Rightarrow> nat \<Rightarrow> nat \<Rightarrow> u64 \<Rightarrow> cache_key" where
  "microcode_key ea maturity max_insns rv =
     (''hr_microcode'', hex_alt ea @ ''|'' @ show_nat maturity @ ''|'' @ show_nat max_insns, rv)"

lemma append_sep_inj: "c \<notin> set xs \<Longrightarrow> c \<notin> set ys \<Longrightarrow> xs @ c # zs = ys @ c # ws \<Longrightarrow> xs = ys \<and> zs = ws"
proof (induction xs arbitrary: ys)
  case Nil
  then show ?case by (cases ys) auto
next
  case (Cons x xs)
  then show ?case by (cases ys) auto
qed

lemma bar_notin_show: "2 \<le> b \<Longrightarrow> b \<le> 16 \<Longrightarrow> CHR ''|'' \<notin> set (show_radix b n)"
  using show_radix_alnum [of b "CHR ''|''" n] by auto

lemma bar_notin_hex: "CHR ''|'' \<notin> set (hex_alt w)"
  using bar_notin_show [of 16 "unat w"] by (simp add: hex_alt_def)

lemma hex_alt_inj: "hex_alt a = hex_alt b \<Longrightarrow> a = b"
  using show_radix_inj [of 16 "unat a" "unat b"] by (simp add: hex_alt_def word_unat_eq_iff)

lemma microcode_key_inj:
  assumes "microcode_key ea m n rv = microcode_key ea' m' n' rv'"
  shows "ea = ea' \<and> m = m' \<and> n = n' \<and> rv = rv'"
proof -
  have e: "hex_alt ea @ CHR ''|'' # (show_nat m @ CHR ''|'' # show_nat n)
      = hex_alt ea' @ CHR ''|'' # (show_nat m' @ CHR ''|'' # show_nat n')" and rv: "rv = rv'"
    using assms by (simp_all add: microcode_key_def)
  from append_sep_inj [OF bar_notin_hex bar_notin_hex e]
  have "ea = ea'" and e2: "show_nat m @ CHR ''|'' # show_nat n = show_nat m' @ CHR ''|'' # show_nat n'"
    by (auto dest: hex_alt_inj)
  moreover have "m = m' \<and> n = n'"
    using append_sep_inj [OF bar_notin_show bar_notin_show e2] show_radix_inj [of 10] by auto
  ultimately show ?thesis using rv by simp
qed

section \<open>What a dump depends on\<close>

definition mc_view :: "mock \<Rightarrow> string option \<times> bool \<times> (u64, string) btree \<times> u64" where
  "mc_view b = (open_path b, decompile_off b, names b, mb_revision b)"

lemma microcode_view: "mc_view b = mc_view b' \<Longrightarrow> mock_hr_microcode ea m n b = mock_hr_microcode ea m n b'"
  by (simp add: mc_view_def mock_hr_microcode_def require_open_def mock_function_at_def functions_vec_def)

definition coherent :: "worker_state \<Rightarrow> bool" where
  "coherent st \<longleftrightarrow> (\<forall>b ea m n v. ws_backend st = Some b \<longrightarrow>
     map_of (wc_entries (ws_cache st)) (microcode_key ea m n (mock_revision b)) = Some v \<longrightarrow>
     mock_hr_microcode ea (of_nat m) n b = Inr v)"

lemma coherent_empty: "wc_entries (ws_cache st) = [] \<Longrightarrow> coherent st"
  by (simp add: coherent_def)

lemma coherent_drop_cache: "coherent (drop_cache st)"
  by (simp add: coherent_def drop_cache_def invalidate_all_def)

section \<open>Handlers that leave microcode entries alone\<close>

definition mc_entries :: "worker_state \<Rightarrow> cache_key \<Rightarrow> json option" where
  "mc_entries st k = (if fst k = ''hr_microcode'' then map_of (wc_entries (ws_cache st)) k else None)"

text \<open>No microcode entry is added or changed.\<close>

definition mc_sub :: "worker_state \<Rightarrow> worker_state \<Rightarrow> bool" where
  "mc_sub st st' \<longleftrightarrow> (\<forall>k v. mc_entries st' k = Some v \<longrightarrow> mc_entries st k = Some v)"

definition shrinks :: "'a worker \<Rightarrow> bool" where
  "shrinks m \<longleftrightarrow> (\<forall>st. mc_sub st (snd (m st)))"

named_theorems shrink_intros

lemma mc_sub_same: "wc_entries (ws_cache st') = wc_entries (ws_cache st) \<Longrightarrow> mc_sub st st'"
  by (simp add: mc_sub_def mc_entries_def)

lemma mc_sub_trans: "mc_sub a b \<Longrightarrow> mc_sub b c \<Longrightarrow> mc_sub a c"
  by (simp add: mc_sub_def)

interpretation mc: step_relation mc_sub
  by unfold_locales (simp add: mc_sub_same, rule mc_sub_trans)

lemma shrinks_fun:
  "(\<And>st. wc_entries (ws_cache (snd (m st))) = wc_entries (ws_cache st)) \<Longrightarrow> shrinks m"
  by (simp add: shrinks_def mc_sub_same)

lemma shrinks_wret [shrink_intros]: "shrinks (wret r)"
  by (rule shrinks_fun) (simp add: wret_def)

lemma shrinks_ask [shrink_intros]: "shrinks (ask f)"
  by (rule shrinks_fun) (simp add: ask_def)

lemma shrinks_call_mut [shrink_intros]: "shrinks (call_mut f)"
  by (rule shrinks_fun) (simp add: call_mut_def Let_def split: sum.splits prod.splits)

lemma shrinks_ensure_index [shrink_intros]: "shrinks ensure_index"
  by (rule shrinks_fun) (auto simp: ensure_index_def Let_def split: sum.splits option.splits)

lemma shrinks_wbind [shrink_intros]: "shrinks m \<Longrightarrow> (\<And>x. shrinks (k x)) \<Longrightarrow> shrinks (wbind m k)"
  unfolding shrinks_def wbind_def by (intro allI mc.bind_step) simp_all

lemma shrinks_case_prod [shrink_intros]:
  "(\<And>a b. p = (a, b) \<Longrightarrow> shrinks (f a b)) \<Longrightarrow> shrinks (case p of (a, b) \<Rightarrow> f a b)"
  by (cases p) simp

lemma shrinks_if [shrink_intros]: "(c \<Longrightarrow> shrinks m) \<Longrightarrow> (\<not> c \<Longrightarrow> shrinks m') \<Longrightarrow> shrinks (if c then m else m')"
  by simp

lemma shrinks_case_option [shrink_intros]:
  "(o' = None \<Longrightarrow> shrinks m) \<Longrightarrow> (\<And>x. o' = Some x \<Longrightarrow> shrinks (f x)) \<Longrightarrow>
     shrinks (case o' of None \<Rightarrow> m | Some x \<Rightarrow> f x)"
  by (cases o') simp_all

text \<open>A cached run of another kind, or one whose computation never succeeds, adds no entry.\<close>

lemma shrinks_cached:
  assumes "fst k \<noteq> ''hr_microcode'' \<or> (\<forall>b. \<not> is_ok (f b))"
  shows "shrinks (cached k f)"
  unfolding shrinks_def
proof
  fix st
  show "mc_sub st (snd (cached k f st))"
    using assms
    by (auto simp: cached_def cache_get_def cache_put_def Let_def wbind_def ask_def mc_sub_def mc_entries_def
        hm.get_ins hm_insert_def map_of_filter_key need_backend_def is_ok_def
        split: option.splits sum.splits prod.splits if_splits)
qed

lemma workflow_shrinks: "shrinks (h_workflow_run en p)"
proof -
  have "wr_workflow req = ''hr_microcode'' \<Longrightarrow> \<not> is_ok (workflow_run b idx req)" for b idx req
    by (simp add: workflow_run_def is_ok_def)
  then show ?thesis unfolding h_workflow_run_def workflow_cache_key_def by (auto intro!: shrink_intros shrinks_cached)
qed

lemma index_status_shrinks: "shrinks (h_index_status p)"
  by (rule shrinks_fun) (auto simp: h_index_status_def split: option.splits)

lemma index_build_shrinks: "shrinks (h_index_build en p)"
  unfolding h_index_build_def by (auto intro!: shrinks_wbind shrinks_ask intro: shrinks_fun)

lemma sig_export_shrinks: "shrinks (h_sig_export en p)"
proof -
  have "shrinks (write_signatures en sig b)" for sig b
    by (rule shrinks_fun) (simp add: write_signatures_def split: prod.splits)
  then show ?thesis unfolding h_sig_export_def by (auto intro!: shrinks_wbind shrinks_ensure_index shrinks_ask)
qed

lemma index_methods_shrink:
  assumes "(m, h) \<in> set (index_methods en)" and "m \<noteq> ''hr.microcode''"
  shows "shrinks (h p)"
  using assms unfolding index_methods_def list.set insert_iff prod.inject empty_iff
  by (elim disjE conjE FalseE)
    (simp_all add: workflow_shrinks index_status_shrinks index_build_shrinks sig_export_shrinks;
     auto simp: index_handler_defs Let_def intro!: shrinks_wret shrinks_ask shrinks_wbind shrinks_ensure_index
       shrinks_case_prod shrinks_if shrinks_case_option shrinks_cached intro: shrinks_fun)+

lemma shrinks_drop: "(\<And>st. wc_entries (ws_cache (snd (m st))) = []) \<Longrightarrow> shrinks m"
  by (simp add: shrinks_def mc_sub_def mc_entries_def)

lemma shrinks_dropping: "shrinks (\<lambda>st. (r st, drop_cache st))"
  by (rule shrinks_drop) (simp add: drop_cache_def invalidate_all_def)

lemma shrinks_mutate: "shrinks (mutate kind ea f)"
  unfolding mutate_def by (intro shrinks_wbind shrinks_call_mut shrinks_fun) (simp add: audit_push_def)

lemma shrinks_apply_struct: "shrinks (apply_struct n fs)"
  unfolding apply_struct_def by (intro shrink_intros)

lemma mutation_methods_shrink: "(m, h) \<in> set mutation_methods \<Longrightarrow> shrinks (h p)"
  unfolding mutation_methods_def list.set insert_iff prod.inject empty_iff
  by (elim disjE conjE FalseE)
    (simp only: mutation_handler_defs guard_revision_def;
     intro shrinks_wret shrinks_ask shrinks_wbind shrinks_mutate shrinks_dropping)+

lemma transforms_apply_cache: "wc_entries (ws_cache (snd (transforms_apply pl ex st))) = wc_entries (ws_cache st)"
  by (simp add: transforms_apply_def Let_def split: sum.splits option.splits prod.splits error.splits)

lemma plan_methods_shrink: "(m, h) \<in> set plan_methods \<Longrightarrow> shrinks (h p)"
proof -
  assume "(m, h) \<in> set plan_methods"
  moreover have "shrinks (h_plan_apply p)" unfolding h_plan_apply_def
    by (intro shrinks_wbind shrinks_wret shrinks_ask shrinks_fun) (auto split: sum.splits prod.splits error.splits)
  moreover have "shrinks (h_mutation_audit p)"
    by (rule shrinks_fun) (simp add: h_mutation_audit_def)
  moreover have "shrinks (h_snapshot_create p)" "shrinks (h_snapshot_restore p)"
    unfolding h_snapshot_create_def h_snapshot_restore_def by (rule shrinks_call_mut)+
  moreover have "shrinks (h_types_apply p)" unfolding h_types_apply_def guard_revision_def
    by (intro shrinks_wbind shrinks_wret shrinks_ask shrinks_apply_struct shrinks_dropping)
  moreover have "shrinks (h_deob_apply p)" unfolding h_deob_apply_def
    by (intro shrinks_wbind shrinks_wret shrinks_fun transforms_apply_cache)
  ultimately show ?thesis
    unfolding plan_methods_def list.set insert_iff prod.inject empty_iff
    by (elim disjE conjE FalseE) simp_all
qed

lemma reader_shrinks: "(m, h) \<in> (\<lambda>(m, h). (m, read_only h)) ` X \<Longrightarrow> shrinks (h p)"
proof (erule imageE)
  fix x assume "(m, h) = (case x of (m, h) \<Rightarrow> (m, read_only h))"
  then have h: "h = read_only (snd x)" by (cases x) simp
  show "shrinks (h p)" unfolding h by (rule shrinks_fun) (simp add: read_only_def)
qed

lemma session_methods_shrink: "(m, h) \<in> set session_methods \<Longrightarrow> shrinks (h p)"
proof -
  assume "(m, h) \<in> set session_methods"
  moreover have "shrinks (h_backend_select p)" "shrinks (h_shutdown p)"
    by (rule shrinks_fun, simp add: h_backend_select_def h_shutdown_def Let_def)+
  moreover have "shrinks (h_db_open p)" "shrinks (h_db_close p)"
    unfolding h_db_open_def h_db_close_def by (intro shrink_intros)+
  ultimately show ?thesis
    unfolding session_methods_def list.set insert_iff prod.inject empty_iff
    by (elim disjE conjE FalseE) simp_all
qed

lemma dispatch_shrinks:
  assumes "m \<noteq> ''hr.microcode''"
  shows "shrinks (dispatch en m p)"
proof (cases "map_of (dispatch_table en) m")
  case None
  then show ?thesis by (simp add: dispatch_def shrinks_wret)
next
  case (Some h)
  then have "(m, h) \<in> set (dispatch_table en)" by (rule map_of_SomeD)
  from dispatch_table_cases [OF this] have "shrinks (h p)"
    using session_methods_shrink reader_shrinks mutation_methods_shrink plan_methods_shrink
      index_methods_shrink [OF _ assms]
    by (elim disjE)
  with Some show ?thesis by (simp add: dispatch_def)
qed

section \<open>Coherence is kept by every request\<close>

definition same_view :: "worker_state \<Rightarrow> worker_state \<Rightarrow> bool" where
  "same_view st st' \<longleftrightarrow> map_option mc_view (ws_backend st') = map_option mc_view (ws_backend st)"

lemma same_view_backend: "ws_backend st' = ws_backend st \<Longrightarrow> same_view st st'"
  by (simp add: same_view_def)

lemma coherent_transfer:
  assumes "coherent st" and "mc_sub st st'" and "same_view st st'"
  shows "coherent st'"
  unfolding coherent_def
proof (intro allI impI)
  fix b' ea m n v
  assume b': "ws_backend st' = Some b'"
    and e: "map_of (wc_entries (ws_cache st')) (microcode_key ea m n (mock_revision b')) = Some v"
  from b' assms(3) obtain b where b: "ws_backend st = Some b" "mc_view b = mc_view b'"
    by (cases "ws_backend st") (auto simp: same_view_def)
  then have rv: "mock_revision b = mock_revision b'" by (simp add: mc_view_def mock_revision_def)
  have "map_of (wc_entries (ws_cache st)) (microcode_key ea m n (mock_revision b)) = Some v"
    using assms(2) [unfolded mc_sub_def, rule_format, of "microcode_key ea m n (mock_revision b')" v] e
    unfolding mc_entries_def rv by (simp add: microcode_key_def)
  with assms(1) b have "mock_hr_microcode ea (of_nat m) n b = Inr v" by (auto simp: coherent_def)
  with microcode_view [OF b(2)] show "mock_hr_microcode ea (of_nat m) n b' = Inr v" by simp
qed

lemma snapshot_create_view: "mock_snapshot_create b = (r, b') \<Longrightarrow> mc_view b' = mc_view b"
  by (auto simp: mock_snapshot_create_def mc_view_def Let_def split: sum.splits)

lemma deob_error_view:
  assumes "h_deob_apply p st = (Inl e, st')" and "\<forall>msg. e \<noteq> Panic msg"
  shows "same_view st st'"
  using deob_apply_error [OF assms] by (auto simp: same_view_def mc_view_def)

text \<open>A request that is not a successful mutation and does not open, close or select.\<close>

lemma quiet_view:
  assumes d: "dispatch en m p st = (r, st')" and m: "m \<notin> {''backend.select'', ''db.open'', ''db.close''}"
    and q: "\<not> is_ok r \<or> m \<notin> set MUTATING_METHODS" and np: "\<not> panicked r"
  shows "same_view st st'"
proof (cases "is_ok r")
  case False
  then obtain e where e: "r = Inl e" by (cases r) auto
  with np have ne: "\<forall>msg. e \<noteq> Panic msg" by (auto simp: panicked_def)
  show ?thesis
  proof (cases "m = ''deob.apply''")
    case True
    with d e ne show ?thesis by (auto simp: dispatch_lookup intro: deob_error_view)
  next
    case False
    with dispatch_error [of en m p st e st'] d e ne show ?thesis by (simp add: same_view_backend)
  qed
next
  case True
  with q have nm: "m \<notin> set MUTATING_METHODS" by simp
  show ?thesis
  proof (cases "map_of (dispatch_table en) m")
    case None
    with d True show ?thesis by (auto simp: dispatch_def wret_def)
  next
    case (Some h)
    with d have h: "h p st = (r, st')" by (simp add: dispatch_def)
    from Some have "(m, h) \<in> set (dispatch_table en)" by (rule map_of_SomeD)
    from dispatch_table_cases [OF this] show ?thesis
    proof (elim disjE)
      assume "(m, h) \<in> set session_methods"
      with m have "h = h_shutdown" by (auto simp: session_methods_def)
      with h show ?thesis by (auto simp: h_shutdown_def same_view_backend)
    next
      assume "(m, h) \<in> (\<lambda>(m, h). (m, read_only h)) ` set (read_methods en)"
      then obtain x where "h = read_only (snd x)" by force
      with h show ?thesis by (auto simp: read_only_def same_view_backend)
    next
      assume "(m, h) \<in> set mutation_methods"
      then have "m \<in> set MUTATING_METHODS" by (auto simp: mutation_methods_def MUTATING_METHODS_def)
      with nm show ?thesis by simp
    next
      assume "(m, h) \<in> set plan_methods"
      with nm have "h = h_mutation_audit \<or> h = h_snapshot_create"
        by (auto simp: plan_methods_def MUTATING_METHODS_def)
      with h show ?thesis
        by (auto simp: h_mutation_audit_def h_snapshot_create_def call_mut_def need_backend_def same_view_def
            Let_def snapshot_create_view split: option.splits prod.splits)
    next
      assume "(m, h) \<in> set (index_methods en)"
      from index_methods_keeps [OF this, of p] h show ?thesis
        by (auto simp: keeps_def dest!: spec [of _ st] intro: same_view_backend)
    qed
  qed
qed

lemma cached_microcode_coherent:
  assumes "coherent st" and "ws_backend st = Some b"
  shows "coherent (snd (cached (microcode_key ea m n (mock_revision b)) (mock_hr_microcode ea (of_nat m) n) st))"
proof (cases "map_of (wc_entries (ws_cache st)) (microcode_key ea m n (mock_revision b))")
  case (Some v)
  with assms show ?thesis by (simp add: cached_def cache_get_def Let_def coherent_def)
next
  case None
  show ?thesis
  proof (cases "mock_hr_microcode ea (of_nat m) n b")
    case (Inl e)
    with None assms show ?thesis
      by (simp add: cached_def cache_get_def Let_def coherent_def wbind_def ask_def need_backend_def)
  next
    case (Inr v)
    with None assms show ?thesis
      by (auto simp: cached_def cache_get_def cache_put_def Let_def coherent_def wbind_def ask_def need_backend_def
          hm_insert_def map_of_filter_key split: if_splits dest!: microcode_key_inj)
  qed
qed

lemma microcode_handler_coherent:
  assumes "coherent st" and "h_hr_microcode p st = (r, st')"
  shows "coherent st'"
proof (cases "ea_param p ''ea''")
  case (Inl e)
  with assms show ?thesis by (simp add: h_hr_microcode_def wbind_def wret_def)
next
  case (Inr ea)
  show ?thesis
  proof (cases "ws_backend st")
    case None
    with assms Inr show ?thesis
      by (auto simp: h_hr_microcode_def Let_def wbind_def wret_def ask_def need_backend_def)
  next
    case (Some b)
    have "st' = snd (cached (microcode_key ea (clamp 0 7 (param_usize p ''maturity'' 0))
        (clamp 1 20000 (param_usize p ''max_insns'' 2000)) (mock_revision b))
        (mock_hr_microcode ea (of_nat (clamp 0 7 (param_usize p ''maturity'' 0)))
          (clamp 1 20000 (param_usize p ''max_insns'' 2000))) st)"
      using assms(2) Inr Some
      by (simp add: h_hr_microcode_def Let_def wbind_def wret_def ask_def need_backend_def microcode_key_def)
    with cached_microcode_coherent [OF assms(1) Some] show ?thesis by simp
  qed
qed

lemma handle_coherent:
  assumes "handle en req st = (Inr resp, st')" and "coherent st"
    and "rq_method req \<notin> {''backend.select'', ''db.open'', ''db.close''}"
  shows "coherent st'"
proof -
  obtain r st1 where d: "dispatch en (rq_method req) (rq_params req) st = (r, st1)"
    by (cases "dispatch en (rq_method req) (rq_params req) st")
  show ?thesis
  proof (cases "is_ok r \<and> rq_method req \<in> set MUTATING_METHODS")
    case True
    with assms(1) d have "st' = drop_cache st1" by (auto simp: handle_def is_ok_def split: sum.splits)
    then show ?thesis by (simp add: coherent_drop_cache)
  next
    case False
    with assms(1) d have st': "st' = st1" by (auto simp: handle_def split: sum.splits error.splits if_splits)
    show ?thesis
    proof (cases "rq_method req = ''hr.microcode''")
      case True
      with d st' assms(2) show ?thesis by (auto simp: dispatch_lookup intro: microcode_handler_coherent)
    next
      case neq: False
      have "mc_sub st st1"
        using dispatch_shrinks [OF neq, of en "rq_params req"] d
        by (auto simp: shrinks_def dest!: spec [of _ st])
      moreover have "same_view st st1"
        using quiet_view [OF d assms(3)] False assms(1) d
        by (auto simp: handle_def panicked_def split: sum.splits error.splits)
      ultimately show ?thesis unfolding st' by (rule coherent_transfer [OF assms(2)])
    qed
  qed
qed

inductive serving :: "worker_state \<Rightarrow> bool" where
  serving_start: "wc_entries (ws_cache st) = [] \<Longrightarrow> serving st"
| serving_request: "serving st \<Longrightarrow> handle en req st = (Inr resp, st') \<Longrightarrow>
    rq_method req \<notin> {''backend.select'', ''db.open'', ''db.close''} \<Longrightarrow> serving st'"

lemma serving_coherent: "serving st \<Longrightarrow> coherent st"
  by (induction rule: serving.induct) (auto intro: coherent_empty handle_coherent)

text \<open>
  C5: while a database stays open, the cache never serves a stale microcode dump: after any
  sequence of requests (mutations, plans, snapshots and restores included), an entry stored under
  the current revision for a function and its bounds is what generating the dump now would
  return.
\<close>

theorem cached_microcode_is_fresh:
  assumes "serving st" and "ws_backend st = Some b"
    and "cache_get (microcode_key ea m n (mock_revision b)) (ws_cache st) = (Some v, c)"
  shows "mock_hr_microcode ea (of_nat m) n b = Inr v"
  using serving_coherent [OF assms(1)] assms(2,3)
  by (auto simp: coherent_def cache_get_def split: option.splits)

abbreviation microcode_req :: worker_request where
  "microcode_req \<equiv> \<lparr>rq_id = 1, rq_method = ''hr.microcode'', rq_params = JObj [(''ea'', ju 0x401000)]\<rparr>"

theorem cached_microcode_is_fresh_witness:
  "\<exists>resp st' b v c. handle sample_env microcode_req open_worker = (Inr resp, st') \<and> ws_backend st' = Some b \<and>
     cache_get (microcode_key 0x401000 0 2000 (mock_revision b)) (ws_cache st') = (Some v, c) \<and>
     mock_hr_microcode 0x401000 (of_nat 0) 2000 b = Inr v"
proof -
  have start: "serving open_worker"
    by (rule serving_start) (simp add: worker_new_def cache_default_def)
  obtain v where v: "mock_hr_microcode 0x401000 0 2000 mock_opened = Inr v"
    by (simp add: mock_hr_microcode_def require_open_def mock_new_def mock_function_at_def functions_vec_def Let_def)
  define st' where "st' = open_worker\<lparr>ws_cache := \<lparr>wc_entries = [(microcode_key 0x401000 0 2000 0, v)],
      wc_hits = 0, wc_misses = 1\<rparr>\<rparr>"
  obtain resp where h: "handle sample_env microcode_req open_worker = (Inr resp, st')"
    using v
    by (simp add: handle_def dispatch_lookup h_hr_microcode_def ea_param_ju handler_eval clamp_def
        cached_def cache_get_def cache_put_def Let_def worker_new_def cache_default_def hm_insert_def
        MUTATING_METHODS_def st'_def microcode_key_def mock_revision_def mock_new_def)
  have s: "serving st'"
    by (rule serving_request [OF start h]) simp
  have b: "ws_backend st' = Some mock_opened" by (simp add: st'_def)
  have c: "cache_get (microcode_key 0x401000 0 2000 (mock_revision mock_opened)) (ws_cache st')
      = (Some v, (ws_cache st')\<lparr>wc_hits := 1\<rparr>)"
    by (simp add: cache_get_def st'_def mock_revision_def mock_new_def)
  show ?thesis using h b c cached_microcode_is_fresh [OF s b c] by blast
qed

section \<open>Where the code departs from its comments\<close>

text \<open>A transform request with no backend selected brings the worker down.\<close>

lemma parse_zero_ea: "transforms_parse_ea ''0'' = Inr 0"
  by (simp add: transforms_parse_ea_def trim_def is_ws_def parse_u64_radix_def from_str_radix_def
      parse_digits_def char_digit_def from_digits_def)

theorem deob_apply_without_backend_panics:
  "handle en \<lparr>rq_id = i, rq_method = ''deob.apply'',
     rq_params = JObj [(''plan'', JObj [(''operations'', JArr [JNull])])]\<rparr> worker_new
   = (Inl (Panic ''backend''), worker_new)"
  by (simp add: handle_def dispatch_lookup h_deob_apply_def wbind_def wret_def transforms_apply_def Let_def
      parse_zero_ea worker_new_def)

text \<open>A transform whose operations do not parse fails after the snapshot was taken, and leaves it behind.\<close>

theorem failed_transform_leaves_snapshot:
  "\<exists>e st' b'. dispatch en ''deob.apply'' (JObj [(''plan'', JObj [(''operations'', JArr [JNull])])]) open_worker
     = (Inl e, st') \<and> ws_backend st' = Some b' \<and> length (snapshots b') = 1"
  by (simp add: dispatch_lookup h_deob_apply_def wbind_def wret_def transforms_apply_def Let_def parse_zero_ea
      param_defs check_plan_revision_def mock_snapshot_create_def require_open_def parse_operations_def enumerate0_def
      parse_op_def mock_new_def)

theorem types_apply_is_not_audited:
  "\<exists>v st' b'. dispatch en ''types.apply'' (JObj [(''name'', JStr ''s''), (''fields'', JArr [JStr ''int x''])]) open_worker
     = (Inr v, st') \<and> ws_backend st' = Some b' \<and> mock_revision b' = 1 \<and> ws_audit st' = []"
  by (simp add: dispatch_lookup h_types_apply_def handler_eval apply_struct_def mock_eval drop_cache_def
      trim_def is_ws_def List.map_filter_def mock_revision_def worker_new_def)

text \<open>
  After a restore the index can be stale without being recognised as such: it was built at a
  revision the restore counts back to, so the staleness test passes while the index still has
  the undone name.
\<close>

theorem restored_index_goes_unnoticed:
  "\<exists>st1 st2 st3 st4 v1 v2 v3 v4 b idx md5.
     dispatch sample_env ''snapshot.create'' JNull open_worker = (Inr v1, st1) \<and>
     dispatch sample_env ''rename'' (rename_params 0x401000 ''undone'') st1 = (Inr v2, st2) \<and>
     dispatch sample_env ''index.query'' JNull st2 = (Inr v3, st3) \<and>
     dispatch sample_env ''snapshot.restore'' JNull st3 = (Inr v4, st4) \<and>
     ws_backend st4 = Some b \<and> ws_index st4 = Some (idx, md5) \<and> \<not> index_stale st4 (mock_revision b) \<and>
     bt_get (names b) 0x401000 = Some ''main'' \<and>
     map_option ff_name (bt_get (ai_functions idx) 0x401000) = Some ''undone''"
proof -
  let ?b2 = "mock_opened\<lparr>names := bt_insert 0x401000 ''undone'' (names mock_opened), mb_revision := 1,
      snapshots := [\<lparr>ss_revision = 0, ss_names = names mock_opened, ss_comments = comments mock_opened,
        ss_bytes = mb_bytes mock_opened\<rparr>]\<rparr>"
  have r: "mock_reach mock_opened"
    by (rule reach_open [OF reach_new, of "''a.exe''"]) (simp add: mock_open_def mock_new_def)
  obtain v1 st1 where 1: "dispatch sample_env ''snapshot.create'' JNull open_worker = (Inr v1, st1)"
    and b1: "ws_backend st1 = Some (mock_opened\<lparr>snapshots := snapshots ?b2\<rparr>)" and i1: "ws_index st1 = None"
    by (simp add: dispatch_lookup h_snapshot_create_def call_mut_def need_backend_def mock_snapshot_create_def
        require_open_def mock_new_def worker_new_def Let_def)
  obtain v2 st2 where 2: "dispatch sample_env ''rename'' (rename_params 0x401000 ''undone'') st1 = (Inr v2, st2)"
    and b2: "ws_backend st2 = Some ?b2" and i2: "ws_index st2 = None"
    using b1 i1 by (simp add: dispatch_lookup h_rename_def ea_param_ju handler_eval mock_eval)
  obtain idx md5 where b: "mock_build_index ?b2 = Inr (idx, md5)"
    by (simp add: mock_build_index_def Let_def)
  obtain v3 st3 where 3: "dispatch sample_env ''index.query'' JNull st2 = (Inr v3, st3)"
    and st3: "st3 = st2\<lparr>ws_index := Some (idx, md5)\<rparr>"
    using b2 i2 b
    by (simp add: dispatch_lookup h_index_query_def sample_env_def wbind_def wret_def ensure_index_def need_backend_def
        index_stale_def Let_def)
  obtain v4 st4 where 4: "dispatch sample_env ''snapshot.restore'' JNull st3 = (Inr v4, st4)"
    and st4: "st4 = st3\<lparr>ws_backend := Some (mock_opened\<lparr>mb_revision := 1\<rparr>)\<rparr>"
    using b2 st3 by (simp add: dispatch_lookup h_snapshot_restore_def call_mut_def need_backend_def
        mock_snapshot_restore_def require_open_def bump_def mock_new_def Let_def)
  have inv: "mock_inv ?b2"
    using mock_reach_inv [OF r] by (simp add: mock_inv_def bt_inv_insert)
  note f = build_index_functions [OF inv b]
  have "map_option ff_name (bt_get (ai_functions idx) 0x401000) = Some ''undone''"
    using f by (simp add: bt_get_add_edges bt_get_map_val fresh_facts_def option.map_comp comp_def)
  moreover have "\<not> index_stale st4 (mock_revision (mock_opened\<lparr>mb_revision := 1\<rparr>))"
    using st4 st3 f by (simp add: index_stale_def mock_revision_def)
  moreover have "bt_get (names (mock_opened\<lparr>mb_revision := 1\<rparr>)) 0x401000 = Some ''main''"
    by (simp add: mock_new_def bt_get_def)
  ultimately show ?thesis using 1 2 3 4 st4 st3 by (fastforce)
qed

end
