(* ===== verification/Discovery.thy ===== *)
theory Discovery
  imports Handles "HOL-Library.Product_Lexorder"
begin

text \<open>
  \<open>crates/rmcp-core/src/discovery.rs\<close> and \<open>backend_registry.rs\<close>: which IDA installation a request is
  served by. Versions, requirements, the table of known backends, the validation of a candidate
  directory, the ordered list of candidate sources and the selection are modelled, for the
  Linux build. A path is the list of the components of a normalised absolute path; what the
  program reads from the machine (environment, files, directories, the clock) is the record
  \<open>machine\<close>. The Windows-only readers of version resources and of the registry and the macOS
  branch are not part of that build.
\<close>

section \<open>Versions and requirements\<close>

datatype version = Version (v_major: u32) (v_minor: u32) (v_build: u32)

abbreviation version_key :: "version \<Rightarrow> u32 \<times> u32 \<times> u32" where
  "version_key v \<equiv> (v_major v, v_minor v, v_build v)"

instantiation version :: linorder
begin

definition less_eq_version :: "version \<Rightarrow> version \<Rightarrow> bool" where
  "less_eq_version a b = (version_key a \<le> version_key b)"

definition less_version :: "version \<Rightarrow> version \<Rightarrow> bool" where
  "less_version a b = (version_key a < version_key b)"

instance
proof
  fix a b c :: version
  show "a < b \<longleftrightarrow> a \<le> b \<and> \<not> b \<le> a"
    unfolding less_version_def less_eq_version_def by (rule less_le_not_le)
  show "a \<le> a" by (simp add: less_eq_version_def)
  show "a \<le> b \<Longrightarrow> b \<le> c \<Longrightarrow> a \<le> c"
    unfolding less_eq_version_def by (rule order_trans)
  show "a \<le> b \<Longrightarrow> b \<le> a \<Longrightarrow> a = b"
    unfolding less_eq_version_def by (drule (1) antisym) (simp add: version.expand)
  show "a \<le> b \<or> b \<le> a" unfolding less_eq_version_def by (rule linear)
qed

end

abbreviation show_u32 :: "u32 \<Rightarrow> string" where
  "show_u32 w \<equiv> show_radix 10 (unat w)"

definition parse_u32 :: "string \<Rightarrow> u32 option" where
  "parse_u32 s = (case from_str_radix 32 10 s of Inl _ \<Rightarrow> None | Inr n \<Rightarrow> Some (of_nat n))"

definition backend_key :: "version \<Rightarrow> string" where
  "backend_key v = show_u32 (v_major v) @ ''_'' @ show_u32 (v_minor v)"

definition version_parse :: "string \<Rightarrow> version option" where
  "version_parse s =
     (let parts = split_char (CHR ''.'') (trim s) in
      if length parts < 2 then None
      else Option.bind (parse_u32 (trim (parts ! 0))) (\<lambda>major.
           Option.bind (parse_u32 (trim (parts ! 1))) (\<lambda>minor.
           Some (Version major minor
             (if 2 < length parts then unwrap_or (parse_u32 (trim (parts ! 2))) 0 else 0)))))"

definition version_to_string :: "version \<Rightarrow> string" where
  "version_to_string v =
     (if v_build v = 0 then show_u32 (v_major v) @ ''.'' @ show_u32 (v_minor v)
      else show_u32 (v_major v) @ ''.'' @ show_u32 (v_minor v) @ ''.'' @ show_u32 (v_build v))"

datatype version_constraint =
    Exact version
  | AtLeast version
  | AtMost version
  | Greater version
  | Less version

abbreviation minor_key :: "version \<Rightarrow> u32 \<times> u32" where
  "minor_key v \<equiv> (v_major v, v_minor v)"

fun constraint_matches :: "version_constraint \<Rightarrow> version \<Rightarrow> bool" where
  "constraint_matches (Exact r) v = (v_major v = v_major r \<and> v_minor v = v_minor r)"
| "constraint_matches (AtLeast r) v = (minor_key r \<le> minor_key v)"
| "constraint_matches (AtMost r) v = (minor_key v \<le> minor_key r)"
| "constraint_matches (Greater r) v = (minor_key r < minor_key v)"
| "constraint_matches (Less r) v = (minor_key v < minor_key r)"

record ida_requirement =
  rq_constraints :: "version_constraint list"
  rq_latest :: bool

text \<open>The body of the loop of \<open>IdaRequirement::parse\<close>.\<close>

definition parse_atom :: "string \<Rightarrow> string \<Rightarrow> version_constraint result" where
  "parse_atom req part0 =
     (let part = trim part0;
          bad = Config (''bad version in requirement: '' @ quoted part);
          q = [CHR 0x22]
      in case strip_prefix part ''>='' of
        Some rest \<Rightarrow> rmap AtLeast (ok_or (version_parse rest) bad)
      | None \<Rightarrow> (case strip_prefix part ''<='' of
          Some rest \<Rightarrow> rmap AtMost (ok_or (version_parse rest) bad)
        | None \<Rightarrow> (case strip_prefix part ''>'' of
            Some rest \<Rightarrow> rmap Greater (ok_or (version_parse rest) bad)
          | None \<Rightarrow> (case strip_prefix part ''<'' of
              Some rest \<Rightarrow> rmap Less (ok_or (version_parse rest) bad)
            | None \<Rightarrow> rmap Exact (ok_or (version_parse part)
                (Config (''bad version requirement '' @ quoted req @ '': use '' @ q @ ''9.2'' @ q @ '', '' @ q
                   @ ''latest'' @ q @ '' or '' @ q @ ''>=9.2,<9.4'' @ q)))))))"

definition requirement_parse :: "string \<Rightarrow> ida_requirement result" where
  "requirement_parse req0 =
     (let req = trim req0 in
      if req = [] \<or> eq_ignore_ascii_case req ''latest'' then Inr \<lparr>rq_constraints = [], rq_latest = True\<rparr>
      else rmap (\<lambda>cs. \<lparr>rq_constraints = cs, rq_latest = False\<rparr>)
             (rcollect (map (parse_atom req) (split_char (CHR '','') req))))"

definition requirement_matches :: "ida_requirement \<Rightarrow> version \<Rightarrow> bool" where
  "requirement_matches r v = list_all (\<lambda>c. constraint_matches c v) (rq_constraints r)"

definition requirement_display :: "ida_requirement \<Rightarrow> string" where
  "requirement_display r = (if rq_latest r then ''latest'' else ''custom'')"

section \<open>The backend registry\<close>

record backend_manifest =
  bm_key :: string
  bm_sdk_version :: string
  bm_sdk_commit :: string
  bm_ffi_source :: string
  bm_generator :: string
  bm_verified_arch :: "string list"
  bm_verified :: bool

definition KNOWN_BACKENDS :: "backend_manifest list" where
  "KNOWN_BACKENDS = [
     \<lparr>bm_key = ''9_2'', bm_sdk_version = ''9.2'', bm_sdk_commit = ''9.2.250908'',
      bm_ffi_source = ''idalib-sys 0.7.2+9.2.250908 (vendored)'',
      bm_generator = ''autocxx 0.27 + autocxx-bindgen 0.71'', bm_verified_arch = [''x86_64''], bm_verified = True\<rparr>,
     \<lparr>bm_key = ''9_4'', bm_sdk_version = ''9.4'',
      bm_sdk_commit = ''ida-sdk v9.4.0-sdk.1 (2a9143f2f4abd7f54fe20d1e40fb68391d19c4cb)'',
      bm_ffi_source = ''idalib94-sys 0.10.1+9.4.260714 (vendored from idalib-rs/idalib v0.10.1+9.4.260714, commit 4f0437a3cff5067738f4645a1e365e139c09156c)'',
      bm_generator = ''autocxx-idalib 0.30 + autocxx-bindgen-idalib 0.73'', bm_verified_arch = [''x86_64''],
      bm_verified = True\<rparr>]"

definition manifest_for :: "string \<Rightarrow> backend_manifest option" where
  "manifest_for key = find (\<lambda>m. bm_key m = key) KNOWN_BACKENDS"

definition is_verified :: "string \<Rightarrow> bool" where
  "is_verified key = (case manifest_for key of Some m \<Rightarrow> bm_verified m | None \<Rightarrow> False)"

definition known_keys :: "string list" where
  "known_keys = map bm_key KNOWN_BACKENDS"

definition verified_keys :: "string list" where
  "verified_keys = map bm_key (filter bm_verified KNOWN_BACKENDS)"

section \<open>Installations\<close>

datatype arch = X64 | Arm64

type_synonym path = "string list"

record decompiler =
  dc_name :: string
  dc_path :: path

datatype discovery_source =
  SrcExplicit | SrcEnvVar | SrcConfig | SrcOsNative | SrcCommonPaths | SrcRegHint | SrcDriveScan

fun source_as_str :: "discovery_source \<Rightarrow> string" where
  "source_as_str SrcExplicit = ''explicit''"
| "source_as_str SrcEnvVar = ''env''"
| "source_as_str SrcConfig = ''config''"
| "source_as_str SrcOsNative = ''os_native''"
| "source_as_str SrcCommonPaths = ''common_paths''"
| "source_as_str SrcRegHint = ''reg_hint''"
| "source_as_str SrcDriveScan = ''drive_scan''"

datatype backend_status = Ready | AvailableUnverified | Unavailable

definition backend_status_of :: "version \<Rightarrow> backend_status" where
  "backend_status_of v = (case manifest_for (backend_key v) of
       Some m \<Rightarrow> if bm_verified m then Ready else AvailableUnverified
     | None \<Rightarrow> Unavailable)"

record ida_installation =
  in_root :: path
  in_version :: version
  in_arch :: arch
  in_idalib :: path
  in_ida :: path
  in_decompilers :: "decompiler list"
  in_source :: discovery_source
  in_backend :: backend_status

definition backend_ready :: "ida_installation \<Rightarrow> bool" where
  "backend_ready i = (in_backend i = Ready)"

record machine =
  m_path :: "string \<Rightarrow> path"
  m_env :: "string \<Rightarrow> string option"
  m_is_file :: "path \<Rightarrow> bool"
  m_canonicalize :: "path \<Rightarrow> path option"
  m_read_dir :: "path \<Rightarrow> (string \<times> bool) list option"
  m_read_to_string :: "path \<Rightarrow> string option"
  m_json :: "string \<Rightarrow> json option"
  m_cwd :: "path option"
  m_exe_dir :: path
  m_cached_scan :: "(path \<times> nat) option"

text \<open>\<open>Path::display\<close>, \<open>parent\<close>, \<open>file_name\<close> and \<open>ancestors().skip(1)\<close>.\<close>

definition display_path :: "path \<Rightarrow> string" where
  "display_path p = (if p = [] then ''/'' else concat (map (\<lambda>c. ''/'' @ c) p))"

definition parent :: "path \<Rightarrow> path option" where
  "parent p = (if p = [] then None else Some (butlast p))"

definition file_name :: "path \<Rightarrow> string option" where
  "file_name p = (if p = [] then None else Some (last p))"

definition ancestors :: "path \<Rightarrow> path list" where
  "ancestors p = map (\<lambda>k. take k p) (rev [0..<length p])"

record runtime_libs =
  rt_ida :: string
  rt_idalib :: string
  rt_decompilers :: "string list"

definition runtime_paths :: runtime_libs where
  "runtime_paths = \<lparr>rt_ida = ''libida.so'', rt_idalib = ''libidalib.so'',
     rt_decompilers = [''libhexx64.so'', ''libhexarm64.so'']\<rparr>"

definition is_valid_ida_dir :: "machine \<Rightarrow> path \<Rightarrow> bool" where
  "is_valid_ida_dir m dir \<longleftrightarrow> m_is_file m (dir @ [rt_ida runtime_paths]) \<and> m_is_file m (dir @ [rt_idalib runtime_paths])"

definition detect_arch :: "path \<Rightarrow> arch" where
  "detect_arch _ = X64"

section \<open>Version detection\<close>

text \<open>The inner loop of \<open>version_from_name\<close>: the digits and inner dots from here on.\<close>

fun consume_version :: "string \<Rightarrow> string \<times> nat" where
  "consume_version [] = ([], 0)"
| "consume_version (c # cs) =
     (if is_ascii_digit c then (let (r, dots) = consume_version cs in (c # r, dots))
      else if c = CHR ''.'' \<and> (case cs of d # _ \<Rightarrow> is_ascii_digit d | [] \<Rightarrow> False)
      then (let (r, dots) = consume_version cs in (c # r, dots + 1))
      else ([], 0))"

definition version_candidate :: "string \<times> nat \<Rightarrow> version option" where
  "version_candidate cand =
     (let nums = List.map_filter parse_u32 (split_char (CHR ''.'') (fst cand)) in
      if snd cand \<ge> 1 \<and> length nums \<ge> 2 \<and> nums ! 0 \<ge> 7
      then Some (Version (nums ! 0) (nums ! 1) (if 2 < length nums then nums ! 2 else 0))
      else None)"

function version_scan :: "string \<Rightarrow> version option" where
  "version_scan [] = None"
| "version_scan (c # cs) =
     (if is_ascii_digit c then
        (case version_candidate (consume_version (c # cs)) of
           Some v \<Rightarrow> Some v
         | None \<Rightarrow> version_scan (drop (max (length (fst (consume_version (c # cs)))) 1) (c # cs)))
      else version_scan cs)"
  by pat_completeness auto
termination
  by (relation "measure length") auto

definition version_from_name :: "string \<Rightarrow> version option" where
  "version_from_name name = version_scan (to_lowercase name)"

fun find_map :: "('a \<Rightarrow> 'b option) \<Rightarrow> 'a list \<Rightarrow> 'b option" where
  "find_map f [] = None"
| "find_map f (x # xs) = (case f x of Some y \<Rightarrow> Some y | None \<Rightarrow> find_map f xs)"

definition detect_version :: "path \<Rightarrow> string option \<Rightarrow> version option" where
  "detect_version root source_hint =
     find_map version_from_name
       ((case file_name root of Some n \<Rightarrow> [n] | None \<Rightarrow> []) @ (case source_hint of Some h \<Rightarrow> [h] | None \<Rightarrow> []))"

text \<open>\<open>str::trim_end_matches\<close> of a text: as often as it is the suffix.\<close>

function trim_end_matches :: "string \<Rightarrow> string \<Rightarrow> string" where
  "trim_end_matches s pat =
     (if pat \<noteq> [] \<and> suffix pat s then trim_end_matches (take (length s - length pat) s) pat else s)"
  by pat_completeness auto
termination
  by (relation "measure (length \<circ> fst)") (auto simp: suffix_def)

declare trim_end_matches.simps [simp del]

definition validate_install :: "machine \<Rightarrow> path \<Rightarrow> discovery_source \<Rightarrow> string option \<Rightarrow> ida_installation result" where
  "validate_install m root source hint =
     (let rt = runtime_paths; ida = root @ [rt_ida rt]; idalib = root @ [rt_idalib rt] in
      if \<not> m_is_file m ida \<or> \<not> m_is_file m idalib
      then Inl (IdaNotFound (display_path root @ '' is not a valid IDA install (missing '' @ rt_ida rt @ '' or ''
             @ rt_idalib rt @ '')''))
      else
        (let version = unwrap_or (detect_version root hint) (Version 0 0 0);
             decompilers = concat (map (\<lambda>dir. List.map_filter (\<lambda>name.
               let p = dir @ [name] in
               if m_is_file m p then Some \<lparr>dc_name = trim_end_matches name ''.dll'', dc_path = p\<rparr> else None)
               (rt_decompilers rt)) [root, root @ [''plugins'']])
         in Inr \<lparr>in_root = root, in_version = version, in_arch = detect_arch root, in_idalib = idalib,
              in_ida = ida, in_decompilers = decompilers, in_source = source,
              in_backend = backend_status_of version\<rparr>))"

section \<open>Candidate sources\<close>

definition home_dir :: "machine \<Rightarrow> path option" where
  "home_dir m = map_option (m_path m)
     (case m_env m ''USERPROFILE'' of Some p \<Rightarrow> Some p | None \<Rightarrow> m_env m ''HOME'')"

definition ida_config_keys :: "string list" where
  "ida_config_keys = [''idaPath'', ''ida_path'', ''IDADIR'', ''installDir'', ''install_dir'']"

text \<open>
  The loop over the keys breaks as soon as \<open>out\<close> is non-empty after a key that is present,
  and \<open>out\<close> is shared by all the configuration directories.
\<close>

fun config_keys_loop :: "machine \<Rightarrow> json \<Rightarrow> string list \<Rightarrow> path list \<Rightarrow> path list" where
  "config_keys_loop m v [] out = out"
| "config_keys_loop m v (key # keys) out =
     (case param_str v key of
        None \<Rightarrow> config_keys_loop m v keys out
      | Some s \<Rightarrow>
          (let p = m_path m s;
               out' = out @ (case find (is_valid_ida_dir m) (p # take 3 (ancestors p)) of Some c \<Rightarrow> [c] | None \<Rightarrow> [])
           in if out' \<noteq> [] then out' else config_keys_loop m v keys out'))"

definition ida_config_dirs :: "machine \<Rightarrow> path list" where
  "ida_config_dirs m =
     (let cfg_dirs = (case home_dir m of Some h \<Rightarrow> [h @ [''.idapro'']] | None \<Rightarrow> []) in
      foldl (\<lambda>out dir.
        let out' = (case Option.bind (m_read_to_string m (dir @ [''ida-config.json''])) (m_json m) of
                      Some v \<Rightarrow> config_keys_loop m v ida_config_keys out
                    | None \<Rightarrow> out)
        in out' @ (case parent dir of Some p \<Rightarrow> if is_valid_ida_dir m p then [p] else [] | None \<Rightarrow> []))
      [] cfg_dirs)"

text \<open>\<open>str::lines\<close>: a final line end adds no line, a carriage return before one is dropped.\<close>

definition str_lines :: "string \<Rightarrow> string list" where
  "str_lines s =
     (let parts = split_char (CHR 0x0A) s; parts' = (if last parts = [] then butlast parts else parts)
      in map (\<lambda>l. if l \<noteq> [] \<and> last l = CHR 0x0D then butlast l else l) parts')"

fun first_word :: "string \<Rightarrow> string option" where
  "first_word [] = None"
| "first_word (c # cs) = (if is_ws c then first_word cs else Some (c # takeWhile (\<lambda>d. \<not> is_ws d) cs))"

fun desktop_exec_lines :: "string list \<Rightarrow> string option" where
  "desktop_exec_lines [] = None"
| "desktop_exec_lines (l # ls) = (case strip_prefix l ''Exec='' of
     Some exec \<Rightarrow> first_word exec
   | None \<Rightarrow> desktop_exec_lines ls)"

definition parse_desktop_exec :: "machine \<Rightarrow> path \<Rightarrow> string option" where
  "parse_desktop_exec m p = Option.bind (m_read_to_string m p) (\<lambda>raw. desktop_exec_lines (str_lines raw))"

definition split_paths :: "machine \<Rightarrow> string \<Rightarrow> path list" where
  "split_paths m s = map (m_path m) (split_char (CHR '':'') s)"

definition xdg_data_dirs :: "machine \<Rightarrow> path list" where
  "xdg_data_dirs m = [''usr'', ''share''] # (case m_env m ''XDG_DATA_DIRS'' of Some x \<Rightarrow> split_paths m x | None \<Rightarrow> [])
     @ (case home_dir m of Some h \<Rightarrow> [h @ [''.local'', ''share'']] | None \<Rightarrow> [])"

definition os_native_candidates :: "machine \<Rightarrow> (path \<times> string option) list" where
  "os_native_candidates m =
     concat (map (\<lambda>dir. let apps = dir @ [''applications''] in
       List.map_filter (\<lambda>(name, _).
         if str_contains (to_lowercase name) ''ida'' \<and> suffix ''.desktop'' name then
           Option.bind (parse_desktop_exec m (apps @ [name])) (\<lambda>exec.
             map_option (\<lambda>d. (d, Some name)) (parent (m_path m exec)))
         else None) (unwrap_or (m_read_dir m apps) [])) (xdg_data_dirs m))
     @ (case m_env m ''PATH'' of
          Some path_var \<Rightarrow> map (\<lambda>d. (d, None))
            (filter (\<lambda>d. m_is_file m (d @ [''ida'']) \<or> m_is_file m (d @ [''idalib''])) (split_paths m path_var))
        | None \<Rightarrow> [])
     @ [([''opt''], None)]"

definition glob_dir :: "machine \<Rightarrow> path \<Rightarrow> string \<Rightarrow> path list" where
  "glob_dir m base pat = map (\<lambda>(name, _). base @ [name])
     (filter (\<lambda>(name, _). str_contains (to_lowercase name) pat) (unwrap_or (m_read_dir m base) []))"

definition common_paths :: "machine \<Rightarrow> path list" where
  "common_paths m =
     (case m_env m ''ProgramFiles'' of Some pf \<Rightarrow> glob_dir m (m_path m pf) ''ida'' | None \<Rightarrow> [])
     @ (case m_env m ''ProgramFiles(x86)'' of Some pf \<Rightarrow> glob_dir m (m_path m pf) ''ida'' | None \<Rightarrow> [])
     @ (case m_env m ''LOCALAPPDATA'' of Some lad \<Rightarrow> glob_dir m (m_path m lad @ [''Programs'']) ''ida'' | None \<Rightarrow> [])
     @ (case home_dir m of Some h \<Rightarrow> glob_dir m h ''ida'' | None \<Rightarrow> [])"

definition trim_matches :: "char \<Rightarrow> string \<Rightarrow> string" where
  "trim_matches c s = rev (dropWhile (\<lambda>x. x = c) (rev (dropWhile (\<lambda>x. x = c) s)))"

text \<open>With no current directory the second base is the empty path, under which nothing can be read.\<close>

definition reg_hint_candidates :: "machine \<Rightarrow> path list" where
  "reg_hint_candidates m =
     concat (map (\<lambda>base.
       (case m_read_to_string m (base @ [''ida.reg'']) of
          Some raw \<Rightarrow> List.map_filter (\<lambda>line0.
            let line = trim_matches (CHR 0x22) (trim line0) in
            Option.bind (strip_prefix line ''Root='') (\<lambda>val.
              let p = m_path m (trim_matches (CHR 0x22) (trim val)) in
              if is_valid_ida_dir m p then Some p else None)) (str_lines raw)
        | None \<Rightarrow> [])
       @ filter (\<lambda>c. m_is_file m (c @ [''ida.reg'']) \<and> is_valid_ida_dir m c) (base # take 1 (ancestors base)))
     (m_exe_dir m # (case m_cwd m of Some c \<Rightarrow> [c] | None \<Rightarrow> [])))"

section \<open>The drive scan\<close>

definition SCAN_MAX_DEPTH :: nat where
  "SCAN_MAX_DEPTH = 3"

definition SCAN_CACHE_TTL :: nat where
  "SCAN_CACHE_TTL = 24 * 3600"

definition skipped_dir :: "string \<Rightarrow> bool" where
  "skipped_dir name \<longleftrightarrow> starts_with name ''$'' \<or> name = ''windows'' \<or> name = ''system volume information''"

function scan_dir :: "machine \<Rightarrow> path \<Rightarrow> nat \<Rightarrow> path option" where
  "scan_dir m dir depth =
     (if depth > SCAN_MAX_DEPTH \<or> is_valid_ida_dir m dir
      then (if is_valid_ida_dir m dir then Some dir else None)
      else case m_read_dir m dir of
        None \<Rightarrow> None
      | Some entries \<Rightarrow> find_map (\<lambda>(name, is_dir).
          if \<not> is_dir \<or> skipped_dir (to_lowercase name) then None
          else scan_dir m (dir @ [name]) (depth + 1)) entries)"
  by pat_completeness auto
termination
  by (relation "measure (\<lambda>(m, dir, depth). 4 - depth)") (auto simp: SCAN_MAX_DEPTH_def)

declare scan_dir.simps [simp del]

definition drive_roots :: "path list" where
  "drive_roots = [[]]"

definition scan_drives :: "machine \<Rightarrow> path option" where
  "scan_drives m = find_map (\<lambda>root. scan_dir m root 0) drive_roots"

text \<open>
  The scan answers from the cache file while it is fresh; \<open>m_cached_scan\<close> is its directory and
  its age in seconds, as far as the file can be read and decoded and its time lies in the past.
\<close>

definition cached_drive_scan :: "machine \<Rightarrow> path option" where
  "cached_drive_scan m =
     (case m_cached_scan m of
        Some (dir, age) \<Rightarrow> if age < SCAN_CACHE_TTL \<and> is_valid_ida_dir m dir then Some dir else scan_drives m
      | None \<Rightarrow> scan_drives m)"

section \<open>All installations and the selection\<close>

definition push_install ::
  "machine \<Rightarrow> path \<times> discovery_source \<times> string option \<Rightarrow> ida_installation list \<times> path list \<Rightarrow> ida_installation list \<times> path list"
where
  "push_install m cand acc =
     (let (root, source, hint) = cand; (out, seen) = acc; canonical = unwrap_or (m_canonicalize m root) root in
      if canonical \<in> set seen then acc
      else case validate_install m root source hint of
        Inr inst \<Rightarrow> (out @ [inst], seen @ [canonical])
      | Inl _ \<Rightarrow> acc)"

definition env_candidates :: "machine \<Rightarrow> (path \<times> discovery_source \<times> string option) list" where
  "env_candidates m = (case m_env m ''IDADIR'' of
       Some s \<Rightarrow> map (\<lambda>d. (d, SrcEnvVar, None)) (m_path m s # take 2 (ancestors (m_path m s)))
     | None \<Rightarrow> [])"

definition candidate_list :: "machine \<Rightarrow> (path \<times> discovery_source \<times> string option) list" where
  "candidate_list m =
     env_candidates m
     @ map (\<lambda>d. (d, SrcConfig, None)) (ida_config_dirs m)
     @ map (\<lambda>(d, hint). (d, SrcOsNative, hint)) (os_native_candidates m)
     @ map (\<lambda>d. (d, SrcCommonPaths, None)) (common_paths m)
     @ map (\<lambda>d. (d, SrcRegHint, None)) (reg_hint_candidates m)
     @ (case cached_drive_scan m of Some d \<Rightarrow> [(d, SrcDriveScan, None)] | None \<Rightarrow> [])"

text \<open>\<open>sort_by_key\<close> with \<open>Reverse(version)\<close>: stable, highest version first.\<close>

definition sort_desc :: "ida_installation list \<Rightarrow> ida_installation list" where
  "sort_desc xs = rev (sort_key in_version (rev xs))"

definition discover_all :: "machine \<Rightarrow> path option \<Rightarrow> ida_installation list" where
  "discover_all m explicit =
     (let acc = (case explicit of Some d \<Rightarrow> push_install m (d, SrcExplicit, None) ([], []) | None \<Rightarrow> ([], [])) in
      if fst acc \<noteq> [] then fst acc
      else sort_desc (fst (foldl (\<lambda>acc c. push_install m c acc) acc (candidate_list m))))"

text \<open>\<open>Iterator::max_by_key\<close>: the last of the greatest elements.\<close>

definition max_by_key :: "('a \<Rightarrow> 'k::linorder) \<Rightarrow> 'a list \<Rightarrow> 'a option" where
  "max_by_key key xs = foldl (\<lambda>acc x. case acc of
       None \<Rightarrow> Some x
     | Some y \<Rightarrow> if key y \<le> key x then Some x else Some y) None xs"

fun status_debug :: "backend_status \<Rightarrow> string" where
  "status_debug Ready = ''Ready''"
| "status_debug AvailableUnverified = ''AvailableUnverified''"
| "status_debug Unavailable = ''Unavailable''"

definition resolve_with :: "machine \<Rightarrow> path option \<Rightarrow> ida_requirement \<Rightarrow> ida_installation result" where
  "resolve_with m explicit requirement =
     (let all = discover_all m explicit;
          matching = filter (\<lambda>i. requirement_matches requirement (in_version i)) all;
          text = (\<lambda>i. ''IDA '' @ version_to_string (in_version i) @ '' ('' @ display_path (in_root i) @ '')'')
      in if all = [] then Inl (IdaNotFound ''no IDA installation found on this machine'')
      else if matching = [] then
        Inl (IdaVersionMismatch (join ''; '' (map text all))
          (''requirement '' @ quoted (requirement_display requirement) @ '' matched none of ''
             @ show_nat (length all) @ '' installed version(s)''))
      else ok_or
        (case max_by_key in_version (filter backend_ready matching) of
           Some b \<Rightarrow> Some b
         | None \<Rightarrow> if rq_latest requirement then max_by_key in_version matching else None)
        (CapabilityUnavailable ''idalib''
            (''requirement '' @ quoted (requirement_display requirement) @ '' matched ''
             @ join ''; '' (map (\<lambda>i. text i @ '', backend: '' @ status_debug (in_backend i)) matching)
             @ '' but no verified backend ships for it (verified: '' @ join '', '' verified_keys
             @ ''); pick another version or extend the backend registry'')))"

definition resolve :: "machine \<Rightarrow> ida_requirement \<Rightarrow> ida_installation result" where
  "resolve m requirement = resolve_with m None requirement"

definition discover :: "machine \<Rightarrow> path option \<Rightarrow> (path \<times> string) result" where
  "discover m explicit = rbind (requirement_parse ''latest'') (\<lambda>r.
     rmap (\<lambda>i. (in_root i, source_as_str (in_source i))) (resolve_with m explicit r))"


section \<open>Version texts\<close>

lemma parse_u32_show: "parse_u32 (show_u32 x) = Some x"
proof -
  have "unat x < 2 ^ 32" using unsigned_less [of x] by simp
  then show ?thesis using from_str_radix_show [of 10 "unat x" 32] by (simp add: parse_u32_def)
qed

lemma split_char_notin: "sep \<notin> set s \<Longrightarrow> split_char sep s = [s]"
  by (induction s) auto

lemma split_char_app: "sep \<notin> set s \<Longrightarrow> split_char sep (s @ sep # t) = s # split_char sep t"
  by (induction s) auto

lemma show_chars:
  assumes "c \<in> set (show_u32 x)"
  shows "c \<noteq> CHR ''.''" "c \<noteq> CHR '',''" "c \<noteq> CHR ''>''" "c \<noteq> CHR ''<''" "c \<noteq> CHR ''=''" "\<not> is_ws c"
  using show_radix10_digit [OF assms] show_radix_no_ws [of 10 c] assms by auto

lemma version_string_ws: "c \<in> set (version_to_string v) \<Longrightarrow> \<not> is_ws c"
  by (auto simp: version_to_string_def is_ws_def dest: show_chars(6) split: if_splits)

lemma version_string_comma: "CHR '','' \<notin> set (version_to_string v)"
  by (auto simp: version_to_string_def dest: show_chars(2) split: if_splits)

lemma trim_show: "trim (show_u32 x) = show_u32 x"
  by (rule trim_no_ws) (auto dest: show_chars(6))

lemma version_parse_show: "version_parse (version_to_string v) = Some v"
proof -
  have dot: "CHR ''.'' \<notin> set (show_u32 x)" for x by (auto dest: show_chars(1))
  have t: "trim (version_to_string v) = version_to_string v"
    by (rule trim_no_ws) (auto dest: version_string_ws)
  show ?thesis
  proof (cases "v_build v = 0")
    case True
    then show ?thesis
      using t by (cases v) (simp add: version_parse_def version_to_string_def split_char_app split_char_notin dot trim_show
          parse_u32_show)
  next
    case False
    then show ?thesis
      using t by (cases v) (simp add: version_parse_def version_to_string_def split_char_app split_char_notin dot trim_show
          parse_u32_show)
  qed
qed

lemma trim_prefixed: "\<not> is_ws c \<Longrightarrow> trim (c # version_to_string v) = c # version_to_string v"
  by (rule trim_no_ws) (auto dest: version_string_ws)

section \<open>Greatest elements\<close>

lemma max_by_key_snoc:
  "max_by_key key (xs @ [x]) = Some (case max_by_key key xs of
     None \<Rightarrow> x | Some y \<Rightarrow> if key y \<le> key x then x else y)"
  by (simp add: max_by_key_def split: option.splits)

lemma max_by_key_Nil [simp]: "max_by_key key [] = None"
  by (simp add: max_by_key_def)

lemma max_by_key_None [simp]: "max_by_key key xs = None \<longleftrightarrow> xs = []"
  by (cases xs rule: rev_cases) (simp_all add: max_by_key_snoc)

lemma max_by_key_SomeD: "max_by_key key xs = Some y \<Longrightarrow> y \<in> set xs \<and> (\<forall>x \<in> set xs. key x \<le> key y)"
proof (induction xs arbitrary: y rule: rev_induct)
  case (snoc x xs)
  then show ?case by (auto simp: max_by_key_snoc split: option.splits if_splits)
qed (simp add: max_by_key_def)

section \<open>What discovery lists\<close>

lemma validate_InrD:
  "validate_install m root src hint = Inr i \<Longrightarrow>
     is_valid_ida_dir m root \<and> in_root i = root \<and> in_source i = src \<and> in_backend i = backend_status_of (in_version i)"
  by (auto simp: validate_install_def Let_def is_valid_ida_dir_def split: if_splits)

definition canonical_root :: "machine \<Rightarrow> ida_installation \<Rightarrow> path" where
  "canonical_root m i = unwrap_or (m_canonicalize m (in_root i)) (in_root i)"

definition listed_ok :: "machine \<Rightarrow> ida_installation list \<times> path list \<Rightarrow> bool" where
  "listed_ok m acc \<longleftrightarrow> snd acc = map (canonical_root m) (fst acc) \<and> distinct (snd acc) \<and>
     (\<forall>i \<in> set (fst acc). is_valid_ida_dir m (in_root i) \<and> in_backend i = backend_status_of (in_version i))"

lemma listed_ok_nil: "listed_ok m ([], [])"
  by (simp add: listed_ok_def)

lemma listed_ok_push: "listed_ok m acc \<Longrightarrow> listed_ok m (push_install m c acc)"
  by (cases c; cases acc)
    (auto simp: push_install_def listed_ok_def canonical_root_def Let_def split: sum.splits dest!: validate_InrD)

lemma listed_ok_fold: "listed_ok m acc \<Longrightarrow> listed_ok m (foldl (\<lambda>acc c. push_install m c acc) acc cs)"
  by (induction cs arbitrary: acc) (simp_all add: listed_ok_push)

lemma listed_ok_explicit:
  "listed_ok m (case explicit of Some d \<Rightarrow> push_install m (d, SrcExplicit, None) ([], []) | None \<Rightarrow> ([], []))"
  by (cases explicit) (simp_all add: listed_ok_push listed_ok_nil)

lemma discover_all_ok:
  "distinct (map (canonical_root m) (discover_all m explicit)) \<and>
   (\<forall>i \<in> set (discover_all m explicit). is_valid_ida_dir m (in_root i) \<and> in_backend i = backend_status_of (in_version i))"
proof -
  define acc where "acc = (case explicit of Some d \<Rightarrow> push_install m (d, SrcExplicit, None) ([], []) | None \<Rightarrow> ([], []))"
  have ok: "listed_ok m acc" unfolding acc_def by (rule listed_ok_explicit)
  note fo = listed_ok_fold [OF ok, of "candidate_list m"]
  have perm: "distinct (map (canonical_root m) (sort_desc xs)) = distinct (map (canonical_root m) xs)" for xs
    by (simp add: sort_desc_def distinct_map rev_map [symmetric])
  show ?thesis
    using ok fo perm by (simp add: discover_all_def acc_def [symmetric] Let_def listed_ok_def)
      (auto simp: sort_desc_def)
qed

lemma backend_status_ready: "backend_status_of v = Ready \<longleftrightarrow> is_verified (backend_key v)"
  by (simp add: backend_status_of_def is_verified_def split: option.splits)

lemma resolve_unfold:
  "resolve_with m explicit req = Inr i \<longleftrightarrow>
     (let matching = filter (\<lambda>i. requirement_matches req (in_version i)) (discover_all m explicit);
          ready = filter backend_ready matching
      in max_by_key in_version ready = Some i \<or> ready = [] \<and> rq_latest req \<and> max_by_key in_version matching = Some i)"
proof (cases "filter (\<lambda>i. requirement_matches req (in_version i)) (discover_all m explicit) = []")
  case True
  then have "\<nexists>i. resolve_with m explicit req = Inr i" by (auto simp: resolve_with_def Let_def)
  with True show ?thesis by (simp only: Let_def filter.simps) (simp add: max_by_key_def)
next
  case False
  then have "discover_all m explicit \<noteq> []" by auto
  with False show ?thesis
    by (simp only: resolve_with_def Let_def if_False ok_or_eq_Inr) (auto split: option.splits simp del: filter_filter)
qed

lemma explicit_dir_is_used:
  assumes "is_valid_ida_dir m d"
  shows "\<exists>i. discover_all m (Some d) = [i] \<and> in_root i = d"
proof -
  obtain i where i: "validate_install m d SrcExplicit None = Inr i"
    using assms by (auto simp: validate_install_def is_valid_ida_dir_def Let_def)
  from validate_InrD [OF i] i show ?thesis by (simp add: discover_all_def push_install_def Let_def)
qed

text \<open>
  C40: the installation a request is resolved to is one of the discovered ones, is a valid IDA directory and satisfies
  the requirement; when an explicit directory is given and valid, it is that one. A strict requirement (any but the
  latest) gets an installation with a verified backend, and no matching one with a verified backend has a higher
  version. A request for the latest gets an installation with a verified backend whenever a discovered one has it, and
  may get an unverified one otherwise; which of several it gets is not stated. Resolution succeeds exactly when a
  matching installation has a verified backend, or any installation matches and the request is for the latest.
\<close>

theorem resolve_selects_verified_match:
  "(\<forall>i. resolve_with m explicit req = Inr i \<longrightarrow>
      i \<in> set (discover_all m explicit) \<and> is_valid_ida_dir m (in_root i) \<and> requirement_matches req (in_version i) \<and>
      (\<forall>d. explicit = Some d \<and> is_valid_ida_dir m d \<longrightarrow> in_root i = d) \<and>
      (\<not> rq_latest req \<longrightarrow> is_verified (backend_key (in_version i)) \<and>
         (\<forall>j \<in> set (discover_all m explicit). requirement_matches req (in_version j) \<and>
            is_verified (backend_key (in_version j)) \<longrightarrow> in_version j \<le> in_version i)) \<and>
      ((\<exists>j \<in> set (discover_all m explicit). requirement_matches req (in_version j) \<and>
         is_verified (backend_key (in_version j))) \<longrightarrow> is_verified (backend_key (in_version i)))) \<and>
   ((\<exists>i. resolve_with m explicit req = Inr i) \<longleftrightarrow>
      (\<exists>j \<in> set (discover_all m explicit). requirement_matches req (in_version j) \<and>
         (is_verified (backend_key (in_version j)) \<or> rq_latest req)))"
proof -
  let ?all = "discover_all m explicit"
  let ?m = "filter (\<lambda>i. requirement_matches req (in_version i)) ?all"
  have rdy: "backend_ready j = is_verified (backend_key (in_version j))" if "j \<in> set ?all" for j
    using that discover_all_ok [of m explicit] by (simp add: backend_ready_def backend_status_ready)
  have sound: "i \<in> set ?all \<and> is_valid_ida_dir m (in_root i) \<and> requirement_matches req (in_version i) \<and>
      (\<forall>d. explicit = Some d \<and> is_valid_ida_dir m d \<longrightarrow> in_root i = d) \<and>
      (\<not> rq_latest req \<longrightarrow> is_verified (backend_key (in_version i)) \<and>
         (\<forall>j \<in> set ?all. requirement_matches req (in_version j) \<and> is_verified (backend_key (in_version j)) \<longrightarrow>
            in_version j \<le> in_version i)) \<and>
      ((\<exists>j \<in> set ?all. requirement_matches req (in_version j) \<and> is_verified (backend_key (in_version j))) \<longrightarrow>
         is_verified (backend_key (in_version i)))"
    if r: "resolve_with m explicit req = Inr i" for i
  proof -
    have dir: "\<forall>d. explicit = Some d \<and> is_valid_ida_dir m d \<longrightarrow> in_root i = d" if "i \<in> set ?all"
      using that explicit_dir_is_used [of m] by fastforce
    from r consider "max_by_key in_version (filter backend_ready ?m) = Some i"
      | "filter backend_ready ?m = []" "rq_latest req" "max_by_key in_version ?m = Some i"
      unfolding resolve_unfold Let_def by blast
    then show ?thesis
    proof cases
      case 1
      from max_by_key_SomeD [OF this] show ?thesis using rdy dir discover_all_ok [of m explicit] by auto
    next
      case 2
      from max_by_key_SomeD [OF 2(3)] 2(1, 2) show ?thesis
        using rdy dir discover_all_ok [of m explicit] by (auto simp: filter_empty_conv)
    qed
  qed
  have live: "(\<exists>i. resolve_with m explicit req = Inr i) \<longleftrightarrow>
      (\<exists>j \<in> set ?all. requirement_matches req (in_version j) \<and> (is_verified (backend_key (in_version j)) \<or> rq_latest req))"
    (is "?l \<longleftrightarrow> ?r")
  proof
    assume ?r
    then obtain j where j: "j \<in> set ?m" "backend_ready j \<or> rq_latest req" using rdy by auto
    show ?l
    proof (cases "filter backend_ready ?m = []")
      case True
      with j have "rq_latest req" "?m \<noteq> []" by (auto simp: filter_empty_conv)
      then obtain i where "max_by_key in_version ?m = Some i" by (cases "max_by_key in_version ?m") auto
      with True \<open>rq_latest req\<close> show ?l by (auto simp: resolve_unfold Let_def)
    next
      case False
      then obtain i where "max_by_key in_version (filter backend_ready ?m) = Some i"
        by (cases "max_by_key in_version (filter backend_ready ?m)") auto
      then show ?l by (auto simp: resolve_unfold Let_def)
    qed
  qed (use sound in blast)
  from sound live show ?thesis by blast
qed

definition sample_machine :: machine where
  "sample_machine = \<lparr>m_path = (\<lambda>s. [s]),
     m_env = (\<lambda>k. if k = ''PATH'' then Some ''ida-9.2:ida-9.3:ida-9.4'' else if k = ''IDADIR'' then Some ''ida-pro-9.4'' else None),
     m_is_file = (\<lambda>p. length p = 2 \<and> hd p \<in> {''ida-9.2'', ''ida-9.3'', ''ida-9.4'', ''ida-pro-9.4''} \<and>
                        last p \<in> {''ida'', ''libida.so'', ''libidalib.so''}),
     m_canonicalize = Some, m_read_dir = (\<lambda>_. None), m_read_to_string = (\<lambda>_. None), m_json = (\<lambda>_. None),
     m_cwd = None, m_exe_dir = [''bin''], m_cached_scan = None\<rparr>"

lemmas version_eval = version_from_name_def to_lowercase_def ascii_lower_def is_ascii_digit_def version_candidate_def
  List.map_filter_def parse_u32_def from_str_radix_def parse_digits_def char_digit_def from_digits_def

lemma sample_versions:
  "version_from_name ''ida-9.2'' = Some (Version 9 2 0)" "version_from_name ''ida-9.3'' = Some (Version 9 3 0)"
  "version_from_name ''ida-9.4'' = Some (Version 9 4 0)" "version_from_name ''ida-pro-9.4'' = Some (Version 9 4 0)"
  by (simp_all add: version_eval)

lemma sample_status:
  "backend_status_of (Version 9 2 0) = Ready" "backend_status_of (Version 9 3 0) = Unavailable"
  "backend_status_of (Version 9 4 0) = Ready"
  by (simp_all add: backend_status_of_def manifest_for_def backend_key_def KNOWN_BACKENDS_def text_eval)

definition sample_install :: "string \<Rightarrow> version \<Rightarrow> discovery_source \<Rightarrow> ida_installation" where
  "sample_install s v src = \<lparr>in_root = [s], in_version = v, in_arch = X64, in_idalib = [s, ''libidalib.so''],
     in_ida = [s, ''libida.so''], in_decompilers = [], in_source = src, in_backend = backend_status_of v\<rparr>"

lemma sample_validate:
  "validate_install sample_machine [s] src None = (if s \<in> {''ida-9.2'', ''ida-9.3'', ''ida-9.4'', ''ida-pro-9.4''}
     then Inr (sample_install s (unwrap_or (version_from_name s) (Version 0 0 0)) src)
     else Inl (IdaNotFound (display_path [s] @ '' is not a valid IDA install (missing libida.so or libidalib.so)'')))"
  "validate_install sample_machine [] src None =
     Inl (IdaNotFound (display_path [] @ '' is not a valid IDA install (missing libida.so or libidalib.so)''))"
  by (simp_all add: validate_install_def sample_machine_def runtime_paths_def detect_version_def file_name_def detect_arch_def
      List.map_filter_def Let_def sample_install_def split: option.splits)

lemma sample_candidates:
  "candidate_list sample_machine =
     map (\<lambda>d. (d, SrcEnvVar, None)) [[''ida-pro-9.4''], []] @
     map (\<lambda>d. (d, SrcOsNative, None)) [[''ida-9.2''], [''ida-9.3''], [''ida-9.4''], [''opt'']]"
  by code_simp

lemma sample_canonicalize: "m_canonicalize sample_machine p = Some p"
  by (simp add: sample_machine_def)

lemma version_less_eq: "(Version a b c \<le> Version x y z) = ((a, b, c) \<le> (x, y, z))"
  by (simp add: less_eq_version_def)

lemma sample_discovered:
  "discover_all sample_machine None =
     [sample_install ''ida-pro-9.4'' (Version 9 4 0) SrcEnvVar, sample_install ''ida-9.4'' (Version 9 4 0) SrcOsNative,
      sample_install ''ida-9.3'' (Version 9 3 0) SrcOsNative, sample_install ''ida-9.2'' (Version 9 2 0) SrcOsNative]"
  by (simp add: discover_all_def sample_candidates push_install_def sample_canonicalize sample_validate sample_versions sort_desc_def)
    (simp add: sample_install_def version_less_eq)

lemma sample_requirements:
  "requirement_parse ''>=9.2,<9.4'' = Inr \<lparr>rq_constraints = [AtLeast (Version 9 2 0), Less (Version 9 4 0)], rq_latest = False\<rparr>"
  "requirement_parse ''9.4'' = Inr \<lparr>rq_constraints = [Exact (Version 9 4 0)], rq_latest = False\<rparr>"
  by (simp_all add: requirement_parse_def eq_ignore_ascii_case_def parse_atom_def version_parse_def trim_def is_ws_def version_eval)

text \<open>
  \<open>max_by_key\<close> keeps the last of several installations of the highest version, and the list is
  ordered by source: the one from \<open>IDADIR\<close> loses to one found later on the search path.
\<close>

lemma equal_versions_pick_the_later_source:
  "rbind (requirement_parse ''9.4'') (resolve_with sample_machine None) =
     Inr (sample_install ''ida-9.4'' (Version 9 4 0) SrcOsNative)"
  unfolding sample_requirements rbind.simps resolve_unfold sample_discovered
  by (simp add: requirement_matches_def backend_ready_def max_by_key_def sample_install_def sample_status)

theorem resolve_selects_verified_match_witness:
  "rbind (requirement_parse ''>=9.2,<9.4'') (resolve_with sample_machine None) =
      Inr (sample_install ''ida-9.2'' (Version 9 2 0) SrcOsNative) \<and>
   is_verified (backend_key (Version 9 2 0)) \<and> is_valid_ida_dir sample_machine [''ida-9.2'']"
proof -
  let ?r = "\<lparr>rq_constraints = [AtLeast (Version 9 2 0), Less (Version 9 4 0)], rq_latest = False\<rparr>"
  have r: "resolve_with sample_machine None ?r = Inr (sample_install ''ida-9.2'' (Version 9 2 0) SrcOsNative)"
    unfolding resolve_unfold sample_discovered
    by (simp add: requirement_matches_def backend_ready_def max_by_key_def sample_install_def sample_status)
  from resolve_selects_verified_match [of sample_machine None ?r] r
  have "is_verified (backend_key (Version 9 2 0)) \<and> is_valid_ida_dir sample_machine [''ida-9.2'']"
    by (simp add: sample_install_def)
  with r show ?thesis by (simp add: sample_requirements)
qed

lemma punctuation_not_ws: "\<not> is_ws (CHR ''>'')" "\<not> is_ws (CHR ''<'')" "\<not> is_ws (CHR ''='')" "\<not> is_ws (CHR '','')"
  by (simp_all add: is_ws_def)

lemma version_string_head: obtains c cs where "version_to_string v = c # cs" "is_ascii_digit c"
proof -
  obtain c cs where c: "show_u32 (v_major v) = c # cs" by (cases "show_u32 (v_major v)") auto
  then have "is_ascii_digit c" using show_radix10_digit [of c "unat (v_major v)"] by (simp add: is_ascii_digit_def)
  moreover have "version_to_string v = c # tl (version_to_string v)" using c by (simp add: version_to_string_def)
  ultimately show thesis by (rule that [rotated])
qed

text \<open>
  A requirement means what its text says. Printed versions read back; \<open>>=a,<b\<close> accepts exactly
  the versions whose major and minor numbers lie in that half-open range, a bare version
  exactly those with its major and minor number, whatever their build, and neither falls back
  to the latest.
\<close>

lemma requirement_text_means_range:
  "\<exists>range exact. requirement_parse (''>='' @ version_to_string a @ '',<'' @ version_to_string b) = Inr range \<and>
     requirement_parse (version_to_string a) = Inr exact \<and> \<not> rq_latest range \<and> \<not> rq_latest exact \<and>
     version_parse (version_to_string a) = Some a \<and>
     (\<forall>v. requirement_matches range v = (minor_key a \<le> minor_key v \<and> minor_key v < minor_key b)) \<and>
     (\<forall>v. requirement_matches exact v = (minor_key v = minor_key a))"
proof -
  let ?a = "version_to_string a" and ?b = "version_to_string b"
  have ws: "trim s = s" if "set s \<subseteq> set ?a \<union> set ?b \<union> {CHR ''>'', CHR ''='', CHR ''<'', CHR '',''}" for s
    using that punctuation_not_ws by (intro trim_no_ws) (auto dest!: subsetD version_string_ws)
  have sp: "split_char (CHR '','') (''>='' @ ?a @ '',<'' @ ?b) = [''>='' @ ?a, ''<'' @ ?b]"
    using version_string_comma [of a] version_string_comma [of b]
      split_char_app [of "CHR '',''" "''>='' @ ?a" "''<'' @ ?b"] split_char_notin [of "CHR '',''" "''<'' @ ?b"] by simp
  have sa: "split_char (CHR '','') ?a = [?a]" by (rule split_char_notin [OF version_string_comma])
  obtain c cs where c: "?a = c # cs" "is_ascii_digit c" by (rule version_string_head)
  obtain d ds where d: "?b = d # ds" "is_ascii_digit d" by (rule version_string_head)
  have ne: "c \<noteq> CHR ''>''" "c \<noteq> CHR ''<''" "ascii_lower c \<noteq> ascii_lower (CHR ''l'')" "d \<noteq> CHR ''=''"
    using c(2) d(2) by (auto simp: is_ascii_digit_def ascii_lower_def)
  have w: "trim (''>='' @ ?a @ '',<'' @ ?b) = ''>='' @ ?a @ '',<'' @ ?b" "trim (''>='' @ ?a) = ''>='' @ ?a"
    "trim (''<'' @ ?b) = ''<'' @ ?b" "trim ?a = ?a"
    by (rule ws, force)+
  have atoms: "parse_atom req (''>='' @ ?a) = Inr (AtLeast a)" "parse_atom req (''<'' @ ?b) = Inr (Less b)"
    "parse_atom req ?a = Inr (Exact a)" for req
    using w c d ne version_parse_show [of a] version_parse_show [of b] by (simp_all add: parse_atom_def)
  have 1: "requirement_parse (''>='' @ ?a @ '',<'' @ ?b) = Inr \<lparr>rq_constraints = [AtLeast a, Less b], rq_latest = False\<rparr>"
    unfolding requirement_parse_def w Let_def sp
    by (simp add: eq_ignore_ascii_case_def to_lowercase_def ascii_lower_def atoms [simplified])
  have 2: "requirement_parse ?a = Inr \<lparr>rq_constraints = [Exact a], rq_latest = False\<rparr>"
    unfolding requirement_parse_def w Let_def sa
    using c ne atoms(3) by (simp add: eq_ignore_ascii_case_def to_lowercase_def)
  show ?thesis using 1 2 version_parse_show [of a]
    by (auto simp: requirement_matches_def)
qed
end
