(* ===== verification/Worker_Pool.thy ===== *)
theory Worker_Pool
  imports Discovery Protocol BTree_Map "HOL-Library.Multiset"
begin

text \<open>
  \<open>crates/rmcp-broker/src/worker_pool.rs\<close> and \<open>recovery.rs\<close>: the sessions of the broker, how one is
  opened, closed and recovered after a crash, and the pump that routes the answers of a worker.
  A session sits behind an \<open>Arc\<close>, so the pool lists addresses into a heap of sessions that only
  grows. What a started process does (its hello frame, its answers) and what the machine holds
  is the record \<open>host\<close>; recovery, which waits between attempts, sees one host per attempt.
\<close>

section \<open>Lifecycle data\<close>

datatype worker_health = Healthy | Crashed | Recovering | Dead

record restart_policy =
  max_restarts :: u32
  backoff :: nat

definition default_policy :: restart_policy where
  "default_policy = \<lparr>max_restarts = 3, backoff = 200\<rparr>"

record session_meta =
  sm_db_path :: string
  sm_backend_kind :: string
  sm_ida_version :: string

record error_like =
  el_code :: string
  el_message :: string

datatype call_failure =
    Operation error_like
  | UnknownOutcome string
  | NotSent string
  | TimedOut

definition failure_of_error :: "error \<Rightarrow> call_failure" where
  "failure_of_error e = Operation \<lparr>el_code = code e, el_message = error_to_string e\<rparr>"

definition classify_send_failure :: "bool \<Rightarrow> string \<Rightarrow> call_failure" where
  "classify_send_failure sent why = (if sent then UnknownOutcome why else NotSent why)"

definition is_mutation :: "string \<Rightarrow> bool" where
  "is_mutation method \<longleftrightarrow> method \<in> {''rename'', ''set_comment'', ''set_type'', ''patch_bytes'', ''run_plugin''}"

section \<open>Sessions and calls\<close>

record worker_session =
  ws_tx :: "usize option"
  ws_hello :: worker_hello
  ws_db_path :: "string option"
  ws_meta :: "session_meta option"
  ws_health :: worker_health
  ws_restart_failures :: u32

definition mark_crashed :: "worker_session \<Rightarrow> worker_session" where
  "mark_crashed s = s\<lparr>ws_tx := None, ws_health := Crashed\<rparr>"

text \<open>Durations are milliseconds.\<close>

definition clamp_ms :: "u64 \<Rightarrow> nat" where
  "clamp_ms ms = max 5000 (min (unat ms) 1800000)"

definition call_timeout :: "json \<Rightarrow> nat \<Rightarrow> nat" where
  "call_timeout p dflt = (case Option.bind (jget p ''timeout_ms'') as_u64 of
     Some ms \<Rightarrow> clamp_ms ms | None \<Rightarrow> dflt)"

text \<open>
  How a call on an open channel ends: the pump is gone before it takes the request, the answer
  arrives, the answer's sender is dropped, or the time is up.
\<close>

datatype call_outcome = SendFailed | Answered "json result" | SenderDropped | Elapsed

definition call_with_timeout :: "(string \<Rightarrow> json \<Rightarrow> nat \<Rightarrow> call_outcome) \<Rightarrow> worker_session \<Rightarrow> string \<Rightarrow> json \<Rightarrow> nat \<Rightarrow> json result" where
  "call_with_timeout channel s method p dflt =
     (let timeout = call_timeout p dflt in
      case ws_tx s of
        None \<Rightarrow> Inl (Worker ''worker is dead; close and reopen the db'')
      | Some _ \<Rightarrow> (case channel method p timeout of
            SendFailed \<Rightarrow> Inl (Worker ''worker request channel closed'')
          | Answered v \<Rightarrow> v
          | SenderDropped \<Rightarrow> Inl (Worker ''worker dropped response (crashed?)'')
          | Elapsed \<Rightarrow> Inl (Worker (''worker timed out after '' @ show_nat (timeout div 1000)
              @ ''s (budget: the agent may pass timeout_ms, 5000..1800000)''))))"

definition call :: "(string \<Rightarrow> json \<Rightarrow> nat \<Rightarrow> call_outcome) \<Rightarrow> worker_session \<Rightarrow> string \<Rightarrow> json \<Rightarrow> json result" where
  "call channel s method p = call_with_timeout channel s method p 120000"

section \<open>The pool\<close>

record pool =
  pl_sessions :: "(string \<times> usize) list"
  pl_heap :: "worker_session list"
  pl_worker_exe :: "path option"
  pl_worker_exe_error :: "string option"
  pl_ida_dir :: "path option"
  pl_idalib_feature :: "bool option"

definition pool_new :: pool where
  "pool_new = \<lparr>pl_sessions = [], pl_heap = [], pl_worker_exe = None, pl_worker_exe_error = None,
     pl_ida_dir = None, pl_idalib_feature = None\<rparr>"

text \<open>
  What a freshly started worker process does: no process, no pipes, or the fate of its hello
  frame within 120 seconds together with how it serves calls.
\<close>

datatype hello_outcome = Hello worker_hello | HelloEof | HelloBad error | HelloLate

datatype launch =
    SpawnError string
  | NoStdin
  | NoStdout
  | Started hello_outcome "string \<Rightarrow> json \<Rightarrow> nat \<Rightarrow> call_outcome"

record host =
  ho_machine :: machine
  ho_probing :: bool
  ho_worker_exe_env :: "string option"
  ho_current_exe :: "path option"
  ho_exists :: "path \<Rightarrow> bool"
  ho_probe :: "path option \<Rightarrow> path \<Rightarrow> string \<Rightarrow> (bool \<times> string) option"
  ho_launch :: "path \<Rightarrow> path option \<Rightarrow> launch"

definition runtime_libraries :: "string list" where
  "runtime_libraries = [''libida.so'', ''libidalib.so'']"

definition worker_exe_name :: string where
  "worker_exe_name = ''reverse-mcp''"

definition diagnose_dead_worker :: "host \<Rightarrow> path option \<Rightarrow> error" where
  "diagnose_dead_worker ho ida_dir =
     (let hint = (case ida_dir of
          Some dir \<Rightarrow>
            (let missing = filter (\<lambda>d. \<not> ho_exists ho (dir @ [d])) runtime_libraries in
             if missing = [] then ''IDA runtime libraries found in '' @ display_path dir
               @ '' but the worker still died at startup; verify the install is complete and matches this build''
             else ''IDA runtime libraries missing from '' @ display_path dir @ '': '' @ join '', '' missing
               @ ''; set IDADIR or add the IDA install dir to PATH'')
        | None \<Rightarrow> ''IDA runtime libraries not found on PATH; set IDADIR or add the IDA install dir to PATH'')
      in CapabilityUnavailable ''idalib'' (hint @ '' (worker exited before protocol handshake)''))"

text \<open>The IDA directory \<open>probe_command\<close> puts on the search path of a probe.\<close>

definition probe_ida_dir :: "host \<Rightarrow> pool \<Rightarrow> path option" where
  "probe_ida_dir ho pl = (case pl_ida_dir pl of
       Some d \<Rightarrow> Some d
     | None \<Rightarrow> map_option (m_path (ho_machine ho)) (m_env (ho_machine ho) ''IDADIR''))"

definition exe_candidates :: "host \<Rightarrow> path list" where
  "exe_candidates ho =
     (case ho_current_exe ho of Some c \<Rightarrow> [c] | None \<Rightarrow> [])
     @ [m_exe_dir (ho_machine ho) @ [worker_exe_name]]
     @ (case parent (m_exe_dir (ho_machine ho)) of Some p \<Rightarrow> [p @ [worker_exe_name]] | None \<Rightarrow> [])"

definition ensure_worker_exe :: "host \<Rightarrow> pool \<Rightarrow> path result \<times> pool" where
  "ensure_worker_exe ho pl =
     (if ho_probing ho then (Inl (Worker ''re-entrant worker probe''), pl)
      else case pl_worker_exe pl of
        Some p \<Rightarrow> (Inr p, pl)
      | None \<Rightarrow>
          (case (case ho_worker_exe_env ho of
                   Some s \<Rightarrow> (let p = m_path (ho_machine ho) s in if m_is_file (ho_machine ho) p then Some p else None)
                 | None \<Rightarrow> None) of
             Some p \<Rightarrow> (Inr p, pl\<lparr>pl_worker_exe := Some p\<rparr>)
           | None \<Rightarrow>
               (case find (\<lambda>c. case ho_probe ho (probe_ida_dir ho pl) c ''mock'' of
                                Some (success, _) \<Rightarrow> success | None \<Rightarrow> False) (exe_candidates ho) of
                  Some c \<Rightarrow> (Inr c, pl\<lparr>pl_worker_exe := Some c\<rparr>)
                | None \<Rightarrow>
                    (let msg = ''no worker-capable exe found (expected reverse-mcp with `worker` subcommand)''
                     in (Inl (Worker msg), pl\<lparr>pl_worker_exe_error := Some msg\<rparr>)))))"

definition worker_has_idalib_feature :: "host \<Rightarrow> pool \<Rightarrow> bool \<times> pool" where
  "worker_has_idalib_feature ho pl = (case pl_idalib_feature pl of
       Some flag \<Rightarrow> (flag, pl)
     | None \<Rightarrow>
         (let detected = (case Option.bind (pl_worker_exe pl)
                            (\<lambda>exe. ho_probe ho (probe_ida_dir ho pl) exe ''idalib'') of
                Some (_, out) \<Rightarrow> trim out = ''idalib'' | None \<Rightarrow> False)
          in (detected, pl\<lparr>pl_idalib_feature := Some detected\<rparr>)))"

definition set_ida_dir :: "path \<Rightarrow> pool \<Rightarrow> pool" where
  "set_ida_dir dir pl = pl\<lparr>pl_ida_dir := Some dir\<rparr>"

definition session :: "pool \<Rightarrow> string \<Rightarrow> usize option" where
  "session pl db = map_option snd (find (\<lambda>(h, _). h = db) (pl_sessions pl))"

definition list_sessions :: "pool \<Rightarrow> (string \<times> string) list" where
  "list_sessions pl = map (\<lambda>(h, a). (h, unwrap_or (ws_db_path (pl_heap pl ! a)) [])) (pl_sessions pl)"

definition health :: "pool \<Rightarrow> string \<Rightarrow> worker_health result" where
  "health pl db = rmap (\<lambda>a. ws_health (pl_heap pl ! a)) (ok_or (session pl db) (UnknownDb db))"

section \<open>Opening a session\<close>

text \<open>Which IDA directory and which backend a worker is started with.\<close>

definition choose_backend :: "host \<Rightarrow> string \<Rightarrow> string \<Rightarrow> pool \<Rightarrow> (path option \<times> string) result \<times> pool" where
  "choose_backend ho backend_kind ida_version pl =
     (let (skip, pl1) = (if backend_kind = ''mock'' then (True, pl)
            else if backend_kind = ''auto'' then (let (f, pl') = worker_has_idalib_feature ho pl in (\<not> f, pl'))
            else (False, pl))
      in if skip then (Inr (None, ''mock''), pl1)
      else case requirement_parse ida_version of
        Inl e \<Rightarrow> (Inl e, pl1)
      | Inr requirement \<Rightarrow>
          (case (case pl_ida_dir pl1 of
                   Some d \<Rightarrow> resolve_with (ho_machine ho) (Some d) requirement
                 | None \<Rightarrow> resolve (ho_machine ho) requirement) of
             Inl e \<Rightarrow> (Inl e, pl1)
           | Inr install \<Rightarrow>
               if backend_kind = ''idalib'' \<and> \<not> backend_ready install then
                 (Inl (CapabilityUnavailable ''idalib'' (''IDA '' @ version_to_string (in_version install)
                    @ '' is installed but no verified backend ships for it (verified: '' @ join '', '' verified_keys
                    @ ''); pick another version or upgrade reverse-mcp'')), pl1)
               else if backend_kind = ''auto'' then
                 (if backend_ready install
                  then (let (f, pl2) = worker_has_idalib_feature ho pl1
                        in (Inr (Some (in_root install), if f then ''idalib'' else ''mock''), pl2))
                  else (Inr (Some (in_root install), ''mock''), pl1))
               else (Inr (Some (in_root install), backend_kind), pl1)))"

text \<open>The handshake: the hello frame a process must send before anything else.\<close>

definition handshake :: "host \<Rightarrow> path option \<Rightarrow> hello_outcome \<Rightarrow> worker_hello result" where
  "handshake ho ida_dir out = (case out of
       Hello h \<Rightarrow> if h_protocol h \<noteq> PROTOCOL_VERSION
         then Inl (Worker (''worker protocol '' @ show_u32 (h_protocol h) @ '' != broker protocol '' @ show_u32 PROTOCOL_VERSION))
         else Inr h
     | HelloEof \<Rightarrow> Inl (diagnose_dead_worker ho ida_dir)
     | HelloBad e \<Rightarrow> Inl (Worker (''worker hello frame: '' @ error_to_string e))
     | HelloLate \<Rightarrow> Inl (Worker ''worker did not send its hello frame within 120s (startup hung); killed''))"

definition open_budget :: "json \<Rightarrow> nat" where
  "open_budget p = (case Option.bind (jget p ''timeout_ms'') as_u64 of Some ms \<Rightarrow> clamp_ms ms | None \<Rightarrow> 900000)"

definition new_session :: "usize \<Rightarrow> worker_hello \<Rightarrow> string \<Rightarrow> string \<Rightarrow> string \<Rightarrow> worker_session" where
  "new_session ch hello db_path kind ida_version = \<lparr>ws_tx = Some ch, ws_hello = hello, ws_db_path = Some db_path,
     ws_meta = Some \<lparr>sm_db_path = db_path, sm_backend_kind = kind, sm_ida_version = ida_version\<rparr>,
     ws_health = Healthy, ws_restart_failures = 0\<rparr>"

text \<open>Starting the process, the handshake, backend selection and the opening of the database.\<close>

definition start_session :: "host \<Rightarrow> path \<Rightarrow> path option \<Rightarrow> string \<Rightarrow> string \<Rightarrow> string \<Rightarrow> json \<Rightarrow> usize \<Rightarrow> worker_session result" where
  "start_session ho exe ida_dir kind db_path ida_version db_open_params ch =
     (case ho_launch ho exe ida_dir of
        SpawnError e \<Rightarrow> Inl (Worker (''spawn worker: '' @ e))
      | NoStdin \<Rightarrow> Inl (Worker ''no worker stdin'')
      | NoStdout \<Rightarrow> Inl (Worker ''no worker stdout'')
      | Started out channel \<Rightarrow>
          rbind (handshake ho ida_dir out) (\<lambda>hello.
            let s = new_session ch hello db_path kind ida_version; budget = open_budget db_open_params in
            rbind (call_with_timeout channel s ''backend.select'' (JObj [(''kind'', JStr kind)]) budget) (\<lambda>_.
            rbind (call_with_timeout channel s ''db.open'' (JObj [(''path'', JStr db_path)]) budget) (\<lambda>_.
            Inr s))))"

definition spawn_for_with_budget ::
  "host \<Rightarrow> string \<Rightarrow> usize \<Rightarrow> string \<Rightarrow> string \<Rightarrow> json \<Rightarrow> pool \<times> u64 \<Rightarrow> string result \<times> pool \<times> u64"
where
  "spawn_for_with_budget ho db_path max_workers backend_kind ida_version db_open_params st =
     (let (pl, next_id) = st in
      if length (pl_sessions pl) \<ge> max_workers then
        (Inl (Worker (''max_workers='' @ show_nat max_workers @ '' reached; close a database first'')), pl, next_id)
      else case ensure_worker_exe ho pl of
        (Inl e, pl1) \<Rightarrow> (Inl e, pl1, next_id)
      | (Inr exe, pl1) \<Rightarrow>
          (case choose_backend ho backend_kind ida_version pl1 of
             (Inl e, pl2) \<Rightarrow> (Inl e, pl2, next_id)
           | (Inr (ida_dir, kind), pl2) \<Rightarrow>
               (case start_session ho exe ida_dir kind db_path ida_version db_open_params (length (pl_heap pl2)) of
                  Inl e \<Rightarrow> (Inl e, pl2, next_id)
                | Inr s \<Rightarrow>
                    (let (h, next_id') = handle_new ''db'' next_id; handle = handle_to_string h
                     in (Inr handle, pl2\<lparr>pl_sessions := pl_sessions pl2 @ [(handle, length (pl_heap pl2))],
                                        pl_heap := pl_heap pl2 @ [s]\<rparr>, next_id')))))"

definition spawn_for :: "host \<Rightarrow> string \<Rightarrow> usize \<Rightarrow> string \<Rightarrow> string \<Rightarrow> pool \<times> u64 \<Rightarrow> string result \<times> pool \<times> u64" where
  "spawn_for ho db_path max_workers backend_kind ida_version st =
     spawn_for_with_budget ho db_path max_workers backend_kind ida_version (JObj []) st"

section \<open>Closing and recovering\<close>

text \<open>\<open>position\<close>: the index of the first entry for a handle.\<close>

fun position :: "string \<Rightarrow> (string \<times> usize) list \<Rightarrow> usize option" where
  "position db [] = None"
| "position db ((h, _) # xs) = (if h = db then Some 0 else map_option Suc (position db xs))"

definition remove_at :: "usize \<Rightarrow> 'a list \<Rightarrow> 'a list" where
  "remove_at i xs = take i xs @ drop (Suc i) xs"

text \<open>Closing tells the worker to save, close and stop, whatever it answers, and forgets the handle.\<close>

definition close_calls :: "string list" where
  "close_calls = [''db.save'', ''db.close'', ''shutdown'']"

definition close :: "string \<Rightarrow> pool \<Rightarrow> (usize \<times> string list) result \<times> pool" where
  "close db pl = (case position db (pl_sessions pl) of
       None \<Rightarrow> (Inl (UnknownDb db), pl)
     | Some idx \<Rightarrow> (Inr (snd (pl_sessions pl ! idx), close_calls),
                    pl\<lparr>pl_sessions := remove_at idx (pl_sessions pl)\<rparr>))"

definition upd_session :: "usize \<Rightarrow> (worker_session \<Rightarrow> worker_session) \<Rightarrow> pool \<Rightarrow> pool" where
  "upd_session a f pl = pl\<lparr>pl_heap := (pl_heap pl)[a := f (pl_heap pl ! a)]\<rparr>"

text \<open>The slot of the recovered handle takes over the fresh session.\<close>

definition swap_in :: "string \<Rightarrow> string \<Rightarrow> pool \<Rightarrow> unit result \<times> pool" where
  "swap_in db new_handle pl = (case position new_handle (pl_sessions pl) of
       None \<Rightarrow> (Inl (Panic ''just-pushed handle exists''), pl)
     | Some idx \<Rightarrow>
         (let fresh = snd (pl_sessions pl ! idx); rest = remove_at idx (pl_sessions pl) in
          case position db rest of
            None \<Rightarrow> (Inl (Panic ''recovered handle still registered''), pl\<lparr>pl_sessions := rest\<rparr>)
          | Some j \<Rightarrow> (Inr (), pl\<lparr>pl_sessions := rest[j := (db, fresh)]\<rparr>)))"

text \<open>\<open>usize::MAX\<close> of a 64-bit target.\<close>

definition usize_max :: usize where
  "usize_max = 2 ^ 64 - 1"

text \<open>
  The restart loop, attempt by attempt: \<open>hosts k\<close> is the machine as attempt \<open>k\<close> finds it. The counter
  wraps at 32 bits, so whether the loop ends is a question: \<open>None\<close> is a loop that never returns.
  The last component counts the attempts.
\<close>

partial_function (option) recover_loop ::
  "(nat \<Rightarrow> host) \<Rightarrow> string \<Rightarrow> u32 \<Rightarrow> usize \<Rightarrow> session_meta \<Rightarrow> nat \<Rightarrow> pool \<times> u64 \<Rightarrow> (unit result \<times> pool \<times> u64 \<times> nat) option"
where
  "recover_loop hosts db maxr a meta k st =
     (case spawn_for (hosts k) (sm_db_path meta) usize_max (sm_backend_kind meta) (sm_ida_version meta) st of
        (Inr new_handle, pl, next_id) \<Rightarrow> (let (r, pl') = swap_in db new_handle pl in Some (r, pl', next_id, Suc k))
      | (Inl _, pl, next_id) \<Rightarrow>
          (let pl1 = upd_session a (\<lambda>s. s\<lparr>ws_restart_failures := ws_restart_failures s + 1\<rparr>) pl;
               failures = ws_restart_failures (pl_heap pl1 ! a)
           in if failures > maxr
              then Some (Inl (Worker (''worker recovery failed after '' @ show_u32 failures @ '' attempts'')),
                         upd_session a (\<lambda>s. s\<lparr>ws_health := Dead\<rparr>) pl1, next_id, Suc k)
              else recover_loop hosts db maxr a meta (Suc k) (pl1, next_id)))"

definition recover ::
  "(nat \<Rightarrow> host) \<Rightarrow> string \<Rightarrow> restart_policy \<Rightarrow> pool \<times> u64 \<Rightarrow> (unit result \<times> pool \<times> u64 \<times> nat) option"
where
  "recover hosts db policy st =
     (let (pl, next_id) = st in
      case position db (pl_sessions pl) of
        None \<Rightarrow> Some (Inl (UnknownDb db), pl, next_id, 0)
      | Some idx \<Rightarrow>
          (let a = snd (pl_sessions pl ! idx); s = pl_heap pl ! a in
           if ws_health s = Healthy then Some (Inr (), pl, next_id, 0)
           else if ws_health s = Dead
           then Some (Inl (Worker ''worker recovery budget exhausted; close and reopen the db''), pl, next_id, 0)
           else
             (let pl1 = upd_session a (\<lambda>s. s\<lparr>ws_health := Recovering\<rparr>) pl in
              case ws_meta (pl_heap pl1 ! a) of
                None \<Rightarrow> Some (Inl (Worker ''no session metadata; cannot recover''), pl1, next_id, 0)
              | Some meta \<Rightarrow> recover_loop hosts db (max_restarts policy) a meta 0 (pl1, next_id))))"

definition recover_default :: "(nat \<Rightarrow> host) \<Rightarrow> string \<Rightarrow> pool \<times> u64 \<Rightarrow> (unit result \<times> pool \<times> u64 \<times> nat) option" where
  "recover_default hosts db st = recover hosts db default_policy st"

section \<open>Errors across the process boundary\<close>

definition parse_u64 :: "string \<Rightarrow> u64 option" where
  "parse_u64 s = (case parse_u64_radix 10 s of Inl _ \<Rightarrow> None | Inr n \<Rightarrow> Some n)"

definition error_from_code :: "string \<Rightarrow> string \<Rightarrow> error" where
  "error_from_code c message =
     (if c = ''revision_conflict'' then
        unwrap_or
          (Option.bind (strip_prefix message ''revision conflict: expected '') (\<lambda>rest.
           Option.bind (split_once rest '', current '') (\<lambda>(ex, cur).
           Option.bind (parse_u64 (trim ex)) (\<lambda>e.
           Option.bind (parse_u64 (trim cur)) (\<lambda>c.
           Some (RevisionConflict e c))))))
          (Worker message)
      else if c = ''unknown_db'' then
        UnknownDb (unwrap_or
          (Option.bind (strip_prefix message (''db handle '' @ [CHR 0x27])) (\<lambda>s.
             strip_suffix s ([CHR 0x27] @ '' is unknown or closed'')))
          message)
      else if c = ''capability_unavailable'' then
        unwrap_or
          (Option.bind (strip_prefix message ''capability unavailable: '') (\<lambda>rest.
           Option.bind (split_once rest '': '') (\<lambda>(capability, reason).
           Some (CapabilityUnavailable capability reason))))
          (Worker message)
      else if c = ''db_ambiguous'' then DbAmbiguous 0 []
      else Worker message)"

section \<open>The pump\<close>

text \<open>
  What the \<open>select!\<close> of \<open>pump_task\<close> sees: a request with its reply channel, and whether writing it
  succeeds; the request channel closed; a frame from the worker, the end of its output, or a
  frame that cannot be read.
\<close>

datatype pump_event =
    Request worker_request usize bool
  | ChannelClosed
  | Response worker_response
  | Eof
  | FrameError error

record pump =
  pm_pending :: "(u64, usize) hashmap"
  pm_sent :: "(usize \<times> json result) list"
  pm_crash :: "string option"
  pm_running :: bool

definition pump_init :: pump where
  "pump_init = \<lparr>pm_pending = [], pm_sent = [], pm_crash = None, pm_running = True\<rparr>"

definition fail_all :: "string \<Rightarrow> pump \<Rightarrow> pump" where
  "fail_all why p = p\<lparr>pm_pending := [], pm_sent := pm_sent p @ map (\<lambda>(_, back). (back, Inl (Worker why))) (pm_pending p)\<rparr>"

definition response_value :: "worker_response \<Rightarrow> json result" where
  "response_value r = (case rs_result r of
       Some v \<Rightarrow> Inr v
     | None \<Rightarrow> Inl (case rs_error r of
         Some e \<Rightarrow> error_from_code (eb_code e) (eb_message e)
       | None \<Rightarrow> Worker ''worker error''))"

fun pump_step :: "pump_event \<Rightarrow> pump \<Rightarrow> pump" where
  "pump_step (Request req back written) p =
     (let p1 = p\<lparr>pm_pending := hm_insert (rq_id req) back (pm_pending p)\<rparr> in
      if written then p1 else (fail_all ''worker stdin write failed'' p1)\<lparr>pm_running := False\<rparr>)"
| "pump_step ChannelClosed p = p\<lparr>pm_running := False\<rparr>"
| "pump_step (Response r) p = (case map_of (pm_pending p) (rs_id r) of
     Some back \<Rightarrow> p\<lparr>pm_pending := hm_remove (rs_id r) (pm_pending p), pm_sent := pm_sent p @ [(back, response_value r)]\<rparr>
   | None \<Rightarrow> p)"
| "pump_step Eof p = (fail_all ''worker exited unexpectedly'' p)\<lparr>pm_crash := Some ''worker exited unexpectedly'', pm_running := False\<rparr>"
| "pump_step (FrameError e) p =
     (let why = ''worker frame error: '' @ error_to_string e
      in (fail_all why p)\<lparr>pm_crash := Some why, pm_running := False\<rparr>)"

text \<open>The loop: events are taken while it runs.\<close>

fun pump_task :: "pump_event list \<Rightarrow> pump \<Rightarrow> pump" where
  "pump_task [] p = p"
| "pump_task (e # es) p = (if pm_running p then pump_task es (pump_step e p) else p)"

section \<open>Codes that survive the boundary\<close>

lemma split_once_first:
  assumes "\<not> str_contains (a @ butlast sep) sep" "sep \<noteq> []"
  shows "split_once (a @ sep @ b) sep = Some (a, b)"
  using assms(1)
proof (induction a)
  case Nil
  then show ?case using assms(2) by (cases sep) (simp_all add: strip_prefix_Some_iff)
next
  case (Cons c a)
  have "strip_prefix (c # a @ sep @ b) sep = None"
  proof (rule ccontr)
    assume "strip_prefix (c # a @ sep @ b) sep \<noteq> None"
    then obtain r where r: "c # a @ sep @ b = sep @ r" by (auto simp: strip_prefix_Some_iff)
    have "take (length sep) (c # a @ sep @ b) = take (length sep) (c # a @ butlast sep)"
      using assms(2) by (simp add: take_Cons' take_append butlast_conv_take min_def)
    with r have "sep = take (length sep) (c # a @ butlast sep)" by simp
    then have "(c # a) @ butlast sep = [] @ sep @ drop (length sep) ((c # a) @ butlast sep)"
      by (metis append.left_neutral append_Cons append_take_drop_id)
    with Cons.prems show False by (metis str_contains_iff)
  qed
  moreover have "\<not> str_contains (a @ butlast sep) sep" using Cons.prems by simp
  ultimately show ?case using Cons.IH by simp
qed

lemma strip_suffix_append [simp]: "strip_suffix (s @ t) t = Some s"
  by (simp add: strip_suffix_def)

lemma contains_colon: "str_contains (c @ '':'') '': '' = str_contains c '': ''"
proof
  assume "str_contains (c @ '':'') '': ''"
  then obtain a b where ab: "c @ '':'' = a @ '': '' @ b" by (auto simp: str_contains_iff)
  show "str_contains c '': ''"
  proof (cases b rule: rev_cases)
    case (snoc b' x)
    with ab have "c = a @ '': '' @ b'" by simp
    then show ?thesis unfolding str_contains_iff by blast
  qed (use ab in simp)
next
  assume "str_contains c '': ''"
  then show "str_contains (c @ '':'') '': ''" unfolding str_contains_iff by fastforce
qed


lemma revision_conflict_survives:
  "error_from_code ''revision_conflict'' (error_to_string (RevisionConflict e c)) = RevisionConflict e c"
proof -
  have "\<not> str_contains (show_u64 e @ butlast '', current '') '', current ''"
  proof
    assume "str_contains (show_u64 e @ butlast '', current '') '', current ''"
    then obtain a b where ab: "show_u64 e @ '', current'' = a @ '', current '' @ b"
      by (auto simp: str_contains_iff)
    then have "count_list (show_u64 e @ '', current'') (CHR '' '') = count_list (a @ '', current '' @ b) (CHR '' '')"
      by simp
    moreover have "count_list (show_u64 e) (CHR '' '') = 0"
      using show_radix_no_ws [of 10 "CHR '' ''" "unat e"] by (auto simp: count_list_0_iff is_ws_def)
    ultimately show False by simp
  qed
  then have "split_once (show_u64 e @ '', current '' @ show_u64 c) '', current '' = Some (show_u64 e, show_u64 c)"
    using split_once_first [of "show_u64 e" "'', current ''" "show_u64 c"] by simp
  moreover have "parse_u64 (trim (show_u64 x)) = Some x" for x
    by (subst trim_no_ws) (auto dest: show_radix_no_ws [of 10, simplified] simp: parse_u64_def parse_u64_radix_show)
  ultimately show ?thesis
    using strip_prefix_append [of "''revision conflict: expected ''"] by (simp add: error_from_code_def)
qed

lemma unknown_db_survives:
  "error_from_code ''unknown_db'' (error_to_string (UnknownDb h)) = UnknownDb h"
  using strip_prefix_append [of "''db handle '' @ [CHR 0x27]"] strip_suffix_append [of h "[CHR 0x27] @ '' is unknown or closed''"]
  by (simp add: error_from_code_def)

lemma capability_survives:
  "\<not> str_contains cap '': '' \<Longrightarrow>
   error_from_code ''capability_unavailable'' (error_to_string (CapabilityUnavailable cap rsn)) = CapabilityUnavailable cap rsn"
  using split_once_first [of cap "'': ''" rsn] contains_colon [of cap]
  by (simp add: error_from_code_def)

lemma capability_code:
  "code (error_from_code ''capability_unavailable'' (error_to_string (CapabilityUnavailable cap rsn))) = ''capability_unavailable''"
proof -
  have "split_once (s @ '': '' @ t) '': '' \<noteq> None" for s t :: string
    by (induction s) (auto split: option.split)
  from this [of cap rsn] show ?thesis by (auto simp: error_from_code_def)
qed

text \<open>
  The errors agents act on survive the trip through the worker's response frame: a revision
  conflict, an unknown handle and, unless its name contains the separator, an unavailable capability
  come out as they went in; the stable code is kept for these, for ambiguous handles and for
  worker failures, and for no other error.
\<close>

lemma structured_errors_survive:
  "(\<not> str_contains cap '': '' \<longrightarrow>
      response_value (response_err i (CapabilityUnavailable cap rsn)) = Inl (CapabilityUnavailable cap rsn)) \<and>
   response_value (response_err i (RevisionConflict x y)) = Inl (RevisionConflict x y) \<and>
   response_value (response_err i (UnknownDb h)) = Inl (UnknownDb h) \<and>
   (\<exists>e'. response_value (response_err i e) = Inl e' \<and>
      (code e' = code e \<longleftrightarrow>
         code e \<in> {''revision_conflict'', ''unknown_db'', ''capability_unavailable'', ''db_ambiguous'', ''worker_failure''}))"
proof -
  have "code (error_from_code (code e) (error_to_string e)) = code e \<longleftrightarrow>
         code e \<in> {''revision_conflict'', ''unknown_db'', ''capability_unavailable'', ''db_ambiguous'', ''worker_failure''}"
  proof (cases e)
    case (RevisionConflict a b)
    then show ?thesis using revision_conflict_survives by simp
  next
    case (UnknownDb d)
    then show ?thesis using unknown_db_survives by simp
  next
    case (CapabilityUnavailable a b)
    then show ?thesis using capability_code by simp
  qed (simp_all add: error_from_code_def)
  then show ?thesis
    using revision_conflict_survives [of x y] unknown_db_survives [of h] capability_survives [of cap rsn]
    by (simp add: response_value_def response_err_def)
qed

section \<open>Opening adds one session\<close>

abbreviation db_id :: "u64 \<Rightarrow> string" where
  "db_id n \<equiv> handle_to_string \<lparr>prefix_of = ''db'', num = n\<rparr>"

lemma idalib_feature_keeps:
  "pl_sessions (snd (worker_has_idalib_feature ho pl)) = pl_sessions pl"
  "pl_heap (snd (worker_has_idalib_feature ho pl)) = pl_heap pl"
  by (simp_all add: worker_has_idalib_feature_def Let_def split: option.split)

lemma ensure_keeps: "ensure_worker_exe ho pl = (r, pl') \<Longrightarrow> pl_sessions pl' = pl_sessions pl \<and> pl_heap pl' = pl_heap pl"
  by (auto simp: ensure_worker_exe_def Let_def split: if_splits option.splits)

lemma choose_keeps:
  "pl_sessions (snd (choose_backend ho kind ver pl)) = pl_sessions pl \<and> pl_heap (snd (choose_backend ho kind ver pl)) = pl_heap pl"
  by (simp add: choose_backend_def Let_def case_prod_unfold idalib_feature_keeps split: sum.split)

lemma choose_keepsD: "choose_backend ho kind ver pl = (r, pl') \<Longrightarrow> pl_sessions pl' = pl_sessions pl \<and> pl_heap pl' = pl_heap pl"
  using choose_keeps [of ho kind ver pl] by simp

lemma start_session_InrD:
  "start_session ho exe dir kind path ver p ch = Inr s \<Longrightarrow> \<exists>hello. s = new_session ch hello path kind ver"
  by (auto simp: start_session_def Let_def result_simps split: launch.splits)

definition fresh_for :: "session_meta \<Rightarrow> worker_session \<Rightarrow> bool" where
  "fresh_for meta s \<longleftrightarrow> ws_health s = Healthy \<and> ws_restart_failures s = 0 \<and> ws_tx s \<noteq> None \<and>
     ws_db_path s = Some (sm_db_path meta) \<and>
     (\<exists>kind. ws_meta s = Some \<lparr>sm_db_path = sm_db_path meta, sm_backend_kind = kind, sm_ida_version = sm_ida_version meta\<rparr>)"

lemma spawn_cases:
  assumes "spawn_for ho path mx kind ver (pl, next_id) = (r, pl', next')"
  obtains e where "r = Inl e" "pl_sessions pl' = pl_sessions pl" "pl_heap pl' = pl_heap pl" "next' = next_id"
  | s where "r = Inr (db_id next_id)" "pl_sessions pl' = pl_sessions pl @ [(db_id next_id, length (pl_heap pl))]"
      "pl_heap pl' = pl_heap pl @ [s]" "next' = next_id + 1" "length (pl_sessions pl) < mx"
      "\<And>k. fresh_for \<lparr>sm_db_path = path, sm_backend_kind = k, sm_ida_version = ver\<rparr> s"
proof -
  have new: "fresh_for \<lparr>sm_db_path = path, sm_backend_kind = k, sm_ida_version = ver\<rparr> (new_session ch hello path k' ver)"
    for ch hello k k' by (simp add: fresh_for_def new_session_def)
  obtain re pl1 where e: "ensure_worker_exe ho pl = (re, pl1)" by (cases "ensure_worker_exe ho pl")
  note ek = ensure_keeps [OF e]
  obtain rc pl2 where c: "choose_backend ho kind ver pl1 = (rc, pl2)" by (cases "choose_backend ho kind ver pl1")
  note ck = choose_keepsD [OF c]
  consider (full) "mx \<le> length (pl_sessions pl)" | (exe) x where "length (pl_sessions pl) < mx" "re = Inl x"
    | (chosen) exe x where "length (pl_sessions pl) < mx" "re = Inr exe" "rc = Inl x"
    | (start) exe d k where "length (pl_sessions pl) < mx" "re = Inr exe" "rc = Inr (d, k)"
    by (cases re; cases rc) (auto simp: not_le [symmetric])
  then show ?thesis
  proof cases
    case full
    with assms that(1) show ?thesis by (auto simp: spawn_for_def spawn_for_with_budget_def)
  next
    case exe
    with assms e ek that(1) show ?thesis by (auto simp: spawn_for_def spawn_for_with_budget_def)
  next
    case chosen
    with assms e c ek ck that(1) show ?thesis by (auto simp: spawn_for_def spawn_for_with_budget_def)
  next
    case start
    show ?thesis
    proof (cases "start_session ho exe d k path ver (JObj []) (length (pl_heap pl2))")
      case (Inl x)
      with start assms e c ek ck that(1) show ?thesis by (auto simp: spawn_for_def spawn_for_with_budget_def)
    next
      case (Inr s)
      then obtain hello where "s = new_session (length (pl_heap pl2)) hello path k ver" using start_session_InrD by blast
      with new have f: "\<And>k. fresh_for \<lparr>sm_db_path = path, sm_backend_kind = k, sm_ida_version = ver\<rparr> s" by simp
      from Inr start assms e c have
        "r = Inr (db_id next_id) \<and> next' = next_id + 1 \<and> pl' = pl2\<lparr>pl_sessions := pl_sessions pl2 @ [(db_id next_id, length (pl_heap pl2))],
                                        pl_heap := pl_heap pl2 @ [s]\<rparr>"
        by (auto simp: spawn_for_def spawn_for_with_budget_def handle_new_def Let_def)
      with f ek ck start(1) show ?thesis by (intro that(2) [of s]) simp_all
    qed
  qed
qed

section \<open>The pool's invariant\<close>

definition pool_inv :: "pool \<Rightarrow> u64 \<Rightarrow> bool" where
  "pool_inv pl next_id \<longleftrightarrow> distinct (map fst (pl_sessions pl)) \<and> distinct (map snd (pl_sessions pl)) \<and>
     (\<forall>(h, a) \<in> set (pl_sessions pl). (\<exists>n < next_id. h = db_id n) \<and> a < length (pl_heap pl))"

lemma session_map_of: "session pl db = map_of (pl_sessions pl) db"
proof -
  have "map_option snd (find (\<lambda>(h, _). h = db) xs) = map_of xs db" for xs :: "(string \<times> usize) list"
    by (induction xs) auto
  then show ?thesis by (simp add: session_def)
qed

lemma position_Some:
  "position db xs = Some j \<Longrightarrow> j < length xs \<and> xs ! j = (db, the (map_of xs db)) \<and> map_of xs db \<noteq> None \<and>
     map_of (xs[j := (db, b)]) = (map_of xs)(db \<mapsto> b)"
  by (induction xs arbitrary: j) (auto simp: fun_upd_twist split: if_splits)

lemma position_None: "position db xs = None \<longleftrightarrow> map_of xs db = None"
  by (induction xs) auto

lemma position_last: "h \<notin> fst ` set xs \<Longrightarrow> position h (xs @ [(h, b)]) = Some (length xs)"
  by (induction xs) auto

lemma db_id_inj: "db_id m = db_id n \<Longrightarrow> m = n"
  using handle_to_string_inj [of "\<lparr>prefix_of = ''db'', num = m\<rparr>" "\<lparr>prefix_of = ''db'', num = n\<rparr>"] by simp

lemma pool_inv_fresh: "pool_inv pl next_id \<Longrightarrow> db_id next_id \<notin> fst ` set (pl_sessions pl)"
  by (fastforce simp: pool_inv_def dest!: db_id_inj)

lemma pool_inv_new: "pool_inv pool_new n"
  by (simp add: pool_inv_def pool_new_def)

lemma remove_at_set: "x \<in> set (remove_at i xs) \<Longrightarrow> x \<in> set xs"
  by (auto simp: remove_at_def dest: in_set_takeD in_set_dropD)

lemma remove_at_distinct: "distinct (map f xs) \<Longrightarrow> distinct (map f (remove_at i xs))"
  using set_take_disj_set_drop_if_distinct [of "map f xs" i "Suc i"]
  by (simp only: remove_at_def map_append distinct_append flip: take_map drop_map) simp

lemma pool_inv_close: "pool_inv pl n \<Longrightarrow> close db pl = (r, pl') \<Longrightarrow> pool_inv pl' n"
  by (auto simp: close_def pool_inv_def remove_at_distinct split: option.splits dest!: remove_at_set)

lemma swap_in_effect:
  assumes inv: "pool_inv pl next_id" and db: "session pl db = Some a"
    and s: "pl_sessions plx = pl_sessions pl @ [(db_id next_id, b)]"
  shows "\<exists>ss. swap_in db (db_id next_id) plx = (Inr (), plx\<lparr>pl_sessions := ss\<rparr>) \<and>
     map fst ss = map fst (pl_sessions pl) \<and> map_of ss = (map_of (pl_sessions pl))(db \<mapsto> b) \<and>
     set (map snd ss) \<subseteq> insert b (set (map snd (pl_sessions pl))) \<and>
     (b \<notin> set (map snd (pl_sessions pl)) \<longrightarrow> distinct (map snd ss))"
proof -
  let ?S = "pl_sessions pl"
  have p: "position (db_id next_id) (?S @ [(db_id next_id, b)]) = Some (length ?S)"
    by (rule position_last [OF pool_inv_fresh [OF inv]])
  obtain j where j: "position db ?S = Some j"
    using db position_None [of db ?S] by (cases "position db ?S") (auto simp: session_map_of)
  note jj = position_Some [OF j, of b]
  have "map fst (?S[j := (db, b)]) = map fst ?S" using jj by (simp add: map_update) (metis fst_conv list_update_id map_update)
  moreover have "set (map snd (?S[j := (db, b)])) \<subseteq> insert b (set (map snd ?S))"
    by (simp only: map_update snd_conv) (rule set_update_subset_insert)
  moreover have "b \<notin> set (map snd ?S) \<longrightarrow> distinct (map snd (?S[j := (db, b)]))"
    using inv by (simp add: map_update distinct_list_update pool_inv_def)
  ultimately show ?thesis
    using p j jj by (intro exI [of _ "?S[j := (db, b)]"]) (simp add: swap_in_def s remove_at_def)
qed

section \<open>Recovery\<close>

text \<open>The pool while attempts fail: only the counter of the session under recovery moves.\<close>

definition bump_failures :: "usize \<Rightarrow> pool \<Rightarrow> pool" where
  "bump_failures a pl = upd_session a (\<lambda>s. s\<lparr>ws_restart_failures := ws_restart_failures s + 1\<rparr>) pl"

definition same_but :: "usize \<Rightarrow> pool \<Rightarrow> pool \<Rightarrow> bool" where
  "same_but a pl pl' \<longleftrightarrow> pl_sessions pl' = pl_sessions pl \<and> length (pl_heap pl') = length (pl_heap pl) \<and>
     (\<forall>x. x \<noteq> a \<longrightarrow> pl_heap pl' ! x = pl_heap pl ! x)"

lemma same_but_refl: "same_but a pl pl"
  by (simp add: same_but_def)

lemma same_but_trans: "same_but a p q \<Longrightarrow> same_but a q r \<Longrightarrow> same_but a p r"
  by (simp add: same_but_def)

lemma same_but_upd: "same_but a pl (upd_session a f pl)"
  by (simp add: same_but_def upd_session_def)

lemma same_but_spawn: "pl_sessions pl' = pl_sessions pl \<Longrightarrow> pl_heap pl' = pl_heap pl \<Longrightarrow> same_but a pl pl'"
  by (simp add: same_but_def)

lemma u32_succ: "f \<le> m \<Longrightarrow> m < - 1 \<Longrightarrow> unat (f + 1 :: u32) = unat f + 1"
  by (simp add: word_le_nat_alt word_less_nat_alt unat_word_ariths unsigned_minus_1_eq_mask mask_eq_exp_minus_1)

text \<open>
  Where the loop ends: at an attempt that succeeds, or with the session dead and the budget of
  attempts spent.
\<close>

definition loop_end :: "(nat \<Rightarrow> host) \<Rightarrow> string \<Rightarrow> usize \<Rightarrow> session_meta \<Rightarrow> nat \<Rightarrow> pool \<Rightarrow> u64 \<Rightarrow> unit result \<times> pool \<times> u64 \<times> nat \<Rightarrow> bool" where
  "loop_end hosts db a meta last_k pl n out \<longleftrightarrow>
     (case out of (r, pl', n', k) \<Rightarrow>
        (\<exists>pl1 plx h. same_but a pl pl1 \<and> (r, pl') = swap_in db h plx \<and>
          spawn_for (hosts (k - 1)) (sm_db_path meta) usize_max (sm_backend_kind meta) (sm_ida_version meta) (pl1, n)
            = (Inr h, plx, n')) \<or>
        same_but a pl pl' \<and> n' = n \<and> ws_health (pl_heap pl' ! a) = Dead \<and> k = last_k \<and> \<not> is_ok r)"

lemma loop_end_mono: "same_but a pl pl1 \<Longrightarrow> loop_end hosts db a meta l pl1 n out \<Longrightarrow> loop_end hosts db a meta l pl n out"
  by (auto simp: loop_end_def dest: same_but_trans)

lemma recover_loop_ends:
  assumes "a < length (pl_heap pl)" "ws_restart_failures (pl_heap pl ! a) \<le> maxr" "maxr < - 1"
  defines "l \<equiv> unat maxr + 1 - unat (ws_restart_failures (pl_heap pl ! a))"
  shows "\<exists>r pl' n' k'. recover_loop hosts db maxr a meta k (pl, n) = Some (r, pl', n', k') \<and> k < k' \<and> k' \<le> k + l \<and>
     loop_end hosts db a meta (k + l) pl n (r, pl', n', k')"
  using assms(1, 2) unfolding l_def
proof (induction "unat maxr - unat (ws_restart_failures (pl_heap pl ! a))" arbitrary: pl k rule: less_induct)
  case less
  let ?spawn = "spawn_for (hosts k) (sm_db_path meta) usize_max (sm_backend_kind meta) (sm_ida_version meta) (pl, n)"
  let ?f = "ws_restart_failures (pl_heap pl ! a)"
  obtain r pl1 n1 where sp: "?spawn = (r, pl1, n1)" by (cases ?spawn)
  note step = recover_loop.simps [of hosts db maxr a meta k "(pl, n)"]
  show ?case
  proof (cases r)
    case (Inr h)
    obtain x pl' where sw: "swap_in db h pl1 = (x, pl')" by (cases "swap_in db h pl1")
    with sp Inr step have "recover_loop hosts db maxr a meta k (pl, n) = Some (x, pl', n1, Suc k)" by simp
    moreover have "loop_end hosts db a meta l pl n (x, pl', n1, Suc k)" for l
      using sp Inr sw same_but_refl [of a pl] by (auto simp: loop_end_def)
    ultimately show ?thesis using less.prems(2) by (auto simp: word_le_nat_alt)
  next
    case (Inl e)
    from sp Inl have keep: "pl_sessions pl1 = pl_sessions pl" "pl_heap pl1 = pl_heap pl" "n1 = n"
      by (auto elim: spawn_cases)
    have f: "ws_restart_failures (pl_heap (bump_failures a pl1) ! a) = ?f + 1" "a < length (pl_heap (bump_failures a pl1))"
      using keep less.prems by (simp_all add: bump_failures_def upd_session_def)
    have sb: "same_but a pl (bump_failures a pl1)"
      unfolding bump_failures_def by (rule same_but_trans [OF same_but_spawn [OF keep(1, 2)] same_but_upd])
    note succ = u32_succ [OF less.prems(2) assms(3)]
    show ?thesis
    proof (cases "maxr < ?f + 1")
      case True
      let ?dead = "upd_session a (\<lambda>s. s\<lparr>ws_health := Dead\<rparr>) (bump_failures a pl1)"
      have one: "unat maxr + 1 - unat ?f = 1"
        using True succ less.prems(2) by (simp add: word_less_nat_alt word_le_nat_alt)
      have "recover_loop hosts db maxr a meta k (pl, n) =
          Some (Inl (Worker (''worker recovery failed after '' @ show_u32 (?f + 1) @ '' attempts'')), ?dead, n, Suc k)"
        using True sp Inl keep(3) f(1) step by (simp add: Let_def bump_failures_def)
      moreover have "same_but a pl ?dead" by (rule same_but_trans [OF sb same_but_upd])
      moreover have "ws_health (pl_heap ?dead ! a) = Dead" using f(2) by (simp add: upd_session_def)
      ultimately show ?thesis unfolding one by (simp add: loop_end_def)
    next
      case False
      then have le: "?f + 1 \<le> maxr" by simp
      have eq: "recover_loop hosts db maxr a meta k (pl, n) = recover_loop hosts db maxr a meta (Suc k) (bump_failures a pl1, n)"
        using False sp Inl keep(3) f(1) step by (simp add: Let_def bump_failures_def)
      have lt: "unat maxr - unat (ws_restart_failures (pl_heap (bump_failures a pl1) ! a)) < unat maxr - unat ?f"
        and ar: "Suc k + (unat maxr + 1 - unat (?f + 1)) = k + (unat maxr + 1 - unat ?f)"
        using le succ by (simp_all add: f(1) word_le_nat_alt)
      from less.hyps [OF lt f(2), of "Suc k"] le loop_end_mono [OF sb] show ?thesis
        unfolding eq f(1) ar by (meson Suc_lessD)
    qed
  qed
qed

lemma word_succ_less: "n < - 1 \<Longrightarrow> n < n + (1 :: u64)"
  by (simp add: word_less_nat_alt unat_word_ariths unsigned_minus_1_eq_mask mask_eq_exp_minus_1)

lemma pool_inv_same_but: "same_but a pl pl' \<Longrightarrow> pool_inv pl n \<Longrightarrow> pool_inv pl' n"
  by (simp add: same_but_def pool_inv_def)

lemma recover_enters:
  assumes "session pl db = Some a" "a < length (pl_heap pl)" "ws_health (pl_heap pl ! a) \<in> {Crashed, Recovering}"
    "ws_meta (pl_heap pl ! a) = Some meta"
  shows "recover hosts db policy (pl, next_id) = recover_loop hosts db (max_restarts policy) a meta 0
     (upd_session a (\<lambda>s. s\<lparr>ws_health := Recovering\<rparr>) pl, next_id)"
proof -
  obtain j where j: "position db (pl_sessions pl) = Some j"
    using assms(1) position_None [of db "pl_sessions pl"] by (cases "position db (pl_sessions pl)") (auto simp: session_map_of)
  with position_Some [OF j] assms show ?thesis
    by (auto simp: recover_def Let_def session_map_of upd_session_def)
qed

text \<open>The pool after a recovery of \<open>db\<close>: the same handles, the other sessions as they were.\<close>

definition recovered_pool :: "string \<Rightarrow> pool \<Rightarrow> pool \<Rightarrow> bool" where
  "recovered_pool db pl pl' \<longleftrightarrow> map fst (pl_sessions pl') = map fst (pl_sessions pl) \<and>
     (\<forall>h x. h \<noteq> db \<and> session pl h = Some x \<longrightarrow> session pl' h = Some x \<and> pl_heap pl' ! x = pl_heap pl ! x)"

lemma session_bound: "pool_inv pl n \<Longrightarrow> session pl h = Some x \<Longrightarrow> x < length (pl_heap pl)"
  by (auto simp: pool_inv_def session_map_of dest!: map_of_SomeD)

lemma session_addresses:
  assumes "pool_inv pl n" "session pl db = Some a" "session pl h = Some x" "h \<noteq> db"
  shows "x \<noteq> a"
proof
  assume "x = a"
  with assms have "(h, a) \<in> set (pl_sessions pl)" "(db, a) \<in> set (pl_sessions pl)"
    by (simp_all add: session_map_of map_of_SomeD)
  with assms(1, 4) show False by (fastforce simp: pool_inv_def distinct_map inj_on_def)
qed

lemma same_but_recovered:
  "same_but a pl pl' \<Longrightarrow> pool_inv pl n \<Longrightarrow> session pl db = Some a \<Longrightarrow> recovered_pool db pl pl'"
  by (auto simp: recovered_pool_def same_but_def session_def [of pl'] session_def [of pl, symmetric] dest: session_addresses)

lemma spawn_then_swap:
  assumes inv: "pool_inv pl n" "n < - 1" and db: "session pl db = Some a" and sb: "same_but a pl pl1"
    and sp: "spawn_for ho (sm_db_path meta) mx (sm_backend_kind meta) (sm_ida_version meta) (pl1, n) = (Inr h, plx, n')"
  shows "\<exists>pl'. swap_in db h plx = (Inr (), pl') \<and> pool_inv pl' n' \<and> recovered_pool db pl pl' \<and>
     (\<exists>b. session pl' db = Some b \<and> fresh_for meta (pl_heap pl' ! b))"
proof -
  let ?b = "length (pl_heap pl)"
  from sp obtain s where h: "h = db_id n" and s: "pl_sessions plx = pl_sessions pl @ [(db_id n, ?b)]"
      and heap: "pl_heap plx = pl_heap pl1 @ [s]" and n': "n' = n + 1" and fr: "fresh_for meta s"
    using sb by (auto elim!: spawn_cases simp: same_but_def) (metis session_meta.surjective old.unit.exhaust)
  from swap_in_effect [OF inv(1) db s] obtain ss where ss: "swap_in db (db_id n) plx = (Inr (), plx\<lparr>pl_sessions := ss\<rparr>)"
     "map fst ss = map fst (pl_sessions pl)" "map_of ss = (map_of (pl_sessions pl))(db \<mapsto> ?b)"
     "set (map snd ss) \<subseteq> insert ?b (set (map snd (pl_sessions pl)))"
     "?b \<notin> set (map snd (pl_sessions pl)) \<longrightarrow> distinct (map snd ss)" by blast
  have fresh: "?b \<notin> set (map snd (pl_sessions pl))" using inv(1) by (auto simp: pool_inv_def)
  have len: "length (pl_heap pl1) = ?b" using sb by (simp add: same_but_def)
  let ?p = "plx\<lparr>pl_sessions := ss\<rparr>"
  have ids: "\<exists>m < n'. h' = db_id m" "x < length (pl_heap ?p)" if "(h', x) \<in> set ss" for h' x
  proof -
    have "h' \<in> set (map fst (pl_sessions pl))" unfolding ss(2) [symmetric] using that by force
    then obtain m where "m < n" "h' = db_id m" using inv(1) by (fastforce simp: pool_inv_def)
    then show "\<exists>m < n'. h' = db_id m" using word_succ_less [OF inv(2)] n' by (auto intro: less_trans)
    have "x \<in> insert ?b (set (map snd (pl_sessions pl)))" using ss(4) that by force
    then show "x < length (pl_heap ?p)" using inv(1) by (auto simp: heap len pool_inv_def)
  qed
  have "pool_inv ?p n'"
    using ids ss(2, 5) fresh inv(1) by (auto simp: pool_inv_def)
  moreover have "recovered_pool db pl ?p"
  proof -
    have "session ?p h' = Some x \<and> pl_heap ?p ! x = pl_heap pl ! x" if "h' \<noteq> db" "session pl h' = Some x" for h' x
      using that ss(3) sb session_addresses [OF inv(1) db that(2, 1)] session_bound [OF inv(1) that(2)]
      by (simp add: session_map_of heap nth_append len same_but_def)
    then show ?thesis using ss(2) by (auto simp: recovered_pool_def)
  qed
  moreover have "session ?p db = Some ?b" "fresh_for meta (pl_heap ?p ! ?b)"
    using ss(3) fr by (simp_all add: session_map_of heap nth_append len)
  ultimately show ?thesis using ss(1) h by blast
qed


definition sample_host :: host where
  "sample_host = \<lparr>ho_machine = sample_machine, ho_probing = False, ho_worker_exe_env = None, ho_current_exe = Some [''bin'', ''reverse-mcp''],
     ho_exists = (\<lambda>_. False), ho_probe = (\<lambda>_ _ _. Some (True, ''mock'')), ho_launch = (\<lambda>_ _. SpawnError ''no such file'')\<rparr>"

definition sample_pool :: pool where
  "sample_pool = pool_new\<lparr>pl_sessions := [(''db1'', 0)], pl_heap := [mark_crashed (new_session 0
     \<lparr>h_protocol = 1, h_ida_version = ''9.2'', h_pid = 42, h_ida_dir = [], h_idausr = []\<rparr> ''/tmp/a.i64'' ''mock'' [])]\<rparr>"

lemma sample_pool_inv: "pool_inv sample_pool 2"
proof -
  have "''db1'' = db_id 1" by (simp add: handle_to_string_def text_eval digit_char_table)
  then show ?thesis by (auto simp: pool_inv_def sample_pool_def pool_new_def intro!: exI [of _ 1])
qed


section \<open>Every request is answered once\<close>

lemma hm_insert_fresh: "k \<notin> fst ` set m \<Longrightarrow> hm_insert k v m = (k, v) # m"
  by (auto simp: hm_insert_def filter_id_conv)

lemma hm_remove_mset: "hm_inv m \<Longrightarrow> map_of m k = Some v \<Longrightarrow> mset m = add_mset (k, v) (mset (hm_remove k m))"
proof (induction m)
  case (Cons x m)
  show ?case
  proof (cases "fst x = k")
    case True
    with Cons.prems have "k \<notin> fst ` set m" by (simp add: hm_inv_def)
    then have "filter (\<lambda>p. fst p \<noteq> k) m = m" by (force simp: filter_id_conv image_iff)
    with True Cons.prems show ?thesis by (cases x) (simp add: hm_remove_def del: mset_filter)
  next
    case False
    with Cons show ?thesis by (cases x) (simp add: hm_inv_def hm_remove_def)
  qed
qed simp

text \<open>The requests among some events, and those a pump takes before it stops.\<close>

definition requests :: "pump_event list \<Rightarrow> (u64 \<times> usize) list" where
  "requests es = List.map_filter (\<lambda>e. case e of Request r b _ \<Rightarrow> Some (rq_id r, b) | _ \<Rightarrow> None) es"

fun taken :: "pump_event list \<Rightarrow> (u64 \<times> usize) list" where
  "taken [] = []"
| "taken (Request r b written # es) = (rq_id r, b) # (if written then taken es else [])"
| "taken (Response r # es) = taken es"
| "taken (_ # es) = []"

lemma requests_simps [simp]:
  "requests [] = []"
  "requests (e # es) = (case e of Request r b _ \<Rightarrow> (rq_id r, b) # requests es | _ \<Rightarrow> requests es)"
  by (simp_all add: requests_def map_filter_simps split: pump_event.splits)

definition pump_ok :: "pump_event list \<Rightarrow> pump \<Rightarrow> bool" where
  "pump_ok es p \<longleftrightarrow> hm_inv (pm_pending p) \<and> distinct (map fst (requests es)) \<and>
     fst ` set (pm_pending p) \<inter> fst ` set (requests es) = {}"

lemma pump_ok_step: "pump_ok (e # es) p \<Longrightarrow> pump_ok es (pump_step e p)"
  by (cases e) (auto simp: pump_ok_def fail_all_def hm.inv_ins hm.inv_del hm_insert_fresh Let_def
      hm_remove_def hm_inv_def distinct_map_filter_fst split: option.splits)

lemma fail_all_backs:
  "image_mset fst (mset (pm_sent (fail_all why p))) + image_mset snd (mset (pm_pending (fail_all why p))) =
   image_mset fst (mset (pm_sent p)) + image_mset snd (mset (pm_pending p))"
  by (simp add: fail_all_def multiset.map_comp comp_def case_prod_unfold flip: mset_map)

lemma pump_stopped: "\<not> pm_running p \<Longrightarrow> pump_task es p = p"
  by (cases es) simp_all

lemma pump_backs:
  "pump_ok es p \<Longrightarrow> pm_running p \<Longrightarrow>
     image_mset fst (mset (pm_sent (pump_task es p))) + image_mset snd (mset (pm_pending (pump_task es p))) =
     image_mset fst (mset (pm_sent p)) + image_mset snd (mset (pm_pending p)) + image_mset snd (mset (taken es))"
proof (induction es arbitrary: p)
  case (Cons e es)
  note ok = pump_ok_step [OF Cons.prems(1)]
  show ?case
  proof (cases e)
    case (Request r b written)
    with Cons.prems have fresh: "rq_id r \<notin> fst ` set (pm_pending p)" by (auto simp: pump_ok_def)
    show ?thesis
    proof (cases written)
      case True
      with Request Cons.IH [OF ok] Cons.prems(2) show ?thesis by (simp add: hm_insert_fresh [OF fresh])
    next
      case False
      with Request Cons.prems(2) show ?thesis
        by (simp add: pump_stopped hm_insert_fresh [OF fresh] fail_all_backs)
    qed
  next
    case (Response r)
    show ?thesis
    proof (cases "map_of (pm_pending p) (rs_id r)")
      case None
      with Response Cons show ?thesis by (simp add: pump_ok_def)
    next
      case (Some b)
      have "hm_inv (pm_pending p)" using Cons.prems by (simp add: pump_ok_def)
      note rem = hm_remove_mset [OF this Some]
      from Response Some Cons.IH [OF ok] Cons.prems(2) show ?thesis by (simp add: rem)
    qed
  qed (use Cons.prems(2) in \<open>simp_all add: pump_stopped fail_all_backs Let_def\<close>)
qed simp

text \<open>The other half: what is sent to a caller.\<close>

definition routed :: "pump_event list \<Rightarrow> pump \<Rightarrow> bool" where
  "routed es p \<longleftrightarrow> set (pm_pending p) \<subseteq> set (requests es) \<and>
     (\<forall>(b, r) \<in> set (pm_sent p). \<exists>i. (i, b) \<in> set (requests es) \<and>
        ((\<exists>resp. Response resp \<in> set es \<and> rs_id resp = i \<and> r = response_value resp) \<or>
         \<not> pm_running p \<and> pm_pending p = [] \<and> (\<exists>why. r = Inl (Worker why))))"

lemma requests_append [simp]: "requests (xs @ ys) = requests xs @ requests ys"
  by (induction xs) (auto split: pump_event.splits)

lemma routed_mono:
  assumes "routed es p"
  shows "routed (es @ es') p"
  unfolding routed_def
proof (intro conjI ballI)
  show "set (pm_pending p) \<subseteq> set (requests (es @ es'))" using assms by (auto simp: routed_def)
next
  fix x assume "x \<in> set (pm_sent p)"
  with assms show "case x of (b, r) \<Rightarrow> \<exists>i. (i, b) \<in> set (requests (es @ es')) \<and>
        ((\<exists>resp. Response resp \<in> set (es @ es') \<and> rs_id resp = i \<and> r = response_value resp) \<or>
         \<not> pm_running p \<and> pm_pending p = [] \<and> (\<exists>why. r = Inl (Worker why)))"
    by (cases x) (fastforce simp: routed_def)
qed

lemma routed_fail_all:
  "routed es p \<Longrightarrow> pm_running p \<Longrightarrow> routed es ((fail_all why p)\<lparr>pm_crash := c, pm_running := False\<rparr>)"
  by (fastforce simp: routed_def fail_all_def)

lemma routed_request: "routed es p \<Longrightarrow> pm_running p \<Longrightarrow>
   routed (es @ [Request r b w]) (p\<lparr>pm_pending := hm_insert (rq_id r) b (pm_pending p)\<rparr>)"
  by (fastforce simp: routed_def hm_insert_def)

lemma routed_response: "routed es p \<Longrightarrow> pm_running p \<Longrightarrow> routed (es @ [Response r]) (pump_step (Response r) p)"
  by (auto simp: routed_def hm_remove_def split: option.splits dest!: map_of_SomeD) (fastforce, blast)

lemma routed_step:
  assumes "routed es p" "pm_running p"
  shows "routed (es @ [e]) (pump_step e p)"
proof (cases e)
  case (Request r b w)
  note q = routed_request [OF assms, of r b w]
  have "routed (es @ [e]) ((fail_all ''worker stdin write failed'' (p\<lparr>pm_pending := hm_insert (rq_id r) b (pm_pending p)\<rparr>))
     \<lparr>pm_crash := pm_crash p, pm_running := False\<rparr>)"
    using routed_fail_all [OF q, where why = "''worker stdin write failed''" and c = "pm_crash p"] assms Request by simp
  then show ?thesis using q Request by (cases w) (simp_all add: fail_all_def Let_def)
next
  case (Response r)
  then show ?thesis using routed_response [OF assms] by simp
next
  case ChannelClosed
  then show ?thesis using routed_mono [OF assms(1), of "[e]"] assms(2) by (fastforce simp: routed_def)
qed (use routed_fail_all [OF routed_mono [OF assms(1)] assms(2)] in \<open>simp_all add: Let_def\<close>)

lemma routed_task: "routed es p \<Longrightarrow> routed (es @ es') (pump_task es' p)"
proof (induction es' arbitrary: es p)
  case (Cons e es')
  show ?case
  proof (cases "pm_running p")
    case True
    with Cons.IH [OF routed_step [OF Cons.prems, of e]] show ?thesis by simp
  next
    case False
    with routed_mono [OF Cons.prems, of "e # es'"] show ?thesis by simp
  qed
qed simp

text \<open>A pump that stops for any other reason than being shut down owes nobody an answer.\<close>

lemma stopped_owes_nothing:
  "ChannelClosed \<notin> set es \<Longrightarrow> (\<not> pm_running p \<longrightarrow> pm_pending p = []) \<Longrightarrow>
     \<not> pm_running (pump_task es p) \<longrightarrow> pm_pending (pump_task es p) = []"
proof (induction es arbitrary: p)
  case (Cons e es)
  have "\<not> pm_running (pump_step e p) \<longrightarrow> pm_pending (pump_step e p) = []" if "pm_running p"
    using that Cons.prems by (cases e) (auto simp: fail_all_def Let_def split: option.splits)
  with Cons show ?case by simp
qed simp

text \<open>
  C37: the pump answers every request it takes at most once and loses none: the callers answered and the
  callers still waiting are together exactly the callers of the requests taken; every answer is
  the worker's response to that caller's own request or a worker failure; and a pump that stops
  on its own, whether a write fails, the worker exits or a frame is unreadable, leaves no caller
  waiting. Request identifiers are taken to be distinct.
\<close>

theorem pump_answers_each_request_once:
  assumes "distinct (map fst (requests es))"
  defines "p \<equiv> pump_task es pump_init"
  shows "mset (map fst (pm_sent p)) + mset (map snd (pm_pending p)) = mset (map snd (taken es)) \<and>
     (\<forall>(b, r) \<in> set (pm_sent p). \<exists>i. (i, b) \<in> set (requests es) \<and>
        ((\<exists>resp. Response resp \<in> set es \<and> rs_id resp = i \<and> r = response_value resp) \<or> (\<exists>why. r = Inl (Worker why)))) \<and>
     (ChannelClosed \<notin> set es \<and> \<not> pm_running p \<longrightarrow> pm_pending p = [])"
proof -
  have "pump_ok es pump_init" using assms(1) by (simp add: pump_ok_def pump_init_def hm_inv_def)
  from pump_backs [OF this] have "mset (map fst (pm_sent p)) + mset (map snd (pm_pending p)) = mset (map snd (taken es))"
    by (simp add: p_def pump_init_def)
  moreover have "routed es p"
    using routed_task [of "[]" pump_init es] by (simp add: p_def routed_def pump_init_def)
  moreover have "ChannelClosed \<notin> set es \<and> \<not> pm_running p \<longrightarrow> pm_pending p = []"
    using stopped_owes_nothing [of es pump_init] by (simp add: p_def pump_init_def)
  ultimately show ?thesis unfolding routed_def by fast
qed

definition sample_request :: "u64 \<Rightarrow> worker_request" where
  "sample_request i = \<lparr>rq_id = i, rq_method = ''functions'', rq_params = JNull\<rparr>"

theorem pump_answers_each_request_once_witness:
  "let p = pump_task [Request (sample_request 1) 10 True, Request (sample_request 2) 20 True,
       Response (response_ok 2 (JBool True)), Eof] pump_init
   in pm_sent p = [(20, Inr (JBool True)), (10, Inl (Worker ''worker exited unexpectedly''))] \<and>
      mset (map fst (pm_sent p)) = {#10, 20#} \<and> pm_pending p = []"
proof -
  let ?es = "[Request (sample_request 1) 10 True, Request (sample_request 2) 20 True,
       Response (response_ok 2 (JBool True)), Eof]"
  have "distinct (map fst (requests ?es))" by (simp add: sample_request_def)
  from pump_answers_each_request_once [OF this] show ?thesis
    by (simp add: pump_init_def sample_request_def response_ok_def fail_all_def hm_insert_def hm_remove_def response_value_def Let_def)
qed

text \<open>
  A failed write stops the pump without a crash report, so the session stays \<open>Healthy\<close>, and
  recovery of a healthy session does nothing.
\<close>

lemma write_failure_is_not_reported:
  "let p = pump_task [Request req back False] pump_init
   in \<not> pm_running p \<and> pm_crash p = None \<and> pm_sent p = [(back, Inl (Worker ''worker stdin write failed''))]"
  by (simp add: pump_init_def fail_all_def hm_insert_def)

lemma healthy_is_not_recovered:
  assumes "session pl db = Some a" "ws_health (pl_heap pl ! a) = Healthy"
  shows "recover hosts db policy (pl, n) = Some (Inr (), pl, n, 0)"
proof -
  obtain j where j: "position db (pl_sessions pl) = Some j"
    using assms(1) position_None [of db "pl_sessions pl"] by (cases "position db (pl_sessions pl)") (auto simp: session_map_of)
  with position_Some [OF j] assms show ?thesis by (auto simp: recover_def Let_def session_map_of)
qed

end
