(* ===== verification/Result_Store.thy ===== *)
theory Result_Store
  imports Handles
begin

text \<open>
  \<open>crates/rmcp-core/src/result_store.rs\<close>: large payloads spill to a handle with a preview
  and a time to live. Instants are milliseconds passed as \<open>now\<close>; \<open>elapsed\<close> saturates at
  zero. The mutex makes every operation atomic, so an operation is a function on the store.
  The map is a hash map, so its list is in no particular order and every result below holds
  for any order. \<open>to_string\<close> of a payload is a parameter (\<open>None\<close> where it fails).
\<close>

record store_entry =
  se_payload :: json
  se_tool :: string
  se_total_len :: usize
  se_created :: nat
  se_ttl :: nat

record result_store =
  entries :: "(string, store_entry) hashmap"
  rs_ttl :: nat
  preview_chars :: usize

definition store_new :: "nat \<Rightarrow> result_store" where
  "store_new ttl = \<lparr>entries = [], rs_ttl = ttl, preview_chars = 400\<rparr>"

definition elapsed :: "nat \<Rightarrow> nat \<Rightarrow> nat" where
  "elapsed now created = now - created"

definition expired :: "nat \<Rightarrow> store_entry \<Rightarrow> bool" where
  "expired now e \<longleftrightarrow> elapsed now (se_created e) \<ge> se_ttl e"

text \<open>The loop that backs off to a character boundary.\<close>

fun back_to_boundary :: "string \<Rightarrow> usize \<Rightarrow> usize" where
  "back_to_boundary s 0 = 0"
| "back_to_boundary s (Suc n) =
     (if is_char_boundary s (Suc n) then Suc n else back_to_boundary s n)"

definition ellipsis :: string where
  "ellipsis = [CHR 0xE2, CHR 0x80, CHR 0xA6]"

definition preview_of :: "(json \<Rightarrow> string option) \<Rightarrow> json \<Rightarrow> usize \<Rightarrow> string" where
  "preview_of to_string p max_chars =
     (let s = unwrap_or (to_string p) [] in
      if length s \<le> max_chars then s
      else take (back_to_boundary s max_chars) s @ ellipsis)"

definition put ::
  "(json \<Rightarrow> string option) \<Rightarrow> nat \<Rightarrow> string \<Rightarrow> json \<Rightarrow> usize \<Rightarrow> result_store \<times> u64
   \<Rightarrow> (string \<times> string \<times> bool) \<times> result_store \<times> u64" where
  "put to_string now tool p threshold s =
     (let (st, next_id) = s;
          serialized_len = (case to_string p of None \<Rightarrow> 0 | Some t \<Rightarrow> length t)
      in if serialized_len \<le> threshold then (([], [], False), st, next_id)
         else let (h, next_id') = handle_new ''r'' next_id;
                  hs = handle_to_string h;
                  entry = \<lparr>se_payload = p, se_tool = tool, se_total_len = serialized_len,
                           se_created = now, se_ttl = rs_ttl st\<rparr>
              in ((hs, preview_of to_string p (preview_chars st), True),
                  st\<lparr>entries := hm_insert hs entry (entries st)\<rparr>, next_id'))"

definition get :: "nat \<Rightarrow> string \<Rightarrow> result_store \<Rightarrow> json result \<times> result_store" where
  "get now h st =
     (case map_of (entries st) h of
        None \<Rightarrow> (Inl (UnknownResult h), st)
      | Some e \<Rightarrow>
          if expired now e then (Inl (UnknownResult h), st\<lparr>entries := hm_remove h (entries st)\<rparr>)
          else (Inr (se_payload e), st))"

record stored_result_meta =
  sm_handle :: string
  sm_tool :: string
  sm_total_len :: usize
  sm_ttl_secs :: nat
  sm_age_secs :: nat

definition metadata :: "nat \<Rightarrow> string \<Rightarrow> result_store \<Rightarrow> stored_result_meta result" where
  "metadata now h st =
     (case map_of (entries st) h of
        None \<Rightarrow> Inl (UnknownResult h)
      | Some e \<Rightarrow>
          if expired now e then Inl (UnknownResult h)
          else Inr \<lparr>sm_handle = h, sm_tool = se_tool e, sm_total_len = se_total_len e,
                    sm_ttl_secs = se_ttl e div 1000,
                    sm_age_secs = elapsed now (se_created e) div 1000\<rparr>)"

definition find_results ::
  "(json \<Rightarrow> string option) \<Rightarrow> nat \<Rightarrow> string \<Rightarrow> result_store \<Rightarrow> string list" where
  "find_results to_string now needle st =
     take 20 (map fst
       (filter (\<lambda>(_, e). case to_string (se_payload e) of None \<Rightarrow> False | Some s \<Rightarrow> str_contains s needle)
         (filter (\<lambda>(_, e). \<not> expired now e) (entries st))))"

definition release :: "string \<Rightarrow> result_store \<Rightarrow> unit result \<times> result_store" where
  "release h st =
     (case map_of (entries st) h of
        None \<Rightarrow> (Inl (UnknownResult h), st)
      | Some _ \<Rightarrow> (Inr (), st\<lparr>entries := hm_remove h (entries st)\<rparr>))"

definition sweep :: "nat \<Rightarrow> result_store \<Rightarrow> usize \<times> result_store" where
  "sweep now st =
     (let dead = map fst (filter (\<lambda>(_, e). expired now e) (entries st))
      in (length dead, st\<lparr>entries := foldl (\<lambda>m k. hm_remove k m) (entries st) dead\<rparr>))"

definition enforce_cap :: "usize \<Rightarrow> result_store \<Rightarrow> usize \<times> result_store" where
  "enforce_cap cap st =
     (if length (entries st) \<le> cap then (0, st)
      else let by_age = sort_key snd (map (\<lambda>(k, e). (k, se_created e)) (entries st));
               excess = length (entries st) - cap;
               evict = map fst (take excess by_age)
           in (length evict, st\<lparr>entries := foldl (\<lambda>m k. hm_remove k m) (entries st) evict\<rparr>))"

definition store_len :: "result_store \<Rightarrow> usize" where
  "store_len st = length (entries st)"

definition store_is_empty :: "result_store \<Rightarrow> bool" where
  "store_is_empty st = (store_len st = 0)"

section \<open>Invariant\<close>

text \<open>
  Handles in the store are printed result handles below the counter, so a new one is fresh;
  \<open>store_inv\<close> also says that the representation has one entry per handle.
\<close>

definition store_inv :: "result_store \<times> u64 \<Rightarrow> bool" where
  "store_inv s \<longleftrightarrow> hm_inv (entries (fst s)) \<and>
     (\<forall>k \<in> set (map fst (entries (fst s))). \<exists>n < snd s. k = ''r'' @ show_u64 n)"

lemma foldl_hm_remove: "foldl (\<lambda>m k. hm_remove k m) m ks = filter (\<lambda>p. fst p \<notin> set ks) m"
  by (induction ks arbitrary: m) (auto simp: hm_remove_def intro!: filter_cong)

lemma back_to_boundary_le: "back_to_boundary s n \<le> n"
  by (induction n) auto

lemma back_to_boundary_ok: "is_char_boundary s (back_to_boundary s n)"
  by (induction n) auto

lemma back_to_boundary_max:
  "back_to_boundary s n < j \<Longrightarrow> j \<le> n \<Longrightarrow> \<not> is_char_boundary s j"
  by (induction n) (auto simp: le_Suc_eq split: if_splits)

lemma store_inv_new: "store_inv (store_new ttl, next_id_init)"
  by (simp add: store_inv_def store_new_def hm_inv_def)

lemma store_inv_filter: "store_inv (st, n) \<Longrightarrow> store_inv (st\<lparr>entries := filter P (entries st)\<rparr>, n)"
  by (auto simp: store_inv_def hm_inv_def distinct_map_filter)

lemma store_inv_release: "store_inv (st, n) \<Longrightarrow> store_inv (snd (release h st), n)"
  by (auto simp: release_def hm_remove_def store_inv_filter split: option.splits)

lemma store_inv_get: "store_inv (st, n) \<Longrightarrow> store_inv (snd (get now h st), n)"
  by (auto simp: get_def hm_remove_def store_inv_filter split: option.splits)

lemma store_inv_sweep: "store_inv (st, n) \<Longrightarrow> store_inv (snd (sweep now st), n)"
  by (simp add: sweep_def Let_def foldl_hm_remove store_inv_filter)

lemma store_inv_enforce_cap: "store_inv (st, n) \<Longrightarrow> store_inv (snd (enforce_cap c st), n)"
  by (simp add: enforce_cap_def Let_def foldl_hm_remove store_inv_filter)

lemma fresh_handle:
  assumes "store_inv (st, n)"
  shows "map_of (entries st) (''r'' @ show_u64 n) = None"
proof (rule ccontr)
  assume "map_of (entries st) (''r'' @ show_u64 n) \<noteq> None"
  then have "''r'' @ show_u64 n \<in> set (map fst (entries st))"
    by (simp add: map_of_eq_None_iff)
  with assms obtain m where "m < n" "show_u64 n = show_u64 m"
    by (auto simp: store_inv_def)
  then have "unat n = unat m" by (simp add: show_radix_inj [of 10])
  with \<open>m < n\<close> show False by (metis less_irrefl word_unat_eq_iff)
qed

lemma store_inv_put:
  assumes inv: "store_inv (st, n)" and room: "n < n + 1"
  shows "store_inv (snd (put ts now tool p th (st, n)))"
proof -
  have "store_inv (st\<lparr>entries := hm_insert (''r'' @ show_u64 n) e (entries st)\<rparr>, n + 1)" for e
  proof -
    have "\<exists>m < n + 1. k = ''r'' @ show_u64 m"
      if "k \<in> set (map fst (hm_insert (''r'' @ show_u64 n) e (entries st)))" for k
    proof (cases "k = ''r'' @ show_u64 n")
      case False
      with that have "k \<in> set (map fst (entries st))" by (auto simp: hm_insert_def)
      with inv obtain m where "m < n" "k = ''r'' @ show_u64 m" by (auto simp: store_inv_def)
      with room show ?thesis using less_trans by blast
    qed (use room in blast)
    with inv show ?thesis by (simp add: store_inv_def hm.inv_ins)
  qed
  with inv show ?thesis
    by (simp add: put_def Let_def handle_new_def handle_to_string_def)
qed

section \<open>Eviction\<close>

lemma distinct_subset_length_filter:
  assumes "distinct (map fst m)" and "distinct ks" and "set ks \<subseteq> set (map fst m)"
  shows "length (filter (\<lambda>p. fst p \<notin> set ks) m) = length m - length ks"
proof -
  have "length (filter (\<lambda>p. fst p \<notin> set ks) m) = card (set (map fst m) - set ks)"
  proof -
    have "distinct (map fst (filter (\<lambda>p. fst p \<notin> set ks) m))"
      using assms(1) by (rule distinct_map_filter)
    moreover have "set (map fst (filter (\<lambda>p. fst p \<notin> set ks) m)) = set (map fst m) - set ks"
      by auto
    ultimately show ?thesis by (metis distinct_card length_map)
  qed
  also have "\<dots> = length m - length ks"
    using assms by (simp only: card_Diff_subset finite_set distinct_card length_map)
  finally show ?thesis .
qed

definition age_keys :: "(string, store_entry) hashmap \<Rightarrow> (string \<times> nat) list" where
  "age_keys m = sort_key snd (map (\<lambda>(k, e). (k, se_created e)) m)"

lemma set_age_keys: "set (map fst (age_keys m)) = set (map fst m)"
  by (force simp: age_keys_def)

lemma distinct_age_keys: "distinct (map fst m) \<Longrightarrow> distinct (map fst (age_keys m))"
proof -
  assume d: "distinct (map fst m)"
  have "map fst (map (\<lambda>(k, e). (k, se_created e)) m) = map fst m" by auto
  with d have "card (set (map fst (age_keys m))) = length (map fst (age_keys m))"
    by (simp only: set_age_keys distinct_card) (simp add: age_keys_def)
  then show ?thesis by (rule card_distinct)
qed

lemma enforce_cap_eq:
  "enforce_cap c st =
     (if length (entries st) \<le> c then (0, st)
      else let ks = map fst (take (length (entries st) - c) (age_keys (entries st)))
           in (length ks, st\<lparr>entries := filter (\<lambda>p. fst p \<notin> set ks) (entries st)\<rparr>))"
  by (simp add: enforce_cap_def age_keys_def Let_def foldl_hm_remove)

lemma created_in_age_keys:
  "(k, t) \<in> set (age_keys m) \<longleftrightarrow> (\<exists>e. (k, e) \<in> set m \<and> t = se_created e)"
  by (force simp: age_keys_def)

lemma sorted_age_keys: "sorted (map snd (age_keys m))"
  by (simp add: age_keys_def)

text \<open>In a sorted list nothing in the front is larger than anything at the back.\<close>

lemma sorted_take_drop_le:
  assumes "sorted (map f xs)" and "x \<in> set (take n xs)" and "y \<in> set (drop n xs)"
  shows "f x \<le> f y"
proof -
  have "sorted (map f (take n xs) @ map f (drop n xs))"
    using assms(1) by (simp flip: map_append)
  with assms(2,3) show ?thesis by (auto simp: sorted_append)
qed

lemma enforce_cap_kept_newer:
  assumes inv: "hm_inv (entries st)"
    and kept: "(k, e) \<in> set (entries (snd (enforce_cap c st)))"
    and gone: "(j, d) \<in> set (entries st)" "(j, d) \<notin> set (entries (snd (enforce_cap c st)))"
  shows "se_created d \<le> se_created e"
proof -
  let ?n = "length (entries st) - c" and ?ks = "age_keys (entries st)"
  have big: "\<not> length (entries st) \<le> c"
    using gone by (auto simp: enforce_cap_eq)
  with kept have k: "(k, e) \<in> set (entries st)" "k \<notin> set (map fst (take ?n ?ks))"
    by (auto simp: enforce_cap_eq Let_def)
  from big gone have j: "j \<in> set (map fst (take ?n ?ks))"
    by (auto simp: enforce_cap_eq Let_def)
  then obtain t where t: "(j, t) \<in> set (take ?n ?ks)" by auto
  then obtain d' where "(j, d') \<in> set (entries st)" "t = se_created d'"
    by (auto dest!: in_set_takeD simp: created_in_age_keys)
  with gone(1) inv have td: "t = se_created d"
    by (auto simp: hm_inv_def dest: eq_key_imp_eq_value)
  have "(k, se_created e) \<in> set ?ks" using k(1) by (auto simp: created_in_age_keys)
  moreover have "(k, se_created e) \<notin> set (take ?n ?ks)" using k(2) by force
  ultimately have "(k, se_created e) \<in> set (drop ?n ?ks)"
    by (metis Un_iff append_take_drop_id set_append)
  from sorted_take_drop_le [OF sorted_age_keys t this] td show ?thesis by simp
qed

lemma enforce_cap_count:
  assumes inv: "hm_inv (entries st)"
  shows "fst (enforce_cap c st) = store_len st - c
    \<and> store_len (snd (enforce_cap c st)) = min (store_len st) c"
proof (cases "length (entries st) \<le> c")
  case False
  let ?ks = "map fst (take (length (entries st) - c) (age_keys (entries st)))"
  have d: "distinct (map fst (entries st))" using inv by (simp add: hm_inv_def)
  have "distinct ?ks"
    using distinct_age_keys [OF d] by (metis distinct_take take_map)
  moreover have "set ?ks \<subseteq> set (map fst (entries st))"
    using set_age_keys [of "entries st"] by (auto dest!: in_set_takeD)
  ultimately have "length (filter (\<lambda>p. fst p \<notin> set ?ks) (entries st))
      = length (entries st) - length ?ks"
    using d by (intro distinct_subset_length_filter)
  moreover have "length ?ks = length (entries st) - c"
    by (simp add: age_keys_def)
  ultimately show ?thesis
    using False by (simp add: enforce_cap_eq Let_def store_len_def min_def)
qed (simp add: enforce_cap_eq store_len_def)

section \<open>Runs of the store\<close>

datatype store_op =
    OpPut string json usize
  | OpGet string
  | OpRelease string
  | OpSweep
  | OpCap usize

fun store_exec ::
  "(json \<Rightarrow> string option) \<Rightarrow> nat \<Rightarrow> store_op \<Rightarrow> result_store \<times> u64 \<Rightarrow> result_store \<times> u64" where
  "store_exec ts now (OpPut tool p th) s = snd (put ts now tool p th s)"
| "store_exec ts now (OpGet h) s = (snd (get now h (fst s)), snd s)"
| "store_exec ts now (OpRelease h) s = (snd (release h (fst s)), snd s)"
| "store_exec ts now OpSweep s = (snd (sweep now (fst s)), snd s)"
| "store_exec ts now (OpCap c) s = (snd (enforce_cap c (fst s)), snd s)"

text \<open>Reachable stores of a process whose handle counter has not wrapped.\<close>

inductive store_reach :: "(json \<Rightarrow> string option) \<Rightarrow> nat \<Rightarrow> result_store \<times> u64 \<Rightarrow> bool"
  for ts :: "json \<Rightarrow> string option" where
  reach_new: "store_reach ts now (store_new ttl, next_id_init)"
| reach_step: "store_reach ts now s \<Longrightarrow> now \<le> now' \<Longrightarrow> snd s < snd s + 1 \<Longrightarrow>
     store_reach ts now' (store_exec ts now' op s)"

lemma store_exec_inv: "store_inv s \<Longrightarrow> snd s < snd s + 1 \<Longrightarrow> store_inv (store_exec ts now op s)"
  by (cases s; cases op)
    (simp_all add: store_inv_put store_inv_get store_inv_release store_inv_sweep store_inv_enforce_cap)

lemma store_reach_inv: "store_reach ts now s \<Longrightarrow> store_inv s"
  by (induction rule: store_reach.induct) (simp_all add: store_inv_new store_exec_inv)

section \<open>Properties\<close>

text \<open>
  A payload that was spilled is returned unchanged by every \<open>get\<close> of its handle until its
  time to live has passed, and reading it changes nothing in the store.
\<close>

lemma put_then_get:
  assumes "put ts now tool p th (st, n) = ((h, pv, True), st', n')"
    and "now \<le> now'" and "now' < now + rs_ttl st"
  shows "get now' h st' = (Inr p, st')"
  using assms
  by (auto simp: put_def get_def Let_def handle_new_def hm_insert_def expired_def elapsed_def
      split: if_splits option.splits)

text \<open>
  In every reachable store a spill takes a handle that is not in use: the store grows by
  exactly one entry and no other handle changes what it denotes.
\<close>

lemma spill_is_fresh:
  assumes reach: "store_reach ts now (st, n)"
    and put: "put ts now tool p th (st, n) = ((h, pv, True), st', n')"
  shows "map_of (entries st) h = None \<and> store_len st' = Suc (store_len st)
    \<and> (\<forall>k. k \<noteq> h \<longrightarrow> map_of (entries st') k = map_of (entries st) k)"
proof -
  have inv: "store_inv (st, n)" using reach by (rule store_reach_inv)
  have h: "h = ''r'' @ show_u64 n"
    using put by (auto simp: put_def Let_def handle_new_def handle_to_string_def split: if_splits)
  then have "map_of (entries st) h = None" using inv by (simp only: fresh_handle)
  moreover obtain e where e: "entries st' = hm_insert h e (entries st)"
    using put h
    by (auto simp: put_def Let_def handle_new_def handle_to_string_def split: if_splits)
  moreover have "hm_inv (entries st)" using inv by (simp add: store_inv_def)
  ultimately show ?thesis
    by (simp add: store_len_def hm.length_ins hm.get_ins_other)
qed

text \<open>
  C32: the hard cap holds after \<open>enforce_cap\<close>: the store has at most \<open>max\<close> entries, exactly the
  excess was evicted, and nothing evicted is newer than anything kept.
\<close>

theorem enforce_cap_bounds_and_evicts_oldest:
  assumes "store_reach ts now (st, n)"
  shows "store_len (snd (enforce_cap c st)) = min (store_len st) c
    \<and> fst (enforce_cap c st) = store_len st - c
    \<and> (\<forall>k e j d. (k, e) \<in> set (entries (snd (enforce_cap c st))) \<longrightarrow> (j, d) \<in> set (entries st) \<longrightarrow>
         (j, d) \<notin> set (entries (snd (enforce_cap c st))) \<longrightarrow> se_created d \<le> se_created e)"
proof -
  have inv: "hm_inv (entries st)"
    using store_reach_inv [OF assms] by (simp add: store_inv_def)
  show ?thesis
    using enforce_cap_count [OF inv, of c] enforce_cap_kept_newer [OF inv] by blast
qed

theorem enforce_cap_bounds_and_evicts_oldest_witness:
  "store_len (snd (enforce_cap 4 (store_new 60))) = 0"
  using enforce_cap_bounds_and_evicts_oldest [OF reach_new [of "\<lambda>_. None" 0 60], of 4]
  by (simp add: store_len_def store_new_def)

text \<open>\<open>sweep\<close> drops exactly the expired entries and reports how many it dropped.\<close>

lemma sweep_removes_exactly_expired:
  assumes "hm_inv (entries st)"
  shows "entries (snd (sweep now st)) = filter (\<lambda>(_, e). \<not> expired now e) (entries st)
    \<and> fst (sweep now st) + store_len (snd (sweep now st)) = store_len st"
proof -
  let ?dead = "map fst (filter (\<lambda>(_, e). expired now e) (entries st))"
  have "fst p \<notin> set ?dead \<longleftrightarrow> \<not> expired now (snd p)" if p: "p \<in> set (entries st)" for p
  proof
    assume "fst p \<notin> set ?dead"
    with p show "\<not> expired now (snd p)" by (force simp: case_prod_unfold)
  next
    assume live: "\<not> expired now (snd p)"
    show "fst p \<notin> set ?dead"
    proof
      assume "fst p \<in> set ?dead"
      then obtain e where e: "(fst p, e) \<in> set (entries st)" "expired now e" by auto
      have "e = snd p" using assms e(1) by (rule hm_inv_unique) (simp add: p)
      with e live show False by simp
    qed
  qed
  then have "filter (\<lambda>p. fst p \<notin> set ?dead) (entries st)
      = filter (\<lambda>(_, e). \<not> expired now e) (entries st)"
    by (intro filter_cong) auto
  then have "entries (snd (sweep now st)) = filter (\<lambda>(_, e). \<not> expired now e) (entries st)"
    by (simp add: sweep_def Let_def foldl_hm_remove)
  then show ?thesis
    using sum_length_filter_compl [of "\<lambda>(_, e). expired now e" "entries st"]
    by (simp add: store_len_def sweep_def Let_def case_prod_unfold)
qed

text \<open>
  A preview is at most \<open>max_chars\<close> bytes of the payload's text, cut at a character
  boundary, plus the three bytes of the ellipsis; no later cut at a boundary would fit.
\<close>

lemma preview_is_bounded_prefix:
  assumes "ts p = Some s"
  shows "if length s \<le> k then preview_of ts p k = s
    else \<exists>c \<le> k. preview_of ts p k = take c s @ ellipsis \<and> is_char_boundary s c
           \<and> (\<forall>j. c < j \<longrightarrow> j \<le> k \<longrightarrow> \<not> is_char_boundary s j)"
proof (cases "length s \<le> k")
  case False
  let ?c = "back_to_boundary s k"
  have "preview_of ts p k = take ?c s @ ellipsis"
    using False assms by (simp add: preview_of_def)
  then show ?thesis
    using False back_to_boundary_le [of s k] back_to_boundary_ok [of s k]
      back_to_boundary_max [of s k] by auto
qed (simp add: preview_of_def assms)

end
