(* ===== verification/Jobs.thy ===== *)
theory Jobs
  imports Result_Store
begin

text \<open>
  \<open>crates/rmcp-broker/src/jobs.rs\<close>: background jobs. The registry's operations are functions on
  the manager, as each holds its mutex throughout; the spawned task that stores a job's
  outcome, and the janitor's sweep, which takes the mutex twice, are steps of their own,
  interleaved with the rest by the relation \<open>job_step\<close>. Instants are milliseconds; the worker
  call itself is an arbitrary outcome.
\<close>

datatype job_state = JobRunning | JobDone json | JobFailed string | JobCancelled

record job =
  jb_db :: string
  jb_method :: string
  jb_summary :: string
  jb_state :: job_state
  jb_started :: nat
  jb_finished :: "nat option"

definition job_status :: "job \<Rightarrow> string" where
  "job_status j = (case jb_state j of
       JobRunning \<Rightarrow> ''running''
     | JobDone _ \<Rightarrow> ''done''
     | JobFailed _ \<Rightarrow> ''failed''
     | JobCancelled \<Rightarrow> ''cancelled'')"

record job_manager =
  jm_jobs :: "(string, job) hashmap"
  jm_max_running :: usize
  jm_result_ttl :: nat

definition manager_new :: "usize \<Rightarrow> nat \<Rightarrow> job_manager" where
  "manager_new max_running ttl = \<lparr>jm_jobs = [], jm_max_running = max max_running 1, jm_result_ttl = ttl\<rparr>"

definition running_count :: "job_manager \<Rightarrow> usize" where
  "running_count jm = length (filter (\<lambda>(_, j). job_status j = ''running'') (jm_jobs jm))"

text \<open>\<open>&s[..200]\<close> panics inside a multi-byte character.\<close>

definition job_summary :: "string \<Rightarrow> string result" where
  "job_summary s =
     (if length s > 200 then
        (if is_char_boundary s 200 then Inr (take 200 s @ ellipsis)
         else Inl (Panic ''byte index 200 is not a char boundary''))
      else Inr s)"

text \<open>The registration part of \<open>start\<close>: everything up to spawning the task.\<close>

definition job_start ::
  "(json \<Rightarrow> string option) \<Rightarrow> nat \<Rightarrow> string \<Rightarrow> string \<Rightarrow> json \<Rightarrow> job_manager \<times> u64 \<Rightarrow> string result \<times> job_manager \<times> u64"
where
  "job_start to_string now db method p s =
     (let (jm, next_id) = s; running = running_count jm in
      if running \<ge> jm_max_running jm then
        (Inl (Worker (''too many background jobs running ('' @ show_nat running @ ''/'' @ show_nat (jm_max_running jm)
           @ ''); collect results with ida_jobs action=result first'')), jm, next_id)
      else case job_summary (unwrap_or (to_string p) []) of
        Inl e \<Rightarrow> (Inl e, jm, next_id)
      | Inr summary \<Rightarrow>
          (let (h, next_id') = handle_new ''job'' next_id; i = handle_to_string h
           in (Inr i, jm\<lparr>jm_jobs := hm_insert i \<lparr>jb_db = db, jb_method = method, jb_summary = summary,
                 jb_state = JobRunning, jb_started = now, jb_finished = None\<rparr> (jm_jobs jm)\<rparr>, next_id')))"

text \<open>What the spawned task does with the outcome of the worker call.\<close>

definition outcome_state :: "json result \<Rightarrow> job_state" where
  "outcome_state outcome = (case outcome of
       Inr v \<Rightarrow> JobDone v
     | Inl e \<Rightarrow> (case e of
         Worker msg \<Rightarrow>
           if str_contains msg ''timed out''
           then JobFailed (''budget exhausted ('' @ msg @ ''); the agent can restart the same call via ida_jobs action=start with a larger timeout_ms - revision caches make the retry cheap'')
           else JobFailed (error_to_string e)
       | _ \<Rightarrow> JobFailed (error_to_string e)))"

definition job_finish :: "nat \<Rightarrow> json result \<Rightarrow> string \<Rightarrow> job_manager \<Rightarrow> job_manager" where
  "job_finish now outcome i jm = (case map_of (jm_jobs jm) i of
       None \<Rightarrow> jm
     | Some j \<Rightarrow> jm\<lparr>jm_jobs := hm_insert i (j\<lparr>jb_state := outcome_state outcome, jb_finished := Some now\<rparr>) (jm_jobs jm)\<rparr>)"

definition elapsed_secs :: "nat \<Rightarrow> job \<Rightarrow> json" where
  "elapsed_secs now j = jn (elapsed now (jb_started j) div 1000)"

definition job_status_view :: "nat \<Rightarrow> string \<Rightarrow> job_manager \<Rightarrow> json result" where
  "job_status_view now i jm = (case map_of (jm_jobs jm) i of
       None \<Rightarrow> Inl (UnknownResult i)
     | Some j \<Rightarrow> Inr (JObj [
         (''id'', JStr i), (''db'', JStr (jb_db j)), (''method'', JStr (jb_method j)), (''params'', JStr (jb_summary j)),
         (''status'', JStr (job_status j)), (''elapsed_secs'', elapsed_secs now j),
         (''note'', JStr (if job_status j = ''running'' then ''the agent can keep working; poll again or switch tasks''
                          else if job_status j = ''done'' then ''collect with action=result''
                          else ''failed; the error explains the next move''))]))"

definition job_result :: "nat \<Rightarrow> string \<Rightarrow> job_manager \<Rightarrow> json result" where
  "job_result now i jm = (case map_of (jm_jobs jm) i of
       None \<Rightarrow> Inl (UnknownResult i)
     | Some j \<Rightarrow> (case jb_state j of
         JobDone v \<Rightarrow> Inr (JObj [(''id'', JStr i), (''status'', JStr ''done''), (''elapsed_secs'', elapsed_secs now j),
                                (''result'', v)])
       | JobFailed msg \<Rightarrow> Inr (JObj [(''id'', JStr i), (''status'', JStr ''failed''), (''error'', JStr msg),
                                (''note'', JStr ''revision caches make a retry with a larger budget cheap'')])
       | JobCancelled \<Rightarrow> Inl (Worker (''job '' @ i @ '' was cancelled''))
       | JobRunning \<Rightarrow> Inr (JObj [(''id'', JStr i), (''status'', JStr ''running''), (''elapsed_secs'', elapsed_secs now j),
                                (''note'', JStr ''result not ready; poll status or keep working'')])))"

definition job_list :: "nat \<Rightarrow> job_manager \<Rightarrow> json list" where
  "job_list now jm = map (\<lambda>j. JObj [(''db'', JStr (jb_db j)), (''method'', JStr (jb_method j)),
       (''status'', JStr (job_status j)), (''elapsed_secs'', elapsed_secs now j), (''summary'', JStr (jb_summary j))])
     (take 50 (sort_key (\<lambda>j. (job_status j \<noteq> ''running'', - int (jb_started j))) (map snd (jm_jobs jm))))"

definition job_cancel :: "nat \<Rightarrow> string \<Rightarrow> job_manager \<Rightarrow> json result \<times> job_manager" where
  "job_cancel now i jm = (case map_of (jm_jobs jm) i of
       None \<Rightarrow> (Inl (UnknownResult i), jm)
     | Some j \<Rightarrow>
         if jb_state j = JobRunning then
           (Inr (JObj [(''id'', JStr i), (''cancelled'', JBool True), (''note'', JStr
              ''the in-flight worker call cannot be interrupted mid-frame; its result will be discarded when it returns'')]),
            jm\<lparr>jm_jobs := hm_insert i (j\<lparr>jb_state := JobCancelled, jb_finished := Some now\<rparr>) (jm_jobs jm)\<rparr>)
         else (Inr (JObj [(''id'', JStr i), (''cancelled'', JBool False), (''status'', JStr (job_status j))]), jm))"

text \<open>The two critical sections of \<open>sweep\<close>.\<close>

definition sweep_collect :: "nat \<Rightarrow> job_manager \<Rightarrow> string list" where
  "sweep_collect now jm = map fst (filter (\<lambda>(_, j). job_status j \<noteq> ''running'' \<and>
     (case jb_finished j of Some f \<Rightarrow> elapsed now f \<ge> jm_result_ttl jm | None \<Rightarrow> False)) (jm_jobs jm))"

definition sweep_remove :: "string list \<Rightarrow> job_manager \<Rightarrow> job_manager" where
  "sweep_remove keys jm = jm\<lparr>jm_jobs := foldl (\<lambda>m k. hm_remove k m) (jm_jobs jm) keys\<rparr>"

section \<open>Interleavings\<close>

record job_world =
  jw_jobs :: job_manager
  jw_next :: u64
  jw_now :: nat
  jw_tasks :: "string list"
  jw_sweep :: "string list"

definition world_new :: "usize \<Rightarrow> nat \<Rightarrow> job_world" where
  "world_new max_running ttl = \<lparr>jw_jobs = manager_new max_running ttl, jw_next = next_id_init, jw_now = 0,
     jw_tasks = [], jw_sweep = []\<rparr>"

text \<open>
  One step of the broker as far as jobs are concerned. The handle counter is taken not to wrap.
\<close>

inductive job_step :: "job_world \<Rightarrow> job_world \<Rightarrow> bool" where
  step_tick: "jw_now w \<le> t \<Longrightarrow> job_step w (w\<lparr>jw_now := t\<rparr>)"
| step_start: "job_start to_string (jw_now w) db method p (jw_jobs w, jw_next w) = (Inr i, jm, nxt) \<Longrightarrow>
    jw_next w < nxt \<Longrightarrow> job_step w (w\<lparr>jw_jobs := jm, jw_next := nxt, jw_tasks := i # jw_tasks w\<rparr>)"
| step_other_handle: "handle_new ''r'' (jw_next w) = (h, nxt) \<Longrightarrow> jw_next w < nxt \<Longrightarrow> job_step w (w\<lparr>jw_next := nxt\<rparr>)"
| step_finish: "i \<in> set (jw_tasks w) \<Longrightarrow>
    job_step w (w\<lparr>jw_jobs := job_finish (jw_now w) outcome i (jw_jobs w), jw_tasks := remove1 i (jw_tasks w)\<rparr>)"
| step_cancel: "job_step w (w\<lparr>jw_jobs := snd (job_cancel (jw_now w) i (jw_jobs w))\<rparr>)"
| step_collect: "jw_sweep w = [] \<Longrightarrow> job_step w (w\<lparr>jw_sweep := sweep_collect (jw_now w) (jw_jobs w)\<rparr>)"
| step_remove: "job_step w (w\<lparr>jw_jobs := sweep_remove (jw_sweep w) (jw_jobs w), jw_sweep := []\<rparr>)"

inductive_cases job_stepE: "job_step w w'"

section \<open>Invariant of the registry\<close>

definition running_keys :: "job_manager \<Rightarrow> string set" where
  "running_keys jm = {i. \<exists>j. map_of (jm_jobs jm) i = Some j \<and> jb_state j = JobRunning}"

lemma status_running_iff: "job_status j = ''running'' \<longleftrightarrow> jb_state j = JobRunning"
  by (simp add: job_status_def split: job_state.splits)

lemma running_keys_finite: "finite (running_keys jm)"
  by (rule finite_subset [of _ "dom (map_of (jm_jobs jm))"]) (auto simp: running_keys_def finite_dom_map_of)

lemma running_count_card: "hm_inv (jm_jobs jm) \<Longrightarrow> running_count jm = card (running_keys jm)"
proof -
  assume inv: "hm_inv (jm_jobs jm)"
  let ?f = "filter (\<lambda>(_, j). job_status j = ''running'') (jm_jobs jm)"
  have "distinct (map fst ?f)" using inv by (simp add: hm_inv_def distinct_map_filter_fst)
  then have "length ?f = card (set (map fst ?f))" by (simp only: distinct_card length_map)
  moreover have "set (map fst ?f) = running_keys jm"
  proof (rule set_eqI)
    fix i
    have "i \<in> set (map fst ?f) \<longleftrightarrow> (\<exists>j. (i, j) \<in> set (jm_jobs jm) \<and> job_status j = ''running'')" by force
    then show "i \<in> set (map fst ?f) \<longleftrightarrow> i \<in> running_keys jm"
      by (simp only: hm.mem_iff_get [OF inv] running_keys_def mem_Collect_eq status_running_iff)
  qed
  ultimately show ?thesis by (simp add: running_count_def)
qed

abbreviation job_id :: "u64 \<Rightarrow> string" where
  "job_id n \<equiv> handle_to_string \<lparr>prefix_of = ''job'', num = n\<rparr>"

lemma job_id_inj: "job_id m = job_id n \<Longrightarrow> m = n"
  using handle_to_string_inj [of "\<lparr>prefix_of = ''job'', num = m\<rparr>" "\<lparr>prefix_of = ''job'', num = n\<rparr>"] by simp

text \<open>What is known of one registered job, given the tasks still in flight.\<close>

definition job_ok :: "string list \<Rightarrow> string \<Rightarrow> job \<Rightarrow> bool" where
  "job_ok tasks i j \<longleftrightarrow>
     (jb_state j = JobRunning \<longrightarrow> i \<in> set tasks) \<and>
     (i \<in> set tasks \<longrightarrow> jb_state j = JobRunning \<or> jb_state j = JobCancelled) \<and>
     (jb_finished j = None \<longleftrightarrow> jb_state j = JobRunning)"

definition job_inv :: "job_world \<Rightarrow> bool" where
  "job_inv w \<longleftrightarrow> hm_inv (jm_jobs (jw_jobs w)) \<and>
     card (running_keys (jw_jobs w)) \<le> jm_max_running (jw_jobs w) \<and> distinct (jw_tasks w) \<and>
     (\<forall>i. i \<in> set (jw_tasks w) \<or> map_of (jm_jobs (jw_jobs w)) i \<noteq> None \<longrightarrow> (\<exists>n < jw_next w. i = job_id n)) \<and>
     (\<forall>i j. map_of (jm_jobs (jw_jobs w)) i = Some j \<longrightarrow> job_ok (jw_tasks w) i j)"

lemma running_keys_put:
  "hm_inv (jm_jobs jm) \<Longrightarrow> running_keys (jm\<lparr>jm_jobs := hm_insert i j (jm_jobs jm)\<rparr>) =
     (if jb_state j = JobRunning then insert i (running_keys jm) else running_keys jm - {i})"
  by (auto simp: running_keys_def hm.get_ins)

lemma job_inv_new: "job_inv (world_new k ttl)"
  by (simp add: job_inv_def world_new_def manager_new_def running_keys_def hm_inv_def)

lemma outcome_not_running: "outcome_state r \<noteq> JobRunning"
  by (simp add: outcome_state_def split: sum.splits error.splits)

lemma job_start_ok:
  assumes "job_start to_string now db method p (jm, nxt) = (Inr i, jm', nxt')"
  shows "\<exists>j. i = job_id nxt \<and> nxt' = nxt + 1 \<and> running_count jm < jm_max_running jm \<and> jb_state j = JobRunning \<and>
     jb_finished j = None \<and> jm' = jm\<lparr>jm_jobs := hm_insert i j (jm_jobs jm)\<rparr>"
proof -
  from assms obtain summary where s: "i = job_id nxt" "nxt' = nxt + 1" "running_count jm < jm_max_running jm"
    "jm' = jm\<lparr>jm_jobs := hm_insert i \<lparr>jb_db = db, jb_method = method, jb_summary = summary,
        jb_state = JobRunning, jb_started = now, jb_finished = None\<rparr> (jm_jobs jm)\<rparr>"
    by (auto simp: job_start_def handle_new_def Let_def split: if_splits sum.splits)
  show ?thesis
    by (rule exI [of _ "\<lparr>jb_db = db, jb_method = method, jb_summary = summary,
        jb_state = JobRunning, jb_started = now, jb_finished = None\<rparr>"]) (simp add: s)
qed

lemma job_inv_start:
  assumes inv: "job_inv w" and st: "job_start to_string (jw_now w) db method p (jw_jobs w, jw_next w) = (Inr i, jm, nxt)"
    and lt: "jw_next w < nxt"
  shows "job_inv (w\<lparr>jw_jobs := jm, jw_next := nxt, jw_tasks := i # jw_tasks w\<rparr>)"
proof -
  from job_start_ok [OF st] obtain j where j: "i = job_id (jw_next w)" "nxt = jw_next w + 1"
    "running_count (jw_jobs w) < jm_max_running (jw_jobs w)" "jb_state j = JobRunning" "jb_finished j = None"
    "jm = (jw_jobs w)\<lparr>jm_jobs := hm_insert i j (jm_jobs (jw_jobs w))\<rparr>" by blast
  have hm: "hm_inv (jm_jobs (jw_jobs w))" using inv by (simp add: job_inv_def)
  have fresh: "i \<notin> set (jw_tasks w) \<and> map_of (jm_jobs (jw_jobs w)) i = None"
    using inv j(1) by (fastforce simp: job_inv_def dest!: job_id_inj)
  have card: "card (running_keys jm) \<le> jm_max_running jm"
    using j running_count_card [OF hm] running_keys_put [OF hm, of i j] running_keys_finite [of "jw_jobs w"]
    by (simp add: card_insert_if)
  have ids: "\<exists>m < nxt. k = job_id m"
    if "k \<in> set (i # jw_tasks w) \<or> map_of (hm_insert i j (jm_jobs (jw_jobs w))) k \<noteq> None" for k
  proof (cases "k = i")
    case True
    with j(1) lt show ?thesis by blast
  next
    case False
    with that have "k \<in> set (jw_tasks w) \<or> map_of (jm_jobs (jw_jobs w)) k \<noteq> None"
      by (simp add: hm.get_ins [OF hm] split: if_splits)
    then obtain m where "m < jw_next w" "k = job_id m" using inv by (auto simp: job_inv_def)
    with lt show ?thesis by (auto intro: less_trans)
  qed
  have ok: "job_ok (i # jw_tasks w) k q" if "map_of (hm_insert i j (jm_jobs (jw_jobs w))) k = Some q" for k q
    using that inv j fresh by (auto simp: hm.get_ins [OF hm] job_ok_def job_inv_def split: if_splits)
  show ?thesis
    unfolding job_inv_def using card ids ok fresh inv j(6) by (simp add: hm.inv_ins [OF hm]) (simp add: job_inv_def)
qed

text \<open>Rewriting one registered job to a finished state.\<close>

lemma job_inv_put_finished:
  assumes inv: "job_inv w" and i: "map_of (jm_jobs (jw_jobs w)) i \<noteq> None"
    and j: "jb_state j \<noteq> JobRunning" "jb_finished j \<noteq> None"
    and t: "set tasks \<subseteq> set (jw_tasks w)" "distinct tasks" "set (jw_tasks w) - {i} \<subseteq> set tasks"
      "i \<in> set tasks \<longrightarrow> jb_state j = JobCancelled"
  shows "job_inv (w\<lparr>jw_jobs := (jw_jobs w)\<lparr>jm_jobs := hm_insert i j (jm_jobs (jw_jobs w))\<rparr>, jw_tasks := tasks\<rparr>)"
proof -
  have hm: "hm_inv (jm_jobs (jw_jobs w))" using inv by (simp add: job_inv_def)
  have "card (running_keys (jw_jobs w) - {i}) \<le> card (running_keys (jw_jobs w))"
    by (intro card_mono running_keys_finite) auto
  then have card: "card (running_keys ((jw_jobs w)\<lparr>jm_jobs := hm_insert i j (jm_jobs (jw_jobs w))\<rparr>))
      \<le> jm_max_running (jw_jobs w)"
    using inv j(1) by (simp add: running_keys_put [OF hm] job_inv_def)
  have ids: "\<exists>m < jw_next w. k = job_id m"
    if "k \<in> set tasks \<or> map_of (hm_insert i j (jm_jobs (jw_jobs w))) k \<noteq> None" for k
    using that inv i t(1) by (auto simp: hm.get_ins [OF hm] job_inv_def split: if_splits)
  have ok: "job_ok tasks k q" if "map_of (hm_insert i j (jm_jobs (jw_jobs w))) k = Some q" for k q
    using that inv j t by (fastforce simp: hm.get_ins [OF hm] job_ok_def job_inv_def split: if_splits)
  show ?thesis
    unfolding job_inv_def using card ids ok t(2) by (simp add: hm.inv_ins [OF hm])
qed

lemma job_inv_finish:
  assumes "job_inv w"
  shows "job_inv (w\<lparr>jw_jobs := job_finish (jw_now w) outcome i (jw_jobs w), jw_tasks := remove1 i (jw_tasks w)\<rparr>)"
proof (cases "map_of (jm_jobs (jw_jobs w)) i")
  case None
  have d: "distinct (jw_tasks w)" using assms by (simp add: job_inv_def)
  have "job_ok (remove1 i (jw_tasks w)) k q" if "map_of (jm_jobs (jw_jobs w)) k = Some q" for k q
  proof -
    from that None have "k \<noteq> i" by auto
    moreover have "job_ok (jw_tasks w) k q" using that assms by (simp add: job_inv_def)
    ultimately show ?thesis using d by (simp add: job_ok_def)
  qed
  with None assms d show ?thesis
    unfolding job_inv_def job_finish_def by (auto dest: notin_set_remove1 set_remove1_subset [THEN subsetD])
next
  case (Some j)
  have "distinct (jw_tasks w)" using assms by (simp add: job_inv_def)
  with Some have "job_inv (w\<lparr>jw_jobs := (jw_jobs w)\<lparr>jm_jobs := hm_insert i
      (j\<lparr>jb_state := outcome_state outcome, jb_finished := Some (jw_now w)\<rparr>) (jm_jobs (jw_jobs w))\<rparr>,
      jw_tasks := remove1 i (jw_tasks w)\<rparr>)"
    by (intro job_inv_put_finished [OF assms]) (auto simp: outcome_not_running)
  with Some show ?thesis by (simp add: job_finish_def)
qed

lemma job_inv_cancel:
  assumes "job_inv w"
  shows "job_inv (w\<lparr>jw_jobs := snd (job_cancel (jw_now w) i (jw_jobs w))\<rparr>)"
proof (cases "\<exists>j. map_of (jm_jobs (jw_jobs w)) i = Some j \<and> jb_state j = JobRunning")
  case False
  then have "snd (job_cancel (jw_now w) i (jw_jobs w)) = jw_jobs w"
    by (auto simp: job_cancel_def split: option.splits)
  with assms show ?thesis by simp
next
  case True
  then obtain j where j: "map_of (jm_jobs (jw_jobs w)) i = Some j" "jb_state j = JobRunning" by blast
  have "distinct (jw_tasks w)" using assms by (simp add: job_inv_def)
  then have "job_inv (w\<lparr>jw_jobs := (jw_jobs w)\<lparr>jm_jobs := hm_insert i
      (j\<lparr>jb_state := JobCancelled, jb_finished := Some (jw_now w)\<rparr>) (jm_jobs (jw_jobs w))\<rparr>, jw_tasks := jw_tasks w\<rparr>)"
    using j by (intro job_inv_put_finished [OF assms]) auto
  with j show ?thesis by (simp add: job_cancel_def)
qed

lemma sweep_remove_get:
  "hm_inv m \<Longrightarrow> hm_inv (foldl (\<lambda>m k. hm_remove k m) m keys) \<and>
     map_of (foldl (\<lambda>m k. hm_remove k m) m keys) i = (if i \<in> set keys then None else map_of m i)"
proof (induction keys arbitrary: m)
  case (Cons k keys)
  from Cons.IH [OF hm.inv_del [OF Cons.prems, of k]] show ?case by (simp add: hm.get_del [OF Cons.prems])
qed simp

lemma job_inv_remove:
  assumes "job_inv w"
  shows "job_inv (w\<lparr>jw_jobs := sweep_remove keys (jw_jobs w), jw_sweep := []\<rparr>)"
proof -
  have hm: "hm_inv (jm_jobs (jw_jobs w))" using assms by (simp add: job_inv_def)
  note g = sweep_remove_get [OF hm, of keys]
  have "running_keys (sweep_remove keys (jw_jobs w)) \<subseteq> running_keys (jw_jobs w)"
    using g by (auto simp: running_keys_def sweep_remove_def split: if_splits)
  then have "card (running_keys (sweep_remove keys (jw_jobs w))) \<le> card (running_keys (jw_jobs w))"
    by (intro card_mono running_keys_finite)
  with assms g show ?thesis
    unfolding job_inv_def sweep_remove_def by (auto split: if_splits)
qed

lemma job_inv_quiet:
  "job_inv w \<Longrightarrow> job_inv (w\<lparr>jw_now := t\<rparr>)" "job_inv w \<Longrightarrow> job_inv (w\<lparr>jw_sweep := ks\<rparr>)"
  by (simp_all add: job_inv_def)

lemma job_inv_next: "job_inv w \<Longrightarrow> jw_next w < nxt \<Longrightarrow> job_inv (w\<lparr>jw_next := nxt\<rparr>)"
  by (simp add: job_inv_def) (meson less_trans)

lemma job_inv_step: "job_step w w' \<Longrightarrow> job_inv w \<Longrightarrow> job_inv w'"
  by (induction rule: job_step.induct)
    (blast intro: job_inv_start job_inv_finish job_inv_cancel job_inv_remove job_inv_quiet job_inv_next)+

lemma job_inv_reach: "job_step\<^sup>*\<^sup>* w w' \<Longrightarrow> job_inv w \<Longrightarrow> job_inv w'"
  by (induction rule: rtranclp_induct) (auto intro: job_inv_step)

section \<open>Bounds and keeping of results\<close>

lemma step_config:
  "job_step w w' \<Longrightarrow> jm_max_running (jw_jobs w') = jm_max_running (jw_jobs w) \<and>
     jm_result_ttl (jw_jobs w') = jm_result_ttl (jw_jobs w) \<and> jw_now w \<le> jw_now w'"
  by (induction rule: job_step.induct)
    (auto simp: job_finish_def job_cancel_def sweep_remove_def split: option.splits dest!: job_start_ok)

lemma steps_config:
  "job_step\<^sup>*\<^sup>* w w' \<Longrightarrow> jm_max_running (jw_jobs w') = jm_max_running (jw_jobs w) \<and>
     jm_result_ttl (jw_jobs w') = jm_result_ttl (jw_jobs w) \<and> jw_now w \<le> jw_now w'"
  by (induction rule: rtranclp_induct) (auto dest!: step_config)

text \<open>
  C38: however starts, completions, cancellations and sweeps interleave, no more jobs are running than
  the configured cap (at least one), and every running job still has its task in flight, so
  none is stuck in the running state.
\<close>

theorem running_jobs_bounded_and_live:
  assumes "job_step\<^sup>*\<^sup>* (world_new k ttl) w"
  shows "running_count (jw_jobs w) \<le> max k 1 \<and>
     (\<forall>i j. map_of (jm_jobs (jw_jobs w)) i = Some j \<and> job_status j = ''running'' \<longrightarrow> i \<in> set (jw_tasks w))"
proof -
  have inv: "job_inv w" by (rule job_inv_reach [OF assms job_inv_new])
  moreover have "jm_max_running (jw_jobs w) = max k 1"
    using steps_config [OF assms] by (simp add: world_new_def manager_new_def)
  ultimately show ?thesis
    by (auto simp: job_inv_def running_count_card job_ok_def status_running_iff)
qed

text \<open>A pending sweep never holds a running job: what it collected had ended, and an ended job never runs again.\<close>

definition sweep_safe :: "job_world \<Rightarrow> bool" where
  "sweep_safe w \<longleftrightarrow> (\<forall>i \<in> set (jw_sweep w). (\<exists>n < jw_next w. i = job_id n) \<and> i \<notin> running_keys (jw_jobs w))"

lemma sweep_safe_step:
  assumes "job_step w w'" "job_inv w" "sweep_safe w"
  shows "sweep_safe w'"
proof -
  have hm: "hm_inv (jm_jobs (jw_jobs w))" using assms(2) by (simp add: job_inv_def)
  from assms(1) show ?thesis
  proof (cases rule: job_step.cases)
    case (step_start to_string db meth p k jm nxt)
    note s = job_start_ok [OF step_start(2)]
    have "i \<noteq> k" if "i \<in> set (jw_sweep w)" for i
      using that assms(3) s by (auto simp: sweep_safe_def dest!: job_id_inj)
    moreover from s obtain j where "jm = (jw_jobs w)\<lparr>jm_jobs := hm_insert k j (jm_jobs (jw_jobs w))\<rparr>" "jb_state j = JobRunning" by blast
    ultimately have "i \<notin> running_keys jm" if "i \<in> set (jw_sweep w)" for i
      using that assms(3) running_keys_put [OF hm, of k j] by (auto simp: sweep_safe_def)
    moreover have "\<exists>n < nxt. i = job_id n" if "i \<in> set (jw_sweep w)" for i
      using that assms(3) step_start(3) unfolding sweep_safe_def by (meson order.strict_trans)
    ultimately show ?thesis by (simp add: step_start(1) sweep_safe_def)
  next
    case (step_other_handle h nxt)
    then show ?thesis using assms(3) unfolding sweep_safe_def by simp (meson order.strict_trans)
  next
    case (step_finish k outcome)
    with assms(3) show ?thesis
      by (auto simp: sweep_safe_def job_finish_def running_keys_put [OF hm] outcome_not_running split: option.splits)
  next
    case (step_cancel k)
    with assms(3) show ?thesis
      by (auto simp: sweep_safe_def job_cancel_def running_keys_put [OF hm] split: option.splits)
  next
    case step_collect
    have "(\<exists>n < jw_next w. i = job_id n) \<and> i \<notin> running_keys (jw_jobs w)"
      if "i \<in> set (sweep_collect (jw_now w) (jw_jobs w))" for i
    proof -
      from that obtain j where j: "(i, j) \<in> set (jm_jobs (jw_jobs w))" "job_status j \<noteq> ''running''"
        by (auto simp: sweep_collect_def)
      have "distinct (map fst (jm_jobs (jw_jobs w)))" using hm by (simp add: hm_inv_def)
      with j(1) have m: "map_of (jm_jobs (jw_jobs w)) i = Some j" by simp
      moreover from m assms(2) have "\<exists>n < jw_next w. i = job_id n" unfolding job_inv_def by fastforce
      ultimately have "map_of (jm_jobs (jw_jobs w)) i = Some j \<and> (\<exists>n < jw_next w. i = job_id n)" ..
      with j(2) show ?thesis by (auto simp: running_keys_def status_running_iff)
    qed
    with step_collect show ?thesis by (simp add: sweep_safe_def)
  next
    case step_remove
    then show ?thesis by (simp add: sweep_safe_def)
  qed (use assms(3) in \<open>simp add: sweep_safe_def\<close>)
qed

lemma sweep_safe_reach: "job_step\<^sup>*\<^sup>* (world_new k ttl) w \<Longrightarrow> sweep_safe w"
proof (induction rule: rtranclp_induct)
  case base
  show ?case by (simp add: sweep_safe_def world_new_def)
next
  case (step y z)
  from sweep_safe_step [OF step.hyps(2) job_inv_reach [OF step.hyps(1) job_inv_new] step.IH] show ?case .
qed

text \<open>A job that has an outcome stays as it is until its time to live is over.\<close>

definition has_outcome :: "job \<Rightarrow> bool" where
  "has_outcome j \<longleftrightarrow> jb_state j \<noteq> JobRunning \<and> jb_state j \<noteq> JobCancelled"

lemma outcome_kept_step:
  assumes step: "job_step w w'" and inv: "job_inv w" and j: "map_of (jm_jobs (jw_jobs w)) i = Some j"
    "has_outcome j" "jb_finished j = Some f" and sw: "i \<notin> set (jw_sweep w)"
    and young: "elapsed (jw_now w') f < jm_result_ttl (jw_jobs w)"
  shows "map_of (jm_jobs (jw_jobs w')) i = Some j \<and> i \<notin> set (jw_sweep w')"
proof -
  have hm: "hm_inv (jm_jobs (jw_jobs w))" using inv by (simp add: job_inv_def)
  have ok: "job_ok (jw_tasks w) i j" and used: "\<exists>n < jw_next w. i = job_id n"
    using inv j(1) unfolding job_inv_def by (blast, fastforce)
  have not_task: "i \<notin> set (jw_tasks w)" using ok j(2) by (auto simp: job_ok_def has_outcome_def)
  from step show ?thesis
  proof (cases rule: job_step.cases)
    case (step_start to_string db meth p k jm nxt)
    from job_start_ok [OF step_start(2)] used have "k \<noteq> i" by (auto dest!: job_id_inj)
    with job_start_ok [OF step_start(2)] step_start(1) j sw show ?thesis by (auto simp: hm.get_ins [OF hm])
  next
    case (step_finish k outcome)
    then have "k \<noteq> i" using not_task by auto
    with step_finish j sw show ?thesis
      by (auto simp: job_finish_def hm.get_ins [OF hm] split: option.splits)
  next
    case (step_cancel k)
    with j sw show ?thesis
      by (auto simp: job_cancel_def has_outcome_def hm.get_ins [OF hm] split: option.splits)
  next
    case step_collect
    have "i \<notin> set (sweep_collect (jw_now w) (jw_jobs w))"
      using young j step_collect hm_inv_unique [OF hm map_of_SomeD [OF j(1)]]
      by (force simp: sweep_collect_def)
    with step_collect j show ?thesis by simp
  next
    case step_remove
    with j sw show ?thesis by (simp add: sweep_remove_def sweep_remove_get [OF hm])
  qed (use j sw in auto)
qed

lemma outcome_kept_steps:
  assumes "job_step\<^sup>*\<^sup>* w w'" "job_inv w" "map_of (jm_jobs (jw_jobs w)) i = Some j" "has_outcome j"
    "jb_finished j = Some f" "i \<notin> set (jw_sweep w)" "elapsed (jw_now w') f < jm_result_ttl (jw_jobs w)"
  shows "map_of (jm_jobs (jw_jobs w')) i = Some j \<and> i \<notin> set (jw_sweep w')"
  using assms
proof (induction rule: rtranclp_induct)
  case (step y z)
  have "elapsed (jw_now y) f < jm_result_ttl (jw_jobs w)"
    using step.prems(6) step_config [OF step.hyps(2)] by (auto simp: elapsed_def)
  with step have "map_of (jm_jobs (jw_jobs y)) i = Some j \<and> i \<notin> set (jw_sweep y)" by simp
  then show ?case
    using outcome_kept_step [OF step.hyps(2) job_inv_reach [OF step.hyps(1) step.prems(1)], of i j f] step.prems
      steps_config [OF step.hyps(1)] by simp
qed simp

text \<open>The world after the task of a job has stored its outcome, and what the registry holds then.\<close>

definition finished_world :: "string \<Rightarrow> json result \<Rightarrow> job_world \<Rightarrow> job_world" where
  "finished_world i outcome w =
     w\<lparr>jw_jobs := job_finish (jw_now w) outcome i (jw_jobs w), jw_tasks := remove1 i (jw_tasks w)\<rparr>"

lemma finished_job_kept:
  assumes "job_step\<^sup>*\<^sup>* (world_new k ttl) w" and "map_of (jm_jobs (jw_jobs w)) i = Some j" and "jb_state j = JobRunning"
    and "job_step\<^sup>*\<^sup>* (finished_world i outcome w) w'" and "elapsed (jw_now w') (jw_now w) < ttl"
  shows "map_of (jm_jobs (jw_jobs w')) i = Some (j\<lparr>jb_state := outcome_state outcome, jb_finished := Some (jw_now w)\<rparr>)"
proof -
  let ?u = "finished_world i outcome w"
  have inv: "job_inv w" by (rule job_inv_reach [OF assms(1) job_inv_new])
  then have hm: "hm_inv (jm_jobs (jw_jobs w))" and task: "i \<in> set (jw_tasks w)"
    using assms(2,3) unfolding job_inv_def job_ok_def by (blast, blast)
  have step: "job_step w ?u" unfolding finished_world_def by (rule step_finish [OF task])
  have "i \<notin> set (jw_sweep ?u)"
    using sweep_safe_reach [OF assms(1)] assms(2,3) by (auto simp: finished_world_def sweep_safe_def running_keys_def)
  moreover have "map_of (jm_jobs (jw_jobs ?u)) i = Some (j\<lparr>jb_state := outcome_state outcome, jb_finished := Some (jw_now w)\<rparr>)"
    using assms(2) by (simp add: finished_world_def job_finish_def hm.get_ins [OF hm])
  moreover have "jm_result_ttl (jw_jobs ?u) = ttl"
    using steps_config [OF assms(1)] step_config [OF step] by (simp add: world_new_def manager_new_def)
  moreover have "has_outcome (j\<lparr>jb_state := outcome_state outcome, jb_finished := Some (jw_now w)\<rparr>)"
    by (auto simp: has_outcome_def outcome_state_def split: sum.splits error.splits if_splits)
  ultimately show ?thesis
    using outcome_kept_steps [OF assms(4) job_inv_step [OF step inv]] assms(5) by simp
qed

text \<open>
  C39: the outcome of a job that was not cancelled is not lost before its time to live is over. When the task of a job
  that is still running stores its outcome, then whatever starts, completions, cancel requests (for this job too) and
  sweeps follow, a sweep that was already under way included, \<open>result\<close> answers with that outcome, as often as it
  is asked, until the time to live since then has passed: the payload of a successful call, the error of a failed one.
  Jobs that were cancelled before their task returned are not covered.
\<close>

theorem finished_outcome_kept_until_ttl:
  assumes "job_step\<^sup>*\<^sup>* (world_new k ttl) w" and "map_of (jm_jobs (jw_jobs w)) i = Some j" and "jb_state j = JobRunning"
    and "job_step\<^sup>*\<^sup>* (finished_world i outcome w) w'" and "elapsed (jw_now w') (jw_now w) < ttl"
  shows "(\<forall>v. outcome = Inr v \<longrightarrow> job_result (jw_now w') i (jw_jobs w') = Inr (JObj [(''id'', JStr i), (''status'', JStr ''done''),
       (''elapsed_secs'', elapsed_secs (jw_now w') j), (''result'', v)])) \<and>
     (\<forall>e. outcome = Inl e \<longrightarrow> (\<exists>m. outcome_state outcome = JobFailed m \<and>
       job_result (jw_now w') i (jw_jobs w') = Inr (JObj [(''id'', JStr i), (''status'', JStr ''failed''), (''error'', JStr m),
         (''note'', JStr ''revision caches make a retry with a larger budget cheap'')])))"
  using finished_job_kept [OF assms]
  by (auto simp: job_result_def outcome_state_def elapsed_secs_def split: error.splits if_splits)

text \<open>One job started, the world in which it runs, and the world after it has run to completion.\<close>

definition running_job :: job where
  "running_job = \<lparr>jb_db = ''db1'', jb_method = ''graph'', jb_summary = ''null'', jb_state = JobRunning,
     jb_started = 0, jb_finished = None\<rparr>"

definition running_world :: job_world where
  "running_world = \<lparr>jw_jobs = \<lparr>jm_jobs = [(job_id 1, running_job)], jm_max_running = 1, jm_result_ttl = 5\<rparr>,
     jw_next = 2, jw_now = 0, jw_tasks = [job_id 1], jw_sweep = []\<rparr>"

lemma running_world_reached: "job_step\<^sup>*\<^sup>* (world_new 1 5) running_world"
proof -
  let ?w0 = "world_new 1 5"
  let ?jm = "(jw_jobs ?w0)\<lparr>jm_jobs := [(job_id 1, running_job)]\<rparr>"
  have "job_start (\<lambda>_. Some ''null'') (jw_now ?w0) ''db1'' ''graph'' JNull (jw_jobs ?w0, jw_next ?w0) = (Inr (job_id 1), ?jm, 2)"
    by (simp add: job_start_def world_new_def manager_new_def running_count_def job_summary_def handle_new_def
        next_id_init_def hm_insert_def running_job_def Let_def)
  then have "job_step ?w0 (?w0\<lparr>jw_jobs := ?jm, jw_next := 2, jw_tasks := job_id 1 # jw_tasks ?w0\<rparr>)"
    by (rule step_start) (simp add: world_new_def next_id_init_def)
  moreover have "?w0\<lparr>jw_jobs := ?jm, jw_next := 2, jw_tasks := job_id 1 # jw_tasks ?w0\<rparr> = running_world"
    by (simp add: world_new_def manager_new_def running_world_def)
  ultimately show ?thesis by simp
qed

lemma running_world_job: "map_of (jm_jobs (jw_jobs running_world)) (job_id 1) = Some running_job" "jb_state running_job = JobRunning"
  by (simp_all add: running_world_def running_job_def)

theorem running_jobs_bounded_and_live_witness:
  "job_step\<^sup>*\<^sup>* (world_new 1 5) running_world \<and> running_count (jw_jobs running_world) \<le> 1 \<and> job_id 1 \<in> set (jw_tasks running_world)"
proof -
  have "job_status running_job = ''running''" by (simp add: running_job_def job_status_def)
  with running_jobs_bounded_and_live [OF running_world_reached] running_world_reached running_world_job(1) show ?thesis by simp
qed

text \<open>The call succeeds at time 0; a sweep runs, and at time 4 the result is still there.\<close>

theorem finished_outcome_kept_until_ttl_witness:
  "\<exists>w'. job_step\<^sup>*\<^sup>* (finished_world (job_id 1) (Inr (JNum 7)) running_world) w' \<and> jw_now w' = 4 \<and>
     job_result 4 (job_id 1) (jw_jobs w') = Inr (JObj [(''id'', JStr (job_id 1)), (''status'', JStr ''done''),
       (''elapsed_secs'', elapsed_secs 4 running_job), (''result'', JNum 7)])"
proof -
  let ?u = "finished_world (job_id 1) (Inr (JNum 7)) running_world"
  let ?v = "?u\<lparr>jw_sweep := sweep_collect (jw_now ?u) (jw_jobs ?u)\<rparr>"
  let ?w = "?v\<lparr>jw_jobs := sweep_remove (jw_sweep ?v) (jw_jobs ?v), jw_sweep := []\<rparr>"
  have "job_step ?u ?v" by (rule step_collect) (simp add: finished_world_def running_world_def)
  moreover have "job_step ?v ?w" by (rule step_remove)
  moreover have "job_step ?w (?w\<lparr>jw_now := 4\<rparr>)" by (rule step_tick) (simp add: finished_world_def running_world_def)
  ultimately have s: "job_step\<^sup>*\<^sup>* ?u (?w\<lparr>jw_now := 4\<rparr>)" by (meson converse_rtranclp_into_rtranclp rtranclp.rtrancl_refl)
  have "elapsed (jw_now (?w\<lparr>jw_now := 4\<rparr>)) (jw_now running_world) < 5" by (simp add: running_world_def elapsed_def)
  from finished_outcome_kept_until_ttl [OF running_world_reached running_world_job s this] s
  show ?thesis by (intro exI [of _ "?w\<lparr>jw_now := 4\<rparr>"]) simp
qed

text \<open>
  A cancelled job does not stay cancelled: when the worker call that was in flight returns, its
  outcome replaces the cancellation and the job reads as done, with the payload the cancel
  answer said would be discarded.
\<close>

theorem cancelled_job_comes_back:
  "\<exists>jm i.
     job_start (\<lambda>_. Some ''null'') 0 ''db1'' ''graph'' JNull (manager_new 1 5, 1) = (Inr i, jm, 2) \<and>
     jidx (projr (fst (job_cancel 1 i jm))) ''cancelled'' = JBool True \<and>
     jidx (projr (job_result 3 i (job_finish 2 (Inr (JNum 7)) i (snd (job_cancel 1 i jm))))) ''result'' = JNum 7"
  by (simp add: job_start_def world_new_def manager_new_def running_count_def job_summary_def handle_new_def
      hm_insert_def job_cancel_def job_finish_def outcome_state_def job_result_def Let_def)

end
