(* ===== verification/Isolation.thy ===== *)
theory Isolation
  imports Protocol
begin

text \<open>
  \<open>crates/rmcp-broker/src/isolation.rs\<close>: disposable worker processes for risky calls. A run takes a
  permit of the process-wide semaphore, spawns a child, talks to it under a clock and accounts for
  it in the ledger. What the operating system and the child do is the record \<open>child_env\<close>: whether the
  spawn works, which pipes exist, what the hello wait and the three exchanges give, and whether the
  second clock runs out. A run is two steps, up to the spawn and from there to its end, and other
  runs may come between them. The state keeps the ledger, the free permits, the runs under way
  and the children that were sent a kill. Environment variables and the job object are not modelled.
\<close>

section \<open>Data\<close>

record iso_stats =
  st_spawned :: u64
  st_killed_timeout :: u64
  st_killed_crash :: u64
  st_exited_clean :: u64
  st_rejected_cap :: u64

definition iso_snapshot :: "iso_stats \<Rightarrow> json" where
  "iso_snapshot s = JObj [(''spawned'', ju (st_spawned s)), (''killed_timeout'', ju (st_killed_timeout s)),
     (''killed_crash'', ju (st_killed_crash s)), (''exited_clean'', ju (st_exited_clean s)), (''rejected_cap'', ju (st_rejected_cap s))]"

datatype disposable_outcome =
    DOk json
  | DTimeout nat string
  | DCrashed string string
  | DBadResponse string string

definition MAX_CONCURRENT :: usize where
  "MAX_CONCURRENT = 2"

type_synonym pid = nat

record guard =
  g_child :: "pid option"
  g_accounted :: bool

record iso =
  is_stats :: iso_stats
  is_permits :: usize
  is_live :: "pid list"
  is_killed :: "pid list"

definition iso_init :: iso where
  "iso_init = \<lparr>is_stats = \<lparr>st_spawned = 0, st_killed_timeout = 0, st_killed_crash = 0, st_exited_clean = 0, st_rejected_cap = 0\<rparr>,
     is_permits = MAX_CONCURRENT, is_live = [], is_killed = []\<rparr>"

section \<open>The guard\<close>

definition count_timeout :: "iso \<Rightarrow> iso" where
  "count_timeout s = s\<lparr>is_stats := (is_stats s)\<lparr>st_killed_timeout := st_killed_timeout (is_stats s) + 1\<rparr>\<rparr>"

definition count_crash :: "iso \<Rightarrow> iso" where
  "count_crash s = s\<lparr>is_stats := (is_stats s)\<lparr>st_killed_crash := st_killed_crash (is_stats s) + 1\<rparr>\<rparr>"

definition count_clean :: "iso \<Rightarrow> iso" where
  "count_clean s = s\<lparr>is_stats := (is_stats s)\<lparr>st_exited_clean := st_exited_clean (is_stats s) + 1\<rparr>\<rparr>"

definition kill_tree :: "guard \<times> iso \<Rightarrow> guard \<times> iso" where
  "kill_tree gs = (let (g, s) = gs in
     case g_child g of
       None \<Rightarrow> (g, s)
     | Some pid \<Rightarrow> (g\<lparr>g_child := None\<rparr>, s\<lparr>is_killed := pid # is_killed s\<rparr>))"

definition drop_guard :: "guard \<times> iso \<Rightarrow> iso" where
  "drop_guard gs = (let (g, s) = gs; s1 = (if \<not> g_accounted g then count_crash s else s) in
     case g_child g of
       None \<Rightarrow> s1
     | Some pid \<Rightarrow> s1\<lparr>is_killed := pid # is_killed s1\<rparr>)"

definition iso_finish :: "disposable_outcome \<Rightarrow> guard \<times> iso \<Rightarrow> guard \<times> iso" where
  "iso_finish out gs = (let (g, s) = gs;
       s1 = (case out of
               DOk _ \<Rightarrow> count_clean s
             | DBadResponse _ _ \<Rightarrow> count_clean s
             | DTimeout _ _ \<Rightarrow> count_timeout s
             | DCrashed _ _ \<Rightarrow> count_crash s)
     in kill_tree (g\<lparr>g_accounted := True\<rparr>, s1))"

section \<open>A run\<close>

text \<open>\<open>None\<close> is a wait that ran out of time.\<close>

record child_env =
  ce_stdin :: bool
  ce_stdout :: bool
  ce_hello :: "worker_hello option result option"
  ce_write :: "usize \<Rightarrow> unit result"
  ce_reply :: "usize \<Rightarrow> worker_response option result"
  ce_in_time :: bool

definition begin_run :: "string + pid \<Rightarrow> iso \<Rightarrow> pid result \<times> iso" where
  "begin_run spawn s =
     (if is_permits s = 0 then
        (Inl (Worker (''disposable analysis worker cap ('' @ show_nat MAX_CONCURRENT @ '') reached; retry shortly'')),
         s\<lparr>is_stats := (is_stats s)\<lparr>st_rejected_cap := st_rejected_cap (is_stats s) + 1\<rparr>\<rparr>)
      else
        (case spawn of
           Inl e \<Rightarrow> (Inl (Worker (''spawn disposable worker: '' @ e)), s)
         | Inr pid \<Rightarrow> (Inr pid, s\<lparr>is_permits := is_permits s - 1, is_live := pid # is_live s,
               is_stats := (is_stats s)\<lparr>st_spawned := st_spawned (is_stats s) + 1\<rparr>\<rparr>)))"

definition iso_sequence :: "string \<Rightarrow> string \<Rightarrow> json \<Rightarrow> worker_request list" where
  "iso_sequence db_path mthd params =
     [\<lparr>rq_id = 1, rq_method = ''backend.select'', rq_params = JObj [(''kind'', JStr ''mock'')]\<rparr>,
      \<lparr>rq_id = 2, rq_method = ''db.open'', rq_params = JObj [(''path'', JStr db_path)]\<rparr>,
      \<lparr>rq_id = 3, rq_method = mthd, rq_params = params\<rparr>]"

fun run_sequence :: "child_env \<Rightarrow> usize \<Rightarrow> worker_request list \<Rightarrow> json option result" where
  "run_sequence env i [] = Inr None"
| "run_sequence env i (req # reqs) =
     rbind (rmap_err (\<lambda>e. Worker (''stdin write: '' @ error_to_string e)) (ce_write env i)) (\<lambda>_.
     rbind (rmap_err (\<lambda>e. Worker (''frame error: '' @ error_to_string e)) (ce_reply env i)) (\<lambda>reply.
     rbind (ok_or reply (Worker ''disposable worker died mid-sequence'')) (\<lambda>r.
       case rs_error r of
         Some e \<Rightarrow> Inl (Worker (rq_method req @ '': '' @ eb_code e @ '' '' @ eb_message e))
       | None \<Rightarrow>
           if i = 2 then Inr (Some (unwrap_or (rs_result r) JNull))
           else run_sequence env (i + 1) reqs)))"

definition sequence_outcome :: "json option result \<Rightarrow> disposable_outcome" where
  "sequence_outcome r =
     (case r of
        Inl e \<Rightarrow>
          (let detail = error_to_string e;
               stage = (if starts_with detail ''backend.select:'' \<or> starts_with detail ''db.open:'' then ''open'' else ''risky'')
           in DBadResponse detail stage)
      | Inr (Some v) \<Rightarrow> DOk v
      | Inr None \<Rightarrow> DBadResponse ''no response'' ''risky'')"

definition hello_budget :: "nat \<Rightarrow> nat" where
  "hello_budget hard_timeout = min hard_timeout (120 * 10 ^ 9) div 2"

text \<open>From the spawn to the end: the outcome, and the guard and state just before the locals of the
  function are dropped.\<close>

definition run_child ::
  "child_env \<Rightarrow> string \<Rightarrow> string \<Rightarrow> json \<Rightarrow> nat \<Rightarrow> guard \<times> iso \<Rightarrow> disposable_outcome result \<times> guard \<times> iso" where
  "run_child env db_path mthd params hard_timeout gs =
     (let timed_out = (\<lambda>(g, s). kill_tree (g\<lparr>g_accounted := True\<rparr>, count_timeout s)) in
      if \<not> ce_stdin env then (Inl (Worker ''no disposable stdin''), gs)
      else if \<not> ce_stdout env then (Inl (Worker ''no disposable stdout''), gs)
      else
        (case ce_hello env of
           None \<Rightarrow> (Inr (DTimeout (hello_budget hard_timeout) ''startup''), timed_out gs)
         | Some (Inl e) \<Rightarrow> (Inr (DCrashed (''disposable hello frame: '' @ error_to_string e) ''startup''), gs)
         | Some (Inr None) \<Rightarrow> (Inr (DCrashed ''disposable worker died before hello'' ''startup''), gs)
         | Some (Inr (Some hello)) \<Rightarrow>
             if h_protocol hello \<noteq> PROTOCOL_VERSION then
               (Inr (DCrashed (''disposable protocol '' @ show_nat (unat (h_protocol hello)) @ '' != '' @ show_nat (unat PROTOCOL_VERSION)) ''startup''), gs)
             else if \<not> ce_in_time env then (Inr (DTimeout hard_timeout ''risky''), timed_out gs)
             else
               (let out = sequence_outcome (run_sequence env 0 (iso_sequence db_path mthd params))
                in (Inr out, iso_finish out gs))))"

definition end_run ::
  "child_env \<Rightarrow> string \<Rightarrow> string \<Rightarrow> json \<Rightarrow> nat \<Rightarrow> pid \<Rightarrow> iso \<Rightarrow> disposable_outcome result \<times> iso" where
  "end_run env db_path mthd params hard_timeout pid s =
     (let (r, gs) = run_child env db_path mthd params hard_timeout (\<lparr>g_child = Some pid, g_accounted = False\<rparr>, s);
          s1 = drop_guard gs
      in (r, s1\<lparr>is_permits := is_permits s1 + 1, is_live := remove1 pid (is_live s1)\<rparr>))"

section \<open>The ledger\<close>

text \<open>All interleavings: a run begins, or one under way ends. The operating system does not reuse
  the id of a process that still runs.\<close>

inductive iso_reach :: "iso \<Rightarrow> bool" where
  init: "iso_reach iso_init"
| begin_: "iso_reach s \<Longrightarrow> begin_run spawn s = (r, s') \<Longrightarrow> (\<And>pid. spawn = Inr pid \<Longrightarrow> pid \<notin> set (is_live s)) \<Longrightarrow> iso_reach s'"
| end_: "iso_reach s \<Longrightarrow> pid \<in> set (is_live s) \<Longrightarrow> end_run env db_path mthd params hard_timeout pid s = (r, s') \<Longrightarrow> iso_reach s'"

definition ended :: "iso_stats \<Rightarrow> u64" where
  "ended st = st_killed_timeout st + st_killed_crash st + st_exited_clean st"

lemmas count_defs = count_timeout_def count_crash_def count_clean_def

text \<open>Which counter a run moves, read off its result.\<close>

fun accounted_as :: "disposable_outcome result \<Rightarrow> iso_stats \<Rightarrow> iso_stats" where
  "accounted_as (Inr (DOk _)) st = st\<lparr>st_exited_clean := st_exited_clean st + 1\<rparr>"
| "accounted_as (Inr (DBadResponse _ _)) st = st\<lparr>st_exited_clean := st_exited_clean st + 1\<rparr>"
| "accounted_as (Inr (DTimeout _ _)) st = st\<lparr>st_killed_timeout := st_killed_timeout st + 1\<rparr>"
| "accounted_as _ st = st\<lparr>st_killed_crash := st_killed_crash st + 1\<rparr>"

lemma ended_accounted_as [simp]: "ended (accounted_as r st) = ended st + 1" "st_spawned (accounted_as r st) = st_spawned st"
  by (cases "(r, st)" rule: accounted_as.cases; simp add: ended_def)+

lemma end_run_effect:
  assumes "end_run env db_path mthd params hard_timeout pid s = (r, s')"
  shows "is_stats s' = accounted_as r (is_stats s)" "is_killed s' = pid # is_killed s"
    "is_permits s' = is_permits s + 1" "is_live s' = remove1 pid (is_live s)"
  using assms
  by (auto simp: end_run_def run_child_def drop_guard_def kill_tree_def iso_finish_def sequence_outcome_def count_defs Let_def
    split: if_splits option.splits sum.splits)

lemma begin_run_effect:
  assumes "begin_run spawn s = (r, s')"
  shows "is_killed s' = is_killed s" "ended (is_stats s') = ended (is_stats s)"
    "case r of Inr pid \<Rightarrow> spawn = Inr pid \<and> is_permits s = is_permits s' + 1 \<and> is_live s' = pid # is_live s \<and> st_spawned (is_stats s') = st_spawned (is_stats s) + 1
     | Inl _ \<Rightarrow> is_permits s' = is_permits s \<and> is_live s' = is_live s \<and> st_spawned (is_stats s') = st_spawned (is_stats s)"
  using assms by (auto simp: begin_run_def ended_def split: if_splits sum.splits)

definition iso_inv :: "iso \<Rightarrow> bool" where
  "iso_inv s \<longleftrightarrow> st_spawned (is_stats s) = ended (is_stats s) + of_nat (length (is_live s)) \<and>
     is_permits s + length (is_live s) = MAX_CONCURRENT \<and> distinct (is_live s)"

lemma iso_reach_inv: "iso_reach s \<Longrightarrow> iso_inv s"
proof (induction rule: iso_reach.induct)
  case init
  then show ?case by (simp add: iso_inv_def iso_init_def ended_def)
next
  case (begin_ s spawn r s')
  note b = begin_run_effect [OF begin_.hyps(2)]
  show ?case using begin_.IH b begin_.hyps(3) by (cases r) (auto simp: iso_inv_def)
next
  case (end_ s pid env db_path mthd params hard_timeout r s')
  note e = end_run_effect [OF end_.hyps(3)]
  have "0 < length (is_live s)" using end_.hyps(2) by auto
  then have "length (is_live s) = Suc (length (is_live s'))" using end_.hyps(2) by (simp add: e(4) length_remove1)
  then show ?case using end_.IH e(1, 3, 4) by (simp add: iso_inv_def)
qed

text \<open>
  C30: however runs of disposable workers interleave and whatever the children do, at most two run
  at a time and the ledger balances: the children spawned are those timed out, those crashed, those
  ended cleanly and those still running. When a run ends, whichever way, its child has been sent
  a kill and exactly the counter that its outcome names went up by one.
\<close>

theorem isolation_ledger_balances:
  assumes "iso_reach s"
  shows "length (is_live s) \<le> 2 \<and>
     st_spawned (is_stats s) = st_killed_timeout (is_stats s) + st_killed_crash (is_stats s) + st_exited_clean (is_stats s) + of_nat (length (is_live s)) \<and>
     (\<forall>pid \<in> set (is_live s). \<forall>env db_path mthd params hard_timeout r s'.
        end_run env db_path mthd params hard_timeout pid s = (r, s') \<longrightarrow>
          is_killed s' = pid # is_killed s \<and> pid \<notin> set (is_live s') \<and> is_stats s' = accounted_as r (is_stats s))"
proof -
  note inv = iso_reach_inv [OF assms]
  have "pid \<notin> set (is_live s')" if "end_run env db_path mthd params hard_timeout pid s = (r, s')" for env db_path mthd params hard_timeout r s' pid
    using end_run_effect(4) [OF that] inv by (simp add: iso_inv_def)
  then show ?thesis using inv end_run_effect(1, 2) unfolding iso_inv_def ended_def MAX_CONCURRENT_def by (auto simp del: accounted_as.simps)
qed

text \<open>A child that greets and then dies before it answers.\<close>

definition dying_child :: child_env where
  "dying_child = \<lparr>ce_stdin = True, ce_stdout = True,
     ce_hello = Some (Inr (Some \<lparr>h_protocol = 1, h_ida_version = [], h_pid = 7, h_ida_dir = [], h_idausr = []\<rparr>)),
     ce_write = (\<lambda>_. Inr ()), ce_reply = (\<lambda>_. Inr None), ce_in_time = True\<rparr>"

definition one_run :: iso where
  "one_run = snd (begin_run (Inr 7) iso_init)"

lemma one_run_reach: "iso_reach one_run"
  unfolding one_run_def by (rule iso_reach.begin_ [OF iso_reach.init prod.collapse [symmetric]]) (simp add: iso_init_def)

theorem isolation_ledger_balances_witness:
  "is_live one_run = [7] \<and>
   is_killed (snd (end_run dying_child ''a.idb'' ''decompile'' JNull 10 7 one_run)) = [7] \<and>
   st_spawned (is_stats one_run) = 1"
proof -
  have l: "is_live one_run = [7]" "is_killed one_run = []"
    by (simp_all add: one_run_def begin_run_def iso_init_def MAX_CONCURRENT_def)
  note t = isolation_ledger_balances [OF one_run_reach, unfolded l]
  from t have "is_killed (snd (end_run dying_child ''a.idb'' ''decompile'' JNull 10 7 one_run)) = [7]"
    by (metis list.set_intros(1) prod.collapse)
  moreover have "st_spawned (is_stats one_run) = 1" by (simp add: one_run_def begin_run_def iso_init_def MAX_CONCURRENT_def)
  ultimately show ?thesis using l by blast
qed

section \<open>Two labels that are wrong\<close>

text \<open>A worker that dies between its greeting and its answer is reported as a bad response and
  counted as a clean exit.\<close>

lemma death_counts_as_clean_exit:
  "end_run dying_child db_path mthd params t pid s = (r, s') \<Longrightarrow>
     r = Inr (DBadResponse ''worker failure: disposable worker died mid-sequence'' ''risky'') \<and>
     st_exited_clean (is_stats s') = st_exited_clean (is_stats s) + 1 \<and> st_killed_crash (is_stats s') = st_killed_crash (is_stats s)"
  by (auto simp: end_run_def run_child_def dying_child_def PROTOCOL_VERSION_def iso_sequence_def sequence_outcome_def
    iso_finish_def kill_tree_def drop_guard_def count_defs starts_with_def Let_def)

text \<open>The stage \<open>open\<close> is never reported: the text it is recognised by comes after the prefix that
  the error's display adds.\<close>

lemma rmap_err_eq_Inl: "rmap_err f m = Inl d \<longleftrightarrow> (\<exists>e. m = Inl e \<and> d = f e)"
  by (cases m) auto

lemma run_sequence_errors_are_worker: "run_sequence env i reqs = Inl e \<Longrightarrow> \<exists>m. e = Worker m"
  by (induction env i reqs rule: run_sequence.induct)
    (auto simp: result_simps rmap_err_eq_Inl split: option.splits if_splits)

lemma stage_open_is_never_reported:
  "end_run env db_path mthd params t pid s = (Inr (DBadResponse d stage), s') \<Longrightarrow> stage = ''risky''"
  by (auto simp: end_run_def run_child_def sequence_outcome_def starts_with_def Let_def
    dest!: run_sequence_errors_are_worker split: if_splits option.splits sum.splits prod.splits)

end
