(* ===== verification/Wasm_Module.thy ===== *)
theory Wasm_Module
  imports Json
begin

text \<open>
  \<open>crates/rmcp-wasm/src/module.rs\<close> and the error type of \<open>lib.rs\<close>: the bounded parse of a WebAssembly
  file into the module model. Decoding is the library \<open>wasmparser\<close>: what it yields (payloads,
  section items, operators) is data of the types below, with value types already in their display
  text, and each iterator is the list of what it yields. The library itself is the argument \<open>parse_all\<close>, and
  the decimal texts of floating-point numbers are arguments too.
\<close>

section \<open>Errors\<close>

datatype wasm_error = Parse u64 string | FeatureDisabled string string | Budget string | Ambiguous string | WasmIo string

definition wasm_error_text :: "wasm_error \<Rightarrow> string" where
  "wasm_error_text e = (case e of
       Parse at m \<Rightarrow> ''wasm parse failed at offset '' @ show_u64 at @ '': '' @ m
     | FeatureDisabled f m \<Rightarrow> ''feature '' @ quoted f @ '' not enabled in this module: '' @ m
     | Budget b \<Rightarrow> ''budget exhausted: '' @ b
     | Ambiguous m \<Rightarrow> ''analysis ambiguous: '' @ m
     | WasmIo m \<Rightarrow> ''io: '' @ m)"

type_synonym 'a wasm_result = "wasm_error + 'a"

section \<open>What wasmparser yields\<close>

text \<open>A decoding error: offset and message.\<close>

type_synonym wp_error = "u64 \<times> string"

text \<open>The operators the crate looks into; every other one is \<open>Other\<close> with its number.\<close>

datatype operator =
    BlockOp | LoopOp | IfOp | ElseOp | Try | TryTable | End
  | Br u32 | BrIf u32 | BrTable "u32 option list" u32
  | Call u32 | CallIndirect u32 u32 | ReturnCall u32 | ReturnCallIndirect
  | Return | Unreachable | Drop
  | I32Const u32 | I64Const u64 | F32Const u32 | F64Const u64
  | LocalGet u32 | LocalSet u32 | LocalTee u32 | GlobalGet u32 | GlobalSet u32
  | I32Load u64 | I64Load u64 | I32Store u64 | I64Store u64
  | I32Add | I32Sub | I32Mul | I32And | I32Or | I32Xor
  | I32Eqz | I32Eq | I32Ne | I32LtU | I32GeU
  | Other nat

datatype composite = FuncTy "string list" "string list" | StructTy | ArrayTy | ContTy

datatype type_ref = RefFunc u32 | RefTable | RefMemory | RefGlobal | RefTag

datatype external_kind = ExtFunc | ExtTable | ExtMemory | ExtGlobal | ExtTag

type_synonym offsets = "nat \<times> nat"

record wp_table =
  wt_elem :: string
  wt_is_reference :: bool
  wt_initial :: u64
  wt_maximum :: "u64 option"

record wp_memory =
  wm_initial :: u64
  wm_maximum :: "u64 option"
  wm_shared :: bool
  wm_memory64 :: bool
  wm_page_size_log2 :: "u32 option"

record wp_global =
  wg_content :: string
  wg_mutable :: bool
  wg_init :: "wp_error + operator"

datatype element_kind = Active "u32 option" "wp_error + operator" | PassiveOrDeclared

record wp_element =
  wl_kind :: element_kind
  wl_functions :: "(wp_error + u32) list option"

datatype data_kind = ActiveData u32 "wp_error + operator" | PassiveData

record wp_data =
  wd_kind :: data_kind
  wd_len :: nat
  wd_start :: nat

datatype name_sub = FunctionNames "(wp_error + (u32 \<times> string)) list" | OtherNames

datatype custom =
    NameSection "(wp_error + name_sub) list"
  | Producers "wp_error + (wp_error + (string \<times> (wp_error + string) list)) list"
  | OtherCustom string

datatype wp_payload =
    Version
  | TypeSection offsets "(wp_error + composite list) list"
  | ImportSection offsets "(wp_error + (string \<times> string \<times> type_ref)) list"
  | FunctionSection offsets "(wp_error + u32) list"
  | TableSection offsets "(wp_error + wp_table) list"
  | MemorySection offsets "(wp_error + wp_memory) list"
  | GlobalSection offsets "(wp_error + wp_global) list"
  | ExportSection offsets "(wp_error + (string \<times> external_kind \<times> u32)) list"
  | StartSection u32
  | ElementSection offsets "(wp_error + wp_element) list"
  | CodeSectionStart offsets
  | CodeSectionEntry offsets "wp_error + (wp_error + (u32 \<times> string)) list"
  | DataSection offsets "(wp_error + wp_data) list"
  | TagSection offsets
  | CustomSection custom
  | OtherPayload

section \<open>The module model\<close>

record section_info =
  se_id :: u8
  se_name :: string
  se_offset :: u64
  se_size :: u64

record func_type =
  ft_params :: "string list"
  ft_results :: "string list"

record import_entry =
  ie_module :: string
  ie_name :: string
  ie_kind :: string
  ie_type_index :: "u32 option"
  ie_wasi :: bool

record export_entry =
  ee_name :: string
  ee_kind :: string
  ee_index :: u32

record function_entry =
  fe_index :: u32
  fe_type_index :: u32
  fe_code_offset :: u64
  fe_code_size :: u64
  fe_local_types :: "string list"
  fe_name :: "string option"

record global_entry =
  ge_index :: u32
  ge_ty :: string
  ge_mutable :: bool
  ge_init :: "string option"

record table_entry =
  te_index :: u32
  te_elem_ty :: string
  te_initial :: u64
  te_maximum :: "u64 option"

record element_segment =
  es_index :: u32
  es_table_index :: u32
  es_offset :: "u64 option"
  es_func_indices :: "u32 list"

record memory_entry =
  me_index :: u32
  me_initial_pages :: u64
  me_maximum_pages :: "u64 option"
  me_shared :: bool
  me_memory64 :: bool
  me_page_size_log2 :: "u32 option"

record data_segment =
  ds_index :: u32
  ds_memory_index :: u32
  ds_offset :: "u64 option"
  ds_len :: u32
  ds_file_offset :: u64

record feature_map =
  fm_multi_value :: bool
  fm_bulk_memory :: bool
  fm_reference_types :: bool
  fm_simd :: bool
  fm_relaxed_simd :: bool
  fm_tail_call :: bool
  fm_exception_handling :: bool
  fm_threads :: bool
  fm_memory64 :: bool
  fm_multi_memory :: bool
  fm_function_references :: bool
  fm_gc :: bool

record custom_info =
  ci_name_section :: bool
  ci_producers :: "(string \<times> string) list option"
  ci_other_names :: "string list"

record module_model =
  mm_version :: u16
  mm_sections :: "section_info list"
  mm_types :: "func_type list"
  mm_imports :: "import_entry list"
  mm_exports :: "export_entry list"
  mm_functions :: "function_entry list"
  mm_globals :: "global_entry list"
  mm_tables :: "table_entry list"
  mm_elements :: "element_segment list"
  mm_memories :: "memory_entry list"
  mm_datas :: "data_segment list"
  mm_features :: feature_map
  mm_custom :: custom_info
  mm_start :: "u32 option"
  mm_imported_functions :: u32
  mm_binary_sha256 :: string

definition no_features :: feature_map where
  "no_features = \<lparr>fm_multi_value = False, fm_bulk_memory = False, fm_reference_types = False, fm_simd = False,
     fm_relaxed_simd = False, fm_tail_call = False, fm_exception_handling = False, fm_threads = False,
     fm_memory64 = False, fm_multi_memory = False, fm_function_references = False, fm_gc = False\<rparr>"

definition empty_model :: module_model where
  "empty_model = \<lparr>mm_version = 0, mm_sections = [], mm_types = [], mm_imports = [], mm_exports = [], mm_functions = [],
     mm_globals = [], mm_tables = [], mm_elements = [], mm_memories = [], mm_datas = [], mm_features = no_features,
     mm_custom = \<lparr>ci_name_section = False, ci_producers = None, ci_other_names = []\<rparr>, mm_start = None,
     mm_imported_functions = 0, mm_binary_sha256 = []\<rparr>"

record parse_budget =
  pb_max_sections :: usize
  pb_max_types :: usize
  pb_max_functions :: usize
  pb_max_elements :: usize
  pb_max_datas :: usize

definition default_budget :: parse_budget where
  "default_budget = \<lparr>pb_max_sections = 4096, pb_max_types = 100000, pb_max_functions = 500000,
     pb_max_elements = 100000, pb_max_datas = 100000\<rparr>"

section \<open>The parse\<close>

text \<open>The loop's variables; \<open>pv_features\<close> and \<open>pv_imported\<close> go into the model at the end.\<close>

record parse_vars =
  pv_model :: module_model
  pv_features :: feature_map
  pv_imported :: u32
  pv_cursor :: usize

definition perr :: "wp_error \<Rightarrow> wasm_error" where
  "perr e = Parse (fst e) (snd e)"

text \<open>\<open>for x in reader\<close> with \<open>x.map_err(perr)?\<close>, and the same over \<open>enumerate()\<close>.\<close>

fun for_items :: "('a \<Rightarrow> 's \<Rightarrow> 's wasm_result) \<Rightarrow> (wp_error + 'a) list \<Rightarrow> 's \<Rightarrow> 's wasm_result" where
  "for_items f [] s = Inr s"
| "for_items f (Inl e # rs) s = Inl (perr e)"
| "for_items f (Inr x # rs) s = rbind (f x s) (for_items f rs)"

definition for_enum :: "(nat \<Rightarrow> 'a \<Rightarrow> 's \<Rightarrow> 's wasm_result) \<Rightarrow> (wp_error + 'a) list \<Rightarrow> 's \<Rightarrow> 's wasm_result" where
  "for_enum f rs = for_items (\<lambda>(i, x). f i x) (map (\<lambda>(i, r). rmap (Pair i) r) (enumerate0 rs))"

definition model_max_sections :: usize where
  "model_max_sections = 4096"

definition record_section :: "u8 \<Rightarrow> string \<Rightarrow> offsets \<Rightarrow> parse_vars \<Rightarrow> parse_vars" where
  "record_section i nm r v =
     (let m = pv_model v in
      if length (mm_sections m) < model_max_sections
      then v\<lparr>pv_model := m\<lparr>mm_sections := mm_sections m @ [\<lparr>se_id = i, se_name = nm, se_offset = of_nat (fst r), se_size = of_nat (snd r - fst r)\<rparr>]\<rparr>\<rparr>
      else v)"

definition parse_type :: "parse_budget \<Rightarrow> composite \<Rightarrow> parse_vars \<Rightarrow> parse_vars wasm_result" where
  "parse_type budget c v =
     (let m = pv_model v; add = (\<lambda>ps rs. m\<lparr>mm_types := mm_types m @ [\<lparr>ft_params = ps, ft_results = rs\<rparr>]\<rparr>); gc = (pv_features v)\<lparr>fm_gc := True\<rparr> in
      if length (mm_types m) \<ge> pb_max_types budget then Inl (Budget ''types'')
      else case c of
        FuncTy ps rs \<Rightarrow> Inr (v\<lparr>pv_model := add ps rs\<rparr>)
      | StructTy \<Rightarrow> Inr (v\<lparr>pv_model := add [''struct''] [], pv_features := gc\<rparr>)
      | ArrayTy \<Rightarrow> Inr (v\<lparr>pv_model := add [''array''] [], pv_features := gc\<rparr>)
      | ContTy \<Rightarrow> Inl (Parse 0 ''stack switching (cont) types unsupported''))"

definition parse_type_group :: "parse_budget \<Rightarrow> composite list \<Rightarrow> parse_vars \<Rightarrow> parse_vars wasm_result" where
  "parse_type_group budget cs = for_items (parse_type budget) (map Inr cs)"

definition is_wasi :: "string \<Rightarrow> bool" where
  "is_wasi m \<longleftrightarrow> starts_with m ''wasi_'' \<or> m = ''wasi_unstable'' \<or> m = ''wasi_snapshot_preview1''"

definition parse_import :: "string \<times> string \<times> type_ref \<Rightarrow> parse_vars \<Rightarrow> parse_vars wasm_result" where
  "parse_import imp v =
     (let (md, nm, ty) = imp; m = pv_model v;
          (kind, tidx) = (case ty of RefFunc t \<Rightarrow> (''func'', Some t) | RefTable \<Rightarrow> (''table'', None) | RefMemory \<Rightarrow> (''memory'', None)
             | RefGlobal \<Rightarrow> (''global'', None) | RefTag \<Rightarrow> (''tag'', None))
      in Inr (v\<lparr>pv_model := m\<lparr>mm_imports := mm_imports m @
             [\<lparr>ie_module = md, ie_name = nm, ie_kind = kind, ie_type_index = tidx, ie_wasi = is_wasi md\<rparr>]\<rparr>,
           pv_imported := pv_imported v + (case ty of RefFunc _ \<Rightarrow> 1 | _ \<Rightarrow> 0)\<rparr>))"

definition parse_function :: "parse_budget \<Rightarrow> nat \<Rightarrow> u32 \<Rightarrow> parse_vars \<Rightarrow> parse_vars wasm_result" where
  "parse_function budget i t v =
     (let m = pv_model v in
      if length (mm_functions m) \<ge> pb_max_functions budget then Inl (Budget ''functions'')
      else Inr (v\<lparr>pv_model := m\<lparr>mm_functions := mm_functions m @
         [\<lparr>fe_index = pv_imported v + of_nat i, fe_type_index = t, fe_code_offset = 0, fe_code_size = 0, fe_local_types = [], fe_name = None\<rparr>]\<rparr>\<rparr>))"

definition parse_table :: "nat \<Rightarrow> wp_table \<Rightarrow> parse_vars \<Rightarrow> parse_vars wasm_result" where
  "parse_table i t v =
     (let m = pv_model v; fs = pv_features v in
      Inr (v\<lparr>pv_model := m\<lparr>mm_tables := mm_tables m @
          [\<lparr>te_index = of_nat i, te_elem_ty = wt_elem t, te_initial = wt_initial t, te_maximum = wt_maximum t\<rparr>]\<rparr>,
        pv_features := fs\<lparr>fm_reference_types := fm_reference_types fs \<or> wt_is_reference t\<rparr>\<rparr>))"

definition parse_memory :: "nat \<Rightarrow> wp_memory \<Rightarrow> parse_vars \<Rightarrow> parse_vars wasm_result" where
  "parse_memory i w v =
     (let m = pv_model v; fs = pv_features v in
      Inr (v\<lparr>pv_model := m\<lparr>mm_memories := mm_memories m @
          [\<lparr>me_index = of_nat i, me_initial_pages = wm_initial w, me_maximum_pages = wm_maximum w, me_shared = wm_shared w,
            me_memory64 = wm_memory64 w, me_page_size_log2 = wm_page_size_log2 w\<rparr>]\<rparr>,
        pv_features := fs\<lparr>fm_multi_memory := fm_multi_memory fs \<or> i \<ge> 1, fm_memory64 := fm_memory64 fs \<or> wm_memory64 w,
          fm_threads := fm_threads fs \<or> wm_shared w\<rparr>\<rparr>))"

definition show_int :: "int \<Rightarrow> string" where
  "show_int i = (if i < 0 then ''-'' @ show_nat (nat (- i)) else show_nat (nat i))"

text \<open>The decimal texts of 32-bit and 64-bit floating-point numbers, given by their bits.\<close>

type_synonym float_texts = "(u32 \<Rightarrow> string) \<times> (u64 \<Rightarrow> string)"

definition global_init :: "float_texts \<Rightarrow> wp_error + operator \<Rightarrow> string option" where
  "global_init fl r = (case r of
       Inr (I32Const w) \<Rightarrow> Some (show_int (sint w))
     | Inr (I64Const w) \<Rightarrow> Some (show_int (sint w))
     | Inr (F32Const b) \<Rightarrow> Some (fst fl b)
     | Inr (F64Const b) \<Rightarrow> Some (snd fl b)
     | _ \<Rightarrow> None)"

definition parse_global :: "float_texts \<Rightarrow> nat \<Rightarrow> wp_global \<Rightarrow> parse_vars \<Rightarrow> parse_vars wasm_result" where
  "parse_global fl i g v =
     (let m = pv_model v in
      Inr (v\<lparr>pv_model := m\<lparr>mm_globals := mm_globals m @
        [\<lparr>ge_index = of_nat i, ge_ty = wg_content g, ge_mutable = wg_mutable g, ge_init = global_init fl (wg_init g)\<rparr>]\<rparr>\<rparr>))"

definition parse_export :: "string \<times> external_kind \<times> u32 \<Rightarrow> parse_vars \<Rightarrow> parse_vars wasm_result" where
  "parse_export e v =
     (let (nm, k, i) = e; m = pv_model v;
          kind = (case k of ExtFunc \<Rightarrow> ''func'' | ExtTable \<Rightarrow> ''table'' | ExtMemory \<Rightarrow> ''memory'' | ExtGlobal \<Rightarrow> ''global'' | ExtTag \<Rightarrow> ''tag'')
      in Inr (v\<lparr>pv_model := m\<lparr>mm_exports := mm_exports m @ [\<lparr>ee_name = nm, ee_kind = kind, ee_index = i\<rparr>]\<rparr>\<rparr>))"

text \<open>\<open>value as u32 as u64\<close> of an \<open>i32\<close> zero-extends.\<close>

definition const_expr_u64 :: "wp_error + operator \<Rightarrow> u64 option" where
  "const_expr_u64 r = (case r of Inr (I32Const w) \<Rightarrow> Some (ucast w) | Inr (I64Const w) \<Rightarrow> Some w | _ \<Rightarrow> None)"

definition ok_items :: "('e + 'a) list \<Rightarrow> 'a list" where
  "ok_items rs = List.map_filter (\<lambda>r. case r of Inr x \<Rightarrow> Some x | Inl _ \<Rightarrow> None) rs"

definition parse_element :: "parse_budget \<Rightarrow> nat \<Rightarrow> wp_element \<Rightarrow> parse_vars \<Rightarrow> parse_vars wasm_result" where
  "parse_element budget i e v =
     (let m = pv_model v in
      if length (mm_elements m) \<ge> pb_max_elements budget then Inl (Budget ''elements'')
      else Inr (v\<lparr>pv_model := m\<lparr>mm_elements := mm_elements m @
        [\<lparr>es_index = of_nat i,
          es_table_index = (case wl_kind e of Active t _ \<Rightarrow> unwrap_or t 0 | PassiveOrDeclared \<Rightarrow> 0),
          es_offset = (case wl_kind e of Active _ off \<Rightarrow> const_expr_u64 off | PassiveOrDeclared \<Rightarrow> None),
          es_func_indices = (case wl_functions e of Some fs \<Rightarrow> ok_items fs | None \<Rightarrow> [])\<rparr>]\<rparr>\<rparr>))"

definition parse_code :: "offsets \<Rightarrow> wp_error + (wp_error + (u32 \<times> string)) list \<Rightarrow> parse_vars \<Rightarrow> parse_vars wasm_result" where
  "parse_code r locals v =
     (let m = pv_model v; c = pv_cursor v in
      if c \<ge> length (mm_functions m) then Inl (Budget ''code entries exceed declared functions'')
      else rbind (rmap_err perr locals) (\<lambda>items.
        rbind (for_items (\<lambda>(n, ty) acc. Inr (acc @ replicate (unat n) ty)) items []) (\<lambda>local_types.
          Inr (v\<lparr>pv_model := m\<lparr>mm_functions := (mm_functions m)[c := (mm_functions m ! c)\<lparr>fe_local_types := local_types,
                 fe_code_offset := of_nat (fst r), fe_code_size := of_nat (snd r - fst r)\<rparr>]\<rparr>,
               pv_cursor := c + 1\<rparr>))))"

definition parse_data :: "parse_budget \<Rightarrow> nat \<Rightarrow> wp_data \<Rightarrow> parse_vars \<Rightarrow> parse_vars wasm_result" where
  "parse_data budget i d v =
     (let m = pv_model v in
      if length (mm_datas m) \<ge> pb_max_datas budget then Inl (Budget ''datas'')
      else Inr (v\<lparr>pv_model := m\<lparr>mm_datas := mm_datas m @
          [\<lparr>ds_index = of_nat i,
            ds_memory_index = (case wd_kind d of ActiveData mi _ \<Rightarrow> mi | PassiveData \<Rightarrow> 0),
            ds_offset = (case wd_kind d of ActiveData _ off \<Rightarrow> const_expr_u64 off | PassiveData \<Rightarrow> None),
            ds_len = of_nat (wd_len d), ds_file_offset = of_nat (wd_start d)\<rparr>]\<rparr>,
          pv_features := (pv_features v)\<lparr>fm_bulk_memory := True\<rparr>\<rparr>))"

text \<open>\<open>iter_mut().find(p)\<close> and an update of what it finds.\<close>

fun update_first :: "('a \<Rightarrow> bool) \<Rightarrow> ('a \<Rightarrow> 'a) \<Rightarrow> 'a list \<Rightarrow> 'a list" where
  "update_first p f [] = []"
| "update_first p f (x # xs) = (if p x then f x # xs else x # update_first p f xs)"

definition name_function :: "u32 \<times> string \<Rightarrow> function_entry list \<Rightarrow> function_entry list" where
  "name_function item fs = (case item of (i, nm) \<Rightarrow> update_first (\<lambda>f. fe_index f = i) (\<lambda>f. f\<lparr>fe_name := Some nm\<rparr>) fs)"

fun name_subsections :: "(wp_error + name_sub) list \<Rightarrow> function_entry list \<Rightarrow> function_entry list" where
  "name_subsections [] fs = fs"
| "name_subsections (Inl _ # _) fs = fs"
| "name_subsections (Inr (FunctionNames items) # subs) fs = name_subsections subs (fold name_function (ok_items items) fs)"
| "name_subsections (Inr OtherNames # subs) fs = name_subsections subs fs"

definition producer_values :: "(wp_error + (string \<times> (wp_error + string) list)) list \<Rightarrow> (string \<times> string) list" where
  "producer_values fls = concat (map (\<lambda>(nm, values). map (Pair nm) (ok_items values)) (ok_items fls))"

definition parse_custom :: "custom \<Rightarrow> parse_vars \<Rightarrow> parse_vars" where
  "parse_custom c v =
     (let m = pv_model v; ci = mm_custom m in
      case c of
        NameSection subs \<Rightarrow> v\<lparr>pv_model := m\<lparr>mm_custom := ci\<lparr>ci_name_section := True\<rparr>, mm_functions := name_subsections subs (mm_functions m)\<rparr>\<rparr>
      | Producers (Inl _) \<Rightarrow> v
      | Producers (Inr fls) \<Rightarrow> v\<lparr>pv_model := m\<lparr>mm_custom := ci\<lparr>ci_producers := Some (producer_values fls)\<rparr>\<rparr>\<rparr>
      | OtherCustom nm \<Rightarrow> v\<lparr>pv_model := m\<lparr>mm_custom := ci\<lparr>ci_other_names := ci_other_names ci @ [nm]\<rparr>\<rparr>\<rparr>)"

definition parse_payload :: "float_texts \<Rightarrow> parse_budget \<Rightarrow> wp_payload \<Rightarrow> parse_vars \<Rightarrow> parse_vars wasm_result" where
  "parse_payload fl budget p v = (case p of
       Version \<Rightarrow> Inr v
     | TypeSection r items \<Rightarrow> for_items (parse_type_group budget) items (record_section 1 ''type'' r v)
     | ImportSection r items \<Rightarrow> for_items parse_import items (record_section 2 ''import'' r v)
     | FunctionSection r items \<Rightarrow> for_enum (parse_function budget) items (record_section 3 ''function'' r v)
     | TableSection r items \<Rightarrow> for_enum parse_table items (record_section 4 ''table'' r v)
     | MemorySection r items \<Rightarrow> for_enum parse_memory items (record_section 5 ''memory'' r v)
     | GlobalSection r items \<Rightarrow> for_enum (parse_global fl) items (record_section 6 ''global'' r v)
     | ExportSection r items \<Rightarrow> for_items parse_export items (record_section 7 ''export'' r v)
     | StartSection f \<Rightarrow> Inr (v\<lparr>pv_model := (pv_model v)\<lparr>mm_start := Some f\<rparr>\<rparr>)
     | ElementSection r items \<Rightarrow> for_enum (parse_element budget) items (record_section 9 ''elem'' r v)
     | CodeSectionStart r \<Rightarrow> Inr (record_section 10 ''code'' r v)
     | CodeSectionEntry r locals \<Rightarrow> parse_code r locals v
     | DataSection r items \<Rightarrow> for_enum (parse_data budget) items (record_section 11 ''data'' r v)
     | TagSection r \<Rightarrow>
         (let v' = record_section 13 ''tag'' r v in Inr (v'\<lparr>pv_features := (pv_features v')\<lparr>fm_exception_handling := True\<rparr>\<rparr>))
     | CustomSection c \<Rightarrow> Inr (parse_custom c v)
     | OtherPayload \<Rightarrow> Inr v)"

definition uses_simd :: "module_model \<Rightarrow> bool" where
  "uses_simd m = list_ex (\<lambda>f. list_ex (\<lambda>t. str_contains t ''v128'') (fe_local_types f)) (mm_functions m)"

definition finish_model :: "parse_vars \<Rightarrow> module_model" where
  "finish_model v =
     (let m = pv_model v; fs = pv_features v in
      m\<lparr>mm_features := fs\<lparr>fm_simd := fm_simd fs \<or> uses_simd m\<rparr>, mm_imported_functions := pv_imported v\<rparr>)"

definition wasm_magic :: "u8 list" where
  "wasm_magic = [0, 0x61, 0x73, 0x6d]"

definition parse_with_budget ::
  "float_texts \<Rightarrow> (u8 list \<Rightarrow> (wp_error + wp_payload) list) \<Rightarrow> parse_budget \<Rightarrow> u8 list \<Rightarrow> module_model wasm_result" where
  "parse_with_budget fl parse_all budget bytes =
     (if length bytes < 8 \<or> take 4 bytes \<noteq> wasm_magic then Inl (Parse 0 ''not a WASM module (bad magic)'')
      else
        (let version = word_of_nat (unat (bytes ! 6) + 256 * unat (bytes ! 7));
             v = \<lparr>pv_model = empty_model\<lparr>mm_version := version\<rparr>, pv_features = no_features, pv_imported = 0, pv_cursor = 0\<rparr>
         in rmap finish_model (for_items (parse_payload fl budget) (parse_all bytes) v)))"

definition parse_module :: "float_texts \<Rightarrow> (u8 list \<Rightarrow> (wp_error + wp_payload) list) \<Rightarrow> u8 list \<Rightarrow> module_model wasm_result" where
  "parse_module fl parse_all bytes = parse_with_budget fl parse_all default_budget bytes"

section \<open>What a parsed module satisfies\<close>

lemma for_items_append: "for_items f (rs @ rs') s = rbind (for_items f rs s) (for_items f rs')"
proof (induction f rs s rule: for_items.induct)
  case (3 f x rs s)
  then show ?case by (cases "f x s") auto
qed auto

lemma for_items_invariant:
  assumes "for_items f rs s = Inr s'" "P s" "\<And>x s s'. Inr x \<in> set rs \<Longrightarrow> f x s = Inr s' \<Longrightarrow> P s \<Longrightarrow> P s'"
  shows "P s'"
  using assms by (induction f rs s rule: for_items.induct) (auto simp: rbind_eq_Inr)

lemma for_enum_invariant:
  assumes "for_enum f rs s = Inr s'" "P s" "\<And>i x s s'. f i x s = Inr s' \<Longrightarrow> P s \<Longrightarrow> P s'"
  shows "P s'"
  using assms(1) unfolding for_enum_def by (rule for_items_invariant) (use assms(2, 3) in auto)

lemma record_section_vars [simp]:
  "pv_imported (record_section i nm r v) = pv_imported v" "pv_cursor (record_section i nm r v) = pv_cursor v"
  "pv_features (record_section i nm r v) = pv_features v"
  by (simp_all add: record_section_def Let_def)

lemma record_section_model [simp]:
  "mm_types (pv_model (record_section i nm r v)) = mm_types (pv_model v)"
  "mm_imports (pv_model (record_section i nm r v)) = mm_imports (pv_model v)"
  "mm_functions (pv_model (record_section i nm r v)) = mm_functions (pv_model v)"
  "mm_elements (pv_model (record_section i nm r v)) = mm_elements (pv_model v)"
  "mm_datas (pv_model (record_section i nm r v)) = mm_datas (pv_model v)"
  by (simp_all add: record_section_def Let_def)

lemma record_section_bound: "length (mm_sections (pv_model v)) \<le> 4096 \<Longrightarrow> length (mm_sections (pv_model (record_section i nm r v))) \<le> 4096"
  by (simp add: record_section_def Let_def model_max_sections_def)

lemma length_update_first [simp]: "length (update_first p f xs) = length xs"
  by (induction xs) auto

lemma map_update_first: "(\<And>x. g (f x) = g x) \<Longrightarrow> map g (update_first p f xs) = map g xs"
  by (induction xs) auto

abbreviation signature_of :: "function_entry \<Rightarrow> u32 \<times> u32" where
  "signature_of f \<equiv> (fe_index f, fe_type_index f)"

lemma map_name_function [simp]: "map signature_of (name_function item fs) = map signature_of fs"
  by (simp add: name_function_def map_update_first split: prod.split)

lemma map_name_functions [simp]: "map signature_of (fold name_function items fs) = map signature_of fs"
  by (induction items arbitrary: fs) auto

lemma map_name_subsections [simp]: "map signature_of (name_subsections subs fs) = map signature_of fs"
  by (induction subs fs rule: name_subsections.induct) auto

lemma length_name_subsections [simp]: "length (name_subsections subs fs) = length fs"
  by (rule map_eq_imp_length_eq [OF map_name_subsections])

text \<open>The limits, and the count of imported functions.\<close>

definition within_budget :: "parse_budget \<Rightarrow> parse_vars \<Rightarrow> bool" where
  "within_budget budget v =
     (let m = pv_model v in length (mm_sections m) \<le> 4096 \<and> length (mm_types m) \<le> pb_max_types budget \<and>
        length (mm_functions m) \<le> pb_max_functions budget \<and> length (mm_elements m) \<le> pb_max_elements budget \<and>
        length (mm_datas m) \<le> pb_max_datas budget \<and>
        pv_imported v = of_nat (length (filter (\<lambda>i. ie_kind i = ''func'') (mm_imports m))))"

lemma within_budget_record_section [simp]: "within_budget budget v \<Longrightarrow> within_budget budget (record_section i nm r v)"
  by (simp add: within_budget_def Let_def record_section_bound)

lemma parse_type_group_budget: "parse_type_group budget cs v = Inr v' \<Longrightarrow> within_budget budget v \<Longrightarrow> within_budget budget v'"
  unfolding parse_type_group_def
  by (erule for_items_invariant [where P = "within_budget budget"])
    (auto simp: parse_type_def within_budget_def Let_def split: if_splits composite.splits)

lemma parse_code_budget: "parse_code r ls v = Inr v' \<Longrightarrow> within_budget budget v \<Longrightarrow> within_budget budget v'"
  by (auto simp: parse_code_def within_budget_def Let_def rbind_eq_Inr split: if_splits)

lemma parse_payload_budget:
  assumes "parse_payload fl budget p v = Inr v'" "within_budget budget v"
  shows "within_budget budget v'"
proof (cases p)
  case (TypeSection r items)
  then show ?thesis using assms by (auto simp: parse_payload_def elim!: for_items_invariant intro: parse_type_group_budget)
next
  case (ImportSection r items)
  then show ?thesis using assms
    by (auto simp: parse_payload_def elim!: for_items_invariant)
      (auto simp: parse_import_def within_budget_def Let_def split: prod.splits type_ref.splits)
next
  case (FunctionSection r items)
  then show ?thesis using assms
    by (auto simp: parse_payload_def elim!: for_enum_invariant) (auto simp: parse_function_def within_budget_def Let_def split: if_splits)
next
  case (TableSection r items)
  then show ?thesis using assms
    by (auto simp: parse_payload_def elim!: for_enum_invariant) (auto simp: parse_table_def within_budget_def Let_def)
next
  case (MemorySection r items)
  then show ?thesis using assms
    by (auto simp: parse_payload_def elim!: for_enum_invariant) (auto simp: parse_memory_def within_budget_def Let_def)
next
  case (GlobalSection r items)
  then show ?thesis using assms
    by (auto simp: parse_payload_def elim!: for_enum_invariant) (auto simp: parse_global_def within_budget_def Let_def)
next
  case (ExportSection r items)
  then show ?thesis using assms
    by (auto simp: parse_payload_def elim!: for_items_invariant) (auto simp: parse_export_def within_budget_def Let_def split: prod.splits)
next
  case (ElementSection r items)
  then show ?thesis using assms
    by (auto simp: parse_payload_def elim!: for_enum_invariant) (auto simp: parse_element_def within_budget_def Let_def split: if_splits)
next
  case (DataSection r items)
  then show ?thesis using assms
    by (auto simp: parse_payload_def elim!: for_enum_invariant) (auto simp: parse_data_def within_budget_def Let_def split: if_splits)
next
  case (CodeSectionEntry r locals)
  then show ?thesis using assms parse_code_budget by (auto simp: parse_payload_def)
next
  case (CustomSection c)
  then show ?thesis using assms
    by (auto simp: parse_payload_def parse_custom_def within_budget_def Let_def split: custom.splits sum.splits)
next
  case (TagSection r)
  then show ?thesis using assms within_budget_record_section [OF assms(2), of 13 "''tag''" r] by (auto simp: parse_payload_def within_budget_def Let_def)
next
  case (StartSection f)
  then show ?thesis using assms by (auto simp: parse_payload_def within_budget_def Let_def)
qed (use assms in \<open>auto simp: parse_payload_def\<close>)

definition parse_start :: "u16 \<Rightarrow> parse_vars" where
  "parse_start version = \<lparr>pv_model = empty_model\<lparr>mm_version := version\<rparr>, pv_features = no_features, pv_imported = 0, pv_cursor = 0\<rparr>"

lemma parse_with_budget_Inr:
  assumes "parse_with_budget fl parse_all budget bytes = Inr m"
  obtains version v where "for_items (parse_payload fl budget) (parse_all bytes) (parse_start version) = Inr v" "m = finish_model v"
  using assms by (auto simp: parse_with_budget_def parse_start_def Let_def result_simps split: if_splits)

lemma parse_module_budget:
  assumes "parse_with_budget fl parse_all budget bytes = Inr m"
  obtains v where "m = finish_model v" "within_budget budget v"
proof -
  obtain version v where v: "for_items (parse_payload fl budget) (parse_all bytes) (parse_start version) = Inr v" "m = finish_model v"
    using parse_with_budget_Inr [OF assms] by metis
  have "within_budget budget (parse_start version)" by (simp add: within_budget_def parse_start_def empty_model_def)
  then have "within_budget budget v" using for_items_invariant [OF v(1), of "within_budget budget"] parse_payload_budget by blast
  with v(2) show ?thesis by (rule that)
qed

text \<open>The index space: a payload other than a function section keeps indices and types.\<close>

abbreviation signatures :: "parse_vars \<Rightarrow> (u32 \<times> u32) list" where
  "signatures v \<equiv> map signature_of (mm_functions (pv_model v))"

fun is_function_section :: "wp_payload \<Rightarrow> bool" where
  "is_function_section (FunctionSection _ _) = True"
| "is_function_section _ = False"

fun is_import_section :: "wp_payload \<Rightarrow> bool" where
  "is_import_section (ImportSection _ _) = True"
| "is_import_section _ = False"

lemma parse_type_group_keeps:
  assumes "parse_type_group budget cs v = Inr v'"
  shows "signatures v' = signatures v \<and> pv_imported v' = pv_imported v"
  using assms unfolding parse_type_group_def
  by (rule for_items_invariant [where P = "\<lambda>w. signatures w = signatures v \<and> pv_imported w = pv_imported v"])
    (auto simp: parse_type_def Let_def split: if_splits composite.splits)

lemma parse_code_keeps: "parse_code r ls v = Inr v' \<Longrightarrow> signatures v' = signatures v \<and> pv_imported v' = pv_imported v"
  by (auto simp: parse_code_def Let_def rbind_eq_Inr map_update split: if_splits intro!: list_eq_iff_nth_eq [THEN iffD2])
    (auto simp: nth_list_update)

lemma parse_payload_keeps_signatures:
  assumes "parse_payload fl budget p v = Inr v'" "\<not> is_function_section p"
  shows "signatures v' = signatures v"
proof -
  note [elim!] = for_items_invariant [where P = "\<lambda>w. signatures w = signatures v"] for_enum_invariant [where P = "\<lambda>w. signatures w = signatures v"]
  show ?thesis
    using assms parse_type_group_keeps parse_code_keeps
    by (cases p) (auto simp: parse_payload_def parse_import_def parse_table_def parse_memory_def parse_global_def parse_export_def
        parse_element_def parse_data_def parse_custom_def Let_def split: prod.splits if_splits custom.splits sum.splits)
qed

lemma parse_payload_keeps_imported:
  assumes "parse_payload fl budget p v = Inr v'" "\<not> is_import_section p"
  shows "pv_imported v' = pv_imported v"
proof -
  note [elim!] = for_items_invariant [where P = "\<lambda>w. pv_imported w = pv_imported v"] for_enum_invariant [where P = "\<lambda>w. pv_imported w = pv_imported v"]
  show ?thesis
    using assms parse_type_group_keeps parse_code_keeps
    by (cases p) (auto simp: parse_payload_def parse_function_def parse_table_def parse_memory_def parse_global_def parse_export_def
        parse_element_def parse_data_def parse_custom_def Let_def split: prod.splits if_splits custom.splits sum.splits)
qed

lemma parse_functions_from:
  assumes "for_items (\<lambda>(i, t). parse_function budget i t) (map (\<lambda>(i, r). rmap (Pair i) r) (enumerate k (map Inr ts))) v = Inr v'"
  shows "signatures v' = signatures v @ map (\<lambda>(i, t). (pv_imported v + of_nat i, t)) (enumerate k ts)"
  using assms
proof (induction ts arbitrary: k v)
  case (Cons t ts)
  then obtain w where "parse_function budget k t v = Inr w"
      "for_items (\<lambda>(i, t). parse_function budget i t) (map (\<lambda>(i, r). rmap (Pair i) r) (enumerate (Suc k) (map Inr ts))) w = Inr v'"
    by (auto simp: rbind_eq_Inr)
  with Cons.IH [OF this(2)] show ?case by (auto simp: parse_function_def Let_def split: if_splits)
qed simp

lemma parse_function_section:
  assumes "parse_payload fl budget (FunctionSection r (map Inr ts)) v = Inr v'"
  shows "signatures v' = signatures v @ map (\<lambda>(i, t). (pv_imported v + of_nat i, t)) (enumerate 0 ts)"
  using parse_functions_from [of budget 0 ts "record_section 3 ''function'' r v" v'] assms
  by (simp add: parse_payload_def for_enum_def enumerate0_def)

text \<open>
  C17: a module the parser accepts has no more types, functions, element segments and data segments than the budget
  allows, lists at most 4096 sections (a constant: the section limit of the budget is not consulted) and counts its
  imported functions. When the file has exactly one function section and no import section after it, the declared
  functions take the indices that follow the imported ones, in order and with their declared types, whatever code and
  name sections come after. Files with several function sections, or with imports after it, are not covered by that part.
\<close>

theorem parsed_module_well_formed:
  assumes "parse_with_budget fl parse_all budget bytes = Inr m"
  shows "length (mm_types m) \<le> pb_max_types budget \<and> length (mm_functions m) \<le> pb_max_functions budget \<and>
      length (mm_elements m) \<le> pb_max_elements budget \<and> length (mm_datas m) \<le> pb_max_datas budget \<and> length (mm_sections m) \<le> 4096 \<and>
      mm_imported_functions m = of_nat (length (filter (\<lambda>i. ie_kind i = ''func'') (mm_imports m))) \<and>
      (\<forall>before r ts after.
         parse_all bytes = map Inr (before @ FunctionSection r (map Inr ts) # after) \<and> list_all (\<lambda>p. \<not> is_function_section p) (before @ after) \<and>
         list_all (\<lambda>p. \<not> is_import_section p) after \<longrightarrow>
         map signature_of (mm_functions m) = map (\<lambda>i. (mm_imported_functions m + of_nat i, ts ! i)) [0..<length ts])"
proof -
  obtain v where v: "m = finish_model v" "within_budget budget v" using parse_module_budget [OF assms] by metis
  have "map signature_of (mm_functions m) = map (\<lambda>i. (mm_imported_functions m + of_nat i, ts ! i)) [0..<length ts]"
    if shape: "parse_all bytes = map Inr (before @ FunctionSection r (map Inr ts) # after)"
      "list_all (\<lambda>p. \<not> is_function_section p) (before @ after)" "list_all (\<lambda>p. \<not> is_import_section p) after" for before r ts after
  proof -
    let ?f = "parse_payload fl budget"
    obtain version v1 v2 v3 where run: "for_items ?f (map Inr before) (parse_start version) = Inr v1"
        "?f (FunctionSection r (map Inr ts)) v1 = Inr v2" "for_items ?f (map Inr after) v2 = Inr v3" "m = finish_model v3"
      by (rule parse_with_budget_Inr [OF assms]) (auto simp: shape(1) result_simps for_items_append)
    have "signatures v1 = []" using shape(2)
      by (intro for_items_invariant [OF run(1), where P = "\<lambda>w. signatures w = []"])
        (auto simp: list_all_iff parse_start_def empty_model_def dest: parse_payload_keeps_signatures)
    moreover have "pv_imported v2 = pv_imported v1" by (rule parse_payload_keeps_imported [OF run(2)]) simp
    moreover have "signatures v3 = signatures v2 \<and> pv_imported v3 = pv_imported v2" using shape(2, 3)
      by (intro for_items_invariant [OF run(3), where P = "\<lambda>w. signatures w = signatures v2 \<and> pv_imported w = pv_imported v2"])
        (auto simp: list_all_iff dest: parse_payload_keeps_signatures parse_payload_keeps_imported)
    ultimately show ?thesis using parse_function_section [OF run(2)] run(4)
      by (auto simp: finish_model_def Let_def enumerate_eq_zip intro!: nth_equalityI)
  qed
  then show ?thesis using v by (auto simp: finish_model_def within_budget_def Let_def)
qed

definition sample_header :: "u8 list" where
  "sample_header = wasm_magic @ [1, 0, 0, 0]"

definition sample_payloads :: "(wp_error + wp_payload) list" where
  "sample_payloads = map Inr [Version, TypeSection (10, 14) [Inr [FuncTy [] []]], ImportSection (16, 30) [Inr (''env'', ''f'', RefFunc 0)],
     FunctionSection (32, 35) [Inr 0, Inr 0], CodeSectionStart (37, 44), CodeSectionEntry (38, 41) (Inr [])]"

theorem parsed_module_well_formed_witness:
  "\<exists>m. parse_module (\<lambda>_. [], \<lambda>_. []) (\<lambda>_. sample_payloads) sample_header = Inr m \<and> map signature_of (mm_functions m) = [(1, 0), (2, 0)]"
proof -
  obtain m where m: "parse_with_budget (\<lambda>_. [], \<lambda>_. []) (\<lambda>_. sample_payloads) default_budget sample_header = Inr m" "mm_imported_functions m = 1"
    by (simp add: parse_with_budget_def sample_header_def wasm_magic_def sample_payloads_def parse_payload_def record_section_def model_max_sections_def
        parse_type_group_def parse_type_def parse_import_def parse_function_def parse_code_def for_enum_def enumerate0_def default_budget_def
        empty_model_def no_features_def finish_model_def Let_def)
  have shape: "sample_payloads = map Inr ([Version, TypeSection (10, 14) [Inr [FuncTy [] []]], ImportSection (16, 30) [Inr (''env'', ''f'', RefFunc 0)]] @
      FunctionSection (32, 35) (map Inr [0, 0]) # [CodeSectionStart (37, 44), CodeSectionEntry (38, 41) (Inr [])])"
    by (simp add: sample_payloads_def)
  from parsed_module_well_formed [OF m(1)] have "map signature_of (mm_functions m) = map (\<lambda>i. (1 + of_nat i, [0, 0] ! i)) [0..<length [0, 0 :: u32]]"
    using shape unfolding m(2) by (elim conjE allE [of _ "[Version, TypeSection (10, 14) [Inr [FuncTy [] []]], ImportSection (16, 30) [Inr (''env'', ''f'', RefFunc 0)]]"]
      allE [of _ "(32, 35)"] allE [of _ "[0, 0]"] allE [of _ "[CodeSectionStart (37, 44), CodeSectionEntry (38, 41) (Inr [])]"]) simp
  then show ?thesis using m(1) by (simp add: parse_module_def upt_rec)
qed

text \<open>The version is read from the last two bytes of the header: it is 0 for the standard header,
  whose version field says 1.\<close>

lemma standard_header_has_version_0: "rmap mm_version (parse_module fl (\<lambda>_. [Inr Version]) sample_header) = Inr 0"
  by (simp add: parse_module_def parse_with_budget_def sample_header_def wasm_magic_def parse_payload_def finish_model_def Let_def)

text \<open>Any data segment at all counts as use of the bulk memory proposal.\<close>

lemma data_segment_means_bulk_memory:
  "rmap (fm_bulk_memory \<circ> mm_features)
     (parse_module fl (\<lambda>_. [Inr (DataSection (0, 4) [Inr \<lparr>wd_kind = ActiveData 0 (Inr (I32Const 0)), wd_len = 1, wd_start = 3\<rparr>])]) sample_header) = Inr True"
  by (simp add: parse_module_def parse_with_budget_def sample_header_def wasm_magic_def parse_payload_def parse_data_def for_enum_def enumerate0_def
      record_section_def default_budget_def empty_model_def finish_model_def Let_def)

end
