(* ===== verification/Wasm_Cfg.thy ===== *)
theory Wasm_Cfg
  imports Wasm_Module
begin

text \<open>
  \<open>crates/rmcp-wasm/src/cfg.rs\<close>: the structured control flow of one function body. The operators of
  a body are read by \<open>wasmparser\<close>; \<open>ops\<close> is the argument that stands for its reader, the list of
  what the loop reads: the position before, the position after, and the operator or the
  error. Region numbers and the operator count are natural numbers: the budget of five million
  operators keeps them far below the width of their types.
\<close>

section \<open>Data\<close>

type_synonym op_site = "u64 \<times> u64"
type_synonym op_read = "op_site \<times> (wp_error + operator)"
type_synonym op_reader = "u8 list \<Rightarrow> op_read list"

text \<open>What the WebAssembly tool finds outside the repository: the file system, the decoder, and the texts of
  floating-point numbers.\<close>

record wasm_env =
  we_read :: "string \<Rightarrow> string + u8 list"
  we_parse_all :: "u8 list \<Rightarrow> (wp_error + wp_payload) list"
  we_ops :: op_reader
  we_floats :: float_texts

datatype block_kind = KindFunction | KindBlock | KindLoop | KindIf bool | KindTry

record wasm_region =
  wn_id :: nat
  wn_kind :: block_kind
  wn_start_offset :: u64
  wn_branch_sources :: "u64 list"
  wn_end_offset :: u64
  wn_parent :: "nat option"

record structured_cfg =
  sc_regions :: "wasm_region list"
  sc_calls :: "(u64 \<times> u32) list"
  sc_indirect_calls :: "(u64 \<times> u32 \<times> u32) list"
  sc_br_tables :: "(u64 \<times> nat list) list"
  sc_diagnostics :: "string list"
  sc_operator_count :: nat

definition empty_cfg :: structured_cfg where
  "empty_cfg = \<lparr>sc_regions = [], sc_calls = [], sc_indirect_calls = [], sc_br_tables = [], sc_diagnostics = [], sc_operator_count = 0\<rparr>"

text \<open>The loop's variables; the top of a stack is its last element.\<close>

record cfg_vars =
  cv_cfg :: structured_cfg
  cv_stack :: "nat list"
  cv_next_id :: nat
  cv_open_regions :: "(nat \<times> u64) list"

section \<open>The analysis\<close>

definition resolve_label :: "nat list \<Rightarrow> u32 \<Rightarrow> nat option" where
  "resolve_label stack depth = (if 1 + unat depth \<le> length stack then Some (stack ! (length stack - (1 + unat depth))) else None)"

definition record_branch :: "nat \<Rightarrow> u64 \<Rightarrow> structured_cfg \<Rightarrow> structured_cfg" where
  "record_branch t pos cfg = cfg\<lparr>sc_regions :=
     update_first (\<lambda>r. wn_id r = t) (\<lambda>r. r\<lparr>wn_branch_sources := wn_branch_sources r @ [pos]\<rparr>) (sc_regions cfg)\<rparr>"

definition diagnose :: "string \<Rightarrow> structured_cfg \<Rightarrow> structured_cfg" where
  "diagnose m cfg = cfg\<lparr>sc_diagnostics := sc_diagnostics cfg @ [m]\<rparr>"

definition push_region :: "block_kind \<Rightarrow> u64 \<Rightarrow> cfg_vars \<Rightarrow> cfg_vars" where
  "push_region kind pos v =
     (let i = cv_next_id v; cfg = cv_cfg v;
          r = \<lparr>wn_id = i, wn_kind = kind, wn_start_offset = pos, wn_branch_sources = [], wn_end_offset = 0,
               wn_parent = (if cv_stack v = [] then None else Some (last (cv_stack v)))\<rparr>
      in v\<lparr>cv_cfg := cfg\<lparr>sc_regions := sc_regions cfg @ [r]\<rparr>, cv_stack := cv_stack v @ [i], cv_next_id := i + 1,
           cv_open_regions := cv_open_regions v @ [(i, pos)]\<rparr>)"

definition branch :: "string \<Rightarrow> u64 \<Rightarrow> u32 \<Rightarrow> cfg_vars \<Rightarrow> cfg_vars" where
  "branch mnemonic pos depth v = v\<lparr>cv_cfg := (case resolve_label (cv_stack v) depth of
       Some t \<Rightarrow> record_branch t pos (cv_cfg v)
     | None \<Rightarrow> diagnose (mnemonic @ '' at '' @ hex_alt pos @ '': depth '' @ show_nat (unat depth) @ '' out of range'') (cv_cfg v))\<rparr>"

definition mark_else :: "cfg_vars \<Rightarrow> cfg_vars" where
  "mark_else v = (if cv_stack v = [] then v else v\<lparr>cv_cfg := (cv_cfg v)\<lparr>sc_regions :=
     update_first (\<lambda>r. wn_id r = last (cv_stack v)) (\<lambda>r. case wn_kind r of KindIf _ \<Rightarrow> r\<lparr>wn_kind := KindIf True\<rparr> | _ \<Rightarrow> r) (sc_regions (cv_cfg v))\<rparr>\<rparr>)"

definition close_region :: "u64 \<Rightarrow> cfg_vars \<Rightarrow> cfg_vars" where
  "close_region pos v =
     (let v1 = v\<lparr>cv_stack := butlast (cv_stack v)\<rparr> in
      if cv_open_regions v = [] then v1
      else v1\<lparr>cv_open_regions := butlast (cv_open_regions v), cv_cfg := (cv_cfg v)\<lparr>sc_regions :=
        update_first (\<lambda>r. wn_id r = fst (last (cv_open_regions v))) (\<lambda>r. r\<lparr>wn_end_offset := pos\<rparr>) (sc_regions (cv_cfg v))\<rparr>\<rparr>)"

definition table_targets :: "nat list \<Rightarrow> u32 option list \<Rightarrow> u32 \<Rightarrow> nat list" where
  "table_targets stack ts dflt = List.map_filter (resolve_label stack) (List.map_filter id ts @ [dflt])"

text \<open>One operator; the flag says that the function has ended.\<close>

definition cfg_step :: "u64 \<Rightarrow> operator \<Rightarrow> cfg_vars \<Rightarrow> (bool \<times> cfg_vars) wasm_result" where
  "cfg_step pos op v =
     (let cfg = cv_cfg v; go = (\<lambda>v'. Inr (False, v')); cont = (\<lambda>c. Inr (False, v\<lparr>cv_cfg := c\<rparr>)) in
      case op of
        BlockOp \<Rightarrow> if cv_next_id v + 1 > 1000000 then Inl (Budget ''region count'') else go (push_region KindBlock pos v)
      | LoopOp \<Rightarrow> go (push_region KindLoop pos v)
      | IfOp \<Rightarrow> go (push_region (KindIf False) pos v)
      | ElseOp \<Rightarrow> go (mark_else v)
      | Try \<Rightarrow> go ((push_region KindTry pos v)\<lparr>cv_cfg := diagnose (''try construct at '' @ hex_alt pos @ '': exception-handling proposal'')
            (cv_cfg (push_region KindTry pos v))\<rparr>)
      | TryTable \<Rightarrow> go ((push_region KindTry pos v)\<lparr>cv_cfg := diagnose (''try construct at '' @ hex_alt pos @ '': exception-handling proposal'')
            (cv_cfg (push_region KindTry pos v))\<rparr>)
      | Br d \<Rightarrow> go (branch ''br'' pos d v)
      | BrIf d \<Rightarrow> go (branch ''br_if'' pos d v)
      | BrTable ts dflt \<Rightarrow>
          (let resolved = table_targets (cv_stack v) ts dflt
           in cont (fold (\<lambda>t. record_branch t pos) resolved (cfg\<lparr>sc_br_tables := sc_br_tables cfg @ [(pos, resolved)]\<rparr>)))
      | Call f \<Rightarrow> cont (cfg\<lparr>sc_calls := sc_calls cfg @ [(pos, f)]\<rparr>)
      | CallIndirect t tb \<Rightarrow> cont (cfg\<lparr>sc_indirect_calls := sc_indirect_calls cfg @ [(pos, t, tb)]\<rparr>)
      | ReturnCall f \<Rightarrow> cont (diagnose (''tail call at '' @ hex_alt pos @ '': tail-call proposal'') (cfg\<lparr>sc_calls := sc_calls cfg @ [(pos, f)]\<rparr>))
      | ReturnCallIndirect \<Rightarrow> cont (diagnose (''tail call_indirect at '' @ hex_alt pos) cfg)
      | End \<Rightarrow> (let v' = close_region pos v in Inr (cv_stack v' = [], v'))
      | _ \<Rightarrow> go v)"

fun cfg_loop :: "op_read list \<Rightarrow> cfg_vars \<Rightarrow> cfg_vars wasm_result" where
  "cfg_loop [] v = Inr v"
| "cfg_loop ((s, Inl e) # rs) v = Inl (perr e)"
| "cfg_loop ((s, Inr op) # rs) v =
     (let v1 = v\<lparr>cv_cfg := (cv_cfg v)\<lparr>sc_operator_count := sc_operator_count (cv_cfg v) + 1\<rparr>\<rparr> in
      if sc_operator_count (cv_cfg v1) > 5000000 then Inl (Budget ''operators per function'')
      else rbind (cfg_step (fst s) op v1) (\<lambda>(stop, v2). if stop then Inr v2 else cfg_loop rs v2))"

definition cfg_start :: cfg_vars where
  "cfg_start = \<lparr>cv_cfg = empty_cfg, cv_stack = [0], cv_next_id = 1, cv_open_regions = [(0, 0)]\<rparr>"

definition analyze_body :: "op_reader \<Rightarrow> u8 list \<Rightarrow> structured_cfg wasm_result" where
  "analyze_body ops body = rmap (\<lambda>v.
     let unclosed = length (cv_stack v) in
     if unclosed > 1 then diagnose (show_nat unclosed @ '' region(s) left unclosed at function end'') (cv_cfg v) else cv_cfg v)
     (cfg_loop (ops body) cfg_start)"

section \<open>Structured code and its regions\<close>

text \<open>
  Well-nested code as a tree: an operator, a construct with its body and \<open>End\<close>, or an \<open>if\<close> with an \<open>else\<close>,
  each followed by the rest of the code.
\<close>

datatype wcode =
    Done
  | Plain op_site operator wcode
  | Nest op_site operator wcode op_site wcode
  | IfElse op_site wcode op_site wcode op_site wcode

fun flat :: "wcode \<Rightarrow> op_read list" where
  "flat Done = []"
| "flat (Plain s op c) = (s, Inr op) # flat c"
| "flat (Nest s op b e c) = (s, Inr op) # flat b @ (e, Inr End) # flat c"
| "flat (IfElse s b1 m b2 e c) = (s, Inr IfOp) # flat b1 @ (m, Inr ElseOp) # flat b2 @ (e, Inr End) # flat c"

fun opens :: "operator \<Rightarrow> block_kind option" where
  "opens BlockOp = Some KindBlock"
| "opens LoopOp = Some KindLoop"
| "opens IfOp = Some (KindIf False)"
| "opens Try = Some KindTry"
| "opens TryTable = Some KindTry"
| "opens _ = None"

fun well_nested :: "wcode \<Rightarrow> bool" where
  "well_nested Done \<longleftrightarrow> True"
| "well_nested (Plain s op c) \<longleftrightarrow> opens op = None \<and> op \<noteq> ElseOp \<and> op \<noteq> End \<and> well_nested c"
| "well_nested (Nest s op b e c) \<longleftrightarrow> opens op \<noteq> None \<and> well_nested b \<and> well_nested c"
| "well_nested (IfElse s b1 m b2 e c) \<longleftrightarrow> well_nested b1 \<and> well_nested b2 \<and> well_nested c"

fun constructs :: "wcode \<Rightarrow> nat" where
  "constructs Done = 0"
| "constructs (Plain s op c) = constructs c"
| "constructs (Nest s op b e c) = Suc (constructs b + constructs c)"
| "constructs (IfElse s b1 m b2 e c) = Suc (constructs b1 + constructs b2 + constructs c)"

text \<open>The branch targets of an operator, given the enclosing constructs from the innermost outwards.\<close>

definition target :: "nat list \<Rightarrow> u32 \<Rightarrow> nat option" where
  "target enclosing d = (if unat d < length enclosing then Some (enclosing ! unat d) else None)"

fun targets :: "nat list \<Rightarrow> operator \<Rightarrow> nat list" where
  "targets enclosing (Br d) = List.map_filter (target enclosing) [d]"
| "targets enclosing (BrIf d) = List.map_filter (target enclosing) [d]"
| "targets enclosing (BrTable ts d) = List.map_filter (target enclosing) (List.map_filter id ts @ [d])"
| "targets enclosing _ = []"

text \<open>Constructs are numbered in the order in which they open, the first \<open>n\<close>. Every branch of the code
  with its target, and the constructs with number, kind, start, end and parent.\<close>

fun branches :: "nat list \<Rightarrow> nat \<Rightarrow> wcode \<Rightarrow> (nat \<times> u64) list" where
  "branches en n Done = []"
| "branches en n (Plain s op c) = map (\<lambda>t. (t, fst s)) (targets en op) @ branches en n c"
| "branches en n (Nest s op b e c) = branches (n # en) (Suc n) b @ branches en (Suc n + constructs b) c"
| "branches en n (IfElse s b1 m b2 e c) = branches (n # en) (Suc n) b1 @ branches (n # en) (Suc n + constructs b1) b2 @
     branches en (Suc n + constructs b1 + constructs b2) c"

fun nest_of :: "nat \<Rightarrow> nat \<Rightarrow> wcode \<Rightarrow> (nat \<times> block_kind \<times> u64 \<times> u64 \<times> nat) list" where
  "nest_of parent n Done = []"
| "nest_of parent n (Plain s op c) = nest_of parent n c"
| "nest_of parent n (Nest s op b e c) = (n, the (opens op), fst s, fst e, parent) # nest_of n (Suc n) b @ nest_of parent (Suc n + constructs b) c"
| "nest_of parent n (IfElse s b1 m b2 e c) = (n, KindIf True, fst s, fst e, parent) # nest_of n (Suc n) b1 @
     nest_of n (Suc n + constructs b1) b2 @ nest_of parent (Suc n + constructs b1 + constructs b2) c"

definition sources :: "(nat \<times> u64) list \<Rightarrow> nat \<Rightarrow> u64 list" where
  "sources bs i = map snd (filter (\<lambda>b. fst b = i) bs)"

definition region_of :: "(nat \<times> u64) list \<Rightarrow> nat \<times> block_kind \<times> u64 \<times> u64 \<times> nat \<Rightarrow> wasm_region" where
  "region_of bs x = (case x of (i, k, a, e, p) \<Rightarrow> \<lparr>wn_id = i, wn_kind = k, wn_start_offset = a, wn_branch_sources = sources bs i,
     wn_end_offset = e, wn_parent = Some p\<rparr>)"

text \<open>What the operators of the code contribute to the lists of calls.\<close>

definition call_sites :: "op_read list \<Rightarrow> (u64 \<times> u32) list" where
  "call_sites = List.map_filter (\<lambda>(s, r). case r of Inr (Call f) \<Rightarrow> Some (fst s, f) | Inr (ReturnCall f) \<Rightarrow> Some (fst s, f) | _ \<Rightarrow> None)"

definition indirect_sites_of :: "op_read list \<Rightarrow> (u64 \<times> u32 \<times> u32) list" where
  "indirect_sites_of = List.map_filter (\<lambda>(s, r). case r of Inr (CallIndirect t tb) \<Rightarrow> Some (fst s, t, tb) | _ \<Rightarrow> None)"

section \<open>The analysis recovers the tree\<close>

lemma map_filter_append: "List.map_filter f (xs @ ys) = List.map_filter f xs @ List.map_filter f ys"
  by (simp add: List.map_filter_def)

lemma map_filter_Cons: "List.map_filter f (x # xs) = (case f x of None \<Rightarrow> [] | Some y \<Rightarrow> [y]) @ List.map_filter f xs"
  by (simp add: List.map_filter_def split: option.split)

lemma call_sites_simps [simp]:
  "call_sites [] = []" "call_sites (xs @ ys) = call_sites xs @ call_sites ys"
  "call_sites ((s, Inr op) # xs) = (case op of Call f \<Rightarrow> [(fst s, f)] | ReturnCall f \<Rightarrow> [(fst s, f)] | _ \<Rightarrow> []) @ call_sites xs"
  by (simp_all add: call_sites_def map_filter_append map_filter_Cons List.map_filter_def split: operator.split)

lemma indirect_sites_of_simps [simp]:
  "indirect_sites_of [] = []" "indirect_sites_of (xs @ ys) = indirect_sites_of xs @ indirect_sites_of ys"
  "indirect_sites_of ((s, Inr op) # xs) = (case op of CallIndirect t tb \<Rightarrow> [(fst s, t, tb)] | _ \<Rightarrow> []) @ indirect_sites_of xs"
  by (simp_all add: indirect_sites_of_def map_filter_append map_filter_Cons List.map_filter_def split: operator.split)

lemma resolve_label_rev: "resolve_label (rev en) = target en"
  by (rule ext) (auto simp: resolve_label_def target_def rev_nth)

lemma table_targets_rev: "table_targets (rev en) ts d = targets en (BrTable ts d)"
  by (simp add: table_targets_def resolve_label_rev)

lemma nest_of_numbers: "map fst (nest_of p n c) = [n..<n + constructs c]"
proof (induction p n c rule: nest_of.induct)
  case (3 p n s op b e c)
  have "[n..<n + Suc (constructs b + constructs c)] = n # [Suc n..<Suc n + constructs b] @ [Suc n + constructs b..<Suc n + constructs b + constructs c]"
    using upt_add_eq_append [of "Suc n" "Suc n + constructs b" "constructs c"] by (simp add: upt_conv_Cons add.assoc del: upt_Suc)
  with 3 show ?case by simp
next
  case (4 p n s b1 m b2 e c)
  let ?i = "Suc n + constructs b1" let ?j = "?i + constructs b2"
  have "[n..<n + Suc (constructs b1 + constructs b2 + constructs c)] = n # [Suc n..<?i] @ [?i..<?j] @ [?j..<?j + constructs c]"
    using upt_add_eq_append [of "Suc n" ?i "constructs b2"] upt_add_eq_append [of "Suc n" ?j "constructs c"]
    by (simp add: upt_conv_Cons add.assoc del: upt_Suc)
  with 4 show ?case by simp
qed auto

lemma targets_enclosing: "t \<in> set (targets en op) \<Longrightarrow> t \<in> set en"
  by (cases op) (auto simp: List.map_filter_def target_def split: if_splits)

lemma branches_bounded: "b \<in> set (branches en n c) \<Longrightarrow> \<forall>i \<in> set en. i < n \<Longrightarrow> fst b < n + constructs c"
proof (induction en n c rule: branches.induct)
  case (2 en n s op c)
  then show ?case by (auto dest!: targets_enclosing)
qed fastforce+

definition add_sources :: "(nat \<times> u64) list \<Rightarrow> wasm_region \<Rightarrow> wasm_region" where
  "add_sources bs r = r\<lparr>wn_branch_sources := wn_branch_sources r @ sources bs (wn_id r)\<rparr>"

lemma sources_simps [simp]: "sources [] i = []" "sources (bs @ bs') i = sources bs i @ sources bs' i"
  by (simp_all add: sources_def)

lemma add_sources_simps [simp]:
  "add_sources [] r = r" "add_sources bs' (add_sources bs r) = add_sources (bs @ bs') r" "wn_id (add_sources bs r) = wn_id r"
  "add_sources bs' (region_of bs x) = region_of (bs @ bs') x" "wn_id (region_of bs x) = fst x"
  by (simp_all add: add_sources_def region_of_def split: prod.split)

lemma region_of_fresh: "(\<And>b. b \<in> set bs \<Longrightarrow> fst b < k) \<Longrightarrow> k \<le> fst x \<Longrightarrow> region_of (bs @ bs') x = region_of bs' x"
  by (auto simp: region_of_def sources_def filter_empty_conv split: prod.split) fastforce

lemma regions_of_fresh:
  assumes "\<And>b. b \<in> set bs \<Longrightarrow> fst b < m"
  shows "map (region_of (bs @ bs')) (nest_of p m c) = map (region_of bs') (nest_of p m c)"
proof -
  have "m \<le> fst x" if "x \<in> set (nest_of p m c)" for x
    using that arg_cong [OF nest_of_numbers [of p m c], of set] by (auto simp: image_iff set_eq_iff)
  with assms show ?thesis by (auto intro!: region_of_fresh [of _ m])
qed

lemma update_first_append: "(\<And>x. x \<in> set xs \<Longrightarrow> \<not> p x) \<Longrightarrow> update_first p f (xs @ ys) = xs @ update_first p f ys"
  by (induction xs) auto

lemma update_first_none: "(\<And>x. x \<in> set xs \<Longrightarrow> \<not> p x) \<Longrightarrow> update_first p f xs = xs"
  by (induction xs) auto

lemma update_first_distinct:
  "distinct (map k xs) \<Longrightarrow> update_first (\<lambda>x. k x = i) f xs = map (\<lambda>x. if k x = i then f x else x) xs"
  by (induction xs) (auto simp: image_iff intro!: map_idI [symmetric])

abbreviation rgs :: "cfg_vars \<Rightarrow> wasm_region list" where
  "rgs v \<equiv> sc_regions (cv_cfg v)"

text \<open>The state inside the constructs \<open>en\<close>, innermost first, with \<open>n\<close> the next number.\<close>

definition ready :: "nat list \<Rightarrow> nat \<Rightarrow> cfg_vars \<Rightarrow> bool" where
  "ready en n v \<longleftrightarrow> en \<noteq> [] \<and> cv_stack v = rev en \<and> map fst (cv_open_regions v) = rev en \<and> cv_next_id v = n \<and> (\<forall>i \<in> set en. i < n) \<and>
     distinct (map wn_id (rgs v)) \<and> (\<forall>i \<in> set (map wn_id (rgs v)). i < n)"

text \<open>What has been logged besides regions.\<close>

definition logged :: "op_read list \<Rightarrow> cfg_vars \<Rightarrow> cfg_vars \<Rightarrow> bool" where
  "logged rs v v' \<longleftrightarrow> sc_calls (cv_cfg v') = sc_calls (cv_cfg v) @ call_sites rs \<and>
     sc_indirect_calls (cv_cfg v') = sc_indirect_calls (cv_cfg v) @ indirect_sites_of rs \<and>
     sc_operator_count (cv_cfg v') = sc_operator_count (cv_cfg v) + length rs"

lemma logged_trans: "logged rs v v' \<Longrightarrow> logged rs' v' v'' \<Longrightarrow> logged (rs @ rs') v v''"
  by (simp add: logged_def)

lemma record_branch_regions:
  "distinct (map wn_id (sc_regions cfg)) \<Longrightarrow> record_branch t pos cfg = cfg\<lparr>sc_regions := map (add_sources [(t, pos)]) (sc_regions cfg)\<rparr>"
  by (simp add: record_branch_def update_first_distinct add_sources_def sources_def cong: map_cong)

lemma record_branches_regions:
  "distinct (map wn_id (sc_regions cfg)) \<Longrightarrow>
   fold (\<lambda>t. record_branch t pos) ts cfg = cfg\<lparr>sc_regions := map (add_sources (map (\<lambda>t. (t, pos)) ts)) (sc_regions cfg)\<rparr>"
proof (induction ts arbitrary: cfg)
  case (Cons t ts)
  then show ?case by (simp add: record_branch_regions comp_def)
qed (simp add: map_idI)

text \<open>The same state but for regions that got branch sources and for the logs.\<close>

definition branched :: "(nat \<times> u64) list \<Rightarrow> op_read list \<Rightarrow> cfg_vars \<Rightarrow> cfg_vars \<Rightarrow> bool" where
  "branched bs rs v v' \<longleftrightarrow> cv_stack v' = cv_stack v \<and> cv_open_regions v' = cv_open_regions v \<and> cv_next_id v' = cv_next_id v \<and>
     rgs v' = map (add_sources bs) (rgs v) \<and> sc_calls (cv_cfg v') = sc_calls (cv_cfg v) @ call_sites rs \<and>
     sc_indirect_calls (cv_cfg v') = sc_indirect_calls (cv_cfg v) @ indirect_sites_of rs \<and>
     sc_operator_count (cv_cfg v') = sc_operator_count (cv_cfg v)"

lemma branched_ready: "branched bs rs v v' \<Longrightarrow> ready en n v \<Longrightarrow> ready en n v'"
  by (auto simp: branched_def ready_def comp_def)

lemma branch_branched:
  assumes "ready en n v"
  shows "branched (map (\<lambda>t. (t, pos)) (List.map_filter (target en) [d])) [] v (branch mn pos d v)"
proof -
  have "distinct (map wn_id (rgs v))" "cv_stack v = rev en" using assms by (auto simp: ready_def)
  then show ?thesis
    by (cases "target en d") (auto simp: branched_def branch_def resolve_label_rev List.map_filter_def record_branch_regions diagnose_def map_idI)
qed

lemma cfg_step_plain:
  assumes "opens op = None" "op \<noteq> ElseOp" "op \<noteq> End" "ready en n v"
  shows "\<exists>v'. cfg_step (fst s) op v = Inr (False, v') \<and> branched (map (\<lambda>t. (t, fst s)) (targets en op)) [(s, Inr op)] v v'"
proof (cases op)
  case (Br d)
  then show ?thesis using branch_branched [OF assms(4), of "fst s" d] by (simp add: cfg_step_def branched_def)
next
  case (BrIf d)
  then show ?thesis using branch_branched [OF assms(4), of "fst s" d] by (simp add: cfg_step_def branched_def)
next
  case (BrTable ts d)
  have "distinct (map wn_id (rgs v))" "cv_stack v = rev en" using assms(4) by (auto simp: ready_def)
  with BrTable show ?thesis
    by (simp add: cfg_step_def Let_def table_targets_rev record_branches_regions branched_def del: targets.simps)
qed (use assms(1-3) in \<open>simp_all add: cfg_step_def branched_def diagnose_def Let_def map_idI\<close>)

lemma cfg_loop_plain:
  assumes "opens op = None" "op \<noteq> ElseOp" "op \<noteq> End" "ready en n v" "sc_operator_count (cv_cfg v) < 5000000"
  obtains v' where "cfg_loop ((s, Inr op) # rs) v = cfg_loop rs v'" "ready en n v'" "logged [(s, Inr op)] v v'"
    "rgs v' = map (add_sources (map (\<lambda>t. (t, fst s)) (targets en op))) (rgs v)"
proof -
  let ?v1 = "v\<lparr>cv_cfg := (cv_cfg v)\<lparr>sc_operator_count := sc_operator_count (cv_cfg v) + 1\<rparr>\<rparr>"
  have r: "ready en n ?v1" using assms(4) by (simp add: ready_def)
  obtain v' where v': "cfg_step (fst s) op ?v1 = Inr (False, v')" "branched (map (\<lambda>t. (t, fst s)) (targets en op)) [(s, Inr op)] ?v1 v'"
    using cfg_step_plain [OF assms(1-3) r] by blast
  show ?thesis
    by (rule that [of v']) (use v' assms(5) branched_ready [OF v'(2) r] in \<open>simp_all add: branched_def logged_def\<close>)
qed

lemma cfg_loop_open:
  assumes "opens op = Some k" "ready en n v" "sc_operator_count (cv_cfg v) < 5000000" "n + 1 \<le> 1000000"
  obtains v' where "cfg_loop ((s, Inr op) # rs) v = cfg_loop rs v'" "ready (n # en) (Suc n) v'" "logged [(s, Inr op)] v v'"
    "rgs v' = rgs v @ [\<lparr>wn_id = n, wn_kind = k, wn_start_offset = fst s, wn_branch_sources = [], wn_end_offset = 0, wn_parent = Some (hd en)\<rparr>]"
proof -
  let ?v1 = "v\<lparr>cv_cfg := (cv_cfg v)\<lparr>sc_operator_count := sc_operator_count (cv_cfg v) + 1\<rparr>\<rparr>"
  have no_calls: "call_sites [(s, Inr op)] = []" "indirect_sites_of [(s, Inr op)] = []" using assms(1) by (cases op; simp)+
  have "\<exists>v'. cfg_step (fst s) op ?v1 = Inr (False, v') \<and> cv_stack v' = cv_stack (push_region k (fst s) ?v1) \<and>
      cv_open_regions v' = cv_open_regions (push_region k (fst s) ?v1) \<and> cv_next_id v' = cv_next_id (push_region k (fst s) ?v1) \<and>
      rgs v' = rgs (push_region k (fst s) ?v1) \<and> sc_calls (cv_cfg v') = sc_calls (cv_cfg v) \<and>
      sc_indirect_calls (cv_cfg v') = sc_indirect_calls (cv_cfg v) \<and> sc_operator_count (cv_cfg v') = Suc (sc_operator_count (cv_cfg v))"
    using assms(1, 2, 4) by (cases op) (simp_all add: cfg_step_def push_region_def diagnose_def Let_def ready_def)
  then obtain v' where v': "cfg_step (fst s) op ?v1 = Inr (False, v')" "cv_stack v' = cv_stack (push_region k (fst s) ?v1)"
      "cv_open_regions v' = cv_open_regions (push_region k (fst s) ?v1)" "cv_next_id v' = cv_next_id (push_region k (fst s) ?v1)"
      "rgs v' = rgs (push_region k (fst s) ?v1)" "sc_calls (cv_cfg v') = sc_calls (cv_cfg v)"
      "sc_indirect_calls (cv_cfg v') = sc_indirect_calls (cv_cfg v)" "sc_operator_count (cv_cfg v') = Suc (sc_operator_count (cv_cfg v))"
    by blast
  show ?thesis
  proof (rule that [of v'])
    show "cfg_loop ((s, Inr op) # rs) v = cfg_loop rs v'" using v'(1) assms(3) by simp
    show "ready (n # en) (Suc n) v'" using v'(2-5) assms(2) unfolding ready_def push_region_def Let_def by (auto simp: less_Suc_eq)
    show "logged [(s, Inr op)] v v'" using v'(6-8) no_calls by (simp only: logged_def) simp
    show "rgs v' = rgs v @ [\<lparr>wn_id = n, wn_kind = k, wn_start_offset = fst s, wn_branch_sources = [], wn_end_offset = 0, wn_parent = Some (hd en)\<rparr>]"
      using v'(5) assms(2) by (simp add: push_region_def Let_def ready_def last_rev)
  qed
qed

lemma cfg_loop_close:
  assumes "ready (i # en) n v" "en \<noteq> []" "sc_operator_count (cv_cfg v) < 5000000"
  obtains v' where "cfg_loop ((s, Inr End) # rs) v = cfg_loop rs v'" "ready en n v'" "logged [(s, Inr End)] v v'"
    "rgs v' = update_first (\<lambda>r. wn_id r = i) (\<lambda>r. r\<lparr>wn_end_offset := fst s\<rparr>) (rgs v)"
proof -
  let ?v1 = "v\<lparr>cv_cfg := (cv_cfg v)\<lparr>sc_operator_count := sc_operator_count (cv_cfg v) + 1\<rparr>\<rparr>"
  have st: "cv_stack v = rev en @ [i]" "map fst (cv_open_regions v) = rev en @ [i]" using assms(1) by (auto simp: ready_def)
  then have op: "cv_open_regions v \<noteq> []" "fst (last (cv_open_regions v)) = i" "map fst (butlast (cv_open_regions v)) = rev en"
    by (auto simp: map_butlast) (metis Nil_is_append_conv last_map last_snoc list.map_disc_iff list.simps(3))
  then have c: "cv_stack (close_region (fst s) ?v1) = rev en" "map fst (cv_open_regions (close_region (fst s) ?v1)) = rev en"
      "rgs (close_region (fst s) ?v1) = update_first (\<lambda>r. wn_id r = i) (\<lambda>r. r\<lparr>wn_end_offset := fst s\<rparr>) (rgs v)"
      "cv_next_id (close_region (fst s) ?v1) = cv_next_id v"
    using st by (simp_all add: close_region_def Let_def)
  have ids: "map wn_id (rgs (close_region (fst s) ?v1)) = map wn_id (rgs v)" unfolding c by (rule map_update_first) simp
  show ?thesis
  proof (rule that [of "close_region (fst s) ?v1"])
    show "ready en n (close_region (fst s) ?v1)"
      using assms(1, 2) c ids unfolding ready_def by (simp del: set_map)
  qed (use assms c in \<open>auto simp: cfg_step_def Let_def logged_def close_region_def\<close>)
qed

lemma cfg_loop_else:
  assumes "ready (i # en) n v" "sc_operator_count (cv_cfg v) < 5000000"
  obtains v' where "cfg_loop ((s, Inr ElseOp) # rs) v = cfg_loop rs v'" "ready (i # en) n v'" "logged [(s, Inr ElseOp)] v v'"
    "rgs v' = update_first (\<lambda>r. wn_id r = i) (\<lambda>r. case wn_kind r of KindIf _ \<Rightarrow> r\<lparr>wn_kind := KindIf True\<rparr> | _ \<Rightarrow> r) (rgs v)"
proof -
  let ?v1 = "v\<lparr>cv_cfg := (cv_cfg v)\<lparr>sc_operator_count := sc_operator_count (cv_cfg v) + 1\<rparr>\<rparr>"
  have st: "cv_stack v = rev en @ [i]" using assms(1) by (auto simp: ready_def)
  have ids: "map wn_id (rgs (mark_else ?v1)) = map wn_id (rgs v)" unfolding mark_else_def by (simp add: map_update_first split: block_kind.split)
  show ?thesis
  proof (rule that [of "mark_else ?v1"])
    show "ready (i # en) n (mark_else ?v1)"
      using assms(1) st ids unfolding ready_def by (simp add: mark_else_def del: set_map)
  qed (use assms st in \<open>auto simp: cfg_step_def Let_def logged_def mark_else_def\<close>)
qed

lemma ready_regions: "ready en n v \<Longrightarrow> r \<in> set (rgs v) \<Longrightarrow> wn_id r < n"
  by (auto simp: ready_def)

definition traversed :: "wcode \<Rightarrow> nat list \<Rightarrow> nat \<Rightarrow> cfg_vars \<Rightarrow> cfg_vars \<Rightarrow> bool" where
  "traversed c en n v v' \<longleftrightarrow> ready en (n + constructs c) v' \<and> logged (flat c) v v' \<and>
     rgs v' = map (add_sources (branches en n c)) (rgs v) @ map (region_of (branches en n c)) (nest_of (hd en) n c)"

definition new_region :: "nat \<Rightarrow> block_kind \<Rightarrow> u64 \<Rightarrow> nat \<Rightarrow> wasm_region" where
  "new_region i k a p = \<lparr>wn_id = i, wn_kind = k, wn_start_offset = a, wn_branch_sources = [], wn_end_offset = 0, wn_parent = Some p\<rparr>"

lemma close_new_region:
  "\<forall>r \<in> set rs. wn_id r < i \<Longrightarrow>
   update_first (\<lambda>r. wn_id r = i) (\<lambda>r. r\<lparr>wn_end_offset := e\<rparr>) (map (add_sources bs) rs @ add_sources bs (new_region i k a p) # xs) =
   map (add_sources bs) rs @ region_of bs (i, k, a, e, p) # xs"
  by (subst update_first_append) (auto simp: new_region_def region_of_def add_sources_def)

lemma else_new_region:
  "\<forall>r \<in> set rs. wn_id r < i \<Longrightarrow>
   update_first (\<lambda>r. wn_id r = i) (\<lambda>r. case wn_kind r of KindIf _ \<Rightarrow> r\<lparr>wn_kind := KindIf True\<rparr> | _ \<Rightarrow> r)
     (map (add_sources bs) rs @ add_sources bs (new_region i (KindIf False) a p) # xs) =
   map (add_sources bs) rs @ add_sources bs (new_region i (KindIf True) a p) # xs"
  by (subst update_first_append) (auto simp: new_region_def add_sources_def)

lemmas cfg_loop_steps = cfg_loop_plain cfg_loop_open [folded new_region_def] cfg_loop_close cfg_loop_else

declare cfg_loop.simps [simp del]

text \<open>The loop gets through the code and has traversed it.\<close>

definition follows :: "wcode \<Rightarrow> bool" where
  "follows c \<longleftrightarrow> (\<forall>en n v rs. ready en n v \<and> sc_operator_count (cv_cfg v) + length (flat c) \<le> 5000000 \<and> n + constructs c \<le> 1000000 \<longrightarrow>
     (\<exists>v'. cfg_loop (flat c @ rs) v = cfg_loop rs v' \<and> traversed c en n v v'))"

lemma followsI:
  assumes "\<And>en n v rs. ready en n v \<Longrightarrow> sc_operator_count (cv_cfg v) + length (flat c) \<le> 5000000 \<Longrightarrow> n + constructs c \<le> 1000000 \<Longrightarrow>
    \<exists>v'. cfg_loop (flat c @ rs) v = cfg_loop rs v' \<and> traversed c en n v v'"
  shows "follows c"
  using assms by (simp add: follows_def)

lemma followsD:
  "follows c \<Longrightarrow> ready en n v \<Longrightarrow> sc_operator_count (cv_cfg v) + length (flat c) \<le> 5000000 \<Longrightarrow> n + constructs c \<le> 1000000 \<Longrightarrow>
   \<exists>v'. cfg_loop (flat c @ rs) v = cfg_loop rs v' \<and> traversed c en n v v'"
  by (simp add: follows_def)

lemma follows_plain:
  assumes op: "opens op = None" "op \<noteq> ElseOp" "op \<noteq> End" and IH: "follows c"
  shows "follows (Plain s op c)"
proof (rule followsI)
  fix en n v rs
  assume r: "ready en n v" and lim: "sc_operator_count (cv_cfg v) + length (flat (Plain s op c)) \<le> 5000000" "n + constructs (Plain s op c) \<le> 1000000"
  obtain v1 where v1: "cfg_loop ((s, Inr op) # flat c @ rs) v = cfg_loop (flat c @ rs) v1" "ready en n v1" "logged [(s, Inr op)] v v1"
      "rgs v1 = map (add_sources (map (\<lambda>t. (t, fst s)) (targets en op))) (rgs v)"
    by (rule cfg_loop_plain [of op en n v s "flat c @ rs"]) (use op r lim in auto)
  obtain v2 where v2: "cfg_loop (flat c @ rs) v1 = cfg_loop rs v2" "traversed c en n v1 v2"
    using followsD [OF IH v1(2), of rs] r lim v1(3) by (auto simp: logged_def)
  have "map (region_of (map (\<lambda>t. (t, fst s)) (targets en op) @ branches en n c)) (nest_of (hd en) n c) = map (region_of (branches en n c)) (nest_of (hd en) n c)"
    by (rule regions_of_fresh) (use r in \<open>auto simp: ready_def dest: targets_enclosing\<close>)
  then have "traversed (Plain s op c) en n v v2"
    using v2(2) v1(4) logged_trans [OF v1(3), of "flat c" v2] unfolding traversed_def by (simp add: comp_def)
  with v1(1) v2(1) show "\<exists>v'. cfg_loop (flat (Plain s op c) @ rs) v = cfg_loop rs v' \<and> traversed (Plain s op c) en n v v'" by auto
qed

lemma follows_nest:
  assumes k: "opens op = Some k" and IH: "follows b" "follows c"
  shows "follows (Nest s op b e c)"
proof (rule followsI)
  fix en n v rs
  assume r: "ready en n v" and lim: "sc_operator_count (cv_cfg v) + length (flat (Nest s op b e c)) \<le> 5000000" "n + constructs (Nest s op b e c) \<le> 1000000"
  have ne: "en \<noteq> []" using r by (simp add: ready_def)
  let ?B = "branches (n # en) (Suc n) b" let ?m = "Suc n + constructs b" let ?C = "branches en ?m c"
  obtain v1 where v1: "cfg_loop ((s, Inr op) # flat b @ (e, Inr End) # flat c @ rs) v = cfg_loop (flat b @ (e, Inr End) # flat c @ rs) v1"
      "ready (n # en) (Suc n) v1" "logged [(s, Inr op)] v v1" "rgs v1 = rgs v @ [new_region n k (fst s) (hd en)]"
    by (rule cfg_loop_steps(2) [OF k, of en n v s]) (use r lim in auto)
  obtain v2 where v2: "cfg_loop (flat b @ (e, Inr End) # flat c @ rs) v1 = cfg_loop ((e, Inr End) # flat c @ rs) v2" "traversed b (n # en) (Suc n) v1 v2"
    using followsD [OF IH(1) v1(2), of "(e, Inr End) # flat c @ rs"] r lim v1(3) by (auto simp: logged_def)
  obtain v3 where v3: "cfg_loop ((e, Inr End) # flat c @ rs) v2 = cfg_loop (flat c @ rs) v3" "ready en ?m v3" "logged [(e, Inr End)] v2 v3"
      "rgs v3 = update_first (\<lambda>r. wn_id r = n) (\<lambda>r. r\<lparr>wn_end_offset := fst e\<rparr>) (rgs v2)"
    by (rule cfg_loop_close [of n en ?m v2]) (use ne lim v1(3) v2(2) in \<open>auto simp: traversed_def logged_def\<close>)
  obtain v4 where v4: "cfg_loop (flat c @ rs) v3 = cfg_loop rs v4" "traversed c en ?m v3 v4"
    using followsD [OF IH(2) v3(2), of rs] r lim v1(3) v2(2) v3(3) by (auto simp: traversed_def logged_def)
  have en: "\<forall>i \<in> set (n # en). i < Suc n" using r by (auto simp: ready_def)
  have "rgs v3 = map (add_sources ?B) (rgs v) @ map (region_of ?B) ((n, k, fst s, fst e, hd en) # nest_of n (Suc n) b)"
    using v2(2) ready_regions [OF r] unfolding v3(4) traversed_def v1(4) by (simp add: close_new_region)
  then have "rgs v4 = map (add_sources (?B @ ?C)) (rgs v) @
      map (region_of (?B @ ?C)) ((n, k, fst s, fst e, hd en) # nest_of n (Suc n) b @ nest_of (hd en) ?m c)"
    using v4(2) regions_of_fresh [of ?B ?m ?C "hd en" c] branches_bounded [OF _ en] by (simp add: traversed_def comp_def)
  moreover have "logged (flat (Nest s op b e c)) v v4"
    using v1(3) v2(2) v3(3) v4(2) by (auto simp: traversed_def logged_def)
  ultimately have "traversed (Nest s op b e c) en n v v4" using v4(2) k by (simp add: traversed_def ac_simps)
  then show "\<exists>v'. cfg_loop (flat (Nest s op b e c) @ rs) v = cfg_loop rs v' \<and> traversed (Nest s op b e c) en n v v'"
    using v1(1) v2(1) v3(1) v4(1) by auto
qed

lemma follows_if_else:
  assumes IH: "follows b1" "follows b2" "follows c"
  shows "follows (IfElse s b1 m b2 e c)"
proof (rule followsI)
  fix en n v rs
  assume r: "ready en n v" and lim: "sc_operator_count (cv_cfg v) + length (flat (IfElse s b1 m b2 e c)) \<le> 5000000"
      "n + constructs (IfElse s b1 m b2 e c) \<le> 1000000"
  have ne: "en \<noteq> []" using r by (simp add: ready_def)
  let ?B = "branches (n # en) (Suc n) b1" let ?i = "Suc n + constructs b1" let ?B' = "branches (n # en) ?i b2"
  let ?m = "?i + constructs b2" let ?C = "branches en ?m c" let ?rs = "(e, Inr End) # flat c @ rs"
  obtain v1 where v1: "cfg_loop ((s, Inr IfOp) # flat b1 @ (m, Inr ElseOp) # flat b2 @ ?rs) v = cfg_loop (flat b1 @ (m, Inr ElseOp) # flat b2 @ ?rs) v1"
      "ready (n # en) (Suc n) v1" "logged [(s, Inr IfOp)] v v1" "rgs v1 = rgs v @ [new_region n (KindIf False) (fst s) (hd en)]"
    by (rule cfg_loop_steps(2) [of IfOp _ en n v s]) (use r lim in auto)
  obtain v2 where v2: "cfg_loop (flat b1 @ (m, Inr ElseOp) # flat b2 @ ?rs) v1 = cfg_loop ((m, Inr ElseOp) # flat b2 @ ?rs) v2"
      "traversed b1 (n # en) (Suc n) v1 v2"
    using followsD [OF IH(1) v1(2), of "(m, Inr ElseOp) # flat b2 @ ?rs"] r lim v1(3) by (auto simp: logged_def)
  obtain v3 where v3: "cfg_loop ((m, Inr ElseOp) # flat b2 @ ?rs) v2 = cfg_loop (flat b2 @ ?rs) v3" "ready (n # en) ?i v3" "logged [(m, Inr ElseOp)] v2 v3"
      "rgs v3 = update_first (\<lambda>r. wn_id r = n) (\<lambda>r. case wn_kind r of KindIf _ \<Rightarrow> r\<lparr>wn_kind := KindIf True\<rparr> | _ \<Rightarrow> r) (rgs v2)"
    by (rule cfg_loop_else [of n en ?i v2]) (use r lim v1(3) v2(2) in \<open>auto simp: traversed_def logged_def\<close>)
  obtain v4 where v4: "cfg_loop (flat b2 @ ?rs) v3 = cfg_loop ?rs v4" "traversed b2 (n # en) ?i v3 v4"
    using followsD [OF IH(2) v3(2), of ?rs] r lim v1(3) v2(2) v3(3) by (auto simp: traversed_def logged_def)
  obtain v5 where v5: "cfg_loop ?rs v4 = cfg_loop (flat c @ rs) v5" "ready en ?m v5" "logged [(e, Inr End)] v4 v5"
      "rgs v5 = update_first (\<lambda>r. wn_id r = n) (\<lambda>r. r\<lparr>wn_end_offset := fst e\<rparr>) (rgs v4)"
    by (rule cfg_loop_close [of n en ?m v4]) (use ne lim v1(3) v2(2) v3(3) v4(2) in \<open>auto simp: traversed_def logged_def\<close>)
  obtain v6 where v6: "cfg_loop (flat c @ rs) v5 = cfg_loop rs v6" "traversed c en ?m v5 v6"
    using followsD [OF IH(3) v5(2), of rs] r lim v1(3) v2(2) v3(3) v4(2) v5(3) by (auto simp: traversed_def logged_def)
  have en: "\<forall>i \<in> set (n # en). i < Suc n" using r by (auto simp: ready_def)
  have en': "\<forall>i \<in> set (n # en). i < ?i" using en by auto
  note old = ready_regions [OF r]
  have "rgs v3 = map (add_sources ?B) (rgs v) @ add_sources ?B (new_region n (KindIf True) (fst s) (hd en)) # map (region_of ?B) (nest_of n (Suc n) b1)"
    using v2(2) old unfolding v3(4) traversed_def v1(4) by (simp add: else_new_region)
  then have "rgs v5 = map (add_sources (?B @ ?B')) (rgs v) @
      map (region_of (?B @ ?B')) ((n, KindIf True, fst s, fst e, hd en) # nest_of n (Suc n) b1 @ nest_of n ?i b2)"
    using v4(2) old regions_of_fresh [of ?B ?i ?B' n b2] branches_bounded [OF _ en] unfolding v5(4) traversed_def by (simp add: close_new_region comp_def)
  moreover have "map (region_of ((?B @ ?B') @ ?C)) (nest_of (hd en) ?m c) = map (region_of ?C) (nest_of (hd en) ?m c)"
    by (rule regions_of_fresh) (use branches_bounded [OF _ en, of _ b1] branches_bounded [OF _ en', of _ b2] in force)
  ultimately have "rgs v6 = map (add_sources (?B @ ?B' @ ?C)) (rgs v) @
      map (region_of (?B @ ?B' @ ?C)) ((n, KindIf True, fst s, fst e, hd en) # nest_of n (Suc n) b1 @ nest_of n ?i b2 @ nest_of (hd en) ?m c)"
    using v6(2) by (simp add: traversed_def comp_def)
  moreover have "logged (flat (IfElse s b1 m b2 e c)) v v6"
    using v1(3) v2(2) v3(3) v4(2) v5(3) v6(2) by (auto simp: traversed_def logged_def)
  ultimately have "traversed (IfElse s b1 m b2 e c) en n v v6" using v6(2) by (simp add: traversed_def ac_simps)
  then show "\<exists>v'. cfg_loop (flat (IfElse s b1 m b2 e c) @ rs) v = cfg_loop rs v' \<and> traversed (IfElse s b1 m b2 e c) en n v v'"
    using v1(1) v2(1) v3(1) v4(1) v5(1) v6(1) by auto
qed

lemma well_nested_follows: "well_nested c \<Longrightarrow> follows c"
proof (induction c)
  case Done
  then show ?case by (auto simp: follows_def traversed_def logged_def map_idI)
qed (auto intro: follows_plain follows_nest follows_if_else)

text \<open>
  C14: on well-nested code within the operator and region budgets, the analysis returns the constructs
  of the code exactly: numbered in the order in which they open, each with its kind (an \<open>if\<close>
  knows whether it has an \<open>else\<close>), its parent, the positions of its first and last operator, and as branch
  sources the branches whose depth counts out to it, in order; and the calls of the code, in order.
\<close>

theorem analyze_body_recovers_structure:
  assumes "well_nested c" "length (flat c) < 5000000" "constructs c < 1000000" "ops body = flat c @ [(e, Inr End)]"
  shows "\<exists>cfg. analyze_body ops body = Inr cfg \<and> sc_regions cfg = map (region_of (branches [0] 1 c)) (nest_of 0 1 c) \<and>
    sc_calls cfg = call_sites (flat c) \<and> sc_indirect_calls cfg = indirect_sites_of (flat c) \<and>
    sc_operator_count cfg = length (flat c) + 1"
proof -
  have "ready [0] 1 cfg_start" by (simp add: ready_def cfg_start_def empty_cfg_def)
  then obtain v where v: "cfg_loop (ops body) cfg_start = cfg_loop [(e, Inr End)] v" "traversed c [0] 1 cfg_start v"
    using followsD [OF well_nested_follows [OF assms(1)], of "[0]" 1 cfg_start "[(e, Inr End)]"] assms(2-4)
    by (auto simp: cfg_start_def empty_cfg_def)
  have st: "cv_stack v = [0]" "fst (last (cv_open_regions v)) = 0" "cv_open_regions v \<noteq> []" "sc_operator_count (cv_cfg v) = length (flat c)"
    using v(2) by (auto simp: traversed_def ready_def logged_def cfg_start_def empty_cfg_def)
  have "map wn_id (rgs v) = [1..<1 + constructs c]"
    using v(2) nest_of_numbers [of 0 1 c] by (simp add: traversed_def cfg_start_def empty_cfg_def comp_def)
  then have "wn_id r \<noteq> 0" if "r \<in> set (rgs v)" for r using that by (metis atLeastLessThan_iff image_eqI not_one_le_zero set_map set_upt)
  then have "update_first (\<lambda>r. wn_id r = 0) f (rgs v) = rgs v" for f by (simp add: update_first_none)
  then have "cfg_loop [(e, Inr End)] v = Inr (v\<lparr>cv_cfg := (cv_cfg v)\<lparr>sc_operator_count := length (flat c) + 1\<rparr>, cv_stack := [],
      cv_open_regions := butlast (cv_open_regions v)\<rparr>)"
    using st assms(2) by (simp add: cfg_loop.simps cfg_step_def close_region_def Let_def)
  with v show ?thesis by (simp add: analyze_body_def traversed_def logged_def cfg_start_def empty_cfg_def)
qed

definition sample_loop :: wcode where
  "sample_loop = Nest (0, 2) BlockOp (Nest (2, 4) LoopOp (Plain (4, 6) (BrIf 0) (Plain (6, 8) (Br 1) Done)) (8, 9) Done) (9, 10) Done"

theorem analyze_body_recovers_structure_witness:
  "\<exists>cfg. analyze_body (\<lambda>_. flat sample_loop @ [((10, 11), Inr End)]) [] = Inr cfg \<and>
     map (\<lambda>r. (wn_id r, wn_kind r, wn_branch_sources r, wn_parent r)) (sc_regions cfg) = [(1, KindBlock, [6], Some 0), (2, KindLoop, [4], Some 1)]"
  using analyze_body_recovers_structure [of sample_loop "\<lambda>_. flat sample_loop @ [((10, 11), Inr End)]" "[]" "(10, 11)"]
  by (auto simp: sample_loop_def List.map_filter_def target_def region_of_def sources_def)

text \<open>The function itself has no region, so a branch out of the function leaves no trace, not even a
  diagnostic.\<close>

lemma branch_to_function_is_lost:
  "rmap (\<lambda>cfg. (sc_regions cfg, sc_diagnostics cfg)) (analyze_body (\<lambda>_. [((0, 2), Inr (Br 0)), ((2, 3), Inr End)]) []) = Inr ([], [])"
  by (simp add: analyze_body_def cfg_loop.simps cfg_step_def cfg_start_def empty_cfg_def branch_def resolve_label_def record_branch_def close_region_def Let_def)

text \<open>Only blocks are held against the region budget.\<close>

lemma region_budget_is_for_blocks:
  assumes "cv_next_id v = 1000000"
  shows "cfg_step pos BlockOp v = Inl (Budget ''region count'')" "is_ok (cfg_step pos LoopOp v)" "is_ok (cfg_step pos IfOp v)"
  using assms by (simp_all add: cfg_step_def)

end
