(* ===== verification/Broker.thy ===== *)
theory Broker
  imports Worker_Pool Dispatch Jobs Isolation Wasm_Cfg
begin

text \<open>
  \<open>crates/rmcp-broker/src/lib.rs\<close> and \<open>crates/rmcp-core/src/config.rs\<close>: the broker's shared state, the
  helpers every tool uses, and the janitor. The broker's state holds the result store, the pool, the
  list of open databases, the job registry, the ledger of disposable workers, and the worker
  processes themselves, one worker state per channel, so that a call of a session runs the worker's
  own \<open>handle\<close>. What the broker cannot control is a sequence of moments, one consumed per worker call
  or spawn: the time, the host, whether the request is sent and its answer arrives in time, the state
  a newly started worker is in, and what a disposable worker does. A tool is a function from the state
  to a result and the new state; a worker runs the in-memory backend.
\<close>

section \<open>Configuration\<close>

record config =
  cf_ida_dir :: "path option"
  cf_required_ida_version :: string
  cf_max_workers :: usize
  cf_result_threshold :: usize
  cf_result_ttl :: nat
  cf_result_max_entries :: usize
  cf_config_path :: "path option"

definition default_config :: config where
  "default_config = \<lparr>cf_ida_dir = None, cf_required_ida_version = ''9.2'', cf_max_workers = 8,
     cf_result_threshold = 24 * 1024, cf_result_ttl = 3600 * 1000, cf_result_max_entries = 256, cf_config_path = None\<rparr>"

record file_config =
  ff_ida_dir :: "path option"
  ff_required_ida_version :: "string option"
  ff_max_workers :: "usize option"
  ff_result_threshold_kib :: "usize option"
  ff_result_ttl_secs :: "u64 option"
  ff_result_max_entries :: "usize option"

text \<open>\<open>Config::load\<close>: the file's path, what reading it gives (\<open>None\<close> when it is no file), and the TOML
  reader are parameters. The product of the threshold is taken in \<open>usize\<close> and wraps in a release build.\<close>

definition config_load :: "path \<Rightarrow> (string + string) option \<Rightarrow> (string \<Rightarrow> string + file_config) \<Rightarrow> config result" where
  "config_load p raw from_str =
     (case raw of
        None \<Rightarrow> Inr (default_config\<lparr>cf_config_path := None\<rparr>)
      | Some (Inl e) \<Rightarrow> Inl (Io e)
      | Some (Inr text) \<Rightarrow>
          rbind (rmap_err Config (from_str text)) (\<lambda>file.
            Inr \<lparr>cf_ida_dir = ff_ida_dir file, cf_required_ida_version = unwrap_or (ff_required_ida_version file) ''9.2'',
              cf_max_workers = max (unwrap_or (ff_max_workers file) 8) 1,
              cf_result_threshold = (unwrap_or (ff_result_threshold_kib file) 24 * 1024) mod 2 ^ 64,
              cf_result_ttl = unat (unwrap_or (ff_result_ttl_secs file) 3600) * 1000,
              cf_result_max_entries = unwrap_or (ff_result_max_entries file) 256, cf_config_path = Some p\<rparr>))"

definition with_ida_dir_override :: "path option \<Rightarrow> config \<Rightarrow> config" where
  "with_ida_dir_override dir c = (case dir of Some d \<Rightarrow> c\<lparr>cf_ida_dir := Some d\<rparr> | None \<Rightarrow> c)"

section \<open>State\<close>

datatype delivery = NotSent | TimesOut env | Arrives env

record moment =
  mo_now :: nat
  mo_host :: host
  mo_delivery :: delivery
  mo_newborn :: worker_state
  mo_spawn :: "path \<Rightarrow> path option \<Rightarrow> string + pid"
  mo_child :: child_env
  mo_elapsed :: "nat \<Rightarrow> nat"
  mo_wasm :: wasm_env

record task =
  tk_job :: string
  tk_session :: usize
  tk_method :: string
  tk_params :: json
  tk_timeout :: nat

record broker =
  bk_config :: config
  bk_store :: result_store
  bk_next_id :: u64
  bk_pool :: pool
  bk_open_dbs :: "(string \<times> string) list"
  bk_janitor_swept :: u64
  bk_jobs :: job_manager
  bk_tasks :: "task list"
  bk_workers :: "usize \<Rightarrow> worker_state"
  bk_iso :: iso
  bk_moment :: nat

definition broker_new :: "config \<Rightarrow> broker" where
  "broker_new c = \<lparr>bk_config = c, bk_store = store_new (cf_result_ttl c), bk_next_id = next_id_init, bk_pool = pool_new,
     bk_open_dbs = [], bk_janitor_swept = 0, bk_jobs = manager_new 4 (cf_result_ttl c), bk_tasks = [],
     bk_workers = (\<lambda>_. worker_new), bk_iso = iso_init, bk_moment = 0\<rparr>"

section \<open>Tools as state transformers\<close>

text \<open>Every error a tool returns is an \<open>invalid_params\<close> error with a text; a panic ends the call, and
  a loop that does not end never returns.\<close>

datatype tool_error = Mcp string | Panicked string | Diverges

type_synonym 'a tool = "broker \<Rightarrow> (tool_error + 'a) \<times> broker"

definition tret :: "tool_error + 'a \<Rightarrow> 'a tool" where
  "tret r st = (r, st)"

definition tbind :: "'a tool \<Rightarrow> ('a \<Rightarrow> 'b tool) \<Rightarrow> 'b tool" where
  "tbind m k st = (case m st of (Inl e, st') \<Rightarrow> (Inl e, st') | (Inr x, st') \<Rightarrow> k x st')"

text \<open>A process that has panicked or was shut down takes no more requests.\<close>

definition run_worker :: "env \<Rightarrow> worker_request \<Rightarrow> worker_state \<Rightarrow> call_outcome \<times> worker_state" where
  "run_worker en req w = (case Dispatch.handle en req w of
       (Inl e, w') \<Rightarrow> (SenderDropped, w'\<lparr>ws_closed := True\<rparr>)
     | (Inr resp, w') \<Rightarrow> (Answered (response_value resp), w'))"

definition transmit :: "(nat \<Rightarrow> moment) \<Rightarrow> usize \<Rightarrow> string \<Rightarrow> json \<Rightarrow> broker \<Rightarrow> call_outcome \<times> broker" where
  "transmit mos ch mthd p st =
     (let st1 = st\<lparr>bk_moment := bk_moment st + 1\<rparr>; w = bk_workers st ch;
          req = \<lparr>rq_id = of_nat (bk_moment st), rq_method = mthd, rq_params = p\<rparr>;
          left = (\<lambda>w'. st1\<lparr>bk_workers := (bk_workers st)(ch := w')\<rparr>)
      in if ws_closed w then (SendFailed, st1)
         else case mo_delivery (mos (bk_moment st)) of
           NotSent \<Rightarrow> (SendFailed, st1)
         | TimesOut en \<Rightarrow> (Elapsed, left (snd (run_worker en req w)))
         | Arrives en \<Rightarrow> (let (out, w') = run_worker en req w in (out, left w')))"

definition session_call :: "(nat \<Rightarrow> moment) \<Rightarrow> usize \<Rightarrow> string \<Rightarrow> json \<Rightarrow> nat \<Rightarrow> broker \<Rightarrow> json result \<times> broker" where
  "session_call mos a mthd p dflt st =
     (let s = pl_heap (bk_pool st) ! a in
      case ws_tx s of
        None \<Rightarrow> (call_with_timeout (\<lambda>_ _ _. SendFailed) s mthd p dflt, st)
      | Some ch \<Rightarrow> (let (out, st') = transmit mos ch mthd p st in (call_with_timeout (\<lambda>_ _ _. out) s mthd p dflt, st')))"

section \<open>Shared helpers\<close>

definition mcp_code :: "string \<Rightarrow> string \<Rightarrow> tool_error" where
  "mcp_code c m = Mcp (''['' @ c @ ''] '' @ m)"

definition err_from :: "error \<Rightarrow> tool_error" where
  "err_from e = (case e of Panic m \<Rightarrow> Panicked m | _ \<Rightarrow> mcp_code (code e) (error_to_string e))"

definition arg_str :: "json \<Rightarrow> string \<Rightarrow> string option" where
  "arg_str args k = Option.bind (jget args k) as_str"

definition arg_u64 :: "json \<Rightarrow> string \<Rightarrow> u64 \<Rightarrow> u64" where
  "arg_u64 args k dflt = unwrap_or (Option.bind (jget args k) as_u64) dflt"

definition resolve_db :: "string option \<Rightarrow> (string \<times> usize) tool" where
  "resolve_db db st =
     (let opened = bk_open_dbs st in
      (case db of
         Some h \<Rightarrow>
           rmap (\<lambda>a. (h, a)) (ok_or (Worker_Pool.session (bk_pool st) h)
             (mcp_code ''unknown_db'' (''db handle '' @ quoted h @ '' is unknown or closed'')))
       | None \<Rightarrow>
           (case opened of
              [] \<Rightarrow> Inl (mcp_code ''unknown_db'' ''no db open; call ida_db(action=open) first'')
            | [(h, _)] \<Rightarrow> rmap (\<lambda>a. (h, a)) (ok_or (Worker_Pool.session (bk_pool st) h) (mcp_code ''unknown_db'' ''session gone''))
            | _ \<Rightarrow> Inl (mcp_code ''db_ambiguous'' (''db handle omitted and '' @ show_nat (length opened) @
                '' DBs are open; specify one of: '' @ join '', '' (map fst opened)))), st))"

definition bound_output :: "(json \<Rightarrow> string option) \<Rightarrow> (nat \<Rightarrow> moment) \<Rightarrow> string \<Rightarrow> json \<Rightarrow> json tool" where
  "bound_output to_string mos tool pay st =
     (let ((handle, preview, spilled), store, next_id) =
            put to_string (mo_now (mos (bk_moment st))) tool pay (cf_result_threshold (bk_config st)) (bk_store st, bk_next_id st);
          st1 = st\<lparr>bk_store := store, bk_next_id := next_id\<rparr>
      in (Inr (if \<not> spilled then pay
               else JObj [(''result_ref'', JStr handle), (''preview'', JStr preview),
                 (''hint'', JStr ''payload exceeded output budget; read it with ida_result(handle)'')]), st1))"

text \<open>One tick of the janitor; the sweep of the jobs takes its mutex twice, here without anything
  in between (\<open>Jobs\<close> interleaves the two).\<close>

definition janitor_tick :: "(nat \<Rightarrow> moment) \<Rightarrow> broker \<Rightarrow> broker" where
  "janitor_tick mos st =
     (let now = mo_now (mos (bk_moment st));
          (swept, store) = sweep now (bk_store st);
          dead = sweep_collect now (bk_jobs st);
          jobs = sweep_remove dead (bk_jobs st);
          cap = cf_result_max_entries (bk_config st);
          (capped, store') = (if cap > 0 then enforce_cap cap store else (0, store));
          total = swept + capped + length dead
      in st\<lparr>bk_store := store', bk_jobs := jobs,
           bk_janitor_swept := (if total > 0 then bk_janitor_swept st + of_nat total else bk_janitor_swept st)\<rparr>)"

text \<open>The spawned task of a background job: the call, then the stored outcome.\<close>

definition run_task :: "(nat \<Rightarrow> moment) \<Rightarrow> task \<Rightarrow> broker \<Rightarrow> broker" where
  "run_task mos t st =
     (let (r, st1) = session_call mos (tk_session t) (tk_method t) (tk_params t) (tk_timeout t) st
      in st1\<lparr>bk_jobs := job_finish (mo_now (mos (bk_moment st1))) r (tk_job t) (bk_jobs st1), bk_tasks := remove1 t (bk_tasks st1)\<rparr>)"

end
