(* ===== verification/Tools.thy ===== *)
theory Tools
  imports Broker
begin

text \<open>
  \<open>crates/rmcp-broker/src/tools.rs\<close>: the MCP tools. Each validates its arguments, resolves the database,
  calls the worker and bounds its output. A tool takes the text function of JSON values, the moments
  and its arguments. Not modelled: \<open>tool_installations\<close> and \<open>tool_health\<close>, which report on the machine.
\<close>

section \<open>Helpers\<close>

type_synonym text_fn = "json \<Rightarrow> string option"

definition invalid_args :: "string \<Rightarrow> tool_error" where
  "invalid_args m = mcp_code ''invalid_args'' m"

definition parse_ea_arg :: "json \<Rightarrow> u64 option" where
  "parse_ea_arg v = (case as_str v of
       Some s0 \<Rightarrow>
         (let s = trim s0 in
          case (case strip_prefix s ''0x'' of Some h \<Rightarrow> Some h | None \<Rightarrow> strip_prefix s ''0X'') of
            Some h \<Rightarrow> (case parse_u64_radix 16 h of Inr x \<Rightarrow> Some x | Inl _ \<Rightarrow> None)
          | None \<Rightarrow> (case parse_u64_radix 10 s of Inr x \<Rightarrow> Some x | Inl _ \<Rightarrow> None))
     | None \<Rightarrow> as_u64 v)"

definition need :: "'a option \<Rightarrow> string \<Rightarrow> 'a tool" where
  "need v m = tret (ok_or v (invalid_args m))"

definition need_ea :: "json \<Rightarrow> string \<Rightarrow> string \<Rightarrow> u64 tool" where
  "need_ea args k m = need (Option.bind (jget args k) parse_ea_arg) m"

text \<open>\<open>args.get(k)\<close> embedded in a \<open>json!\<close> literal.\<close>

definition pass :: "json \<Rightarrow> string \<Rightarrow> string \<times> json" where
  "pass args k = (k, jopt (\<lambda>v. v) (jget args k))"

definition wcall_timeout :: "(nat \<Rightarrow> moment) \<Rightarrow> usize \<Rightarrow> string \<Rightarrow> json \<Rightarrow> nat \<Rightarrow> json tool" where
  "wcall_timeout mos a mthd p dflt st = (let (r, st') = session_call mos a mthd p dflt st in (rmap_err err_from r, st'))"

definition wcall :: "(nat \<Rightarrow> moment) \<Rightarrow> usize \<Rightarrow> string \<Rightarrow> json \<Rightarrow> json tool" where
  "wcall mos a mthd p = wcall_timeout mos a mthd p 120000"

definition with_session :: "json \<Rightarrow> (string \<Rightarrow> usize \<Rightarrow> json tool) \<Rightarrow> json tool" where
  "with_session args f = tbind (resolve_db (arg_str args ''db'')) (\<lambda>(db, a). f db a)"

text \<open>The last step of most tools: the answer under the database's handle, bounded or not.\<close>

definition answer :: "string \<Rightarrow> string \<Rightarrow> json \<Rightarrow> json tool" where
  "answer db k out = tret (Inr (JObj [(''db'', JStr db), (k, out)]))"

definition answer_bounded :: "text_fn \<Rightarrow> (nat \<Rightarrow> moment) \<Rightarrow> string \<Rightarrow> string \<Rightarrow> string \<Rightarrow> json \<Rightarrow> json tool" where
  "answer_bounded ts mos tool db k out = tbind (bound_output ts mos tool out) (\<lambda>b. answer db k b)"

definition unknown_task :: "string \<Rightarrow> string \<Rightarrow> tool_error" where
  "unknown_task task choices = Mcp (''unknown task '' @ quoted task @ '' ('' @ choices @ '')'')"

text \<open>Assignment through \<open>out[k] =\<close>: panics on anything but an object or \<open>null\<close>.\<close>

definition index_set :: "string \<Rightarrow> json \<Rightarrow> json \<Rightarrow> json tool" where
  "index_set k v out = (case out of
       JObj _ \<Rightarrow> tret (Inr (jset out k v))
     | JNull \<Rightarrow> tret (Inr (jset out k v))
     | _ \<Rightarrow> tret (Inl (Panicked (''cannot access key '' @ quoted k))))"

section \<open>Databases\<close>

definition add_budgets :: "json \<Rightarrow> json tool" where
  "add_budgets out st = index_set ''budgets'' (JObj [(''default_function_limit'', jn 100), (''max_limit_per_call'', jn 1000),
     (''result_threshold'', jn (cf_result_threshold (bk_config st))),
     (''result_ttl_seconds'', jn (cf_result_ttl (bk_config st) div 1000)),
     (''mutation_revision_guard'', JStr ''expected_revision on every mutating call; stale -> revision_conflict'')]) out st"

definition tool_capabilities :: "(nat \<Rightarrow> moment) \<Rightarrow> json \<Rightarrow> json tool" where
  "tool_capabilities mos args = with_session args (\<lambda>db a.
     tbind (wcall mos a ''capabilities'' (JObj [])) (\<lambda>caps.
     tbind (wcall mos a ''db.info'' (JObj [])) (\<lambda>info.
     let fld = (\<lambda>k. unwrap_or (jget info k) JNull) in
     tbind (index_set ''db'' (JStr db) caps) (\<lambda>out1.
     tbind (index_set ''identity'' (JObj [(''backend'', fld ''processor''), (''bits'', fld ''bits''),
        (''decompiler'', fld ''decompiler''), (''ida_version'', fld ''ida_version''), (''revision'', fld ''revision'')]) out1) add_budgets))))"

definition db_open :: "text_fn \<Rightarrow> (nat \<Rightarrow> moment) \<Rightarrow> json \<Rightarrow> json tool" where
  "db_open ts mos args = tbind (need (arg_str args ''path'') (''open requires '' @ quoted ''path'')) (\<lambda>p st.
     (let mo = mos (bk_moment st);
          backend_kind = unwrap_or (arg_str args ''backend'') ''auto'';
          ida_version = unwrap_or (arg_str args ''ida_version'') [];
          (r, pl, next_id) = spawn_for (mo_host mo) p (cf_max_workers (bk_config st)) backend_kind ida_version (bk_pool st, bk_next_id st);
          st1 = st\<lparr>bk_pool := pl, bk_next_id := next_id, bk_moment := bk_moment st + 1\<rparr>
      in case r of
           Inl e \<Rightarrow> (Inl (err_from e), st1)
         | Inr h \<Rightarrow>
             (let st2 = st1\<lparr>bk_open_dbs := bk_open_dbs st1 @ [(h, p)],
                  bk_workers := (bk_workers st1)(length (pl_heap (bk_pool st)) := mo_newborn mo)\<rparr>;
                  (info, st3) = (case Worker_Pool.session (bk_pool st2) h of
                      Some a \<Rightarrow> (let (ri, st') = session_call mos a ''db.info'' (JObj []) 120000 st2
                                 in ((case ri of Inr v \<Rightarrow> v | Inl _ \<Rightarrow> JObj []), st'))
                    | None \<Rightarrow> (JObj [], st2))
              in tbind (bound_output ts mos ''ida_db'' info) (\<lambda>i.
                   tret (Inr (JObj [(''db'', JStr h), (''path'', JStr p), (''info'', i)]))) st3)))"

definition db_close :: "(nat \<Rightarrow> moment) \<Rightarrow> json \<Rightarrow> json tool" where
  "db_close mos args = with_session args (\<lambda>db a.
     tbind (wcall mos a ''db.save'' (JObj [])) (\<lambda>_.
     tbind (wcall mos a ''db.close'' (JObj [])) (\<lambda>_.
     tbind (wcall mos a ''shutdown'' (JObj [])) (\<lambda>_ st.
       (Inr (JObj [(''db'', JStr db), (''closed'', JBool True)]),
        st\<lparr>bk_pool := (bk_pool st)\<lparr>pl_sessions := filter (\<lambda>(h, _). h \<noteq> db) (pl_sessions (bk_pool st))\<rparr>,
           bk_open_dbs := filter (\<lambda>(h, _). h \<noteq> db) (bk_open_dbs st)\<rparr>)))))"

definition tool_db :: "text_fn \<Rightarrow> (nat \<Rightarrow> moment) \<Rightarrow> json \<Rightarrow> json tool" where
  "tool_db ts mos args =
     (let action = unwrap_or (arg_str args ''action'') ''info'' in
      if action = ''open'' then db_open ts mos args
      else if action = ''info'' then with_session args (\<lambda>db a.
        tbind (wcall mos a ''db.info'' (JObj [])) (\<lambda>info. answer_bounded ts mos ''ida_db'' db ''info'' info))
      else if action = ''save'' then with_session args (\<lambda>db a.
        tbind (wcall mos a ''db.save'' (JObj [])) (\<lambda>_. answer db ''saved'' (JBool True)))
      else if action = ''close'' then db_close mos args
      else if action = ''list'' then (\<lambda>st. (Inr (JObj [(''dbs'', JArr (map (\<lambda>(h, p). JArr [JStr h, JStr p]) (list_sessions (bk_pool st))))]), st))
      else tret (Inl (invalid_args (''unknown action '' @ quoted action))))"

section \<open>Reading\<close>

definition tool_functions :: "text_fn \<Rightarrow> (nat \<Rightarrow> moment) \<Rightarrow> json \<Rightarrow> json tool" where
  "tool_functions ts mos args = with_session args (\<lambda>db a.
     tbind (wcall mos a ''functions'' (JObj [(''offset'', ju (arg_u64 args ''offset'' 0)), (''limit'', ju (min (arg_u64 args ''limit'' 100) 1000))]))
       (answer_bounded ts mos ''ida_functions'' db ''functions''))"

definition tool_inspect :: "(nat \<Rightarrow> moment) \<Rightarrow> json \<Rightarrow> json tool" where
  "tool_inspect mos args = with_session args (\<lambda>db a.
     tbind (need_ea args ''ea'' (''inspect requires '' @ quoted ''ea'' @ '' (hex or decimal)'')) (\<lambda>ea.
     tbind (wcall mos a ''function_at'' (JObj [(''ea'', ju ea)])) (\<lambda>f.
     tbind (wcall mos a ''get_comment'' (JObj [(''ea'', ju ea), (''repeatable'', JBool False)])) (\<lambda>comment.
     tbind (wcall mos a ''get_bytes'' (JObj [(''ea'', ju ea), (''size'', jn 16)])) (\<lambda>bytes.
       tret (Inr (JObj [(''db'', JStr db), (''ea'', JStr (hex_alt ea)), (''function'', f), (''comment'', comment), (''bytes'', bytes)])))))))"

definition tool_disassemble :: "text_fn \<Rightarrow> (nat \<Rightarrow> moment) \<Rightarrow> json \<Rightarrow> json tool" where
  "tool_disassemble ts mos args = with_session args (\<lambda>db a.
     tbind (need_ea args ''ea'' (''disassemble requires '' @ quoted ''ea'')) (\<lambda>ea.
     tbind (wcall mos a ''disassemble'' (JObj [(''ea'', ju ea), pass args ''end'', (''max_insns'', ju (min (arg_u64 args ''max_insns'' 200) 5000))]))
       (answer_bounded ts mos ''ida_disassemble'' db ''insns'')))"

definition tool_decompile :: "text_fn \<Rightarrow> (nat \<Rightarrow> moment) \<Rightarrow> json \<Rightarrow> json tool" where
  "tool_decompile ts mos args = with_session args (\<lambda>db a.
     tbind (need_ea args ''ea'' (''decompile requires '' @ quoted ''ea'')) (\<lambda>ea.
     tbind (wcall mos a ''decompile'' (JObj [(''ea'', ju ea)])) (answer_bounded ts mos ''ida_decompile'' db ''pseudocode'')))"

definition tool_xrefs :: "text_fn \<Rightarrow> (nat \<Rightarrow> moment) \<Rightarrow> json \<Rightarrow> json tool" where
  "tool_xrefs ts mos args = with_session args (\<lambda>db a.
     tbind (need_ea args ''ea'' (''xrefs requires '' @ quoted ''ea'')) (\<lambda>ea.
     let dir = unwrap_or (arg_str args ''direction'') ''to'';
         mthd = (if dir = ''from'' then ''xrefs_from'' else ''xrefs_to'')
     in tbind (wcall mos a mthd (JObj [(''ea'', ju ea)])) (\<lambda>out.
        tbind (bound_output ts mos ''ida_xrefs'' out) (\<lambda>b.
          tret (Inr (JObj [(''db'', JStr db), (''direction'', JStr dir), (''xrefs'', b)]))))))"

definition tool_graph :: "text_fn \<Rightarrow> (nat \<Rightarrow> moment) \<Rightarrow> json \<Rightarrow> json tool" where
  "tool_graph ts mos args = with_session args (\<lambda>db a.
     tbind (need_ea args ''ea'' (''graph requires '' @ quoted ''ea'')) (\<lambda>ea.
     let kind = unwrap_or (arg_str args ''kind'') ''calls'' in
     if kind \<noteq> ''calls'' \<and> kind \<noteq> ''cfg'' then tret (Inl (invalid_args (''unknown graph kind '' @ quoted kind @ '' (calls|cfg)'')))
     else tbind (wcall mos a ''graph'' (JObj [(''ea'', ju ea), (''kind'', JStr kind), (''depth'', ju (min (arg_u64 args ''depth'' 1) 5)),
            (''max_nodes'', ju (min (arg_u64 args ''max_nodes'' 200) 5000)), (''max_edges'', ju (min (arg_u64 args ''max_edges'' 400) 10000))]))
            (answer_bounded ts mos ''ida_graph'' db ''graph'')))"

definition tool_search :: "text_fn \<Rightarrow> (nat \<Rightarrow> moment) \<Rightarrow> json \<Rightarrow> json tool" where
  "tool_search ts mos args = with_session args (\<lambda>db a.
     tbind (if unwrap_or (arg_str args ''kind'') ''text'' = ''immediate'' then
          tbind (need (Option.bind (jget args ''value'') as_u64) (''immediate search requires '' @ quoted ''value'')) (\<lambda>v.
            wcall mos a ''search_immediate'' (JObj [(''value'', ju v), (''limit'', ju (arg_u64 args ''limit'' 50))]))
        else
          tbind (need (arg_str args ''text'') (''text search requires '' @ quoted ''text'')) (\<lambda>needle.
            wcall mos a ''search_text'' (JObj [(''needle'', JStr needle), (''limit'', ju (arg_u64 args ''limit'' 50))])))
       (answer_bounded ts mos ''ida_search'' db ''hits''))"

definition tool_segments :: "(nat \<Rightarrow> moment) \<Rightarrow> json \<Rightarrow> json tool" where
  "tool_segments mos args = with_session args (\<lambda>db a. tbind (wcall mos a ''segments'' (JObj [])) (answer db ''segments''))"

definition tool_metadata :: "text_fn \<Rightarrow> (nat \<Rightarrow> moment) \<Rightarrow> json \<Rightarrow> json tool" where
  "tool_metadata ts mos args = with_session args (\<lambda>db a.
     tbind (wcall mos a ''db.metadata'' (JObj [])) (answer_bounded ts mos ''ida_metadata'' db ''metadata''))"

definition tool_imports :: "text_fn \<Rightarrow> (nat \<Rightarrow> moment) \<Rightarrow> json \<Rightarrow> json tool" where
  "tool_imports ts mos args = with_session args (\<lambda>db a.
     tbind (wcall mos a ''imports.list'' (JObj [pass args ''module'', (''offset'', ju (arg_u64 args ''offset'' 0)),
        (''limit'', ju (min (arg_u64 args ''limit'' 100) 1000))])) (answer_bounded ts mos ''ida_imports'' db ''imports''))"

definition tool_fixups :: "text_fn \<Rightarrow> (nat \<Rightarrow> moment) \<Rightarrow> json \<Rightarrow> json tool" where
  "tool_fixups ts mos args = with_session args (\<lambda>db a.
     tbind (wcall mos a ''fixups.list'' (JObj [(''offset'', ju (arg_u64 args ''offset'' 0)),
        (''limit'', ju (min (arg_u64 args ''limit'' 100) 1000))])) (answer_bounded ts mos ''ida_fixups'' db ''fixups''))"

definition tool_filemap :: "(nat \<Rightarrow> moment) \<Rightarrow> json \<Rightarrow> json tool" where
  "tool_filemap mos args = with_session args (\<lambda>db a.
     tbind (need_ea args ''value'' (''filemap requires '' @ quoted ''value'' @ '' (ea or file offset)'')) (\<lambda>v.
     tbind (wcall mos a ''file.map'' (JObj [(''value'', ju v), (''to_ea'', JBool (unwrap_or (Option.bind (jget args ''to_ea'') as_bool) False))]))
       (answer db ''map'')))"

definition tool_analysis :: "(nat \<Rightarrow> moment) \<Rightarrow> json \<Rightarrow> json tool" where
  "tool_analysis mos args = with_session args (\<lambda>db a. tbind (wcall mos a ''analyze_wait'' (JObj [])) (answer db ''analysis''))"

definition value_params :: "json \<Rightarrow> u64 \<Rightarrow> json" where
  "value_params args ea = JObj ((''ea'', ju ea) # List.map_filter
     (\<lambda>k. map_option (\<lambda>v. (k, ju v)) (Option.bind (jget args k) as_u64))
     [''depth'', ''max_functions'', ''max_calls'', ''max_iterations'', ''timeout_ms''])"

definition tool_value :: "text_fn \<Rightarrow> (nat \<Rightarrow> moment) \<Rightarrow> json \<Rightarrow> json tool" where
  "tool_value ts mos args = with_session args (\<lambda>db a.
     tbind (need_ea args ''ea'' (''value requires '' @ quoted ''ea'')) (\<lambda>ea.
     tbind (wcall mos a ''value.propagate'' (value_params args ea)) (answer_bounded ts mos ''ida_value'' db ''value'')))"

definition tool_insn :: "(nat \<Rightarrow> moment) \<Rightarrow> json \<Rightarrow> json tool" where
  "tool_insn mos args = with_session args (\<lambda>db a.
     let action = unwrap_or (arg_str args ''action'') ''features'' in
     tbind (if action = ''features'' then
         tbind (need_ea args ''ea'' (''features requires '' @ quoted ''ea'')) (\<lambda>ea. wcall mos a ''insn.features'' (JObj [(''ea'', ju ea)]))
       else if action = ''demangle'' then
         tbind (need (arg_str args ''name'') (''demangle requires '' @ quoted ''name'')) (\<lambda>n. wcall mos a ''names.demangle'' (JObj [(''name'', JStr n)]))
       else tret (Inl (invalid_args (''unknown insn action '' @ quoted action @ '' (features|demangle)''))))
     (answer db ''result''))"

section \<open>Changing\<close>

definition tool_bytes :: "(nat \<Rightarrow> moment) \<Rightarrow> json \<Rightarrow> json tool" where
  "tool_bytes mos args = with_session args (\<lambda>db a.
     tbind (need_ea args ''ea'' (''bytes requires '' @ quoted ''ea'')) (\<lambda>ea.
     if unwrap_or (arg_str args ''action'') ''get'' = ''patch'' then
       tbind (need (arg_str args ''hex'') (''patch requires '' @ quoted ''hex'')) (\<lambda>hex.
       tbind (wcall mos a ''patch_bytes'' (JObj [(''ea'', ju ea), (''hex'', JStr hex), pass args ''expected_revision'']))
         (answer db ''outcome''))
     else
       tbind (wcall mos a ''get_bytes'' (JObj [(''ea'', ju ea), (''size'', ju (min (arg_u64 args ''size'' 16) 4096))]))
         (answer db ''bytes'')))"

definition tool_types :: "text_fn \<Rightarrow> (nat \<Rightarrow> moment) \<Rightarrow> json \<Rightarrow> json tool" where
  "tool_types ts mos args = with_session args (\<lambda>db a.
     let action = unwrap_or (arg_str args ''action'') ''get'' in
     if action = ''set'' then
       (case (arg_str args ''decl'', jget args ''ea'') of
          (Some dcl, Some ea_val) \<Rightarrow>
            tbind (need (parse_ea_arg ea_val) ''bad ea'') (\<lambda>ea.
            tbind (wcall mos a ''set_type'' (JObj [(''ea'', ju ea), (''decl'', JStr dcl), pass args ''expected_revision'']))
              (answer db ''outcome''))
        | _ \<Rightarrow> tret (Inl (invalid_args (''set requires '' @ quoted ''decl'' @ '' and '' @ quoted ''ea''))))
     else if action = ''list'' \<or> action = ''get'' then
       tbind (wcall mos a ''types'' (JObj [(''name'', jopt JStr (arg_str args ''name''))])) (answer_bounded ts mos ''ida_types'' db ''types'')
     else tret (Inl (invalid_args (''unknown action '' @ quoted action))))"

definition tool_edit :: "(nat \<Rightarrow> moment) \<Rightarrow> json \<Rightarrow> json tool" where
  "tool_edit mos args = with_session args (\<lambda>db a.
     tbind (need_ea args ''ea'' (''edit requires '' @ quoted ''ea'')) (\<lambda>ea.
     case arg_str args ''rename'' of
       Some nm \<Rightarrow>
         tbind (wcall mos a ''rename'' (JObj [(''ea'', ju ea), (''name'', JStr nm), pass args ''expected_revision'']))
           (answer db ''outcome'')
     | None \<Rightarrow>
         (case arg_str args ''comment'' of
            Some cmt \<Rightarrow>
              tbind (wcall mos a ''set_comment'' (JObj [(''ea'', ju ea), (''comment'', JStr cmt),
                 (''repeatable'', JBool (unwrap_or (Option.bind (jget args ''repeatable'') as_bool) False)), pass args ''expected_revision'']))
                (answer db ''outcome'')
          | None \<Rightarrow> tret (Inl (invalid_args (''edit requires '' @ quoted ''rename'' @ '' or '' @ quoted ''comment''))))))"

definition func_action :: "(nat \<Rightarrow> moment) \<Rightarrow> json \<Rightarrow> usize \<Rightarrow> string \<Rightarrow> json tool" where
  "func_action mos args a action =
     (let need_addr = (\<lambda>k. need_ea args k (action @ '' requires '' @ quoted k)) in
      if action = ''tails'' then tbind (need_addr ''ea'') (\<lambda>ea. wcall mos a ''func.tails'' (JObj [(''ea'', ju ea)]))
      else if action = ''create'' then tbind (need_addr ''start'') (\<lambda>start.
        wcall mos a ''func.create'' (JObj [(''start'', ju start), pass args ''end'', pass args ''expected_revision'']))
      else if action = ''delete'' then tbind (need_addr ''ea'') (\<lambda>ea.
        wcall mos a ''func.delete'' (JObj [(''ea'', ju ea), pass args ''expected_revision'']))
      else if action = ''resize'' then tbind (need_addr ''ea'') (\<lambda>ea.
        wcall mos a ''func.resize'' (JObj [(''ea'', ju ea), pass args ''new_start'', pass args ''new_end'', pass args ''expected_revision'']))
      else if action = ''switch_info'' then tbind (need_addr ''ea'') (\<lambda>ea. wcall mos a ''func.switch_info'' (JObj [(''ea'', ju ea)]))
      else if action = ''sp_delta'' then tbind (need_addr ''ea'') (\<lambda>ea. wcall mos a ''func.sp_delta'' (JObj [(''ea'', ju ea)]))
      else tret (Inl (invalid_args (''unknown func action '' @ quoted action @ '' (tails|create|delete|resize|switch_info|sp_delta)''))))"

definition tool_func :: "(nat \<Rightarrow> moment) \<Rightarrow> json \<Rightarrow> json tool" where
  "tool_func mos args = with_session args (\<lambda>db a.
     let action = unwrap_or (arg_str args ''action'') ''tails'' in
     tbind (func_action mos args a action) (\<lambda>out.
       tret (Inr (JObj [(''db'', JStr db), (''action'', JStr action), (''result'', out)]))))"

definition tool_hr :: "text_fn \<Rightarrow> (nat \<Rightarrow> moment) \<Rightarrow> json \<Rightarrow> json tool" where
  "tool_hr ts mos args = with_session args (\<lambda>db a.
     tbind (need_ea args ''ea'' (''hr requires '' @ quoted ''ea'')) (\<lambda>ea.
     let action = unwrap_or (arg_str args ''action'') ''cfunc'';
         flag = (\<lambda>k. JBool (unwrap_or (Option.bind (jget args k) as_bool) True))
     in if action = ''cfunc'' then
          tbind (wcall mos a ''hr.cfunc'' (JObj [(''ea'', ju ea), (''include_ctree'', flag ''include_ctree''),
             (''include_lvars'', flag ''include_lvars''), (''limit'', ju (min (arg_u64 args ''limit'' 2000) 50000))]))
            (answer_bounded ts mos ''ida_hr'' db ''cfunc'')
        else if action = ''lvar_rename'' then
          tbind (need_ea args ''var_defea'' (''lvar_rename requires '' @ quoted ''var_defea'')) (\<lambda>var_defea.
          tbind (need (arg_str args ''name'') (''lvar_rename requires '' @ quoted ''name'')) (\<lambda>nm.
          tbind (wcall mos a ''hr.lvar_rename'' (JObj [(''ea'', ju ea), (''var_defea'', ju var_defea), (''name'', JStr nm),
             pass args ''expected_revision''])) (answer db ''outcome'')))
        else if action = ''microcode'' then
          tbind (wcall mos a ''hr.microcode'' (JObj [(''ea'', ju ea), (''maturity'', ju (arg_u64 args ''maturity'' 0)),
             (''max_insns'', ju (min (arg_u64 args ''max_insns'' 2000) 20000))])) (answer_bounded ts mos ''ida_hr'' db ''microcode'')
        else tret (Inl (invalid_args (''unknown hr action '' @ quoted action @ '' (cfunc|microcode|lvar_rename)'')))))"

definition mutation_action :: "(nat \<Rightarrow> moment) \<Rightarrow> json \<Rightarrow> usize \<Rightarrow> string \<Rightarrow> json tool" where
  "mutation_action mos args a action =
     (let planned = (\<lambda>mthd. tbind (need (jget args ''operations'') (action @ '' requires '' @ quoted ''operations'')) (\<lambda>ops.
        wcall mos a mthd (JObj [(''operations'', ops), pass args ''expected_revision'']))) in
      if action = ''plan'' then planned ''plan.mutations''
      else if action = ''apply'' then planned ''plan.apply''
      else if action = ''audit'' then wcall mos a ''mutation.audit'' (JObj [(''limit'', ju (arg_u64 args ''limit'' 100))])
      else if action = ''snapshot'' then wcall mos a ''snapshot.create'' (JObj [])
      else if action = ''rollback'' then wcall mos a ''snapshot.restore'' (JObj [])
      else tret (Inl (invalid_args (''unknown mutation action '' @ quoted action @ '' (plan|apply|audit|snapshot|rollback)''))))"

definition tool_mutation :: "(nat \<Rightarrow> moment) \<Rightarrow> json \<Rightarrow> json tool" where
  "tool_mutation mos args = with_session args (\<lambda>db a.
     tbind (mutation_action mos args a (unwrap_or (arg_str args ''action'') ''plan'')) (answer db ''mutation''))"

section \<open>Analyses\<close>

definition remove_key :: "string \<Rightarrow> json \<Rightarrow> json" where
  "remove_key k v = (case v of JObj m \<Rightarrow> JObj (filter (\<lambda>(j, _). j \<noteq> k) m) | _ \<Rightarrow> v)"

definition tool_analyze :: "(nat \<Rightarrow> moment) \<Rightarrow> json \<Rightarrow> json tool" where
  "tool_analyze mos args = with_session args (\<lambda>db a.
     tbind (wcall mos a ''workflow.run'' (JObj [(''workflow_req'', remove_key ''db'' args)])) (answer db ''analysis''))"

text \<open>The tools that choose a worker method by \<open>task\<close> and pass their arguments through.\<close>

definition by_task ::
  "(nat \<Rightarrow> moment) \<Rightarrow> json \<Rightarrow> string \<Rightarrow> (string \<times> string) list \<Rightarrow> string \<Rightarrow> nat \<Rightarrow> string \<Rightarrow> json tool" where
  "by_task mos args dflt methods choices timeout key = with_session args (\<lambda>db a.
     let task = unwrap_or (arg_str args ''task'') dflt in
     case map_of methods task of
       None \<Rightarrow> tret (Inl (unknown_task task choices))
     | Some mthd \<Rightarrow> tbind (wcall_timeout mos a mthd args timeout) (answer db key))"

definition tool_deep :: "(nat \<Rightarrow> moment) \<Rightarrow> json \<Rightarrow> json tool" where
  "tool_deep mos args = by_task mos args ''deep_function''
     [(''deep_function'', ''deep.function''), (''trace_dataflow'', ''deep.dataflow''), (''retype'', ''deep.retype'')]
     ''deep_function|trace_dataflow|retype'' 600000 ''deep''"

definition tool_type_recovery :: "(nat \<Rightarrow> moment) \<Rightarrow> json \<Rightarrow> json tool" where
  "tool_type_recovery mos args = by_task mos args ''propose''
     [(''evidence'', ''types.evidence''), (''propose'', ''types.propose''), (''vtable'', ''types.vtable''), (''create_struct'', ''types.apply'')]
     ''evidence|propose|vtable|create_struct'' 120000 ''types''"

definition tool_intel :: "(nat \<Rightarrow> moment) \<Rightarrow> json \<Rightarrow> json tool" where
  "tool_intel mos args = by_task mos args ''crypto_scan''
     [(''crypto_scan'', ''intel.crypto''), (''resolve_api_hashes'', ''intel.api_hashes''), (''recover_strings'', ''intel.strings''),
      (''packs_list'', ''intel.packs'')]
     ''crypto_scan|resolve_api_hashes|recover_strings|packs_list'' 600000 ''intel''"

definition tool_sig :: "(nat \<Rightarrow> moment) \<Rightarrow> json \<Rightarrow> json tool" where
  "tool_sig mos args = by_task mos args ''export''
     [(''export'', ''sig.export''), (''identify'', ''sig.identify''), (''map'', ''sig.map'')] ''export|identify|map'' 300000 ''sig''"

definition deob_task :: "(nat \<Rightarrow> moment) \<Rightarrow> json \<Rightarrow> usize \<Rightarrow> string \<Rightarrow> json tool" where
  "deob_task mos args a task =
     (let need_plan = need (jget args ''plan'') (task @ '' requires '' @ quoted ''plan'') in
      if task = ''analyze'' then wcall_timeout mos a ''deob.run'' args 300000
      else if task = ''propose'' then wcall_timeout mos a ''deob.propose'' args 300000
      else if task = ''validate'' then tbind need_plan (\<lambda>plan. wcall mos a ''deob.validate'' (JObj [(''plan'', plan)]))
      else if task = ''apply'' then tbind need_plan (\<lambda>plan.
        wcall_timeout mos a ''deob.apply'' (JObj [(''plan'', plan), pass args ''expected_revision'']) 300000)
      else if task = ''rollback'' then wcall mos a ''snapshot.restore'' (JObj [])
      else tret (Inl (invalid_args (''unknown deobfuscate task '' @ quoted task @ '' (analyze|propose|validate|apply|rollback)''))))"

definition tool_deobfuscate :: "(nat \<Rightarrow> moment) \<Rightarrow> json \<Rightarrow> json tool" where
  "tool_deobfuscate mos args = with_session args (\<lambda>db a.
     tbind (deob_task mos args a (unwrap_or (arg_str args ''task'') ''analyze'')) (answer db ''deob''))"

text \<open>\<open>out["hits"]\<close> taken mutably inserts a null member where there is none.\<close>

definition truncate_hits :: "json \<Rightarrow> json \<Rightarrow> json tool" where
  "truncate_hits args out = (case Option.bind (jget args ''limit'') as_u64 of
       None \<Rightarrow> tret (Inr out)
     | Some limit \<Rightarrow>
         (case jget out ''hits'' of
            Some (JArr hits) \<Rightarrow>
              (let kept = take (unat limit) hits in tret (Inr (jset (jset out ''hits'' (JArr kept)) ''count'' (jn (length kept)))))
          | Some _ \<Rightarrow> tret (Inr out)
          | None \<Rightarrow> index_set ''hits'' JNull out))"

definition tool_evidence :: "(nat \<Rightarrow> moment) \<Rightarrow> json \<Rightarrow> json tool" where
  "tool_evidence mos args = with_session args (\<lambda>db a.
     let action = unwrap_or (arg_str args ''action'') ''query'' in
     tbind (if action = ''build'' then wcall mos a ''index.build'' (JObj [])
        else if action = ''status'' then wcall mos a ''index.status'' (JObj [])
        else if action = ''query'' then
          tbind (need (jget args ''query'') (''evidence query requires '' @ quoted ''query'')) (\<lambda>query.
          tbind (wcall mos a ''index.query'' (JObj [(''query'', query)])) (truncate_hits args))
        else tret (Inl (invalid_args (''unknown evidence action '' @ quoted action @ '' (query|build|status)''))))
     (answer db ''evidence''))"

section \<open>Results, jobs and batches\<close>

definition meta_json :: "stored_result_meta \<Rightarrow> json" where
  "meta_json m = JObj [(''handle'', JStr (sm_handle m)), (''tool'', JStr (sm_tool m)), (''total_len'', jn (sm_total_len m)),
     (''ttl_secs'', jn (sm_ttl_secs m)), (''age_secs'', jn (sm_age_secs m))]"

definition tool_result :: "text_fn \<Rightarrow> (nat \<Rightarrow> moment) \<Rightarrow> json \<Rightarrow> json tool" where
  "tool_result ts mos args =
     (let action = unwrap_or (arg_str args ''action'') ''read'';
          need_handle = need (arg_str args ''handle'') (action @ '' requires '' @ quoted ''handle'');
          now = (\<lambda>st. mo_now (mos (bk_moment st)))
      in if action = ''read'' then
           tbind need_handle (\<lambda>h st. let (r, store) = get (now st) h (bk_store st) in (rmap_err err_from r, st\<lparr>bk_store := store\<rparr>))
         else if action = ''metadata'' then
           tbind need_handle (\<lambda>h st. (rmap_err err_from (rmap meta_json (metadata (now st) h (bk_store st))), st))
         else if action = ''find'' then
           tbind (need (arg_str args ''text'') (''find requires '' @ quoted ''text'')) (\<lambda>needle st.
             (Inr (JObj [(''handles'', JArr (map JStr (find_results ts (now st) needle (bk_store st))))]), st))
         else if action = ''release'' then
           tbind need_handle (\<lambda>h st. let (r, store) = release h (bk_store st)
             in (rmap_err err_from (rmap (\<lambda>_. JObj [(''released'', JStr h)]) r), st\<lparr>bk_store := store\<rparr>))
         else tret (Inl (invalid_args (''unknown action '' @ quoted action))))"

definition JOB_MUTATING :: "string list" where
  "JOB_MUTATING = [''patch_bytes'', ''set_comment'', ''rename'', ''set_type'', ''func.create'', ''func.delete'', ''func.resize'',
     ''hr.lvar_rename'', ''deep.retype'', ''types.apply'', ''deob.apply'', ''plan.apply'', ''snapshot.restore'']"

definition jobs_start :: "text_fn \<Rightarrow> (nat \<Rightarrow> moment) \<Rightarrow> json \<Rightarrow> json tool" where
  "jobs_start ts mos args =
     tbind (need (arg_str args ''method'') (''start requires '' @ quoted ''method'')) (\<lambda>mthd.
     tbind (resolve_db (arg_str args ''db'')) (\<lambda>(db, a).
     if mthd \<in> set JOB_MUTATING then
       tret (Inl (invalid_args ''mutation methods cannot be backgrounded; run them synchronously''))
     else (\<lambda>st.
       (let params = unwrap_or (jget args ''params'') (JObj []);
            timeout = (case Option.bind (jget params ''timeout_ms'') as_u64 of Some ms \<Rightarrow> clamp_ms ms | None \<Rightarrow> 600000);
            (r, jm, next_id) = job_start ts (mo_now (mos (bk_moment st))) db mthd params (bk_jobs st, bk_next_id st);
            st1 = st\<lparr>bk_jobs := jm, bk_next_id := next_id\<rparr>
        in case r of
             Inl e \<Rightarrow> (Inl (err_from e), st1)
           | Inr i \<Rightarrow>
               (Inr (JObj [(''job'', JStr i), (''db'', JStr db), (''method'', JStr mthd), (''status'', JStr ''running''),
                  (''note'', JStr ''agent can keep working; ida_jobs action=status/result to collect'')]),
                st1\<lparr>bk_tasks := \<lparr>tk_job = i, tk_session = a, tk_method = mthd, tk_params = params, tk_timeout = timeout\<rparr> # bk_tasks st1\<rparr>)))))"

definition tool_jobs :: "text_fn \<Rightarrow> (nat \<Rightarrow> moment) \<Rightarrow> json \<Rightarrow> json tool" where
  "tool_jobs ts mos args =
     (let action = unwrap_or (arg_str args ''action'') ''list'';
          need_job = need (arg_str args ''job'') (action @ '' requires '' @ quoted ''job'');
          now = (\<lambda>st. mo_now (mos (bk_moment st)))
      in if action = ''start'' then jobs_start ts mos args
         else if action = ''status'' then
           tbind need_job (\<lambda>i st. (rmap_err err_from (job_status_view (now st) i (bk_jobs st)), st))
         else if action = ''result'' then
           tbind need_job (\<lambda>i. tbind (\<lambda>st. (rmap_err err_from (job_result (now st) i (bk_jobs st)), st)) (bound_output ts mos ''ida_jobs''))
         else if action = ''list'' then (\<lambda>st. (Inr (JObj [(''jobs'', JArr (job_list (now st) (bk_jobs st)))]), st))
         else if action = ''cancel'' then
           tbind need_job (\<lambda>i st. let (r, jm) = job_cancel (now st) i (bk_jobs st) in (rmap_err err_from r, st\<lparr>bk_jobs := jm\<rparr>))
         else tret (Inl (invalid_args (''unknown jobs action '' @ quoted action @ '' (start|status|result|list|cancel)''))))"

definition batch_tools :: "text_fn \<Rightarrow> (nat \<Rightarrow> moment) \<Rightarrow> (string \<times> (json \<Rightarrow> json tool)) list" where
  "batch_tools ts mos = [(''ida_functions'', tool_functions ts mos), (''ida_inspect'', tool_inspect mos),
     (''ida_disassemble'', tool_disassemble ts mos), (''ida_decompile'', tool_decompile ts mos), (''ida_xrefs'', tool_xrefs ts mos),
     (''ida_search'', tool_search ts mos), (''ida_bytes'', tool_bytes mos), (''ida_types'', tool_types ts mos),
     (''ida_segments'', tool_segments mos), (''ida_metadata'', tool_metadata ts mos), (''ida_imports'', tool_imports ts mos),
     (''ida_fixups'', tool_fixups ts mos), (''ida_filemap'', tool_filemap mos), (''ida_func'', tool_func mos), (''ida_hr'', tool_hr ts mos),
     (''ida_value'', tool_value ts mos), (''ida_insn'', tool_insn mos)]"

definition run_named :: "text_fn \<Rightarrow> (nat \<Rightarrow> moment) \<Rightarrow> string \<Rightarrow> json \<Rightarrow> json tool" where
  "run_named ts mos tool args = (case map_of (batch_tools ts mos) tool of
       Some t \<Rightarrow> t args
     | None \<Rightarrow> tret (Inl (invalid_args (''batch cannot run '' @ quoted tool))))"

text \<open>\<open>{"code": e.code, "message": e.message}\<close>; the code is that of \<open>invalid_params\<close>.\<close>

definition error_json :: "string \<Rightarrow> json" where
  "error_json m = JObj [(''error'', JObj [(''code'', JNum (- 32602)), (''message'', JStr m)])]"

fun batch_ops :: "text_fn \<Rightarrow> (nat \<Rightarrow> moment) \<Rightarrow> usize \<Rightarrow> json list \<Rightarrow> json list tool" where
  "batch_ops ts mos i [] st = (Inr [], st)"
| "batch_ops ts mos i (op # ops) st =
     (let tool = unwrap_or (Option.bind (jget op ''tool'') as_str) [];
          row = (\<lambda>v. JObj [(''index'', jn i), (''tool'', JStr tool), (''result'', v)])
      in case run_named ts mos tool (unwrap_or (jget op ''args'') (JObj [])) st of
           (Inl (Panicked m), st') \<Rightarrow> (Inl (Panicked m), st')
         | (Inl Diverges, st') \<Rightarrow> (Inl Diverges, st')
         | (Inl (Mcp m), st') \<Rightarrow> tbind (batch_ops ts mos (i + 1) ops) (\<lambda>rs. tret (Inr (row (error_json m) # rs))) st'
         | (Inr v, st') \<Rightarrow> tbind (batch_ops ts mos (i + 1) ops) (\<lambda>rs. tret (Inr (row v # rs))) st')"

definition tool_batch :: "text_fn \<Rightarrow> (nat \<Rightarrow> moment) \<Rightarrow> json \<Rightarrow> json tool" where
  "tool_batch ts mos args =
     (let ops = unwrap_or (Option.bind (jget args ''operations'') as_array) [] in
      if length ops > 20 then tret (Inl (invalid_args ''batch limited to 20 operations''))
      else tbind (batch_ops ts mos 0 ops) (\<lambda>rs. tret (Inr (JObj [(''results'', JArr rs)]))))"

end
