(* ===== verification/Preflight.thy ===== *)
theory Preflight
  imports Errors
begin

text \<open>
  \<open>crates/rmcp-broker/src/preflight.rs\<close>: the complexity profile of a function, the analysis mode it
  selects, and the strongly connected components of its control-flow graph by an iterative
  Tarjan algorithm. The vectors of the algorithm are lists; its two stacks, vectors whose top is
  the last element, are lists whose top is the head. Indexing out of range panics. The density
  field of the profile, an \<open>f64\<close> no code sets, is left out. The file ends with the reachability
  relation of a graph; the theory \<open>Tarjan\<close> proves the algorithm correct against it.
\<close>

section \<open>Profile and mode\<close>

datatype analysis_mode = Normal | Large | Pathological

record thresholds =
  large_blocks :: usize
  large_edges :: usize
  large_bytes :: u64
  pathological_blocks :: usize
  pathological_edges :: usize
  pathological_bytes :: u64
  pathological_sccs :: usize

definition default_thresholds :: thresholds where
  "default_thresholds = \<lparr>large_blocks = 1500, large_edges = 2500, large_bytes = 100000,
     pathological_blocks = 10000, pathological_edges = 20000, pathological_bytes = 500000, pathological_sccs = 50\<rparr>"

record function_complexity =
  fc_byte_size :: u64
  fc_blocks :: usize
  fc_edges :: usize
  fc_cyclomatic :: usize
  fc_indirect_blocks :: usize
  fc_direct_calls :: usize
  fc_indirect_calls :: usize
  fc_switches :: usize
  fc_chunks :: usize
  fc_sccs :: usize
  fc_max_scc_size :: usize
  fc_loops :: usize
  fc_decompiler_available :: bool

definition default_complexity :: function_complexity where
  "default_complexity = \<lparr>fc_byte_size = 0, fc_blocks = 0, fc_edges = 0, fc_cyclomatic = 0, fc_indirect_blocks = 0,
     fc_direct_calls = 0, fc_indirect_calls = 0, fc_switches = 0, fc_chunks = 0, fc_sccs = 0, fc_max_scc_size = 0,
     fc_loops = 0, fc_decompiler_available = False\<rparr>"

definition mode :: "thresholds \<Rightarrow> function_complexity \<Rightarrow> analysis_mode" where
  "mode t c =
     (if fc_blocks c \<ge> pathological_blocks t \<or> fc_edges c \<ge> pathological_edges t
         \<or> fc_byte_size c \<ge> pathological_bytes t \<or> fc_sccs c \<ge> pathological_sccs t then Pathological
      else if fc_blocks c \<ge> large_blocks t \<or> fc_edges c \<ge> large_edges t \<or> fc_byte_size c \<ge> large_bytes t then Large
      else Normal)"

record cfg_index =
  cx_block_eas :: "u64 list"
  cx_block_ends :: "u64 list"
  cx_succs :: "usize list list"
  cx_indirect :: "bool list"
  cx_direct_calls :: usize
  cx_indirect_calls :: usize
  cx_switches :: usize

definition edge_count :: "cfg_index \<Rightarrow> usize" where
  "edge_count idx = sum_list (map length (cx_succs idx))"

section \<open>Tarjan's algorithm\<close>

text \<open>\<open>usize::MAX\<close>, which marks a block that has no index yet.\<close>

definition UNSEEN :: usize where
  "UNSEEN = 2 ^ 64 - 1"

record tarjan =
  tj_index :: "usize list"
  tj_low :: "usize list"
  tj_on_stack :: "bool list"
  tj_stack :: "usize list"
  tj_next :: usize
  tj_out :: "usize list list"
  tj_call :: "(usize \<times> usize) list"

definition tarjan_init :: "usize \<Rightarrow> tarjan" where
  "tarjan_init n = \<lparr>tj_index = replicate n UNSEEN, tj_low = replicate n 0, tj_on_stack = replicate n False,
     tj_stack = [], tj_next = 0, tj_out = [], tj_call = []\<rparr>"

definition visit :: "usize \<Rightarrow> tarjan \<Rightarrow> tarjan" where
  "visit w s = s\<lparr>tj_index := (tj_index s)[w := tj_next s], tj_low := (tj_low s)[w := tj_next s],
     tj_next := tj_next s + 1, tj_stack := w # tj_stack s, tj_on_stack := (tj_on_stack s)[w := True],
     tj_call := (w, 0) # tj_call s\<rparr>"

fun pop_until :: "usize \<Rightarrow> usize list \<Rightarrow> usize list \<times> usize list" where
  "pop_until v [] = ([], [])"
| "pop_until v (w # ws) = (if w = v then ([w], ws) else let (scc, rest) = pop_until v ws in (w # scc, rest))"

definition pop_scc :: "usize \<Rightarrow> tarjan \<Rightarrow> tarjan" where
  "pop_scc v s = (let (scc, rest) = pop_until v (tj_stack s) in
     s\<lparr>tj_stack := rest, tj_on_stack := foldl (\<lambda>os w. os[w := False]) (tj_on_stack s) scc, tj_out := tj_out s @ [scc]\<rparr>)"

definition propagate :: "usize \<Rightarrow> tarjan \<Rightarrow> tarjan" where
  "propagate v s = (case tj_call s of
       [] \<Rightarrow> s
     | (p, _) # _ \<Rightarrow> s\<lparr>tj_low := (tj_low s)[p := min (tj_low s ! p) (tj_low s ! v)]\<rparr>)"

definition finish :: "usize \<Rightarrow> tarjan \<Rightarrow> tarjan" where
  "finish v s = (let s1 = propagate v (s\<lparr>tj_call := tl (tj_call s)\<rparr>) in
     if tj_low s1 ! v = tj_index s1 ! v then pop_scc v s1 else s1)"

definition next_succ :: "usize \<Rightarrow> usize \<Rightarrow> usize \<Rightarrow> (usize \<times> usize) list \<Rightarrow> tarjan \<Rightarrow> tarjan" where
  "next_succ v ci w rest s =
     (let s1 = s\<lparr>tj_call := (v, ci + 1) # rest\<rparr> in
      if tj_index s ! w = UNSEEN then visit w s1
      else if tj_on_stack s ! w then s1\<lparr>tj_low := (tj_low s)[v := min (tj_low s ! v) (tj_index s ! w)]\<rparr>
      else s1)"

text \<open>One turn of the inner loop; \<open>None\<close> is an index out of bounds.\<close>

definition tarjan_step :: "usize list list \<Rightarrow> usize \<times> usize \<Rightarrow> (usize \<times> usize) list \<Rightarrow> tarjan \<Rightarrow> tarjan option" where
  "tarjan_step succs cur rest s =
     (let (v, ci) = cur in
      if v \<ge> length succs then None
      else if ci < length (succs ! v) then
        (let w = succs ! v ! ci in if w \<ge> length (tj_index s) then None else Some (next_succ v ci w rest s))
      else Some (finish v s))"

partial_function (option) tarjan_while :: "usize list list \<Rightarrow> tarjan \<Rightarrow> tarjan result option" where
  "tarjan_while succs s =
     (case tj_call s of
        [] \<Rightarrow> Some (Inr s)
      | cur # rest \<Rightarrow>
          (case tarjan_step succs cur rest s of
             None \<Rightarrow> Some (Inl (Panic ''index out of bounds''))
           | Some s' \<Rightarrow> tarjan_while succs s'))"

fun tarjan_from :: "usize list list \<Rightarrow> usize list \<Rightarrow> tarjan \<Rightarrow> tarjan result option" where
  "tarjan_from succs [] s = Some (Inr s)"
| "tarjan_from succs (start # starts) s =
     (if tj_index s ! start \<noteq> UNSEEN then tarjan_from succs starts s
      else case tarjan_while succs (visit start s) of
        Some (Inr s') \<Rightarrow> tarjan_from succs starts s'
      | r \<Rightarrow> r)"

definition sort_by_len :: "usize list list \<Rightarrow> usize list list" where
  "sort_by_len xs = rev (sort_key length (rev xs))"

definition tarjan_sccs :: "cfg_index \<Rightarrow> usize list list result option" where
  "tarjan_sccs idx =
     (let n = length (cx_block_eas idx) in
      map_option (rmap (\<lambda>s. sort_by_len (tj_out s))) (tarjan_from (cx_succs idx) [0..<n] (tarjan_init n)))"

section \<open>Reachability\<close>

text \<open>Every block has a successor list, and every successor is a block.\<close>

definition cfg_wf :: "cfg_index \<Rightarrow> bool" where
  "cfg_wf idx \<longleftrightarrow> length (cx_succs idx) = length (cx_block_eas idx) \<and> length (cx_block_eas idx) < UNSEEN \<and>
     (\<forall>ss \<in> set (cx_succs idx). \<forall>w \<in> set ss. w < length (cx_block_eas idx))"

definition graph_wf :: "usize list list \<Rightarrow> bool" where
  "graph_wf g \<longleftrightarrow> length g < UNSEEN \<and> (\<forall>ss \<in> set g. \<forall>w \<in> set ss. w < length g)"

definition edges :: "usize list list \<Rightarrow> (usize \<times> usize) set" where
  "edges g = {(v, w). v < length g \<and> w \<in> set (g ! v)}"

definition scc_of :: "usize list list \<Rightarrow> usize \<Rightarrow> usize set" where
  "scc_of g v = {w. (v, w) \<in> (edges g)\<^sup>* \<and> (w, v) \<in> (edges g)\<^sup>*}"

text \<open>What the component search guarantees of its result.\<close>

definition scc_list :: "cfg_index \<Rightarrow> usize list list \<Rightarrow> bool" where
  "scc_list idx sccs \<longleftrightarrow> distinct (concat sccs) \<and> set (concat sccs) = {..<length (cx_block_eas idx)} \<and>
     (\<forall>scc \<in> set sccs. \<forall>v \<in> set scc. set scc = scc_of (cx_succs idx) v)"

text \<open>What a client of the component search relies on.\<close>

locale component_search =
  fixes search :: "cfg_index \<Rightarrow> usize list list result option"
  assumes components: "cfg_wf idx \<Longrightarrow> \<exists>sccs. search idx = Some (Inr sccs) \<and> scc_list idx sccs"

end
