(* ===== verification/Tarjan.thy ===== *)
theory Tarjan
  imports Preflight "HOL-Library.Product_Lexorder" "HOL-Library.Multiset"
begin

text \<open>
  Correctness of the iterative Tarjan algorithm of \<open>Preflight\<close>. The invariant speaks of the blocks
  discovered, those still on the component stack, the calls in progress and the successors each
  block has explored; it is kept by visiting a new block, by meeting one seen before, and by
  finishing a block with or without closing its component. A lexicographic measure (blocks left,
  successors left on the call stack) shows that the loop ends.
\<close>

section \<open>The invariant\<close>

abbreviation idx_of :: "tarjan \<Rightarrow> usize \<Rightarrow> usize" where
  "idx_of s v \<equiv> tj_index s ! v"

abbreviation low_of :: "tarjan \<Rightarrow> usize \<Rightarrow> usize" where
  "low_of s v \<equiv> tj_low s ! v"

abbreviation calls :: "tarjan \<Rightarrow> usize set" where
  "calls s \<equiv> fst ` set (tj_call s)"

abbreviation on_st :: "tarjan \<Rightarrow> usize set" where
  "on_st s \<equiv> set (tj_stack s)"

definition disc :: "tarjan \<Rightarrow> usize set" where
  "disc s = {v. v < length (tj_index s) \<and> idx_of s v \<noteq> UNSEEN}"

definition explored :: "usize list list \<Rightarrow> tarjan \<Rightarrow> usize \<Rightarrow> usize list" where
  "explored g s v = (case map_of (tj_call s) v of Some ci \<Rightarrow> take ci (g ! v) | None \<Rightarrow> g ! v)"

definition inv_shape :: "usize list list \<Rightarrow> tarjan \<Rightarrow> bool" where
  "inv_shape g s \<longleftrightarrow> length (tj_index s) = length g \<and> length (tj_low s) = length g \<and> length (tj_on_stack s) = length g \<and>
     tj_next s = card (disc s) \<and> (\<forall>v \<in> disc s. idx_of s v < tj_next s) \<and> inj_on (idx_of s) (disc s) \<and>
     on_st s \<subseteq> disc s \<and> sorted_wrt (\<lambda>u v. idx_of s v < idx_of s u) (tj_stack s) \<and>
     (\<forall>v < length g. tj_on_stack s ! v \<longleftrightarrow> v \<in> on_st s)"

definition inv_call :: "usize list list \<Rightarrow> tarjan \<Rightarrow> bool" where
  "inv_call g s \<longleftrightarrow> calls s \<subseteq> on_st s \<and> sorted_wrt (\<lambda>u v. idx_of s v < idx_of s u) (map fst (tj_call s)) \<and>
     (\<forall>(v, ci) \<in> set (tj_call s). ci \<le> length (g ! v)) \<and>
     (\<forall>u \<in> calls s. \<forall>x \<in> on_st s. idx_of s u \<le> idx_of s x \<longrightarrow> (u, x) \<in> (edges g)\<^sup>*)"

definition inv_low :: "usize list list \<Rightarrow> tarjan \<Rightarrow> bool" where
  "inv_low g s \<longleftrightarrow>
     (\<forall>v \<in> on_st s. low_of s v \<le> idx_of s v \<and> (\<exists>w \<in> on_st s. idx_of s w = low_of s v \<and> (v, w) \<in> (edges g)\<^sup>*)) \<and>
     (\<forall>v \<in> on_st s - calls s. low_of s v < idx_of s v)"

text \<open>The call that an active block belongs to: the last one started no later than it.\<close>

definition owner :: "tarjan \<Rightarrow> usize \<Rightarrow> usize \<Rightarrow> bool" where
  "owner s x c \<longleftrightarrow> c \<in> calls s \<and> idx_of s c \<le> idx_of s x \<and> (\<forall>d \<in> calls s. idx_of s d \<le> idx_of s x \<longrightarrow> idx_of s d \<le> idx_of s c)"

definition inv_edge :: "usize list list \<Rightarrow> tarjan \<Rightarrow> bool" where
  "inv_edge g s \<longleftrightarrow> (\<forall>x \<in> disc s. set (explored g s x) \<subseteq> disc s) \<and>
     (\<forall>x \<in> on_st s. \<forall>y \<in> set (explored g s x) \<inter> on_st s. \<forall>c. owner s x c \<longrightarrow> low_of s c \<le> idx_of s y)"

definition inv_done :: "usize list list \<Rightarrow> tarjan \<Rightarrow> bool" where
  "inv_done g s \<longleftrightarrow> (\<forall>v \<in> disc s - on_st s. set (g ! v) \<subseteq> disc s - on_st s) \<and>
     set (concat (tj_out s)) = disc s - on_st s \<and> distinct (concat (tj_out s)) \<and>
     (\<forall>scc \<in> set (tj_out s). \<exists>v \<in> set scc. set scc = scc_of g v)"

definition tj_inv :: "usize list list \<Rightarrow> tarjan \<Rightarrow> bool" where
  "tj_inv g s \<longleftrightarrow> inv_shape g s \<and> inv_call g s \<and> inv_low g s \<and> inv_edge g s \<and> inv_done g s"

lemma tj_invD:
  assumes "tj_inv g s"
  shows "inv_shape g s" "inv_call g s" "inv_low g s" "inv_edge g s" "inv_done g s"
  using assms by (simp_all add: tj_inv_def)

lemma disc_finite [simp]: "finite (disc s)"
  by (simp add: disc_def)

lemma disc_less: "inv_shape g s \<Longrightarrow> v \<in> disc s \<Longrightarrow> v < length g"
  by (simp add: inv_shape_def disc_def)

lemma shapeD:
  assumes "inv_shape g s"
  shows "length (tj_index s) = length g" "length (tj_low s) = length g" "length (tj_on_stack s) = length g"
    "tj_next s = card (disc s)" "v \<in> disc s \<Longrightarrow> idx_of s v < tj_next s" "on_st s \<subseteq> disc s"
    "sorted_wrt (\<lambda>u v. idx_of s v < idx_of s u) (tj_stack s)" "v < length g \<Longrightarrow> tj_on_stack s ! v \<longleftrightarrow> v \<in> on_st s"
  using assms unfolding inv_shape_def by blast+

lemma callD:
  assumes "inv_call g s"
  shows "calls s \<subseteq> on_st s" "sorted_wrt (\<lambda>u v. idx_of s v < idx_of s u) (map fst (tj_call s))"
    "(v, ci) \<in> set (tj_call s) \<Longrightarrow> ci \<le> length (g ! v)"
    "u \<in> calls s \<Longrightarrow> x \<in> on_st s \<Longrightarrow> idx_of s u \<le> idx_of s x \<Longrightarrow> (u, x) \<in> (edges g)\<^sup>*"
  using assms unfolding inv_call_def by blast+

lemma next_less:
  assumes "inv_shape g s" "graph_wf g" "w < length g" "w \<notin> disc s"
  shows "tj_next s < UNSEEN"
proof -
  have "disc s \<subseteq> {..<length g} - {w}" using assms disc_less by auto
  then have "card (disc s) \<le> card ({..<length g} - {w})" by (intro card_mono) auto
  then have "tj_next s < length g" using assms(1, 3) by (simp add: inv_shape_def)
  then show ?thesis using assms(2) by (simp add: graph_wf_def)
qed

lemma idx_eq: "inv_shape g s \<Longrightarrow> u \<in> disc s \<Longrightarrow> v \<in> disc s \<Longrightarrow> idx_of s u = idx_of s v \<Longrightarrow> u = v"
  by (auto simp: inv_shape_def dest: inj_onD)

lemma stack_disc: "inv_shape g s \<Longrightarrow> v \<in> on_st s \<Longrightarrow> v \<in> disc s"
  by (auto simp: inv_shape_def)

lemma stack_distinct: "inv_shape g s \<Longrightarrow> distinct (tj_stack s)"
  unfolding inv_shape_def
  by (metis (mono_tags, lifting) distinct_conv_nth less_irrefl linorder_neqE_nat sorted_wrt_nth_less)

lemma reach_call:
  assumes inv: "tj_inv g s" and x: "x \<in> on_st s"
  shows "\<exists>u \<in> calls s. idx_of s u \<le> idx_of s x \<and> (x, u) \<in> (edges g)\<^sup>*"
  using x
proof (induction "idx_of s x" arbitrary: x rule: less_induct)
  case less
  show ?case
  proof (cases "x \<in> calls s")
    case True
    then show ?thesis by blast
  next
    case False
    with less.prems tj_invD(3) [OF inv] obtain w where w: "w \<in> on_st s" "idx_of s w < idx_of s x" "(x, w) \<in> (edges g)\<^sup>*"
      unfolding inv_low_def by (metis DiffI)
    from less.hyps [OF w(2, 1)] w(2, 3) show ?thesis by (meson le_less_trans less_imp_le rtrancl_trans)
  qed
qed

lemma no_call_no_stack: "tj_inv g s \<Longrightarrow> tj_call s = [] \<Longrightarrow> tj_stack s = []"
  using reach_call [of g s] by (cases "tj_stack s") auto

section \<open>A new block\<close>

definition advanced :: "usize list list \<Rightarrow> tarjan \<Rightarrow> usize \<Rightarrow> (usize \<times> usize) list \<Rightarrow> bool" where
  "advanced g s w cs \<longleftrightarrow> tj_call s = [] \<and> cs = [] \<or>
     (\<exists>v ci rest. tj_call s = (v, ci) # rest \<and> cs = (v, Suc ci) # rest \<and> ci < length (g ! v) \<and> g ! v ! ci = w)"

lemma advanced_fst: "advanced g s w cs \<Longrightarrow> map fst cs = map fst (tj_call s)"
  by (auto simp: advanced_def)

lemma visit_disc:
  assumes "inv_shape g s" "graph_wf g" "w < length g" "w \<notin> disc s"
  shows "disc (visit w s) = insert w (disc s)"
  using assms next_less [OF assms] by (auto simp: disc_def visit_def nth_list_update inv_shape_def)

lemma visit_idx: "x \<noteq> w \<Longrightarrow> idx_of (visit w s) x = idx_of s x"
  by (simp add: visit_def)

lemma visit_idx_new: "inv_shape g s \<Longrightarrow> w < length g \<Longrightarrow> idx_of (visit w s) w = tj_next s \<and> low_of (visit w s) w = tj_next s"
  by (simp add: visit_def inv_shape_def)

lemma shape_call: "inv_shape g (s\<lparr>tj_call := cs\<rparr>) = inv_shape g s"
  by (simp add: inv_shape_def disc_def)

lemma shape_low: "inv_shape g (s\<lparr>tj_call := cs, tj_low := (tj_low s)[p := m]\<rparr>) = inv_shape g s"
  by (simp add: inv_shape_def disc_def)

lemma sorted_by_cong:
  "(\<And>x. x \<in> set xs \<Longrightarrow> f x = (h x :: nat)) \<Longrightarrow> sorted_wrt (\<lambda>u v. f v < f u) xs = sorted_wrt (\<lambda>u v. h v < h u) xs"
  by (induction xs) auto

lemma visit_shape:
  assumes inv: "inv_shape g s" and wf: "graph_wf g" and w: "w < length g" "w \<notin> disc s"
  shows "inv_shape g (visit w s)"
proof -
  note d = visit_disc [OF inv wf w]
  have lt: "\<forall>v \<in> disc s. idx_of s v < tj_next s" "on_st s \<subseteq> disc s" using inv by (auto simp: inv_shape_def)
  have same: "idx_of (visit w s) v = idx_of s v" if "v \<in> disc s" for v using that w(2) by (auto intro: visit_idx)
  have new: "idx_of (visit w s) w = tj_next s" using visit_idx_new [OF inv w(1)] by simp
  have "inj_on (idx_of (visit w s)) (disc s)" using inv same by (auto simp: inv_shape_def inj_on_def)
  then have inj: "inj_on (idx_of (visit w s)) (insert w (disc s))" using lt(1) w(2) by (auto simp: same new)
  have sorted: "sorted_wrt (\<lambda>u v. idx_of (visit w s) v < idx_of (visit w s) u) (tj_stack s)"
    using inv lt(2) sorted_by_cong [of "tj_stack s" "idx_of (visit w s)" "idx_of s"] same by (auto simp: inv_shape_def)
  have st: "tj_stack (visit w s) = w # tj_stack s" by (simp add: visit_def)
  have rest: "length (tj_index (visit w s)) = length g" "length (tj_low (visit w s)) = length g"
    "length (tj_on_stack (visit w s)) = length g" "tj_next (visit w s) = card (insert w (disc s))"
    "\<forall>v < length g. tj_on_stack (visit w s) ! v \<longleftrightarrow> v \<in> on_st (visit w s)"
    using inv w by (auto simp: inv_shape_def visit_def nth_list_update)
  have nx: "tj_next (visit w s) = Suc (tj_next s)" by (simp add: visit_def)
  have "\<forall>v \<in> insert w (disc s). idx_of (visit w s) v < tj_next (visit w s)" using lt(1) by (auto simp: same new nx less_SucI)
  then show ?thesis
    unfolding inv_shape_def d st using rest lt inj sorted same new by (auto simp: st)
qed

lemma call_head_max:
  assumes "inv_call g s" "tj_call s = (v, ci) # rest" "u \<in> calls s"
  shows "idx_of s u \<le> idx_of s v"
  using assms by (auto simp: inv_call_def intro: less_imp_le)

lemma edge_nth: "v < length g \<Longrightarrow> ci < length (g ! v) \<Longrightarrow> (v, g ! v ! ci) \<in> edges g"
  by (simp add: edges_def)

lemma explored_advanced:
  "advanced g s w cs \<Longrightarrow> y \<in> set (explored g (s\<lparr>tj_call := cs\<rparr>) x) \<Longrightarrow>
     y \<in> set (explored g s x) \<or> y = w \<and> cs \<noteq> [] \<and> x = fst (hd cs)"
  by (auto simp: advanced_def explored_def take_Suc_conv_app_nth split: if_splits option.splits)

lemma visit_explored:
  "set (explored g (visit w s) x) = (if x = w then {} else set (explored g s x))"
  by (simp add: explored_def visit_def)

lemma visit_low: "x \<noteq> w \<Longrightarrow> low_of (visit w s) x = low_of s x"
  by (simp add: visit_def)

lemma visit_sets: "on_st (visit w s) = insert w (on_st s)" "calls (visit w s) = insert w (calls s)"
  "tj_out (visit w s) = tj_out s" "tj_call (visit w s) = (w, 0) # tj_call s"
  by (simp_all add: visit_def)

text \<open>What visiting keeps of the old blocks, for the invariants below.\<close>

lemma visit_facts:
  assumes inv: "tj_inv g s" and wf: "graph_wf g" and w: "w < length g" "w \<notin> disc s" and adv: "advanced g s w cs"
  defines "s' \<equiv> visit w (s\<lparr>tj_call := cs\<rparr>)"
  shows "inv_shape g s'" "disc s' = insert w (disc s)" "on_st s' = insert w (on_st s)" "calls s' = insert w (calls s)"
    "idx_of s' w = tj_next s" "low_of s' w = tj_next s" "w \<notin> on_st s" "w \<notin> calls s" "map fst (tj_call s') = w # map fst (tj_call s)"
    "x \<in> on_st s \<Longrightarrow> idx_of s' x = idx_of s x \<and> low_of s' x = low_of s x \<and> idx_of s x < tj_next s"
    "x \<in> calls s \<Longrightarrow> idx_of s' x = idx_of s x \<and> low_of s' x = low_of s x \<and> idx_of s x < tj_next s"
    "calls s \<subseteq> on_st s"
proof -
  let ?s1 = "s\<lparr>tj_call := cs\<rparr>"
  note I = tj_invD [OF inv]
  have sh1: "inv_shape g ?s1" using I(1) by (simp add: shape_call)
  have d1: "disc ?s1 = disc s" by (simp add: disc_def)
  show "inv_shape g s'" unfolding s'_def by (rule visit_shape [OF sh1 wf w(1) w(2) [folded d1]])
  show "disc s' = insert w (disc s)" unfolding s'_def using visit_disc [OF sh1 wf w(1) w(2) [folded d1]] d1 by simp
  have c1: "map fst cs = map fst (tj_call s)" by (rule advanced_fst [OF adv])
  then have "fst ` set cs = calls s" by (metis list.set_map)
  then show "on_st s' = insert w (on_st s)" "calls s' = insert w (calls s)" "map fst (tj_call s') = w # map fst (tj_call s)"
    by (simp_all add: s'_def visit_sets c1)
  show "idx_of s' w = tj_next s" "low_of s' w = tj_next s" unfolding s'_def using visit_idx_new [OF sh1 w(1)] by simp_all
  have old: "idx_of s' x = idx_of s x \<and> low_of s' x = low_of s x \<and> idx_of s x < tj_next s" if "x \<in> on_st s" for x
  proof -
    from that have "x \<in> disc s" by (rule stack_disc [OF I(1)])
    moreover from this w(2) have "x \<noteq> w" by auto
    ultimately show ?thesis using shapeD(5) [OF I(1)] by (simp add: s'_def visit_idx visit_low)
  qed
  show sub: "calls s \<subseteq> on_st s" using I(2) by (simp add: inv_call_def)
  then show "w \<notin> on_st s" "w \<notin> calls s" using w(2) shapeD(6) [OF I(1)] by auto
  show "x \<in> on_st s \<Longrightarrow> idx_of s' x = idx_of s x \<and> low_of s' x = low_of s x \<and> idx_of s x < tj_next s"
    "x \<in> calls s \<Longrightarrow> idx_of s' x = idx_of s x \<and> low_of s' x = low_of s x \<and> idx_of s x < tj_next s"
    using old sub by blast+
qed

lemma visit_call_inv:
  assumes inv: "tj_inv g s" and wf: "graph_wf g" and w: "w < length g" "w \<notin> disc s" and adv: "advanced g s w cs"
  shows "inv_call g (visit w (s\<lparr>tj_call := cs\<rparr>))" (is "inv_call g ?s")
proof -
  note F = visit_facts [OF assms] and C = tj_invD(2) [OF inv]
  have "(u, x) \<in> (edges g)\<^sup>*" if a: "u \<in> calls ?s" "x \<in> on_st ?s" "idx_of ?s u \<le> idx_of ?s x" for u x
  proof -
    consider "u = w" | "u \<in> calls s" "x = w" | "u \<in> calls s" "x \<in> on_st s" "x \<noteq> w"
      using a(1, 2) unfolding F(3, 4) by blast
    then show ?thesis
    proof cases
      case 1
      then have "x = w" using a F(3, 5) F(10) [of x] by auto
      with 1 show ?thesis by simp
    next
      case 2
      then obtain v ci rest where v: "tj_call s = (v, ci) # rest" "ci < length (g ! v)" "g ! v ! ci = w"
        using adv by (auto simp: advanced_def)
      then have on: "v \<in> on_st s" using F(12) by auto
      have "(v, w) \<in> edges g" using edge_nth [of v g ci] v disc_less [OF tj_invD(1) [OF inv] stack_disc [OF tj_invD(1) [OF inv] on]] by simp
      moreover have "(u, v) \<in> (edges g)\<^sup>*" by (rule callD(4) [OF C 2(1) on call_head_max [OF C v(1) 2(1)]])
      ultimately show ?thesis using 2 by simp
    next
      case 3
      then show ?thesis using callD(4) [OF C, of u x] a(3) F(10) [of x] F(11) [of u] by simp
    qed
  qed
  moreover have "sorted_wrt (\<lambda>u v. idx_of ?s v < idx_of ?s u) (map fst (tj_call ?s))"
  proof -
    have "sorted_wrt (\<lambda>u v. idx_of ?s v < idx_of ?s u) (map fst (tj_call s))"
      using C sorted_by_cong [of "map fst (tj_call s)" "idx_of ?s" "idx_of s"] F(11) by (simp add: inv_call_def)
    then show ?thesis unfolding F(9) using F(5, 11) by auto
  qed
  moreover have "\<forall>(v, ci) \<in> set (tj_call ?s). ci \<le> length (g ! v)"
    using C adv by (auto simp: inv_call_def visit_sets advanced_def)
  ultimately show ?thesis unfolding inv_call_def using F(3, 4, 12) by auto
qed

lemma visit_low_inv:
  assumes inv: "tj_inv g s" and wf: "graph_wf g" and w: "w < length g" "w \<notin> disc s" and adv: "advanced g s w cs"
  shows "inv_low g (visit w (s\<lparr>tj_call := cs\<rparr>))" (is "inv_low g ?s")
proof -
  note F = visit_facts [OF assms] and L = tj_invD(3) [OF inv]
  have "low_of ?s v \<le> idx_of ?s v \<and> (\<exists>u \<in> on_st ?s. idx_of ?s u = low_of ?s v \<and> (v, u) \<in> (edges g)\<^sup>*)" if "v \<in> on_st ?s" for v
  proof (cases "v = w")
    case True
    then show ?thesis using F(3, 5, 6) by auto
  next
    case False
    with that F(3) have v: "v \<in> on_st s" by auto
    with L obtain u where u: "low_of s v \<le> idx_of s v" "u \<in> on_st s" "idx_of s u = low_of s v" "(v, u) \<in> (edges g)\<^sup>*"
      unfolding inv_low_def by blast
    with F(10) [OF v] F(10) [OF u(2)] F(3) show ?thesis by auto
  qed
  moreover have "\<forall>v \<in> on_st ?s - calls ?s. low_of ?s v < idx_of ?s v"
    using L F(3, 4, 10) by (auto simp: inv_low_def)
  ultimately show ?thesis by (simp add: inv_low_def)
qed

lemma visit_edge_inv:
  assumes inv: "tj_inv g s" and wf: "graph_wf g" and w: "w < length g" "w \<notin> disc s" and adv: "advanced g s w cs"
  shows "inv_edge g (visit w (s\<lparr>tj_call := cs\<rparr>))" (is "inv_edge g ?s")
proof -
  note F = visit_facts [OF assms] and E = tj_invD(4) [OF inv] and L = tj_invD(3) [OF inv]
  have ex: "y \<in> set (explored g s x) \<or> y = w" "x \<noteq> w" if "y \<in> set (explored g ?s x)" for x y
    using that explored_advanced [OF adv, of y x] by (auto simp: visit_explored split: if_splits)
  have "set (explored g ?s x) \<subseteq> disc ?s" if "x \<in> disc ?s" for x
    using that ex E unfolding F(2) inv_edge_def by blast
  moreover have "low_of ?s c \<le> idx_of ?s y"
    if x: "x \<in> on_st ?s" and y: "y \<in> set (explored g ?s x)" "y \<in> on_st ?s" and o: "owner ?s x c" for x y c
  proof -
    have xs: "x \<in> on_st s" using x ex(2) [OF y(1)] F(3) by auto
    have cw: "c \<noteq> w" using o F(5) F(10) [OF xs] by (auto simp: owner_def)
    then have c: "c \<in> calls s" using o F(4) by (auto simp: owner_def)
    have oc: "owner s x c" using o c F(4, 11) F(10) [OF xs] by (auto simp: owner_def)
    show ?thesis
    proof (cases "y = w")
      case True
      have "low_of s c \<le> idx_of s c" using L c F(12) by (auto simp: inv_low_def)
      then show ?thesis using True F(5) F(11) [OF c] by auto
    next
      case False
      with y F(3) ex [OF y(1)] have "y \<in> set (explored g s x)" "y \<in> on_st s" by auto
      with E xs oc have "low_of s c \<le> idx_of s y" unfolding inv_edge_def by blast
      then show ?thesis using F(10) [OF \<open>y \<in> on_st s\<close>] F(11) [OF c] by simp
    qed
  qed
  ultimately show ?thesis unfolding inv_edge_def by blast
qed

lemma visit_inv:
  assumes inv: "tj_inv g s" and wf: "graph_wf g" and w: "w < length g" "w \<notin> disc s" and adv: "advanced g s w cs"
  shows "tj_inv g (visit w (s\<lparr>tj_call := cs\<rparr>))" (is "tj_inv g ?s")
proof -
  note F = visit_facts [OF assms]
  have "disc ?s - on_st ?s = disc s - on_st s" using F(2, 3) w(2) by auto
  then have "inv_done g ?s" using tj_invD(5) [OF inv] by (simp add: inv_done_def visit_sets)
  with F(1) visit_call_inv [OF assms] visit_low_inv [OF assms] visit_edge_inv [OF assms] show ?thesis by (simp add: tj_inv_def)
qed

section \<open>A block seen before\<close>

definition touching :: "usize list list \<Rightarrow> tarjan \<Rightarrow> usize \<Rightarrow> usize \<Rightarrow> (usize \<times> usize) list \<Rightarrow> usize \<Rightarrow> usize \<Rightarrow> bool" where
  "touching g s v ci rest w m \<longleftrightarrow> tj_inv g s \<and> tj_call s = (v, ci) # rest \<and> ci < length (g ! v) \<and> g ! v ! ci = w \<and>
     w \<in> disc s \<and> m \<le> low_of s v \<and> (w \<in> on_st s \<longrightarrow> m \<le> idx_of s w) \<and> (m = low_of s v \<or> w \<in> on_st s \<and> m = idx_of s w)"

definition touched :: "usize \<Rightarrow> usize \<Rightarrow> (usize \<times> usize) list \<Rightarrow> usize \<Rightarrow> tarjan \<Rightarrow> tarjan" where
  "touched v ci rest m s = s\<lparr>tj_call := (v, ci + 1) # rest, tj_low := (tj_low s)[v := m]\<rparr>"

lemma touched_simps [simp]:
  "tj_index (touched v ci rest m s) = tj_index s" "tj_stack (touched v ci rest m s) = tj_stack s"
  "tj_call (touched v ci rest m s) = (v, ci + 1) # rest" "tj_out (touched v ci rest m s) = tj_out s"
  "disc (touched v ci rest m s) = disc s"
  by (simp_all add: touched_def disc_def)

lemma touchingD:
  assumes "touching g s v ci rest w m"
  shows "v \<in> calls s" "v \<in> on_st s" "v < length g" "(v, w) \<in> edges g" "calls (touched v ci rest m s) = calls s"
    "low_of (touched v ci rest m s) x = (if x = v then m else low_of s x)" "low_of (touched v ci rest m s) x \<le> low_of s x"
proof -
  note I = tj_invD [of g s]
  have T: "tj_inv g s" "tj_call s = (v, ci) # rest" "ci < length (g ! v)" "g ! v ! ci = w" "m \<le> low_of s v"
    using assms by (simp_all add: touching_def)
  show v: "v \<in> calls s" "v \<in> on_st s" using T callD(1) [OF I(2) [OF T(1)]] by auto
  show vg: "v < length g" by (rule disc_less [OF I(1) [OF T(1)] stack_disc [OF I(1) [OF T(1)] v(2)]])
  show "(v, w) \<in> edges g" using edge_nth [OF vg T(3)] T(4) by simp
  show "calls (touched v ci rest m s) = calls s" using T(2) by simp
  show low: "low_of (touched v ci rest m s) x = (if x = v then m else low_of s x)"
    using vg shapeD(2) [OF I(1) [OF T(1)]] by (simp add: touched_def nth_list_update)
  then show "low_of (touched v ci rest m s) x \<le> low_of s x" using T(5) by simp
qed

lemma touched_low:
  assumes t: "touching g s v ci rest w m"
  shows "inv_low g (touched v ci rest m s)" (is "inv_low g ?s")
proof -
  note D = touchingD [OF t] and L = tj_invD(3) [of g s]
  have T: "inv_low g s" "m \<le> low_of s v" "m = low_of s v \<or> w \<in> on_st s \<and> m = idx_of s w" using t L by (simp_all add: touching_def)
  have "low_of ?s x \<le> idx_of s x \<and> (\<exists>u \<in> on_st s. idx_of s u = low_of ?s x \<and> (x, u) \<in> (edges g)\<^sup>*)" if "x \<in> on_st s" for x
  proof (cases "x = v \<and> m \<noteq> low_of s v")
    case True
    then have "w \<in> on_st s" "m = idx_of s w" using T(3) by auto
    moreover have "m \<le> idx_of s v" using T(1, 2) D(2) by (auto simp: inv_low_def intro: order_trans)
    ultimately show ?thesis using True D(4) D(6) [of x] by auto
  next
    case False
    then have "low_of ?s x = low_of s x" unfolding D(6) by auto
    with that T(1) show ?thesis unfolding inv_low_def by metis
  qed
  moreover have "\<forall>x \<in> on_st s - calls s. low_of ?s x < idx_of s x"
    using T(1) D(1) unfolding inv_low_def by (metis Diff_iff D(6))
  ultimately show ?thesis unfolding inv_low_def D(5) by simp
qed

lemma touched_edge:
  assumes t: "touching g s v ci rest w m"
  shows "inv_edge g (touched v ci rest m s)" (is "inv_edge g ?s")
proof -
  note D = touchingD [OF t]
  have T: "tj_inv g s" "w \<in> disc s" "w \<in> on_st s \<longrightarrow> m \<le> idx_of s w" "advanced g s w ((v, ci + 1) # rest)"
    using t by (simp_all add: touching_def advanced_def)
  note I = tj_invD [OF T(1)]
  have ex: "y \<in> set (explored g s x) \<or> y = w \<and> x = v" if "y \<in> set (explored g ?s x)" for x y
    using explored_advanced [OF T(4), of y x] that by (simp add: explored_def)
  have ow: "owner ?s = owner s" unfolding owner_def D(5) by simp
  have "low_of ?s u \<le> idx_of s y" if "x \<in> on_st s" "y \<in> set (explored g ?s x)" "y \<in> on_st s" "owner s x u" for x y u
  proof (cases "y \<in> set (explored g s x)")
    case True
    with that I(4) have "low_of s u \<le> idx_of s y" unfolding inv_edge_def by blast
    with D(7) [of u] show ?thesis by (rule order_trans)
  next
    case False
    with ex [OF that(2)] have "y = w" "x = v" by auto
    with that(4) D(1) have "idx_of s u = idx_of s v" "u \<in> on_st s" using callD(1) [OF I(2)] by (auto simp: owner_def)
    then have "u = v" using idx_eq [OF I(1)] stack_disc [OF I(1)] D(2) by blast
    with T(3) that(3) \<open>y = w\<close> show ?thesis unfolding D(6) by simp
  qed
  moreover have "set (explored g ?s x) \<subseteq> disc s" if "x \<in> disc s" for x
    using that ex T(2) I(4) unfolding inv_edge_def by blast
  ultimately show ?thesis unfolding inv_edge_def ow touched_simps by blast
qed

lemma touched_inv:
  assumes t: "touching g s v ci rest w m"
  shows "tj_inv g (touched v ci rest m s)" (is "tj_inv g ?s")
proof -
  have T: "tj_inv g s" "tj_call s = (v, ci) # rest" "ci < length (g ! v)" using t by (simp_all add: touching_def)
  note I = tj_invD [OF T(1)]
  have "inv_shape g ?s" unfolding touched_def using I(1) by (simp only: shape_low)
  moreover have "inv_call g ?s" using I(2) T(2, 3) unfolding inv_call_def by auto
  moreover have "inv_done g ?s" using I(5) unfolding inv_done_def by simp
  ultimately show ?thesis using touched_low [OF t] touched_edge [OF t] by (simp add: tj_inv_def)
qed

section \<open>A finished block\<close>

text \<open>The state after a block's last successor, before its component is popped.\<close>

definition returned :: "usize \<Rightarrow> (usize \<times> usize) list \<Rightarrow> tarjan \<Rightarrow> tarjan" where
  "returned v rest s = propagate v (s\<lparr>tj_call := rest\<rparr>)"

lemma returned_simps [simp]:
  "tj_index (returned v rest s) = tj_index s" "tj_stack (returned v rest s) = tj_stack s" "tj_call (returned v rest s) = rest"
  "tj_on_stack (returned v rest s) = tj_on_stack s" "tj_next (returned v rest s) = tj_next s" "tj_out (returned v rest s) = tj_out s"
  by (simp_all add: returned_def propagate_def split: list.split)

lemma returned_disc [simp]: "disc (returned v rest s) = disc s"
  by (simp add: disc_def)

definition leaving :: "usize list list \<Rightarrow> tarjan \<Rightarrow> usize \<Rightarrow> (usize \<times> usize) list \<Rightarrow> bool" where
  "leaving g s v rest \<longleftrightarrow> tj_inv g s \<and> tj_call s = (v, length (g ! v)) # rest"

lemma leavingD:
  assumes "leaving g s v rest"
  shows "tj_inv g s" "v \<in> calls s" "v \<in> on_st s" "calls s = insert v (fst ` set rest)" "v < length g"
    "u \<in> fst ` set rest \<Longrightarrow> idx_of s u < idx_of s v" "v \<notin> fst ` set rest"
proof -
  show inv: "tj_inv g s" using assms by (simp add: leaving_def)
  note I = tj_invD [OF inv]
  show c: "v \<in> calls s" "calls s = insert v (fst ` set rest)" using assms by (auto simp: leaving_def)
  show on: "v \<in> on_st s" using c(1) callD(1) [OF I(2)] by blast
  show "v < length g" by (rule disc_less [OF I(1) stack_disc [OF I(1) on]])
  show lt: "idx_of s u < idx_of s v" if "u \<in> fst ` set rest" for u
    using that callD(2) [OF I(2)] assms by (auto simp: leaving_def)
  then show "v \<notin> fst ` set rest" by blast
qed

lemma returned_low:
  assumes "leaving g s v rest"
  shows "low_of (returned v rest s) x \<le> low_of s x" "low_of (returned v rest s) v = low_of s v"
    "rest \<noteq> [] \<Longrightarrow> low_of (returned v rest s) (fst (hd rest)) = min (low_of s (fst (hd rest))) (low_of s v)"
    "rest = [] \<or> x \<noteq> fst (hd rest) \<Longrightarrow> low_of (returned v rest s) x = low_of s x"
proof -
  note D = leavingD [OF assms] and I = tj_invD [OF leavingD(1) [OF assms]]
  have p: "fst (hd rest) < length (tj_low s)" "fst (hd rest) \<noteq> v" if "rest \<noteq> []"
  proof -
    from that have h: "fst (hd rest) \<in> fst ` set rest" by simp
    with D(7) show "fst (hd rest) \<noteq> v" by auto
    from h D(4) have "fst (hd rest) \<in> on_st s" using callD(1) [OF I(2)] by blast
    then show "fst (hd rest) < length (tj_low s)" using disc_less [OF I(1) stack_disc [OF I(1)]] shapeD(2) [OF I(1)] by simp
  qed
  show "low_of (returned v rest s) x \<le> low_of s x" "low_of (returned v rest s) v = low_of s v"
    "rest = [] \<or> x \<noteq> fst (hd rest) \<Longrightarrow> low_of (returned v rest s) x = low_of s x"
    using p by (auto simp: returned_def propagate_def nth_list_update split: list.split)
  show "rest \<noteq> [] \<Longrightarrow> low_of (returned v rest s) (fst (hd rest)) = min (low_of s (fst (hd rest))) (low_of s v)"
    using p by (cases rest) (auto simp: returned_def propagate_def)
qed

lemma returned_shape:
  assumes "leaving g s v rest"
  shows "inv_shape g (returned v rest s)"
  using tj_invD(1) [OF leavingD(1) [OF assms]] shape_call [where g = g and s = s and cs = rest]
  by (auto simp: returned_def propagate_def shape_low split: list.split)

lemma returned_explored:
  assumes "leaving g s v rest"
  shows "set (explored g (returned v rest s) x) = set (explored g s x)"
proof -
  have "map_of rest v = None" using leavingD(7) [OF assms] by (simp add: map_of_eq_None_iff)
  then show ?thesis using assms by (auto simp: explored_def leaving_def)
qed

lemma returned_call:
  assumes "leaving g s v rest"
  shows "inv_call g (returned v rest s)"
  using tj_invD(2) [OF leavingD(1) [OF assms]] assms unfolding inv_call_def by (auto simp: leaving_def)

lemma returned_low_inv:
  assumes lv: "leaving g s v rest" and low: "low_of s v < idx_of s v"
  shows "inv_low g (returned v rest s)" (is "inv_low g ?s")
proof -
  note D = leavingD [OF lv] and I = tj_invD [OF leavingD(1) [OF lv]] and R = returned_low [OF lv]
  have old: "\<exists>u \<in> on_st s. idx_of s u = low_of s x \<and> (x, u) \<in> (edges g)\<^sup>*" "low_of s x \<le> idx_of s x" if "x \<in> on_st s" for x
    using that I(3) unfolding inv_low_def by blast+
  have "\<exists>u \<in> on_st s. idx_of s u = low_of ?s x \<and> (x, u) \<in> (edges g)\<^sup>*" if x: "x \<in> on_st s" for x
  proof (cases "low_of ?s x = low_of s x")
    case True
    then show ?thesis using old(1) [OF x] by simp
  next
    case False
    then have h: "rest \<noteq> []" "x = fst (hd rest)" using R(4) by blast+
    with False R(3) have lx: "low_of ?s x = low_of s v" by (auto simp: min_def split: if_splits)
    have "x \<in> calls s" "idx_of s x \<le> idx_of s v" using h D(4) D(6) [of x] by (auto intro: less_imp_le)
    then have "(x, v) \<in> (edges g)\<^sup>*" using callD(4) [OF I(2)] D(3) by blast
    with old(1) [OF D(3)] lx show ?thesis by (metis rtrancl_trans)
  qed
  moreover have "low_of ?s x \<le> idx_of s x" if "x \<in> on_st s" for x
    using R(1) [of x] old(2) [OF that] by (rule order_trans)
  moreover have "low_of ?s x < idx_of s x" if "x \<in> on_st s" "x \<notin> fst ` set rest" for x
  proof (cases "x = v")
    case False
    with that D(4) have "low_of s x < idx_of s x" using I(3) unfolding inv_low_def by blast
    with R(1) [of x] show ?thesis by (rule le_less_trans)
  qed (use low R(2) in simp)
  ultimately show ?thesis unfolding inv_low_def by simp
qed

lemma returned_owner:
  assumes lv: "leaving g s v rest" and o: "owner (returned v rest s) x c"
  shows "owner s x c \<and> idx_of s x < idx_of s v \<or> owner s x v \<and> rest \<noteq> [] \<and> c = fst (hd rest)"
proof -
  note D = leavingD [OF lv] and I = tj_invD [OF leavingD(1) [OF lv]]
  from o have c: "c \<in> fst ` set rest" "idx_of s c \<le> idx_of s x"
    and mx: "\<And>d. d \<in> fst ` set rest \<Longrightarrow> idx_of s d \<le> idx_of s x \<Longrightarrow> idx_of s d \<le> idx_of s c"
    by (auto simp: owner_def)
  show ?thesis
  proof (cases "idx_of s v \<le> idx_of s x")
    case False
    then have "owner s x c" using c mx D(4) by (auto simp: owner_def)
    with False show ?thesis by simp
  next
    case True
    then have "owner s x v" using D(2, 4) D(6) by (auto simp: owner_def intro: less_imp_le)
    moreover obtain p k rest' where r: "rest = (p, k) # rest'" using c(1) by (cases rest) auto
    moreover have "c = p"
    proof -
      have "idx_of s p \<le> idx_of s x" using D(6) [of p] r True by simp
      then have "idx_of s p \<le> idx_of s c" using mx r by simp
      moreover have "\<forall>d \<in> fst ` set rest'. idx_of s d < idx_of s p"
        using callD(2) [OF I(2)] lv r by (auto simp: leaving_def)
      ultimately show ?thesis using c(1) r by (metis fst_conv image_insert insertE leD list.simps(15))
    qed
    ultimately show ?thesis by simp
  qed
qed

lemma returned_edge:
  assumes lv: "leaving g s v rest"
  shows "inv_edge g (returned v rest s)" (is "inv_edge g ?s")
proof -
  note I = tj_invD [OF leavingD(1) [OF lv]] and R = returned_low [OF lv]
  have "low_of ?s c \<le> idx_of s y" if a: "x \<in> on_st s" "y \<in> set (explored g s x)" "y \<in> on_st s" "owner ?s x c" for x y c
  proof -
    have old: "low_of s d \<le> idx_of s y" if "owner s x d" for d
      using that a I(4) unfolding inv_edge_def by blast
    from returned_owner [OF lv a(4)] show ?thesis
    proof (elim disjE conjE)
      assume "owner s x c"
      from R(1) [of c] old [OF this] show ?thesis by (rule order_trans)
    next
      assume "owner s x v" "rest \<noteq> []" "c = fst (hd rest)"
      with R(3) old [of v] show ?thesis by simp
    qed
  qed
  then show ?thesis using I(4) unfolding inv_edge_def returned_explored [OF lv] by simp
qed

lemma returned_done: "leaving g s v rest \<Longrightarrow> inv_done g (returned v rest s)"
  using tj_invD(5) [OF leavingD(1)] unfolding inv_done_def by simp

lemma returned_inv: "leaving g s v rest \<Longrightarrow> low_of s v < idx_of s v \<Longrightarrow> tj_inv g (returned v rest s)"
  by (simp add: tj_inv_def returned_shape returned_call returned_low_inv returned_edge returned_done)

section \<open>A finished component\<close>

lemma pop_until_split: "v \<notin> set a \<Longrightarrow> pop_until v (a @ v # b) = (a @ [v], b)"
  by (induction a) auto

lemma length_foldl_clear: "length (foldl (\<lambda>os w. os[w := False]) os ws) = length os"
  by (induction ws arbitrary: os) simp_all

lemma foldl_clear: "x < length os \<Longrightarrow> foldl (\<lambda>os w. os[w := False]) os ws ! x = (os ! x \<and> x \<notin> set ws)"
proof (induction ws arbitrary: os)
  case (Cons w ws)
  then show ?case by (cases "x = w") simp_all
qed simp

definition closing :: "usize list list \<Rightarrow> tarjan \<Rightarrow> usize \<Rightarrow> (usize \<times> usize) list \<Rightarrow> usize list \<Rightarrow> usize list \<Rightarrow> bool" where
  "closing g s v rest a b \<longleftrightarrow> leaving g s v rest \<and> low_of s v = idx_of s v \<and> tj_stack s = a @ v # b \<and> v \<notin> set a"

lemma closing_exists:
  assumes "leaving g s v rest" "low_of s v = idx_of s v"
  obtains a b where "closing g s v rest a b"
proof -
  from split_list_first [OF leavingD(3) [OF assms(1)]] obtain a b where "tj_stack s = a @ v # b" "v \<notin> set a" by blast
  with assms that show ?thesis by (simp add: closing_def)
qed

lemma closingD:
  assumes "closing g s v rest a b"
  shows "leaving g s v rest" "set b = {x \<in> on_st s. idx_of s x < idx_of s v}"
    "set (a @ [v]) = {x \<in> on_st s. idx_of s v \<le> idx_of s x}" "tj_low (returned v rest s) = tj_low s"
    "pop_until v (tj_stack s) = (a @ [v], b)"
proof -
  show lv: "leaving g s v rest" using assms by (simp add: closing_def)
  note D = leavingD [OF lv] and I = tj_invD [OF leavingD(1) [OF lv]]
  have st: "tj_stack s = a @ v # b" using assms by (simp add: closing_def)
  have "(\<forall>x \<in> set a. idx_of s v < idx_of s x) \<and> (\<forall>x \<in> set b. idx_of s x < idx_of s v)"
    using shapeD(7) [OF I(1)] by (simp add: st sorted_wrt_append)
  then show "set b = {x \<in> on_st s. idx_of s x < idx_of s v}" "set (a @ [v]) = {x \<in> on_st s. idx_of s v \<le> idx_of s x}"
    by (auto simp: st)
  show "pop_until v (tj_stack s) = (a @ [v], b)" using assms pop_until_split by (simp add: closing_def)
  show "tj_low (returned v rest s) = tj_low s"
  proof (cases rest)
    case (Cons pk rest')
    obtain p k where pk: "pk = (p, k)" by (cases pk)
    have "p \<in> calls s" "idx_of s p < idx_of s v" using Cons pk D(4) D(6) [of p] by auto
    then have "low_of s p \<le> low_of s v" using I(3) callD(1) [OF I(2)] assms unfolding inv_low_def closing_def
      by (metis less_imp_le order_trans subsetD)
    with Cons pk show ?thesis by (simp add: returned_def propagate_def min_def)
  qed (simp add: returned_def propagate_def)
qed

text \<open>No edge leaves the popped blocks except into finished components.\<close>

lemma closing_edge:
  assumes cl: "closing g s v rest a b" and x: "x \<in> set (a @ [v])" and y: "y \<in> set (g ! x)"
  shows "y \<in> set (a @ [v]) \<or> y \<in> disc s - on_st s"
proof -
  note C = closingD [OF cl]
  note lv = C(1)
  note D = leavingD [OF lv] and I = tj_invD [OF leavingD(1) [OF lv]]
  from x have xs: "x \<in> on_st s" "idx_of s v \<le> idx_of s x" using C(3) by auto
  have "x \<notin> fst ` set rest" using D(6) [of x] xs(2) by auto
  then have ex: "explored g s x = g ! x"
    using lv by (auto simp: explored_def leaving_def split: option.splits dest!: map_of_SomeD) force
  with y have y: "y \<in> set (explored g s x)" by simp
  have yd: "y \<in> disc s" using y I(4) stack_disc [OF I(1) xs(1)] unfolding inv_edge_def by blast
  moreover have "idx_of s v \<le> idx_of s y" if "y \<in> on_st s"
  proof -
    have "owner s x v" using D(2, 4) D(6) xs(2) by (auto simp: owner_def intro: less_imp_le)
    then have "low_of s v \<le> idx_of s y" using I(4) y xs(1) that unfolding inv_edge_def by blast
    then show ?thesis using cl by (simp add: closing_def)
  qed
  ultimately show ?thesis using C(3) by auto
qed

lemma closing_scc:
  assumes cl: "closing g s v rest a b"
  shows "set (a @ [v]) = scc_of g v"
proof -
  note C = closingD [OF cl]
  note D = leavingD [OF C(1)] and I = tj_invD [OF leavingD(1) [OF C(1)]]
  show ?thesis
  proof (intro equalityI subsetI)
    fix x assume "x \<in> set (a @ [v])"
    then have x: "x \<in> on_st s" "idx_of s v \<le> idx_of s x" using C(3) by auto
    from reach_call [OF D(1) x(1)] obtain u where u: "u \<in> calls s" "(x, u) \<in> (edges g)\<^sup>*" by blast
    then have "idx_of s u \<le> idx_of s v" using D(4) D(6) by (auto intro: less_imp_le)
    then have "(u, v) \<in> (edges g)\<^sup>*" using callD(4) [OF I(2) u(1) D(3)] by simp
    moreover have "(v, x) \<in> (edges g)\<^sup>*" using callD(4) [OF I(2) D(2) x] by simp
    ultimately show "x \<in> scc_of g v" using u(2) by (auto simp: scc_of_def intro: rtrancl_trans)
  next
    fix y assume y: "y \<in> scc_of g v"
    have fin: "z \<in> disc s - on_st s" if "(x, z) \<in> (edges g)\<^sup>*" "x \<in> disc s - on_st s" for x z
      using that I(5) unfolding inv_done_def edges_def by (induction rule: rtrancl_induct) blast+
    have reach: "z \<in> set (a @ [v]) \<or> z \<in> disc s - on_st s" if "(v, z) \<in> (edges g)\<^sup>*" for z
      using that
    proof (induction rule: rtrancl_induct)
      case (step x z)
      then show ?case
      proof (elim disjE)
        assume "x \<in> set (a @ [v])"
        then show ?thesis using closing_edge [OF cl, of x z] step.hyps(2) by (simp add: edges_def)
      next
        assume "x \<in> disc s - on_st s"
        then show ?thesis using fin [of x z] step.hyps(2) by blast
      qed
    qed simp
    from y have "(v, y) \<in> (edges g)\<^sup>*" "(y, v) \<in> (edges g)\<^sup>*" by (auto simp: scc_of_def)
    with reach [of y] fin [of y v] D(3) show "y \<in> set (a @ [v])" by blast
  qed
qed

definition closed :: "usize \<Rightarrow> (usize \<times> usize) list \<Rightarrow> usize list \<Rightarrow> usize list \<Rightarrow> tarjan \<Rightarrow> tarjan" where
  "closed v rest a b s = s\<lparr>tj_call := rest, tj_stack := b,
     tj_on_stack := foldl (\<lambda>os w. os[w := False]) (tj_on_stack s) (a @ [v]), tj_out := tj_out s @ [a @ [v]]\<rparr>"

lemma closed_pop:
  assumes cl: "closing g s v rest a b"
  shows "pop_scc v (returned v rest s) = closed v rest a b s"
proof -
  note C = closingD [OF cl]
  have "returned v rest s = s\<lparr>tj_call := rest\<rparr>"
    using C(4) by (auto intro!: tarjan.equality)
  then show ?thesis using C(5) by (simp add: pop_scc_def closed_def)
qed

lemma closed_simps [simp]:
  "tj_index (closed v rest a b s) = tj_index s" "tj_low (closed v rest a b s) = tj_low s" "tj_stack (closed v rest a b s) = b"
  "tj_call (closed v rest a b s) = rest" "tj_next (closed v rest a b s) = tj_next s"
  "tj_out (closed v rest a b s) = tj_out s @ [a @ [v]]" "disc (closed v rest a b s) = disc s"
  by (simp_all add: closed_def disc_def)

lemma closed_shape:
  assumes cl: "closing g s v rest a b"
  shows "inv_shape g (closed v rest a b s)"
proof -
  note C = closingD [OF cl] and I = tj_invD(1) [OF leavingD(1) [OF closingD(1) [OF cl]]]
  have os: "tj_on_stack (closed v rest a b s) = foldl (\<lambda>os w. os[w := False]) (tj_on_stack s) (a @ [v])"
    by (simp add: closed_def)
  have "tj_on_stack (closed v rest a b s) ! x \<longleftrightarrow> x \<in> set b" if "x < length g" for x
    unfolding os using that C(2, 3) shapeD(8) [OF I that] shapeD(3) [OF I] by (subst foldl_clear) auto
  moreover have "sorted_wrt (\<lambda>u v. idx_of s v < idx_of s u) b"
    using shapeD(7) [OF I] cl by (simp add: closing_def sorted_wrt_append)
  moreover have "set b \<subseteq> disc s" using C(2) shapeD(6) [OF I] by auto
  moreover have "length (tj_on_stack (closed v rest a b s)) = length g" unfolding os length_foldl_clear using shapeD(3) [OF I] .
  ultimately show ?thesis using I unfolding inv_shape_def closed_simps by blast
qed

lemma closing_sets:
  assumes cl: "closing g s v rest a b"
  shows "fst ` set rest \<subseteq> set b" "set b \<subseteq> on_st s" "disc s - set b = (disc s - on_st s) \<union> set (a @ [v])"
proof -
  note C = closingD [OF cl]
  note D = leavingD [OF C(1)] and I = tj_invD [OF leavingD(1) [OF C(1)]]
  show "fst ` set rest \<subseteq> set b" using C(2) D(4, 6) callD(1) [OF I(2)] by auto
  show "set b \<subseteq> on_st s" using C(2) by auto
  show "disc s - set b = (disc s - on_st s) \<union> set (a @ [v])" using C(2, 3) shapeD(6) [OF I(1)] by auto
qed

lemma closed_low:
  assumes cl: "closing g s v rest a b"
  shows "inv_low g (closed v rest a b s)"
proof -
  note C = closingD [OF cl] and S = closing_sets [OF cl]
  note D = leavingD [OF C(1)] and I = tj_invD [OF leavingD(1) [OF C(1)]]
  have "\<exists>w \<in> set b. idx_of s w = low_of s x \<and> (x, w) \<in> (edges g)\<^sup>*" if "x \<in> set b" for x
  proof -
    from that C(2) have x: "x \<in> on_st s" "idx_of s x < idx_of s v" by auto
    with I(3) obtain w where w: "w \<in> on_st s" "idx_of s w = low_of s x" "(x, w) \<in> (edges g)\<^sup>*" "low_of s x \<le> idx_of s x"
      unfolding inv_low_def by blast
    with x C(2) show ?thesis by auto
  qed
  moreover have "set b - fst ` set rest \<subseteq> on_st s - calls s" using C(2) D(4) by auto
  ultimately show ?thesis using I(3) S(2) unfolding inv_low_def by auto
qed

lemma closed_edge:
  assumes cl: "closing g s v rest a b"
  shows "inv_edge g (closed v rest a b s)" (is "inv_edge g ?s")
proof -
  note C = closingD [OF cl]
  note D = leavingD [OF C(1)] and I = tj_invD [OF leavingD(1) [OF C(1)]]
  have ex: "set (explored g ?s x) = set (explored g s x)" for x
    using returned_explored [OF C(1), of x] by (simp add: explored_def)
  have "owner s x c" if "x \<in> set b" "owner ?s x c" for x c
    using that C(2) D(4) by (auto simp: owner_def)
  then show ?thesis using I(4) closing_sets(2) [OF cl] unfolding inv_edge_def ex closed_simps by blast
qed

lemma closed_done:
  assumes cl: "closing g s v rest a b"
  shows "inv_done g (closed v rest a b s)"
proof -
  note C = closingD [OF cl] and part = closing_sets(3) [OF cl]
  note I = tj_invD [OF leavingD(1) [OF C(1)]]
  have "set (g ! x) \<subseteq> disc s - set b" if "x \<in> disc s - set b" for x
    using that I(5) closing_edge [OF cl, of x] unfolding inv_done_def part by blast
  moreover have "distinct (concat (tj_out s) @ a @ [v])"
  proof -
    have "set (concat (tj_out s)) \<inter> set (a @ [v]) = {}" using I(5) C(3) unfolding inv_done_def by auto
    moreover have "distinct (a @ [v])" using stack_distinct [OF I(1)] cl by (simp add: closing_def)
    ultimately show ?thesis using I(5) unfolding inv_done_def by (simp only: distinct_append)
  qed
  moreover have "\<exists>x \<in> set (a @ [v]). set (a @ [v]) = scc_of g x" using closing_scc [OF cl] by auto
  ultimately show ?thesis using I(5) part unfolding inv_done_def by auto
qed

lemma closed_inv:
  assumes cl: "closing g s v rest a b"
  shows "tj_inv g (closed v rest a b s)"
proof -
  have "inv_call g (closed v rest a b s)"
    unfolding inv_call_def closed_simps
    using callD(2-4) [OF returned_call [OF closingD(1) [OF cl]], unfolded returned_simps] closing_sets(1, 2) [OF cl] by blast
  then show ?thesis
    using closed_shape [OF cl] closed_low [OF cl] closed_edge [OF cl] closed_done [OF cl] by (simp add: tj_inv_def)
qed

section \<open>The loop\<close>

definition work :: "usize list list \<Rightarrow> tarjan \<Rightarrow> nat \<times> nat" where
  "work g s = (length g - card (disc s), sum_list (map (\<lambda>(v, ci). Suc (length (g ! v) - ci)) (tj_call s)))"

lemma finish_inv:
  assumes "leaving g s v rest"
  shows "tj_inv g (finish v s) \<and> disc (finish v s) = disc s \<and> tj_call (finish v s) = rest"
proof -
  note D = leavingD [OF assms] and I = tj_invD [OF leavingD(1) [OF assms]]
  have tl: "tl (tj_call s) = rest" using assms by (simp add: leaving_def)
  have f: "finish v s = (if low_of s v = idx_of s v then pop_scc v (returned v rest s) else returned v rest s)"
    by (simp add: finish_def tl returned_def [symmetric] returned_low(2) [OF assms])
  show ?thesis
  proof (cases "low_of s v = idx_of s v")
    case True
    obtain a b where cl: "closing g s v rest a b" by (rule closing_exists [OF assms True])
    then show ?thesis using True f closed_pop [OF cl] closed_inv [OF cl] by simp
  next
    case False
    with I(3) D(3) have "low_of s v < idx_of s v" unfolding inv_low_def by (metis le_neq_implies_less)
    with False f returned_inv [OF assms] show ?thesis by simp
  qed
qed

lemma tarjan_step_ok:
  assumes inv: "tj_inv g s" and wf: "graph_wf g" and c: "tj_call s = (v, ci) # rest"
  shows "\<exists>s'. tarjan_step g (v, ci) rest s = Some s' \<and> tj_inv g s' \<and> disc s \<subseteq> disc s' \<and> work g s' < work g s"
proof -
  note I = tj_invD [OF inv]
  have v: "v < length g" using callD(1) [OF I(2)] c disc_less [OF I(1) stack_disc [OF I(1)]] by auto
  have ci: "ci \<le> length (g ! v)" using callD(3) [OF I(2)] c by simp
  show ?thesis
  proof (cases "ci < length (g ! v)")
    case False
    then have lv: "leaving g s v rest" using inv c ci by (simp add: leaving_def)
    then show ?thesis using finish_inv [OF lv] False v c by (simp add: tarjan_step_def work_def)
  next
    case True
    let ?w = "g ! v ! ci"
    have w: "?w < length g" using wf nth_mem [OF v] nth_mem [OF True] unfolding graph_wf_def by blast
    then have st: "tarjan_step g (v, ci) rest s = Some (next_succ v ci ?w rest s)"
      using True v shapeD(1) [OF I(1)] by (simp add: tarjan_step_def)
    show ?thesis
    proof (cases "?w \<in> disc s")
      case False
      have "advanced g s ?w ((v, Suc ci) # rest)" using c True by (simp add: advanced_def)
      note V = visit_inv [OF inv wf w False this] visit_facts(2) [OF inv wf w False this]
      have "card (insert ?w (disc s)) \<le> card {..<length g}"
        using disc_less [OF I(1)] w by (intro card_mono) auto
      then have "card (disc s) < length g" using False by simp
      then have "length g - card (insert ?w (disc s)) < length g - card (disc s)" using False by simp
      with V have "work g (visit ?w (s\<lparr>tj_call := (v, Suc ci) # rest\<rparr>)) < work g s" by (simp add: work_def)
      moreover have "next_succ v ci ?w rest s = visit ?w (s\<lparr>tj_call := (v, Suc ci) # rest\<rparr>)"
        using False w shapeD(1) [OF I(1)] by (simp add: next_succ_def disc_def)
      ultimately show ?thesis using st V by auto
    next
      case True
      then have ws: "idx_of s ?w \<noteq> UNSEEN" "tj_on_stack s ! ?w \<longleftrightarrow> ?w \<in> on_st s" using shapeD(8) [OF I(1) w] by (auto simp: disc_def)
      define m where "m = (if ?w \<in> on_st s then min (low_of s v) (idx_of s ?w) else low_of s v)"
      have "next_succ v ci ?w rest s = touched v ci rest m s" using ws by (simp add: next_succ_def touched_def m_def)
      moreover have "tj_inv g (touched v ci rest m s)"
        using inv c \<open>ci < length (g ! v)\<close> True by (intro touched_inv [where w = ?w]) (simp add: touching_def m_def min_def)
      moreover have "work g (touched v ci rest m s) < work g s" using c \<open>ci < length (g ! v)\<close> by (simp add: work_def)
      ultimately show ?thesis using st by auto
    qed
  qed
qed

lemma tarjan_while_ok:
  assumes "tj_inv g s" "graph_wf g"
  shows "\<exists>s'. tarjan_while g s = Some (Inr s') \<and> tj_inv g s' \<and> disc s \<subseteq> disc s' \<and> tj_call s' = []"
  using assms(1)
proof (induction "work g s" arbitrary: s rule: less_induct)
  case less
  show ?case
  proof (cases "tj_call s")
    case Nil
    with less.prems show ?thesis by (subst tarjan_while.simps) auto
  next
    case (Cons x rest)
    obtain v ci where x: "x = (v, ci)" by (cases x)
    from tarjan_step_ok [OF less.prems assms(2) Cons [unfolded x]] obtain s' where
      s': "tarjan_step g x rest s = Some s'" "tj_inv g s'" "disc s \<subseteq> disc s'" "work g s' < work g s" unfolding x by blast
    from less.hyps [OF s'(4, 2)] s'(3) Cons s'(1) show ?thesis by (subst tarjan_while.simps) auto
  qed
qed

lemma tarjan_init_inv: "tj_inv g (tarjan_init (length g))"
proof -
  have "disc (tarjan_init (length g)) = {}" by (auto simp: disc_def tarjan_init_def)
  then show ?thesis
    by (simp add: tj_inv_def inv_shape_def inv_call_def inv_low_def inv_edge_def inv_done_def)
      (simp add: tarjan_init_def)
qed

lemma tarjan_from_ok:
  assumes "graph_wf g" "tj_inv g s" "tj_call s = []" "set starts \<subseteq> {..<length g}"
  shows "\<exists>s'. tarjan_from g starts s = Some (Inr s') \<and> tj_inv g s' \<and> tj_call s' = [] \<and> disc s \<union> set starts \<subseteq> disc s'"
  using assms(2-4)
proof (induction starts arbitrary: s)
  case (Cons x starts)
  have x: "x < length (tj_index s)" using Cons.prems shapeD(1) [OF tj_invD(1) [OF Cons.prems(1)]] by simp
  show ?case
  proof (cases "x \<in> disc s")
    case True
    then have "idx_of s x \<noteq> UNSEEN" by (simp add: disc_def)
    with True Cons.IH [OF Cons.prems(1, 2)] Cons.prems(3) show ?thesis by auto
  next
    case False
    have a: "advanced g s x []" using Cons.prems(2) by (simp add: advanced_def)
    have s: "s\<lparr>tj_call := []\<rparr> = s" using Cons.prems(2) by simp
    have "x < length g" using Cons.prems(3) by simp
    note V = visit_inv [OF Cons.prems(1) assms(1) this False a, unfolded s] visit_facts(2) [OF Cons.prems(1) assms(1) this False a, unfolded s]
    from tarjan_while_ok [OF V(1) assms(1)] obtain s' where s': "tarjan_while g (visit x s) = Some (Inr s')" "tj_inv g s'"
      "disc (visit x s) \<subseteq> disc s'" "tj_call s' = []" by blast
    have "idx_of s x = UNSEEN" using False x by (simp add: disc_def)
    with Cons.IH [OF s'(2, 4)] Cons.prems(3) s'(1, 3) V(2) show ?thesis by simp blast
  qed
qed simp

lemma set_sort_by_len [simp]: "set (sort_by_len xs) = set xs"
  by (simp add: sort_by_len_def)

lemma distinct_concat_perm: "mset xs = mset ys \<Longrightarrow> distinct (concat xs) = distinct (concat ys)"
proof -
  have "mset (concat zs) = \<Sum>\<^sub># (image_mset mset (mset zs))" for zs :: "'a list list"
    by (induction zs) simp_all
  then show "mset xs = mset ys \<Longrightarrow> distinct (concat xs) = distinct (concat ys)"
    by (metis mset_eq_imp_distinct_iff)
qed

lemma tarjan_ok:
  assumes "cfg_wf idx"
  shows "\<exists>sccs. tarjan_sccs idx = Some (Inr sccs) \<and> distinct (concat sccs) \<and>
     set (concat sccs) = {..<length (cx_block_eas idx)} \<and> sorted_wrt (\<lambda>a b. length b \<le> length a) sccs \<and>
     (\<forall>scc \<in> set sccs. scc \<noteq> [] \<and> (\<forall>v \<in> set scc. set scc = scc_of (cx_succs idx) v))"
proof -
  let ?g = "cx_succs idx"
  have g: "graph_wf ?g" "length ?g = length (cx_block_eas idx)" using assms by (auto simp: cfg_wf_def graph_wf_def)
  from tarjan_from_ok [OF g(1) tarjan_init_inv, of "[0..<length ?g]"] obtain s where
    s: "tarjan_from ?g [0..<length ?g] (tarjan_init (length ?g)) = Some (Inr s)" "tj_inv ?g s" "tj_call s = []" "{..<length ?g} \<subseteq> disc s"
    by (auto simp: tarjan_init_def atLeast0LessThan)
  note I = tj_invD [OF s(2)]
  have st: "tj_stack s = []" by (rule no_call_no_stack [OF s(2, 3)])
  have d: "disc s = {..<length ?g}" using s(4) disc_less [OF I(1)] by auto
  have "\<forall>v \<in> set scc. set scc = scc_of ?g v" if "scc \<in> set (tj_out s)" for scc
  proof -
    obtain r where "set scc = scc_of ?g r" using I(5) \<open>scc \<in> set (tj_out s)\<close> unfolding inv_done_def by blast
    then show ?thesis by (auto simp: scc_of_def intro: rtrancl_trans)
  qed
  moreover have "scc \<noteq> []" if "scc \<in> set (tj_out s)" for scc using that I(5) unfolding inv_done_def by force
  moreover have "distinct (concat (sort_by_len (tj_out s)))"
    using I(5) distinct_concat_perm [of "sort_by_len (tj_out s)" "tj_out s"] by (simp add: inv_done_def sort_by_len_def)
  moreover have "sorted_wrt (\<lambda>a b. length b \<le> length a) (sort_by_len (tj_out s))"
    using sorted_sort_key [of length "rev (tj_out s)"] by (simp add: sort_by_len_def sorted_wrt_rev sorted_map)
  moreover have "set (concat (sort_by_len (tj_out s))) = {..<length ?g}"
    using I(5) d st by (simp add: inv_done_def)
  ultimately show ?thesis using s(1) g(2) by (auto simp: tarjan_sccs_def)
qed

interpretation cs: component_search tarjan_sccs
  by unfold_locales (drule tarjan_ok, auto simp: scc_list_def)

text \<open>
  C11: on a well-formed control-flow graph the component search always returns: no index is out of
  bounds and the loop ends. Its result is a partition of the blocks, largest component first, and
  the component of a block is exactly the set of blocks it can reach and that can reach it.
\<close>

theorem tarjan_returns_the_components:
  assumes "cfg_wf idx"
  shows "\<exists>sccs. tarjan_sccs idx = Some (Inr sccs) \<and> distinct (concat sccs) \<and>
     set (concat sccs) = {..<length (cx_block_eas idx)} \<and> sorted_wrt (\<lambda>a b. length b \<le> length a) sccs \<and>
     (\<forall>scc \<in> set sccs. scc \<noteq> [] \<and> (\<forall>v \<in> set scc. set scc = scc_of (cx_succs idx) v))"
  using assms by (rule tarjan_ok)

definition sample_cfg :: cfg_index where
  "sample_cfg = \<lparr>cx_block_eas = [0, 1, 2, 3], cx_block_ends = [1, 2, 3, 4], cx_succs = [[1], [2], [1, 3], []],
     cx_indirect = [False, False, False, False], cx_direct_calls = 0, cx_indirect_calls = 0, cx_switches = 0\<rparr>"

lemma sample_cfg_wf: "cfg_wf sample_cfg"
  by (simp add: cfg_wf_def sample_cfg_def UNSEEN_def)

theorem tarjan_returns_the_components_witness:
  "\<exists>sccs. tarjan_sccs sample_cfg = Some (Inr sccs) \<and> set (concat sccs) = {..<4} \<and> distinct (concat sccs) \<and>
     (\<exists>scc \<in> set sccs. {1, 2} \<subseteq> set scc)"
proof -
  from tarjan_returns_the_components [OF sample_cfg_wf] obtain sccs where
    s: "tarjan_sccs sample_cfg = Some (Inr sccs)" "distinct (concat sccs)" "set (concat sccs) = {..<4}"
      "\<And>scc v. scc \<in> set sccs \<Longrightarrow> v \<in> set scc \<Longrightarrow> set scc = scc_of (cx_succs sample_cfg) v"
    by (auto simp: sample_cfg_def)
  have "1 \<in> set (concat sccs)" unfolding s(3) by simp
  then obtain scc where scc: "scc \<in> set sccs" "1 \<in> set scc" by auto
  have "(1, 2) \<in> edges (cx_succs sample_cfg)" "(2, 1) \<in> edges (cx_succs sample_cfg)"
    by (simp_all add: edges_def sample_cfg_def)
  then have "2 \<in> scc_of (cx_succs sample_cfg) 1" by (auto simp: scc_of_def)
  with s scc show ?thesis by blast
qed

end
