(* ===== verification/Regions.thy ===== *)
theory Regions
  imports Tarjan BTree_Map Json
begin

text \<open>
  \<open>crates/rmcp-broker/src/regions.rs\<close> and \<open>crates/rmcp-broker/src/largefn.rs\<close>: the virtual regions of a
  function's control-flow graph, and the adapters that build the graph from the worker's JSON.
  Components of more than one block become loop or dispatcher regions, the other blocks are cut
  into chunks of bounded length, and the edges between blocks give the edges between regions.
  The result of \<open>partition_cfg\<close> is \<open>None\<close> only if the component search does not return, which
  \<open>Tarjan\<close> excludes; a chunk length of zero panics, as \<open>slice::chunks\<close> does.
\<close>

section \<open>Data\<close>

datatype region_role = Loop | Dispatcher | Chunk

record region =
  rg_region_id :: string
  rg_role :: region_role
  rg_block_eas :: "u64 list"
  rg_block_ids :: "usize list"
  rg_entry_blocks :: "u64 list"
  rg_exit_blocks :: "u64 list"
  rg_pred_regions :: "string list"
  rg_succ_regions :: "string list"
  rg_partition_reason :: string

record partition_t =
  pt_version :: u32
  pt_function_ea :: u64
  pt_regions :: "region list"
  pt_block_region :: "(usize, string) btree"
  pt_diagnostics :: "string list"

record partition_options =
  max_chunk_blocks :: usize
  min_dispatcher_scc :: usize

definition default_partition_options :: partition_options where
  "default_partition_options = \<lparr>max_chunk_blocks = 64, min_dispatcher_scc = 8\<rparr>"

section \<open>Partitioning\<close>

definition dedup_sorted :: "string list \<Rightarrow> string list" where
  "dedup_sorted v = sort_dedup v"

definition external_pred :: "cfg_index \<Rightarrow> usize list \<Rightarrow> usize \<Rightarrow> bool" where
  "external_pred idx blocks b = list_ex (\<lambda>(p, ss). p \<notin> set blocks \<and> b \<in> set ss) (enumerate0 (cx_succs idx))"

definition is_entry_block :: "cfg_index \<Rightarrow> usize list \<Rightarrow> usize \<Rightarrow> bool" where
  "is_entry_block idx blocks b =
     (let ext = external_pred idx blocks b;
          internal_succ = list_ex (\<lambda>s. s \<in> set blocks) (cx_succs idx ! b);
          isolated = (\<not> internal_succ \<and> \<not> ext)
      in ext \<or> isolated \<or> length blocks = 1)"

definition is_exit_block :: "cfg_index \<Rightarrow> usize list \<Rightarrow> usize \<Rightarrow> bool" where
  "is_exit_block idx blocks b =
     (list_ex (\<lambda>s. s \<notin> set blocks) (cx_succs idx ! b) \<or> cx_succs idx ! b = [])"

definition entry_exit_blocks :: "cfg_index \<Rightarrow> usize list \<Rightarrow> u64 list \<times> u64 list" where
  "entry_exit_blocks idx blocks =
     (sort (map ((!) (cx_block_eas idx)) (filter (is_entry_block idx blocks) blocks)),
      sort (map ((!) (cx_block_eas idx)) (filter (is_exit_block idx blocks) blocks)))"

definition mk_region :: "cfg_index \<Rightarrow> string \<Rightarrow> region_role \<Rightarrow> usize list \<Rightarrow> string \<Rightarrow> region" where
  "mk_region idx id' role blocks why =
     (let (entry, exit) = entry_exit_blocks idx blocks in
      \<lparr>rg_region_id = id', rg_role = role, rg_block_eas = map ((!) (cx_block_eas idx)) blocks,
       rg_block_ids = blocks, rg_entry_blocks = entry, rg_exit_blocks = exit,
       rg_pred_regions = [], rg_succ_regions = [], rg_partition_reason = why\<rparr>)"

text \<open>The closure \<open>next_id\<close> and its counter; the counter travels with the partition.\<close>

definition next_id :: "usize \<Rightarrow> string" where
  "next_id counter = ''R'' @ show_nat (counter + 1)"

definition add_region ::
  "cfg_index \<Rightarrow> usize \<times> partition_t \<Rightarrow> region_role \<times> usize list \<times> string \<Rightarrow> usize \<times> partition_t" where
  "add_region idx st item =
     (let (counter, p) = st; (role, blocks, why) = item; id' = next_id counter in
      (counter + 1,
       p\<lparr>pt_block_region := foldl (\<lambda>m b. bt_insert b id' m) (pt_block_region p) blocks,
         pt_regions := pt_regions p @ [mk_region idx id' role blocks why]\<rparr>))"

definition loop_item :: "partition_options \<Rightarrow> usize list \<Rightarrow> region_role \<times> usize list \<times> string" where
  "loop_item opts scc =
     (if length scc \<ge> min_dispatcher_scc opts then Dispatcher else Loop, sort scc,
      ''SCC of '' @ show_nat (length scc) @ '' blocks (loop/dispatcher structure)'')"

definition chunk_item :: "usize list \<Rightarrow> region_role \<times> usize list \<times> string" where
  "chunk_item blocks =
     (Chunk, blocks, ''linear chunk of '' @ show_nat (length blocks) @ '' blocks (fallback bucketing)'')"

definition in_loop :: "usize \<Rightarrow> usize list list \<Rightarrow> bool list" where
  "in_loop n sccs =
     foldl (\<lambda>v scc. if length scc > 1 then foldl (\<lambda>v b. v[b := True]) v scc else v) (replicate n False) sccs"

fun slice_chunks :: "usize \<Rightarrow> 'a list \<Rightarrow> 'a list list" where
  "slice_chunks k xs = (if k = 0 \<or> xs = [] then [] else take k xs # slice_chunks k (drop k xs))"

declare slice_chunks.simps [simp del]

text \<open>The adjacency of regions: \<open>entry(k).or_default().push(v)\<close> on both maps for every edge
  that leaves its region.\<close>

type_synonym adjacency = "(string, string list) btree"

definition push_entry :: "string \<Rightarrow> string \<Rightarrow> adjacency \<Rightarrow> adjacency" where
  "push_entry k v m = bt_insert k (unwrap_or (bt_get m k) [] @ [v]) m"

definition cross_edge ::
  "(usize, string) btree \<Rightarrow> usize \<Rightarrow> adjacency \<times> adjacency \<Rightarrow> usize \<Rightarrow> adjacency \<times> adjacency" where
  "cross_edge region_of b maps s =
     (case (bt_get region_of b, bt_get region_of s) of
        (Some rb, Some rs) \<Rightarrow>
          if rs = rb then maps else (push_entry rs rb (fst maps), push_entry rb rs (snd maps))
      | _ \<Rightarrow> maps)"

definition cross_edges :: "cfg_index \<Rightarrow> (usize, string) btree \<Rightarrow> adjacency \<times> adjacency" where
  "cross_edges idx region_of =
     foldl (\<lambda>maps b. foldl (cross_edge region_of b) maps (cx_succs idx ! b)) ([], [])
       [0..<length (cx_block_eas idx)]"

definition link_region :: "adjacency \<Rightarrow> adjacency \<Rightarrow> region \<Rightarrow> region" where
  "link_region pred succ r =
     r\<lparr>rg_pred_regions := (case bt_get pred (rg_region_id r) of Some ps \<Rightarrow> dedup_sorted ps | None \<Rightarrow> rg_pred_regions r),
       rg_succ_regions := (case bt_get succ (rg_region_id r) of Some ss \<Rightarrow> dedup_sorted ss | None \<Rightarrow> rg_succ_regions r)\<rparr>"

definition partition_diagnostic :: "cfg_index \<Rightarrow> region list \<Rightarrow> string" where
  "partition_diagnostic idx rs =
     show_nat (length rs) @ '' regions from '' @ show_nat (length (cx_block_eas idx)) @ '' blocks ('' @
     show_nat (length (filter (\<lambda>r. rg_role r \<noteq> Chunk) rs)) @ '' loop/dispatcher, '' @
     show_nat (length (filter (\<lambda>r. rg_role r = Chunk) rs)) @ '' chunks)''"

definition empty_partition :: "cfg_index \<Rightarrow> partition_t" where
  "empty_partition idx =
     \<lparr>pt_version = 1, pt_function_ea = (case cx_block_eas idx of [] \<Rightarrow> 0 | ea # _ \<Rightarrow> ea),
      pt_regions = [], pt_block_region = [], pt_diagnostics = []\<rparr>"

definition partition_sccs :: "cfg_index \<Rightarrow> partition_options \<Rightarrow> usize list list \<Rightarrow> partition_t result" where
  "partition_sccs idx opts sccs =
     (let n = length (cx_block_eas idx);
          st = foldl (\<lambda>st scc. if length scc \<le> 1 then st else add_region idx st (loop_item opts scc))
                 (0, empty_partition idx) sccs;
          singles = filter (\<lambda>b. \<not> in_loop n sccs ! b) [0..<n]
      in if max_chunk_blocks opts = 0 then Inl (Panic ''chunk size must be non-zero'')
         else
           (let p = snd (foldl (\<lambda>st chunk. add_region idx st (chunk_item chunk)) st
                          (slice_chunks (max_chunk_blocks opts) singles));
                (pred, succ) = cross_edges idx (pt_block_region p);
                regions = map (link_region pred succ) (pt_regions p)
            in Inr (p\<lparr>pt_regions := regions,
                       pt_diagnostics := pt_diagnostics p @ [partition_diagnostic idx regions]\<rparr>)))"

definition partition_cfg :: "cfg_index \<Rightarrow> partition_options \<Rightarrow> partition_t result option" where
  "partition_cfg idx opts = map_option (\<lambda>r. rbind r (partition_sccs idx opts)) (tarjan_sccs idx)"

section \<open>Adapters from the worker's JSON\<close>

definition complexity_from_function_graph :: "json \<Rightarrow> json \<Rightarrow> bool \<Rightarrow> function_complexity" where
  "complexity_from_function_graph func graph decompiler_available =
     (let start = unwrap_or (as_u64 (jidx func ''ea_start'')) 0;
          end' = unwrap_or (as_u64 (jidx func ''ea_end'')) 0;
          nodes = unwrap_or (as_array (jidx graph ''nodes'')) [];
          es = unwrap_or (as_array (jidx graph ''edges'')) [];
          flag = (\<lambda>k n. unwrap_or (as_bool (jidx n k)) False)
      in default_complexity\<lparr>
           fc_byte_size := saturating_sub end' start,
           fc_decompiler_available := decompiler_available,
           fc_blocks := length nodes,
           fc_edges := length es,
           fc_cyclomatic := (length es - length nodes) + 2,
           fc_indirect_blocks := length (filter (flag ''indirect'') nodes),
           fc_chunks := length (filter (flag ''chunk'') nodes)\<rparr>)"

definition graph_eas :: "json \<Rightarrow> u64 list" where
  "graph_eas graph =
     sort_dedup (List.map_filter (\<lambda>n. as_u64 (jidx n ''ea'')) (unwrap_or (as_array (jidx graph ''nodes'')) []))"

definition index_of :: "u64 list \<Rightarrow> u64 \<Rightarrow> usize option" where
  "index_of eas = map_of (rev (map (\<lambda>(i, e). (e, i)) (enumerate0 eas)))"

definition add_succ :: "u64 list \<Rightarrow> usize list list \<Rightarrow> json \<Rightarrow> usize list list" where
  "add_succ eas succs e =
     (case (index_of eas (unwrap_or (as_u64 (jidx e ''from'')) 0), index_of eas (unwrap_or (as_u64 (jidx e ''to'')) 0)) of
        (Some fi, Some ti) \<Rightarrow>
          if ti \<ge> length succs then succs
          else if ti \<in> set (succs ! fi) then succs else succs[fi := succs ! fi @ [ti]]
      | _ \<Rightarrow> succs)"

definition set_indirect :: "bool list \<Rightarrow> usize \<times> json \<Rightarrow> bool list" where
  "set_indirect v item =
     (let (i, n) = item in if i < length v then v[i := unwrap_or (as_bool (jidx n ''indirect'')) False] else v)"

definition cfg_index_from_graph :: "json \<Rightarrow> cfg_index" where
  "cfg_index_from_graph graph =
     (let eas = graph_eas graph;
          nodes = unwrap_or (as_array (jidx graph ''nodes'')) [];
          es = unwrap_or (as_array (jidx graph ''edges'')) []
      in \<lparr>cx_block_eas = eas, cx_block_ends = drop 1 eas @ [- 1],
          cx_succs = foldl (add_succ eas) (replicate (length eas) []) es,
          cx_indirect = foldl set_indirect (replicate (length eas) False) (enumerate0 nodes),
          cx_direct_calls = 0, cx_indirect_calls = 0, cx_switches = 0\<rparr>)"

definition partition_from_graph :: "json \<Rightarrow> u64 \<Rightarrow> partition_options \<Rightarrow> partition_t result option" where
  "partition_from_graph graph ea opts =
     map_option (rmap (\<lambda>p. p\<lparr>pt_function_ea := ea\<rparr>)) (partition_cfg (cfg_index_from_graph graph) opts)"

section \<open>Chunks and regions\<close>

lemma concat_slice_chunks: "0 < k \<Longrightarrow> concat (slice_chunks k xs) = xs"
proof (induction k xs rule: slice_chunks.induct)
  case (1 k xs)
  then show ?case by (subst slice_chunks.simps) auto
qed

lemma set_slice_chunks: "c \<in> set (slice_chunks k xs) \<Longrightarrow> set c \<subseteq> set xs"
proof (induction k xs rule: slice_chunks.induct)
  case (1 k xs)
  then show ?case by (subst (asm) (2) slice_chunks.simps) (auto split: if_splits dest: in_set_takeD in_set_dropD)
qed

lemma slice_chunks_bound: "c \<in> set (slice_chunks k xs) \<Longrightarrow> c \<noteq> [] \<and> length c \<le> k"
proof (induction k xs rule: slice_chunks.induct)
  case (1 k xs)
  then show ?case by (subst (asm) slice_chunks.simps) (auto split: if_splits)
qed

lemma length_foldl_set: "length (foldl (\<lambda>v b. v[b := True]) v bs) = length v"
  by (induction bs arbitrary: v) auto

lemma foldl_set: "x < length v \<Longrightarrow> foldl (\<lambda>v b. v[b := True]) v bs ! x = (v ! x \<or> x \<in> set bs)"
  proof (induction bs arbitrary: v)
  case (Cons a bs)
  then show ?case by (cases "a = x") auto
qed simp

lemma in_loop_iff:
  "b < n \<Longrightarrow> in_loop n sccs ! b \<longleftrightarrow> (\<exists>scc \<in> set sccs. 1 < length scc \<and> b \<in> set scc)"
proof -
  let ?f = "\<lambda>v scc. if length scc > 1 then foldl (\<lambda>v b. v[b := True]) v scc else v"
  have "b < length v \<Longrightarrow> foldl ?f v sccs ! b \<longleftrightarrow> v ! b \<or> (\<exists>scc \<in> set sccs. 1 < length scc \<and> b \<in> set scc)" for v
    by (induction sccs arbitrary: v) (auto simp: length_foldl_set foldl_set)
  from this [of "replicate n False"] show "b < n \<Longrightarrow> ?thesis" by (simp add: in_loop_def)
qed

lemma bt_get_foldl_insert:
  "bt_get (foldl (\<lambda>m b. bt_insert b v m) m bs) x = (if x \<in> set bs then Some v else bt_get m x)"
  by (induction bs arbitrary: m) auto

lemma next_id_inj: "next_id a = next_id b \<longleftrightarrow> a = b"
  unfolding next_id_def using show_radix_inj [of 10 "a + 1" "b + 1"] by auto

abbreviation item_blocks :: "region_role \<times> usize list \<times> string \<Rightarrow> usize list" where
  "item_blocks item \<equiv> fst (snd item)"

definition item_region :: "cfg_index \<Rightarrow> usize \<times> region_role \<times> usize list \<times> string \<Rightarrow> region" where
  "item_region idx = (\<lambda>(i, role, blocks, why). mk_region idx (next_id i) role blocks why)"

lemma item_region_simps [simp]:
  "rg_region_id (item_region idx (i, t)) = next_id i"
  "rg_role (item_region idx (i, t)) = fst t"
  "rg_block_ids (item_region idx (i, t)) = item_blocks t"
  "rg_pred_regions (item_region idx (i, t)) = []"
  "rg_succ_regions (item_region idx (i, t)) = []"
  by (simp_all add: item_region_def mk_region_def split: prod.splits)

lemma enumerate0_snoc: "enumerate0 (xs @ [x]) = enumerate0 xs @ [(length xs, x)]"
  by (simp add: enumerate0_def enumerate_append_eq)

definition grown :: "cfg_index \<Rightarrow> partition_t \<Rightarrow> (region_role \<times> usize list \<times> string) list \<Rightarrow> usize \<times> partition_t" where
  "grown idx p items = foldl (add_region idx) (0, p) items"

lemma grown_snoc: "grown idx p (items @ [t]) = add_region idx (grown idx p items) t"
  by (simp add: grown_def)

lemma add_region_simps [simp]:
  "fst (add_region idx st t) = Suc (fst st)"
  "pt_regions (snd (add_region idx st t)) = pt_regions (snd st) @ [item_region idx (fst st, t)]"
  "pt_block_region (snd (add_region idx st t)) =
     foldl (\<lambda>m b. bt_insert b (next_id (fst st)) m) (pt_block_region (snd st)) (item_blocks t)"
  by (cases st, cases t, simp add: add_region_def item_region_def Let_def)+

lemma grown_counter: "fst (grown idx p items) = length items"
  by (induction items rule: rev_induct) (simp_all add: grown_snoc, simp add: grown_def)

lemma grown_regions:
  "pt_regions p = [] \<Longrightarrow> pt_regions (snd (grown idx p items)) = map (item_region idx) (enumerate0 items)"
  by (induction items rule: rev_induct)
    (simp_all add: grown_snoc enumerate0_snoc grown_counter, simp add: grown_def enumerate0_def)

lemma grown_block_region:
  assumes "distinct (concat (map item_blocks items))" "pt_block_region p = []"
  shows "bt_get (pt_block_region (snd (grown idx p items))) b = Some r \<longleftrightarrow>
     (\<exists>i < length items. b \<in> set (item_blocks (items ! i)) \<and> r = next_id i)"
  using assms
proof (induction items rule: rev_induct)
  case Nil then show ?case by (simp add: grown_def)
next
  case (snoc t items)
  have get: "bt_get (pt_block_region (snd (grown idx p (items @ [t])))) b =
     (if b \<in> set (item_blocks t) then Some (next_id (length items)) else bt_get (pt_block_region (snd (grown idx p items))) b)"
    by (simp add: grown_snoc grown_counter bt_get_foldl_insert)
  have "b \<notin> set (item_blocks (items ! i))" if "b \<in> set (item_blocks t)" "i < length items" for i
    using snoc.prems(1) that by (fastforce simp: in_set_conv_nth)
  then show ?case using snoc by (auto simp: get nth_append less_Suc_eq)
qed

section \<open>Edges between regions\<close>

lemma bt_get_push_entry:
  "unwrap_or (bt_get (push_entry k v m) j) [] = (if j = k then unwrap_or (bt_get m k) [] @ [v] else unwrap_or (bt_get m j) [])"
  by (simp add: push_entry_def)

definition crosses :: "(usize, string) btree \<Rightarrow> (usize \<times> usize) set \<Rightarrow> string \<Rightarrow> string \<Rightarrow> bool" where
  "crosses ro es k x \<longleftrightarrow> x \<noteq> k \<and> (\<exists>(b, s) \<in> es. bt_get ro b = Some k \<and> bt_get ro s = Some x)"

lemma crosses_irrefl [simp]: "\<not> crosses ro es k k"
  by (simp add: crosses_def)

lemma crosses_insert:
  "crosses ro (insert (b, s) es) k x \<longleftrightarrow> crosses ro es k x \<or> (x \<noteq> k \<and> bt_get ro b = Some k \<and> bt_get ro s = Some x)"
  by (auto simp: crosses_def)

lemma cross_edge_mem:
  "x \<in> set (unwrap_or (bt_get (snd (cross_edge ro b maps s)) k) []) \<longleftrightarrow>
     x \<in> set (unwrap_or (bt_get (snd maps) k) []) \<or> (x \<noteq> k \<and> bt_get ro b = Some k \<and> bt_get ro s = Some x)"
  "x \<in> set (unwrap_or (bt_get (fst (cross_edge ro b maps s)) k) []) \<longleftrightarrow>
     x \<in> set (unwrap_or (bt_get (fst maps) k) []) \<or> (k \<noteq> x \<and> bt_get ro b = Some x \<and> bt_get ro s = Some k)"
  by (auto simp: cross_edge_def bt_get_push_entry split: option.splits if_splits)

lemma foldl_foldl_pairs:
  "foldl (\<lambda>a b. foldl (f b) a (g b)) a bs = foldl (\<lambda>a (b, s). f b a s) a (concat (map (\<lambda>b. map (Pair b) (g b)) bs))"
  by (induction bs arbitrary: a) (simp_all add: foldl_map)

lemma cross_edges_mem:
  "x \<in> set (unwrap_or (bt_get (snd (cross_edges idx ro)) k) []) \<longleftrightarrow>
     crosses ro {(b, s). b < length (cx_block_eas idx) \<and> s \<in> set (cx_succs idx ! b)} k x"
  "x \<in> set (unwrap_or (bt_get (fst (cross_edges idx ro)) k) []) \<longleftrightarrow>
     crosses ro {(b, s). b < length (cx_block_eas idx) \<and> s \<in> set (cx_succs idx ! b)} x k"
proof -
  let ?es = "concat (map (\<lambda>b. map (Pair b) (cx_succs idx ! b)) [0..<length (cx_block_eas idx)])"
  let ?f = "\<lambda>a (b, s). cross_edge ro b a s"
  have ce: "cross_edges idx ro = foldl ?f ([], []) ?es" unfolding cross_edges_def by (rule foldl_foldl_pairs)
  have set_es: "set ?es = {(b, s). b < length (cx_block_eas idx) \<and> s \<in> set (cx_succs idx ! b)}" by auto
  have step: "x \<in> set (unwrap_or (bt_get (snd (foldl ?f ([], []) es)) k) []) \<longleftrightarrow> crosses ro (set es) k x"
    "x \<in> set (unwrap_or (bt_get (fst (foldl ?f ([], []) es)) k) []) \<longleftrightarrow> crosses ro (set es) x k" for es x k
  proof (induction es rule: rev_induct)
    case Nil
    show "x \<in> set (unwrap_or (bt_get (snd (foldl ?f ([], []) [])) k) []) \<longleftrightarrow> crosses ro (set []) k x"
      "x \<in> set (unwrap_or (bt_get (fst (foldl ?f ([], []) [])) k) []) \<longleftrightarrow> crosses ro (set []) x k" by (simp_all add: crosses_def)
  next
    case (snoc e es)
    then show "x \<in> set (unwrap_or (bt_get (snd (foldl ?f ([], []) (es @ [e]))) k) []) \<longleftrightarrow> crosses ro (set (es @ [e])) k x"
      "x \<in> set (unwrap_or (bt_get (fst (foldl ?f ([], []) (es @ [e]))) k) []) \<longleftrightarrow> crosses ro (set (es @ [e])) x k"
      by (cases e; simp add: cross_edge_mem crosses_insert)+
  qed
  from step [where es = ?es] show
    "x \<in> set (unwrap_or (bt_get (snd (cross_edges idx ro)) k) []) \<longleftrightarrow>
       crosses ro {(b, s). b < length (cx_block_eas idx) \<and> s \<in> set (cx_succs idx ! b)} k x"
    "x \<in> set (unwrap_or (bt_get (fst (cross_edges idx ro)) k) []) \<longleftrightarrow>
       crosses ro {(b, s). b < length (cx_block_eas idx) \<and> s \<in> set (cx_succs idx ! b)} x k"
    unfolding ce set_es by blast+
qed

lemma link_region_simps [simp]:
  "rg_region_id (link_region pm sm r) = rg_region_id r"
  "rg_role (link_region pm sm r) = rg_role r"
  "rg_block_ids (link_region pm sm r) = rg_block_ids r"
  by (simp_all add: link_region_def)

lemma link_region_edges:
  "rg_succ_regions r = [] \<Longrightarrow> set (rg_succ_regions (link_region pm sm r)) = set (unwrap_or (bt_get sm (rg_region_id r)) [])"
  "rg_pred_regions r = [] \<Longrightarrow> set (rg_pred_regions (link_region pm sm r)) = set (unwrap_or (bt_get pm (rg_region_id r)) [])"
  by (simp_all add: link_region_def dedup_sorted_def split: option.splits)

section \<open>The region graph\<close>

definition todo :: "cfg_index \<Rightarrow> partition_options \<Rightarrow> usize list list \<Rightarrow> (region_role \<times> usize list \<times> string) list" where
  "todo idx opts sccs =
     map (loop_item opts) (filter (\<lambda>scc. 1 < length scc) sccs) @
     map chunk_item (slice_chunks (max_chunk_blocks opts)
       (filter (\<lambda>b. \<not> in_loop (length (cx_block_eas idx)) sccs ! b) [0..<length (cx_block_eas idx)]))"

lemma foldl_loops:
  "foldl (\<lambda>st scc. if length scc \<le> 1 then st else f st (g scc)) st sccs = foldl f st (map g (filter (\<lambda>scc. 1 < length scc) sccs))"
  by (induction sccs arbitrary: st) auto

lemma partition_sccs_grown:
  assumes "0 < max_chunk_blocks opts"
  shows "\<exists>p. partition_sccs idx opts sccs = Inr p \<and>
     pt_block_region p = pt_block_region (snd (grown idx (empty_partition idx) (todo idx opts sccs))) \<and>
     pt_regions p = map (link_region (fst (cross_edges idx (pt_block_region p))) (snd (cross_edges idx (pt_block_region p))))
       (map (item_region idx) (enumerate0 (todo idx opts sccs)))"
proof -
  let ?p = "snd (grown idx (empty_partition idx) (todo idx opts sccs))"
  let ?n = "length (cx_block_eas idx)"
  have grown: "snd (foldl (\<lambda>st chunk. add_region idx st (chunk_item chunk))
      (foldl (\<lambda>st scc. if length scc \<le> 1 then st else add_region idx st (loop_item opts scc)) (0, empty_partition idx) sccs)
      (slice_chunks (max_chunk_blocks opts) (filter (\<lambda>b. \<not> in_loop ?n sccs ! b) [0..<?n]))) = ?p"
    unfolding foldl_loops grown_def todo_def by (simp add: foldl_map)
  have "pt_regions ?p = map (item_region idx) (enumerate0 (todo idx opts sccs))"
    by (rule grown_regions) (simp add: empty_partition_def)
  then show ?thesis using assms unfolding partition_sccs_def Let_def grown by (simp split: prod.splits)
qed

lemma distinct_concat_filter: "distinct (concat xs) \<Longrightarrow> distinct (concat (filter P xs))"
  by (induction xs) auto

lemma distinct_concat_map_sort: "distinct (concat (map sort xs)) = distinct (concat xs)"
  by (induction xs) auto

lemma todo_blocks:
  assumes "scc_list idx sccs" "0 < max_chunk_blocks opts"
  shows "distinct (concat (map item_blocks (todo idx opts sccs)))"
    "set (concat (map item_blocks (todo idx opts sccs))) = {..<length (cx_block_eas idx)}"
proof -
  let ?n = "length (cx_block_eas idx)"
  let ?loops = "filter (\<lambda>scc. 1 < length scc) sccs"
  let ?singles = "filter (\<lambda>b. \<not> in_loop ?n sccs ! b) [0..<?n]"
  have blocks: "concat (map item_blocks (todo idx opts sccs)) = concat (map sort ?loops) @ ?singles"
    using assms(2) by (simp add: todo_def loop_item_def chunk_item_def comp_def concat_slice_chunks)
  have "distinct (concat ?loops)" "set (concat sccs) = {..<?n}"
    using assms(1) distinct_concat_filter unfolding scc_list_def by blast+
  then show "distinct (concat (map item_blocks (todo idx opts sccs)))"
    "set (concat (map item_blocks (todo idx opts sccs))) = {..<?n}"
    unfolding blocks by (auto simp: distinct_concat_map_sort in_loop_iff)
qed

lemma todo_roles:
  assumes "scc_list idx sccs" "t \<in> set (todo idx opts sccs)"
  shows "if fst t = Chunk
     then length (item_blocks t) \<le> max_chunk_blocks opts \<and> (\<forall>b \<in> set (item_blocks t). scc_of (cx_succs idx) b = {b})
     else 1 < length (item_blocks t) \<and> (\<forall>b \<in> set (item_blocks t). scc_of (cx_succs idx) b = set (item_blocks t)) \<and>
       (fst t = Dispatcher \<longleftrightarrow> min_dispatcher_scc opts \<le> length (item_blocks t))"
proof -
  let ?n = "length (cx_block_eas idx)"
  let ?singles = "filter (\<lambda>b. \<not> in_loop ?n sccs ! b) [0..<?n]"
  have scc: "scc_of (cx_succs idx) b = set scc" if "scc \<in> set sccs" "b \<in> set scc" for scc b
    using assms(1) that unfolding scc_list_def by blast
  have alone: "scc_of (cx_succs idx) b = {b}" if "b \<in> set ?singles" for b
  proof -
    from that have "b \<in> set (concat sccs)" using assms(1) by (auto simp: scc_list_def)
    then obtain scc where s: "scc \<in> set sccs" "b \<in> set scc" by auto
    moreover from s that have "length scc \<le> 1" by (auto simp: in_loop_iff not_less)
    ultimately have "scc = [b]" by (cases scc rule: list.exhaust) (auto simp del: in_set_conv_decomp)
    then show ?thesis using scc s by simp
  qed
  from assms(2) consider
    (loop) scc where "scc \<in> set sccs" "1 < length scc" "t = loop_item opts scc"
    | (chunk) c where "c \<in> set (slice_chunks (max_chunk_blocks opts) ?singles)" "t = chunk_item c"
    by (auto simp: todo_def)
  then show ?thesis
  proof cases
    case loop
    then show ?thesis using scc by (simp add: loop_item_def)
  next
    case chunk
    have "set c \<subseteq> set ?singles" using chunk(1) by (rule set_slice_chunks)
    then show ?thesis using chunk(2) slice_chunks_bound [OF chunk(1)] alone by (simp add: chunk_item_def subset_iff)
  qed
qed

lemma region_edges:
  assumes items: "distinct (concat (map item_blocks items))"
      "set (concat (map item_blocks items)) = {..<length (cx_block_eas idx)}"
    and get: "\<And>b r. bt_get ro b = Some r \<longleftrightarrow> (\<exists>i < length items. b \<in> set (item_blocks (items ! i)) \<and> r = next_id i)"
    and ij: "i < length items" "j < length items"
  shows "crosses ro {(b, s). b < length (cx_block_eas idx) \<and> s \<in> set (cx_succs idx ! b)} (next_id i) (next_id j) \<longleftrightarrow>
     i \<noteq> j \<and> (\<exists>b \<in> set (item_blocks (items ! i)). \<exists>s \<in> set (item_blocks (items ! j)). s \<in> set (cx_succs idx ! b))"
proof -
  have g: "bt_get ro b = Some (next_id i) \<longleftrightarrow> b \<in> set (item_blocks (items ! i))" if "i < length items" for b i
    using that by (auto simp: get next_id_inj)
  have "b < length (cx_block_eas idx)" if "b \<in> set (item_blocks (items ! i))" for b
    using items(2) ij(1) that by (fastforce simp: in_set_conv_nth)
  then show ?thesis using ij by (auto simp: crosses_def g next_id_inj)
qed

text \<open>The partition of a well-formed graph, given by its list of block groups.\<close>

definition groups :: "cfg_index \<Rightarrow> partition_options \<Rightarrow> partition_t \<Rightarrow> (region_role \<times> usize list \<times> string) list \<Rightarrow> bool" where
  "groups idx opts p items \<longleftrightarrow>
     distinct (concat (map item_blocks items)) \<and> set (concat (map item_blocks items)) = {..<length (cx_block_eas idx)} \<and>
     (\<exists>sccs. scc_list idx sccs \<and> items = todo idx opts sccs) \<and>
     (\<forall>b r. bt_get (pt_block_region p) b = Some r \<longleftrightarrow> (\<exists>i < length items. b \<in> set (item_blocks (items ! i)) \<and> r = next_id i)) \<and>
     pt_regions p = map (\<lambda>i. link_region (fst (cross_edges idx (pt_block_region p))) (snd (cross_edges idx (pt_block_region p)))
       (item_region idx (i, items ! i))) [0..<length items]"

lemma map_enumerate0: "map f (enumerate0 xs) = map (\<lambda>i. f (i, xs ! i)) [0..<length xs]"
  by (rule nth_equalityI) simp_all

context component_search
begin

lemma partition_of_components:
  assumes "cfg_wf idx" "0 < max_chunk_blocks opts"
  shows "\<exists>p items. map_option (\<lambda>r. rbind r (partition_sccs idx opts)) (search idx) = Some (Inr p) \<and> groups idx opts p items"
proof -
  from components [OF assms(1)] obtain sccs where sccs: "search idx = Some (Inr sccs)" "scc_list idx sccs" by blast
  let ?items = "todo idx opts sccs"
  from partition_sccs_grown [OF assms(2)] obtain p where p: "partition_sccs idx opts sccs = Inr p"
    "pt_block_region p = pt_block_region (snd (grown idx (empty_partition idx) ?items))"
    "pt_regions p = map (link_region (fst (cross_edges idx (pt_block_region p))) (snd (cross_edges idx (pt_block_region p))))
       (map (item_region idx) (enumerate0 ?items))" by blast
  note blocks = todo_blocks [OF sccs(2) assms(2)]
  have "pt_block_region (empty_partition idx) = []" by (simp add: empty_partition_def)
  from grown_block_region [OF blocks(1) this]
  have "bt_get (pt_block_region p) b = Some r \<longleftrightarrow> (\<exists>i < length ?items. b \<in> set (item_blocks (?items ! i)) \<and> r = next_id i)" for b r
    unfolding p(2) .
  moreover have "pt_regions p = map (\<lambda>i. link_region (fst (cross_edges idx (pt_block_region p))) (snd (cross_edges idx (pt_block_region p)))
       (item_region idx (i, ?items ! i))) [0..<length ?items]"
    by (subst p(3)) (simp add: map_enumerate0)
  ultimately have "groups idx opts p ?items" unfolding groups_def using blocks sccs(2) by blast
  then show ?thesis using sccs p(1) by auto
qed

end

lemmas partition_groups = cs.partition_of_components [folded partition_cfg_def]

lemma groupsD:
  assumes "groups idx opts p items"
  shows "distinct (concat (map item_blocks items))" "set (concat (map item_blocks items)) = {..<length (cx_block_eas idx)}"
    "\<exists>sccs. scc_list idx sccs \<and> items = todo idx opts sccs"
    "\<And>b r. bt_get (pt_block_region p) b = Some r \<longleftrightarrow> (\<exists>i < length items. b \<in> set (item_blocks (items ! i)) \<and> r = next_id i)"
    "pt_regions p = map (\<lambda>i. link_region (fst (cross_edges idx (pt_block_region p))) (snd (cross_edges idx (pt_block_region p)))
       (item_region idx (i, items ! i))) [0..<length items]"
  using assms unfolding groups_def by blast+

lemma groups_regions:
  assumes "groups idx opts p items"
  shows "length (pt_regions p) = length items"
    "i < length items \<Longrightarrow> rg_region_id (pt_regions p ! i) = next_id i"
    "i < length items \<Longrightarrow> rg_block_ids (pt_regions p ! i) = item_blocks (items ! i)"
    "i < length items \<Longrightarrow> rg_role (pt_regions p ! i) = fst (items ! i)"
  using groupsD(5) [OF assms] by simp_all

lemma groups_mem: "groups idx opts p items \<Longrightarrow> r \<in> set (pt_regions p) \<Longrightarrow> \<exists>i < length items. r = pt_regions p ! i"
  by (auto simp: in_set_conv_nth groups_regions)

lemma groups_edges:
  assumes "groups idx opts p items" "i < length items"
  shows "set (rg_succ_regions (pt_regions p ! i)) = {x. crosses (pt_block_region p) {(b, s). b < length (cx_block_eas idx) \<and> s \<in> set (cx_succs idx ! b)} (next_id i) x}"
    "set (rg_pred_regions (pt_regions p ! i)) = {x. crosses (pt_block_region p) {(b, s). b < length (cx_block_eas idx) \<and> s \<in> set (cx_succs idx ! b)} x (next_id i)}"
proof -
  let ?ro = "pt_block_region p"
  have nth: "pt_regions p ! i = link_region (fst (cross_edges idx ?ro)) (snd (cross_edges idx ?ro)) (item_region idx (i, items ! i))"
    by (subst groupsD(5) [OF assms(1)]) (simp add: assms(2))
  show "set (rg_succ_regions (pt_regions p ! i)) = {x. crosses ?ro {(b, s). b < length (cx_block_eas idx) \<and> s \<in> set (cx_succs idx ! b)} (next_id i) x}"
    "set (rg_pred_regions (pt_regions p ! i)) = {x. crosses ?ro {(b, s). b < length (cx_block_eas idx) \<and> s \<in> set (cx_succs idx ! b)} x (next_id i)}"
    unfolding nth by (auto simp: link_region_edges cross_edges_mem)
qed

text \<open>The shape the later passes rely on: distinct ids of the form \<open>R1\<close>, \<open>R2\<close>, and predecessor lists
  dual to the successor lists.\<close>

definition region_graph_wf :: "partition_t \<Rightarrow> bool" where
  "region_graph_wf p \<longleftrightarrow> distinct (map rg_region_id (pt_regions p)) \<and> set (map rg_region_id (pt_regions p)) \<subseteq> range next_id \<and>
     (\<forall>r \<in> set (pt_regions p).
        set (rg_succ_regions r) \<union> set (rg_pred_regions r) \<subseteq> set (map rg_region_id (pt_regions p)) - {rg_region_id r} \<and>
        (\<forall>r' \<in> set (pt_regions p). rg_region_id r' \<in> set (rg_succ_regions r) \<longleftrightarrow> rg_region_id r \<in> set (rg_pred_regions r')))"

lemma groups_ids: "groups idx opts p items \<Longrightarrow> map rg_region_id (pt_regions p) = map next_id [0..<length items]"
  by (rule nth_equalityI) (simp_all add: groups_regions)

lemma crosses_ids:
  assumes "groups idx opts p items" "crosses (pt_block_region p) es k x"
  shows "k \<in> next_id ` {..<length items}" "x \<in> next_id ` {..<length items}" "x \<noteq> k"
  using assms(2) groupsD(4) [OF assms(1)] by (auto simp: crosses_def)

lemma groups_graph_wf:
  assumes "groups idx opts p items"
  shows "region_graph_wf p"
proof -
  note g = groups_regions [OF assms] and e = groups_edges [OF assms] and i = groups_ids [OF assms]
  have "distinct (map rg_region_id (pt_regions p))" unfolding i by (simp add: distinct_map inj_on_def next_id_inj)
  moreover have "set (rg_succ_regions r) \<union> set (rg_pred_regions r) \<subseteq> set (map rg_region_id (pt_regions p)) - {rg_region_id r}"
    if "r \<in> set (pt_regions p)" for r
    using groups_mem [OF assms that] crosses_ids [OF assms] unfolding i by (auto simp: e g atLeast0LessThan)
  moreover have "rg_region_id r' \<in> set (rg_succ_regions r) \<longleftrightarrow> rg_region_id r \<in> set (rg_pred_regions r')"
    if "r \<in> set (pt_regions p)" "r' \<in> set (pt_regions p)" for r r'
    using groups_mem [OF assms that(1)] groups_mem [OF assms that(2)] by (auto simp: e g)
  moreover have "set (map rg_region_id (pt_regions p)) \<subseteq> range next_id" unfolding i by auto
  ultimately show ?thesis unfolding region_graph_wf_def by blast
qed

text \<open>
  C12: partitioning a well-formed control-flow graph with a positive chunk length always returns.
  Every block lies in exactly one region and the block map names it; region ids are distinct. A
  chunk holds at most the configured number of blocks, each of them alone in its strongly
  connected component, and every other region is exactly one component of at least two blocks, a
  dispatcher precisely from the configured size on. A region lists another as successor exactly
  when an edge leads from one of its blocks into the other, and the predecessor lists are dual.
\<close>

theorem partition_is_the_region_graph:
  assumes "cfg_wf idx" "0 < max_chunk_blocks opts"
  shows "\<exists>p. partition_cfg idx opts = Some (Inr p) \<and> region_graph_wf p \<and>
     distinct (concat (map rg_block_ids (pt_regions p))) \<and>
     set (concat (map rg_block_ids (pt_regions p))) = {..<length (cx_block_eas idx)} \<and>
     (\<forall>r \<in> set (pt_regions p).
        (\<forall>b \<in> set (rg_block_ids r). bt_get (pt_block_region p) b = Some (rg_region_id r)) \<and>
        (if rg_role r = Chunk
         then length (rg_block_ids r) \<le> max_chunk_blocks opts \<and> (\<forall>b \<in> set (rg_block_ids r). scc_of (cx_succs idx) b = {b})
         else 1 < length (rg_block_ids r) \<and> (\<forall>b \<in> set (rg_block_ids r). scc_of (cx_succs idx) b = set (rg_block_ids r)) \<and>
           (rg_role r = Dispatcher \<longleftrightarrow> min_dispatcher_scc opts \<le> length (rg_block_ids r))) \<and>
        (\<forall>r' \<in> set (pt_regions p). rg_region_id r' \<in> set (rg_succ_regions r) \<longleftrightarrow>
           r \<noteq> r' \<and> (\<exists>b \<in> set (rg_block_ids r). \<exists>s \<in> set (rg_block_ids r'). s \<in> set (cx_succs idx ! b))))"
proof -
  from partition_groups [OF assms] obtain p items where p: "partition_cfg idx opts = Some (Inr p)" "groups idx opts p items"
    by blast
  note g = groups_regions [OF p(2)] and d = groupsD [OF p(2)]
  obtain sccs where sccs: "scc_list idx sccs" "items = todo idx opts sccs" using d(3) by blast
  have ids: "map rg_block_ids (pt_regions p) = map item_blocks items"
    by (rule nth_equalityI) (simp_all add: g)
  have edge: "next_id j \<in> set (rg_succ_regions (pt_regions p ! i)) \<longleftrightarrow> pt_regions p ! i \<noteq> pt_regions p ! j \<and>
      (\<exists>b \<in> set (item_blocks (items ! i)). \<exists>s \<in> set (item_blocks (items ! j)). s \<in> set (cx_succs idx ! b))"
    if ij: "i < length items" "j < length items" for i j
  proof -
    have "pt_regions p ! i = pt_regions p ! j \<longleftrightarrow> i = j" using ij g(2) next_id_inj by metis
    then show ?thesis using region_edges [OF d(1, 2, 4) ij] groups_edges(1) [OF p(2) ij(1)] by simp
  qed
  note mem = groups_mem [OF p(2)]
  have "bt_get (pt_block_region p) b = Some (rg_region_id r)" if "r \<in> set (pt_regions p)" "b \<in> set (rg_block_ids r)" for r b
    using mem [OF that(1)] that(2) d(4) g by auto
  moreover have "if rg_role r = Chunk
      then length (rg_block_ids r) \<le> max_chunk_blocks opts \<and> (\<forall>b \<in> set (rg_block_ids r). scc_of (cx_succs idx) b = {b})
      else 1 < length (rg_block_ids r) \<and> (\<forall>b \<in> set (rg_block_ids r). scc_of (cx_succs idx) b = set (rg_block_ids r)) \<and>
        (rg_role r = Dispatcher \<longleftrightarrow> min_dispatcher_scc opts \<le> length (rg_block_ids r))"
    if r: "r \<in> set (pt_regions p)" for r
  proof -
    obtain i where i: "i < length items" "r = pt_regions p ! i" using mem [OF r] by blast
    have "items ! i \<in> set (todo idx opts sccs)" using i(1) sccs(2) by simp
    from todo_roles [OF sccs(1) this] show ?thesis using i by (simp add: g split: if_splits)
  qed
  moreover have "rg_region_id r' \<in> set (rg_succ_regions r) \<longleftrightarrow>
      r \<noteq> r' \<and> (\<exists>b \<in> set (rg_block_ids r). \<exists>s \<in> set (rg_block_ids r'). s \<in> set (cx_succs idx ! b))"
    if rr: "r \<in> set (pt_regions p)" "r' \<in> set (pt_regions p)" for r r'
  proof -
    obtain i j where "i < length items" "r = pt_regions p ! i" "j < length items" "r' = pt_regions p ! j"
      using mem [OF rr(1)] mem [OF rr(2)] by blast
    then show ?thesis using edge [of i j] by (simp only: g)
  qed
  ultimately show ?thesis using p(1) d(1, 2) groups_graph_wf [OF p(2)] unfolding ids [symmetric] by blast
qed

theorem partition_is_the_region_graph_witness:
  "\<exists>p. partition_cfg sample_cfg default_partition_options = Some (Inr p) \<and> region_graph_wf p \<and>
     distinct (concat (map rg_block_ids (pt_regions p))) \<and> set (concat (map rg_block_ids (pt_regions p))) = {..<4} \<and>
     (\<forall>r \<in> set (pt_regions p). length (rg_block_ids r) \<le> 64 \<or> rg_role r \<noteq> Chunk)"
proof -
  have "0 < max_chunk_blocks default_partition_options" "max_chunk_blocks default_partition_options = 64" "length (cx_block_eas sample_cfg) = 4"
    by (simp_all add: default_partition_options_def sample_cfg_def)
  with partition_is_the_region_graph [OF sample_cfg_wf, of default_partition_options] show ?thesis by metis
qed

section \<open>Graphs from the worker\<close>

lemma index_of_less: "index_of eas e = Some i \<Longrightarrow> i < length eas"
  unfolding index_of_def by (drule map_of_SomeD) (auto simp: enumerate0_def in_set_enumerate_eq)

definition succs_ok :: "usize \<Rightarrow> usize list list \<Rightarrow> bool" where
  "succs_ok n g \<longleftrightarrow> length g = n \<and> (\<forall>ss \<in> set g. distinct ss \<and> (\<forall>w \<in> set ss. w < n))"

lemma add_succ_ok:
  assumes "succs_ok (length eas) g"
  shows "succs_ok (length eas) (add_succ eas g e)"
proof -
  have g: "length g = length eas" "distinct (g ! fi) \<and> (\<forall>w \<in> set (g ! fi). w < length eas)" if "fi < length eas" for fi
    using assms that nth_mem [of fi g] unfolding succs_ok_def by auto
  have "succs_ok (length eas) (g[fi := g ! fi @ [ti]])" if "fi < length eas" "ti < length eas" "ti \<notin> set (g ! fi)" for fi ti
    using assms that g [OF that(1)] by (auto simp: succs_ok_def dest!: set_update_subset_insert [THEN subsetD])
  then show ?thesis using assms index_of_less
    by (auto simp: add_succ_def not_le split: option.splits)
qed

lemma cfg_index_from_graph_succs: "succs_ok (length (graph_eas graph)) (cx_succs (cfg_index_from_graph graph))"
proof -
  have "succs_ok (length (graph_eas graph)) g \<Longrightarrow> succs_ok (length (graph_eas graph)) (foldl (add_succ (graph_eas graph)) g es)" for g es
    by (induction es arbitrary: g) (simp_all add: add_succ_ok)
  moreover have "succs_ok n (replicate n [])" for n by (simp add: succs_ok_def)
  ultimately show ?thesis by (simp add: cfg_index_from_graph_def Let_def)
qed

text \<open>Every graph the worker sends gives a well-formed index, whatever addresses its edges name:
  edges to addresses that are not nodes are dropped. The bound on the node count is that of a
  \<open>Vec\<close>.\<close>

lemma cfg_index_from_graph_wf:
  assumes "length (unwrap_or (as_array (jidx graph ''nodes'')) []) < UNSEEN"
  shows "cfg_wf (cfg_index_from_graph graph)"
proof -
  let ?nodes = "unwrap_or (as_array (jidx graph ''nodes'')) []"
  have "length (sort_dedup xs) \<le> length xs" for xs :: "u64 list"
    using remdups_adj_length [of "sort xs"] by (simp add: sort_dedup_def)
  then have "length (graph_eas graph) \<le> length (List.map_filter (\<lambda>n. as_u64 (jidx n ''ea'')) ?nodes)" unfolding graph_eas_def .
  also have "\<dots> \<le> length ?nodes" by (simp add: map_filter_def)
  finally show ?thesis using assms cfg_index_from_graph_succs [of graph]
    by (auto simp: cfg_wf_def succs_ok_def cfg_index_from_graph_def Let_def)
qed

lemma partition_from_graph_returns:
  assumes "length (unwrap_or (as_array (jidx graph ''nodes'')) []) < UNSEEN" "0 < max_chunk_blocks opts"
  shows "\<exists>p. partition_from_graph graph ea opts = Some (Inr p) \<and> region_graph_wf p \<and> pt_function_ea p = ea"
proof -
  from partition_groups [OF cfg_index_from_graph_wf [OF assms(1)] assms(2)] obtain p items where
    "partition_cfg (cfg_index_from_graph graph) opts = Some (Inr p)" "groups (cfg_index_from_graph graph) opts p items" by blast
  then show ?thesis using groups_graph_wf
    by (intro exI [of _ "p\<lparr>pt_function_ea := ea\<rparr>"]) (auto simp: partition_from_graph_def region_graph_wf_def)
qed

text \<open>The indirect flags are stored by position in the worker's node list, the blocks by sorted
  address: with nodes out of order a flag lands on another block.\<close>

lemma indirect_flag_on_wrong_block:
  "let idx = cfg_index_from_graph (JObj [(''nodes'', JArr [JObj [(''ea'', ju 32), (''indirect'', JBool True)], JObj [(''ea'', ju 16)]])])
   in cx_block_eas idx = [16, 32] \<and> cx_indirect idx = [True, False]"
  by code_simp

end
