(* ===== verification/Dataflow.thy ===== *)
theory Dataflow
  imports Regions
begin

text \<open>
  \<open>crates/rmcp-broker/src/dataflow.rs\<close>: the pass that carries facts along the region graph. A region
  is processed once all its predecessors are; the pass stops when nothing is ready, when the
  iteration budget is spent or at the deadline, and reports the regions it did not reach. The clock
  is the argument \<open>elapsed\<close>, read once per iteration. The closure parameter of the source is never
  called and is left out. The file proves that predecessors come first, that the facts of a region are
  the join of what its processed predecessors sent, within their cap, and that an acyclic region graph
  converges.
\<close>

section \<open>Data\<close>

datatype confidence = Confirmed | Heuristic | Unknown

record fact =
  fa_key :: string
  fa_value :: "u64 option"
  fa_confidence :: confidence

record region_facts =
  rf_region_id :: string
  rf_out_facts :: "fact list"
  rf_in_requests :: "string list"

record dataflow_result =
  dr_in_facts :: "(string, fact list) btree"
  dr_completed :: "string list"
  dr_frontier :: "string list"
  dr_iterations :: usize
  dr_converged :: bool
  dr_stop_reason :: string

record dataflow_limits =
  max_iterations :: usize
  max_facts_per_region :: usize
  deadline :: nat

definition default_dataflow_limits :: dataflow_limits where
  "default_dataflow_limits = \<lparr>max_iterations = 32, max_facts_per_region = 512, deadline = 30 * 10 ^ 9\<rparr>"

section \<open>The pass\<close>

record flow =
  fl_in_facts :: "(string, fact list) btree"
  fl_completed :: "string list"
  fl_pending :: "string list"
  fl_next :: "string list"

definition find_region :: "partition_t \<Rightarrow> string \<Rightarrow> region option" where
  "find_region p rid = List.find (\<lambda>r. rg_region_id r = rid) (pt_regions p)"

definition fact_cap_warning :: "nat \<Rightarrow> nat \<Rightarrow> string \<Rightarrow> string" where
  "fact_cap_warning have' cap succ =
     ''WARN: fact cap '' @ show_nat have' @ ''/'' @ show_nat cap @ '' reached at '' @ succ"

fun add_facts :: "usize \<Rightarrow> string \<Rightarrow> fact list \<Rightarrow> fact list \<Rightarrow> fact list \<times> string list" where
  "add_facts cap succ [] entry = (entry, [])"
| "add_facts cap succ (f # fs) entry =
     (if f \<in> set entry then add_facts cap succ fs entry
      else if length entry < cap then add_facts cap succ fs (entry @ [f])
      else (entry, [fact_cap_warning (length entry) cap succ]))"

definition all_preds_done :: "partition_t \<Rightarrow> string \<Rightarrow> string list \<Rightarrow> string \<Rightarrow> bool" where
  "all_preds_done p rid completed succ =
     (case find_region p succ of
        None \<Rightarrow> False
      | Some r \<Rightarrow> list_all (\<lambda>q. q = rid \<or> q \<in> set completed) (rg_pred_regions r))"

definition to_succ :: "dataflow_limits \<Rightarrow> partition_t \<Rightarrow> string \<Rightarrow> region_facts \<Rightarrow> flow \<Rightarrow> string \<Rightarrow> flow" where
  "to_succ l p rid rf st succ =
     (let (entry, warns) = add_facts (max_facts_per_region l) succ (rf_out_facts rf) (unwrap_or (bt_get (fl_in_facts st) succ) []);
          st1 = st\<lparr>fl_in_facts := bt_insert succ entry (fl_in_facts st), fl_completed := fl_completed st @ warns\<rparr>
      in if all_preds_done p rid (fl_completed st1) succ \<and> succ \<in> set (fl_pending st1)
         then st1\<lparr>fl_pending := removeAll succ (fl_pending st1), fl_next := fl_next st1 @ [succ]\<rparr>
         else st1)"

definition process :: "dataflow_limits \<Rightarrow> partition_t \<Rightarrow> (string, region_facts) btree \<Rightarrow> flow \<Rightarrow> string \<Rightarrow> flow" where
  "process l p facts st rid =
     (let st1 = st\<lparr>fl_completed := fl_completed st @ [rid]\<rparr> in
      case bt_get facts rid of
        None \<Rightarrow> st1
      | Some rf \<Rightarrow> foldl (to_succ l p rid rf) st1
          (case find_region p rid of None \<Rightarrow> [] | Some r \<Rightarrow> rg_succ_regions r))"

text \<open>The outer loop: the iteration count, what is ready, and the reason it stopped with (empty
  when nothing was ready any more).\<close>

function flow_loop ::
  "dataflow_limits \<Rightarrow> partition_t \<Rightarrow> (string, region_facts) btree \<Rightarrow> (nat \<Rightarrow> nat) \<Rightarrow> usize \<Rightarrow> string list \<Rightarrow> flow \<Rightarrow>
   usize \<times> string list \<times> string \<times> flow" where
  "flow_loop l p facts elapsed n ready st =
     (if ready = [] then (n, ready, [], st)
      else if n \<ge> max_iterations l then (n, ready, ''work budget ('' @ show_nat (max_iterations l) @ '')'', st)
      else if elapsed n \<ge> deadline l then (n, ready, ''deadline'', st)
      else
        (let st1 = foldl (process l p facts) (st\<lparr>fl_next := []\<rparr>) ready
         in flow_loop l p facts elapsed (n + 1) (fl_next st1) st1))"
  by pat_completeness auto
termination
  by (relation "measure (\<lambda>(l, p, facts, elapsed, n, ready, st). max_iterations l - n)") auto

declare flow_loop.simps [simp del]

definition initial_flow :: "partition_t \<Rightarrow> flow" where
  "initial_flow p =
     \<lparr>fl_in_facts = [], fl_completed = [],
      fl_pending = map rg_region_id (filter (\<lambda>r. rg_pred_regions r \<noteq> []) (pt_regions p)), fl_next = []\<rparr>"

definition initial_ready :: "partition_t \<Rightarrow> string list" where
  "initial_ready p = map rg_region_id (filter (\<lambda>r. rg_pred_regions r = []) (pt_regions p))"

definition stop_text :: "string list \<Rightarrow> string \<Rightarrow> flow \<Rightarrow> bool \<times> string" where
  "stop_text ready stop st =
     (if ready = [] \<and> stop = [] then
        if fl_pending st = [] then (True, ''converged'')
        else (False, ''frontier settled: '' @ show_nat (length (fl_pending st)) @ '' region(s) with unsatisfied preds'')
      else (False, stop))"

definition run_dataflow ::
  "partition_t \<Rightarrow> (string, region_facts) btree \<Rightarrow> dataflow_limits \<Rightarrow> (nat \<Rightarrow> nat) \<Rightarrow> dataflow_result" where
  "run_dataflow p facts l elapsed =
     (let (n, ready, stop, st) = flow_loop l p facts elapsed 0 (initial_ready p) (initial_flow p);
          (conv, why) = stop_text ready stop st
      in \<lparr>dr_in_facts = fl_in_facts st, dr_completed = fl_completed st,
          dr_frontier = filter (\<lambda>rid. rid \<notin> set (fl_completed st)) (map rg_region_id (pt_regions p)),
          dr_iterations = n, dr_converged = conv, dr_stop_reason = why\<rparr>)"

section \<open>Invariant\<close>

definition ids :: "partition_t \<Rightarrow> string set" where
  "ids p = set (map rg_region_id (pt_regions p))"

definition preds :: "partition_t \<Rightarrow> string \<Rightarrow> string set" where
  "preds p x = {q. \<exists>r \<in> set (pt_regions p). rg_region_id r = x \<and> q \<in> set (rg_pred_regions r)}"

text \<open>Every predecessor of a processed region was processed before it.\<close>

definition preds_first :: "partition_t \<Rightarrow> string list \<Rightarrow> bool" where
  "preds_first p xs \<longleftrightarrow> (\<forall>k < length xs. preds p (xs ! k) \<subseteq> set (take k xs))"

definition open_regions :: "string list \<Rightarrow> flow \<Rightarrow> string list" where
  "open_regions ready st = ready @ fl_next st @ fl_pending st"

definition flow_shape :: "partition_t \<Rightarrow> string list \<Rightarrow> flow \<Rightarrow> bool" where
  "flow_shape p ready st \<longleftrightarrow> distinct (open_regions ready st) \<and> set (open_regions ready st) = ids p - set (fl_completed st) \<and>
     distinct (filter (\<lambda>x. x \<in> ids p) (fl_completed st)) \<and> preds_first p (fl_completed st) \<and>
     (\<forall>x \<in> set ready \<union> set (fl_next st). preds p x \<subseteq> set (fl_completed st))"

definition facts_ok :: "dataflow_limits \<Rightarrow> partition_t \<Rightarrow> (string, region_facts) btree \<Rightarrow> flow \<Rightarrow> bool" where
  "facts_ok l p facts st \<longleftrightarrow> (\<forall>x fs. bt_get (fl_in_facts st) x = Some fs \<longrightarrow> distinct fs \<and> length fs \<le> max_facts_per_region l \<and>
     (\<forall>f \<in> set fs. \<exists>q \<in> preds p x. q \<in> set (fl_completed st) \<and> (\<exists>rf. bt_get facts q = Some rf \<and> f \<in> set (rf_out_facts rf))))"

definition waiting :: "partition_t \<Rightarrow> flow \<Rightarrow> string set \<Rightarrow> bool" where
  "waiting p st S \<longleftrightarrow> (\<forall>x \<in> set (fl_pending st). preds p x \<subseteq> set (fl_completed st) \<longrightarrow> x \<in> S)"

lemma graph_wfD:
  assumes "region_graph_wf p" "r \<in> set (pt_regions p)"
  shows "q \<in> set (rg_pred_regions r) \<Longrightarrow> q \<in> ids p \<and> q \<noteq> rg_region_id r"
    "q \<in> set (rg_succ_regions r) \<Longrightarrow> q \<in> ids p \<and> q \<noteq> rg_region_id r"
    "r' \<in> set (pt_regions p) \<Longrightarrow> rg_region_id r' \<in> set (rg_succ_regions r) \<longleftrightarrow> rg_region_id r \<in> set (rg_pred_regions r')"
    "r' \<in> set (pt_regions p) \<Longrightarrow> rg_region_id r' = rg_region_id r \<Longrightarrow> r' = r"
proof -
  have sub: "set (rg_succ_regions r) \<union> set (rg_pred_regions r) \<subseteq> ids p - {rg_region_id r}"
    using assms unfolding region_graph_wf_def ids_def by blast
  show "q \<in> set (rg_pred_regions r) \<Longrightarrow> q \<in> ids p \<and> q \<noteq> rg_region_id r" using sub by blast
  show "q \<in> set (rg_succ_regions r) \<Longrightarrow> q \<in> ids p \<and> q \<noteq> rg_region_id r" using sub by blast
  show "r' \<in> set (pt_regions p) \<Longrightarrow> rg_region_id r' \<in> set (rg_succ_regions r) \<longleftrightarrow> rg_region_id r \<in> set (rg_pred_regions r')"
    using assms unfolding region_graph_wf_def by blast
  show "r' \<in> set (pt_regions p) \<Longrightarrow> rg_region_id r' = rg_region_id r \<Longrightarrow> r' = r"
    using assms unfolding region_graph_wf_def distinct_map inj_on_def by blast
qed

lemma find_region_SomeD: "find_region p x = Some r \<Longrightarrow> r \<in> set (pt_regions p) \<and> rg_region_id r = x"
  unfolding find_region_def find_Some_iff by auto

lemma find_region_eq:
  assumes "region_graph_wf p" "r \<in> set (pt_regions p)"
  shows "find_region p (rg_region_id r) = Some r"
proof -
  have "find_region p (rg_region_id r) \<noteq> None" using assms(2) by (auto simp: find_region_def find_None_iff)
  then show ?thesis using find_region_SomeD graph_wfD(4) [OF assms] by blast
qed

lemma preds_eq:
  assumes "region_graph_wf p" "r \<in> set (pt_regions p)"
  shows "preds p (rg_region_id r) = set (rg_pred_regions r)"
  using assms(2) graph_wfD(4) [OF assms] unfolding preds_def by blast

lemma preds_subset_ids: "region_graph_wf p \<Longrightarrow> preds p x \<subseteq> ids p - {x}"
  unfolding preds_def using graph_wfD(1) by blast

lemma succ_dual:
  assumes "region_graph_wf p" "find_region p rid = Some r"
  shows "succ \<in> set (rg_succ_regions r) \<longleftrightarrow> rid \<in> preds p succ"
proof -
  from find_region_SomeD [OF assms(2)] have r: "r \<in> set (pt_regions p)" "rg_region_id r = rid" by auto
  show ?thesis
  proof
    assume s: "succ \<in> set (rg_succ_regions r)"
    then obtain r' where "r' \<in> set (pt_regions p)" "rg_region_id r' = succ" using graph_wfD(2) [OF assms(1) r(1)] by (auto simp: ids_def)
    then show "rid \<in> preds p succ" using graph_wfD(3) [OF assms(1) r(1)] s r(2) unfolding preds_def by blast
  next
    assume "rid \<in> preds p succ"
    then show "succ \<in> set (rg_succ_regions r)" using graph_wfD(3) [OF assms(1) r(1)] r(2) unfolding preds_def by blast
  qed
qed

lemma warning_not_id: "region_graph_wf p \<Longrightarrow> fact_cap_warning a b c \<notin> ids p"
proof -
  have "fact_cap_warning a b c \<noteq> next_id n" for n by (simp add: fact_cap_warning_def next_id_def)
  then show "region_graph_wf p \<Longrightarrow> ?thesis" unfolding region_graph_wf_def ids_def by blast
qed

lemma preds_warning: "region_graph_wf p \<Longrightarrow> x \<notin> ids p \<Longrightarrow> preds p x = {}"
  by (auto simp: preds_def ids_def)

lemma preds_first_snoc: "preds_first p (xs @ [x]) \<longleftrightarrow> preds_first p xs \<and> preds p x \<subseteq> set xs"
  by (auto simp: preds_first_def nth_append less_Suc_eq)

lemma add_facts_ok:
  assumes "distinct entry" "length entry \<le> cap" "add_facts cap succ fs entry = (entry', warns)"
  shows "distinct entry'" "length entry' \<le> cap" "set entry' \<subseteq> set entry \<union> set fs"
    "warns = [] \<or> (\<exists>n. warns = [fact_cap_warning n cap succ])"
  using assms by (induction cap succ fs entry rule: add_facts.induct) (auto split: if_splits)

lemma all_preds_done_iff:
  assumes "region_graph_wf p" "succ \<in> ids p" "rid \<in> set completed"
  shows "all_preds_done p rid completed succ \<longleftrightarrow> preds p succ \<subseteq> set completed"
proof -
  obtain r where "r \<in> set (pt_regions p)" "rg_region_id r = succ" using assms(2) by (auto simp: ids_def)
  then show ?thesis using assms find_region_eq preds_eq by (fastforce simp: all_preds_done_def list_all_iff)
qed

section \<open>One region\<close>

lemma to_succ_cases:
  assumes "region_graph_wf p" "succ \<in> ids p" "rid \<in> set (fl_completed st)"
  obtains entry warns where
    "add_facts (max_facts_per_region l) succ (rf_out_facts rf) (unwrap_or (bt_get (fl_in_facts st) succ) []) = (entry, warns)"
    "fl_in_facts (to_succ l p rid rf st succ) = bt_insert succ entry (fl_in_facts st)"
    "fl_completed (to_succ l p rid rf st succ) = fl_completed st @ warns"
    "if preds p succ \<subseteq> set (fl_completed st @ warns) \<and> succ \<in> set (fl_pending st)
     then fl_pending (to_succ l p rid rf st succ) = removeAll succ (fl_pending st) \<and> fl_next (to_succ l p rid rf st succ) = fl_next st @ [succ]
     else fl_pending (to_succ l p rid rf st succ) = fl_pending st \<and> fl_next (to_succ l p rid rf st succ) = fl_next st"
proof -
  obtain entry warns where a: "add_facts (max_facts_per_region l) succ (rf_out_facts rf) (unwrap_or (bt_get (fl_in_facts st) succ) []) = (entry, warns)"
    by fastforce
  have "all_preds_done p rid (fl_completed st @ warns) succ \<longleftrightarrow> preds p succ \<subseteq> set (fl_completed st @ warns)"
    using assms by (intro all_preds_done_iff) auto
  with a show thesis by (intro that [OF a]) (simp_all add: to_succ_def Let_def)
qed

lemma warns_outside:
  assumes "region_graph_wf p" "warns = [] \<or> (\<exists>n. warns = [fact_cap_warning n cap succ])"
  shows "set warns \<inter> ids p = {}" "preds_first p (xs @ warns) = preds_first p xs"
    "preds p x \<subseteq> set (xs @ warns) \<longleftrightarrow> preds p x \<subseteq> set xs" "filter (\<lambda>x. x \<in> ids p) (xs @ warns) = filter (\<lambda>x. x \<in> ids p) xs"
proof -
  show out: "set warns \<inter> ids p = {}" using assms(2) warning_not_id [OF assms(1)] by auto
  show "preds_first p (xs @ warns) = preds_first p xs"
    using assms(2) warning_not_id [OF assms(1)] preds_warning [OF assms(1)] by (auto simp: preds_first_snoc)
  show "preds p x \<subseteq> set (xs @ warns) \<longleftrightarrow> preds p x \<subseteq> set xs" using out preds_subset_ids [OF assms(1), of x] by auto
  show "filter (\<lambda>x. x \<in> ids p) (xs @ warns) = filter (\<lambda>x. x \<in> ids p) xs" using out by (simp add: filter_empty_conv) blast
qed

lemma entry_ok:
  assumes "facts_ok l p facts st"
  shows "distinct (unwrap_or (bt_get (fl_in_facts st) x) [])" "length (unwrap_or (bt_get (fl_in_facts st) x) []) \<le> max_facts_per_region l"
  using assms by (cases "bt_get (fl_in_facts st) x"; simp add: facts_ok_def)+

lemma to_succ_inv:
  assumes wf: "region_graph_wf p" and succ: "succ \<in> ids p" "rid \<in> preds p succ" and rid: "rid \<in> set (fl_completed st)"
    and rf: "bt_get facts rid = Some rf" and inv: "flow_shape p ready st" "facts_ok l p facts st" "waiting p st S"
  shows "flow_shape p ready (to_succ l p rid rf st succ)" "facts_ok l p facts (to_succ l p rid rf st succ)"
    "waiting p (to_succ l p rid rf st succ) (S - {succ})" "set (fl_completed st) \<subseteq> set (fl_completed (to_succ l p rid rf st succ))"
proof -
  let ?s = "to_succ l p rid rf st succ"
  from to_succ_cases [OF wf succ(1) rid] obtain entry warns where s:
    "add_facts (max_facts_per_region l) succ (rf_out_facts rf) (unwrap_or (bt_get (fl_in_facts st) succ) []) = (entry, warns)"
    "fl_in_facts ?s = bt_insert succ entry (fl_in_facts st)" "fl_completed ?s = fl_completed st @ warns"
    "if preds p succ \<subseteq> set (fl_completed st @ warns) \<and> succ \<in> set (fl_pending st)
     then fl_pending ?s = removeAll succ (fl_pending st) \<and> fl_next ?s = fl_next st @ [succ]
     else fl_pending ?s = fl_pending st \<and> fl_next ?s = fl_next st" by metis
  note a = add_facts_ok [OF entry_ok [OF inv(2)] s(1)]
  note w = warns_outside [OF wf a(4)]
  note s4 = s(4) [unfolded w(3)]
  show "set (fl_completed st) \<subseteq> set (fl_completed ?s)" by (simp add: s(3))
  show "waiting p ?s (S - {succ})"
    using inv(3) s4 unfolding waiting_def s(3) w(3) by (auto split: if_splits)
  have "set (open_regions ready ?s) = set (open_regions ready st)" "distinct (open_regions ready ?s)"
    using s4 inv(1) unfolding flow_shape_def open_regions_def by (auto split: if_splits simp: distinct_removeAll)
  then show "flow_shape p ready ?s"
    using inv(1) s4 w(1) unfolding flow_shape_def s(3) w(2-4) by (auto split: if_splits)
  show "facts_ok l p facts ?s"
    unfolding facts_ok_def s(2, 3) bt_get_insert
  proof (intro allI impI)
    fix x fs
    assume get: "(if x = succ then Some entry else bt_get (fl_in_facts st) x) = Some fs"
    have old: "\<exists>q \<in> preds p x. q \<in> set (fl_completed st) \<and> (\<exists>rf. bt_get facts q = Some rf \<and> f \<in> set (rf_out_facts rf))"
      if "f \<in> set (unwrap_or (bt_get (fl_in_facts st) x) [])" for f
      using inv(2) that unfolding facts_ok_def by (cases "bt_get (fl_in_facts st) x") auto
    show "distinct fs \<and> length fs \<le> max_facts_per_region l \<and> (\<forall>f \<in> set fs. \<exists>q \<in> preds p x. q \<in> set (fl_completed st @ warns) \<and>
        (\<exists>rf. bt_get facts q = Some rf \<and> f \<in> set (rf_out_facts rf)))"
    proof (cases "x = succ")
      case True
      then have "fs = entry" using get by simp
      moreover have "\<exists>q \<in> preds p x. q \<in> set (fl_completed st) \<and> (\<exists>rf. bt_get facts q = Some rf \<and> f \<in> set (rf_out_facts rf))"
        if "f \<in> set entry" for f using that a(3) old rf rid succ(2) True by blast
      ultimately show ?thesis using a(1, 2) by fastforce
    next
      case False
      then show ?thesis using get inv(2) unfolding facts_ok_def by fastforce
    qed
  qed
qed

lemma to_succs_inv:
  assumes "region_graph_wf p" "\<forall>x \<in> set succs. rid \<in> preds p x" "bt_get facts rid = Some rf"
    "rid \<in> set (fl_completed st)" "flow_shape p ready st" "facts_ok l p facts st" "waiting p st S"
  shows "flow_shape p ready (foldl (to_succ l p rid rf) st succs) \<and> facts_ok l p facts (foldl (to_succ l p rid rf) st succs) \<and>
    waiting p (foldl (to_succ l p rid rf) st succs) (S - set succs)"
  using assms
proof (induction succs arbitrary: st S)
  case (Cons x succs)
  have x: "x \<in> ids p" "rid \<in> preds p x" using Cons.prems(2) preds_warning [OF assms(1), of x] by auto
  note t = to_succ_inv [OF assms(1) x Cons.prems(4, 3, 5-7)]
  show ?case using Cons.IH [OF assms(1) _ assms(3) _ t(1-3)] Cons.prems(2, 4) t(4) by (auto simp: Diff_insert2 [symmetric])
qed simp

lemma flow_shape_push:
  assumes "region_graph_wf p" "flow_shape p (rid # ready) st"
  shows "flow_shape p ready (st\<lparr>fl_completed := fl_completed st @ [rid]\<rparr>)"
  using assms by (auto simp: flow_shape_def open_regions_def preds_first_snoc)

lemma facts_ok_mono:
  assumes "facts_ok l p facts st" "set (fl_completed st) \<subseteq> set (fl_completed st')" "fl_in_facts st' = fl_in_facts st"
  shows "facts_ok l p facts st'"
  unfolding facts_ok_def assms(3)
proof (intro allI impI)
  fix x fs assume "bt_get (fl_in_facts st) x = Some fs"
  with assms(1, 2) show "distinct fs \<and> length fs \<le> max_facts_per_region l \<and> (\<forall>f \<in> set fs. \<exists>q \<in> preds p x. q \<in> set (fl_completed st') \<and>
      (\<exists>rf. bt_get facts q = Some rf \<and> f \<in> set (rf_out_facts rf)))"
    unfolding facts_ok_def by (meson subsetD)
qed

lemma process_inv:
  assumes wf: "region_graph_wf p" and inv: "flow_shape p (rid # ready) st" "facts_ok l p facts st" "waiting p st S"
    and S: "S = {} \<and> bt_get facts rid \<noteq> None \<or> S = UNIV"
  shows "flow_shape p ready (process l p facts st rid)" "facts_ok l p facts (process l p facts st rid)"
    "waiting p (process l p facts st rid) S"
proof -
  let ?st = "st\<lparr>fl_completed := fl_completed st @ [rid]\<rparr>"
  have rid: "rid \<in> ids p" using inv(1) by (auto simp: flow_shape_def open_regions_def)
  then obtain r where r: "find_region p rid = Some r" using find_region_eq [OF wf] by (auto simp: ids_def)
  have succs: "x \<in> set (rg_succ_regions r) \<longleftrightarrow> rid \<in> preds p x" for x by (rule succ_dual [OF wf r])
  have shape: "flow_shape p ready ?st" by (rule flow_shape_push [OF wf inv(1)])
  have facts: "facts_ok l p facts ?st" using inv(2) by (rule facts_ok_mono) auto
  have wait: "waiting p ?st (S \<union> set (rg_succ_regions r))"
    using inv(3) by (auto simp: waiting_def succs)
  have pushed: "rid \<in> set (fl_completed ?st)" by simp
  show "flow_shape p ready (process l p facts st rid)" "facts_ok l p facts (process l p facts st rid)"
    "waiting p (process l p facts st rid) S"
  proof (atomize (full), cases "bt_get facts rid")
    case None
    then show "flow_shape p ready (process l p facts st rid) \<and> facts_ok l p facts (process l p facts st rid) \<and>
        waiting p (process l p facts st rid) S"
      using shape facts S by (simp add: process_def waiting_def)
  next
    case (Some rf)
    let ?st' = "foldl (to_succ l p rid rf) ?st (rg_succ_regions r)"
    have "process l p facts st rid = ?st'" using Some r by (simp add: process_def)
    moreover have "flow_shape p ready ?st' \<and> facts_ok l p facts ?st' \<and> waiting p ?st' (S \<union> set (rg_succ_regions r) - set (rg_succ_regions r))"
      using succs by (intro to_succs_inv [OF wf _ Some pushed shape facts wait]) simp
    ultimately show "flow_shape p ready (process l p facts st rid) \<and> facts_ok l p facts (process l p facts st rid) \<and>
        waiting p (process l p facts st rid) S"
      unfolding waiting_def by auto
  qed
qed

lemma round_inv:
  assumes "region_graph_wf p" "flow_shape p ready st" "facts_ok l p facts st" "waiting p st S"
    "S = {} \<and> (\<forall>x \<in> ids p. bt_get facts x \<noteq> None) \<or> S = UNIV"
  shows "flow_shape p [] (foldl (process l p facts) st ready) \<and> facts_ok l p facts (foldl (process l p facts) st ready) \<and>
    waiting p (foldl (process l p facts) st ready) S"
  using assms(2-4)
proof (induction ready arbitrary: st)
  case (Cons rid ready)
  have "rid \<in> ids p" using Cons.prems(1) by (auto simp: flow_shape_def open_regions_def)
  then have "S = {} \<and> bt_get facts rid \<noteq> None \<or> S = UNIV" using assms(5) by blast
  from process_inv [OF assms(1) Cons.prems this] show ?case using Cons.IH by simp
qed simp

section \<open>The loop\<close>

lemma to_succ_completed: "set (fl_completed st) \<subseteq> set (fl_completed (to_succ l p rid rf st succ))"
  by (auto simp: to_succ_def Let_def split: prod.splits)

lemma process_completed: "insert rid (set (fl_completed st)) \<subseteq> set (fl_completed (process l p facts st rid))"
proof -
  have "set (fl_completed st) \<subseteq> set (fl_completed (foldl (to_succ l p rid rf) st xs))" for st rf xs
    by (induction xs arbitrary: st) (auto dest: to_succ_completed [THEN subsetD])
  from this [of "st\<lparr>fl_completed := fl_completed st @ [rid]\<rparr>"] show ?thesis
    by (simp add: process_def Let_def subset_iff split: option.splits)
qed

lemma round_completed: "set ready \<union> set (fl_completed st) \<subseteq> set (fl_completed (foldl (process l p facts) st ready))"
proof (induction ready arbitrary: st)
  case (Cons rid ready)
  then show ?case using process_completed [of rid st l p facts] by fastforce
qed simp

definition processed :: "partition_t \<Rightarrow> flow \<Rightarrow> nat" where
  "processed p st = card (ids p \<inter> set (fl_completed st))"

lemma finite_ids [simp]: "finite (ids p)"
  by (simp add: ids_def)

lemma round_progress:
  assumes "flow_shape p ready st" "ready \<noteq> []"
  shows "processed p st < processed p (foldl (process l p facts) st ready)"
proof -
  have "hd ready \<in> ids p - set (fl_completed st)" using assms by (auto simp: flow_shape_def open_regions_def)
  moreover have "hd ready \<in> set (fl_completed (foldl (process l p facts) st ready))"
    using round_completed [of ready st l p facts] assms(2) by auto
  ultimately have "ids p \<inter> set (fl_completed st) \<subset> ids p \<inter> set (fl_completed (foldl (process l p facts) st ready))"
    using round_completed [of ready st l p facts] by blast
  then show ?thesis unfolding processed_def by (intro psubset_card_mono) auto
qed

lemma flow_loop_inv:
  assumes wf: "region_graph_wf p" and S: "S = {} \<and> (\<forall>x \<in> ids p. bt_get facts x \<noteq> None) \<or> S = UNIV"
    and inv: "flow_shape p ready (st\<lparr>fl_next := []\<rparr>)" "facts_ok l p facts st" "waiting p st S" "n \<le> max_iterations l" "n \<le> processed p st"
    and res: "flow_loop l p facts elapsed n ready st = (n', ready', stop, st')"
  shows "flow_shape p ready' (st'\<lparr>fl_next := []\<rparr>) \<and> facts_ok l p facts st' \<and> waiting p st' S \<and> n' \<le> max_iterations l \<and>
    n' \<le> processed p st' \<and> (ready' = [] \<longleftrightarrow> stop = []) \<and> (ready' \<noteq> [] \<longrightarrow> n' = max_iterations l \<or> deadline l \<le> elapsed n')"
  using inv res
proof (induction "max_iterations l - n" arbitrary: n ready st rule: less_induct)
  case less
  show ?case
  proof (cases "ready = [] \<or> max_iterations l \<le> n \<or> deadline l \<le> elapsed n")
    case True
    with less.prems show ?thesis by (subst (asm) flow_loop.simps) (auto split: if_splits)
  next
    case False
    let ?st = "foldl (process l p facts) (st\<lparr>fl_next := []\<rparr>) ready"
    have loop: "flow_loop l p facts elapsed n ready st = flow_loop l p facts elapsed (n + 1) (fl_next ?st) ?st"
      using False by (subst flow_loop.simps) (simp add: Let_def)
    have "facts_ok l p facts (st\<lparr>fl_next := []\<rparr>)" "waiting p (st\<lparr>fl_next := []\<rparr>) S"
      using less.prems(2, 3) by (simp_all add: facts_ok_def waiting_def)
    from round_inv [OF wf less.prems(1) this S]
    have r: "flow_shape p [] ?st" "facts_ok l p facts ?st" "waiting p ?st S" by blast+
    have "flow_shape p (fl_next ?st) (?st\<lparr>fl_next := []\<rparr>)" using r(1) by (simp add: flow_shape_def open_regions_def)
    moreover have "n + 1 \<le> processed p ?st"
      using round_progress [OF less.prems(1), of l facts] less.prems(5) False by (simp add: processed_def)
    moreover have "max_iterations l - (n + 1) < max_iterations l - n" "n + 1 \<le> max_iterations l" using False by auto
    ultimately show ?thesis
      using less.hyps [of "n + 1" "fl_next ?st" ?st] r(2, 3) less.prems(6) unfolding loop by blast
  qed
qed

lemma initial_inv:
  assumes "region_graph_wf p"
  shows "flow_shape p (initial_ready p) (initial_flow p)" "facts_ok l p facts (initial_flow p)" "waiting p (initial_flow p) {}"
proof -
  have "distinct (map rg_region_id (pt_regions p))" using assms by (simp add: region_graph_wf_def)
  then have id: "distinct (map rg_region_id (filter P (pt_regions p)))" for P by (rule distinct_map_filter)
  have "rg_region_id r \<noteq> rg_region_id r'" if "r \<in> set (pt_regions p)" "r' \<in> set (pt_regions p)"
    "rg_pred_regions r = []" "rg_pred_regions r' \<noteq> []" for r r'
    using that graph_wfD(4) [OF assms that(1, 2)] by auto
  then have "distinct (initial_ready p @ fl_pending (initial_flow p))"
    using id by (auto simp: initial_ready_def initial_flow_def)
  then show "flow_shape p (initial_ready p) (initial_flow p)"
    by (auto simp: flow_shape_def open_regions_def initial_flow_def preds_first_def initial_ready_def ids_def preds_def
      dest: graph_wfD(4) [OF assms])
  show "facts_ok l p facts (initial_flow p)" by (simp add: facts_ok_def initial_flow_def)
  show "waiting p (initial_flow p) {}"
    by (auto simp: waiting_def initial_flow_def preds_eq [OF assms])
qed

section \<open>What the pass guarantees\<close>

lemma run_flow:
  assumes "region_graph_wf p" "S = {} \<and> (\<forall>x \<in> ids p. bt_get facts x \<noteq> None) \<or> S = UNIV"
  obtains n ready stop st where "flow_loop l p facts elapsed 0 (initial_ready p) (initial_flow p) = (n, ready, stop, st)"
    "flow_shape p ready (st\<lparr>fl_next := []\<rparr>)" "facts_ok l p facts st" "waiting p st S" "n \<le> max_iterations l" "n \<le> processed p st"
    "ready = [] \<longleftrightarrow> stop = []" "ready \<noteq> [] \<Longrightarrow> n = max_iterations l \<or> deadline l \<le> elapsed n"
proof -
  obtain n ready stop st where loop: "flow_loop l p facts elapsed 0 (initial_ready p) (initial_flow p) = (n, ready, stop, st)"
    by (rule prod_cases4)
  have "flow_shape p (initial_ready p) (initial_flow p\<lparr>fl_next := []\<rparr>)" "waiting p (initial_flow p) S"
    using initial_inv [OF assms(1)] by (auto simp: initial_flow_def waiting_def)
  from flow_loop_inv [OF assms this(1) initial_inv(2) [OF assms(1)] this(2) _ _ loop] show thesis
    using that [OF loop] by simp
qed

lemma settled_acyclic:
  assumes "region_graph_wf p" "acyclic {(q, x). q \<in> preds p x}" "waiting p st {}" "set (fl_pending st) = ids p - set (fl_completed st)"
  shows "fl_pending st = []"
proof (rule ccontr)
  let ?R = "{(q, x). q \<in> preds p x}"
  assume "fl_pending st \<noteq> []"
  then obtain x0 where x0: "x0 \<in> set (fl_pending st)" by (meson last_in_set)
  have "?R \<subseteq> ids p \<times> ids p" using preds_subset_ids [OF assms(1)] preds_warning [OF assms(1)] by fastforce
  then have "finite ?R" by (rule finite_subset) simp
  then have "wf ?R" using assms(2) by (rule finite_acyclic_wf)
  from wfE_min [OF this x0] obtain x where x: "x \<in> set (fl_pending st)" "\<And>q. q \<in> preds p x \<Longrightarrow> q \<notin> set (fl_pending st)" by auto
  then have "preds p x \<subseteq> set (fl_completed st)" using preds_subset_ids [OF assms(1), of x] assms(4) by blast
  then show False using assms(3) x(1) by (auto simp: waiting_def)
qed

text \<open>
  When the region graph has no cycle, every region has its facts, the budget allows one
  iteration per region and the deadline does not pass, the fact pass converges: every region is
  processed and the frontier is empty.
\<close>

lemma acyclic_dataflow_converges:
  assumes "region_graph_wf p" "acyclic {(q, x). q \<in> preds p x}" "\<forall>x \<in> ids p. bt_get facts x \<noteq> None"
    "length (pt_regions p) \<le> max_iterations l" "\<forall>n. elapsed n < deadline l"
  shows "dr_converged (run_dataflow p facts l elapsed) \<and> dr_frontier (run_dataflow p facts l elapsed) = [] \<and>
    ids p \<subseteq> set (dr_completed (run_dataflow p facts l elapsed))"
proof -
  obtain n ready stop st where
    f: "flow_loop l p facts elapsed 0 (initial_ready p) (initial_flow p) = (n, ready, stop, st)"
      "flow_shape p ready (st\<lparr>fl_next := []\<rparr>)" "waiting p st {}" "n \<le> processed p st"
      "ready = [] \<longleftrightarrow> stop = []" "ready \<noteq> [] \<Longrightarrow> n = max_iterations l \<or> deadline l \<le> elapsed n"
    by (rule run_flow [OF assms(1), of "{}" facts l elapsed]) (use assms(3) in simp_all)
  have "ready = []"
  proof (rule ccontr)
    assume ne: "ready \<noteq> []"
    then have "hd ready \<in> ids p - set (fl_completed st)" using f(2) by (auto simp: flow_shape_def open_regions_def)
    then have "processed p st < card (ids p)" unfolding processed_def by (intro psubset_card_mono) auto
    also have "\<dots> \<le> length (pt_regions p)" unfolding ids_def using card_length [of "map rg_region_id (pt_regions p)"] by simp
    finally show False using f(4) f(6) [OF ne] assms(4) assms(5) [THEN spec, of n] by linarith
  qed
  moreover from this have open_regions: "set (fl_pending st) = ids p - set (fl_completed st)"
    using f(2) by (simp add: flow_shape_def open_regions_def)
  moreover have "fl_pending st = []" by (rule settled_acyclic [OF assms(1, 2) f(3) open_regions])
  ultimately show ?thesis
    using f(1, 5) by (auto simp: run_dataflow_def stop_text_def ids_def filter_empty_conv)
qed

section \<open>Every fact is delivered\<close>

text \<open>A fact has reached a region, or the region can take no more.\<close>

definition taken :: "dataflow_limits \<Rightarrow> flow \<Rightarrow> string \<Rightarrow> fact \<Rightarrow> bool" where
  "taken l st x f \<longleftrightarrow> (let fs = unwrap_or (bt_get (fl_in_facts st) x) [] in f \<in> set fs \<or> max_facts_per_region l \<le> length fs)"

definition delivered :: "dataflow_limits \<Rightarrow> partition_t \<Rightarrow> (string, region_facts) btree \<Rightarrow> flow \<Rightarrow> bool" where
  "delivered l p facts st \<longleftrightarrow> (\<forall>q \<in> ids p \<inter> set (fl_completed st). \<forall>rf x f. bt_get facts q = Some rf \<longrightarrow> q \<in> preds p x \<longrightarrow>
     f \<in> set (rf_out_facts rf) \<longrightarrow> taken l st x f)"

lemma add_facts_delivers:
  "add_facts cap succ fs entry = (entry', warns) \<Longrightarrow> set entry \<subseteq> set entry' \<and> length entry \<le> length entry' \<and>
     (set fs \<subseteq> set entry' \<or> cap \<le> length entry')"
  by (induction cap succ fs entry rule: add_facts.induct) (auto split: if_splits)

lemma to_succ_facts:
  obtains entry warns where
    "add_facts (max_facts_per_region l) succ (rf_out_facts rf) (unwrap_or (bt_get (fl_in_facts st) succ) []) = (entry, warns)"
    "fl_in_facts (to_succ l p rid rf st succ) = bt_insert succ entry (fl_in_facts st)"
    "fl_completed (to_succ l p rid rf st succ) = fl_completed st @ warns"
  by (rule that [OF prod.collapse [symmetric]]) (simp_all add: to_succ_def Let_def case_prod_unfold)

lemma to_succ_taken:
  "taken l st x f \<Longrightarrow> taken l (to_succ l p rid rf st succ) x f"
  "f \<in> set (rf_out_facts rf) \<Longrightarrow> taken l (to_succ l p rid rf st succ) succ f"
proof -
  obtain entry warns where t:
    "add_facts (max_facts_per_region l) succ (rf_out_facts rf) (unwrap_or (bt_get (fl_in_facts st) succ) []) = (entry, warns)"
    "fl_in_facts (to_succ l p rid rf st succ) = bt_insert succ entry (fl_in_facts st)" by (rule to_succ_facts)
  note a = add_facts_delivers [OF t(1)]
  show "taken l st x f \<Longrightarrow> taken l (to_succ l p rid rf st succ) x f" using a by (auto simp: taken_def t(2) Let_def)
  show "f \<in> set (rf_out_facts rf) \<Longrightarrow> taken l (to_succ l p rid rf st succ) succ f" using a by (auto simp: taken_def t(2) Let_def)
qed

lemma to_succ_ids:
  assumes "region_graph_wf p"
  shows "ids p \<inter> set (fl_completed (to_succ l p rid rf st succ)) = ids p \<inter> set (fl_completed st)"
proof -
  have "snd (add_facts cap x fs entry) = [] \<or> (\<exists>n. snd (add_facts cap x fs entry) = [fact_cap_warning n cap x])" for cap x fs entry
    by (induction cap x fs entry rule: add_facts.induct) auto
  then show ?thesis using to_succ_facts [of l succ rf st p rid] warning_not_id [OF assms] by (metis (no_types) warns_outside(1) [OF assms]
    inf_sup_distrib1 set_append snd_conv sup_bot_right inf_commute)
qed

lemma to_succs_taken:
  "taken l st x f \<Longrightarrow> taken l (foldl (to_succ l p rid rf) st xs) x f"
  "f \<in> set (rf_out_facts rf) \<Longrightarrow> x \<in> set xs \<Longrightarrow> taken l (foldl (to_succ l p rid rf) st xs) x f"
proof -
  have mono: "taken l st x f \<Longrightarrow> taken l (foldl (to_succ l p rid rf) st xs) x f" for st xs
    by (induction xs arbitrary: st) (simp_all add: to_succ_taken(1))
  then show "taken l st x f \<Longrightarrow> taken l (foldl (to_succ l p rid rf) st xs) x f" .
  show "f \<in> set (rf_out_facts rf) \<Longrightarrow> x \<in> set xs \<Longrightarrow> taken l (foldl (to_succ l p rid rf) st xs) x f"
    by (induction xs arbitrary: st) (auto intro: mono to_succ_taken(2))
qed

lemma to_succs_ids:
  "region_graph_wf p \<Longrightarrow> ids p \<inter> set (fl_completed (foldl (to_succ l p rid rf) st xs)) = ids p \<inter> set (fl_completed st)"
  by (induction xs arbitrary: st) (simp_all add: to_succ_ids)

lemma process_delivers:
  assumes wf: "region_graph_wf p" and d: "delivered l p facts st"
  shows "delivered l p facts (process l p facts st rid)"
proof (cases "bt_get facts rid")
  case None
  with d show ?thesis by (auto simp: process_def delivered_def taken_def)
next
  case (Some rf)
  let ?st = "st\<lparr>fl_completed := fl_completed st @ [rid]\<rparr>"
  define xs where "xs = (case find_region p rid of None \<Rightarrow> [] | Some r \<Rightarrow> rg_succ_regions r)"
  have p: "process l p facts st rid = foldl (to_succ l p rid rf) ?st xs" using Some by (simp add: process_def xs_def)
  have same: "taken l ?st = taken l st" by (simp add: taken_def fun_eq_iff)
  show ?thesis unfolding delivered_def p to_succs_ids [OF wf]
  proof (intro ballI allI impI)
    fix q rf' x f
    assume q: "q \<in> ids p \<inter> set (fl_completed ?st)" "bt_get facts q = Some rf'" "q \<in> preds p x" "f \<in> set (rf_out_facts rf')"
    show "taken l (foldl (to_succ l p rid rf) ?st xs) x f"
    proof (cases "q \<in> set (fl_completed st)")
      case True
      with d q have "taken l ?st x f" unfolding same delivered_def by blast
      then show ?thesis by (rule to_succs_taken(1))
    next
      case False
      with q have q': "q = rid" "rf' = rf" using Some by auto
      obtain r where r: "find_region p rid = Some r" using q(1) q'(1) find_region_eq [OF wf] by (auto simp: ids_def)
      have "x \<in> set xs" using succ_dual [OF wf r, of x] q(3) q'(1) by (simp add: xs_def r)
      with q(4) q'(2) show ?thesis by (intro to_succs_taken(2)) simp_all
    qed
  qed
qed

lemma round_delivers:
  assumes "region_graph_wf p"
  shows "delivered l p facts st \<Longrightarrow> delivered l p facts (foldl (process l p facts) st ready)"
  by (induction ready arbitrary: st) (simp_all add: process_delivers [OF assms])

lemma flow_loop_delivers:
  "region_graph_wf p \<Longrightarrow> delivered l p facts st \<Longrightarrow> delivered l p facts (snd (snd (snd (flow_loop l p facts elapsed n ready st))))"
proof (induction l p facts elapsed n ready st rule: flow_loop.induct)
  case (1 l p facts elapsed n ready st)
  have "delivered l p facts (st\<lparr>fl_next := []\<rparr>)" using "1.prems"(2) by (auto simp: delivered_def taken_def)
  then have "delivered l p facts (foldl (process l p facts) (st\<lparr>fl_next := []\<rparr>) ready)" by (rule round_delivers [OF "1.prems"(1)])
  with 1 show ?case by (subst flow_loop.simps) (simp add: Let_def)
qed

text \<open>What the processed predecessors of a region send it.\<close>

definition sent :: "partition_t \<Rightarrow> (string, region_facts) btree \<Rightarrow> string list \<Rightarrow> string \<Rightarrow> fact set" where
  "sent p facts completed x =
     (\<Union>q \<in> preds p x \<inter> set completed. case bt_get facts q of None \<Rightarrow> {} | Some rf \<Rightarrow> set (rf_out_facts rf))"

lemma sent_facts:
  assumes "region_graph_wf p" "facts_ok l p facts st" "delivered l p facts st"
  shows "let fs = unwrap_or (bt_get (fl_in_facts st) x) [] in distinct fs \<and> length fs \<le> max_facts_per_region l \<and>
    set fs \<subseteq> sent p facts (fl_completed st) x \<and> (length fs < max_facts_per_region l \<longrightarrow> set fs = sent p facts (fl_completed st) x)"
proof -
  define fs where "fs = unwrap_or (bt_get (fl_in_facts st) x) []"
  have sub: "set fs \<subseteq> sent p facts (fl_completed st) x"
    using assms(2) by (cases "bt_get (fl_in_facts st) x") (force simp: fs_def facts_ok_def sent_def)+
  have "f \<in> set fs" if "length fs < max_facts_per_region l" "f \<in> sent p facts (fl_completed st) x" for f
  proof -
    from that(2) obtain q rf where q: "q \<in> preds p x" "q \<in> set (fl_completed st)" "bt_get facts q = Some rf" "f \<in> set (rf_out_facts rf)"
      by (auto simp: sent_def split: option.splits)
    then have "taken l st x f" using assms(3) preds_subset_ids [OF assms(1), of x] unfolding delivered_def by blast
    with that(1) show ?thesis by (simp add: taken_def fs_def [symmetric])
  qed
  with sub entry_ok [OF assms(2), of x] show ?thesis by (auto simp: fs_def [symmetric])
qed

text \<open>The order in which the pass takes the regions: predecessors first, and no region twice.\<close>

lemma predecessors_come_first:
  assumes "region_graph_wf p"
  shows "preds_first p (dr_completed (run_dataflow p facts l elapsed))"
    "distinct (filter (\<lambda>x. x \<in> ids p) (dr_completed (run_dataflow p facts l elapsed)))"
proof -
  obtain n ready stop st where "flow_loop l p facts elapsed 0 (initial_ready p) (initial_flow p) = (n, ready, stop, st)"
      "flow_shape p ready (st\<lparr>fl_next := []\<rparr>)"
    by (rule run_flow [OF assms, of UNIV facts l elapsed]) simp_all
  then show "preds_first p (dr_completed (run_dataflow p facts l elapsed))"
    "distinct (filter (\<lambda>x. x \<in> ids p) (dr_completed (run_dataflow p facts l elapsed)))"
    by (simp_all add: run_dataflow_def flow_shape_def split: prod.splits)
qed

text \<open>
  C31: on a region graph with dual predecessor and successor lists, the fact pass ends within its iteration budget and
  loses nothing: the frontier it reports is exactly the regions it did not process, and it reports convergence exactly
  when the frontier is empty. The facts of a region are the join of what its processed predecessors sent: distinct, all of
  them sent, at most the configured number, and all that was sent unless that number is reached. When the graph has no
  cycle, every region has facts, the budget allows one iteration per region and the deadline does not pass, it converges.
\<close>

theorem dataflow_respects_the_graph:
  assumes "region_graph_wf p" "run_dataflow p facts l elapsed = r"
  shows "dr_iterations r \<le> max_iterations l \<and> set (dr_frontier r) = ids p - set (dr_completed r) \<and>
     (dr_converged r \<longleftrightarrow> dr_frontier r = []) \<and>
     (\<forall>x. let fs = unwrap_or (bt_get (dr_in_facts r) x) [] in distinct fs \<and> length fs \<le> max_facts_per_region l \<and>
        set fs \<subseteq> sent p facts (dr_completed r) x \<and>
        (length fs < max_facts_per_region l \<longrightarrow> set fs = sent p facts (dr_completed r) x)) \<and>
     (acyclic {(q, x). q \<in> preds p x} \<and> (\<forall>x \<in> ids p. bt_get facts x \<noteq> None) \<and> length (pt_regions p) \<le> max_iterations l \<and>
        (\<forall>n. elapsed n < deadline l) \<longrightarrow> dr_converged r)"
proof -
  obtain n ready stop st where
    f: "flow_loop l p facts elapsed 0 (initial_ready p) (initial_flow p) = (n, ready, stop, st)"
      "flow_shape p ready (st\<lparr>fl_next := []\<rparr>)" "facts_ok l p facts st" "n \<le> max_iterations l" "ready = [] \<longleftrightarrow> stop = []"
    by (rule run_flow [OF assms(1), of UNIV facts l elapsed]) simp_all
  have r: "r = \<lparr>dr_in_facts = fl_in_facts st, dr_completed = fl_completed st,
      dr_frontier = filter (\<lambda>rid. rid \<notin> set (fl_completed st)) (map rg_region_id (pt_regions p)),
      dr_iterations = n, dr_converged = fst (stop_text ready stop st), dr_stop_reason = snd (stop_text ready stop st)\<rparr>"
    using assms(2) f(1) by (simp add: run_dataflow_def split: prod.splits)
  have frontier: "set (dr_frontier r) = ids p - set (fl_completed st)" by (auto simp: r ids_def)
  have "set ready \<union> set (fl_pending st) = set (dr_frontier r)"
    using f(2) frontier by (simp add: flow_shape_def open_regions_def)
  then have "dr_frontier r = [] \<longleftrightarrow> ready = [] \<and> fl_pending st = []" by (metis Un_empty set_empty)
  then have conv: "dr_converged r \<longleftrightarrow> dr_frontier r = []" using f(5) by (auto simp: r stop_text_def)
  have "delivered l p facts (initial_flow p)" by (simp add: delivered_def initial_flow_def)
  from flow_loop_delivers [OF assms(1) this, of elapsed 0 "initial_ready p"] have "delivered l p facts st" by (simp add: f(1))
  with conv frontier f(4) sent_facts [OF assms(1) f(3)] acyclic_dataflow_converges [OF assms(1), of facts l elapsed] assms(2) show ?thesis
    by (simp add: r)
qed


text \<open>A chain of two regions.\<close>

definition chain :: partition_t where
  "chain = \<lparr>pt_version = 1, pt_function_ea = 0,
     pt_regions = [\<lparr>rg_region_id = ''R1'', rg_role = Chunk, rg_block_eas = [0], rg_block_ids = [0], rg_entry_blocks = [0], rg_exit_blocks = [0],
         rg_pred_regions = [], rg_succ_regions = [''R2''], rg_partition_reason = []\<rparr>,
       \<lparr>rg_region_id = ''R2'', rg_role = Chunk, rg_block_eas = [1], rg_block_ids = [1], rg_entry_blocks = [1], rg_exit_blocks = [1],
         rg_pred_regions = [''R1''], rg_succ_regions = [], rg_partition_reason = []\<rparr>],
     pt_block_region = [(0, ''R1''), (1, ''R2'')], pt_diagnostics = []\<rparr>"

lemma chain_wf: "region_graph_wf chain"
proof -
  have "next_id 0 = ''R1''" "next_id 1 = ''R2''" by (simp_all add: next_id_def text_eval numeral_2_eq_2 [symmetric])
  then have "''R1'' \<in> range next_id" "''R2'' \<in> range next_id" by (metis rangeI)+
  then show ?thesis by (simp add: region_graph_wf_def chain_def)
qed

lemma chain_preds: "{(q, x). q \<in> preds chain x} = {(''R1'', ''R2'')}" "ids chain = {''R1'', ''R2''}"
  by (auto simp: preds_def chain_def ids_def)

definition chain_facts :: "(string, region_facts) btree" where
  "chain_facts = [(''R1'', \<lparr>rf_region_id = ''R1'', rf_out_facts = [\<lparr>fa_key = ''const:rax'', fa_value = Some 7, fa_confidence = Confirmed\<rparr>], rf_in_requests = []\<rparr>),
     (''R2'', \<lparr>rf_region_id = ''R2'', rf_out_facts = [], rf_in_requests = []\<rparr>)]"

definition chain_limits :: dataflow_limits where
  "chain_limits = \<lparr>max_iterations = 4, max_facts_per_region = 8, deadline = 1\<rparr>"

theorem dataflow_respects_the_graph_witness:
  "\<exists>r. run_dataflow chain chain_facts chain_limits (\<lambda>_. 0) = r \<and> dr_converged r \<and> dr_frontier r = [] \<and>
     set (unwrap_or (bt_get (dr_in_facts r) ''R2'') []) = {\<lparr>fa_key = ''const:rax'', fa_value = Some 7, fa_confidence = Confirmed\<rparr>}"
proof -
  define r where "r = run_dataflow chain chain_facts chain_limits (\<lambda>_. 0)"
  have c: "dr_completed r = [''R1'', ''R2'']" "length (unwrap_or (bt_get (dr_in_facts r) ''R2'') []) < max_facts_per_region chain_limits"
    unfolding r_def by code_simp+
  have "preds chain ''R2'' = {''R1''}" by (auto simp: preds_def chain_def)
  then have s: "sent chain chain_facts (dr_completed r) ''R2'' = {\<lparr>fa_key = ''const:rax'', fa_value = Some 7, fa_confidence = Confirmed\<rparr>}"
    by (simp add: sent_def c chain_facts_def bt_get_def)
  have a: "acyclic {(q, x). q \<in> preds chain x}" "\<forall>x \<in> ids chain. bt_get chain_facts x \<noteq> None"
      "length (pt_regions chain) \<le> max_iterations chain_limits" "\<forall>n. (0 :: nat) < deadline chain_limits"
    by (simp_all add: chain_preds acyclic_insert chain_facts_def bt_get_def chain_limits_def) (simp_all add: chain_def acyclic_def)
  from dataflow_respects_the_graph [OF chain_wf r_def [symmetric]]
  obtain t: "dr_converged r \<longleftrightarrow> dr_frontier r = []"
      "length (unwrap_or (bt_get (dr_in_facts r) ''R2'') []) < max_facts_per_region chain_limits \<longrightarrow>
         set (unwrap_or (bt_get (dr_in_facts r) ''R2'') []) = sent chain chain_facts (dr_completed r) ''R2''"
      "dr_converged r"
    using a unfolding Let_def by blast
  from t(1,3) have "dr_frontier r = []" by simp
  moreover from t(2) c(2) have "set (unwrap_or (bt_get (dr_in_facts r) ''R2'') []) = sent chain chain_facts (dr_completed r) ''R2''" by (rule mp)
  ultimately show ?thesis unfolding r_def [symmetric] using t(3) s by simp
qed

section \<open>A loop inside a chunk\<close>

text \<open>Chunks group blocks by position, so a loop between two blocks of one chunk makes the region
  graph cyclic: no region is without predecessors, nothing is ever ready, and the pass ends at once
  with no region processed. The graph is that of a block, a loop of two blocks, and an exit.\<close>

lemma sample_sccs: "tarjan_sccs sample_cfg = Some (Inr [[2, 1], [3], [0]])"
proof -
  have u: "UNSEEN \<noteq> 0" "UNSEEN \<noteq> 1" "UNSEEN \<noteq> 2" "UNSEEN \<noteq> 3" "0 \<noteq> UNSEEN" "1 \<noteq> UNSEEN" "2 \<noteq> UNSEEN" "3 \<noteq> UNSEEN"
    by (simp_all add: UNSEEN_def)
  note u' = u [unfolded eval_nat_numeral, simplified]
  have r: "replicate 4 x = [x, x, x, x]" for x :: 'a by (simp add: numeral_eq_Suc)
  have l: "[0..<4] = [0, 1, 2, 3 :: nat]" by (simp add: upt_rec)
  show ?thesis
    by (simp add: tarjan_sccs_def sample_cfg_def r l tarjan_init_def visit_def u tarjan_while.simps tarjan_step_def
      next_succ_def finish_def propagate_def pop_scc_def u' Let_def eval_nat_numeral sort_by_len_def)
qed

lemma sample_partition:
  "\<exists>p. partition_cfg sample_cfg default_partition_options = Some (Inr p) \<and>
     map (\<lambda>r. (rg_region_id r, rg_block_ids r, rg_pred_regions r)) (pt_regions p) = [(''R1'', [1, 2], [''R2'']), (''R2'', [0, 3], [''R1''])]"
proof -
  have "case partition_sccs sample_cfg default_partition_options [[2, 1], [3], [0]] of Inl _ \<Rightarrow> False | Inr p \<Rightarrow>
     map (\<lambda>r. (rg_region_id r, rg_block_ids r, rg_pred_regions r)) (pt_regions p) = [(''R1'', [1, 2], [''R2'']), (''R2'', [0, 3], [''R1''])]"
    by code_simp
  then show ?thesis by (auto simp: partition_cfg_def sample_sccs split: sum.splits)
qed

lemma loop_in_chunk_stalls:
  "\<exists>p. partition_cfg sample_cfg default_partition_options = Some (Inr p) \<and>
     (\<forall>facts l elapsed. dr_completed (run_dataflow p facts l elapsed) = [] \<and> dr_iterations (run_dataflow p facts l elapsed) = 0 \<and>
        dr_frontier (run_dataflow p facts l elapsed) = [''R1'', ''R2''] \<and> \<not> dr_converged (run_dataflow p facts l elapsed))"
proof -
  obtain p where p: "partition_cfg sample_cfg default_partition_options = Some (Inr p)"
    "map (\<lambda>r. (rg_region_id r, rg_block_ids r, rg_pred_regions r)) (pt_regions p) = [(''R1'', [1, 2], [''R2'']), (''R2'', [0, 3], [''R1''])]"
    using sample_partition that by (elim exE conjE)
  then obtain a b where "pt_regions p = [a, b]" "rg_region_id a = ''R1''" "rg_region_id b = ''R2''" "rg_pred_regions a \<noteq> []" "rg_pred_regions b \<noteq> []"
    by (auto simp: map_eq_Cons_conv)
  then show ?thesis using p(1)
    by (intro exI [of _ p]) (simp add: run_dataflow_def initial_ready_def initial_flow_def flow_loop.simps stop_text_def)
qed

end
