(* ===== verification/Hierarchical.thy ===== *)
theory Hierarchical
  imports Tools Regions Dataflow
begin

text \<open>
  \<open>crates/rmcp-broker/src/largefn_tools.rs\<close>: the two workflows over large functions. A preflight on the
  worker's facts decides the mode; a normal function takes the ordinary path, a larger one is cut
  into regions, each analysed in a disposable worker. \<open>run_isolated\<close> is the two steps of \<open>Isolation\<close>
  with no other run between them; what the child does is the moment's. The second workflow drills into
  one region of the same partition.
\<close>

section \<open>Helpers\<close>

definition CFG_MAX_NODES :: u64 where
  "CFG_MAX_NODES = 200000"

definition CFG_MAX_EDGES :: u64 where
  "CFG_MAX_EDGES = 400000"

definition clamp_u64 :: "u64 \<Rightarrow> u64 \<Rightarrow> u64 \<Rightarrow> u64" where
  "clamp_u64 lo hi x = max lo (min x hi)"

definition saturating_succ :: "u64 \<Rightarrow> u64" where
  "saturating_succ x = (if x = - 1 then x else x + 1)"

text \<open>\<open>Debug\<close> of a duration, in nanoseconds: a decimal number without trailing zeros and a unit.\<close>

definition debug_decimal :: "nat \<Rightarrow> nat \<Rightarrow> nat \<Rightarrow> string \<Rightarrow> string" where
  "debug_decimal whole frac width unit =
     (let ds = trim_end_matches (pad_left width (show_nat frac)) ''0''
      in show_nat whole @ (if frac = 0 then [] else ''.'' @ ds) @ unit)"

definition debug_duration :: "nat \<Rightarrow> string" where
  "debug_duration n =
     (if n \<ge> 10 ^ 9 then debug_decimal (n div 10 ^ 9) (n mod 10 ^ 9) 9 ''s''
      else if n \<ge> 10 ^ 6 then debug_decimal (n div 10 ^ 6) (n mod 10 ^ 6) 6 ''ms''
      else if n \<ge> 10 ^ 3 then debug_decimal (n div 10 ^ 3) (n mod 10 ^ 3) 3 [CHR 0xC2, CHR 0xB5, CHR ''s'']
      else show_nat n @ ''ns'')"

definition role_json :: "region_role \<Rightarrow> json" where
  "role_json r = JStr (case r of Loop \<Rightarrow> ''loop'' | Dispatcher \<Rightarrow> ''dispatcher'' | Chunk \<Rightarrow> ''chunk'')"

text \<open>The density is never computed and keeps its default.\<close>

definition complexity_json :: "function_complexity \<Rightarrow> json" where
  "complexity_json c = JObj [(''byte_size'', ju (fc_byte_size c)), (''blocks'', jn (fc_blocks c)), (''edges'', jn (fc_edges c)),
     (''cyclomatic'', jn (fc_cyclomatic c)), (''indirect_blocks'', jn (fc_indirect_blocks c)), (''direct_calls'', jn (fc_direct_calls c)),
     (''indirect_calls'', jn (fc_indirect_calls c)), (''switches'', jn (fc_switches c)), (''chunks'', jn (fc_chunks c)),
     (''sccs'', jn (fc_sccs c)), (''max_scc_size'', jn (fc_max_scc_size c)), (''loops'', jn (fc_loops c)),
     (''instruction_density'', JFloat f_zero), (''decompiler_available'', JBool (fc_decompiler_available c))]"

definition mode_name :: "analysis_mode \<Rightarrow> string" where
  "mode_name m = (case m of Normal \<Rightarrow> ''normal'' | Large \<Rightarrow> ''large_region'' | Pathological \<Rightarrow> ''pathological'')"

definition fetch_graph :: "(nat \<Rightarrow> moment) \<Rightarrow> usize \<Rightarrow> u64 \<Rightarrow> json tool" where
  "fetch_graph mos a ea = wcall mos a ''graph'' (JObj [(''ea'', JStr (hex_alt ea)), (''kind'', JStr ''cfg''), (''depth'', jn 1),
     (''max_nodes'', ju CFG_MAX_NODES), (''max_edges'', ju CFG_MAX_EDGES)])"

text \<open>\<open>partition_from_graph\<close> as a step of a tool: it may not return, or panic.\<close>

definition partition_step :: "json \<Rightarrow> u64 \<Rightarrow> partition_t tool" where
  "partition_step graph ea = tret (case partition_from_graph graph ea default_partition_options of
       None \<Rightarrow> Inl Diverges
     | Some r \<Rightarrow> rmap_err err_from r)"

section \<open>Disposable runs\<close>

definition isolated :: "string + pid \<Rightarrow> child_env \<Rightarrow> string \<Rightarrow> string \<Rightarrow> json \<Rightarrow> nat \<Rightarrow> iso \<Rightarrow> disposable_outcome result \<times> iso" where
  "isolated spawn env db_path mthd params hard_timeout s = (case begin_run spawn s of
       (Inl e, s') \<Rightarrow> (Inl e, s')
     | (Inr pid, s') \<Rightarrow> end_run env db_path mthd params hard_timeout pid s')"

definition run_isolated ::
  "(nat \<Rightarrow> moment) \<Rightarrow> path \<Rightarrow> path option \<Rightarrow> string \<Rightarrow> string \<Rightarrow> json \<Rightarrow> nat \<Rightarrow> broker \<Rightarrow> disposable_outcome result \<times> broker" where
  "run_isolated mos worker_exe ida_dir db_path mthd params hard_timeout st =
     (let mo = mos (bk_moment st);
          (r, s) = isolated (mo_spawn mo worker_exe ida_dir) (mo_child mo) db_path mthd params hard_timeout (bk_iso st)
      in (r, st\<lparr>bk_iso := s, bk_moment := bk_moment st + 1\<rparr>))"

section \<open>The hierarchical workflow\<close>

definition first_ea :: "region \<Rightarrow> u64" where
  "first_ea r = (case rg_block_eas r of [] \<Rightarrow> 0 | x # _ \<Rightarrow> x)"

definition last_ea :: "region \<Rightarrow> u64" where
  "last_ea r = (if rg_block_eas r = [] then 0 else last (rg_block_eas r))"

text \<open>Status and evidence of a region, whether it counts as analysed, and whether as a failure of the
  decompiler.\<close>

definition region_status :: "region \<Rightarrow> disposable_outcome result \<Rightarrow> string \<times> json \<times> bool \<times> bool" where
  "region_status r outcome =
     (let unaffected = (''note'', JStr ''disposable worker killed; primary session unaffected'') in
      case outcome of
        Inr (DOk v) \<Rightarrow> (''complete'', v, True, False)
      | Inr (DBadResponse dtl _) \<Rightarrow> (''partial_fallback_raw'', JObj [(''fallback'', JStr ''raw_ida_disassembly''),
          (''hexrays_error'', JStr dtl), (''blocks'', jn (length (rg_block_eas r)))], True, True)
      | Inr (DTimeout after stage) \<Rightarrow> (''timeout'', JObj [(''hexrays_error'', JStr (''hard timeout after '' @ debug_duration after)),
          (''stage'', JStr stage), unaffected], False, False)
      | Inr (DCrashed dtl stage) \<Rightarrow> (''crashed'', JObj [(''hexrays_error'', JStr dtl), (''stage'', JStr stage), unaffected], False, False)
      | Inl e \<Rightarrow> (''rejected'', JObj [(''error'', JStr (error_to_string e)),
          (''note'', JStr ''isolation cap or setup failure; primary session unaffected'')], False, False))"

record tally =
  sw_outcomes :: "json list"
  sw_facts :: "(string, region_facts) btree"
  sw_analyzed :: usize
  sw_hexrays_failures :: usize

definition tally_init :: tally where
  "tally_init = \<lparr>sw_outcomes = [], sw_facts = [], sw_analyzed = 0, sw_hexrays_failures = 0\<rparr>"

definition region_params :: "region \<Rightarrow> json" where
  "region_params r = JObj [(''ea'', JStr (hex_alt (first_ea r))), (''end_ea'', JStr (hex_alt (last_ea r))),
     (''region_id'', JStr (rg_region_id r)), (''role'', role_json (rg_role r)), (''max_insns'', jn 4000)]"

definition record_region :: "region \<Rightarrow> disposable_outcome result \<Rightarrow> tally \<Rightarrow> tally" where
  "record_region r outcome sw =
     (let (status, evidence, analyzed, failed) = region_status r outcome in
      \<lparr>sw_outcomes = sw_outcomes sw @ [JObj [(''region_id'', JStr (rg_region_id r)), (''role'', role_json (rg_role r)),
          (''blocks'', jn (length (rg_block_eas r))), (''status'', JStr status), (''evidence'', evidence)]],
       sw_facts = bt_insert (rg_region_id r) \<lparr>rf_region_id = rg_region_id r, rf_out_facts = [], rf_in_requests = []\<rparr> (sw_facts sw),
       sw_analyzed = sw_analyzed sw + of_bool analyzed,
       sw_hexrays_failures = sw_hexrays_failures sw + of_bool failed\<rparr>)"

fun analyze_regions ::
  "(nat \<Rightarrow> moment) \<Rightarrow> path \<Rightarrow> path option \<Rightarrow> string \<Rightarrow> nat \<Rightarrow> region list \<Rightarrow> tally \<Rightarrow> broker \<Rightarrow> tally \<times> broker" where
  "analyze_regions mos exe dir db_path t [] sw st = (sw, st)"
| "analyze_regions mos exe dir db_path t (r # rs) sw st =
     (let (outcome, st') = run_isolated mos exe dir db_path ''region.evidence'' (region_params r) t st
      in analyze_regions mos exe dir db_path t rs (record_region r outcome sw) st')"

definition overview ::
  "analysis_mode \<Rightarrow> function_complexity \<Rightarrow> u64 \<Rightarrow> partition_t \<Rightarrow> usize \<Rightarrow> tally \<Rightarrow> dataflow_result \<Rightarrow> iso_stats \<Rightarrow> json" where
  "overview m complexity ea p max_regions sw df stats =
     (let total = length (pt_regions p); remaining = total - max_regions in
      JObj [(''mode'', JStr (mode_name m)), (''complexity'', complexity_json complexity), (''function_ea'', JStr (hex_alt ea)),
        (''partition'', JObj [(''version'', jn (unat (pt_version p))), (''regions_total'', jn total), (''regions_requested'', jn max_regions),
           (''regions_skipped'', jn remaining), (''diagnostics'', JArr (map JStr (pt_diagnostics p)))]),
        (''important_regions'', JArr (sw_outcomes sw)),
        (''analysis_status'', JStr (if sw_analyzed sw < total then ''partial'' else ''complete'')),
        (''hexrays_failures'', jn (sw_hexrays_failures sw)),
        (''resume'', JObj [(''frontier'', JArr (map JStr (dr_frontier df))),
           (''hint'', JStr (if remaining > 0
              then ''more regions remain: re-run with a larger max_regions or drill into a region via workflow=function_region''
              else ''drill into a region via workflow=function_region with its region_id''))]),
        (''dataflow'', JObj [(''iterations'', jn (dr_iterations df)), (''converged'', JBool (dr_converged df)),
           (''stop_reason'', JStr (dr_stop_reason df))]),
        (''isolation'', iso_snapshot stats)])"

definition preflight_calls :: "(nat \<Rightarrow> moment) \<Rightarrow> usize \<Rightarrow> u64 \<Rightarrow> (json \<times> json \<times> bool) tool" where
  "preflight_calls mos a ea =
     tbind (wcall mos a ''function_at'' (JObj [(''ea'', JStr (hex_alt ea))])) (\<lambda>func.
     tbind (fetch_graph mos a ea) (\<lambda>graph.
     tbind (wcall mos a ''capabilities'' (JObj [])) (\<lambda>caps.
       tret (Inr (func, graph, unwrap_or (Option.bind (jget caps ''decompile'') as_bool) False)))))"

definition normal_path :: "(nat \<Rightarrow> moment) \<Rightarrow> json \<Rightarrow> string \<Rightarrow> usize \<Rightarrow> function_complexity \<Rightarrow> json tool" where
  "normal_path mos args db a complexity =
     tbind (index_set ''workflow'' (JStr ''function_context'') (remove_key ''db'' args)) (\<lambda>req.
     tbind (wcall mos a ''workflow.run'' (JObj [(''workflow_req'', req)])) (\<lambda>out.
       tret (Inr (JObj [(''db'', JStr db), (''analysis'', out), (''mode'', JStr ''normal''), (''complexity'', complexity_json complexity)]))))"

definition region_sweep ::
  "(nat \<Rightarrow> moment) \<Rightarrow> usize \<Rightarrow> path \<Rightarrow> partition_t \<Rightarrow> usize \<Rightarrow> nat \<Rightarrow> tally tool" where
  "region_sweep mos a exe p max_regions hard_timeout st =
     (let (sw, st') = analyze_regions mos exe (pl_ida_dir (bk_pool st)) (unwrap_or (ws_db_path (pl_heap (bk_pool st) ! a)) [])
            hard_timeout (take max_regions (pt_regions p)) tally_init st
      in (Inr sw, st'))"

definition conclude ::
  "text_fn \<Rightarrow> (nat \<Rightarrow> moment) \<Rightarrow> string \<Rightarrow> analysis_mode \<Rightarrow> function_complexity \<Rightarrow> u64 \<Rightarrow> partition_t \<Rightarrow> usize \<Rightarrow> tally \<Rightarrow> json tool" where
  "conclude ts mos db m complexity ea p max_regions sw st =
     (let df = run_dataflow p (sw_facts sw) default_dataflow_limits (mo_elapsed (mos (bk_moment st)))
      in answer_bounded ts mos ''ida_analyze.function_hierarchical'' db ''analysis''
           (overview m complexity ea p max_regions sw df (is_stats (bk_iso st))) st)"

definition worker_exe_step :: "path tool" where
  "worker_exe_step st = (ok_or (pl_worker_exe (bk_pool st)) (mcp_code ''worker_missing'' ''worker exe not found''), st)"

definition max_regions_arg :: "json \<Rightarrow> usize" where
  "max_regions_arg args = unat (clamp_u64 1 256 (arg_u64 args ''max_regions'' 16))"

text \<open>In nanoseconds.\<close>

definition hard_timeout_arg :: "json \<Rightarrow> nat" where
  "hard_timeout_arg args = unat (clamp_u64 5000 1800000 (arg_u64 args ''hard_timeout_ms'' 120000)) * 10 ^ 6"

text \<open>What follows the preflight, for whatever facts the worker reported.\<close>

definition analyze_function ::
  "text_fn \<Rightarrow> (nat \<Rightarrow> moment) \<Rightarrow> json \<Rightarrow> string \<Rightarrow> usize \<Rightarrow> u64 \<Rightarrow> json \<Rightarrow> json \<Rightarrow> bool \<Rightarrow> json tool" where
  "analyze_function ts mos args db a ea func graph decompiler =
     (let complexity = complexity_from_function_graph func graph decompiler; m = mode default_thresholds complexity in
      if m = Normal then normal_path mos args db a complexity
      else
        tbind (partition_step graph ea) (\<lambda>p.
        tbind worker_exe_step (\<lambda>exe.
        tbind (region_sweep mos a exe p (max_regions_arg args) (hard_timeout_arg args))
          (conclude ts mos db m complexity ea p (max_regions_arg args)))))"

definition tool_analyze_hierarchical :: "text_fn \<Rightarrow> (nat \<Rightarrow> moment) \<Rightarrow> json \<Rightarrow> json tool" where
  "tool_analyze_hierarchical ts mos args = with_session args (\<lambda>db a.
     tbind (need_ea args ''ea'' (''function_hierarchical requires '' @ quoted ''ea'')) (\<lambda>ea.
     tbind (preflight_calls mos a ea) (\<lambda>(func, graph, decompiler). analyze_function ts mos args db a ea func graph decompiler)))"

section \<open>Drilling into a region\<close>

definition hexrays_json :: "disposable_outcome result \<Rightarrow> json" where
  "hexrays_json outcome = (case outcome of
       Inr (DOk v) \<Rightarrow> v
     | Inr (DBadResponse dtl stage) \<Rightarrow> JObj [(''status'', JStr ''fallback_raw''), (''hexrays_error'', JStr dtl), (''stage'', JStr stage)]
     | Inr (DTimeout after stage) \<Rightarrow> JObj [(''status'', JStr ''timeout''), (''after'', JStr (debug_duration after)), (''stage'', JStr stage)]
     | Inr (DCrashed dtl stage) \<Rightarrow> JObj [(''status'', JStr ''crashed''), (''detail'', JStr dtl), (''stage'', JStr stage)]
     | Inl e \<Rightarrow> JObj [(''status'', JStr ''rejected''), (''error'', JStr (error_to_string e))])"

definition region_hexrays :: "(nat \<Rightarrow> moment) \<Rightarrow> json \<Rightarrow> usize \<Rightarrow> region \<Rightarrow> u64 \<Rightarrow> json tool" where
  "region_hexrays mos args a r max_insns st =
     (case (arg_u64 args ''try_hexrays'' 1 = 1, pl_worker_exe (bk_pool st)) of
        (True, Some exe) \<Rightarrow>
          (let (outcome, st') = run_isolated mos exe (pl_ida_dir (bk_pool st)) (unwrap_or (ws_db_path (pl_heap (bk_pool st) ! a)) [])
                 ''region.evidence'' (JObj [(''ea'', JStr (hex_alt (first_ea r))), (''end_ea'', JStr (hex_alt (saturating_succ (last_ea r)))),
                   (''region_id'', JStr (rg_region_id r)), (''role'', role_json (rg_role r)), (''max_insns'', ju max_insns)])
                 (hard_timeout_arg args) st
           in (Inr (hexrays_json outcome), st'))
      | _ \<Rightarrow> (Inr JNull, st))"

definition find_region_step :: "partition_t \<Rightarrow> u64 \<Rightarrow> string \<Rightarrow> region tool" where
  "find_region_step p ea region_id = tret (ok_or (find (\<lambda>r. rg_region_id r = region_id) (pt_regions p))
     (mcp_code ''unknown_region'' (''region '' @ quoted region_id @ '' not in partition of '' @ hex_alt ea @ ''; valid regions: '' @
        join '','' (map rg_region_id (pt_regions p)))))"

definition region_json :: "u64 \<Rightarrow> region \<Rightarrow> json \<Rightarrow> json \<Rightarrow> json" where
  "region_json ea r disasm hexrays = JObj [(''function_ea'', JStr (hex_alt ea)), (''region_id'', JStr (rg_region_id r)),
     (''role'', role_json (rg_role r)), (''blocks'', jn (length (rg_block_eas r))),
     (''block_eas'', JArr (map (\<lambda>b. JStr (hex_alt b)) (rg_block_eas r))), (''pred_regions'', JArr (map JStr (rg_pred_regions r))),
     (''succ_regions'', JArr (map JStr (rg_succ_regions r))), (''partition_reason'', JStr (rg_partition_reason r)),
     (''disassembly'', disasm), (''hexrays'', hexrays)]"

text \<open>What follows the graph, for whatever graph the worker reported.\<close>

definition drill_region ::
  "text_fn \<Rightarrow> (nat \<Rightarrow> moment) \<Rightarrow> json \<Rightarrow> string \<Rightarrow> usize \<Rightarrow> u64 \<Rightarrow> string \<Rightarrow> json \<Rightarrow> json tool" where
  "drill_region ts mos args db a ea region_id graph =
     (let max_insns = clamp_u64 10 20000 (arg_u64 args ''max_insns'' 4000) in
      tbind (partition_step graph ea) (\<lambda>p.
      tbind (find_region_step p ea region_id) (\<lambda>r.
      tbind (wcall mos a ''disassemble'' (JObj [(''ea'', JStr (hex_alt (first_ea r))),
         (''end'', JStr (hex_alt (saturating_succ (last_ea r)))), (''max_insns'', ju max_insns)])) (\<lambda>disasm.
      tbind (region_hexrays mos args a r max_insns) (\<lambda>hexrays.
        answer_bounded ts mos ''ida_analyze.function_region'' db ''region'' (region_json ea r disasm hexrays))))))"

definition tool_analyze_region :: "text_fn \<Rightarrow> (nat \<Rightarrow> moment) \<Rightarrow> json \<Rightarrow> json tool" where
  "tool_analyze_region ts mos args = with_session args (\<lambda>db a.
     tbind (need_ea args ''ea'' (''function_region requires '' @ quoted ''ea'')) (\<lambda>ea.
     tbind (need (arg_str args ''region_id'') (''function_region requires '' @ quoted ''region_id'')) (\<lambda>region_id.
     tbind (fetch_graph mos a ea) (drill_region ts mos args db a ea region_id))))"

end
