(* ===== verification/Wasm_Calls.thy ===== *)
theory Wasm_Calls
  imports Wasm_Module
begin

text \<open>
  \<open>crates/rmcp-wasm/src/calls.rs\<close>: which functions an indirect call can reach. A constant table
  index, when there is one, selects an entry of an element segment; otherwise the targets are the entries of the
  table's segments that have the declared type.
\<close>

datatype wasm_confidence = Confirmed | Candidate | Unresolved

record indirect_target =
  it_site_offset :: u64
  it_table_index :: u32
  it_type_index :: u32
  it_confidence :: wasm_confidence
  it_targets :: "u32 list"
  it_evidence :: "string list"
  it_reason :: string

type_synonym call_site = "u64 \<times> u32 \<times> u32"

abbreviation show_w32 :: "u32 \<Rightarrow> string" where
  "show_w32 w \<equiv> show_nat (unat w)"

definition debug_opt :: "u64 option \<Rightarrow> string" where
  "debug_opt o' = (case o' of None \<Rightarrow> ''None'' | Some w \<Rightarrow> ''Some('' @ show_u64 w @ '')'')"

definition table_segments :: "module_model \<Rightarrow> u32 \<Rightarrow> element_segment list" where
  "table_segments m table_index = filter (\<lambda>s. es_table_index s = table_index) (mm_elements m)"

definition segment_evidence :: "element_segment \<Rightarrow> string" where
  "segment_evidence s = ''elem '' @ show_w32 (es_index s) @ '' feeds table '' @ show_w32 (es_table_index s) @ '' at offset '' @ debug_opt (es_offset s) @
     '' ('' @ show_nat (length (es_func_indices s)) @ '' entries)''"

definition compatible :: "module_model \<Rightarrow> u32 \<Rightarrow> u32 list" where
  "compatible m tidx = map fe_index (filter (\<lambda>f. fe_type_index f = tidx) (mm_functions m))"

definition covers :: "u64 \<Rightarrow> element_segment \<Rightarrow> bool" where
  "covers idx s = (case es_offset s of None \<Rightarrow> False | Some off \<Rightarrow> off \<le> idx \<and> unat (idx - off) < length (es_func_indices s))"

definition slot_of :: "u64 \<Rightarrow> element_segment \<Rightarrow> nat" where
  "slot_of idx s = (case es_offset s of None \<Rightarrow> 0 | Some off \<Rightarrow> unat (idx - off))"

definition type_of :: "module_model \<Rightarrow> u32 \<Rightarrow> u32 option" where
  "type_of m f = map_option fe_type_index (find (\<lambda>e. fe_index e = f) (mm_functions m))"

definition resolve_constant :: "module_model \<Rightarrow> call_site \<Rightarrow> string list \<Rightarrow> u64 \<Rightarrow> indirect_target" where
  "resolve_constant m site evidence idx =
     (let (at, tidx, table_index) = site;
          unresolved = (\<lambda>reason. \<lparr>it_site_offset = at, it_table_index = table_index, it_type_index = tidx, it_confidence = Unresolved,
             it_targets = compatible m tidx, it_evidence = evidence, it_reason = reason\<rparr>)
      in case find (covers idx) (table_segments m table_index) of
           None \<Rightarrow> unresolved (''constant index '' @ show_u64 idx @ '' not covered by any element segment'')
         | Some seg \<Rightarrow>
             (let slot = slot_of idx seg; f = es_func_indices seg ! slot in
              if type_of m f = Some tidx
              then \<lparr>it_site_offset = at, it_table_index = table_index, it_type_index = tidx, it_confidence = Confirmed, it_targets = [f],
                     it_evidence = evidence @ [''constant index '' @ show_u64 idx @ '' -> elem '' @ show_w32 (es_index seg) @ '' slot '' @ show_nat slot],
                     it_reason = ''constant index proven by SSA; element segment covers it''\<rparr>
              else unresolved (''constant index '' @ show_u64 idx @ '' resolves to fn '' @ show_w32 f @
                '' with a mismatched type (dead dispatch path?)'')))"

definition resolve_bounded :: "module_model \<Rightarrow> call_site \<Rightarrow> string list \<Rightarrow> indirect_target" where
  "resolve_bounded m site evidence =
     (let (at, tidx, table_index) = site;
          in_table = filter (\<lambda>f. f \<in> set (compatible m tidx)) (concat (map es_func_indices (table_segments m table_index)));
          targets = sort_dedup in_table
      in \<lparr>it_site_offset = at, it_table_index = table_index, it_type_index = tidx,
           it_confidence = (if targets = [] then Unresolved else Candidate), it_targets = targets, it_evidence = evidence,
           it_reason = ''runtime index; bounded to type-compatible entries in element segments''\<rparr>)"

definition resolve_site :: "module_model \<Rightarrow> (u64, u64) btree \<Rightarrow> call_site \<Rightarrow> indirect_target" where
  "resolve_site m const_indices site =
     (let evidence = map segment_evidence (table_segments m (snd (snd site))) in
      case bt_get const_indices (fst site) of
        Some idx \<Rightarrow> resolve_constant m site evidence idx
      | None \<Rightarrow> resolve_bounded m site evidence)"

definition resolve_indirect :: "module_model \<Rightarrow> call_site list \<Rightarrow> (u64, u64) btree \<Rightarrow> indirect_target list" where
  "resolve_indirect m sites const_indices = map (resolve_site m const_indices) sites"

section \<open>What a resolution says\<close>

text \<open>The function in a slot of a table once the element segments have been copied in, one after the other.\<close>

definition table_slot :: "module_model \<Rightarrow> u32 \<Rightarrow> u64 \<Rightarrow> u32 option" where
  "table_slot m tb i = fold (\<lambda>s r. if covers i s then Some (es_func_indices s ! slot_of i s) else r) (table_segments m tb) None"

definition table_entries :: "module_model \<Rightarrow> u32 \<Rightarrow> u32 set" where
  "table_entries m tb = \<Union> (set ` es_func_indices ` set (table_segments m tb))"

lemma find_distinct: "distinct (map f xs) \<Longrightarrow> find (\<lambda>x. f x = a) xs = Some x \<longleftrightarrow> x \<in> set xs \<and> f x = a"
  by (induction xs) (auto simp: image_iff)

lemma compatible_iff:
  assumes "distinct (map fe_index (mm_functions m))"
  shows "f \<in> set (compatible m tidx) \<longleftrightarrow> type_of m f = Some tidx"
  using find_distinct [OF assms, of f] by (force simp: compatible_def type_of_def)

lemma fold_last: "fold (\<lambda>s r. if p s then Some (g s) else r) ss r0 =
    (case filter p ss of [] \<Rightarrow> r0 | _ \<Rightarrow> Some (g (last (filter p ss))))"
  by (induction ss arbitrary: r0) (auto split: list.splits)

lemma find_eq_hd: "find p xs = (case filter p xs of [] \<Rightarrow> None | x # _ \<Rightarrow> Some x)"
  by (induction xs) auto

text \<open>
  C16: with a constant index into a slot that exactly one element segment of the table covers, the call is confirmed, with
  the function the slot holds at run time as its only target, when that function is one the module defines with the
  declared type, and unresolved otherwise; with a constant index no segment covers it is unresolved. Without a constant
  index the targets are exactly the functions the module defines with the declared type among the entries of the table's
  segments, in order and without repetition, and the call is unresolved exactly when there is none. Slots that several
  segments cover are not covered, and imported functions never count as targets.
\<close>

theorem indirect_targets_sound:
  assumes "distinct (map fe_index (mm_functions m))" "t \<in> set (resolve_indirect m sites const_indices)"
  shows "case bt_get const_indices (it_site_offset t) of
      Some i \<Rightarrow> (case filter (covers i) (table_segments m (it_table_index t)) of
          [] \<Rightarrow> it_confidence t = Unresolved
        | [_] \<Rightarrow> (\<exists>f. table_slot m (it_table_index t) i = Some f \<and>
            (if type_of m f = Some (it_type_index t) then it_confidence t = Confirmed \<and> it_targets t = [f] else it_confidence t = Unresolved))
        | _ \<Rightarrow> True)
    | None \<Rightarrow> it_targets t = sorted_list_of_set {f \<in> table_entries m (it_table_index t). type_of m f = Some (it_type_index t)} \<and>
        it_confidence t = (if it_targets t = [] then Unresolved else Candidate)"
proof -
  obtain at tidx tb where t: "t = resolve_site m const_indices (at, tidx, tb)" using assms(2) by (auto simp: resolve_indirect_def)
  show ?thesis
  proof (cases "bt_get const_indices at")
    case None
    let ?fs = "filter (\<lambda>f. f \<in> set (compatible m tidx)) (concat (map es_func_indices (table_segments m tb)))"
    have "set ?fs = {f \<in> table_entries m tb. type_of m f = Some tidx}"
      by (auto simp: compatible_iff [OF assms(1)] table_entries_def)
    then have "sort_dedup ?fs = sorted_list_of_set {f \<in> table_entries m tb. type_of m f = Some tidx}"
      by (simp only: sort_dedup_eq_sorted_list_of_set)
    moreover have "it_targets t = sort_dedup ?fs" "it_confidence t = (if sort_dedup ?fs = [] then Unresolved else Candidate)"
        "it_site_offset t = at" "it_type_index t = tidx" "it_table_index t = tb"
      by (simp_all add: t None resolve_site_def resolve_bounded_def Let_def)
    ultimately show ?thesis using None by simp
  next
    case (Some i)
    then show ?thesis
      by (auto simp: t resolve_site_def resolve_constant_def table_slot_def fold_last find_eq_hd Let_def split: option.splits list.splits if_splits)
  qed
qed

definition two_segments :: module_model where
  "two_segments = empty_model\<lparr>mm_functions := [\<lparr>fe_index = 1, fe_type_index = 0, fe_code_offset = 0, fe_code_size = 0, fe_local_types = [], fe_name = None\<rparr>,
       \<lparr>fe_index = 2, fe_type_index = 0, fe_code_offset = 0, fe_code_size = 0, fe_local_types = [], fe_name = None\<rparr>],
     mm_elements := [\<lparr>es_index = 0, es_table_index = 0, es_offset = Some 0, es_func_indices = [1, 2]\<rparr>,
       \<lparr>es_index = 1, es_table_index = 0, es_offset = Some 0, es_func_indices = [2]\<rparr>]\<rparr>"

lemmas calls_eval = resolve_site_def resolve_bounded_def resolve_constant_def compatible_def table_segments_def covers_def slot_of_def type_of_def
  two_segments_def empty_model_def bt_get_def Let_def

theorem indirect_targets_sound_witness:
  "it_targets (resolve_site two_segments [(8, 1)] (8, 0, 0)) = [2] \<and> table_slot two_segments 0 1 = Some 2 \<and>
   it_targets (resolve_site two_segments [] (8, 0, 0)) = sorted_list_of_set {f \<in> table_entries two_segments 0. type_of two_segments f = Some 0}"
proof -
  have d: "distinct (map fe_index (mm_functions two_segments))" by (simp add: two_segments_def)
  let ?t = "resolve_site two_segments [(8, 1)] (8, 0, 0)" let ?u = "resolve_site two_segments [] (8, 0, 0)"
  have t: "it_site_offset ?t = 8" "it_confidence ?t = Confirmed" "it_table_index ?t = 0" "it_targets ?t = [2]" by (simp_all add: calls_eval)
  have c: "filter (covers 1) (table_segments two_segments 0) = [\<lparr>es_index = 0, es_table_index = 0, es_offset = Some 0, es_func_indices = [1, 2]\<rparr>]"
    by (simp add: calls_eval)
  have u: "it_site_offset ?u = 8" "it_table_index ?u = 0" "it_type_index ?u = 0" by (simp_all add: calls_eval)
  show ?thesis
    using indirect_targets_sound [OF d, of ?t "[(8, 0, 0)]" "[(8, 1)]"] indirect_targets_sound [OF d, of ?u "[(8, 0, 0)]" "[]"] t u c
    by (auto simp: resolve_indirect_def bt_get_def split: if_splits)
qed

text \<open>The first segment that covers the slot is taken, but the last one copied in is what the slot holds.\<close>

lemma confirmed_target_is_overwritten:
  "it_confidence (resolve_site two_segments [(8, 0)] (8, 0, 0)) = Confirmed" "it_targets (resolve_site two_segments [(8, 0)] (8, 0, 0)) = [1]"
  "table_slot two_segments 0 0 = Some 2"
  by (simp_all add: calls_eval table_slot_def)

text \<open>Imported functions are not in the model's function list, so a table entry that is one is never a target.\<close>

lemma imported_target_is_missed:
  "it_targets (resolve_site (two_segments\<lparr>mm_elements := [\<lparr>es_index = 0, es_table_index = 0, es_offset = Some 0, es_func_indices = [0]\<rparr>],
     mm_imports := [\<lparr>ie_module = ''env'', ie_name = ''f'', ie_kind = ''func'', ie_type_index = Some 0, ie_wasi = False\<rparr>], mm_imported_functions := 1\<rparr>) []
     (8, 0, 0)) = []"
  by (simp add: calls_eval sort_dedup_def)

end
