(* ===== verification/Wasm_Pseudo.thy ===== *)
theory Wasm_Pseudo
  imports Wasm_Cfg
begin

text \<open>
  \<open>crates/rmcp-wasm/src/pseudo.rs\<close>: the text of a function body as pseudocode. The loop keeps the text so
  far, the indentation and a stack of expressions (its top last).
\<close>

section \<open>The renderer\<close>

record render_vars =
  rv_out :: string
  rv_indent :: nat
  rv_estack :: "string list"

definition pop_or :: "string \<Rightarrow> string list \<Rightarrow> string \<times> string list" where
  "pop_or d st = (if st = [] then (d, []) else (last st, butlast st))"

text \<open>One line at the current indentation; the newline ends it.\<close>

definition line :: "nat \<Rightarrow> string \<Rightarrow> string" where
  "line k s = concat (replicate k ''  '') @ s @ [CHR 0x0A]"

definition emit :: "string \<Rightarrow> render_vars \<Rightarrow> render_vars" where
  "emit s v = v\<lparr>rv_out := rv_out v @ line (rv_indent v) s\<rparr>"

definition push_expr :: "string \<Rightarrow> render_vars \<Rightarrow> render_vars" where
  "push_expr e v = v\<lparr>rv_estack := rv_estack v @ [e]\<rparr>"

definition with_top :: "string \<Rightarrow> (string \<Rightarrow> render_vars \<Rightarrow> render_vars) \<Rightarrow> render_vars \<Rightarrow> render_vars" where
  "with_top d f v = (case pop_or d (rv_estack v) of (e, st) \<Rightarrow> f e (v\<lparr>rv_estack := st\<rparr>))"

definition binop :: "string \<Rightarrow> render_vars \<Rightarrow> render_vars" where
  "binop sy = with_top [] (\<lambda>b. with_top [] (\<lambda>a. push_expr (''('' @ a @ '' '' @ sy @ '' '' @ b @ '')'')))"

fun pop_many :: "nat \<Rightarrow> string \<Rightarrow> string list \<Rightarrow> string list \<times> string list" where
  "pop_many 0 d st = ([], st)"
| "pop_many (Suc n) d st = (case pop_or d st of (e, st') \<Rightarrow> (case pop_many n d st' of (es, st'') \<Rightarrow> (e # es, st'')))"

definition function_of :: "module_model \<Rightarrow> u32 \<Rightarrow> function_entry option" where
  "function_of m i = find (\<lambda>f. fe_index f = i) (mm_functions m)"

definition type_at :: "module_model \<Rightarrow> u32 \<Rightarrow> func_type option" where
  "type_at m t = (if unat t < length (mm_types m) then Some (mm_types m ! unat t) else None)"

definition show_idx :: "u32 \<Rightarrow> string" where
  "show_idx w = show_nat (unat w)"

definition local_name :: "(u32, string) btree \<Rightarrow> u32 \<Rightarrow> string" where
  "local_name nms i = unwrap_or (bt_get nms i) (''l'' @ show_idx i)"

definition load_expr :: "string \<Rightarrow> u64 \<Rightarrow> string \<Rightarrow> string" where
  "load_expr ty off a = ''*('' @ ty @ ''*)(mem+'' @ a @ ''+'' @ show_u64 off @ '')''"

definition render_store :: "string \<Rightarrow> u64 \<Rightarrow> render_vars \<Rightarrow> render_vars" where
  "render_store ty off = with_top [] (\<lambda>x. with_top [] (\<lambda>a. emit (load_expr ty off a @ '' = '' @ x @ '';'')))"

definition render_call :: "module_model \<Rightarrow> u32 \<Rightarrow> render_vars \<Rightarrow> render_vars" where
  "render_call m f v =
     (let callee_ty = Option.bind (map_option fe_type_index (function_of m f)) (type_at m);
          n_args = (case callee_ty of Some t \<Rightarrow> length (ft_params t) | None \<Rightarrow> 0);
          (args, st) = pop_many n_args ''<arg>'' (rv_estack v);
          callee = unwrap_or (Option.bind (function_of m f) fe_name) (''wasm_fn_'' @ show_idx f);
          call = callee @ ''('' @ join '', '' (rev args) @ '')'';
          has_ret = (case callee_ty of Some t \<Rightarrow> ft_results t \<noteq> [] | None \<Rightarrow> False);
          v1 = v\<lparr>rv_estack := st\<rparr>
      in if has_ret then push_expr call v1 else emit (call @ '';'') v1)"

text \<open>\<open>(0..n).filter_map(|_| estack.pop())\<close>: the top first, and nothing once the stack is empty.\<close>

definition render_return :: "nat \<Rightarrow> render_vars \<Rightarrow> render_vars" where
  "render_return n v =
     (if n > 0 then emit (''return '' @ join '', '' (take n (rev (rv_estack v))) @ '';'')
         (v\<lparr>rv_estack := take (length (rv_estack v) - n) (rv_estack v)\<rparr>)
      else emit ''return;'' v)"

definition dedent :: "render_vars \<Rightarrow> render_vars" where
  "dedent v = v\<lparr>rv_indent := rv_indent v - 1\<rparr>"

definition deeper :: "render_vars \<Rightarrow> render_vars" where
  "deeper v = v\<lparr>rv_indent := rv_indent v + 1\<rparr>"

text \<open>An operator other than \<open>end\<close>. \<open>n_results\<close> is the number of the function's results.\<close>

definition render_op ::
  "module_model \<Rightarrow> structured_cfg \<Rightarrow> (u32, string) btree \<Rightarrow> nat \<Rightarrow> u64 \<Rightarrow> operator \<Rightarrow> render_vars \<Rightarrow> render_vars" where
  "render_op m cfg nms n_results pos op v = (case op of
       I32Const w \<Rightarrow> push_expr (show_int (sint w)) v
     | I64Const w \<Rightarrow> push_expr (show_int (sint w) @ ''L'') v
     | LocalGet i \<Rightarrow> push_expr (local_name nms i) v
     | LocalSet i \<Rightarrow> with_top [] (\<lambda>e. emit (local_name nms i @ '' = '' @ e @ '';'')) v
     | LocalTee i \<Rightarrow> with_top [] (\<lambda>e w. push_expr (local_name nms i) (emit (local_name nms i @ '' = '' @ e @ '';'') w)) v
     | GlobalGet i \<Rightarrow> push_expr (''g'' @ show_idx i) v
     | GlobalSet i \<Rightarrow> with_top [] (\<lambda>e. emit (''g'' @ show_idx i @ '' = '' @ e @ '';'')) v
     | I32Load off \<Rightarrow> with_top [] (\<lambda>a. push_expr (load_expr ''i32'' off a)) v
     | I64Load off \<Rightarrow> with_top [] (\<lambda>a. push_expr (load_expr ''i64'' off a)) v
     | I32Store off \<Rightarrow> render_store ''i32'' off v
     | I64Store off \<Rightarrow> render_store ''i64'' off v
     | I32Add \<Rightarrow> binop ''+'' v
     | I32Sub \<Rightarrow> binop ''-'' v
     | I32Mul \<Rightarrow> binop ''*'' v
     | I32And \<Rightarrow> binop ''&'' v
     | I32Or \<Rightarrow> binop ''|'' v
     | I32Xor \<Rightarrow> binop ''^'' v
     | I32Eqz \<Rightarrow> with_top [] (\<lambda>a. push_expr (''('' @ a @ '' == 0)'')) v
     | I32Eq \<Rightarrow> binop ''=='' v
     | I32Ne \<Rightarrow> binop ''!='' v
     | I32LtU \<Rightarrow> binop ''<u'' v
     | I32GeU \<Rightarrow> binop ''>=u'' v
     | BlockOp \<Rightarrow> deeper (emit (''{ // block @ '' @ hex_alt pos) v)
     | LoopOp \<Rightarrow> deeper (emit (''do { // loop @ '' @ hex_alt pos) v)
     | IfOp \<Rightarrow> with_top ''<cond>'' (\<lambda>c w. deeper (emit (''if ('' @ c @ '') { // if @ '' @ hex_alt pos) w)) v
     | ElseOp \<Rightarrow> deeper (emit ''} else {'' (dedent v))
     | Br d \<Rightarrow> emit (''goto label_m'' @ show_idx d @ ''; // br @ '' @ hex_alt pos) v
     | BrIf d \<Rightarrow> with_top ''<cond>'' (\<lambda>c. emit (''if ('' @ c @ '') goto label_m'' @ show_idx d @ ''; // br_if @ '' @ hex_alt pos)) v
     | BrTable _ _ \<Rightarrow>
         (let n = (case find (\<lambda>(o', _). o' = pos) (sc_br_tables cfg) of Some (_, ts) \<Rightarrow> length ts | None \<Rightarrow> 0)
          in emit (''switch (<idx>) { /* br_table @ '' @ hex_alt pos @ '': '' @ show_nat n @ '' labeled targets */ }'') v)
     | Call f \<Rightarrow> render_call m f v
     | CallIndirect t tb \<Rightarrow> with_top [] (\<lambda>a. push_expr (''table'' @ show_idx tb @ ''['' @ a @ ''] /* type '' @ show_idx t @ ''; targets: indirect_targets */'')) v
     | Return \<Rightarrow> render_return n_results v
     | Unreachable \<Rightarrow> emit ''unreachable;'' v
     | Drop \<Rightarrow> v\<lparr>rv_estack := butlast (rv_estack v)\<rparr>
     | _ \<Rightarrow> emit (''/* opaque op @ '' @ hex_alt pos @ '' */'') v)"

fun render_loop :: "(u64 \<Rightarrow> operator \<Rightarrow> render_vars \<Rightarrow> render_vars) \<Rightarrow> op_read list \<Rightarrow> render_vars \<Rightarrow> string wasm_result" where
  "render_loop f [] v = Inr (rv_out v)"
| "render_loop f ((s, Inl e) # rs) v = Inl (perr e)"
| "render_loop f ((s, Inr op) # rs) v =
     (if op = End then
        if rv_indent v > 1 then render_loop f rs (emit ''}'' (dedent v)) else Inr (rv_out v @ ''}'' @ [CHR 0x0A])
      else render_loop f rs (f (fst s) op v))"

definition local_names :: "func_type \<Rightarrow> function_entry \<Rightarrow> (u32, string) btree" where
  "local_names ty f =
     (let params = fold (\<lambda>i. bt_insert (of_nat i) (''a'' @ show_nat i)) [0..<length (ft_params ty)] []
      in fold (\<lambda>i nms. let idx = (of_nat (length (ft_params ty) + i) :: u32) in
           if bt_get nms idx = None then bt_insert idx (''l'' @ show_idx idx) nms else nms) [0..<length (fe_local_types f)] params)"

definition local_decls :: "func_type \<Rightarrow> function_entry \<Rightarrow> string" where
  "local_decls ty f = concat (map (\<lambda>(i, t). ''  '' @ t @ '' l'' @ show_idx (of_nat (length (ft_params ty) + i)) @ '';'' @ [CHR 0x0A]) (enumerate0 (fe_local_types f)))"

definition render_head :: "func_type \<Rightarrow> function_entry \<Rightarrow> u32 \<Rightarrow> string" where
  "render_head ty f func_index =
     (let fname = unwrap_or (fe_name f) (''wasm_fn_'' @ show_idx (fe_index f));
          params = join '', '' (map (\<lambda>(i, t). t @ '' a'' @ show_nat i) (enumerate0 (ft_params ty)));
          ret = (case ft_results ty of [] \<Rightarrow> ''void'' | [r] \<Rightarrow> r | rs \<Rightarrow> ''(multi '' @ show_nat (length rs) @ '')'')
      in ''// WASM-native pseudocode (reverse-mcp; not Hex-Rays output)'' @ [CHR 0x0A] @
         ''// func '' @ show_idx func_index @ '' @ code '' @ hex_alt (fe_code_offset f) @ '' ('' @ show_u64 (fe_code_size f) @ '' bytes)'' @ [CHR 0x0A] @
         ret @ '' '' @ fname @ ''('' @ params @ '') {'' @ [CHR 0x0A] @ local_decls ty f)"

definition render :: "module_model \<Rightarrow> op_reader \<Rightarrow> u32 \<Rightarrow> u8 list \<Rightarrow> structured_cfg \<Rightarrow> string wasm_result" where
  "render m ops func_index body cfg =
     rbind (ok_or (function_of m func_index) (Ambiguous (''function '' @ show_idx func_index @ '' not in model''))) (\<lambda>f.
     let ty = unwrap_or (type_at m (fe_type_index f)) \<lparr>ft_params = [], ft_results = []\<rparr>;
         n_results = (case type_at m (fe_type_index f) of Some t \<Rightarrow> length (ft_results t) | None \<Rightarrow> 0)
     in render_loop (render_op m cfg (local_names ty f) n_results) (ops body) \<lparr>rv_out = render_head ty f func_index, rv_indent = 1, rv_estack = []\<rparr>)"

section \<open>The text follows the nesting\<close>

text \<open>A printer by recursion on the tree: the text of well-nested code at an indentation, from a stack of
  expressions to the next. \<open>f\<close> is the effect of one operator.\<close>

type_synonym op_effect = "u64 \<Rightarrow> operator \<Rightarrow> render_vars \<Rightarrow> render_vars"

definition alone :: "op_effect \<Rightarrow> op_site \<Rightarrow> operator \<Rightarrow> nat \<Rightarrow> string list \<Rightarrow> string \<times> string list" where
  "alone f s op k st = (let v = f (fst s) op \<lparr>rv_out = [], rv_indent = k, rv_estack = st\<rparr> in (rv_out v, rv_estack v))"

fun code_text :: "op_effect \<Rightarrow> wcode \<Rightarrow> nat \<Rightarrow> string list \<Rightarrow> string \<times> string list" where
  "code_text f Done k st = ([], st)"
| "code_text f (Plain s op c) k st =
     (let (t, st1) = alone f s op k st; (t', st2) = code_text f c k st1 in (t @ t', st2))"
| "code_text f (Nest s op b e c) k st =
     (let (t, st1) = alone f s op k st; (tb, st2) = code_text f b (Suc k) st1; (tc, st3) = code_text f c k st2
      in (t @ tb @ line k ''}'' @ tc, st3))"
| "code_text f (IfElse s b1 m b2 e c) k st =
     (let (t, st1) = alone f s IfOp k st; (t1, st2) = code_text f b1 (Suc k) st1; (t2, st3) = code_text f b2 (Suc k) st2; (tc, st4) = code_text f c k st3
      in (t @ t1 @ line k ''} else {'' @ t2 @ line k ''}'' @ tc, st4))"

fun no_try :: "wcode \<Rightarrow> bool" where
  "no_try Done \<longleftrightarrow> True"
| "no_try (Plain s op c) \<longleftrightarrow> no_try c"
| "no_try (Nest s op b e c) \<longleftrightarrow> op \<noteq> Try \<and> op \<noteq> TryTable \<and> no_try b \<and> no_try c"
| "no_try (IfElse s b1 m b2 e c) \<longleftrightarrow> no_try b1 \<and> no_try b2 \<and> no_try c"

lemmas render_parts = emit_def push_expr_def with_top_def binop_def render_store_def render_call_def render_return_def Let_def

lemma render_op_alone:
  assumes "op \<noteq> ElseOp" "op \<noteq> End"
  shows "render_op m cfg nms n pos op v = \<lparr>rv_out = rv_out v @ fst (alone (render_op m cfg nms n) (pos, p) op (rv_indent v) (rv_estack v)),
     rv_indent = (if op \<in> {BlockOp, LoopOp, IfOp} then Suc (rv_indent v) else rv_indent v),
     rv_estack = snd (alone (render_op m cfg nms n) (pos, p) op (rv_indent v) (rv_estack v))\<rparr>"
  using assms
  by (cases op) (simp_all add: render_op_def alone_def render_parts deeper_def case_prod_unfold)

lemma render_op_else:
  "render_op m cfg nms n pos ElseOp v = v\<lparr>rv_out := rv_out v @ line (rv_indent v - 1) ''} else {'', rv_indent := Suc (rv_indent v - 1)\<rparr>"
  by (simp add: render_op_def emit_def dedent_def deeper_def)

lemma render_close: "emit ''}'' (dedent v) = v\<lparr>rv_out := rv_out v @ line (rv_indent v - 1) ''}'', rv_indent := rv_indent v - 1\<rparr>"
  by (simp add: emit_def dedent_def)

abbreviation printed :: "string \<Rightarrow> nat \<Rightarrow> string \<times> string list \<Rightarrow> render_vars" where
  "printed out k t \<equiv> \<lparr>rv_out = out @ fst t, rv_indent = k, rv_estack = snd t\<rparr>"

lemma render_loop_flat:
  fixes m cfg nms n
  defines "f \<equiv> render_op m cfg nms n"
  assumes "well_nested c" "no_try c" "k \<ge> 1"
  shows "render_loop f (flat c @ rs) \<lparr>rv_out = out, rv_indent = k, rv_estack = st\<rparr> = render_loop f rs (printed out k (code_text f c k st))"
  using assms(2-4)
proof (induction c arbitrary: k st out rs)
  case (Plain s op c)
  then have "op \<noteq> ElseOp" "op \<noteq> End" "op \<notin> {BlockOp, LoopOp, IfOp}" by auto
  then have "f (fst s) op \<lparr>rv_out = out, rv_indent = k, rv_estack = st\<rparr> = printed out k (alone f s op k st)"
    using render_op_alone [of op m cfg nms n "fst s" _ "snd s"] by (simp add: f_def)
  with Plain \<open>op \<noteq> End\<close> show ?case by (simp add: case_prod_unfold Let_def)
next
  case (Nest s op b e c)
  then have op: "op \<noteq> ElseOp" "op \<noteq> End" "op \<in> {BlockOp, LoopOp, IfOp}" by (cases op; simp)+
  then have "f (fst s) op \<lparr>rv_out = out, rv_indent = k, rv_estack = st\<rparr> = printed out (Suc k) (alone f s op k st)"
    using render_op_alone [of op m cfg nms n "fst s" _ "snd s"] by (simp add: f_def)
  with Nest op(2) show ?case by (simp add: case_prod_unfold Let_def render_close)
next
  case (IfElse s b1 m' b2 e c)
  have "f (fst s) IfOp \<lparr>rv_out = out, rv_indent = k, rv_estack = st\<rparr> = printed out (Suc k) (alone f s IfOp k st)"
    using render_op_alone [of IfOp m cfg nms n "fst s" _ "snd s"] by (simp add: f_def)
  moreover have "f p ElseOp v = v\<lparr>rv_out := rv_out v @ line (rv_indent v - 1) ''} else {'', rv_indent := Suc (rv_indent v - 1)\<rparr>" for p v
    by (simp add: f_def render_op_else)
  ultimately show ?case using IfElse by (simp add: case_prod_unfold Let_def render_close)
qed simp


definition one_function :: module_model where
  "one_function = empty_model\<lparr>mm_types := [\<lparr>ft_params = [''i32''], ft_results = []\<rparr>],
     mm_functions := [\<lparr>fe_index = 0, fe_type_index = 0, fe_code_offset = 0, fe_code_size = 8, fe_local_types = [], fe_name = Some ''f''\<rparr>]\<rparr>"

definition store_param :: wcode where
  "store_param = Nest (0, 2) BlockOp (Plain (2, 4) (LocalGet 0) (Plain (4, 6) (GlobalSet 0) Done)) (6, 7) Done"

definition newline_text :: string where
  "newline_text = [CHR 0x0A]"


text \<open>A \<open>try\<close> does not indent, so its \<open>end\<close> closes the construct around it: here the function, and the code
  after it is lost.\<close>

lemma try_ends_the_function:
  "render m (\<lambda>_. ((0, 2), Inr Try) # ((2, 3), Inr End) # rest) i body cfg = render m (\<lambda>_. [((0, 2), Inr Try), ((2, 3), Inr End)]) i body cfg"
  by (cases "function_of m i") (simp_all add: render_def render_op_def emit_def Let_def)

text \<open>A function with two results returns them in reverse order.\<close>

lemma results_are_reversed:
  "rv_out (render_return 2 \<lparr>rv_out = [], rv_indent = 0, rv_estack = [''first'', ''second'']\<rparr>) = ''return second, first;'' @ newline_text"
  by (simp add: render_return_def emit_def line_def newline_text_def numeral_2_eq_2)

text \<open>A call of an imported function is printed without arguments, and its result is not pushed.\<close>

lemma imported_call_has_no_arguments:
  "function_of m f = None \<Longrightarrow> rv_estack (render_call m f v) = rv_estack v"
  by (simp add: render_call_def emit_def)

end
