(* ===== verification/Wasm_Tools.thy ===== *)
theory Wasm_Tools
  imports Tools Wasm_Calls Wasm_Pseudo
begin

text \<open>
  \<open>crates/rmcp-broker/src/wasm_tools.rs\<close>: the tool \<open>ida_wasm\<close>. It parses the file of the open database, asks the
  worker for its functions and segments, compares the two, and answers one of the queries. The
  \<open>Serialize\<close> instances of the module model, the control flow and the call targets are the functions named \<open>_json\<close>.
\<close>

section \<open>Serialisation\<close>

abbreviation ji :: "'a::len word \<Rightarrow> json" where
  "ji w \<equiv> JNum (uint w)"

abbreviation jstrs :: "string list \<Rightarrow> json" where
  "jstrs xs \<equiv> JArr (map JStr xs)"

definition section_json :: "section_info \<Rightarrow> json" where
  "section_json s = JObj [(''id'', ji (se_id s)), (''name'', JStr (se_name s)), (''offset'', ju (se_offset s)), (''size'', ju (se_size s))]"

definition func_type_json :: "func_type \<Rightarrow> json" where
  "func_type_json t = JObj [(''params'', jstrs (ft_params t)), (''results'', jstrs (ft_results t))]"

definition import_json :: "import_entry \<Rightarrow> json" where
  "import_json i = JObj [(''module'', JStr (ie_module i)), (''name'', JStr (ie_name i)), (''kind'', JStr (ie_kind i)),
     (''type_index'', jopt ji (ie_type_index i)), (''wasi'', JBool (ie_wasi i))]"

definition export_json :: "export_entry \<Rightarrow> json" where
  "export_json e = JObj [(''name'', JStr (ee_name e)), (''kind'', JStr (ee_kind e)), (''index'', ji (ee_index e))]"

definition global_json :: "global_entry \<Rightarrow> json" where
  "global_json g = JObj [(''index'', ji (ge_index g)), (''ty'', JStr (ge_ty g)), (''mutable'', JBool (ge_mutable g)), (''init'', jopt JStr (ge_init g))]"

definition table_json :: "table_entry \<Rightarrow> json" where
  "table_json t = JObj [(''index'', ji (te_index t)), (''elem_ty'', JStr (te_elem_ty t)), (''initial'', ju (te_initial t)), (''maximum'', jopt ju (te_maximum t))]"

definition element_json :: "element_segment \<Rightarrow> json" where
  "element_json e = JObj [(''index'', ji (es_index e)), (''table_index'', ji (es_table_index e)), (''offset'', jopt ju (es_offset e)),
     (''func_indices'', JArr (map ji (es_func_indices e)))]"

definition memory_json :: "memory_entry \<Rightarrow> json" where
  "memory_json m = JObj [(''index'', ji (me_index m)), (''initial_pages'', ju (me_initial_pages m)), (''maximum_pages'', jopt ju (me_maximum_pages m)),
     (''shared'', JBool (me_shared m)), (''memory64'', JBool (me_memory64 m)), (''page_size_log2'', jopt ji (me_page_size_log2 m))]"

definition data_json :: "data_segment \<Rightarrow> json" where
  "data_json d = JObj [(''index'', ji (ds_index d)), (''memory_index'', ji (ds_memory_index d)), (''offset'', jopt ju (ds_offset d)),
     (''len'', ji (ds_len d)), (''file_offset'', ju (ds_file_offset d))]"

definition features_json :: "feature_map \<Rightarrow> json" where
  "features_json f = JObj [(''multi_value'', JBool (fm_multi_value f)), (''bulk_memory'', JBool (fm_bulk_memory f)),
     (''reference_types'', JBool (fm_reference_types f)), (''simd'', JBool (fm_simd f)), (''relaxed_simd'', JBool (fm_relaxed_simd f)),
     (''tail_call'', JBool (fm_tail_call f)), (''exception_handling'', JBool (fm_exception_handling f)), (''threads'', JBool (fm_threads f)),
     (''memory64'', JBool (fm_memory64 f)), (''multi_memory'', JBool (fm_multi_memory f)),
     (''function_references'', JBool (fm_function_references f)), (''gc'', JBool (fm_gc f))]"

definition custom_json :: "custom_info \<Rightarrow> json" where
  "custom_json c = JObj [(''name_section'', JBool (ci_name_section c)),
     (''producers'', jopt (\<lambda>ps. JArr (map (\<lambda>(a, b). jstrs [a, b]) ps)) (ci_producers c)), (''other_names'', jstrs (ci_other_names c))]"

definition kind_json :: "block_kind \<Rightarrow> json" where
  "kind_json k = (case k of KindFunction \<Rightarrow> JStr ''Function'' | KindBlock \<Rightarrow> JStr ''Block'' | KindLoop \<Rightarrow> JStr ''Loop''
     | KindIf e \<Rightarrow> JObj [(''If'', JObj [(''has_else'', JBool e)])] | KindTry \<Rightarrow> JStr ''Try'')"

definition wasm_region_json :: "wasm_region \<Rightarrow> json" where
  "wasm_region_json r = JObj [(''id'', jn (wn_id r)), (''kind'', kind_json (wn_kind r)), (''start_offset'', ju (wn_start_offset r)),
     (''branch_sources'', JArr (map ju (wn_branch_sources r))), (''end_offset'', ju (wn_end_offset r)), (''parent'', jopt jn (wn_parent r))]"

definition cfg_json :: "structured_cfg \<Rightarrow> json" where
  "cfg_json c = JObj [(''regions'', JArr (map wasm_region_json (sc_regions c))), (''calls'', JArr (map (\<lambda>(p, f). JArr [ju p, ji f]) (sc_calls c))),
     (''indirect_calls'', JArr (map (\<lambda>(p, t, tb). JArr [ju p, ji t, ji tb]) (sc_indirect_calls c))),
     (''br_tables'', JArr (map (\<lambda>(p, ts). JArr [ju p, JArr (map jn ts)]) (sc_br_tables c))),
     (''diagnostics'', jstrs (sc_diagnostics c)), (''operator_count'', jn (sc_operator_count c))]"

definition indirect_target_json :: "indirect_target \<Rightarrow> json" where
  "indirect_target_json t = JObj [(''site_offset'', ju (it_site_offset t)), (''table_index'', ji (it_table_index t)), (''type_index'', ji (it_type_index t)),
     (''confidence'', JStr (case it_confidence t of Confirmed \<Rightarrow> ''confirmed'' | Candidate \<Rightarrow> ''candidate'' | Unresolved \<Rightarrow> ''unresolved'')),
     (''targets'', JArr (map ji (it_targets t))), (''evidence'', jstrs (it_evidence t)), (''reason'', JStr (it_reason t))]"

section \<open>The two engines compared\<close>

definition PARSE_LIMIT_BYTES :: nat where
  "PARSE_LIMIT_BYTES = 256 * 1024 * 1024"

definition parse_index :: "json \<Rightarrow> u32 option" where
  "parse_index v = (case v of
       JStr s \<Rightarrow> (case from_str_radix 32 10 (trim s) of Inr n \<Rightarrow> Some (of_nat n) | Inl _ \<Rightarrow> None)
     | JNum n \<Rightarrow> map_option ucast (as_u64 v)
     | _ \<Rightarrow> None)"

definition wasi_groups :: "import_entry list \<Rightarrow> json list" where
  "wasi_groups imports = map (\<lambda>(m, names). JObj [(''module'', JStr m), (''imports'', jstrs names)])
     (fold (\<lambda>i g. bt_insert (ie_module i) (unwrap_or (bt_get g (ie_module i)) [] @ [ie_name i]) g) (filter ie_wasi imports) [])"

definition segment_ranges :: "json \<Rightarrow> (u64 \<times> u64) list" where
  "segment_ranges segs = (case as_array segs of None \<Rightarrow> []
     | Some xs \<Rightarrow> List.map_filter (\<lambda>s. Option.bind (as_u64 (jidx s ''start'')) (\<lambda>a. Option.bind (as_u64 (jidx s ''end'')) (\<lambda>e.
         map_option (\<lambda>_. (a, e)) (as_str (jidx s ''name''))))) xs)"

text \<open>The answers of the two cross-checks and the diagnostics they leave.\<close>

record cross_check =
  cc_count_confirmed :: bool
  cc_code_mapping :: string
  cc_diagnostics :: "string list"

definition cross_check_of :: "module_model \<Rightarrow> json \<Rightarrow> json \<Rightarrow> cross_check" where
  "cross_check_of m ida_functions ida_segments =
     (let ida_n = (case as_array ida_functions of Some xs \<Rightarrow> length xs | None \<Rightarrow> 0); n = length (mm_functions m);
          d1 = (if ida_n = n then [] else [''function count mismatch: parser='' @ show_nat n @ '' ida='' @ show_nat ida_n]);
          (mapping, d2) = (case find (\<lambda>s. se_name s = ''code'') (mm_sections m) of
              None \<Rightarrow> (''absent'', [])
            | Some s \<Rightarrow>
                (let a = se_offset s; e = se_offset s + se_size s in
                 if list_ex (\<lambda>(s', e'). s' \<le> a \<and> e \<le> e') (segment_ranges ida_segments) then (''confirmed'', [])
                 else (''mismatch'', [''code section ['' @ hex_alt a @ '','' @ hex_alt e @ '') not covered by any IDA segment''])))
      in \<lparr>cc_count_confirmed = (ida_n = n), cc_code_mapping = mapping, cc_diagnostics = d1 @ d2\<rparr>)"

section \<open>The queries\<close>

definition wasm_info :: "module_model \<Rightarrow> cross_check \<Rightarrow> json" where
  "wasm_info m cc = JObj [(''engine'', JStr ''rmcp-wasm + IDA native loader''), (''binary_sha256'', JStr (mm_binary_sha256 m)), (''wasm_version'', ji (mm_version m)),
     (''sections'', JArr (map section_json (mm_sections m))), (''features'', features_json (mm_features m)),
     (''counts'', JObj [(''types'', jn (length (mm_types m))), (''imports'', jn (length (mm_imports m))), (''exports'', jn (length (mm_exports m))),
        (''functions_defined'', jn (length (mm_functions m))), (''globals'', jn (length (mm_globals m))), (''tables'', jn (length (mm_tables m))),
        (''memories'', jn (length (mm_memories m))), (''elements'', jn (length (mm_elements m))), (''datas'', jn (length (mm_datas m)))]),
     (''custom'', custom_json (mm_custom m)), (''start'', jopt ji (mm_start m)),
     (''cross_check'', JObj [(''function_count_confirmed'', JBool (cc_count_confirmed cc)), (''code_offset_mapping'', JStr (cc_code_mapping cc))]),
     (''diagnostics'', jstrs (cc_diagnostics cc)),
     (''hexrays'', JStr ''unavailable (IDA has no WASM decompiler; pseudocode action is the rmcp-wasm renderer)'')]"

definition wasm_list :: "module_model \<Rightarrow> string \<Rightarrow> json option" where
  "wasm_list m action = map_of
     [(''imports'', JObj [(''imports'', JArr (map import_json (mm_imports m))), (''wasi_groups'', JArr (wasi_groups (mm_imports m)))]),
      (''exports'', JObj [(''exports'', JArr (map export_json (mm_exports m)))]),
      (''globals'', JObj [(''globals'', JArr (map global_json (mm_globals m)))]),
      (''tables'', JObj [(''tables'', JArr (map table_json (mm_tables m)))]),
      (''memories'', JObj [(''memories'', JArr (map memory_json (mm_memories m)))]),
      (''elements'', JObj [(''elements'', JArr (map element_json (mm_elements m)))]),
      (''datas'', JObj [(''datas'', JArr (map data_json (mm_datas m)))]),
      (''types'', JObj [(''types'', JArr (map func_type_json (mm_types m)))]),
      (''sections'', JObj [(''sections'', JArr (map section_json (mm_sections m)))])] action"

definition function_row :: "module_model \<Rightarrow> json list \<Rightarrow> nat \<Rightarrow> function_entry \<Rightarrow> json" where
  "function_row m ida i f =
     (let row = (if i < length ida then Some (ida ! i) else None); ida_name = Option.bind row (\<lambda>v. as_str (jidx v ''name'')) in
      JObj [(''wasm_index'', ji (fe_index f)), (''type_index'', ji (fe_type_index f)), (''signature'', jopt func_type_json (type_at m (fe_type_index f))),
        (''code_offset'', ju (fe_code_offset f)), (''code_size'', ju (fe_code_size f)), (''local_types'', jstrs (fe_local_types f)),
        (''name_parser'', jopt JStr (fe_name f)), (''ida_name'', jopt JStr ida_name),
        (''ida_ea'', jopt ju (Option.bind row (\<lambda>v. as_u64 (jidx v ''ea_start'')))),
        (''name_source'', JStr (case (fe_name f, ida_name) of (Some _, Some _) \<Rightarrow> ''parser+ida'' | (Some _, None) \<Rightarrow> ''parser''
           | (None, Some _) \<Rightarrow> ''ida'' | (None, None) \<Rightarrow> ''none''))])"

definition wasm_functions :: "module_model \<Rightarrow> json \<Rightarrow> cross_check \<Rightarrow> json" where
  "wasm_functions m ida cc = JObj [(''functions'', JArr (map (\<lambda>(i, f). function_row m (unwrap_or (as_array ida) []) i f) (enumerate0 (mm_functions m)))),
     (''function_count_confirmed'', JBool (cc_count_confirmed cc)), (''diagnostics'', jstrs (cc_diagnostics cc))]"

text \<open>The function a query names, its body as a slice of the file, and its control flow.\<close>

definition body_of :: "u8 list \<Rightarrow> function_entry \<Rightarrow> tool_error + u8 list" where
  "body_of raw f =
     (let a = unat (fe_code_offset f); e = unat (fe_code_offset f + fe_code_size f) in
      if a \<le> e \<and> e \<le> length raw then Inr (take (e - a) (drop a raw)) else Inl (Panicked ''range out of bounds''))"

definition wasm_function :: "wasm_env \<Rightarrow> module_model \<Rightarrow> u8 list \<Rightarrow> string \<Rightarrow> json \<Rightarrow> tool_error + (u32 \<times> u8 list \<times> structured_cfg)" where
  "wasm_function we m raw action args =
     rbind (ok_or (Option.bind (jget args ''index'') parse_index) (invalid_args (action @ '' requires '' @ quoted ''index''))) (\<lambda>idx.
     rbind (ok_or (function_of m idx) (invalid_args (''function index '' @ show_idx idx @ '' not in module''))) (\<lambda>f.
     rbind (body_of raw f) (\<lambda>body.
     rmap (\<lambda>cfg. (idx, body, cfg)) (rmap_err (\<lambda>e. mcp_code ''wasm_cfg'' (''structured CFG failed: '' @ wasm_error_text e)) (analyze_body (we_ops we) body)))))"

definition wasm_query :: "wasm_env \<Rightarrow> module_model \<Rightarrow> u8 list \<Rightarrow> json \<Rightarrow> json \<Rightarrow> string \<Rightarrow> json \<Rightarrow> tool_error + json" where
  "wasm_query we m raw ida_functions ida_segments action args =
     (let cc = cross_check_of m ida_functions ida_segments in
      if action = ''info'' then Inr (wasm_info m cc)
      else case wasm_list m action of
        Some out \<Rightarrow> Inr out
      | None \<Rightarrow>
          if action = ''functions'' then Inr (wasm_functions m ida_functions cc)
          else if action = ''cfg'' then rmap (\<lambda>(_, _, cfg). cfg_json cfg) (wasm_function we m raw action args)
          else if action = ''pseudocode'' then
            rbind (wasm_function we m raw action args) (\<lambda>(idx, body, cfg).
            rmap (\<lambda>text. JObj [(''wasm_index'', ji idx), (''engine'', JStr ''rmcp-wasm structured renderer (deterministic; NOT Hex-Rays output)''), (''pseudocode'', JStr text)])
              (rmap_err (\<lambda>e. mcp_code ''wasm_pseudo'' (''pseudocode failed: '' @ wasm_error_text e)) (render m (we_ops we) idx body cfg)))
          else if action = ''indirect_targets'' then
            rmap (\<lambda>(_, _, cfg). JArr (map indirect_target_json (resolve_indirect m (sc_indirect_calls cfg) []))) (wasm_function we m raw action args)
          else Inl (invalid_args (''unknown action '' @ quoted action @
            '' (info|sections|types|imports|exports|functions|globals|tables|memories|elements|datas|cfg|pseudocode|indirect_targets)'')))"

text \<open>The file of the session's database, read and parsed.\<close>

definition wasm_load :: "(nat \<Rightarrow> moment) \<Rightarrow> usize \<Rightarrow> (u8 list \<times> module_model) tool" where
  "wasm_load mos a st =
     (let we = mo_wasm (mos (bk_moment st)) in
      (rbind (ok_or (ws_db_path (pl_heap (bk_pool st) ! a)) (mcp_code ''no_db'' ''wasm actions require an open database'')) (\<lambda>db_path.
       rbind (rmap_err (\<lambda>e. mcp_code ''io'' (''cannot read module file: '' @ e)) (we_read we db_path)) (\<lambda>raw.
       if length raw > PARSE_LIMIT_BYTES then Inl (mcp_code ''budget'' (''module exceeds parse budget ('' @ show_nat PARSE_LIMIT_BYTES @ '' bytes)''))
       else rmap (Pair raw) (rmap_err (\<lambda>e. mcp_code ''wasm_parse'' (''not a parseable WASM module: '' @ wasm_error_text e))
              (parse_module (we_floats we) (we_parse_all we) raw)))), st))"

definition tool_wasm :: "text_fn \<Rightarrow> (nat \<Rightarrow> moment) \<Rightarrow> json \<Rightarrow> json tool" where
  "tool_wasm ts mos args =
     (let action = unwrap_or (arg_str args ''action'') ''info'' in
      with_session args (\<lambda>db a.
        tbind (wasm_load mos a) (\<lambda>(raw, m).
        tbind (wcall mos a ''functions'' (JObj [(''offset'', jn 0), (''limit'', jn 10000)])) (\<lambda>fns.
        tbind (wcall mos a ''segments'' (JObj [(''offset'', jn 0), (''limit'', jn 200)])) (\<lambda>segs.
        tbind (\<lambda>st. (wasm_query (mo_wasm (mos (bk_moment st))) m raw fns segs action args, st)) (\<lambda>out.
        answer_bounded ts mos (''ida_wasm.'' @ action) db ''wasm'' out))))))"

section \<open>Queries always answer\<close>

text \<open>The documented ranges of code entries: within the file.\<close>

fun code_in_file :: "nat \<Rightarrow> wp_error + wp_payload \<Rightarrow> bool" where
  "code_in_file n (Inr (CodeSectionEntry (a, e) _)) \<longleftrightarrow> a \<le> e \<and> e \<le> n"
| "code_in_file n _ \<longleftrightarrow> True"

definition bodies_in_file :: "nat \<Rightarrow> function_entry list \<Rightarrow> bool" where
  "bodies_in_file n fs = list_all (\<lambda>f. unat (fe_code_offset f) + unat (fe_code_size f) \<le> n) fs"

lemma bodies_in_file_code_of:
  "map (\<lambda>f. (fe_code_offset f, fe_code_size f)) fs' = map (\<lambda>f. (fe_code_offset f, fe_code_size f)) fs \<Longrightarrow> bodies_in_file n fs \<Longrightarrow> bodies_in_file n fs'"
  by (auto simp: bodies_in_file_def list_all_length list_eq_iff_nth_eq)

lemma name_subsections_code: "map (\<lambda>f. (fe_code_offset f, fe_code_size f)) (name_subsections subs fs) = map (\<lambda>f. (fe_code_offset f, fe_code_size f)) fs"
proof -
  let ?code = "map (\<lambda>f. (fe_code_offset f, fe_code_size f))"
  have "?code (name_function item fs) = ?code fs" for item and fs :: "function_entry list"
    by (simp add: name_function_def map_update_first split: prod.split)
  then have "?code (fold name_function items fs) = ?code fs" for items and fs :: "function_entry list"
    by (induction items arbitrary: fs) simp_all
  then show ?thesis by (induction subs fs rule: name_subsections.induct) simp_all
qed

lemma parse_code_in_file:
  assumes "parse_code (a, e) ls v = Inr v'" "a \<le> e" "e \<le> n" "n < 2 ^ 64" "bodies_in_file n (mm_functions (pv_model v))"
  shows "bodies_in_file n (mm_functions (pv_model v'))"
proof -
  have "unat (of_nat a :: u64) + unat (of_nat (e - a) :: u64) \<le> n"
    using assms(2-4) by (simp add: unat_of_nat take_bit_nat_eq_self del: of_nat_diff)
  then show ?thesis using assms(1, 5)
    by (auto simp: parse_code_def bodies_in_file_def list_all_length nth_list_update Let_def rbind_eq_Inr split: if_splits)
qed

lemma parse_type_group_functions: "parse_type_group bud cs v = Inr v' \<Longrightarrow> mm_functions (pv_model v') = mm_functions (pv_model v)"
  unfolding parse_type_group_def
  by (erule for_items_invariant [where P = "\<lambda>w. mm_functions (pv_model w) = mm_functions (pv_model v)"])
    (auto simp: parse_type_def Let_def split: if_splits composite.splits)

lemma parse_payload_in_file:
  assumes "parse_payload fl bud p v = Inr v'" "code_in_file n (Inr p)" "n < 2 ^ 64" "bodies_in_file n (mm_functions (pv_model v))"
  shows "bodies_in_file n (mm_functions (pv_model v'))"
proof -
  let ?P = "\<lambda>w. bodies_in_file n (mm_functions (pv_model w))"
  note [elim!] = for_items_invariant [where P = ?P] for_enum_invariant [where P = ?P]
  show ?thesis
  proof (cases p)
    case (CodeSectionEntry r ls)
    then show ?thesis using assms by (cases r) (auto simp: parse_payload_def intro: parse_code_in_file)
  next
    case (CustomSection c)
    then show ?thesis using assms
      by (auto simp: parse_payload_def parse_custom_def Let_def intro: bodies_in_file_code_of [OF name_subsections_code] split: custom.splits sum.splits)
  next
    case (FunctionSection r items)
    then show ?thesis using assms
      by (auto simp: parse_payload_def) (auto simp: parse_function_def bodies_in_file_def Let_def split: if_splits)
  qed (use assms parse_type_group_functions in \<open>auto simp: parse_payload_def parse_import_def parse_table_def parse_memory_def parse_global_def
      parse_export_def parse_element_def parse_data_def Let_def split: prod.splits if_splits\<close>)
qed

lemma parse_module_in_file:
  assumes "parse_module fl parse_all raw = Inr m" "list_all (code_in_file n) (parse_all raw)" "n < 2 ^ 64"
  shows "bodies_in_file n (mm_functions m)"
proof -
  obtain version v where v: "for_items (parse_payload fl default_budget) (parse_all raw) (parse_start version) = Inr v" "m = finish_model v"
    using assms(1) unfolding parse_module_def by (rule parse_with_budget_Inr)
  have "bodies_in_file n (mm_functions (pv_model v))"
    by (rule for_items_invariant [OF v(1), where P = "\<lambda>w. bodies_in_file n (mm_functions (pv_model w))"])
      (use assms(2, 3) in \<open>auto simp: list_all_iff parse_start_def empty_model_def bodies_in_file_def [of n "[]"] intro: parse_payload_in_file\<close>)
  then show ?thesis using v(2) by (simp add: finish_model_def Let_def)
qed

lemma body_of_in_file: "bodies_in_file (length raw) fs \<Longrightarrow> f \<in> set fs \<Longrightarrow> length raw < 2 ^ 64 \<Longrightarrow> \<exists>body. body_of raw f = Inr body"
proof -
  assume a: "bodies_in_file (length raw) fs" "f \<in> set fs" "length raw < 2 ^ 64"
  then have "unat (fe_code_offset f) + unat (fe_code_size f) \<le> length raw" by (auto simp: bodies_in_file_def list_all_iff)
  with a(3) have "unat (fe_code_offset f + fe_code_size f) = unat (fe_code_offset f) + unat (fe_code_size f)"
    by (simp add: unat_plus_if_size word_size)
  then show ?thesis using \<open>_ \<le> length raw\<close> by (auto simp: body_of_def Let_def)
qed

definition no_panic :: "tool_error + 'a \<Rightarrow> bool" where
  "no_panic r = (case r of Inl (Mcp _) \<Rightarrow> True | Inl _ \<Rightarrow> False | Inr _ \<Rightarrow> True)"

lemma no_panic_simps [simp]:
  "no_panic (Inr x)" "no_panic (rmap f r) \<longleftrightarrow> no_panic r" "no_panic (Inl (mcp_code c t))" "no_panic (Inl (invalid_args t))"
  "no_panic (rmap_err (\<lambda>e. mcp_code c (g e)) r')" "no_panic (ok_or y (invalid_args t))"
  by (cases r; cases r'; cases y; simp add: no_panic_def mcp_code_def invalid_args_def)+

lemma no_panic_rbind: "no_panic r \<Longrightarrow> (\<And>x. r = Inr x \<Longrightarrow> no_panic (f x)) \<Longrightarrow> no_panic (rbind r f)"
  by (cases r) (simp_all add: no_panic_def)

text \<open>
  A query of a parsed WebAssembly file never panics: whatever the action and its arguments, and
  whatever the worker answered, the slice of the file that a function's body is taken from is in bounds, provided
  the decoder reports code ranges inside the file, as it documents. So the caller gets an answer or an error text.
\<close>

lemma wasm_query_never_panics:
  assumes "parse_module (we_floats we) (we_parse_all we) raw = Inr m" "list_all (code_in_file (length raw)) (we_parse_all we raw)" "length raw \<le> PARSE_LIMIT_BYTES"
  shows "no_panic (wasm_query we m raw fns segs action args)"
proof -
  have n: "length raw < 2 ^ 64" using assms(3) by (simp add: PARSE_LIMIT_BYTES_def)
  have inf: "bodies_in_file (length raw) (mm_functions m)" using parse_module_in_file [OF assms(1, 2) n] .
  have "no_panic (body_of raw f)" if "function_of m idx = Some f" for idx f
    using that body_of_in_file [OF inf _ n, of f] by (auto simp: function_of_def find_Some_iff)
  then have "no_panic (wasm_function we m raw act args)" for act
    unfolding wasm_function_def by (intro no_panic_rbind) simp_all
  then show ?thesis
    unfolding wasm_query_def Let_def by (cases "wasm_list m action") (simp_all add: no_panic_rbind case_prod_unfold)
qed

end
