(* ===== verification/Registry.thy ===== *)
theory Registry
  imports Hierarchical Wasm_Tools
begin

text \<open>
  The dispatch of \<open>crates/rmcp-broker/src/registry.rs\<close>, \<open>call_tool\<close> of \<open>lib.rs\<close> and \<open>resources.rs\<close>: which tool
  a name runs, and what the caller sees of its result. The tools that report on the machine are a
  parameter.
\<close>

section \<open>The registry\<close>

definition analyze_tool :: "text_fn \<Rightarrow> (nat \<Rightarrow> moment) \<Rightarrow> json \<Rightarrow> json tool" where
  "analyze_tool ts mos args =
     (let wf = unwrap_or (arg_str args ''workflow'') [] in
      if wf = ''function_hierarchical'' then tool_analyze_hierarchical ts mos args
      else if wf = ''function_region'' then tool_analyze_region ts mos args
      else tool_analyze mos args)"

text \<open>The tools of the registry but the two that report on the machine.\<close>

definition registry_tools :: "text_fn \<Rightarrow> (nat \<Rightarrow> moment) \<Rightarrow> (string \<times> (json \<Rightarrow> json tool)) list" where
  "registry_tools ts mos = [(''ida_capabilities'', tool_capabilities mos), (''ida_db'', tool_db ts mos), (''ida_graph'', tool_graph ts mos),
     (''ida_edit'', tool_edit mos), (''ida_analysis'', tool_analysis mos), (''ida_batch'', tool_batch ts mos),
     (''ida_result'', tool_result ts mos), (''ida_jobs'', tool_jobs ts mos), (''ida_evidence'', tool_evidence mos),
     (''ida_analyze'', analyze_tool ts mos), (''ida_deep'', tool_deep mos), (''ida_type_recovery'', tool_type_recovery mos),
     (''ida_intel'', tool_intel mos), (''ida_deobfuscate'', tool_deobfuscate mos), (''ida_sig'', tool_sig mos),
     (''ida_mutation'', tool_mutation mos), (''ida_wasm'', tool_wasm ts mos)] @ batch_tools ts mos"

definition unmodelled_tools :: "string list" where
  "unmodelled_tools = [''ida_installations'', ''ida_health'']"

definition registry_call ::
  "(string \<Rightarrow> json \<Rightarrow> json tool) \<Rightarrow> text_fn \<Rightarrow> (nat \<Rightarrow> moment) \<Rightarrow> string \<Rightarrow> json \<Rightarrow> json tool" where
  "registry_call other ts mos name args =
     (if name \<in> set unmodelled_tools then other name args
      else case map_of (registry_tools ts mos) name of
        Some t \<Rightarrow> t args
      | None \<Rightarrow> tret (Inl (Mcp (''unknown tool '' @ quoted name))))"

datatype call_tool_result = ToolSuccess json | ToolFailure json

text \<open>\<open>call_tool\<close>: success or failure, with the JSON value whose text is the content. A panic has no
  answer, nor has a call that does not return.\<close>

definition call_tool ::
  "(string \<Rightarrow> json \<Rightarrow> json tool) \<Rightarrow> text_fn \<Rightarrow> (nat \<Rightarrow> moment) \<Rightarrow> string \<Rightarrow> json option \<Rightarrow> broker \<Rightarrow> call_tool_result option \<times> broker" where
  "call_tool other ts mos name arguments st =
     (case registry_call other ts mos name (unwrap_or arguments (JObj [])) st of
        (Inr v, st') \<Rightarrow> (Some (ToolSuccess v), st')
      | (Inl (Mcp m), st') \<Rightarrow> (Some (ToolFailure (error_json m)), st')
      | (Inl _, st') \<Rightarrow> (None, st'))"

section \<open>Resources\<close>

definition resource_method :: "string \<Rightarrow> string option" where
  "resource_method kind = map_of [(''metadata'', ''db.metadata''), (''segments'', ''segments''), (''entrypoints'', ''db.metadata''),
     (''exports'', ''db.metadata''), (''imports'', ''imports.list''), (''info'', ''db.info'')] kind"

definition resource_read :: "text_fn \<Rightarrow> (nat \<Rightarrow> moment) \<Rightarrow> string \<Rightarrow> json tool" where
  "resource_read ts mos uri =
     tbind (need (strip_prefix uri ''ida://db/'') ''unsupported resource URI (want ida://db/{id}/{kind})'') (\<lambda>rest.
     tbind (need (split_once rest ''/'') ''URI must be ida://db/{id}/{kind}'') (\<lambda>(i, kind).
     case resource_method kind of
       None \<Rightarrow> tret (Inl (invalid_args (''unknown resource kind '' @ quoted kind @ '' (metadata|segments|entrypoints|imports|exports|info)'')))
     | Some mthd \<Rightarrow>
         tbind (resolve_db (Some i)) (\<lambda>(_, a).
         tbind (wcall mos a mthd (JObj [])) (bound_output ts mos (''resource:'' @ kind)))))"

end
