(* ===== verification/Tools_Props.thy ===== *)
theory Tools_Props
  imports Registry Dispatch_Props
begin

text \<open>
  What holds of every tool that works on one database. A tool is built from worker calls on the
  session it resolved; two closure properties follow a tool's body: \<open>confined\<close> (no other session's
  worker changes, nor the pool) and \<open>guarded\<close> (with a stale expected revision in the arguments, the
  database does not change). The theorems then range over all these tools at once.
\<close>

named_theorems confined_intros
named_theorems guarded_intros

definition channel :: "broker \<Rightarrow> usize \<Rightarrow> usize option" where
  "channel st a = ws_tx (pl_heap (bk_pool st) ! a)"

definition same_setup :: "broker \<Rightarrow> broker \<Rightarrow> bool" where
  "same_setup st st' \<longleftrightarrow> bk_pool st' = bk_pool st \<and> bk_open_dbs st' = bk_open_dbs st \<and> bk_config st' = bk_config st \<and>
     bk_jobs st' = bk_jobs st \<and> bk_tasks st' = bk_tasks st"

section \<open>Confinement\<close>

definition untouched :: "usize \<Rightarrow> broker \<Rightarrow> broker \<Rightarrow> bool" where
  "untouched a st st' \<longleftrightarrow> same_setup st st' \<and> (\<forall>ch. channel st a \<noteq> Some ch \<longrightarrow> bk_workers st' ch = bk_workers st ch)"

definition confined :: "usize \<Rightarrow> 'a tool \<Rightarrow> bool" where
  "confined a f \<longleftrightarrow> (\<forall>st. untouched a st (snd (f st)))"

interpretation others: step_relation "untouched a" for a
  by unfold_locales (auto simp: untouched_def same_setup_def channel_def)

lemma confined_tret [confined_intros]: "confined a (tret r)"
  by (simp add: confined_def tret_def others.step_refl)

lemma confined_tbind [confined_intros]: "confined a m \<Longrightarrow> (\<And>x. confined a (k x)) \<Longrightarrow> confined a (tbind m k)"
  unfolding confined_def tbind_def by (intro allI others.bind_step) simp_all

lemma confined_session_call: "confined a (\<lambda>st. case session_call mos a m p t st of (r, st') \<Rightarrow> (f r, st'))"
  by (auto simp: confined_def untouched_def session_call_def transmit_def same_setup_def channel_def Let_def split: option.splits prod.splits delivery.splits)

lemma confined_wcall_timeout [confined_intros]: "confined a (wcall_timeout mos a m p t)"
  using confined_session_call [where f = "rmap_err err_from"] by (simp add: wcall_timeout_def [abs_def] case_prod_unfold Let_def)

lemma confined_wcall [confined_intros]: "confined a (wcall mos a m p)"
  unfolding wcall_def by (rule confined_wcall_timeout)

lemma confined_bound_output [confined_intros]: "confined a (bound_output ts mos tool v)"
  by (auto simp: confined_def untouched_def bound_output_def same_setup_def Let_def split: prod.splits)

lemma confined_need [confined_intros]: "confined a (need v m)" "confined a (need_ea args k m)"
  by (simp_all add: need_def need_ea_def confined_tret)

lemma confined_if [confined_intros]: "(c \<Longrightarrow> confined a f) \<Longrightarrow> (\<not> c \<Longrightarrow> confined a g) \<Longrightarrow> confined a (if c then f else g)"
  by simp

lemma confined_case_option [confined_intros]:
  "(v = None \<Longrightarrow> confined a f) \<Longrightarrow> (\<And>x. v = Some x \<Longrightarrow> confined a (g x)) \<Longrightarrow> confined a (case v of None \<Rightarrow> f | Some x \<Rightarrow> g x)"
  by (cases v) simp_all

lemma confined_index_set [confined_intros]: "confined a (index_set k v out)"
  by (cases out) (simp_all add: index_set_def confined_tret)

lemma confined_truncate_hits [confined_intros]: "confined a (truncate_hits args out)"
  by (auto simp: truncate_hits_def Let_def split: option.splits json.splits intro: confined_intros)

lemma confined_answer [confined_intros]: "confined a (answer db k out)" "confined a (answer_bounded ts mos tool db k out)"
  by (simp_all add: answer_def answer_bounded_def confined_intros)

lemma confined_add_budgets [confined_intros]: "confined a (add_budgets out)"
  by (cases out) (simp_all add: add_budgets_def index_set_def confined_def tret_def others.step_refl)

text \<open>The steps of the hierarchical workflows that run no worker of the pool.\<close>

definition iso_only :: "broker \<Rightarrow> broker \<Rightarrow> bool" where
  "iso_only st st' \<longleftrightarrow> (\<exists>s n. st' = st\<lparr>bk_iso := s, bk_moment := n\<rparr>)"

interpretation iso_step: step_relation iso_only
proof unfold_locales
  show "iso_only st st" for st unfolding iso_only_def by (intro exI [of _ "bk_iso st"] exI [of _ "bk_moment st"]) simp
  show "iso_only st st1 \<Longrightarrow> iso_only st1 st2 \<Longrightarrow> iso_only st st2" for st st1 st2 unfolding iso_only_def by fastforce
qed

lemma run_isolated_iso_only: "iso_only st (snd (run_isolated mos exe dir db_path m p t st))"
  by (auto simp: run_isolated_def iso_only_def Let_def split: prod.splits)

lemma analyze_regions_iso_only: "iso_only st (snd (analyze_regions mos exe dir db_path t rs sw st))"
proof (induction rs arbitrary: sw st)
  case Nil
  show ?case by (simp add: iso_step.step_refl)
next
  case (Cons r rs)
  show ?case using iso_step.step_trans [OF run_isolated_iso_only Cons.IH] by (simp add: case_prod_unfold Let_def)
qed

lemma hierarchical_steps_iso_only:
  "iso_only st (snd (region_sweep mos a exe p n t st))" "iso_only st (snd (region_hexrays mos args a r k st))"
  "iso_only st (snd (worker_exe_step st))" "iso_only st (snd (partition_step graph ea st))" "iso_only st (snd (find_region_step p' ea i st))"
  using analyze_regions_iso_only run_isolated_iso_only iso_step.step_refl
  by (simp_all add: region_sweep_def region_hexrays_def worker_exe_step_def partition_step_def find_region_step_def tret_def
    case_prod_unfold Let_def split: option.split bool.split)

lemma iso_onlyD: "iso_only st st' \<Longrightarrow> same_setup st st' \<and> bk_workers st' = bk_workers st"
  by (auto simp: iso_only_def same_setup_def)

lemma confined_iso_only:
  assumes "\<And>st. iso_only st (snd (f st))"
  shows "confined a f"
  using iso_onlyD [OF assms] by (simp add: confined_def untouched_def)

lemmas [confined_intros] = hierarchical_steps_iso_only [THEN confined_iso_only]

lemma confined_case_prod [confined_intros]: "(\<And>x y. confined a (f x y)) \<Longrightarrow> confined a (case v of (x, y) \<Rightarrow> f x y)"
  by (cases v) simp

lemma confined_conclude [confined_intros]: "confined a (conclude ts mos db m c ea p n sw)"
  using confined_answer(2) by (simp add: confined_def conclude_def Let_def)

text \<open>A step that only looks at the state.\<close>

lemma confined_look [confined_intros]: "confined a (\<lambda>st. (f st, st))"
  by (simp add: confined_def untouched_def same_setup_def)

lemma confined_wasm_load [confined_intros]: "confined a (wasm_load mos b)"
  by (simp add: confined_def wasm_load_def untouched_def same_setup_def Let_def)

text \<open>The tools that work on the one database their arguments name.\<close>

definition database_tools :: "text_fn \<Rightarrow> (nat \<Rightarrow> moment) \<Rightarrow> (string \<times> (json \<Rightarrow> json tool)) list" where
  "database_tools ts mos = filter (\<lambda>(n, _). n \<notin> {''ida_db'', ''ida_batch'', ''ida_result'', ''ida_jobs''}) (registry_tools ts mos)"

definition on_session :: "(usize \<Rightarrow> json tool \<Rightarrow> bool) \<Rightarrow> json \<Rightarrow> json tool \<Rightarrow> bool" where
  "on_session P args t \<longleftrightarrow> (\<exists>f. t = with_session args f \<and> (\<forall>db a. P a (f db a)))"

lemma on_sessionI: "(\<And>db a. P a (f db a)) \<Longrightarrow> on_session P args (with_session args f)"
  by (auto simp: on_session_def)

lemmas hierarchical_defs = tool_analyze_hierarchical_def tool_analyze_region_def preflight_calls_def fetch_graph_def normal_path_def
  analyze_function_def drill_region_def

lemmas tool_defs = tool_capabilities_def tool_graph_def tool_edit_def tool_analysis_def tool_evidence_def tool_analyze_def
  tool_deep_def tool_type_recovery_def tool_intel_def tool_deobfuscate_def tool_sig_def tool_mutation_def
  tool_functions_def tool_inspect_def tool_disassemble_def tool_decompile_def tool_xrefs_def tool_search_def tool_bytes_def
  tool_types_def tool_segments_def tool_metadata_def tool_imports_def tool_fixups_def tool_filemap_def tool_func_def tool_hr_def
  tool_value_def tool_insn_def tool_wasm_def by_task_def

lemmas action_defs = func_action_def mutation_action_def deob_task_def

lemma confined_types_case [confined_intros]:
  "(\<And>x y. confined a (f x y)) \<Longrightarrow> confined a g \<Longrightarrow> confined a (case (u, v) of (Some x, Some y) \<Rightarrow> f x y | _ \<Rightarrow> g)"
  by (cases u; cases v) simp_all

lemma tools_confined:
  "on_session confined args (tool_capabilities mos args)" "on_session confined args (tool_graph ts mos args)"
  "on_session confined args (tool_edit mos args)" "on_session confined args (tool_analysis mos args)"
  "on_session confined args (tool_evidence mos args)" "on_session confined args (tool_analyze mos args)"
  "on_session confined args (tool_deep mos args)" "on_session confined args (tool_type_recovery mos args)"
  "on_session confined args (tool_intel mos args)" "on_session confined args (tool_deobfuscate mos args)"
  "on_session confined args (tool_sig mos args)" "on_session confined args (tool_mutation mos args)"
  "on_session confined args (tool_functions ts mos args)" "on_session confined args (tool_inspect mos args)"
  "on_session confined args (tool_disassemble ts mos args)" "on_session confined args (tool_decompile ts mos args)"
  "on_session confined args (tool_xrefs ts mos args)" "on_session confined args (tool_search ts mos args)"
  "on_session confined args (tool_bytes mos args)" "on_session confined args (tool_types ts mos args)"
  "on_session confined args (tool_segments mos args)" "on_session confined args (tool_metadata ts mos args)"
  "on_session confined args (tool_imports ts mos args)" "on_session confined args (tool_fixups ts mos args)"
  "on_session confined args (tool_filemap mos args)" "on_session confined args (tool_func mos args)"
  "on_session confined args (tool_hr ts mos args)" "on_session confined args (tool_value ts mos args)"
  "on_session confined args (tool_insn mos args)" "on_session confined args (tool_analyze_hierarchical ts mos args)"
  "on_session confined args (tool_analyze_region ts mos args)" "on_session confined args (tool_wasm ts mos args)"
  unfolding tool_defs hierarchical_defs action_defs Let_def by (rule on_sessionI, intro confined_intros)+

lemma database_tools_confined: "(name, t) \<in> set (database_tools ts mos) \<Longrightarrow> on_session confined args (t args)"
  unfolding database_tools_def registry_tools_def batch_tools_def analyze_tool_def by (auto simp: tools_confined Let_def)

lemma resolve_db_state: "resolve_db db st = (fst (resolve_db db st), st)"
  by (simp add: resolve_db_def Let_def)

lemma with_session_run:
  "with_session args f st = (case fst (resolve_db (arg_str args ''db'') st) of Inl e \<Rightarrow> (Inl e, st) | Inr (db, a) \<Rightarrow> f db a st)"
  unfolding with_session_def tbind_def by (subst resolve_db_state) (simp split: sum.splits prod.splits)

text \<open>
  C9: a tool that runs on one session touches no other database: if the database its arguments name cannot be
  resolved the broker is exactly as before and the tool fails; otherwise every worker but the one on
  the resolved session's channel is as before, and so are the pool, the open databases and the
  jobs. This holds of every tool of the registry except \<open>ida_db\<close> (which opens and closes databases),
  \<open>ida_jobs\<close> (which starts jobs), \<open>ida_batch\<close> (which runs several tools) and \<open>ida_result\<close>, whatever the
  arguments and whatever the worker answers.
\<close>

theorem tools_touch_only_their_database:
  assumes "(name, t) \<in> set (database_tools ts mos)" "t args st = (r, st')"
  shows "same_setup st st' \<and> (case fst (resolve_db (arg_str args ''db'') st) of
     Inl e \<Rightarrow> st' = st \<and> r = Inl e
   | Inr (db, a) \<Rightarrow> (\<forall>ch. channel st a \<noteq> Some ch \<longrightarrow> bk_workers st' ch = bk_workers st ch))"
proof -
  from database_tools_confined [OF assms(1)] obtain f where f: "t args = with_session args f" "\<And>db a. confined a (f db a)"
    unfolding on_session_def by blast
  show ?thesis
  proof (cases "fst (resolve_db (arg_str args ''db'') st)")
    case (Inl e)
    then show ?thesis using assms(2) unfolding f(1) with_session_run by (auto simp: same_setup_def)
  next
    case (Inr da)
    then have "st' = snd (f (fst da) (snd da) st)" using assms(2) unfolding f(1) with_session_run by (auto split: prod.splits)
    then show ?thesis using f(2) [of "snd da" "fst da", unfolded confined_def untouched_def, rule_format, of st] Inr by (cases da) simp
  qed
qed

section \<open>Stale revisions\<close>

definition reading :: "string \<Rightarrow> bool" where
  "reading m \<longleftrightarrow> m \<notin> {''backend.select'', ''shutdown'', ''db.open'', ''db.close'', ''snapshot.create'', ''snapshot.restore''} \<union>
     (set MUTATING_METHODS - {''analyze_wait''})"

lemma changing_methods: "(m, h) \<in> set session_methods \<or> (m, h) \<in> set mutation_methods \<Longrightarrow> \<not> reading m"
  unfolding session_methods_def mutation_methods_def list.set insert_iff prod.inject empty_iff
  by (elim disjE conjE FalseE) (simp_all add: reading_def MUTATING_METHODS_def)

lemma plan_reading: "reading m \<Longrightarrow> (m, h) \<in> set plan_methods \<Longrightarrow> h = h_mutation_audit"
  unfolding plan_methods_def list.set insert_iff prod.inject empty_iff
  by (elim disjE conjE FalseE) (simp_all add: reading_def MUTATING_METHODS_def)

lemma dispatch_reading:
  assumes "reading m"
  shows "keeps (dispatch en m p)"
proof (cases "map_of (dispatch_table en) m")
  case None
  then show ?thesis by (simp add: dispatch_def keeps_wret)
next
  case (Some h)
  then have mem: "(m, h) \<in> set (dispatch_table en)" by (rule map_of_SomeD)
  have "(m, h) \<notin> set session_methods" "(m, h) \<notin> set mutation_methods" "(m, h) \<in> set plan_methods \<Longrightarrow> h = h_mutation_audit"
    using changing_methods plan_reading assms by blast+
  moreover have "keeps (h p)" if "(m, h) \<in> (\<lambda>(m, h). (m, read_only h)) ` set (read_methods en)"
    using that by (auto simp: keeps_def read_only_def)
  ultimately have "keeps (h p)"
    using dispatch_table_cases [OF mem] index_methods_keeps mutation_audit_keeps by blast
  then show ?thesis using Some by (simp add: dispatch_def)
qed

text \<open>A call that cannot change the database while \<open>v\<close> is not its revision.\<close>

definition harmless :: "u64 \<Rightarrow> string \<Rightarrow> json \<Rightarrow> bool" where
  "harmless v m p \<longleftrightarrow> reading m \<or> m \<in> set MUTATING_METHODS - {''snapshot.restore'', ''analyze_wait''} \<and> jget p ''expected_revision'' = Some (ju v)"

definition db_of :: "worker_state \<Rightarrow> mock option \<times> json list" where
  "db_of w = (ws_backend w, ws_audit w)"

lemma run_worker_db_of:
  "db_of (snd (dispatch en (rq_method req) (rq_params req) w)) = db_of w \<Longrightarrow> db_of (snd (run_worker en req w)) = db_of w"
  by (auto simp: run_worker_def handle_def db_of_def drop_cache_def split: prod.splits sum.splits error.splits)

lemma handle_harmless:
  assumes "harmless v (rq_method req) (rq_params req)" "ws_backend w = Some b" "v \<noteq> mock_revision b"
  shows "db_of (snd (run_worker en req w)) = db_of w"
proof -
  have "db_of (snd (dispatch en (rq_method req) (rq_params req) w)) = db_of w"
    using assms dispatch_reading [of "rq_method req" en "rq_params req"] dispatch_refused [OF assms(2) _ assms(3), of "rq_params req" "rq_method req" en]
    by (auto simp: harmless_def db_of_def keeps_def refused_def)
  then show ?thesis by (rule run_worker_db_of)
qed

definition unchanged_if_stale :: "u64 \<Rightarrow> usize \<Rightarrow> broker \<Rightarrow> broker \<Rightarrow> bool" where
  "unchanged_if_stale v a st st' \<longleftrightarrow> (\<forall>ch b. channel st a = Some ch \<longrightarrow> ws_backend (bk_workers st ch) = Some b \<longrightarrow> v \<noteq> mock_revision b \<longrightarrow>
     channel st' a = Some ch \<and> db_of (bk_workers st' ch) = db_of (bk_workers st ch))"

definition guarded :: "u64 \<Rightarrow> usize \<Rightarrow> 'a tool \<Rightarrow> bool" where
  "guarded v a f \<longleftrightarrow> (\<forall>st. unchanged_if_stale v a st (snd (f st)))"

interpretation stale: step_relation "unchanged_if_stale v a" for v a
  by unfold_locales (simp add: unchanged_if_stale_def, simp add: unchanged_if_stale_def db_of_def)

lemma guarded_tbind [guarded_intros]: "guarded v a m \<Longrightarrow> (\<And>x. guarded v a (k x)) \<Longrightarrow> guarded v a (tbind m k)"
  unfolding guarded_def tbind_def by (intro allI stale.bind_step) simp_all

lemma guarded_still: "(\<And>st. bk_pool (snd (f st)) = bk_pool st) \<Longrightarrow> (\<And>st. bk_workers (snd (f st)) = bk_workers st) \<Longrightarrow> guarded v a f"
  by (simp add: guarded_def unchanged_if_stale_def channel_def)

lemma guarded_tret [guarded_intros]: "guarded v a (tret r)"
  by (rule guarded_still) (simp_all add: tret_def)

lemma guarded_simple [guarded_intros]:
  "guarded v a (need u m)" "guarded v a (need_ea args k m)" "guarded v a (bound_output ts mos tool out)"
  "guarded v a (answer db k out)" "guarded v a (answer_bounded ts mos tool db k out)" "guarded v a (index_set k j out)"
  "guarded v a (truncate_hits args out)" "guarded v a (add_budgets out)"
proof -
  note ret = guarded_tret
  show "guarded v a (need u m)" "guarded v a (need_ea args k m)" "guarded v a (answer db k out)"
    by (simp_all add: need_def need_ea_def answer_def ret)
  have set: "guarded v a (index_set k j out)" for k j by (cases out) (simp_all add: index_set_def ret)
  then show "guarded v a (index_set k j out)" .
  show "guarded v a (truncate_hits args out)"
    by (auto simp: truncate_hits_def Let_def set ret split: option.splits json.splits)
  show "guarded v a (add_budgets out)"
    by (rule guarded_still; cases out) (simp_all add: add_budgets_def index_set_def tret_def)
  show bo: "guarded v a (bound_output ts mos tool out)"
    by (rule guarded_still) (simp_all add: bound_output_def Let_def split: prod.splits)
  show "guarded v a (answer_bounded ts mos tool db k out)"
    unfolding answer_bounded_def by (rule guarded_tbind [OF bo]) (simp add: answer_def ret)
qed

lemma guarded_wcall_timeout [guarded_intros]:
  assumes "harmless v m p"
  shows "guarded v a (wcall_timeout mos a m p t)"
  using assms handle_harmless
  by (auto simp: guarded_def unchanged_if_stale_def wcall_timeout_def session_call_def transmit_def channel_def Let_def split: option.splits prod.splits delivery.splits)
    (metis (no_types, lifting) worker_request.select_convs(2, 3) snd_conv handle_harmless)+

lemma guarded_wcall [guarded_intros]: "harmless v m p \<Longrightarrow> guarded v a (wcall mos a m p)"
  unfolding wcall_def by (rule guarded_wcall_timeout)

lemma guarded_if [guarded_intros]: "(c \<Longrightarrow> guarded v a f) \<Longrightarrow> (\<not> c \<Longrightarrow> guarded v a g) \<Longrightarrow> guarded v a (if c then f else g)"
  by simp

lemma guarded_case_option [guarded_intros]:
  "(u = None \<Longrightarrow> guarded v a f) \<Longrightarrow> (\<And>x. u = Some x \<Longrightarrow> guarded v a (g x)) \<Longrightarrow> guarded v a (case u of None \<Rightarrow> f | Some x \<Rightarrow> g x)"
  by (cases u) simp_all

lemma guarded_types_case [guarded_intros]:
  "(\<And>x y. guarded v a (f x y)) \<Longrightarrow> guarded v a g \<Longrightarrow> guarded v a (case (t, u) of (Some x, Some y) \<Rightarrow> f x y | _ \<Rightarrow> g)"
  by (cases t; cases u) simp_all

lemma guarded_case_prod [guarded_intros]: "(\<And>x y. guarded v a (f x y)) \<Longrightarrow> guarded v a (case u of (x, y) \<Rightarrow> f x y)"
  by (cases u) simp

lemma guarded_iso_only: "(\<And>st. iso_only st (snd (f st))) \<Longrightarrow> guarded v a f"
  using iso_onlyD unfolding same_setup_def by (intro guarded_still) blast+

lemmas [guarded_intros] = hierarchical_steps_iso_only [THEN guarded_iso_only]

lemma guarded_conclude [guarded_intros]: "guarded v a (conclude ts mos db m c ea p n sw)"
  using guarded_simple(5) by (simp add: guarded_def conclude_def Let_def)

lemma guarded_look [guarded_intros]: "guarded v a (\<lambda>st. (f st, st))"
  by (rule guarded_still) simp_all

lemma guarded_wasm_load [guarded_intros]: "guarded v a (wasm_load mos b)"
  by (rule guarded_still) (simp_all add: wasm_load_def Let_def)

lemma reading_methods [simp]:
  shows "reading ''capabilities''" "reading ''db.info''" "reading ''graph''" "reading ''analyze_wait''" "reading ''index.build''" "reading ''index.status''"
    "reading ''index.query''" "reading ''workflow.run''" "reading ''functions''" "reading ''function_at''" "reading ''get_comment''" "reading
    ''get_bytes''" "reading ''disassemble''" "reading ''decompile''" "reading ''xrefs_from''" "reading ''xrefs_to''" "reading ''search_immediate''"
    "reading ''search_text''" "reading ''types''" "reading ''segments''" "reading ''db.metadata''" "reading ''imports.list''" "reading ''fixups.list''"
    "reading ''file.map''" "reading ''func.tails''" "reading ''func.switch_info''" "reading ''func.sp_delta''" "reading ''hr.cfunc''" "reading
    ''hr.microcode''" "reading ''value.propagate''" "reading ''insn.features''" "reading ''names.demangle''" "reading ''plan.mutations''" "reading
    ''mutation.audit''" "reading ''deob.run''" "reading ''deob.propose''" "reading ''deob.validate''" "reading ''deep.function''" "reading
    ''deep.dataflow''" "reading ''types.evidence''" "reading ''types.propose''" "reading ''types.vtable''" "reading ''intel.crypto''" "reading
    ''intel.api_hashes''" "reading ''intel.strings''" "reading ''intel.packs''" "reading ''sig.export''" "reading ''sig.identify''" "reading ''sig.map''"
  by (simp_all add: reading_def MUTATING_METHODS_def)

lemma harmless_reading: "reading m \<Longrightarrow> harmless v m p"
  by (simp add: harmless_def)

lemma harmless_guarded:
  shows "jget p ''expected_revision'' = Some (ju v) \<Longrightarrow> harmless v ''patch_bytes'' p" "jget p ''expected_revision'' = Some (ju v)
    \<Longrightarrow> harmless v ''set_type'' p" "jget p ''expected_revision'' = Some (ju v) \<Longrightarrow> harmless v ''rename'' p" "jget p
    ''expected_revision'' = Some (ju v) \<Longrightarrow> harmless v ''set_comment'' p" "jget p ''expected_revision'' = Some (ju v) \<Longrightarrow>
    harmless v ''func.create'' p" "jget p ''expected_revision'' = Some (ju v) \<Longrightarrow> harmless v ''func.delete'' p" "jget p
    ''expected_revision'' = Some (ju v) \<Longrightarrow> harmless v ''func.resize'' p" "jget p ''expected_revision'' = Some (ju v) \<Longrightarrow>
    harmless v ''hr.lvar_rename'' p" "jget p ''expected_revision'' = Some (ju v) \<Longrightarrow> harmless v ''plan.apply'' p" "jget p
    ''expected_revision'' = Some (ju v) \<Longrightarrow> harmless v ''deob.apply'' p" "jget p ''expected_revision'' = Some (ju v) \<Longrightarrow>
    harmless v ''deep.retype'' p" "jget p ''expected_revision'' = Some (ju v) \<Longrightarrow> harmless v ''types.apply'' p"
  by (simp_all add: harmless_def MUTATING_METHODS_def)

lemma by_task_guarded:
  assumes "\<And>k m. (k, m) \<in> set methods \<Longrightarrow> harmless v m args"
  shows "on_session (guarded v) args (by_task mos args d methods choices t key)"
  unfolding by_task_def Let_def by (intro on_sessionI guarded_intros assms) (auto dest: map_of_SomeD)

lemma task_tools_guarded:
  assumes "jget args ''expected_revision'' = Some (ju v)"
  shows "on_session (guarded v) args (tool_deep mos args)" "on_session (guarded v) args (tool_type_recovery mos args)"
    "on_session (guarded v) args (tool_intel mos args)" "on_session (guarded v) args (tool_sig mos args)"
  unfolding tool_deep_def tool_type_recovery_def tool_intel_def tool_sig_def
  by (rule by_task_guarded; auto simp: harmless_reading harmless_guarded assms)+

lemmas session_tool_defs = tool_capabilities_def tool_graph_def tool_edit_def tool_analysis_def tool_evidence_def tool_analyze_def
  tool_deobfuscate_def tool_mutation_def tool_functions_def tool_inspect_def tool_disassemble_def tool_decompile_def tool_xrefs_def
  tool_search_def tool_bytes_def tool_types_def tool_segments_def tool_metadata_def tool_imports_def tool_fixups_def tool_filemap_def
  tool_func_def tool_hr_def tool_value_def tool_insn_def

lemma tools_guarded:
  assumes "jget args ''expected_revision'' = Some (ju v)"
  shows "on_session (guarded v) args (tool_capabilities mos args)" "on_session (guarded v) args (tool_graph ts mos args)" "on_session (guarded v) args
    (tool_edit mos args)" "on_session (guarded v) args (tool_analysis mos args)" "on_session (guarded v) args (tool_evidence mos args)" "on_session
    (guarded v) args (tool_analyze mos args)" "on_session (guarded v) args (tool_functions ts mos args)" "on_session (guarded v) args (tool_inspect mos
    args)" "on_session (guarded v) args (tool_disassemble ts mos args)" "on_session (guarded v) args (tool_decompile ts mos args)" "on_session (guarded v)
    args (tool_xrefs ts mos args)" "on_session (guarded v) args (tool_search ts mos args)" "on_session (guarded v) args (tool_bytes mos args)" "on_session
    (guarded v) args (tool_types ts mos args)" "on_session (guarded v) args (tool_segments mos args)" "on_session (guarded v) args (tool_metadata ts mos
    args)" "on_session (guarded v) args (tool_imports ts mos args)" "on_session (guarded v) args (tool_fixups ts mos args)" "on_session (guarded v) args
    (tool_filemap mos args)" "on_session (guarded v) args (tool_func mos args)" "on_session (guarded v) args (tool_hr ts mos args)" "on_session (guarded
    v) args (tool_value ts mos args)" "on_session (guarded v) args (tool_insn mos args)"
  unfolding session_tool_defs action_defs Let_def
  by (rule on_sessionI, (intro guarded_intros; simp add: harmless_reading harmless_guarded pass_def jopt_def assms))+

text \<open>The hierarchical workflows and the WebAssembly tool only read, whatever revision the caller names.\<close>

lemma hierarchical_guarded:
  "on_session (guarded v) args (tool_analyze_hierarchical ts mos args)" "on_session (guarded v) args (tool_analyze_region ts mos args)"
  "on_session (guarded v) args (tool_wasm ts mos args)"
  unfolding hierarchical_defs tool_wasm_def Let_def by (rule on_sessionI, (intro guarded_intros; simp add: harmless_reading))+

text \<open>The actions that are not guarded by a revision: taking and restoring snapshots.\<close>

definition snapshot_action :: "string \<Rightarrow> json \<Rightarrow> bool" where
  "snapshot_action name args \<longleftrightarrow> name = ''ida_mutation'' \<and> arg_str args ''action'' \<in> {Some ''snapshot'', Some ''rollback''} \<or>
     name = ''ida_deobfuscate'' \<and> arg_str args ''task'' = Some ''rollback''"

lemma mutation_guarded:
  assumes "jget args ''expected_revision'' = Some (ju v)" "\<not> snapshot_action ''ida_mutation'' args"
  shows "on_session (guarded v) args (tool_mutation mos args)"
proof -
  have "unwrap_or (arg_str args ''action'') ''plan'' \<notin> {''snapshot'', ''rollback''}"
    using assms(2) by (cases "arg_str args ''action''") (simp_all add: snapshot_action_def)
  then show ?thesis unfolding session_tool_defs action_defs Let_def
    by (intro on_sessionI guarded_intros; simp add: harmless_reading harmless_guarded pass_def jopt_def assms(1))
qed

lemma deobfuscate_guarded:
  assumes "jget args ''expected_revision'' = Some (ju v)" "\<not> snapshot_action ''ida_deobfuscate'' args"
  shows "on_session (guarded v) args (tool_deobfuscate mos args)"
proof -
  have "unwrap_or (arg_str args ''task'') ''analyze'' \<noteq> ''rollback''"
    using assms(2) by (cases "arg_str args ''task''") (simp_all add: snapshot_action_def)
  then show ?thesis unfolding session_tool_defs action_defs Let_def
    by (intro on_sessionI guarded_intros; simp add: harmless_reading harmless_guarded pass_def jopt_def assms(1))
qed

lemma database_tools_guarded:
  assumes "(name, t) \<in> set (database_tools ts mos)" "jget args ''expected_revision'' = Some (ju v)" "\<not> snapshot_action name args"
  shows "on_session (guarded v) args (t args)"
  using assms(1, 3) tools_guarded [OF assms(2)] task_tools_guarded [OF assms(2)] mutation_guarded [OF assms(2)] deobfuscate_guarded [OF assms(2)]
    hierarchical_guarded [of v args]
  unfolding database_tools_def registry_tools_def batch_tools_def analyze_tool_def by (auto simp: Let_def)

text \<open>
  C8: optimistic concurrency end to end: a call of a tool that runs on one session (every tool of the registry
  but \<open>ida_db\<close>, \<open>ida_jobs\<close>, \<open>ida_batch\<close> and \<open>ida_result\<close>) that carries an expected revision other than the
  current one of the database it resolves to leaves that database and its audit trail exactly as they
  are, whatever its other arguments, whether the request reaches the worker, its answer is lost or it is
  never sent. Excepted are the snapshot and rollback actions of \<open>ida_mutation\<close> and the rollback task of
  \<open>ida_deobfuscate\<close>: they are not guarded by a revision (see \<open>restore_ignores_the_revision\<close>).
\<close>

theorem stale_tool_call_changes_nothing:
  assumes "(name, t) \<in> set (database_tools ts mos)" "t args st = (r, st')" "\<not> snapshot_action name args"
    and "fst (resolve_db (arg_str args ''db'') st) = Inr (db, a)" "ws_tx (pl_heap (bk_pool st) ! a) = Some ch"
    and "ws_backend (bk_workers st ch) = Some b" "jget args ''expected_revision'' = Some (ju v)" "v \<noteq> mock_revision b"
  shows "ws_backend (bk_workers st' ch) = Some b \<and> ws_audit (bk_workers st' ch) = ws_audit (bk_workers st ch)"
proof -
  from database_tools_guarded [OF assms(1, 7, 3)] obtain f where f: "t args = with_session args f" "\<And>db a. guarded v a (f db a)"
    unfolding on_session_def by blast
  have "st' = snd (f db a st)" using assms(2, 4) unfolding f(1) with_session_run by auto
  then show ?thesis
    using f(2) [of a db, unfolded guarded_def unchanged_if_stale_def channel_def, rule_format, OF assms(5, 6, 8)] assms(6) by (simp add: db_of_def)
qed

section \<open>A broker with two databases\<close>

definition sample_moment :: moment where
  "sample_moment = \<lparr>mo_now = 0, mo_host = sample_host, mo_delivery = Arrives sample_env, mo_newborn = worker_new,
     mo_spawn = (\<lambda>_ _. Inr 7), mo_child = dying_child, mo_elapsed = (\<lambda>_. 0),
     mo_wasm = \<lparr>we_read = (\<lambda>_. Inr []), we_parse_all = (\<lambda>_. []), we_ops = (\<lambda>_. []), we_floats = (\<lambda>_. [], \<lambda>_. [])\<rparr>\<rparr>"

definition sample_session :: "usize \<Rightarrow> worker_session" where
  "sample_session ch = new_session ch \<lparr>h_protocol = 1, h_ida_version = [], h_pid = 1, h_ida_dir = [], h_idausr = []\<rparr> ''a.idb'' ''mock'' []"

definition sample_broker :: broker where
  "sample_broker = (broker_new default_config)\<lparr>
     bk_pool := pool_new\<lparr>pl_sessions := [(''db1'', 0), (''db2'', 1)], pl_heap := [sample_session 0, sample_session 1]\<rparr>,
     bk_open_dbs := [(''db1'', ''a.idb''), (''db2'', ''b.idb'')], bk_workers := (\<lambda>_. open_worker)\<rparr>"

definition stale_edit :: json where
  "stale_edit = JObj [(''db'', JStr ''db1''), (''ea'', ju 0x401000), (''rename'', JStr ''x''), (''expected_revision'', ju 7)]"

lemma sample_resolve: "fst (resolve_db (arg_str stale_edit ''db'') sample_broker) = Inr (''db1'', 0)"
  by (simp add: resolve_db_def arg_str_def stale_edit_def sample_broker_def Worker_Pool.session_def pool_new_def)

lemma sample_channel: "ws_tx (pl_heap (bk_pool sample_broker) ! 0) = Some 0"
  by (simp add: sample_broker_def sample_session_def new_session_def)

lemma edit_is_database_tool: "(''ida_edit'', tool_edit mos) \<in> set (database_tools ts mos)"
  by (simp add: database_tools_def registry_tools_def)

theorem tools_touch_only_their_database_witness:
  "bk_workers (snd (tool_edit (\<lambda>_. sample_moment) stale_edit sample_broker)) 1 = open_worker"
proof -
  have "same_setup sample_broker (snd (tool_edit (\<lambda>_. sample_moment) stale_edit sample_broker)) \<and>
     (\<forall>ch. channel sample_broker 0 \<noteq> Some ch \<longrightarrow>
       bk_workers (snd (tool_edit (\<lambda>_. sample_moment) stale_edit sample_broker)) ch = bk_workers sample_broker ch)"
    using tools_touch_only_their_database [OF edit_is_database_tool [where mos = "\<lambda>_. sample_moment"] prod.collapse [symmetric],
      where args = stale_edit and st = sample_broker]
    unfolding sample_resolve by simp
  then show ?thesis by (simp add: channel_def sample_channel) (simp add: sample_broker_def)
qed

theorem stale_tool_call_changes_nothing_witness:
  "ws_backend (bk_workers (snd (tool_edit (\<lambda>_. sample_moment) stale_edit sample_broker)) 0) = Some mock_opened"
proof -
  have "ws_backend (bk_workers sample_broker 0) = Some mock_opened" "\<not> snapshot_action ''ida_edit'' stale_edit"
    "jget stale_edit ''expected_revision'' = Some (ju 7)" "7 \<noteq> mock_revision mock_opened"
    by (simp_all add: sample_broker_def snapshot_action_def stale_edit_def mock_revision_def mock_new_def)
  from stale_tool_call_changes_nothing [OF edit_is_database_tool prod.collapse [symmetric] this(2) sample_resolve sample_channel this(1, 3, 4)]
  show ?thesis by blast
qed

end
