(* ===== verification/Hierarchical_Props.thy ===== *)
theory Hierarchical_Props
  imports Tools_Props
begin

text \<open>
  What holds of the workflows over large functions, for whatever facts the worker reports: they
  return, leave every database alone, and account for every disposable worker they start; the
  overview reports the regions it covers and names them so that each can be opened.
\<close>

named_theorems runs_intros
named_theorems answers_intros

section \<open>Disposable workers\<close>

text \<open>Up to \<open>n\<close> children were started, all of them have been sent a kill, and nothing is left running.\<close>

definition settled :: "usize \<Rightarrow> iso \<Rightarrow> iso \<Rightarrow> bool" where
  "settled n s s' \<longleftrightarrow> is_live s' = is_live s \<and> is_permits s' = is_permits s \<and>
     st_spawned (is_stats s') - ended (is_stats s') = st_spawned (is_stats s) - ended (is_stats s) \<and>
     (\<exists>ks. is_killed s' = ks @ is_killed s \<and> length ks \<le> n \<and> st_spawned (is_stats s') = st_spawned (is_stats s) + of_nat (length ks))"

lemma settled_refl: "settled n s s"
  by (simp add: settled_def)

lemma settled_trans:
  assumes "settled m s t" "settled n t u"
  shows "settled (m + n) s u"
proof -
  from assms obtain ks ls where ks: "is_killed t = ks @ is_killed s" "length ks \<le> m"
      "st_spawned (is_stats t) = st_spawned (is_stats s) + of_nat (length ks)"
    and ls: "is_killed u = ls @ is_killed t" "length ls \<le> n" "st_spawned (is_stats u) = st_spawned (is_stats t) + of_nat (length ls)"
    unfolding settled_def by blast
  then have "is_killed u = (ls @ ks) @ is_killed s \<and> length (ls @ ks) \<le> m + n \<and>
     st_spawned (is_stats u) = st_spawned (is_stats s) + of_nat (length (ls @ ks))" by simp
  then show ?thesis using assms unfolding settled_def by metis
qed

lemma isolated_settled: "settled 1 s (snd (isolated spawn env db_path m p t s))"
proof (cases "begin_run spawn s")
  case (Pair r s1)
  note b = begin_run_effect [OF Pair]
  show ?thesis
  proof (cases r)
    case (Inl e)
    then show ?thesis using b Pair by (auto simp: isolated_def settled_def intro: exI [of _ "[]"])
  next
    case (Inr pid)
    obtain r' s2 where e: "end_run env db_path m p t pid s1 = (r', s2)" by fastforce
    note f = end_run_effect [OF e]
    have "is_killed s2 = [pid] @ is_killed s" "st_spawned (is_stats s2) = st_spawned (is_stats s) + of_nat (length [pid])"
      using b f Inr by simp_all
    then show ?thesis using b f Inr Pair e by (simp add: isolated_def settled_def)
  qed
qed

section \<open>Nothing else happens\<close>

definition quiet :: "usize \<Rightarrow> broker \<Rightarrow> broker \<Rightarrow> bool" where
  "quiet n st st' \<longleftrightarrow> same_setup st st' \<and> (\<forall>ch. db_of (bk_workers st' ch) = db_of (bk_workers st ch)) \<and> settled n (bk_iso st) (bk_iso st')"

definition runs_at_most :: "usize \<Rightarrow> 'a tool \<Rightarrow> bool" where
  "runs_at_most n f \<longleftrightarrow> (\<forall>st. quiet n st (snd (f st)))"

lemma quiet_trans: "quiet m st st1 \<Longrightarrow> quiet n st1 st2 \<Longrightarrow> quiet (m + n) st st2"
  unfolding quiet_def by (auto simp: same_setup_def intro: settled_trans)

lemma runs_tbind:
  assumes "runs_at_most m f" "\<And>x. runs_at_most n (k x)"
  shows "runs_at_most (m + n) (tbind f k)"
proof -
  have "quiet (m + 0) st st' \<Longrightarrow> quiet (m + n) st st'" for st st' unfolding quiet_def settled_def by fastforce
  then show ?thesis using assms quiet_trans unfolding runs_at_most_def tbind_def
    by (auto split: prod.splits sum.splits) (metis add_0_right snd_conv, metis snd_conv)
qed

lemmas runs_seq [runs_intros] = runs_tbind [where m = 0, simplified] runs_tbind [where n = 0, simplified]

lemma runs_still: "(\<And>st. same_setup st (snd (f st)) \<and> bk_workers (snd (f st)) = bk_workers st \<and> bk_iso (snd (f st)) = bk_iso st) \<Longrightarrow> runs_at_most 0 f"
  by (simp add: runs_at_most_def quiet_def settled_refl)

lemma run_worker_reading: "reading (rq_method req) \<Longrightarrow> db_of (snd (run_worker en req w)) = db_of w"
  using dispatch_reading [of "rq_method req" en "rq_params req"] by (intro run_worker_db_of) (simp add: keeps_def db_of_def)

lemma runs_wcall [runs_intros]: "reading m \<Longrightarrow> runs_at_most 0 (wcall mos a m p)"
  using run_worker_reading [of "\<lparr>rq_id = i, rq_method = m, rq_params = p\<rparr>" for i]
  by (auto simp: runs_at_most_def quiet_def settled_refl wcall_def wcall_timeout_def session_call_def transmit_def same_setup_def Let_def
    split: option.splits prod.splits delivery.splits) (metis snd_conv)+


lemma runs_simple [runs_intros]:
  "runs_at_most 0 (tret r)" "runs_at_most 0 (bound_output ts mos tool v)" "runs_at_most 0 (worker_exe_step)"
  "runs_at_most 0 (partition_step graph ea)" "runs_at_most 0 (find_region_step p ea i)" "runs_at_most 0 (index_set k v out)"
  by (rule runs_still; simp add: tret_def bound_output_def worker_exe_step_def partition_step_def find_region_step_def
    index_set_def same_setup_def Let_def split: json.split prod.split)+

lemma runs_answer_bounded [runs_intros]: "runs_at_most 0 (answer_bounded ts mos tool db k out)"
  unfolding answer_bounded_def answer_def by (intro runs_intros)

lemma runs_conclude [runs_intros]: "runs_at_most 0 (conclude ts mos db m c ea p n sw)"
  using runs_answer_bounded by (simp add: runs_at_most_def conclude_def Let_def)

lemma run_isolated_quiet: "quiet 1 st (snd (run_isolated mos exe dir db_path m p t st))"
  using isolated_settled [where s = "bk_iso st"]
  by (auto simp: run_isolated_def quiet_def same_setup_def Let_def split: prod.splits) (metis snd_conv)

lemma analyze_regions_quiet: "quiet (length rs) st (snd (analyze_regions mos exe dir db_path t rs sw st))"
proof (induction rs arbitrary: sw st)
  case Nil
  show ?case by (simp add: quiet_def same_setup_def settled_refl)
next
  case (Cons r rs)
  show ?case using quiet_trans [OF run_isolated_quiet Cons.IH] by (simp add: case_prod_unfold Let_def)
qed

lemma quiet_mono: "quiet m st st' \<Longrightarrow> m \<le> n \<Longrightarrow> quiet n st st'"
  unfolding quiet_def settled_def by fastforce

lemma runs_region_sweep: "runs_at_most n (region_sweep mos a exe p n t)"
  unfolding runs_at_most_def region_sweep_def
  by (auto simp: Let_def case_prod_unfold intro!: quiet_mono [OF analyze_regions_quiet])

lemma quiet_refl: "quiet n st st"
  by (simp add: quiet_def same_setup_def settled_refl)

lemma runs_region_hexrays: "runs_at_most 1 (region_hexrays mos args a r k)"
  unfolding runs_at_most_def region_hexrays_def
  by (simp add: Let_def case_prod_unfold quiet_refl run_isolated_quiet [unfolded One_nat_def] split: option.split bool.split)

section \<open>Every call is answered\<close>

definition answers :: "'a tool \<Rightarrow> bool" where
  "answers f \<longleftrightarrow> (\<forall>st e. fst (f st) = Inl e \<longrightarrow> (\<exists>m. e = Mcp m))"

lemma answers_tbind [answers_intros]: "answers f \<Longrightarrow> (\<And>x. answers (k x)) \<Longrightarrow> answers (tbind f k)"
  unfolding answers_def tbind_def by (auto split: prod.splits sum.splits) (metis fst_conv)+

lemma answers_simple [answers_intros]:
  "answers (tret (Inr v))" "answers (tret (ok_or u (mcp_code c m)))" "answers (bound_output ts mos tool v)"
  "answers (region_sweep mos a exe p n t)" "answers (region_hexrays mos args a r k)"
  by (simp_all add: answers_def tret_def bound_output_def region_sweep_def region_hexrays_def
    mcp_code_def ok_or_eq_Inl case_prod_unfold Let_def split: option.split bool.split)

lemma answers_lookups [answers_intros]: "answers worker_exe_step" "answers (find_region_step p ea i)"
  unfolding find_region_step_def by (simp add: worker_exe_step_def answers_def ok_or_eq_Inl mcp_code_def, rule answers_simple)

lemma answers_answer_bounded [answers_intros]: "answers (answer_bounded ts mos tool db k out)"
  unfolding answer_bounded_def answer_def by (intro answers_intros)

lemma answers_conclude [answers_intros]: "answers (conclude ts mos db m c ea p n sw)"
  using answers_answer_bounded by (simp add: answers_def conclude_def Let_def)

lemma error_from_code_no_panic: "error_from_code c m \<noteq> Panic x"
  by (simp add: error_from_code_def unwrap_or_def split: option.split Option.bind_split prod.split)

lemma session_call_no_panic: "fst (session_call mos a m p t st) \<noteq> Inl (Panic x)"
  by (auto simp: session_call_def call_with_timeout_def transmit_def run_worker_def response_value_def error_from_code_no_panic Let_def
    split: option.splits prod.splits delivery.splits sum.splits call_outcome.splits)

lemma err_from_no_panic: "\<forall>x. e \<noteq> Panic x \<Longrightarrow> \<exists>m. err_from e = Mcp m"
  by (cases e) (simp_all add: err_from_def mcp_code_def)

lemma answers_wcall [answers_intros]: "answers (wcall mos a m p)"
proof -
  have "\<exists>msg. err_from e = Mcp msg" if "fst (session_call mos a m p 120000 st) = Inl e" for st e
    using session_call_no_panic [of mos a m p 120000 st] that by (intro err_from_no_panic) auto
  then show ?thesis by (fastforce simp: answers_def wcall_def wcall_timeout_def case_prod_unfold Let_def rmap_err_eq_Inl)
qed

lemma answers_partition_step:
  assumes "length (unwrap_or (as_array (jidx graph ''nodes'')) []) < UNSEEN"
  shows "answers (partition_step graph ea)"
proof -
  have "0 < max_chunk_blocks default_partition_options" by (simp add: default_partition_options_def)
  from partition_from_graph_returns [OF assms this, of ea] show ?thesis
    by (auto simp: answers_def partition_step_def tret_def)
qed


lemma max_regions_bound: "1 \<le> max_regions_arg args" "max_regions_arg args \<le> 256"
proof -
  have "1 \<le> clamp_u64 1 256 x" "clamp_u64 1 256 x \<le> 256" for x by (simp_all add: clamp_u64_def)
  then show "1 \<le> max_regions_arg args" "max_regions_arg args \<le> 256"
    unfolding max_regions_arg_def word_le_nat_alt by simp_all
qed

lemma answers_normal_path:
  assumes "jget args ''ea'' = Some v"
  shows "answers (normal_path mos args db a c)"
proof -
  obtain m where "args = JObj m" using assms by (cases args) simp_all
  then have "answers (index_set k j (remove_key ''db'' args))" for k j by (simp add: index_set_def remove_key_def answers_intros)
  then show ?thesis unfolding normal_path_def by (intro answers_intros)
qed

lemma answers_analyze_function:
  assumes "length (unwrap_or (as_array (jidx graph ''nodes'')) []) < UNSEEN" "jget args ''ea'' = Some v"
  shows "answers (analyze_function ts mos args db a ea func graph dec)"
  using answers_normal_path [OF assms(2)] answers_partition_step [OF assms(1)]
  by (simp add: analyze_function_def Let_def answers_intros)

lemma runs_analyze_function: "runs_at_most (max_regions_arg args) (analyze_function ts mos args db a ea func graph dec)"
proof -
  have "runs_at_most 0 (normal_path mos args db a c)" for c unfolding normal_path_def by (intro runs_intros) simp
  then have n: "runs_at_most k (normal_path mos args db a c)" for c k
    unfolding runs_at_most_def using quiet_mono by blast
  have "runs_at_most k (tbind (region_sweep mos a exe p k t) (conclude ts mos db m c ea p k))" for k exe p t m c
    using runs_tbind [OF runs_region_sweep runs_conclude] by simp
  then show ?thesis using n by (simp add: analyze_function_def Let_def runs_seq(1) runs_simple)
qed

lemma answers_drill_region:
  "length (unwrap_or (as_array (jidx graph ''nodes'')) []) < UNSEEN \<Longrightarrow> answers (drill_region ts mos args db a ea i graph)"
  by (simp add: drill_region_def Let_def answers_partition_step answers_intros)

lemma runs_drill_region: "runs_at_most 1 (drill_region ts mos args db a ea i graph)"
proof -
  have h: "runs_at_most 1 (tbind (region_hexrays mos args a r k) (\<lambda>h. answer_bounded ts mos tool db key (f h)))" for r k tool key f
    using runs_tbind [OF runs_region_hexrays runs_answer_bounded] by simp
  then show ?thesis unfolding drill_region_def Let_def
    by (intro runs_seq(1) [OF runs_simple(4)] runs_seq(1) [OF runs_simple(5)] runs_seq(1) [OF runs_wcall] h) simp
qed

text \<open>
  C10: analysing a large function cannot hurt the session it is asked on. Whatever facts and graph the
  worker reports, and whatever the disposable workers do, the workflow returns with an answer or an
  error message; no database and no audit trail changes, nor do the pool, the open databases and the
  jobs; and every disposable worker it started (at most as many as the regions asked for, and never
  more than 256; at most one for a drill-in) has been sent a kill, is accounted for in the ledger
  and has given its permit back.
\<close>

theorem large_function_analysis_is_isolated:
  assumes "length (unwrap_or (as_array (jidx graph ''nodes'')) []) < UNSEEN" "jget args ''ea'' = Some v"
  shows "(\<forall>r st'. analyze_function ts mos args db a ea func graph dec st = (r, st') \<longrightarrow>
      (\<forall>e. r = Inl e \<longrightarrow> (\<exists>m. e = Mcp m)) \<and> quiet (max_regions_arg args) st st' \<and> max_regions_arg args \<le> 256) \<and>
    (\<forall>r st'. drill_region ts mos args db a ea i graph st = (r, st') \<longrightarrow> (\<forall>e. r = Inl e \<longrightarrow> (\<exists>m. e = Mcp m)) \<and> quiet 1 st st')"
  using answers_analyze_function [OF assms, of ts mos db a ea func dec] runs_analyze_function [of args ts mos db a ea func graph dec]
    answers_drill_region [OF assms(1), of ts mos args db a ea i] runs_drill_region [of ts mos args db a ea i graph] max_regions_bound(2) [of args]
  unfolding answers_def runs_at_most_def by (metis fst_conv snd_conv)

section \<open>The overview\<close>

text \<open>The outcomes of the disposable runs, one per region, each run in the state the one before left.\<close>

fun region_runs ::
  "(nat \<Rightarrow> moment) \<Rightarrow> path \<Rightarrow> path option \<Rightarrow> string \<Rightarrow> nat \<Rightarrow> region list \<Rightarrow> broker \<Rightarrow> disposable_outcome result list" where
  "region_runs mos exe dir db_path t [] st = []"
| "region_runs mos exe dir db_path t (r # rs) st =
     (case run_isolated mos exe dir db_path ''region.evidence'' (region_params r) t st of
        (out, st') \<Rightarrow> out # region_runs mos exe dir db_path t rs st')"

text \<open>The worker answered: with evidence, or with a structured failure.\<close>

definition answered :: "disposable_outcome result \<Rightarrow> bool" where
  "answered out = (case out of Inr (DOk _) \<Rightarrow> True | Inr (DBadResponse _ _) \<Rightarrow> True | _ \<Rightarrow> False)"

text \<open>The row that tells what became of a region.\<close>

definition row_tells :: "region \<Rightarrow> disposable_outcome result \<Rightarrow> json \<Rightarrow> bool" where
  "row_tells r out row \<longleftrightarrow> jget row ''region_id'' = Some (JStr (rg_region_id r)) \<and> jget row ''blocks'' = Some (jn (length (rg_block_eas r))) \<and>
     (case out of
        Inr (DOk v) \<Rightarrow> jget row ''status'' = Some (JStr ''complete'') \<and> jget row ''evidence'' = Some v
      | Inr (DBadResponse d _) \<Rightarrow> jget row ''status'' = Some (JStr ''partial_fallback_raw'') \<and> jidx (jidx row ''evidence'') ''hexrays_error'' = JStr d
      | Inr (DTimeout _ stage) \<Rightarrow> jget row ''status'' = Some (JStr ''timeout'') \<and> jidx (jidx row ''evidence'') ''stage'' = JStr stage
      | Inr (DCrashed d _) \<Rightarrow> jget row ''status'' = Some (JStr ''crashed'') \<and> jidx (jidx row ''evidence'') ''hexrays_error'' = JStr d
      | Inl e \<Rightarrow> jget row ''status'' = Some (JStr ''rejected'') \<and> jidx (jidx row ''evidence'') ''error'' = JStr (error_to_string e))"

lemma record_region_row:
  "\<exists>row. row_tells r out row \<and> sw_outcomes (record_region r out sw) = sw_outcomes sw @ [row] \<and>
     sw_analyzed (record_region r out sw) = sw_analyzed sw + of_bool (answered out)"
  by (auto simp: record_region_def region_status_def row_tells_def answered_def Let_def split: sum.splits disposable_outcome.splits)

lemma analyze_regions_rows:
  "analyze_regions mos exe dir db_path t rs sw st = (sw', st') \<Longrightarrow> \<exists>rows. sw_outcomes sw' = sw_outcomes sw @ rows \<and>
     list_all2 (\<lambda>(r, out). row_tells r out) (zip rs (region_runs mos exe dir db_path t rs st)) rows \<and>
     length (region_runs mos exe dir db_path t rs st) = length rs \<and>
     sw_analyzed sw' = sw_analyzed sw + length (filter answered (region_runs mos exe dir db_path t rs st))"
proof (induction rs arbitrary: sw st)
  case (Cons r rs)
  obtain out st1 where run: "run_isolated mos exe dir db_path ''region.evidence'' (region_params r) t st = (out, st1)"
    by (cases "run_isolated mos exe dir db_path ''region.evidence'' (region_params r) t st")
  with Cons.prems have "analyze_regions mos exe dir db_path t rs (record_region r out sw) st1 = (sw', st')" by simp
  from Cons.IH [OF this] obtain rows where rows: "sw_outcomes sw' = sw_outcomes (record_region r out sw) @ rows"
    "list_all2 (\<lambda>(r, out). row_tells r out) (zip rs (region_runs mos exe dir db_path t rs st1)) rows"
    "length (region_runs mos exe dir db_path t rs st1) = length rs"
    "sw_analyzed sw' = sw_analyzed (record_region r out sw) + length (filter answered (region_runs mos exe dir db_path t rs st1))" by blast
  from record_region_row [of r out sw] obtain row where "row_tells r out row"
    "sw_outcomes (record_region r out sw) = sw_outcomes sw @ [row]"
    "sw_analyzed (record_region r out sw) = sw_analyzed sw + of_bool (answered out)" by blast
  then show ?case using rows run by (intro exI [of _ "row # rows"]) simp
qed simp

lemma find_by_id:
  assumes "distinct (map f xs)" "x \<in> set xs"
  shows "find (\<lambda>y. f y = f x) xs = Some x"
  using assms by (induction xs) auto


section \<open>A large function\<close>

definition giant :: json where
  "giant = JObj [(''ea_start'', ju 0x10), (''ea_end'', ju 0x80000)]"

definition giant_graph :: json where
  "giant_graph = JObj [(''nodes'', JArr [JObj [(''ea'', ju 0x10)], JObj [(''ea'', ju 0x20)]]),
     (''edges'', JArr [JObj [(''from'', ju 0x10), (''to'', ju 0x20)]])]"

definition giant_args :: json where
  "giant_args = JObj [(''ea'', ju 0x10), (''max_regions'', ju 1000)]"

theorem large_function_analysis_is_isolated_witness:
  "mode default_thresholds (complexity_from_function_graph giant giant_graph True) = Pathological \<and>
   quiet 256 sample_broker (snd (analyze_function (\<lambda>_. None) (\<lambda>_. sample_moment) giant_args ''db1'' 0 0x10 giant giant_graph True sample_broker))"
proof -
  have m: "mode default_thresholds (complexity_from_function_graph giant giant_graph True) = Pathological" by code_simp
  have n: "length (unwrap_or (as_array (jidx giant_graph ''nodes'')) []) < UNSEEN" by (simp add: giant_graph_def UNSEEN_def)
  have a: "jget giant_args ''ea'' = Some (ju 0x10)" "max_regions_arg giant_args = 256"
    by (simp add: giant_args_def) code_simp
  show ?thesis using m large_function_analysis_is_isolated [OF n a(1)] a(2) by (metis prod.collapse)
qed


section \<open>The last block is left out\<close>

text \<open>The evidence asked for a region ends where its last block starts, so the worker's answer for
  a region of one block has no instruction at all; the drill-in asks for one address more.\<close>

lemma one_block_region_has_no_evidence:
  assumes "rg_block_eas r = [ea]" "h_region_evidence (region_params r) (Some b) = Inr out"
  shows "jget out ''insns'' = Some (JArr [])"
proof -
  have "disasm_loop k ea ea = []" for k by (cases k) simp_all
  then show ?thesis using assms
    by (auto simp: h_region_evidence_def region_params_def first_ea_def last_ea_def opt_ea_param_def with_db_def mock_disassemble_def
      result_simps Let_def)
qed

text \<open>
  A region whose worker reports a structured failure counts as analysed, but its row holds no disassembly: the
  fallback is only named, with the error and the number of blocks.
\<close>

lemma fallback_row_has_no_disassembly:
  "region_status r (Inr (DBadResponse d stage)) = (status, evidence, analysed, failed) \<Longrightarrow>
     analysed \<and> (\<forall>k. jget evidence k \<noteq> None \<longrightarrow> k \<in> {''fallback'', ''hexrays_error'', ''blocks''})"
  by (auto simp: region_status_def Let_def split: if_splits)

end
