(* ===== verification/Wasm_Ssa.thy ===== *)
theory Wasm_Ssa
  imports Wasm_Cfg
begin

text \<open>
  \<open>crates/rmcp-wasm/src/ssa.rs\<close>: the pass from the operand stack to named values. Values the code
  keeps in an \<open>i128\<close> are integers here: what is folded is cut to 32 bits at once, so nothing outgrows the
  type in validated code. The version counter, a \<open>u32\<close>, is a natural number: an operator defines at most one
  value and the pass fails beyond five million operators, so it cannot wrap for the at most thousand parameters of a
  validated function. The text of an operator's discriminant is an argument (\<open>discr\<close>).
\<close>

section \<open>Data\<close>

record ssa_name =
  sn_def_offset :: u64
  sn_version :: nat

record value_fact =
  vf_name :: ssa_name
  vf_ty :: string
  vf_constant :: "int option"
  vf_uses :: "u64 list"
  vf_produced_by :: string

record ssa_body =
  sb_values :: "value_fact list"
  sb_local_stores :: "(u64 \<times> u32 \<times> ssa_name) list"
  sb_local_loads :: "(u64 \<times> u32 \<times> ssa_name) list"
  sb_global_loads :: "(u64 \<times> u32 \<times> ssa_name) list"
  sb_global_stores :: "(u64 \<times> u32 \<times> ssa_name) list"
  sb_memory_ops :: "(u64 \<times> ssa_name \<times> nat \<times> bool) list"
  sb_table_index_ops :: "(u64 \<times> ssa_name) list"
  sb_branch_conditions :: "(u64 \<times> ssa_name) list"
  sb_call_args :: "(u64 \<times> u32 \<times> ssa_name list) list"
  sb_diagnostics :: "string list"
  sb_operator_count :: nat

definition empty_ssa :: ssa_body where
  "empty_ssa = \<lparr>sb_values = [], sb_local_stores = [], sb_local_loads = [], sb_global_loads = [], sb_global_stores = [], sb_memory_ops = [],
     sb_table_index_ops = [], sb_branch_conditions = [], sb_call_args = [], sb_diagnostics = [], sb_operator_count = 0\<rparr>"

text \<open>The variables of the pass; the top of the stack is its last element.\<close>

record ssa_vars =
  sv_out :: ssa_body
  sv_stack :: "ssa_name list"
  sv_version :: nat
  sv_locals :: "(u32, ssa_name) btree"

section \<open>The pass\<close>

definition seed_param :: "nat \<Rightarrow> ssa_vars \<Rightarrow> ssa_vars" where
  "seed_param i v =
     (let nm = \<lparr>sn_def_offset = 0, sn_version = sv_version v\<rparr>; out = sv_out v in
      v\<lparr>sv_version := sv_version v + 1,
        sv_out := out\<lparr>sb_values := sb_values out @
          [\<lparr>vf_name = nm, vf_ty = ''param'', vf_constant = None, vf_uses = [], vf_produced_by = ''param '' @ show_nat i\<rparr>]\<rparr>,
        sv_locals := bt_insert (of_nat i) nm (sv_locals v)\<rparr>)"

definition ssa_start :: "nat \<Rightarrow> ssa_vars" where
  "ssa_start n_params = fold seed_param [0..<n_params] \<lparr>sv_out = empty_ssa, sv_stack = [], sv_version = 0, sv_locals = []\<rparr>"

definition def_val :: "u64 \<Rightarrow> string \<Rightarrow> string \<Rightarrow> int option \<Rightarrow> ssa_vars \<Rightarrow> ssa_vars" where
  "def_val at ty producer c v =
     (let nm = \<lparr>sn_def_offset = at, sn_version = sv_version v\<rparr>; out = sv_out v in
      v\<lparr>sv_version := sv_version v + 1, sv_stack := sv_stack v @ [nm],
        sv_out := out\<lparr>sb_values := sb_values out @
          [\<lparr>vf_name = nm, vf_ty = ty, vf_constant = c, vf_uses = [], vf_produced_by = producer\<rparr>]\<rparr>\<rparr>)"

definition add_use :: "ssa_name \<Rightarrow> u64 \<Rightarrow> ssa_body \<Rightarrow> ssa_body" where
  "add_use nm at out = out\<lparr>sb_values := update_first (\<lambda>f. vf_name f = nm) (\<lambda>f. f\<lparr>vf_uses := vf_uses f @ [at]\<rparr>) (sb_values out)\<rparr>"

definition pop_use :: "u64 \<Rightarrow> ssa_vars \<Rightarrow> ssa_name option \<times> ssa_vars" where
  "pop_use at v =
     (if sv_stack v = [] then (None, v\<lparr>sv_out := (sv_out v)\<lparr>sb_diagnostics := sb_diagnostics (sv_out v) @ [''stack underflow at '' @ hex_alt at]\<rparr>\<rparr>)
      else (Some (last (sv_stack v)), v\<lparr>sv_stack := butlast (sv_stack v), sv_out := add_use (last (sv_stack v)) at (sv_out v)\<rparr>))"

definition const_of :: "ssa_body \<Rightarrow> ssa_name option \<Rightarrow> int option" where
  "const_of out v = Option.bind v (\<lambda>nm. Option.bind (find (\<lambda>f. vf_name f = nm) (sb_values out)) vf_constant)"

text \<open>\<open>as i32\<close>.\<close>

definition as_i32 :: "int \<Rightarrow> int" where
  "as_i32 i = sint (word_of_int i :: u32)"

fun fold_const :: "operator \<Rightarrow> int option \<Rightarrow> int option \<Rightarrow> int option" where
  "fold_const I32Add (Some x) (Some y) = Some (as_i32 (x + y))"
| "fold_const I32Sub (Some x) (Some y) = Some (as_i32 (x - y))"
| "fold_const I32Mul (Some x) (Some y) = Some (as_i32 (x * y))"
| "fold_const _ _ _ = None"

definition arith_mnemonic :: "operator \<Rightarrow> string" where
  "arith_mnemonic op = (case op of I32Add \<Rightarrow> ''i32.add'' | I32Sub \<Rightarrow> ''i32.sub'' | I32Mul \<Rightarrow> ''i32.mul'' | I32And \<Rightarrow> ''i32.and'' | I32Or \<Rightarrow> ''i32.or'' | _ \<Rightarrow> ''i32.xor'')"

definition compare_mnemonic :: "operator \<Rightarrow> string" where
  "compare_mnemonic op = (case op of I32Eq \<Rightarrow> ''i32.eq'' | I32Ne \<Rightarrow> ''i32.ne'' | I32LtU \<Rightarrow> ''i32.lt_u'' | _ \<Rightarrow> ''i32.ge_u'')"

definition on_out :: "(ssa_body \<Rightarrow> ssa_body) \<Rightarrow> ssa_vars \<Rightarrow> ssa_vars" where
  "on_out f v = v\<lparr>sv_out := f (sv_out v)\<rparr>"

definition local_get :: "u64 \<Rightarrow> u32 \<Rightarrow> ssa_vars \<Rightarrow> ssa_vars" where
  "local_get pos i v = (case bt_get (sv_locals v) i of
       None \<Rightarrow> v
     | Some nm \<Rightarrow> (on_out (\<lambda>out. out\<lparr>sb_local_loads := sb_local_loads out @ [(pos, i, nm)]\<rparr>) (on_out (add_use nm pos) v))\<lparr>sv_stack := sv_stack v @ [nm]\<rparr>)"

definition local_set :: "u64 \<Rightarrow> u64 \<Rightarrow> u32 \<Rightarrow> bool \<Rightarrow> ssa_vars \<Rightarrow> ssa_vars" where
  "local_set pos at i tee v = (case pop_use at v of
       (None, v') \<Rightarrow> v'
     | (Some nm, v') \<Rightarrow>
         (let v2 = (on_out (\<lambda>out. out\<lparr>sb_local_stores := sb_local_stores out @ [(pos, i, nm)]\<rparr>) v')\<lparr>sv_locals := bt_insert i nm (sv_locals v')\<rparr>
          in if tee then v2\<lparr>sv_stack := sv_stack v2 @ [nm]\<rparr> else v2))"

definition global_get :: "u64 \<Rightarrow> u64 \<Rightarrow> u32 \<Rightarrow> ssa_vars \<Rightarrow> ssa_vars" where
  "global_get pos at i v =
     (let v' = def_val at ''global'' (''global.get '' @ show_nat (unat i)) None v in
      if sv_stack v' = [] then v' else on_out (\<lambda>out. out\<lparr>sb_global_loads := sb_global_loads out @ [(pos, i, last (sv_stack v'))]\<rparr>) v')"

definition global_set :: "u64 \<Rightarrow> u64 \<Rightarrow> u32 \<Rightarrow> ssa_vars \<Rightarrow> ssa_vars" where
  "global_set pos at i v = (case pop_use at v of
       (None, v') \<Rightarrow> v'
     | (Some nm, v') \<Rightarrow> on_out (\<lambda>out. out\<lparr>sb_global_stores := sb_global_stores out @ [(pos, i, nm)]\<rparr>) v')"

definition memory_load :: "u64 \<Rightarrow> u64 \<Rightarrow> nat \<Rightarrow> u64 \<Rightarrow> ssa_vars \<Rightarrow> ssa_vars" where
  "memory_load pos at width offset v =
     (let (addr, v1) = pop_use at v;
          v2 = def_val at (if width = 4 then ''i32'' else ''i64'') (''load +'' @ show_u64 offset) None v1
      in case addr of None \<Rightarrow> v2 | Some a \<Rightarrow> on_out (\<lambda>out. out\<lparr>sb_memory_ops := sb_memory_ops out @ [(pos, a, width, False)]\<rparr>) v2)"

definition memory_store :: "u64 \<Rightarrow> u64 \<Rightarrow> nat \<Rightarrow> ssa_vars \<Rightarrow> ssa_vars" where
  "memory_store pos at width v =
     (let (val, v1) = pop_use at v; (addr, v2) = pop_use at v1
      in case (addr, val) of
          (Some a, Some nm) \<Rightarrow> on_out (\<lambda>out. out\<lparr>sb_memory_ops := sb_memory_ops out @ [(pos, a, width, True)]\<rparr>) (on_out (add_use nm pos) v2)
        | _ \<Rightarrow> v2)"

definition arith_op :: "u64 \<Rightarrow> operator \<Rightarrow> ssa_vars \<Rightarrow> ssa_vars" where
  "arith_op at op v =
     (let (b, v1) = pop_use at v; (a, v2) = pop_use at v1
      in def_val at ''i32'' (arith_mnemonic op) (fold_const op (const_of (sv_out v2) a) (const_of (sv_out v2) b)) v2)"

definition compare_op :: "u64 \<Rightarrow> operator \<Rightarrow> ssa_vars \<Rightarrow> ssa_vars" where
  "compare_op at op v = def_val at ''i32'' (compare_mnemonic op) None (snd (pop_use at (snd (pop_use at v))))"

definition ssa_step :: "(operator \<Rightarrow> string) \<Rightarrow> op_site \<Rightarrow> operator \<Rightarrow> ssa_vars \<Rightarrow> ssa_vars" where
  "ssa_step discr s op v =
     (let (pos, at) = s in
      case op of
        I32Const w \<Rightarrow> def_val at ''i32'' ''i32.const'' (Some (sint w)) v
      | I64Const w \<Rightarrow> def_val at ''i64'' ''i64.const'' (Some (sint w)) v
      | F32Const b \<Rightarrow> def_val at ''f32'' ''f32.const'' (Some (uint b)) v
      | F64Const b \<Rightarrow> def_val at ''f64'' ''f64.const'' (Some (uint b)) v
      | LocalGet i \<Rightarrow> local_get pos i v
      | LocalSet i \<Rightarrow> local_set pos at i False v
      | LocalTee i \<Rightarrow> local_set pos at i True v
      | GlobalGet i \<Rightarrow> global_get pos at i v
      | GlobalSet i \<Rightarrow> global_set pos at i v
      | I32Load off \<Rightarrow> memory_load pos at 4 off v
      | I64Load off \<Rightarrow> memory_load pos at 8 off v
      | I32Store _ \<Rightarrow> memory_store pos at 4 v
      | I64Store _ \<Rightarrow> memory_store pos at 8 v
      | I32Add \<Rightarrow> arith_op at op v
      | I32Sub \<Rightarrow> arith_op at op v
      | I32Mul \<Rightarrow> arith_op at op v
      | I32And \<Rightarrow> arith_op at op v
      | I32Or \<Rightarrow> arith_op at op v
      | I32Xor \<Rightarrow> arith_op at op v
      | I32Eqz \<Rightarrow> def_val at ''i32'' ''i32.eqz'' None (snd (pop_use at v))
      | I32Eq \<Rightarrow> compare_op at op v
      | I32Ne \<Rightarrow> compare_op at op v
      | I32LtU \<Rightarrow> compare_op at op v
      | I32GeU \<Rightarrow> compare_op at op v
      | BrIf _ \<Rightarrow> (case pop_use at v of (None, v') \<Rightarrow> v'
          | (Some c, v') \<Rightarrow> on_out (\<lambda>out. out\<lparr>sb_branch_conditions := sb_branch_conditions out @ [(pos, c)]\<rparr>) v')
      | BrTable _ _ \<Rightarrow> (case pop_use at v of (None, v') \<Rightarrow> v'
          | (Some i, v') \<Rightarrow> on_out (\<lambda>out. out\<lparr>sb_table_index_ops := sb_table_index_ops out @ [(pos, i)]\<rparr>) v')
      | Call f \<Rightarrow> on_out (\<lambda>out. out\<lparr>sb_call_args := sb_call_args out @ [(pos, f, [])]\<rparr>) v
      | Return \<Rightarrow> snd (pop_use at v)
      | Drop \<Rightarrow> snd (pop_use at v)
      | _ \<Rightarrow> on_out (\<lambda>out. out\<lparr>sb_diagnostics := sb_diagnostics out @ [''opaque op at '' @ hex_alt pos @ '': '' @ discr op]\<rparr>) v)"

fun ssa_loop :: "(operator \<Rightarrow> string) \<Rightarrow> op_read list \<Rightarrow> ssa_vars \<Rightarrow> ssa_vars wasm_result" where
  "ssa_loop discr [] v = Inr v"
| "ssa_loop discr ((s, Inl e) # rs) v = Inl (perr e)"
| "ssa_loop discr ((s, Inr op) # rs) v =
     (let v1 = on_out (\<lambda>out. out\<lparr>sb_operator_count := sb_operator_count out + 1\<rparr>) v in
      if sb_operator_count (sv_out v1) > 5000000 then Inl (Budget ''operators per function (ssa)'')
      else if op = End then Inr v1 else ssa_loop discr rs (ssa_step discr s op v1))"

definition analyze_values :: "(operator \<Rightarrow> string) \<Rightarrow> op_reader \<Rightarrow> u8 list \<Rightarrow> nat \<Rightarrow> ssa_body wasm_result" where
  "analyze_values discr ops body n_params = rmap sv_out (ssa_loop discr (ops body) (ssa_start n_params))"

section \<open>Every name is defined once\<close>

definition names :: "ssa_body \<Rightarrow> ssa_name set" where
  "names out = vf_name ` set (sb_values out)"

definition mentioned :: "ssa_body \<Rightarrow> ssa_name set" where
  "mentioned out = set (map (snd \<circ> snd) (sb_local_stores out)) \<union> set (map (snd \<circ> snd) (sb_local_loads out)) \<union>
     set (map (snd \<circ> snd) (sb_global_loads out)) \<union> set (map (snd \<circ> snd) (sb_global_stores out)) \<union>
     set (map (fst \<circ> snd) (sb_memory_ops out)) \<union> set (map snd (sb_table_index_ops out)) \<union> set (map snd (sb_branch_conditions out)) \<union>
     set (concat (map (snd \<circ> snd) (sb_call_args out)))"

abbreviation versions :: "ssa_body \<Rightarrow> nat list" where
  "versions out \<equiv> map (\<lambda>f. sn_version (vf_name f)) (sb_values out)"

definition ssa_wf :: "ssa_vars \<Rightarrow> bool" where
  "ssa_wf v \<longleftrightarrow> versions (sv_out v) = [0..<sv_version v] \<and> set (sv_stack v) \<subseteq> names (sv_out v) \<and>
     (\<forall>i nm. bt_get (sv_locals v) i = Some nm \<longrightarrow> nm \<in> names (sv_out v)) \<and> mentioned (sv_out v) \<subseteq> names (sv_out v)"

lemma mentioned_simps [simp]:
  "mentioned (out\<lparr>sb_values := xs\<rparr>) = mentioned out"
  "mentioned (out\<lparr>sb_operator_count := k\<rparr>) = mentioned out"
  "mentioned (out\<lparr>sb_diagnostics := ds\<rparr>) = mentioned out"
  "mentioned (out\<lparr>sb_local_stores := sb_local_stores out @ [(p, i, nm)]\<rparr>) = insert nm (mentioned out)"
  "mentioned (out\<lparr>sb_local_loads := sb_local_loads out @ [(p, i, nm)]\<rparr>) = insert nm (mentioned out)"
  "mentioned (out\<lparr>sb_global_loads := sb_global_loads out @ [(p, i, nm)]\<rparr>) = insert nm (mentioned out)"
  "mentioned (out\<lparr>sb_global_stores := sb_global_stores out @ [(p, i, nm)]\<rparr>) = insert nm (mentioned out)"
  "mentioned (out\<lparr>sb_memory_ops := sb_memory_ops out @ [(p, nm, w, st)]\<rparr>) = insert nm (mentioned out)"
  "mentioned (out\<lparr>sb_table_index_ops := sb_table_index_ops out @ [(p, nm)]\<rparr>) = insert nm (mentioned out)"
  "mentioned (out\<lparr>sb_branch_conditions := sb_branch_conditions out @ [(p, nm)]\<rparr>) = insert nm (mentioned out)"
  "mentioned (out\<lparr>sb_call_args := sb_call_args out @ [(p, i, [])]\<rparr>) = mentioned out"
  by (simp_all add: mentioned_def)

lemma set_update_first_same: "(\<And>x. g (f x) = g x) \<Longrightarrow> g ` set (update_first p f xs) = g ` set xs"
  by (metis list.set_map map_update_first)

lemma add_use_simps [simp]:
  "names (add_use nm at out) = names out" "versions (add_use nm at out) = versions out" "mentioned (add_use nm at out) = mentioned out"
  by (simp_all add: names_def add_use_def set_update_first_same map_update_first)

lemma names_simps [simp]:
  "names (out\<lparr>sb_operator_count := k\<rparr>) = names out" "names (out\<lparr>sb_diagnostics := ds\<rparr>) = names out"
  "names (out\<lparr>sb_local_stores := a\<rparr>) = names out" "names (out\<lparr>sb_local_loads := a\<rparr>) = names out"
  "names (out\<lparr>sb_global_loads := a\<rparr>) = names out" "names (out\<lparr>sb_global_stores := a\<rparr>) = names out"
  "names (out\<lparr>sb_memory_ops := b\<rparr>) = names out" "names (out\<lparr>sb_table_index_ops := c\<rparr>) = names out"
  "names (out\<lparr>sb_branch_conditions := c\<rparr>) = names out" "names (out\<lparr>sb_call_args := d\<rparr>) = names out"
  "names (out\<lparr>sb_values := sb_values out @ [f]\<rparr>) = insert (vf_name f) (names out)"
  by (simp_all add: names_def)

lemma ssa_wf_def_val: "ssa_wf v \<Longrightarrow> ssa_wf (def_val at ty by c v)"
  by (auto simp: ssa_wf_def def_val_def Let_def)

lemma ssa_wf_seed: "ssa_wf v \<Longrightarrow> ssa_wf (seed_param i v)"
  by (auto simp: ssa_wf_def seed_param_def Let_def)

lemma ssa_wf_on_out:
  assumes "ssa_wf v" "names (f (sv_out v)) = names (sv_out v)" "versions (f (sv_out v)) = versions (sv_out v)"
    "mentioned (f (sv_out v)) \<subseteq> names (sv_out v)"
  shows "ssa_wf (on_out f v)"
  using assms by (simp add: ssa_wf_def on_out_def)

lemma ssa_wf_mentioned: "ssa_wf v \<Longrightarrow> mentioned (sv_out v) \<subseteq> names (sv_out v)"
  by (simp add: ssa_wf_def)

lemma sv_out_on_out [simp]: "sv_out (on_out f v) = f (sv_out v)" "sv_stack (on_out f v) = sv_stack v" "sv_locals (on_out f v) = sv_locals v"
  "sv_version (on_out f v) = sv_version v"
  by (simp_all add: on_out_def)

text \<open>A stack or local that holds a defined name.\<close>

lemma ssa_wf_push: "ssa_wf v \<Longrightarrow> nm \<in> names (sv_out v) \<Longrightarrow> ssa_wf (v\<lparr>sv_stack := sv_stack v @ [nm]\<rparr>)"
  by (simp add: ssa_wf_def)

lemma ssa_wf_local: "ssa_wf v \<Longrightarrow> nm \<in> names (sv_out v) \<Longrightarrow> ssa_wf (v\<lparr>sv_locals := bt_insert i nm (sv_locals v)\<rparr>)"
  by (simp add: ssa_wf_def)

lemma pop_use_wf:
  assumes "ssa_wf v"
  obtains v' where "pop_use at v = (None, v')" "ssa_wf v'" | nm v' where "pop_use at v = (Some nm, v')" "ssa_wf v'" "nm \<in> names (sv_out v')"
proof (cases "sv_stack v = []")
  case True
  have "ssa_wf (on_out (\<lambda>out. out\<lparr>sb_diagnostics := sb_diagnostics out @ [''stack underflow at '' @ hex_alt at]\<rparr>) v)"
    using assms by (intro ssa_wf_on_out) (simp_all add: ssa_wf_mentioned)
  then show ?thesis using True that(1) by (simp add: pop_use_def on_out_def)
next
  case False
  then have "set (butlast (sv_stack v)) \<subseteq> names (sv_out v)" "last (sv_stack v) \<in> names (sv_out v)"
    using assms by (auto simp: ssa_wf_def dest: in_set_butlastD)
  then show ?thesis using False that(2) [of "last (sv_stack v)"] assms by (simp add: pop_use_def ssa_wf_def)
qed

text \<open>Logging a name that is defined, marking a use, and counting keep names defined.\<close>

lemma ssa_wf_log:
  assumes "ssa_wf v" "names (f (sv_out v)) = names (sv_out v)" "versions (f (sv_out v)) = versions (sv_out v)"
    "mentioned (f (sv_out v)) = insert nm (mentioned (sv_out v))" "nm \<in> names (sv_out v)"
  shows "ssa_wf (on_out f v)"
  using assms ssa_wf_mentioned [OF assms(1)] by (intro ssa_wf_on_out) simp_all

lemma ssa_wf_use: "ssa_wf v \<Longrightarrow> ssa_wf (on_out (add_use nm pos) v)"
  by (rule ssa_wf_on_out) (simp_all add: ssa_wf_mentioned)

lemma local_get_wf: "ssa_wf v \<Longrightarrow> ssa_wf (local_get pos i v)"
proof (cases "bt_get (sv_locals v) i")
  case (Some nm)
  assume v: "ssa_wf v"
  with Some have nm: "nm \<in> names (sv_out v)" by (auto simp: ssa_wf_def)
  let ?v = "on_out (\<lambda>out. out\<lparr>sb_local_loads := sb_local_loads out @ [(pos, i, nm)]\<rparr>) (on_out (add_use nm pos) v)"
  have "ssa_wf ?v" by (rule ssa_wf_log [OF ssa_wf_use [OF v], where nm = nm]) (simp_all add: nm)
  then show ?thesis using ssa_wf_push [of ?v nm] nm Some by (simp add: local_get_def)
qed (simp add: local_get_def)

lemma local_set_wf: "ssa_wf v \<Longrightarrow> ssa_wf (local_set pos at i tee v)"
proof (rule pop_use_wf [of v at])
  fix nm v'
  assume pop: "pop_use at v = (Some nm, v')" and v': "ssa_wf v'" and nm: "nm \<in> names (sv_out v')"
  let ?v = "on_out (\<lambda>out. out\<lparr>sb_local_stores := sb_local_stores out @ [(pos, i, nm)]\<rparr>) v'"
  have "ssa_wf ?v" by (rule ssa_wf_log [OF v', where nm = nm]) (simp_all add: nm)
  then have "ssa_wf (?v\<lparr>sv_locals := bt_insert i nm (sv_locals ?v)\<rparr>)" by (rule ssa_wf_local) (simp add: nm)
  from this ssa_wf_push [OF this, of nm] nm pop show ?thesis by (cases tee) (simp_all add: local_set_def)
qed (simp_all add: local_set_def)

lemma global_get_wf: "ssa_wf v \<Longrightarrow> ssa_wf (global_get pos at i v)"
proof -
  assume "ssa_wf v"
  then have v': "ssa_wf (def_val at ''global'' (''global.get '' @ show_nat (unat i)) None v)" by (rule ssa_wf_def_val)
  moreover have "last (sv_stack w) \<in> names (sv_out w)" if "ssa_wf w" "sv_stack w \<noteq> []" for w using that by (auto simp: ssa_wf_def)
  ultimately show ?thesis unfolding global_get_def Let_def by (auto intro!: ssa_wf_log)
qed

text \<open>One name taken off the stack and logged.\<close>

lemma pop_and_log_wf:
  assumes "ssa_wf v" "\<And>out nm. names (f nm out) = names out \<and> versions (f nm out) = versions out \<and> mentioned (f nm out) = insert nm (mentioned out)"
  shows "ssa_wf (case pop_use at v of (None, v') \<Rightarrow> v' | (Some nm, v') \<Rightarrow> on_out (f nm) v')"
  by (rule pop_use_wf [OF assms(1), of at]) (auto simp: assms(2) intro!: ssa_wf_log)

lemma pop_wf: "ssa_wf v \<Longrightarrow> ssa_wf (snd (pop_use at v))"
  by (rule pop_use_wf [of v at]) auto

lemma names_pop [simp]: "names (sv_out (snd (pop_use at v))) = names (sv_out v)"
  by (simp add: pop_use_def)

lemma names_def_val: "names (sv_out v) \<subseteq> names (sv_out (def_val at ty by c v))"
  by (auto simp: def_val_def Let_def)

lemma memory_load_wf: "ssa_wf v \<Longrightarrow> ssa_wf (memory_load pos at width off v)"
proof (rule pop_use_wf [of v at])
  fix nm v'
  assume pop: "pop_use at v = (Some nm, v')" and v': "ssa_wf v'" and nm: "nm \<in> names (sv_out v')"
  let ?v = "def_val at (if width = 4 then ''i32'' else ''i64'') (''load +'' @ show_u64 off) None v'"
  have "ssa_wf ?v" using v' by (rule ssa_wf_def_val)
  then have "ssa_wf (on_out (\<lambda>out. out\<lparr>sb_memory_ops := sb_memory_ops out @ [(pos, nm, width, False)]\<rparr>) ?v)"
    by (rule ssa_wf_log [where nm = nm]) (use nm in \<open>simp_all add: subsetD [OF names_def_val]\<close>)
  then show ?thesis by (simp add: memory_load_def pop Let_def)
qed (simp_all add: memory_load_def ssa_wf_def_val)

lemma memory_store_wf: "ssa_wf v \<Longrightarrow> ssa_wf (memory_store pos at width v)"
proof -
  assume v: "ssa_wf v"
  obtain val v1 where 1: "pop_use at v = (val, v1)" by fastforce
  have w1: "ssa_wf v1" using pop_wf [OF v, of at] 1 by simp
  have w2: "ssa_wf (snd (pop_use at v1))" by (rule pop_wf [OF w1])
  show ?thesis
  proof (rule pop_use_wf [OF w1, of at])
    fix a v2
    assume pop: "pop_use at v1 = (Some a, v2)" and v2: "ssa_wf v2" and a: "a \<in> names (sv_out v2)"
    have "ssa_wf (on_out (\<lambda>out. out\<lparr>sb_memory_ops := sb_memory_ops out @ [(pos, a, width, True)]\<rparr>) (on_out (add_use nm pos) v2))" for nm
      by (rule ssa_wf_log [OF ssa_wf_use [OF v2], where nm = a]) (simp_all add: a)
    then show ?thesis using v2 by (auto simp: memory_store_def 1 pop split: option.split)
  qed (auto simp: memory_store_def 1)
qed

lemma arith_op_wf: "ssa_wf v \<Longrightarrow> ssa_wf (arith_op at op v)"
  using pop_wf by (simp add: arith_op_def ssa_wf_def_val case_prod_unfold Let_def)

lemma compare_op_wf: "ssa_wf v \<Longrightarrow> ssa_wf (compare_op at op v)"
  using pop_wf by (simp add: compare_op_def ssa_wf_def_val)

lemma ssa_wf_other:
  "ssa_wf v \<Longrightarrow> ssa_wf (on_out (\<lambda>out. out\<lparr>sb_diagnostics := sb_diagnostics out @ ds\<rparr>) v)"
  "ssa_wf v \<Longrightarrow> ssa_wf (on_out (\<lambda>out. out\<lparr>sb_call_args := sb_call_args out @ [(pos, f, [])]\<rparr>) v)"
  "ssa_wf v \<Longrightarrow> ssa_wf (on_out (\<lambda>out. out\<lparr>sb_operator_count := Suc (sb_operator_count out)\<rparr>) v)"
  by (rule ssa_wf_on_out; simp add: ssa_wf_mentioned)+

lemma ssa_step_wf: "ssa_wf v \<Longrightarrow> ssa_wf (ssa_step discr s op v)"
  by (cases s; cases op)
    (simp_all add: ssa_step_def ssa_wf_def_val local_get_wf local_set_wf global_get_wf global_set_def memory_load_wf memory_store_wf arith_op_wf compare_op_wf
      pop_wf ssa_wf_other pop_and_log_wf)

lemma ssa_loop_wf: "ssa_wf v \<Longrightarrow> ssa_loop discr rs v = Inr v' \<Longrightarrow> ssa_wf v'"
  by (induction discr rs v rule: ssa_loop.induct) (auto simp: Let_def ssa_wf_other ssa_step_wf split: if_splits)

lemma ssa_start_wf: "ssa_wf (ssa_start n)"
proof -
  have "ssa_wf (fold seed_param is v)" if "ssa_wf v" for "is" v using that by (induction "is" arbitrary: v) (simp_all add: ssa_wf_seed)
  then show ?thesis by (simp add: ssa_start_def ssa_wf_def empty_ssa_def mentioned_def)
qed

text \<open>
  C18: the values the pass reports are in single-assignment form: they are numbered 0, 1, 2 and so on in
  the order of definition, so no name is defined twice, and every name that a store, load, memory access,
  branch condition, table index or call mentions is the name of one of them.
\<close>

theorem ssa_names_defined_once:
  assumes "analyze_values discr ops body n_params = Inr out"
  shows "map (\<lambda>f. sn_version (vf_name f)) (sb_values out) = [0..<length (sb_values out)] \<and> mentioned out \<subseteq> vf_name ` set (sb_values out)"
proof -
  obtain v where "ssa_loop discr (ops body) (ssa_start n_params) = Inr v" "out = sv_out v"
    using assms by (auto simp: analyze_values_def result_simps)
  then have "ssa_wf v" "out = sv_out v" using ssa_loop_wf [OF ssa_start_wf] by blast+
  then show ?thesis by (auto simp: ssa_wf_def names_def) (metis diff_zero length_map length_upt)
qed

definition sample_sum :: "op_read list" where
  "sample_sum = [((0, 2), Inr (I32Const 2)), ((2, 4), Inr (I32Const 3)), ((4, 5), Inr I32Add), ((5, 7), Inr (LocalSet 0)), ((7, 8), Inr End)]"

lemmas ssa_eval = analyze_values_def ssa_start_def empty_ssa_def on_out_def ssa_step_def def_val_def arith_op_def local_set_def local_get_def
  pop_use_def add_use_def const_of_def as_i32_def Let_def

theorem ssa_names_defined_once_witness:
  "\<exists>out. analyze_values (\<lambda>_. []) (\<lambda>_. sample_sum) [] 0 = Inr out \<and> map (\<lambda>f. sn_version (vf_name f)) (sb_values out) = [0, 1, 2]"
proof -
  obtain out where out: "analyze_values (\<lambda>_. []) (\<lambda>_. sample_sum) [] 0 = Inr out" "length (sb_values out) = 3"
    by (simp add: sample_sum_def ssa_eval)
  with ssa_names_defined_once [OF out(1)] show ?thesis by (simp add: numeral_3_eq_3)
qed

section \<open>Constants are what the code computes\<close>

text \<open>The meaning of the operators the pass follows, in straight-line code: what globals and memory hold is
  arbitrary, and a conditional branch is not taken. The stack's top is last.\<close>

datatype wval = V32 u32 | V64 u64 | VF32 u32 | VF64 u64

fun wval_int :: "wval \<Rightarrow> int" where
  "wval_int (V32 w) = sint w"
| "wval_int (V64 w) = sint w"
| "wval_int (VF32 b) = uint b"
| "wval_int (VF64 b) = uint b"

fun arith :: "operator \<Rightarrow> u32 \<Rightarrow> u32 \<Rightarrow> u32 option" where
  "arith I32Add a b = Some (a + b)"
| "arith I32Sub a b = Some (a - b)"
| "arith I32Mul a b = Some (a * b)"
| "arith I32And a b = Some (and a b)"
| "arith I32Or a b = Some (or a b)"
| "arith I32Xor a b = Some (xor a b)"
| "arith _ a b = None"

fun compare :: "operator \<Rightarrow> u32 \<Rightarrow> u32 \<Rightarrow> bool option" where
  "compare I32Eq a b = Some (a = b)"
| "compare I32Ne a b = Some (a \<noteq> b)"
| "compare I32LtU a b = Some (a < b)"
| "compare I32GeU a b = Some (a \<ge> b)"
| "compare _ a b = None"

type_synonym frame = "wval list \<times> (u32 \<Rightarrow> wval option)"

inductive wstep :: "operator \<Rightarrow> frame \<Rightarrow> frame \<Rightarrow> bool" where
  const32: "wstep (I32Const w) (st, ls) (st @ [V32 w], ls)"
| const64: "wstep (I64Const w) (st, ls) (st @ [V64 w], ls)"
| fconst32: "wstep (F32Const b) (st, ls) (st @ [VF32 b], ls)"
| fconst64: "wstep (F64Const b) (st, ls) (st @ [VF64 b], ls)"
| get: "ls i = Some x \<Longrightarrow> wstep (LocalGet i) (st, ls) (st @ [x], ls)"
| set_local: "wstep (LocalSet i) (st @ [x], ls) (st, ls(i \<mapsto> x))"
| tee: "wstep (LocalTee i) (st @ [x], ls) (st @ [x], ls(i \<mapsto> x))"
| gget: "wstep (GlobalGet i) (st, ls) (st @ [x], ls)"
| gset: "wstep (GlobalSet i) (st @ [x], ls) (st, ls)"
| load32: "wstep (I32Load off) (st @ [V32 a], ls) (st @ [V32 x], ls)"
| load64: "wstep (I64Load off) (st @ [V32 a], ls) (st @ [V64 y], ls)"
| store32: "wstep (I32Store off) (st @ [V32 a, V32 x], ls) (st, ls)"
| store64: "wstep (I64Store off) (st @ [V32 a, V64 y], ls) (st, ls)"
| arith: "arith op a b = Some c \<Longrightarrow> wstep op (st @ [V32 a, V32 b], ls) (st @ [V32 c], ls)"
| eqz: "wstep I32Eqz (st @ [V32 a], ls) (st @ [V32 (of_bool (a = 0))], ls)"
| compare: "compare op a b = Some t \<Longrightarrow> wstep op (st @ [V32 a, V32 b], ls) (st @ [V32 (of_bool t)], ls)"
| br_if: "wstep (BrIf d) (st @ [V32 0], ls) (st, ls)"
| dropped: "wstep Drop (st @ [x], ls) (st, ls)"

inductive wsteps :: "operator list \<Rightarrow> frame \<Rightarrow> frame \<Rightarrow> bool" where
  wsteps_Nil: "wsteps [] f f"
| wsteps_Cons: "wstep op f f' \<Longrightarrow> wsteps ops f' f'' \<Longrightarrow> wsteps (op # ops) f f''"

text \<open>Every local that is read is a parameter or was written before.\<close>

fun initialised :: "u32 set \<Rightarrow> operator list \<Rightarrow> bool" where
  "initialised known [] \<longleftrightarrow> True"
| "initialised known (op # ops) \<longleftrightarrow> (case op of
       LocalGet i \<Rightarrow> i \<in> known \<and> initialised known ops
     | LocalSet i \<Rightarrow> initialised (insert i known) ops
     | LocalTee i \<Rightarrow> initialised (insert i known) ops
     | _ \<Rightarrow> initialised known ops)"

definition agrees :: "ssa_body \<Rightarrow> ssa_name \<Rightarrow> wval \<Rightarrow> bool" where
  "agrees out nm x \<longleftrightarrow> (\<forall>c. const_of out (Some nm) = Some c \<longrightarrow> wval_int x = c)"

definition tracks :: "u32 set \<Rightarrow> ssa_vars \<Rightarrow> frame \<Rightarrow> bool" where
  "tracks known v f \<longleftrightarrow> list_all2 (agrees (sv_out v)) (sv_stack v) (fst f) \<and>
     (\<forall>i \<in> known. \<exists>nm x. bt_get (sv_locals v) i = Some nm \<and> snd f i = Some x \<and> agrees (sv_out v) nm x)"

lemma find_update_first: "(\<And>x. g (f x) = g x) \<Longrightarrow> (\<And>x. h (f x) = h x) \<Longrightarrow>
    map_option h (find (\<lambda>x. g x = a) (update_first p f xs)) = map_option h (find (\<lambda>x. g x = a) xs)"
  by (induction xs) auto

lemma const_of_alt: "const_of out v = Option.bind v (\<lambda>nm. Option.bind (map_option vf_constant (find (\<lambda>f. vf_name f = nm) (sb_values out))) id)"
  by (auto simp: const_of_def bind_map_option comp_def split: Option.bind_split)

lemma const_of_add_use [simp]: "const_of (add_use nm at out) v = const_of out v"
  unfolding const_of_alt by (simp add: add_use_def find_update_first)

lemma agrees_add_use [simp]: "agrees (add_use nm at out) = agrees out"
  by (simp add: fun_eq_iff agrees_def)

lemma agrees_logs [simp]:
  "agrees (out\<lparr>sb_operator_count := k\<rparr>) = agrees out" "agrees (out\<lparr>sb_local_stores := a\<rparr>) = agrees out" "agrees (out\<lparr>sb_local_loads := a\<rparr>) = agrees out"
  "agrees (out\<lparr>sb_global_loads := a\<rparr>) = agrees out" "agrees (out\<lparr>sb_global_stores := a\<rparr>) = agrees out" "agrees (out\<lparr>sb_memory_ops := b\<rparr>) = agrees out"
  "agrees (out\<lparr>sb_branch_conditions := c\<rparr>) = agrees out"
  by (simp_all add: fun_eq_iff agrees_def const_of_def)

lemma tracks_on_out: "agrees (f (sv_out v)) = agrees (sv_out v) \<Longrightarrow> tracks known (on_out f v) fr \<longleftrightarrow> tracks known v fr"
  by (simp add: tracks_def)

lemma tracks_pop:
  assumes "tracks known v (st @ [x], ls)"
  obtains nm v' where "pop_use at v = (Some nm, v')" "tracks known v' (st, ls)" "agrees (sv_out v') nm x" "const_of (sv_out v') = const_of (sv_out v)"
proof -
  from assms obtain ns nm where s: "sv_stack v = ns @ [nm]" "list_all2 (agrees (sv_out v)) ns st" "agrees (sv_out v) nm x"
    by (auto simp: tracks_def list_all2_append2 list_all2_Cons2)
  show ?thesis
    by (rule that [of nm "v\<lparr>sv_stack := ns, sv_out := add_use nm at (sv_out v)\<rparr>"])
      (use s assms in \<open>auto simp: pop_use_def tracks_def fun_eq_iff\<close>)
qed

lemma tracks_push: "tracks known v (st, ls) \<Longrightarrow> agrees (sv_out v) nm x \<Longrightarrow> tracks known (v\<lparr>sv_stack := sv_stack v @ [nm]\<rparr>) (st @ [x], ls)"
  by (auto simp: tracks_def list_all2_appendI)

lemma tracks_local:
  "tracks known v (st, ls) \<Longrightarrow> agrees (sv_out v) nm x \<Longrightarrow> tracks (insert i known) (v\<lparr>sv_locals := bt_insert i nm (sv_locals v)\<rparr>) (st, ls(i \<mapsto> x))"
  by (auto simp: tracks_def)

lemma const_of_append:
  "const_of (out\<lparr>sb_values := sb_values out @ [f]\<rparr>) (Some nm) =
     (if nm \<in> names out then const_of out (Some nm) else if vf_name f = nm then vf_constant f else None)"
proof -
  have "find p (xs @ ys) = (case find p xs of None \<Rightarrow> find p ys | Some x \<Rightarrow> Some x)" for p and xs ys :: "value_fact list"
    by (induction xs) auto
  moreover have "find (\<lambda>f. vf_name f = nm) (sb_values out) = None \<longleftrightarrow> nm \<notin> names out"
    by (auto simp: find_None_iff names_def)
  ultimately show ?thesis by (auto simp: const_of_def split: option.split)
qed

lemma tracks_def_val:
  assumes "ssa_wf v" "tracks known v (st, ls)" "\<And>c'. c = Some c' \<Longrightarrow> wval_int x = c'"
  shows "tracks known (def_val at ty by c v) (st @ [x], ls)"
proof -
  let ?nm = "\<lparr>sn_def_offset = at, sn_version = sv_version v\<rparr>"
  let ?f = "\<lparr>vf_name = ?nm, vf_ty = ty, vf_constant = c, vf_uses = [], vf_produced_by = by\<rparr>"
  let ?out = "(sv_out v)\<lparr>sb_values := sb_values (sv_out v) @ [?f]\<rparr>"
  have "sn_version nm < sv_version v" if "nm \<in> names (sv_out v)" for nm
    using assms(1) that arg_cong [of _ _ set] unfolding ssa_wf_def names_def by (metis (no_types, lifting) atLeastLessThan_iff image_iff list.set_map set_upt)
  then have fresh: "?nm \<notin> names (sv_out v)" by fastforce
  have old: "agrees ?out nm y = agrees (sv_out v) nm y" if "nm \<in> names (sv_out v)" for nm y
    using that unfolding agrees_def const_of_append by simp
  have new: "agrees ?out ?nm x" using fresh assms(3) unfolding agrees_def const_of_append by auto
  have "set (sv_stack v) \<subseteq> names (sv_out v)" "\<forall>i nm. bt_get (sv_locals v) i = Some nm \<longrightarrow> nm \<in> names (sv_out v)"
    using assms(1) by (auto simp: ssa_wf_def)
  then have "list_all2 (agrees ?out) (sv_stack v) st" "\<forall>i \<in> known. \<exists>nm x. bt_get (sv_locals v) i = Some nm \<and> ls i = Some x \<and> agrees ?out nm x"
    using assms(2) old by (auto simp: tracks_def list_all2_conv_all_nth subset_iff)
  then show ?thesis using new by (simp add: tracks_def def_val_def Let_def list_all2_appendI)
qed

lemma tracks_use: "tracks known (on_out (add_use nm at) v) f \<longleftrightarrow> tracks known v f"
  by (simp add: tracks_on_out)

definition learn :: "operator \<Rightarrow> u32 set \<Rightarrow> u32 set" where
  "learn op known = (case op of LocalSet i \<Rightarrow> insert i known | LocalTee i \<Rightarrow> insert i known | _ \<Rightarrow> known)"

lemma initialised_learn: "initialised known (op # ops) \<Longrightarrow> initialised (learn op known) ops"
  by (cases op) (auto simp: learn_def)

lemma local_set_tracks:
  assumes "tracks known v (st @ [x], ls)"
  shows "tracks (insert i known) (local_set pos at i tee v) (if tee then st @ [x] else st, ls(i \<mapsto> x))"
proof -
  obtain nm v' where p: "pop_use at v = (Some nm, v')" "tracks known v' (st, ls)" "agrees (sv_out v') nm x" using tracks_pop [OF assms, of at] by metis
  let ?v = "on_out (\<lambda>out. out\<lparr>sb_local_stores := sb_local_stores out @ [(pos, i, nm)]\<rparr>) v'"
  have "tracks known ?v (st, ls)" "agrees (sv_out ?v) nm x" using p by (simp_all add: tracks_on_out)
  from tracks_local [OF this, of i] show ?thesis
    using tracks_push [OF tracks_local [OF \<open>tracks known ?v (st, ls)\<close> \<open>agrees (sv_out ?v) nm x\<close>, of i], of nm x] p
    by (simp add: local_set_def Let_def)
qed

text \<open>Two operands popped, and one.\<close>

lemma tracks_pop2:
  assumes "tracks known v (st @ [x, y], ls)"
  obtains a b v1 v2 where "pop_use at v = (Some b, v1)" "pop_use at v1 = (Some a, v2)" "tracks known v2 (st, ls)"
    "agrees (sv_out v2) a x" "agrees (sv_out v2) b y"
proof -
  obtain b v1 where 1: "pop_use at v = (Some b, v1)" "tracks known v1 (st @ [x], ls)" "agrees (sv_out v1) b y"
    by (rule tracks_pop [of known v "st @ [x]" y ls at]) (use assms in simp_all)
  obtain a v2 where 2: "pop_use at v1 = (Some a, v2)" "tracks known v2 (st, ls)" "agrees (sv_out v2) a x" "const_of (sv_out v2) = const_of (sv_out v1)"
    using tracks_pop [OF 1(2), of at] by metis
  then have "agrees (sv_out v2) b y" using 1(3) by (simp add: agrees_def)
  then show ?thesis using that 1 2 by blast
qed

lemma fold_const_sound:
  assumes "arith op a b = Some c" "fold_const op x y = Some z" "\<And>k. x = Some k \<Longrightarrow> sint a = k" "\<And>k. y = Some k \<Longrightarrow> sint b = k"
  shows "sint c = z"
proof -
  from assms(2) obtain i j where xy: "x = Some i" "y = Some j" by (cases op; cases x; cases y) auto
  then have "i = sint a" "j = sint b" using assms(3, 4) by auto
  then show ?thesis using assms(1, 2) xy by (cases op) (auto simp: as_i32_def)
qed

lemma arith_op_tracks:
  assumes "ssa_wf v" "tracks known v (st @ [V32 a, V32 b], ls)" "arith op a b = Some c"
  shows "tracks known (arith_op at op v) (st @ [V32 c], ls)"
proof -
  obtain x y v1 v2 where p: "pop_use at v = (Some y, v1)" "pop_use at v1 = (Some x, v2)" "tracks known v2 (st, ls)"
      "agrees (sv_out v2) x (V32 a)" "agrees (sv_out v2) y (V32 b)" using tracks_pop2 [OF assms(2), of at] by metis
  have w: "ssa_wf v2" using pop_wf [OF pop_wf [OF assms(1)], of at at] p by simp
  show ?thesis
    using fold_const_sound [OF assms(3), of "const_of (sv_out v2) (Some x)" "const_of (sv_out v2) (Some y)"] p(4, 5)
    by (simp add: arith_op_def p(1, 2) Let_def) (intro tracks_def_val [OF w p(3)], simp add: agrees_def)
qed

lemma compare_op_tracks:
  assumes "ssa_wf v" "tracks known v (st @ [x, y], ls)"
  shows "tracks known (compare_op at op v) (st @ [z], ls)"
proof -
  obtain a b v1 v2 where p: "pop_use at v = (Some b, v1)" "pop_use at v1 = (Some a, v2)" "tracks known v2 (st, ls)"
    using tracks_pop2 [OF assms(2), of at] by metis
  have "ssa_wf v2" using pop_wf [OF pop_wf [OF assms(1)], of at at] p by simp
  then show ?thesis using tracks_def_val [of v2 known st ls None z] p(3) by (simp add: compare_op_def p(1, 2))
qed

lemma memory_load_tracks:
  assumes "ssa_wf v" "tracks known v (st @ [a], ls)"
  shows "tracks known (memory_load pos at width off v) (st @ [z], ls)"
proof -
  obtain nm v1 where p: "pop_use at v = (Some nm, v1)" "tracks known v1 (st, ls)" using tracks_pop [OF assms(2), of at] by metis
  have "ssa_wf v1" using pop_wf [OF assms(1), of at] p by simp
  then show ?thesis using tracks_def_val [of v1 known st ls None z] p by (simp add: memory_load_def Let_def tracks_on_out)
qed

lemma memory_store_tracks:
  assumes "tracks known v (st @ [a, x], ls)"
  shows "tracks known (memory_store pos at width v) (st, ls)"
  by (rule tracks_pop2 [OF assms, of at]) (simp add: memory_store_def tracks_on_out)

lemma ssa_step_tracks:
  assumes "wstep op f f'" "ssa_wf v" "tracks known v f" "initialised known (op # ops)"
  shows "tracks (learn op known) (ssa_step discr s op v) f'"
  using assms
proof (cases rule: wstep.cases)
  case (get ls i x st)
  then obtain nm where nm: "bt_get (sv_locals v) i = Some nm" "agrees (sv_out v) nm x" using assms(3, 4) by (force simp: tracks_def)
  let ?v = "on_out (\<lambda>out. out\<lparr>sb_local_loads := sb_local_loads out @ [(fst s, i, nm)]\<rparr>) (on_out (add_use nm (fst s)) v)"
  have "tracks known ?v (st, ls)" using get assms(3) by (simp add: tracks_on_out tracks_use)
  from tracks_push [OF this, of nm x] show ?thesis using nm get by (simp add: ssa_step_def local_get_def learn_def case_prod_unfold)
next
  case (set_local i st x ls)
  then show ?thesis using local_set_tracks [of known v st x ls i "fst s" "snd s" False] assms(3)
    by (simp add: ssa_step_def learn_def case_prod_unfold)
next
  case (tee i st x ls)
  then show ?thesis using local_set_tracks [of known v st x ls i "fst s" "snd s" True] assms(3)
    by (simp add: ssa_step_def learn_def case_prod_unfold)
next
  case (gget i st ls x)
  then show ?thesis using tracks_def_val [OF assms(2), of known st ls None x "snd s"] assms(3)
    by (simp add: ssa_step_def learn_def case_prod_unfold global_get_def Let_def tracks_on_out)
next
  case (gset i st x ls)
  then obtain nm v1 where "pop_use (snd s) v = (Some nm, v1)" "tracks known v1 (st, ls)" using tracks_pop [of known v st _ ls "snd s"] assms(3) by metis
  then show ?thesis using gset by (simp add: ssa_step_def learn_def case_prod_unfold global_set_def tracks_on_out)
next
  case (eqz st a ls)
  then obtain nm v1 where p: "pop_use (snd s) v = (Some nm, v1)" "tracks known v1 (st, ls)" using tracks_pop [of known v st _ ls "snd s"] assms(3) by metis
  then have "ssa_wf v1" using pop_wf [OF assms(2), of "snd s"] by simp
  then show ?thesis using tracks_def_val [of v1 known st ls None "V32 (of_bool (a = 0))"] p eqz by (simp add: ssa_step_def learn_def case_prod_unfold)
next
  case (br_if d st ls)
  then obtain nm v1 where "pop_use (snd s) v = (Some nm, v1)" "tracks known v1 (st, ls)" using tracks_pop [of known v st _ ls "snd s"] assms(3) by metis
  then show ?thesis using br_if by (simp add: ssa_step_def learn_def case_prod_unfold tracks_on_out)
next
  case (dropped st x ls)
  then obtain nm v1 where "pop_use (snd s) v = (Some nm, v1)" "tracks known v1 (st, ls)" using tracks_pop [of known v st _ ls "snd s"] assms(3) by metis
  then show ?thesis using dropped by (simp add: ssa_step_def learn_def case_prod_unfold)
next
  case (arith a b c st ls)
  then show ?thesis using arith_op_tracks [OF assms(2), of known st a b ls op c "snd s"] assms(3)
    by (cases op) (simp_all add: ssa_step_def learn_def case_prod_unfold)
next
  case (compare a b t st ls)
  then show ?thesis using compare_op_tracks [OF assms(2), of known st _ _ ls "snd s" op] assms(3)
    by (cases op) (simp_all add: ssa_step_def learn_def case_prod_unfold)
qed (use memory_load_tracks [OF assms(2)] memory_store_tracks assms(3) in
    \<open>auto simp: ssa_step_def learn_def case_prod_unfold intro!: tracks_def_val [OF assms(2)]\<close>)

lemma ssa_loop_tracks:
  assumes "wsteps (map snd code) f f'" "ssa_loop discr (map (\<lambda>(s, op). (s, Inr op)) code) v = Inr v'" "ssa_wf v" "tracks known v f"
    "initialised known (map snd code)"
  shows "\<exists>known'. tracks known' v' f'"
  using assms
proof (induction code arbitrary: f v known)
  case Nil
  then show ?case by (auto elim: wsteps.cases)
next
  case (Cons x code)
  obtain s op where x: "x = (s, op)" by fastforce
  from Cons.prems(1) obtain f1 where f1: "wstep op f f1" "wsteps (map snd code) f1 f'" by (auto simp: x elim: wsteps.cases)
  let ?v = "on_out (\<lambda>out. out\<lparr>sb_operator_count := sb_operator_count out + 1\<rparr>) v"
  have v: "ssa_wf ?v" "tracks known ?v f" using Cons.prems(3, 4) by (simp_all add: ssa_wf_other tracks_on_out)
  have "op \<noteq> End" using f1(1) by (auto elim: wstep.cases)
  then have "ssa_loop discr (map (\<lambda>(s, op). (s, Inr op)) code) (ssa_step discr s op ?v) = Inr v'"
    using Cons.prems(2) by (simp add: x Let_def split: if_splits)
  then show ?case
    using Cons.IH [OF f1(2) _ ssa_step_wf [OF v(1)] ssa_step_tracks [OF f1(1) v]] Cons.prems(5) initialised_learn [of known op "map snd code"]
    by (auto simp: x)
qed

lemma const_of_start: "const_of (sv_out (ssa_start n)) nm = None"
proof -
  define unknown where "unknown v \<longleftrightarrow> (\<forall>f \<in> set (sb_values (sv_out v)). vf_constant f = None)" for v :: ssa_vars
  have "unknown v \<Longrightarrow> unknown (seed_param i v)" for i v by (auto simp: unknown_def seed_param_def Let_def)
  then have "unknown v \<Longrightarrow> unknown (fold seed_param is v)" for "is" v by (induction "is" arbitrary: v) simp_all
  moreover have "unknown \<lparr>sv_out = empty_ssa, sv_stack = [], sv_version = 0, sv_locals = []\<rparr>" by (simp add: unknown_def empty_ssa_def)
  ultimately have "\<forall>f \<in> set (sb_values (sv_out (ssa_start n))). vf_constant f = None" unfolding ssa_start_def unknown_def by blast
  then show ?thesis by (auto simp: const_of_def find_Some_iff split: Option.bind_split)
qed

lemma tracks_start: "\<forall>i < n. ls (of_nat i) \<noteq> None \<Longrightarrow> tracks (of_nat ` {..<n}) (ssa_start n) ([], ls)"
proof -
  assume ls: "\<forall>i < n. ls (of_nat i) \<noteq> None"
  have "sv_stack (fold seed_param [0..<n] v) = sv_stack v \<and> (\<forall>i < n. bt_get (sv_locals (fold seed_param [0..<n] v)) (of_nat i) \<noteq> None)" for v
    by (induction n) (auto simp: seed_param_def Let_def less_Suc_eq)
  then have "sv_stack (ssa_start n) = []" "\<forall>i < n. bt_get (sv_locals (ssa_start n)) (of_nat i) \<noteq> None" by (simp_all add: ssa_start_def)
  then show ?thesis using ls by (auto simp: tracks_def agrees_def const_of_start)
qed

text \<open>
  C15: for straight-line code within the operator budget and made only of the operators the pass models on its stack
  (constants, reads and writes of locals and globals, 32- and 64-bit loads and stores, drop, a branch that is not taken,
  i32 add, sub, mul, and, or, xor, eqz, eq, ne, lt_u, ge_u), and whose reads of locals all follow a write or are of
  parameters, a value the pass knows as a constant is the value the code computes there: whatever the parameters, globals
  and memory hold, when the code has run, every stack entry has the constant the pass reports for its name, with 32-bit
  wrap-around in sums, differences and products. Code with calls, with any other operator (which the pass skips with a
  diagnostic, leaving its stack as it was) or with a read of an unwritten local is not covered.
\<close>

theorem constants_are_computed_values:
  assumes "ssa_loop discr (map (\<lambda>(s, op). (s, Inr op)) code) (ssa_start n) = Inr v"
    "wsteps (map snd code) ([], ls) (st, ls')" "\<forall>i < n. ls (of_nat i) \<noteq> None" "initialised (of_nat ` {..<n}) (map snd code)"
  shows "list_all2 (\<lambda>nm x. \<forall>c. const_of (sv_out v) (Some nm) = Some c \<longrightarrow> wval_int x = c) (sv_stack v) st"
  using ssa_loop_tracks [OF assms(2, 1) ssa_start_wf tracks_start [OF assms(3)] assms(4)] by (auto simp: tracks_def agrees_def [abs_def])

theorem constants_are_computed_values_witness:
  "\<exists>v. ssa_loop (\<lambda>_. []) (map (\<lambda>(s, op). (s, Inr op)) [((0, 5), I32Const 0x7fffffff), ((5, 7), I32Const 1), ((7, 8), I32Add)]) (ssa_start 0) = Inr v \<and>
     list_all2 (\<lambda>nm x. \<forall>c. const_of (sv_out v) (Some nm) = Some c \<longrightarrow> wval_int x = c) (sv_stack v) [V32 0x80000000] \<and>
     const_of (sv_out v) (Some (last (sv_stack v))) = Some (- 0x80000000)"
proof -
  let ?code = "[((0, 5), I32Const 0x7fffffff), ((5, 7), I32Const 1), ((7, 8), I32Add)]"
  have "wstep I32Add ([] @ [V32 0x7fffffff, V32 1], \<lambda>_. None) ([] @ [V32 0x80000000], \<lambda>_. None)" by (rule wstep.arith) simp
  moreover have "wstep (I32Const 1) ([V32 0x7fffffff], \<lambda>_. None) ([V32 0x7fffffff] @ [V32 1], \<lambda>_. None)" by (rule wstep.const32)
  moreover have "wstep (I32Const 0x7fffffff) ([], \<lambda>_. None) ([] @ [V32 0x7fffffff], \<lambda>_. None)" by (rule wstep.const32)
  ultimately have run: "wsteps (map snd ?code) ([], \<lambda>_. None) ([V32 0x80000000], \<lambda>_. None)" by (auto intro!: wsteps.intros)
  obtain v where v: "ssa_loop (\<lambda>_. []) (map (\<lambda>(s, op). (s, Inr op)) ?code) (ssa_start 0) = Inr v"
      "const_of (sv_out v) (Some (last (sv_stack v))) = Some (- 0x80000000)"
    by (simp add: ssa_eval)
  from constants_are_computed_values [OF v(1) run] v show ?thesis by auto
qed

text \<open>A declared local that was not written yet is zero, but reading it pushes nothing: here the sum is 4 when
  the code runs, and the pass calls it 7. A call has no effect on the pass's stack either.\<close>

definition unset_local :: "(op_site \<times> operator) list" where
  "unset_local = [((0, 2), I32Const 3), ((2, 4), LocalGet 0), ((4, 6), I32Const 4), ((6, 7), I32Add)]"

lemma unset_local_shifts_the_stack:
  "wsteps (map snd unset_local) ([], [0 \<mapsto> V32 0]) ([V32 3, V32 4], [0 \<mapsto> V32 0])"
  "rmap (\<lambda>v. const_of (sv_out v) (Some (last (sv_stack v)))) (ssa_loop discr (map (\<lambda>(s, op). (s, Inr op)) unset_local) (ssa_start 0)) = Inr (Some 7)"
proof -
  have "wstep I32Add ([V32 3] @ [V32 0, V32 4], [0 \<mapsto> V32 0]) ([V32 3] @ [V32 4], [0 \<mapsto> V32 0])" by (rule wstep.arith) simp
  moreover have "wstep (I32Const 4) ([V32 3, V32 0], [0 \<mapsto> V32 0]) ([V32 3, V32 0] @ [V32 4], [0 \<mapsto> V32 0])" by (rule wstep.const32)
  moreover have "wstep (LocalGet 0) ([V32 3], [0 \<mapsto> V32 0]) ([V32 3] @ [V32 0], [0 \<mapsto> V32 0])" by (rule wstep.get) simp
  moreover have "wstep (I32Const 3) ([], [0 \<mapsto> V32 0]) ([] @ [V32 3], [0 \<mapsto> V32 0])" by (rule wstep.const32)
  ultimately show "wsteps (map snd unset_local) ([], [0 \<mapsto> V32 0]) ([V32 3, V32 4], [0 \<mapsto> V32 0])"
    by (auto simp: unset_local_def intro!: wsteps.intros)
  show "rmap (\<lambda>v. const_of (sv_out v) (Some (last (sv_stack v)))) (ssa_loop discr (map (\<lambda>(s, op). (s, Inr op)) unset_local) (ssa_start 0)) = Inr (Some 7)"
    by (simp add: unset_local_def ssa_eval)
qed

text \<open>An operator the pass does not know leaves its operands on the pass's stack and pushes no result: for 6 and 3, an
  unsigned division (any unknown operator), 1 and a sum, the pass calls the sum 4, where the code computes 3.\<close>

lemma opaque_operator_leaves_the_stack:
  "rmap (\<lambda>v. const_of (sv_out v) (Some (last (sv_stack v))))
     (ssa_loop discr (map (\<lambda>(s, op). (s, Inr op)) [((0, 2), I32Const 6), ((2, 4), I32Const 3), ((4, 5), Other k), ((5, 7), I32Const 1), ((7, 8), I32Add)])
       (ssa_start 0)) = Inr (Some 4)"
  by (simp add: ssa_eval)

text \<open>The pass ends at the first \<open>end\<close>, that of an inner block, so what follows is not looked at.\<close>

lemma pass_ends_with_first_block:
  "rmap (length \<circ> sb_values) (analyze_values discr (\<lambda>_. [((0, 2), Inr BlockOp), ((2, 3), Inr End), ((3, 5), Inr (I32Const 1)), ((5, 6), Inr End)]) [] 0) = Inr 0"
  by (simp add: ssa_eval)

end
