(* ===== verification/Crypto_Props.thy ===== *)
theory Crypto_Props
  imports Crypto
begin

text \<open>
  What the engines of \<open>crypto.rs\<close> compute. The constant scan stops as soon as its buffer is full; it is related to
  the plain enumeration of every occurrence of every pattern. The built-in rule pack is the compiled-in table. The
  strings recovered from immediates are the maximal printable runs, and every hash a resolver is credited with is one.
\<close>

section \<open>Filling a bounded buffer\<close>

definition fill :: "nat \<Rightarrow> 'a list \<Rightarrow> 'a list \<Rightarrow> 'a list \<times> bool" where
  "fill cap hits ys = (if length hits + length ys < cap then (hits @ ys, False) else (take cap (hits @ ys), True))"

lemma fill_Nil: "length hits < cap \<Longrightarrow> fill cap hits [] = (hits, False)"
  by (simp add: fill_def)

lemma fill_room: "fill cap hits ys = (hits', False) \<Longrightarrow> length hits' < cap"
  by (auto simp: fill_def split: if_splits)

lemma fill_append:
  "fill cap hits (ys @ zs) = (case fill cap hits ys of (h, True) \<Rightarrow> (h, True) | (h, False) \<Rightarrow> fill cap h zs)"
  by (auto simp: fill_def)

lemma fill_Cons:
  "length hits < cap \<Longrightarrow> fill cap hits (y # ys) =
     (if cap \<le> length (hits @ [y]) then (hits @ [y], True) else fill cap (hits @ [y]) ys)"
  by (auto simp: fill_def le_Suc_eq Suc_diff_le)

section \<open>The scan finds every occurrence\<close>

definition occurrences :: "'a list \<Rightarrow> 'a list \<Rightarrow> nat list" where
  "occurrences pat bytes = filter (\<lambda>i. take (length pat) (drop i bytes) = pat) [0..<Suc (length bytes) - length pat]"

lemma occurrences_Cons:
  assumes "pat \<noteq> []"
  shows "occurrences pat (x # xs) =
     (if length (x # xs) < length pat then []
      else (if take (length pat) (x # xs) = pat then [0] else []) @ map Suc (occurrences pat xs))"
proof (cases "length (x # xs) < length pat")
  case False
  then have n: "Suc (length (x # xs)) - length pat = Suc (Suc (length xs) - length pat)" using assms by (cases pat) auto
  have "occurrences pat (x # xs) = filter (\<lambda>i. take (length pat) (drop i (x # xs)) = pat) (0 # map Suc [0..<Suc (length xs) - length pat])"
    unfolding occurrences_def n by (simp only: upt_conv_Cons [OF zero_less_Suc] map_Suc_upt One_nat_def)
  also have "\<dots> = (if take (length pat) (x # xs) = pat then [0] else []) @ map Suc (occurrences pat xs)"
    by (simp only: filter.simps filter_map comp_def drop_0 drop_Suc_Cons occurrences_def append.simps split: if_split) simp
  finally show ?thesis using False by simp
qed (simp add: occurrences_def)

lemma occurrences_Nil: "pat \<noteq> [] \<Longrightarrow> occurrences pat [] = []"
  by (cases pat) (simp_all add: occurrences_def)

lemma mem_occurrences:
  "pat \<noteq> [] \<Longrightarrow> i \<in> set (occurrences pat bytes) \<longleftrightarrow> i + length pat \<le> length bytes \<and> take (length pat) (drop i bytes) = pat"
  by (cases pat) (auto simp: occurrences_def)

lemma window_loop_fill:
  assumes "pat \<noteq> []" "length hits < cap"
  shows "window_loop cap mk pat i bytes hits = fill cap hits (map (\<lambda>k. mk (i + k)) (occurrences pat bytes))"
  using assms(2)
proof (induction bytes arbitrary: i hits)
  case (Cons x xs)
  have shift: "map (\<lambda>k. mk (i + k)) (map Suc ks) = map (\<lambda>k. mk (Suc i + k)) ks" for ks by simp
  have fits: "length (hits @ [mk i]) < cap \<Longrightarrow> window_loop cap mk pat (Suc i) xs (hits @ [mk i]) =
      fill cap (hits @ [mk i]) (map (\<lambda>k. mk (Suc i + k)) (occurrences pat xs))" by (rule Cons.IH)
  note later = Cons.IH [OF Cons.prems, of "Suc i"]
  show ?case
  proof (cases "length (x # xs) < length pat")
    case False
    then show ?thesis
      by (cases "take (length pat) (x # xs) = pat")
        (simp_all only: window_loop.simps occurrences_Cons [OF assms(1)] if_True if_False append.simps list.map(2) add_0_right
          Let_def fill_Cons [OF Cons.prems] shift later not_le split: if_split, use fits in simp_all)
  qed (simp add: occurrences_Cons [OF assms(1)] fill_Nil Cons.prems)
qed (simp add: assms(1) occurrences_Nil fill_Nil)

definition rule_hits :: "u64 \<Rightarrow> u8 list \<Rightarrow> packed_rule \<Rightarrow> const_hit list" where
  "rule_hits base bytes rule = (if pattern_of rule = [] then [] else map (hit_at base rule) (occurrences (pattern_of rule) bytes))"

lemma rule_loop_fill:
  "length hits < cap \<Longrightarrow> rule_loop cap base bytes rules hits = fill cap hits (concat (map (rule_hits base bytes) rules))"
proof (induction rules arbitrary: hits)
  case (Cons r rules)
  show ?case
  proof (cases "pattern_of r = [] \<or> length bytes < length (pattern_of r)")
    case True
    then have "rule_hits base bytes r = []" by (auto simp: rule_hits_def occurrences_def)
    with True Cons show ?thesis by simp
  next
    case False
    then have w: "window_loop cap (hit_at base r) (pattern_of r) 0 bytes hits = fill cap hits (rule_hits base bytes r)"
      using window_loop_fill [of "pattern_of r" hits cap] Cons.prems by (simp add: rule_hits_def)
    obtain h t where f: "fill cap hits (rule_hits base bytes r) = (h, t)" by fastforce
    show ?thesis
    proof (cases t)
      case True
      with False w f show ?thesis by (simp add: fill_append)
    next
      case t: False
      with Cons.IH [OF fill_room [of cap hits "rule_hits base bytes r" h]] f have "rule_loop cap base bytes rules h = fill cap h (concat (map (rule_hits base bytes) rules))" by simp
      with False w f t show ?thesis by (simp add: fill_append)
    qed
  qed
qed (simp add: fill_Nil)

text \<open>The chunks of a segment the loop can read, up to the first it cannot.\<close>

function seg_chunks :: "byte_reader \<Rightarrow> u64 \<Rightarrow> u64 \<Rightarrow> (u64 \<times> u8 list) list" where
  "seg_chunks get_bytes base fin =
     (if base < fin
      then let want = min CHUNK (unat (fin - base)) in
        (case read_chunk get_bytes base want of
           Inr (Some bytes) \<Rightarrow> (base, bytes) # seg_chunks get_bytes (base + of_nat want) fin
         | _ \<Rightarrow> [])
      else [])"
  by pat_completeness auto
termination
  by (relation "measure (\<lambda>(_, base, fin). unat (fin - base))") (auto simp: chunk_step)

declare seg_chunks.simps [simp del]

lemma seg_chunks_last:
  assumes "base < fin" "unat (fin - base) \<le> CHUNK"
  shows "seg_chunks get_bytes base fin = (case read_chunk get_bytes base (unat (fin - base)) of Inr (Some bytes) \<Rightarrow> [(base, bytes)] | _ \<Rightarrow> [])"
proof -
  have "base + of_nat (unat (fin - base)) = fin" by simp
  with assms show ?thesis by (simp add: seg_chunks.simps [of _ base] seg_chunks.simps [of _ fin] min_absorb2 split: sum.splits option.splits)
qed

definition chunk_hits :: "packed_rule list \<Rightarrow> u64 \<times> u8 list \<Rightarrow> const_hit list" where
  "chunk_hits rules chunk = (case chunk of (base, bytes) \<Rightarrow> concat (map (rule_hits base bytes) rules))"

definition all_hits :: "byte_reader \<Rightarrow> packed_rule list \<Rightarrow> segment_info list \<Rightarrow> const_hit list" where
  "all_hits get_bytes rules segs = concat (map (\<lambda>seg.
     concat (map (chunk_hits rules) (seg_chunks get_bytes (sg_start seg) (sg_end seg)))) (filter scannable segs))"

lemma set_trim: "set (trim s) \<subseteq> set s"
  unfolding trim_def by (auto dest!: set_dropWhileD)

lemma hex_pair_ascii: "is_ascii s \<Longrightarrow> i + 2 \<le> length s \<Longrightarrow> hex_pair s i \<noteq> Inl SlicePanic"
  using is_char_boundary_ascii [of s i] is_char_boundary_ascii [of s "i + 2"]
  by (cases "from_str_radix 8 16 (take 2 (drop i s))") (simp_all add: hex_pair_def)

lemma decode_hex_ascii:
  assumes "is_ascii h"
  shows "\<exists>d. decode_hex h = Inr d"
proof -
  let ?pairs = "map (\<lambda>k. hex_pair (trim h) (2 * k)) [0..<length (trim h) div 2]"
  have a: "is_ascii (trim h)" using assms set_trim [of h] by (auto simp: is_ascii_def list_all_iff)
  have "r \<noteq> Inl SlicePanic" if "r \<in> set ?pairs" for r
    using that hex_pair_ascii [OF a] by auto
  then have "rcollect ?pairs \<noteq> Inl SlicePanic" by (metis rcollect_Inl_mem)
  then show ?thesis by (cases "rcollect ?pairs") (auto simp: decode_hex_def hex_decode_def split: hex_error.splits)
qed

text \<open>A backend whose byte dumps are ASCII text: decoding them cannot abort.\<close>

locale hex_reader =
  fixes get_bytes :: byte_reader
  assumes ascii: "get_bytes ea n = Inr v \<Longrightarrow> as_str (jidx v ''hex'') = Some h \<Longrightarrow> is_ascii h"
    and no_panic: "get_bytes ea n \<noteq> Inl (Panic m)"
begin

lemma chunk_ok: "\<exists>c. read_chunk get_bytes base want = Inr c"
proof (cases "get_bytes base want")
  case (Inl e)
  with no_panic [of base want] show ?thesis by (cases e) (auto simp: read_chunk_def)
next
  case (Inr v)
  show ?thesis
  proof (cases "as_str (jidx v ''hex'')")
    case (Some h)
    from ascii [OF Inr Some] obtain d where "decode_hex h = Inr d" using decode_hex_ascii by blast
    with Inr Some show ?thesis by (simp add: read_chunk_def)
  qed (simp add: Inr read_chunk_def)
qed

lemma segment_loop_fill:
  "length hits < cap \<Longrightarrow> segment_loop get_bytes cap rules base fin hits =
     Inr (fill cap hits (concat (map (chunk_hits rules) (seg_chunks get_bytes base fin))))"
proof (induction "unat (fin - base)" arbitrary: base hits rule: less_induct)
  case less
  show ?case
  proof (cases "base < fin")
    case lt: True
    let ?want = "min CHUNK (unat (fin - base))"
    obtain c where c: "read_chunk get_bytes base ?want = Inr c" using chunk_ok by blast
    show ?thesis
    proof (cases c)
      case None
      with lt c less.prems show ?thesis by (simp add: segment_loop.simps [of _ _ _ base] seg_chunks.simps [of _ base] Let_def fill_Nil)
    next
      case (Some bytes)
      let ?hs = "concat (map (rule_hits base bytes) rules)"
      obtain h t where f: "fill cap hits ?hs = (h, t)" by fastforce
      then have "\<not> t \<Longrightarrow> segment_loop get_bytes cap rules (base + of_nat ?want) fin h =
          Inr (fill cap h (concat (map (chunk_hits rules) (seg_chunks get_bytes (base + of_nat ?want) fin))))"
        by (intro less.hyps chunk_step lt) (auto dest: fill_room)
      with lt c Some f rule_loop_fill [OF less.prems, of base bytes rules] show ?thesis
        by (cases t) (simp_all add: segment_loop.simps [of _ _ _ base] seg_chunks.simps [of _ base] Let_def fill_append chunk_hits_def)
    qed
  qed (simp add: segment_loop.simps [of _ _ _ base] seg_chunks.simps [of _ base] fill_Nil less.prems)
qed

lemma segments_loop_fill:
  "length hits < cap \<Longrightarrow> segments_loop get_bytes cap rules segs hits = Inr (fill cap hits (all_hits get_bytes rules segs))"
proof (induction segs arbitrary: hits)
  case (Cons seg segs)
  show ?case
  proof (cases "scannable seg")
    case True
    let ?hs = "concat (map (chunk_hits rules) (seg_chunks get_bytes (sg_start seg) (sg_end seg)))"
    obtain h t where f: "fill cap hits ?hs = (h, t)" by fastforce
    then have "\<not> t \<Longrightarrow> segments_loop get_bytes cap rules segs h = Inr (fill cap h (all_hits get_bytes rules segs))"
      by (intro Cons.IH) (auto dest: fill_room)
    with True f segment_loop_fill [OF Cons.prems, of rules "sg_start seg" "sg_end seg"] show ?thesis
      by (cases t) (simp_all add: all_hits_def fill_append)
  qed (use Cons in \<open>simp add: all_hits_def\<close>)
qed (simp add: all_hits_def fill_Nil)

end

interpretation mock_bytes: hex_reader "\<lambda>ea n. mock_get_bytes ea n b" for b
proof
  show "is_ascii h" if "mock_get_bytes ea n b = Inr v" "as_str (jidx v ''hex'') = Some h" for ea n v h
    using that hex_encode_byte_range by (fastforce simp: mock_get_bytes_def result_simps Let_def is_ascii_def list_all_iff)
  show "mock_get_bytes ea n b \<noteq> Inl (Panic m)" for ea n m
    by (auto simp: mock_get_bytes_def require_open_def result_simps Let_def split: option.splits if_splits)
qed

text \<open>
  C24: The constant scan reports exactly what enumerating every occurrence of every enabled pattern in every readable
  chunk gives: the first four times \<open>max_hits\<close> occurrences, ranked by confidence and then address and cut to \<open>max_hits\<close>,
  and it says that it was truncated precisely when there are at least that many.
\<close>
theorem crypto_scan_finds_all:
  assumes "\<And>ea n v h. get_bytes ea n = Inr v \<Longrightarrow> as_str (jidx v ''hex'') = Some h \<Longrightarrow> is_ascii h"
    and "\<And>ea n m. get_bytes ea n \<noteq> Inl (Panic m)" and "0 < max_hits"
  shows "crypto_scan (Inr segs) get_bytes idx max_hits rules =
    (let found = all_hits get_bytes (packed_rules rules) segs in Inr (JObj [
       (''kind'', JStr ''crypto_scan''),
       (''findings'', JArr (map (const_finding idx) (take max_hits (rank_hits (take (4 * max_hits) found))))),
       (''truncated'', JBool (4 * max_hits \<le> length found)), (''packs'', jn 9),
       (''note'', JStr ''ranked by confidence; callers come from the analysis index'')]))"
proof -
  have "hex_reader get_bytes" using assms(1, 2) by unfold_locales
  then have "segments_loop get_bytes (max_hits * 4) (packed_rules rules) segs [] =
      Inr (fill (max_hits * 4) [] (all_hits get_bytes (packed_rules rules) segs))"
    using assms(3) by (intro hex_reader.segments_loop_fill) simp_all
  moreover have "length CONST_PACKS = 9" by (simp add: CONST_PACKS_def)
  ultimately show ?thesis by (simp add: crypto_scan_def fill_def Let_def mult.commute)
qed

lemma hex_encode_trim: "trim (hex_encode bs) = hex_encode bs"
  using hex_encode_byte_range [of _ bs] by (intro trim_no_ws) (fastforce simp: is_ws_def)

lemma decode_hex_encode [simp]: "decode_hex (hex_encode bs) = Inr (Some bs)"
  by (simp add: decode_hex_def hex_encode_trim hex_decode_encode)

text \<open>A database whose code starts with the TEA constant, scanned for it alone.\<close>

definition tea_mock :: mock where
  "tea_mock = mock_opened\<lparr>mb_bytes := [(0x401000, [0x90, 0xb9, 0x79, 0x37, 0x9e])]\<rparr>"

definition tea_pack :: rule_pack where
  "tea_pack = \<lparr>rp_name = ''p'', rp_version = ''1'', rp_source = [], rp_sha256 = ''0'', rp_enabled = True,
     rp_constants = [\<lparr>cr_id = ''tea'', cr_bytes = [0xb9, 0x79, 0x37, 0x9e], cr_label = ''TEA'', cr_table_size = 4, cr_rarity = f_one\<rparr>],
     rp_api_hashes = [], rp_strings = []\<rparr>"

theorem crypto_scan_finds_all_witness:
  "crypto_scan (mock_segments tea_mock) (\<lambda>ea n. mock_get_bytes ea n tea_mock) sample_index 2 (Some [tea_pack]) =
    Inr (JObj [(''kind'', JStr ''crypto_scan''),
      (''findings'', JArr [const_finding sample_index \<lparr>ch_ea = 0x401001, ch_name = ''tea'', ch_label = ''TEA'',
         ch_table_size = 4, ch_confidence = f_one, ch_pack_name = ''p'', ch_pack_sha = ''0''\<rparr>]),
      (''truncated'', JBool False), (''packs'', jn 9),
      (''note'', JStr ''ranked by confidence; callers come from the analysis index'')])"
proof -
  let ?get = "\<lambda>ea n. mock_get_bytes ea n tea_mock" and ?bytes = "[0x90, 0xb9, 0x79, 0x37, 0x9e] :: u8 list"
  let ?hit = "\<lparr>ch_ea = 0x401001, ch_name = ''tea'', ch_label = ''TEA'', ch_table_size = 4, ch_confidence = f_one, ch_pack_name = ''p'', ch_pack_sha = ''0''\<rparr>"
  let ?rules = "packed_rules (Some [tea_pack])"
  have r: "?rules = [(''TEA'', ''p'', ''0'', ''tea'', [0xb9, 0x79, 0x37, 0x9e], 4, f_one)]" by (simp add: packed_rules_def tea_pack_def)
  have "read_chunk ?get 0x401000 4096 = Inr (Some ?bytes)" "read_chunk ?get 0x402000 4096 = Inr None"
    by (simp_all add: read_chunk_def mock_get_bytes_def require_open_def tea_mock_def mock_new_def bt_get_def)
  then have "seg_chunks ?get 0x401000 0x402000 = [(0x401000, ?bytes)]" "seg_chunks ?get 0x402000 0x403000 = []"
    by (simp_all add: seg_chunks_last CHUNK_def)
  moreover have "chunk_hits ?rules (0x401000, ?bytes) = [?hit]"
    unfolding r by (simp add: chunk_hits_def rule_hits_def pattern_of_def occurrences_Cons occurrences_Nil hit_at_def)
  ultimately have "all_hits ?get ?rules
     [\<lparr>sg_name = ''.text'', sg_start = 0x401000, sg_end = 0x402000, sg_perms = ''r-x''\<rparr>,
      \<lparr>sg_name = ''.data'', sg_start = 0x402000, sg_end = 0x403000, sg_perms = ''rw-''\<rparr>] = [?hit]"
    by (simp add: all_hits_def scannable_def saturating_sub_def)
  moreover have "mock_segments tea_mock = Inr [\<lparr>sg_name = ''.text'', sg_start = 0x401000, sg_end = 0x402000, sg_perms = ''r-x''\<rparr>,
      \<lparr>sg_name = ''.data'', sg_start = 0x402000, sg_end = 0x403000, sg_perms = ''rw-''\<rparr>]"
    by (simp add: mock_segments_def require_open_def tea_mock_def mock_new_def)
  ultimately show ?thesis
    by (simp add: crypto_scan_finds_all [of ?get 2] mock_bytes.ascii mock_bytes.no_panic Let_def rank_hits_def)
qed

text \<open>
  A pattern that begins in one chunk and ends in the next is not among the occurrences: whatever is found at
  \<open>ea\<close> lies, whole, in the bytes read for one chunk.
\<close>

lemma hits_lie_in_a_chunk:
  assumes "h \<in> set (all_hits get_bytes rules segs)"
  shows "\<exists>seg base bytes rule i. seg \<in> set segs \<and> (base, bytes) \<in> set (seg_chunks get_bytes (sg_start seg) (sg_end seg)) \<and>
    rule \<in> set rules \<and> h = hit_at base rule i \<and> i + length (pattern_of rule) \<le> length bytes \<and>
    take (length (pattern_of rule)) (drop i bytes) = pattern_of rule"
proof -
  obtain seg c where c: "seg \<in> set segs" "c \<in> set (seg_chunks get_bytes (sg_start seg) (sg_end seg))" "h \<in> set (chunk_hits rules c)"
    using assms unfolding all_hits_def by (auto)
  obtain base bytes where b: "c = (base, bytes)" by fastforce
  with c(3) obtain r where r: "r \<in> set rules" "h \<in> set (rule_hits base bytes r)" by (auto simp: chunk_hits_def)
  then obtain i where "pattern_of r \<noteq> []" "i \<in> set (occurrences (pattern_of r) bytes)" "h = hit_at base r i"
    by (auto simp: rule_hits_def split: if_splits)
  then show ?thesis using c b r by (metis mem_occurrences)
qed

section \<open>The built-in pack is the compiled-in table\<close>

lemma strip_blanks_step: "\<not> is_ws a \<Longrightarrow> byte_of a < 128 \<Longrightarrow> strip_blanks (a # s) = a # strip_blanks s"
  by (cases s; cases "tl s") (auto simp del: strip_blanks.simps(2) simp: strip_blanks.simps(2) [of a])

lemma strip_blanks_plain: "(\<And>c. c \<in> set s \<Longrightarrow> \<not> is_ws c \<and> byte_of c < 128) \<Longrightarrow> strip_blanks s = s"
  by (induction s) (simp_all add: strip_blanks_step del: strip_blanks.simps(2))

lemma decode_hex_str_encode [simp]: "decode_hex_str (hex_encode bs) = Inr (Some bs)"
proof -
  have "strip_blanks (hex_encode bs) = hex_encode bs"
    using hex_encode_byte_range [of _ bs] by (intro strip_blanks_plain) (fastforce simp: is_ws_def)
  then show ?thesis by (simp add: decode_hex_str_def hex_decode_encode)
qed

definition table_ok :: "const_pack \<Rightarrow> bool" where
  "table_ok p \<longleftrightarrow> cp_bytes p \<noteq> [] \<and> length (cp_bytes p) \<le> MAX_PATTERN_BYTES \<and> cp_table_size p < 2 ^ 64 \<and>
     lit 1 10 \<le> cp_rarity p \<and> cp_rarity p \<le> f_one \<and> valid_rule_id (builtin_id (cp_name p))"

definition table_rule :: "const_pack \<Rightarrow> constant_rule" where
  "table_rule p = \<lparr>cr_id = builtin_id (cp_name p), cr_bytes = cp_bytes p, cr_label = cp_name p,
     cr_table_size = cp_table_size p, cr_rarity = cp_rarity p\<rparr>"

lemma as_u64_jn: "n < 2 ^ 64 \<Longrightarrow> as_u64 (jn n) = Some (of_nat n)"
  by (simp add: jn_def)

lemma f_clamp_id: "lo \<le> x \<Longrightarrow> x \<le> hi \<Longrightarrow> f_clamp lo hi x = x"
  by (auto simp: f_clamp_def)

lemma table_constant_rule:
  "table_ok p \<Longrightarrow> constant_rule_of f n (builtin_id (cp_name p)) (const_pack_json p) = Inr (table_rule p)"
  by (simp add: constant_rule_of_def const_pack_json_def table_ok_def table_rule_def as_u64_jn f_clamp_id unwrap_or_def
      unat_of_nat take_bit_nat_eq_self not_less)

lemma table_rules_loop:
  "list_all table_ok ps \<Longrightarrow> distinct (map (\<lambda>p. builtin_id (cp_name p)) ps) \<Longrightarrow>
   set (map (\<lambda>p. builtin_id (cp_name p)) ps) \<inter> set seen = {} \<Longrightarrow>
   rules_loop algos f n (map const_pack_json ps) seen p = Inr (p\<lparr>rp_constants := rp_constants p @ map table_rule ps\<rparr>)"
proof (induction ps arbitrary: n seen p)
  case (Cons c ps)
  have i: "unwrap_or (as_str (jidx (const_pack_json c) ''id'')) [] = builtin_id (cp_name c)"
    "unwrap_or (as_str (jidx (const_pack_json c) ''kind'')) [] = ''constant''"
    by (simp_all add: const_pack_json_def unwrap_or_def)
  have a: "add_rule algos f n (builtin_id (cp_name c)) (const_pack_json c) p = Inr (p\<lparr>rp_constants := rp_constants p @ [table_rule c]\<rparr>)"
    using Cons.prems(1) by (simp add: add_rule_def i table_constant_rule)
  show ?case using Cons.prems Cons.IH [of "builtin_id (cp_name c) # seen" "Suc n" "p\<lparr>rp_constants := rp_constants p @ [table_rule c]\<rparr>"]
    by (simp add: i a table_ok_def Let_def)
qed simp

lemma const_packs_ok: "list_all table_ok CONST_PACKS"
  using lit_mono [of 1 10 100] lit_mono [of 1 10 10 8] lit_1 [of 1] lit_mono [of _ 100 1 1] lit_mono [of 8 10 1 1]
  by (simp add: CONST_PACKS_def table_ok_def MAX_PATTERN_BYTES_def valid_rule_id_def builtin_id_def to_lowercase_def
      ascii_lower_def is_alnum_def char_of_def bit_0)

lemma const_packs_distinct: "distinct (map (\<lambda>p. builtin_id (cp_name p)) CONST_PACKS)"
  by (simp add: CONST_PACKS_def builtin_id_def to_lowercase_def ascii_lower_def char_of_def bit_0)

lemma builtin_packs_table:
  "builtin_packs = Inr [\<lparr>rp_name = ''builtin'', rp_version = ''1'', rp_source = ''compiled-in CONST_PACKS + ALGOS (#12)'',
     rp_sha256 = hex16 (fnv1a64 ''builtin''), rp_enabled = True, rp_constants = map table_rule CONST_PACKS,
     rp_api_hashes = [], rp_strings = []\<rparr>]"
proof -
  have n: "length CONST_PACKS \<le> MAX_RULES_PER_PACK" by (simp add: CONST_PACKS_def MAX_RULES_PER_PACK_def)
  have t: "trim ''builtin'' \<noteq> []" by (simp add: trim_def is_ws_def)
  show ?thesis
    using table_rules_loop [OF const_packs_ok const_packs_distinct, of "[]"] n t
    by (simp add: builtin_packs_def parse_rules_value_def const_packs_json_def PACK_FORMAT_def unwrap_or_def)
qed

text \<open>A rule without its provenance.\<close>

definition bare_rule :: "packed_rule \<Rightarrow> string \<times> string \<times> u8 list \<times> nat \<times> f64" where
  "bare_rule r = (case r of (label, _, _, rule_id, pat, table_size, rarity) \<Rightarrow> (label, rule_id, pat, table_size, rarity))"

text \<open>
  Where the rules directory is absent or holds no pack, the engine falls back to the built-in pack, generated as JSON from the
  compiled-in tables and parsed again like any other pack; the rules scanned for are then the compiled-in ones: the same
  patterns, ids, labels, table sizes and rarities, in the same order.
\<close>
lemma fallback_scans_the_table:
  assumes "case dir of None \<Rightarrow> True | Some entries \<Rightarrow> list_all (\<lambda>(f, _). file_extension f \<noteq> Some ''json'') entries"
  shows "\<exists>packs. load_effective from_slice dir = Inr packs \<and>
    map bare_rule (packed_rules (Some packs)) = map bare_rule (packed_rules None)"
proof -
  have "load_dir from_slice dir algo_names = Inr []"
  proof (cases dir)
    case (Some entries)
    with assms have "filter (\<lambda>(f, _). file_extension f = Some ''json'') entries = []" by (auto simp: list_all_iff filter_empty_conv)
    with Some show ?thesis by (simp add: load_dir_def)
  qed (simp add: load_dir_def)
  then have "load_effective from_slice dir = builtin_packs" by (simp add: load_effective_def)
  then show ?thesis
    by (simp add: builtin_packs_table packed_rules_def bare_rule_def table_rule_def)
qed

section \<open>Recovered strings are the printable runs\<close>

function printable_runs :: "(u64 \<times> u8) list \<Rightarrow> (u64 \<times> u8) list list" where
  "printable_runs [] = []"
| "printable_runs (x # xs) =
     (if printable (snd x)
      then (x # takeWhile (\<lambda>y. printable (snd y)) xs) # printable_runs (dropWhile (\<lambda>y. printable (snd y)) xs)
      else printable_runs xs)"
  by pat_completeness auto
termination
  by (relation "measure length") (auto simp: less_Suc_eq_le length_dropWhile_le)

definition string_rows :: "(u64 \<times> u8) list \<Rightarrow> json list" where
  "string_rows sites = map run_row (filter (\<lambda>r. 4 \<le> length r) (printable_runs sites))"

definition finish_run :: "(u64 \<times> u8) list \<Rightarrow> nat \<Rightarrow> nat option \<times> json list \<Rightarrow> json list" where
  "finish_run sites mx r = (case r of
       (Some start, strings) \<Rightarrow>
         if 4 \<le> length sites - start \<and> length strings < mx then strings @ [run_row (drop start sites)] else strings
     | (None, strings) \<Rightarrow> strings)"

lemma runs_closed: "cur \<noteq> [] \<Longrightarrow> list_all (\<lambda>y. printable (snd y)) cur \<Longrightarrow> \<not> printable (snd x) \<Longrightarrow>
    printable_runs (cur @ x # xs) = cur # printable_runs xs"
  by (cases cur) (auto simp: list_all_iff takeWhile_append dropWhile_append)

lemma runs_all:
  assumes "cur \<noteq> []" "list_all (\<lambda>y. printable (snd y)) cur"
  shows "printable_runs cur = [cur]"
proof (cases cur)
  case (Cons x xs)
  with assms(2) have tw: "takeWhile (\<lambda>y. printable (snd y)) xs = xs" and dw: "dropWhile (\<lambda>y. printable (snd y)) xs = []"
    by (simp_all add: list_all_iff)
  from Cons assms(2) show ?thesis unfolding printable_runs.simps Cons tw dw by simp
qed (use assms in simp)

lemma run_loop_rows:
  assumes "list_all (\<lambda>y. printable (snd y)) cur" "length strings < mx"
  shows "finish_run (pre @ cur @ rest) mx
      (run_loop (pre @ cur @ rest) mx (length pre + length cur) (map snd rest) (if cur = [] then None else Some (length pre)) strings)
    = strings @ take (mx - length strings) (string_rows (cur @ rest))"
  using assms
proof (induction rest arbitrary: pre cur strings)
  case Nil
  then show ?case by (cases "cur = []") (auto simp: finish_run_def string_rows_def runs_all take_Cons')
next
  case (Cons x rest)
  show ?case
  proof (cases "printable (snd x)")
    case True
    have "list_all (\<lambda>y. printable (snd y)) (cur @ [x])" using Cons.prems(1) True by simp
    from Cons.IH [OF this Cons.prems(2), of pre] True show ?thesis by (auto simp: unwrap_or_def)
  next
    case False
    note fresh = Cons.IH [of "[]" _ "pre @ cur @ [x]"]
    show ?thesis
    proof (cases "cur = []")
      case True
      with fresh [of strings] False Cons.prems show ?thesis by (simp add: string_rows_def)
    next
      case cur: False
      have rows: "string_rows (cur @ x # rest) = (if 4 \<le> length cur then [run_row cur] else []) @ string_rows rest"
        using runs_closed [OF cur Cons.prems(1) False] by (simp add: string_rows_def)
      show ?thesis using fresh [of strings] fresh [of "strings @ [run_row cur]"] cur False Cons.prems
        by (auto simp: rows Let_def finish_run_def take_Cons' not_le)
    qed
  qed
qed

text \<open>
  C28: The strings recovered from a function's immediates are the maximal runs of printable bytes of the immediate stream that
  are at least four characters long, in order and up to \<open>max_strings\<close> of them, each with the addresses its bytes come from.
\<close>
theorem recovered_strings_are_runs:
  assumes "0 < max_strings"
  shows "recovered_rows max_strings sites = take max_strings (string_rows sites)"
  using run_loop_rows [of "[]" "[]" max_strings "[]" sites] assms
  by (auto simp: recovered_rows_def finish_run_def)

theorem recovered_strings_are_runs_witness:
  "recovered_rows 1 (map (Pair 0x401000) [0x68, 0x69, 0x21, 0x21, 0, 0x41, 0x41, 0x41, 0x41]) =
     [run_row (map (Pair 0x401000) [0x68, 0x69, 0x21, 0x21])]"
  by (subst recovered_strings_are_runs) (simp_all add: string_rows_def printable_def)

section \<open>Verified hashes are hashes of import names\<close>

definition corpus_sound :: "string list \<Rightarrow> corpus \<Rightarrow> bool" where
  "corpus_sound nms c \<longleftrightarrow> (\<forall>key algo nm wide. (algo, nm, wide) \<in> set (unwrap_or (bt_get c key) []) \<longrightarrow>
     nm \<in> set nms \<and> (\<exists>a \<in> set ALGOS. ha_name a = algo \<and> ha_wide a = wide \<and> ha_compute a (hash_input wide nm) = key))"

lemma add_hash_sound: "corpus_sound nms c \<Longrightarrow> nm \<in> set nms \<Longrightarrow> a \<in> set ALGOS \<Longrightarrow> corpus_sound nms (add_hash nm c a)"
  unfolding corpus_sound_def add_hash_def Let_def by (auto simp: unwrap_or_def)

lemma add_hashes_sound: "corpus_sound nms c \<Longrightarrow> nm \<in> set nms \<Longrightarrow> set as \<subseteq> set ALGOS \<Longrightarrow> corpus_sound nms (foldl (add_hash nm) c as)"
  by (induction as arbitrary: c) (simp_all add: add_hash_sound)

lemma corpus_fold_sound:
  "corpus_sound nms c \<Longrightarrow> set ns \<subseteq> set nms \<Longrightarrow> corpus_sound nms (foldl (\<lambda>c nm. foldl (add_hash nm) c ALGOS) c ns)"
  by (induction ns arbitrary: c) (simp_all add: add_hashes_sound)

lemma build_corpus_sound: "build_corpus imports = Inr c \<Longrightarrow> imports None 0 20000 = Inr v \<Longrightarrow> corpus_sound (import_names v) c"
  using corpus_fold_sound [of "import_names v" "[]" "import_names v"]
  by (simp add: build_corpus_def) (simp add: corpus_sound_def unwrap_or_def)

lemma verify_loop_rows:
  "row \<in> set (verify_loop c ks verified) \<Longrightarrow> row \<in> set verified \<or>
     (\<exists>k \<in> set ks. \<exists>m \<in> set (unwrap_or (bt_get c (ucast k)) []). row = verified_row (ucast k) m)"
proof (induction ks arbitrary: verified)
  case (Cons k ks)
  let ?v = "verified @ map (verified_row (ucast k)) (take 4 (unwrap_or (bt_get c (ucast k)) []))"
  have now: "row \<in> set verified \<or> (\<exists>m \<in> set (unwrap_or (bt_get c (ucast k)) []). row = verified_row (ucast k) m)" if "row \<in> set ?v"
    using that by (auto dest: in_set_takeD)
  from Cons.prems have "row \<in> set ?v \<or> row \<in> set (verify_loop c ks ?v)" by (auto simp: Let_def split: if_splits)
  then show ?case
  proof
    assume "row \<in> set ?v"
    with now show ?thesis by auto
  next
    assume "row \<in> set (verify_loop c ks ?v)"
    from Cons.IH [OF this] now show ?thesis by auto
  qed
qed simp

lemma resolver_loop_rows:
  "finding \<in> set (fst (resolver_loop c mx fs findings)) \<Longrightarrow> finding \<in> set findings \<or>
     (\<exists>(ea, f) \<in> set fs. finding = resolver_finding ea f (verify_loop c (ff_constants f) []))"
proof (induction fs arbitrary: findings)
  case (Cons p fs)
  obtain ea f where p: "p = (ea, f)" by fastforce
  let ?more = "findings @ [resolver_finding ea f (verify_loop c (ff_constants f) [])]"
  from Cons.prems p have "finding \<in> set ?more \<or> finding \<in> set (fst (resolver_loop c mx fs findings)) \<or>
      finding \<in> set (fst (resolver_loop c mx fs ?more))" by (auto simp: Let_def split: if_splits)
  then show ?case using Cons.IH [of findings] Cons.IH [of ?more] p by auto
qed simp

lemma resolver_loop_bound: "length findings < mx \<Longrightarrow> length (fst (resolver_loop c mx fs findings)) \<le> mx"
  by (induction c mx fs findings rule: resolver_loop.induct) (auto simp: Let_def)

definition rows_of :: "json \<Rightarrow> string \<Rightarrow> json list" where
  "rows_of v k = unwrap_or (as_array (jidx v k)) []"

text \<open>
  Every hash a resolver is credited with is one: the row names a constant of the function whose low 32 bits are the hash, under
  the algorithm the row names, of a name the database imports. There are at most \<open>max_findings\<close> resolvers.
\<close>
lemma verified_hashes_are_hashes:
  assumes "imports None 0 20000 = Inr v" "resolve_api_hashes imports idx max_findings = Inr out" "0 < max_findings"
  shows "length (rows_of out ''findings'') \<le> max_findings \<and>
    (\<forall>finding \<in> set (rows_of out ''findings''). \<forall>row \<in> set (rows_of finding ''verified_hashes'').
      \<exists>(ea, f) \<in> set (ai_functions idx). \<exists>k \<in> set (ff_constants f). \<exists>a \<in> set ALGOS. \<exists>nm \<in> set (import_names v).
        ha_compute a (hash_input (ha_wide a) nm) = ucast k \<and> row = verified_row (ucast k) (ha_name a, nm, ha_wide a))"
proof -
  from assms(1, 2) obtain c where c: "build_corpus imports = Inr c" by (auto simp: build_corpus_def)
  let ?fs = "fst (resolver_loop c max_findings (ai_functions idx) [])"
  have out: "set (rows_of out ''findings'') = set ?fs" "length (rows_of out ''findings'') = length ?fs"
    using assms(2) c by (auto simp: resolve_api_hashes_def rows_of_def unwrap_or_def split: prod.splits)
  have "\<exists>(ea, f) \<in> set (ai_functions idx). \<exists>k \<in> set (ff_constants f). \<exists>a \<in> set ALGOS. \<exists>nm \<in> set (import_names v).
        ha_compute a (hash_input (ha_wide a) nm) = ucast k \<and> row = verified_row (ucast k) (ha_name a, nm, ha_wide a)"
    if "finding \<in> set ?fs" "row \<in> set (rows_of finding ''verified_hashes'')" for finding row
  proof -
    from resolver_loop_rows [OF that(1)] obtain ea f where f: "(ea, f) \<in> set (ai_functions idx)"
      "finding = resolver_finding ea f (verify_loop c (ff_constants f) [])" by auto
    with that(2) have "row \<in> set (verify_loop c (ff_constants f) [])" by (simp add: rows_of_def resolver_finding_def unwrap_or_def)
    from verify_loop_rows [OF this] obtain k m where k: "k \<in> set (ff_constants f)" "m \<in> set (unwrap_or (bt_get c (ucast k)) [])"
      "row = verified_row (ucast k) m" by auto
    obtain algo nm wide where m: "m = (algo, nm, wide)" by (cases m)
    from build_corpus_sound [OF c assms(1)] k(2) m obtain a where "nm \<in> set (import_names v)" "a \<in> set ALGOS" "ha_name a = algo" "ha_wide a = wide"
      "ha_compute a (hash_input wide nm) = ucast k" unfolding corpus_sound_def by blast
    with f(1) k m show ?thesis by (intro bexI [of _ "(ea, f)"]) auto
  qed
  with out resolver_loop_bound [of "[]" max_findings c "ai_functions idx"] assms(3) show ?thesis by auto
qed

end
