(* ===== verification/Spec2Isabelle.thy ===== *)
theory Spec2Isabelle
  imports Cache_Props Hierarchical_Props Wasm_Ssa Crypto_Props
begin

text \<open>
  A verification of reverse-mcp, a server that gives language-model agents access to a reverse
  engineering database (IDA Pro) through the Model Context Protocol.

  \<^bold>\<open>The program.\<close> The broker (\<open>crates/rmcp-broker\<close>) speaks the protocol with the agent. For every open
  database it runs a worker process (\<open>crates/rmcp-worker\<close>) and talks to it in newline-delimited JSON
  frames over pipes (\<open>crates/rmcp-core/src/protocol.rs\<close>). A worker owns one backend: the real one
  (\<open>crates/rmcp-ida/src/idalib_backend.rs\<close>, calls into the IDA SDK) or the in-memory one
  (\<open>mock.rs\<close>) of a build without an SDK. A tool call of the agent names a database by a short
  handle; the broker resolves it, sends one or more requests to that database's worker, and keeps
  large answers in a result store under a handle of their own. Every database has a revision
  counter; a request that changes the database may carry the revision its author saw, and a stale
  one is refused. Workers that die are replaced within a restart budget; long calls run as background
  jobs; risky calls run in disposable processes with a hard timeout; functions too large to analyse
  at once are cut into regions over which facts are propagated.

  \<^bold>\<open>The theories\<close>, in the order in which they build on each other:

  \<^item> \<open>Prelude\<close>: machine integers, results and the early-return bind, pagination, text and numbers in
    text; the locale \<open>step_relation\<close>, what computations that stop at the first error preserve.
    \<open>BTree_Map\<close>: ordered and hash maps as association lists, both instances of the locale \<open>map_store\<close>.
    \<open>Float64\<close>: finite doubles with rounding to nearest even, so that scores and thresholds are those of the code.
    \<open>Json\<close>: \<open>serde_json\<close> values and their accessors.
  \<^item> \<open>Errors\<close>, \<open>Handles\<close>, \<open>Protocol\<close>, \<open>Result_Store\<close>, \<open>Analysis_Index\<close>, \<open>Backend\<close>, \<open>Discovery\<close>: the files of
    \<open>crates/rmcp-core/src\<close> of the same name (\<open>Discovery\<close> also has \<open>backend_registry.rs\<close> and the constants
    of \<open>platform.rs\<close>). \<open>Backend\<close> states the trait's contract on mutations as the locale
    \<open>revisioned_backend\<close>: success moves the revision on by one, failure changes nothing.
  \<^item> \<open>Mock_Backend\<close> (\<open>crates/rmcp-ida/src/mock.rs\<close>): every method of the backend; it interprets
    \<open>revisioned_backend\<close>.
  \<^item> \<open>Plan\<close>, \<open>Transforms\<close>, \<open>Workflow\<close>, \<open>Worker_State\<close>, \<open>Dispatch\<close> (\<open>crates/rmcp-worker/src\<close>): mutation plans (the locale
    \<open>plan_backend\<close> extends \<open>revisioned_backend\<close>), deobfuscation transforms, the analyst workflows (\<open>workflow.rs\<close>), the worker's state and result
    cache, and the method table with \<open>handle\<close> and the request loop. One definition per arm of
    \<open>dispatch\<close>, composed in a table as the \<open>match\<close> composes them.
    \<open>Dispatch_Props\<close> and \<open>Cache_Props\<close> hold what is true of all methods.
  \<^item> The worker's analysis engines, each a theory of its own in \<open>crates/rmcp-worker/src\<close>: \<open>Rules\<close> (rule packs), \<open>Crypto\<close> with \<open>Crypto_Props\<close>
    (constants, API hashes and strings; the locale \<open>hex_reader\<close> is what the scan needs of a backend's bytes), \<open>Signatures\<close>,
    \<open>Block_Diff\<close> (\<open>blockdiff.rs\<close>), \<open>Deep\<close>, \<open>Type_Recovery\<close> (\<open>types.rs\<close>), \<open>Value_Analysis\<close> (\<open>valuean.rs\<close>) and \<open>Deob\<close>. They take the
    backend operations they call as arguments; \<open>Dispatch\<close> runs them on the in-memory backend.
  \<^item> \<open>Worker_Pool\<close> (\<open>worker_pool.rs\<close>, \<open>recovery.rs\<close>), \<open>Jobs\<close>, \<open>Isolation\<close>, \<open>Preflight\<close>, \<open>Tarjan\<close>, \<open>Regions\<close>
    (\<open>regions.rs\<close>, \<open>largefn.rs\<close>), \<open>Dataflow\<close>, \<open>Broker\<close> (\<open>lib.rs\<close>, \<open>config.rs\<close>), \<open>Tools\<close> (\<open>tools.rs\<close>),
    \<open>Hierarchical\<close> (\<open>largefn_tools.rs\<close>) and \<open>Registry\<close> (the dispatch of \<open>registry.rs\<close>, \<open>call_tool\<close>, \<open>resources.rs\<close>):
    \<open>crates/rmcp-broker/src\<close>. \<open>Tarjan\<close> holds only the proof for \<open>Preflight\<close>; the locale \<open>component_search\<close>
    is what \<open>Regions\<close> needs of it. \<open>Wasm_Tools\<close> is \<open>wasm_tools.rs\<close>. \<open>Tools_Props\<close> and \<open>Hierarchical_Props\<close> hold what is true of the tools.

  \<^item> \<open>Wasm_Module\<close>, \<open>Wasm_Cfg\<close>, \<open>Wasm_Ssa\<close>, \<open>Wasm_Calls\<close>, \<open>Wasm_Pseudo\<close>: the files of \<open>crates/rmcp-wasm/src\<close>. The decoder they
    use is a library; its payloads and operators are datatypes and its readers arguments.

  \<^bold>\<open>How the code is modelled.\<close> A struct is a record, an enum a datatype, \<open>u64\<close> and \<open>u32\<close> are words,
  \<open>usize\<close> is a natural number (lengths and indices, bounded by memory), a string is its list of
  bytes, \<open>Result\<close> is a sum with the error on the left. A panic is the error \<open>Panic\<close>: in a worker it ends
  the process, in a tool the call. A method that takes \<open>&mut self\<close> returns the new state. Operations
  that hold a mutex throughout are one step; the job registry, the disposable workers and the pump,
  where other steps come between, are step relations or event sequences over which
  invariants are proved. In \<open>Broker\<close> a call of a session runs the worker's own \<open>handle\<close> on the state
  of the process at the other end, so that the theorems of \<open>Tools_Props\<close> speak of an agent's tool call and
  the database it ends in.

  Code that is not in the repository is a parameter: the text of a JSON value and its parser, the
  clock, the file system and machine (\<open>machine\<close>, \<open>host\<close>), what a started process does (\<open>launch\<close>,
  \<open>child_env\<close>, \<open>moment\<close>). What the worker's methods use of them is the record \<open>env\<close>.

  Loops over data are structural recursion. Those that are not terminate by a measure
  (\<open>digits\<close>, \<open>flow_loop\<close>: the iterations left, \<open>segment_loop\<close>: the bytes left, \<open>walk_loop\<close>: the functions not visited), or are partial functions into option whose results are
  proved to exist: \<open>tarjan_while\<close> on every well-formed graph, \<open>recover_loop\<close> within the restart
  budget. \<open>read_frames\<close> takes the number of frames it may read; one more than were written is
  enough, as its theorem shows.

  \<^bold>\<open>What is shown\<close>, by group; the text before each property states it in full.

  \<^item> Safety of changes: a stale revision changes nothing, at the worker (\<open>Dispatch_Props\<close>) and from the
    tool call down to the database (\<open>Tools_Props\<close>), except through restore, rollback and \<open>analyze_wait\<close>, which do not
    look at it; a request answered with an error leaves the database alone, but for a snapshot of \<open>deob.apply\<close>; a tool
    that runs on a session touches no database but its own; every revision is in the audit trail, but for
    \<open>types.apply\<close> and restore; plans stop at the first failure and report it, unless an operation panics, which
    ends the worker with what was applied so far; a snapshot undoes what follows it, the revision apart; sites of
    validated transforms are not referenced, and lie in their function unless their end wraps at 64 bits.
  \<^item> Answers: a cached microcode dump is what a fresh one would be; predicates, reachability and
    queries of the index mean what they say; an index of any reachable backend is current and its
    call edges are dual; saved indexes are found again; a traced call path is a shortest one; the
    lists a workflow returns stay within its budget.
  \<^item> Engines: rule packs that load hold exactly the rules of their files, checked throughout, and without any the compiled-in table is scanned; the constant
    scan is the enumeration of all occurrences within chunks; recovered strings are the printable runs; similarities
    are scores between zero and one, rounding included, and transfers are best matches; a block diff pairs blocks
    one to one and, unless truncated, accounts for every block once; a deep analysis visits what direct calls reach and never decompiles a function again when resumed;
    values are the constants at the call sites; proposed fields are exactly the grouping of the accesses by base and offset; the
    deobfuscation passes report the first matches of their patterns.
  \<^item> Results and handles: spilled results read back until they expire, the store stays within its cap,
    handles are fresh and parse back (lemmas \<open>spill_is_fresh\<close>, \<open>db_handles_distinct_and_parse\<close>).
  \<^item> Processes: the worker answers requests in order until it is shut down, a response cannot be written (exit code 3) or a handler panics; the pump answers each at most once and leaves no
    caller waiting; structured errors cross the pipe; recovery restores a session or declares it
    dead; running jobs stay within their cap and the outcomes of jobs that were not cancelled are kept until they expire; at most two disposable workers run and
    the ledger of them balances; frames read back as written
    on a pipe without I/O errors (\<open>frame_read_from\<close> and \<open>write_frame_to\<close> have those errors too).
  \<^item> Large functions: the component search returns the strongly connected components; regions
    partition the blocks and their edges are those of the blocks; the facts of a region are what its
    processed predecessors sent, up to the cap, nothing is lost from the frontier, and the pass converges when the graph is acyclic; the workflow over them always returns, leaves the database
    alone and no process behind, and its overview tells what became of every region asked for.
  \<^item> WebAssembly: an accepted module is within its budget, the section limit apart, and the functions of its one function section are
    numbered after the imports; the control-flow pass and the pseudocode recover the nesting of well-nested code (the pseudocode: without \<open>try\<close>), given as the tree
    \<open>wcode\<close>; values are in single-assignment form, and constants are what straight-line code computes (the step
    relation \<open>wstep\<close>, which has the operators the pass models and no others) when every local is written before it is read; targets of
    indirect calls are those of the table where its segments do not overlap; a query never panics.
  \<^item> Installations: the selected installation is a valid match, for a strict requirement the best verified one, and a requirement's text
    means the range it writes.

  Where the code does something other than its comments say, a lemma shows it on a concrete input, for
  instance \<open>restore_reuses_a_revision\<close>, \<open>loop_in_chunk_stalls\<close>, \<open>death_counts_as_clean_exit\<close>,
  \<open>one_block_region_has_no_evidence\<close>, \<open>unset_local_shifts_the_stack\<close>, \<open>restore_ignores_the_revision\<close>, \<open>plan_panics_half_way\<close>,
  \<open>wrapping_site_is_accepted\<close>, \<open>predecessors_come_first\<close>, \<open>opaque_operator_leaves_the_stack\<close>, and \<open>is_mutation_misses_methods\<close> below.

  \<^bold>\<open>Not modelled.\<close> The IDA backend and its bindings (foreign code), the Windows parts (job objects,
  version resources, the system registry), the broker's start-up, command line and the HTTP and stdio servers
  (library glue), the tools that report on the machine, prompts and JSON schemas (static text), paths next to
  the executable (\<open>layout.rs\<close>). What is left of the files modelled in part is of these kinds.
\<close>

section \<open>Across components\<close>

text \<open>The broker's list of mutating methods misses most of the worker's.\<close>

lemma is_mutation_misses_methods:
  "filter (\<lambda>m. \<not> is_mutation m) MUTATING_METHODS =
     [''func.create'', ''func.delete'', ''func.resize'', ''hr.lvar_rename'', ''deep.retype'', ''types.apply'',
      ''deob.apply'', ''plan.apply'', ''snapshot.restore'', ''analyze_wait'']"
  by (simp add: is_mutation_def MUTATING_METHODS_def)

text \<open>The list of methods that may not run in the background is the worker's list of mutating methods
  but for \<open>analyze_wait\<close>, which the worker's table answers without changing the database.\<close>

lemma background_methods_keep_the_database:
  assumes "m \<notin> set JOB_MUTATING" "m \<notin> {''backend.select'', ''shutdown'', ''db.open'', ''db.close'', ''snapshot.create''}"
  shows "keeps (dispatch en m p)"
  using assms by (intro dispatch_reading) (simp add: reading_def JOB_MUTATING_def MUTATING_METHODS_def)

end
